(* ===== verification/Prelude.thy ===== *)
theory Prelude
  imports Main "HOL-Library.Word"
begin

text \<open>
  Shared vocabulary of the development: machine integers, results that carry either a
  value, an error code of the program or a memory fault, bounds-checked access to
  byte buffers, and the generic lemmas on lists and words the components use.

  The C code is modelled at the width it uses: \<open>uint16_t\<close>, \<open>uint32_t\<close> and \<open>uint64_t\<close> are
  \<open>16 word\<close>, \<open>32 word\<close>, \<open>64 word\<close>. A \<open>size_t\<close> that only counts bytes of a buffer is a
  \<open>nat\<close>; where its wrap-around matters it is computed on \<open>u64\<close>. The host is
  little-endian and 64-bit, which is what the code's unconverted reads of disk fields
  suppose.
\<close>

unbundle bit_operations_syntax

type_synonym byte = "8 word"
type_synonym u16 = "16 word"
type_synonym u32 = "32 word"
type_synonym u64 = "64 word"

section \<open>Results\<close>

text \<open>
  A fault is an access the C standard leaves undefined (or that reads bytes nothing has
  written). The code has no branch for it; the model returns it as a value, so that
  ``this operation is memory safe'' is the theorem that no fault is ever returned.
\<close>

datatype fault =
    OOB_Read      \<comment> \<open>read outside of a buffer\<close>
  | OOB_Write     \<comment> \<open>write outside of a buffer\<close>
  | Uninit_Read   \<comment> \<open>read of bytes the current operation has not produced\<close>
  | Null_Deref    \<comment> \<open>dereference of a null pointer\<close>
  | Wild_Pointer  \<comment> \<open>use of a pointer that points to no live object\<close>
  | Div_By_Zero   \<comment> \<open>integer division by zero\<close>

datatype 'e failure = Err 'e | Fault fault

definition rbind :: "'e + 'a \<Rightarrow> ('a \<Rightarrow> 'e + 'b) \<Rightarrow> 'e + 'b" where
  "rbind m f = (case m of Inl e \<Rightarrow> Inl e | Inr x \<Rightarrow> f x)"

definition ensure :: "bool \<Rightarrow> 'e \<Rightarrow> 'e + unit" where
  "ensure b e = (if b then Inr () else Inl e)"

lemma rbind_simps [simp]:
  "rbind (Inl e) f = Inl e"
  "rbind (Inr x) f = f x"
  by (simp_all add: rbind_def)

lemma rbind_eq_Inr_iff: "rbind m f = Inr y \<longleftrightarrow> (\<exists>x. m = Inr x \<and> f x = Inr y)"
  by (cases m) simp_all

lemma rbind_eq_Inl_iff: "rbind m f = Inl e \<longleftrightarrow> m = Inl e \<or> (\<exists>x. m = Inr x \<and> f x = Inl e)"
  by (cases m) simp_all

lemma rbind_assoc: "rbind (rbind m f) g = rbind m (\<lambda>x. rbind (f x) g)"
  by (cases m) simp_all

lemma rbind_cong [fundef_cong]:
  "m = m' \<Longrightarrow> (\<And>x. m' = Inr x \<Longrightarrow> f x = g x) \<Longrightarrow> rbind m f = rbind m' g"
  by (cases m') simp_all

lemma ensure_simps [simp]:
  "ensure True e = Inr ()"
  "ensure False e = Inl e"
  by (simp_all add: ensure_def)

lemma ensure_eq_Inr_iff [simp]: "ensure b e = Inr u \<longleftrightarrow> b"
  by (simp add: ensure_def)

lemma ensure_eq_Inl_iff [simp]: "ensure b e = Inl e' \<longleftrightarrow> \<not> b \<and> e' = e"
  by (auto simp add: ensure_def)

text \<open>A caller that replaces whatever error an operation reports by its own code.\<close>

definition recode :: "'e \<Rightarrow> 'd + 'a \<Rightarrow> 'e + 'a" where
  "recode e m = (case m of Inl _ \<Rightarrow> Inl e | Inr x \<Rightarrow> Inr x)"

lemma recode_simps [simp]:
  "recode e (Inl d) = Inl e"
  "recode e (Inr x) = Inr x"
  by (simp_all add: recode_def)

lemma recode_eq_Inr_iff [simp]: "recode e m = Inr x \<longleftrightarrow> m = Inr x"
  by (cases m) simp_all

lemma recode_eq_Inl_iff: "recode e m = Inl e' \<longleftrightarrow> e' = e \<and> (\<exists>d. m = Inl d)"
  by (cases m) auto

text \<open>A result is safe when it is not a fault: the operation returned a value or one of
  the program's own error codes.\<close>

definition safe :: "'e failure + 'a \<Rightarrow> bool" where
  "safe r \<longleftrightarrow> (\<forall>f. r \<noteq> Inl (Fault f))"

lemma safe_simps [simp]:
  "safe (Inr x)"
  "safe (Inl (Err e))"
  "\<not> safe (Inl (Fault f))"
  by (simp_all add: safe_def)

lemma safe_rbind [intro]:
  "safe m \<Longrightarrow> (\<And>x. m = Inr x \<Longrightarrow> safe (f x)) \<Longrightarrow> safe (rbind m f)"
  by (cases m) (simp_all add: safe_def)

lemma safe_ensure [simp]: "safe (ensure b (Err e))"
  by (cases b) simp_all

lemma safe_recode [simp]: "safe (recode (Err e) m)"
  by (cases m) simp_all

section \<open>Buffers\<close>

definition segment :: "'a list \<Rightarrow> nat \<Rightarrow> nat \<Rightarrow> 'a list" where
  "segment xs off n = take n (drop off xs)"

lemma length_segment [simp]: "length (segment xs off n) = min n (length xs - off)"
  by (simp add: segment_def)

lemma segment_0 [simp]: "segment xs off 0 = []"
  by (simp add: segment_def)

lemma segment_all [simp]: "segment xs 0 (length xs) = xs"
  by (simp add: segment_def)

lemma segment_append_segment:
  "segment xs off m @ segment xs (off + m) n = segment xs off (m + n)"
  by (simp add: segment_def take_add add.commute)

lemma segment_segment: "i + n \<le> m \<Longrightarrow> segment (segment xs off m) i n = segment xs (off + i) n"
  by (simp add: segment_def drop_take min_def add.commute)

lemma segment_append_left: "off + n \<le> length xs \<Longrightarrow> segment (xs @ ys) off n = segment xs off n"
  by (simp add: segment_def)

lemma segment_append_right: "length xs \<le> off \<Longrightarrow> segment (xs @ ys) off n = segment ys (off - length xs) n"
  by (simp add: segment_def)

lemma segment_prefix [simp]: "segment (xs @ ys) 0 (length xs) = xs"
  by (simp add: segment_def)

lemma nth_segment: "i < n \<Longrightarrow> off + i < length xs \<Longrightarrow> segment xs off n ! i = xs ! (off + i)"
  by (simp add: segment_def)

text \<open>A read of \<open>n\<close> bytes at an offset of a buffer, as \<open>memcpy\<close> or a field access does it.\<close>

definition mem_read :: "'a list \<Rightarrow> nat \<Rightarrow> nat \<Rightarrow> 'e failure + 'a list" where
  "mem_read buf off n = (if off + n \<le> length buf then Inr (segment buf off n) else Inl (Fault OOB_Read))"

lemma mem_read_eq_Inr_iff:
  "mem_read buf off n = Inr bs \<longleftrightarrow> off + n \<le> length buf \<and> bs = segment buf off n"
  by (auto simp: mem_read_def)

lemma mem_read_ok [simp]: "off + n \<le> length buf \<Longrightarrow> mem_read buf off n = Inr (segment buf off n)"
  by (simp add: mem_read_def)

lemma safe_mem_read [simp]: "safe (mem_read buf off n) \<longleftrightarrow> off + n \<le> length buf"
  by (simp add: mem_read_def)

section \<open>Words\<close>

lemma unat_add_of_nat:
  fixes w :: "'a::len word"
  assumes "unat w + n < 2 ^ LENGTH('a)"
  shows "unat (w + of_nat n) = unat w + n"
proof -
  have "unat (w + of_nat n) = (unat w + n) mod 2 ^ LENGTH('a)"
    by (simp add: unat_word_ariths(1) unat_of_nat mod_add_right_eq)
  with assms show ?thesis by simp
qed

lemma unat_pow2:
  assumes "n < LENGTH('a)"
  shows "unat (2 ^ n :: 'a::len word) = 2 ^ n"
proof -
  have "unat (of_nat (2 ^ n) :: 'a word) = 2 ^ n mod 2 ^ LENGTH('a)"
    by (simp only: unat_of_nat)
  also have "\<dots> = 2 ^ n" using assms by simp
  finally show ?thesis by simp
qed

lemma unat_u64_lt [simp]: "unat (w :: u64) < 18446744073709551616"
  using unsigned_less [of w] by simp

lemma unat_u32_lt [simp]: "unat (w :: u32) < 4294967296"
  using unsigned_less [of w] by simp

lemma unat_u16_lt [simp]: "unat (w :: u16) < 65536"
  using unsigned_less [of w] by simp

lemma unat_byte_lt [simp]: "unat (w :: byte) < 256"
  using unsigned_less [of w] by simp

lemma unat_and_le: "unat (w AND m :: 'a::len word) \<le> unat m"
  by (simp only: word_le_nat_alt [symmetric] word_and_le1)

text \<open>Integer promotions keep the value.\<close>

lemma unat_ucast_up [simp]:
  "unat (ucast (a :: u16) :: u32) = unat a"
  "unat (ucast a :: u64) = unat a"
  "unat (ucast (b :: u32) :: u64) = unat b"
  by (simp_all add: unsigned_ucast_eq take_bit_nat_eq_self
      order.strict_trans [OF unat_u16_lt] order.strict_trans [OF unat_u32_lt])

text \<open>The length of a C string held in a buffer ends at the first zero byte.\<close>

definition c_str :: "byte list \<Rightarrow> byte list" where
  "c_str bs = takeWhile (\<lambda>b. b \<noteq> 0) bs"

lemma c_str_no_nul: "0 \<notin> set bs \<Longrightarrow> c_str bs = bs"
  by (simp add: c_str_def takeWhile_eq_all_conv) metis

lemma c_str_terminated: "0 \<notin> set bs \<Longrightarrow> c_str (bs @ 0 # cs) = bs"
  by (induction bs) (simp_all add: c_str_def)

end
