(* ===== verification/Utils.thy ===== *)
theory Utils
  imports Prelude
begin

text \<open>
  \<open>src/core/utils.h\<close> and \<open>src/core/utils.c\<close>: error codes, bit-field helpers,
  little-endian decoding, allocation and the two read loops. It also holds the model of
  the operating system the code reads through: an open file and \<open>pread(2)\<close>.
\<close>

section \<open>Error codes\<close>

datatype sqfs_error =
    SQFS_ERR_CORRUPT
  | SQFS_ERR_BAD_MAGIC
  | SQFS_ERR_BAD_VERSION
  | SQFS_ERR_BAD_COMP
  | SQFS_ERR_BAD_INODE
  | SQFS_ERR_BAD_DIR
  | SQFS_ERR_BAD_XATTR
  | SQFS_ERR_BAD_BLOCK
  | SQFS_ERR_NOT_FOUND
  | SQFS_ERR_NO_MEMORY
  | SQFS_ERR_IO
  | SQFS_ERR_OVERFLOW

type_synonym 'a res = "sqfs_error failure + 'a"

text \<open>The numeric value of each enumerator, as C callers see it.\<close>

fun sqfs_error_code :: "sqfs_error \<Rightarrow> int" where
  "sqfs_error_code SQFS_ERR_CORRUPT = -1001"
| "sqfs_error_code SQFS_ERR_BAD_MAGIC = -1002"
| "sqfs_error_code SQFS_ERR_BAD_VERSION = -1003"
| "sqfs_error_code SQFS_ERR_BAD_COMP = -1004"
| "sqfs_error_code SQFS_ERR_BAD_INODE = -1005"
| "sqfs_error_code SQFS_ERR_BAD_DIR = -1006"
| "sqfs_error_code SQFS_ERR_BAD_XATTR = -1007"
| "sqfs_error_code SQFS_ERR_BAD_BLOCK = -1008"
| "sqfs_error_code SQFS_ERR_NOT_FOUND = -1009"
| "sqfs_error_code SQFS_ERR_NO_MEMORY = -1010"
| "sqfs_error_code SQFS_ERR_IO = -1011"
| "sqfs_error_code SQFS_ERR_OVERFLOW = -1012"

datatype errno = ENOENT | EINTR | EIO | EBADF | ENOMEM | ENOTDIR | EISDIR | EINVAL
  | E2BIG | ENOSPC | EROFS | ENODATA | EOVERFLOW | EOPNOTSUPP

text \<open>\<open>sqfs_errno\<close> takes the whole enumeration, \<open>SQFS_OK\<close> included: \<open>None\<close> is
  \<open>SQFS_OK\<close>, and the result \<open>None\<close> is 0.\<close>

fun sqfs_errno :: "sqfs_error option \<Rightarrow> errno option" where
  "sqfs_errno None = None"
| "sqfs_errno (Some SQFS_ERR_CORRUPT) = Some EIO"
| "sqfs_errno (Some SQFS_ERR_BAD_MAGIC) = Some EIO"
| "sqfs_errno (Some SQFS_ERR_BAD_VERSION) = Some EIO"
| "sqfs_errno (Some SQFS_ERR_BAD_INODE) = Some EIO"
| "sqfs_errno (Some SQFS_ERR_BAD_DIR) = Some EIO"
| "sqfs_errno (Some SQFS_ERR_BAD_XATTR) = Some EIO"
| "sqfs_errno (Some SQFS_ERR_BAD_BLOCK) = Some EIO"
| "sqfs_errno (Some SQFS_ERR_NOT_FOUND) = Some ENOENT"
| "sqfs_errno (Some SQFS_ERR_NO_MEMORY) = Some ENOMEM"
| "sqfs_errno (Some SQFS_ERR_IO) = Some EIO"
| "sqfs_errno (Some SQFS_ERR_OVERFLOW) = Some EOVERFLOW"
| "sqfs_errno (Some SQFS_ERR_BAD_COMP) = Some EIO"

lemma sqfs_error_code_inj: "sqfs_error_code a = sqfs_error_code b \<longleftrightarrow> a = b"
  by (cases a; cases b) simp_all

lemma sqfs_error_code_neg: "sqfs_error_code e < 0"
  by (cases e) simp_all

section \<open>Metadata references\<close>

definition sqfs_meta_block_pos :: "u64 \<Rightarrow> u64" where
  "sqfs_meta_block_pos ref = drop_bit 16 ref"

definition sqfs_meta_block_offset :: "u64 \<Rightarrow> u16" where
  "sqfs_meta_block_offset ref = ucast (ref AND 0xFFFF)"

definition sqfs_make_meta_ref :: "u64 \<Rightarrow> u16 \<Rightarrow> u64" where
  "sqfs_make_meta_ref pos offset = push_bit 16 pos OR ucast offset"

lemma mask_numerals:
  "(0xFF :: 'a::len word) = mask 8"
  "(0xFFF :: 'a word) = mask 12"
  "(0xFFFF :: 'a word) = mask 16"
  "(0x00FFFFFF :: 'a word) = mask 24"
  "(0xFFFFF :: 'a word) = mask 20"
  by (simp_all add: mask_eq_exp_minus_1)

text \<open>Packing and unpacking a reference: the low 16 bits always survive, the position
  survives when it fits the 48 bits that are left for it.\<close>

lemma meta_block_offset_make: "sqfs_meta_block_offset (sqfs_make_meta_ref pos off) = off"
  unfolding sqfs_meta_block_offset_def sqfs_make_meta_ref_def mask_numerals
  by (rule bit_word_eqI) (auto simp: bit_simps)

lemma meta_block_pos_make_mod:
  "sqfs_meta_block_pos (sqfs_make_meta_ref pos off) = take_bit 48 pos"
  unfolding sqfs_meta_block_pos_def sqfs_make_meta_ref_def
  by (rule bit_word_eqI) (auto simp: bit_simps dest: bit_imp_le_length)

lemma meta_block_pos_make:
  assumes "unat pos < 2 ^ 48"
  shows "sqfs_meta_block_pos (sqfs_make_meta_ref pos off) = pos"
proof -
  have "unat (take_bit 48 pos) = unat pos"
    using assms by (simp only: unsigned_take_bit_eq take_bit_nat_eq_self)
  then show ?thesis by (simp only: meta_block_pos_make_mod word_unat_eq_iff)
qed

lemma make_meta_ref_unpack:
  "sqfs_make_meta_ref (sqfs_meta_block_pos ref) (sqfs_meta_block_offset ref) = ref"
  unfolding sqfs_meta_block_pos_def sqfs_meta_block_offset_def sqfs_make_meta_ref_def mask_numerals
proof (rule bit_word_eqI)
  fix n assume "n < LENGTH(64)"
  then show "bit (push_bit 16 (drop_bit 16 ref) OR ucast (ucast (ref AND mask 16) :: u16)) n \<longleftrightarrow> bit ref n"
    by (cases "n < 16") (auto simp: bit_simps)
qed

lemma unat_meta_block_pos: "unat (sqfs_meta_block_pos ref) < 2 ^ 48"
  unfolding sqfs_meta_block_pos_def unat_drop_bit_eq drop_bit_eq_div
  using unat_u64_lt [of ref] by (simp add: unat_div less_mult_imp_div_less)

section \<open>Block sizes and device numbers\<close>

definition sqfs_block_is_uncompressed :: "u32 \<Rightarrow> bool" where
  "sqfs_block_is_uncompressed sz \<longleftrightarrow> sz AND push_bit 24 1 \<noteq> 0"

definition sqfs_block_size :: "u32 \<Rightarrow> u32" where
  "sqfs_block_size sz = sz AND 0x00FFFFFF"

definition sqfs_dev_major :: "u32 \<Rightarrow> u32" where
  "sqfs_dev_major dev = drop_bit 8 (dev AND 0xFFF00)"

definition sqfs_dev_minor :: "u32 \<Rightarrow> u32" where
  "sqfs_dev_minor dev = (dev AND 0x000FF) OR (drop_bit 12 dev AND 0xFFF00)"

text \<open>The encoding the two device decoders invert (the Linux \<open>new_encode_dev\<close> layout):
  12 bits of major number, 20 bits of minor number.\<close>

definition encode_dev :: "u32 \<Rightarrow> u32 \<Rightarrow> u32" where
  "encode_dev major minor =
     (minor AND 0xFF) OR push_bit 8 (major AND 0xFFF) OR push_bit 12 (minor AND 0xFFF00)"

lemma mask_FFF00: "(0xFFF00 :: u32) = push_bit 8 (mask 12)"
  by (simp add: mask_eq_exp_minus_1)

lemma dev_major_encode: "sqfs_dev_major (encode_dev major minor) = major AND 0xFFF"
  unfolding sqfs_dev_major_def encode_dev_def mask_FFF00 mask_numerals
  by (rule bit_word_eqI) (auto simp: bit_simps)

lemma dev_minor_encode: "sqfs_dev_minor (encode_dev major minor) = minor AND 0xFFFFF"
proof (rule bit_word_eqI)
  fix n assume "n < LENGTH(32)"
  then show "bit (sqfs_dev_minor (encode_dev major minor)) n \<longleftrightarrow> bit (minor AND 0xFFFFF) n"
    unfolding sqfs_dev_minor_def encode_dev_def mask_FFF00 mask_numerals
    by (cases "n < 8"; cases "n < 20") (auto simp: bit_simps)
qed

lemma block_size_bound: "unat (sqfs_block_size w) < 2 ^ 24"
proof -
  have "sqfs_block_size w = take_bit 24 w"
    unfolding sqfs_block_size_def mask_numerals(4) by (simp add: take_bit_eq_mask)
  then have "unat (sqfs_block_size w) = take_bit 24 (unat w)"
    by (simp add: unsigned_take_bit_eq)
  then show ?thesis by (simp only: take_bit_nat_less_exp)
qed

section \<open>Little-endian decoding\<close>

definition sqfs_le16_to_cpu :: "byte list \<Rightarrow> u16" where
  "sqfs_le16_to_cpu p = ucast (p ! 0) OR push_bit 8 (ucast (p ! 1))"

definition sqfs_le32_to_cpu :: "byte list \<Rightarrow> u32" where
  "sqfs_le32_to_cpu p =
     ucast (p ! 0) OR push_bit 8 (ucast (p ! 1)) OR
     push_bit 16 (ucast (p ! 2)) OR push_bit 24 (ucast (p ! 3))"

definition sqfs_le64_to_cpu :: "byte list \<Rightarrow> u64" where
  "sqfs_le64_to_cpu p =
     ucast (p ! 0) OR push_bit 8 (ucast (p ! 1)) OR
     push_bit 16 (ucast (p ! 2)) OR push_bit 24 (ucast (p ! 3)) OR
     push_bit 32 (ucast (p ! 4)) OR push_bit 40 (ucast (p ! 5)) OR
     push_bit 48 (ucast (p ! 6)) OR push_bit 56 (ucast (p ! 7))"

text \<open>A field read at an offset of a buffer: the pointer is dereferenced only inside it.\<close>

definition get_le16 :: "byte list \<Rightarrow> nat \<Rightarrow> u16 res" where
  "get_le16 buf off = rbind (mem_read buf off 2) (\<lambda>p. Inr (sqfs_le16_to_cpu p))"

definition get_le32 :: "byte list \<Rightarrow> nat \<Rightarrow> u32 res" where
  "get_le32 buf off = rbind (mem_read buf off 4) (\<lambda>p. Inr (sqfs_le32_to_cpu p))"

definition get_le64 :: "byte list \<Rightarrow> nat \<Rightarrow> u64 res" where
  "get_le64 buf off = rbind (mem_read buf off 8) (\<lambda>p. Inr (sqfs_le64_to_cpu p))"

text \<open>The encoders the format prescribes, used to state round trips.\<close>

definition put_le16 :: "u16 \<Rightarrow> byte list" where
  "put_le16 w = [ucast w, ucast (drop_bit 8 w)]"

definition put_le32 :: "u32 \<Rightarrow> byte list" where
  "put_le32 w = [ucast w, ucast (drop_bit 8 w), ucast (drop_bit 16 w), ucast (drop_bit 24 w)]"

definition put_le64 :: "u64 \<Rightarrow> byte list" where
  "put_le64 w = [ucast w, ucast (drop_bit 8 w), ucast (drop_bit 16 w), ucast (drop_bit 24 w),
     ucast (drop_bit 32 w), ucast (drop_bit 40 w), ucast (drop_bit 48 w), ucast (drop_bit 56 w)]"

lemma length_put_le [simp]:
  "length (put_le16 v) = 2" "length (put_le32 w) = 4" "length (put_le64 x) = 8"
  by (simp_all add: put_le16_def put_le32_def put_le64_def)

lemma le16_put [simp]: "sqfs_le16_to_cpu (put_le16 w) = w"
  unfolding sqfs_le16_to_cpu_def put_le16_def
  by (rule bit_word_eqI) (auto simp: bit_simps)

lemma le32_put [simp]: "sqfs_le32_to_cpu (put_le32 w) = w"
proof (rule bit_word_eqI)
  fix n assume "n < LENGTH(32)"
  then consider "n < 8" | "8 \<le> n \<and> n < 16" | "16 \<le> n \<and> n < 24" | "24 \<le> n \<and> n < 32"
    by fastforce
  then show "bit (sqfs_le32_to_cpu (put_le32 w)) n \<longleftrightarrow> bit w n"
    unfolding sqfs_le32_to_cpu_def put_le32_def by cases (auto simp: bit_simps)
qed

lemma le64_put [simp]: "sqfs_le64_to_cpu (put_le64 w) = w"
proof (rule bit_word_eqI)
  fix n assume "n < LENGTH(64)"
  then consider "n < 8" | "8 \<le> n" "n < 16" | "16 \<le> n" "n < 24" | "24 \<le> n" "n < 32"
    | "32 \<le> n" "n < 40" | "40 \<le> n" "n < 48" | "48 \<le> n" "n < 56" | "56 \<le> n" "n < 64"
    by fastforce
  then show "bit (sqfs_le64_to_cpu (put_le64 w)) n \<longleftrightarrow> bit w n"
    unfolding sqfs_le64_to_cpu_def put_le64_def by cases (simp_all add: bit_simps less_diff_conv2)
qed

text \<open>Decoding at an offset of a buffer, and the facts that walk over a concatenation of
  encoded fields.\<close>

named_theorems layout \<comment> \<open>reading the fields of an encoded structure\<close>

lemma segment_head [layout]: "length xs = n \<Longrightarrow> segment (xs @ ys) 0 n = xs"
  by (auto simp: segment_def)

lemma segment_exact [layout]: "length xs = n \<Longrightarrow> segment xs 0 n = xs"
  by (auto simp: segment_def)

lemma segment_skip [layout]:
  "length xs \<le> off \<Longrightarrow> segment (xs @ ys) off n = segment ys (off - length xs) n"
  by (rule segment_append_right)

lemma get_le_safe [simp]:
  "off + 2 \<le> length buf \<Longrightarrow> get_le16 buf off = Inr (sqfs_le16_to_cpu (segment buf off 2))"
  "off + 4 \<le> length buf \<Longrightarrow> get_le32 buf off = Inr (sqfs_le32_to_cpu (segment buf off 4))"
  "off + 8 \<le> length buf \<Longrightarrow> get_le64 buf off = Inr (sqfs_le64_to_cpu (segment buf off 8))"
  by (simp_all add: get_le16_def get_le32_def get_le64_def)

lemma get_le_oob:
  "length buf < off + 2 \<Longrightarrow> get_le16 buf off = Inl (Fault OOB_Read)"
  "length buf < off + 4 \<Longrightarrow> get_le32 buf off = Inl (Fault OOB_Read)"
  "length buf < off + 8 \<Longrightarrow> get_le64 buf off = Inl (Fault OOB_Read)"
  by (simp_all add: get_le16_def get_le32_def get_le64_def mem_read_def)

text \<open>The three widths share one contract; an array of integers is decoded element by
  element, as the code does with index tables, block lists and ID tables.\<close>

locale le_codec =
  fixes enc :: "'w \<Rightarrow> byte list" and dec :: "byte list \<Rightarrow> 'w" and width :: nat
  assumes dec_enc: "dec (enc w) = w"
    and length_enc: "length (enc w) = width"
    and width_pos: "0 < width"
begin

lemma length_concat_enc: "length (concat (map enc ws)) = width * length ws"
  by (induction ws) (simp_all add: length_enc)

lemma segment_concat_enc:
  "i < length ws \<Longrightarrow> segment (concat (map enc ws) @ rest) (i * width) width = enc (ws ! i)"
proof (induction ws arbitrary: i)
  case Nil
  then show ?case by simp
next
  case (Cons w ws)
  show ?case
  proof (cases i)
    case 0
    then show ?thesis by (simp add: segment_head length_enc)
  next
    case (Suc j)
    with Cons show ?thesis by (simp add: segment_skip length_enc)
  qed
qed

lemma decode_array:
  "map (\<lambda>i. dec (segment (concat (map enc ws) @ rest) (i * width) width)) [0..<length ws] = ws"
  by (rule nth_equalityI) (simp_all add: segment_concat_enc dec_enc)

end

interpretation le16: le_codec put_le16 sqfs_le16_to_cpu 2
  by unfold_locales simp_all

interpretation le32: le_codec put_le32 sqfs_le32_to_cpu 4
  by unfold_locales simp_all

interpretation le64: le_codec put_le64 sqfs_le64_to_cpu 8
  by unfold_locales simp_all

section \<open>Allocation\<close>

text \<open>
  The heap of the process is visible to the code only through the address \<open>malloc\<close>
  returns: 0 is a failed allocation. It is a parameter of every operation that
  allocates.
\<close>

type_synonym allocator = "nat \<Rightarrow> u64"

definition sqfs_malloc :: "allocator \<Rightarrow> nat \<Rightarrow> u64" where
  "sqfs_malloc mem sz = mem sz"

definition sqfs_calloc :: "allocator \<Rightarrow> nat \<Rightarrow> nat \<Rightarrow> u64" where
  "sqfs_calloc mem nmemb sz = (if nmemb * sz < 2 ^ 64 then mem (nmemb * sz) else 0)"

definition sqfs_realloc :: "allocator \<Rightarrow> nat \<Rightarrow> u64" where
  "sqfs_realloc mem sz = mem sz"

text \<open>An allocator that never fails; the concrete runs use it.\<close>

definition mem_ok :: allocator where
  "mem_ok n = 0x10000"

section \<open>Files\<close>

text \<open>
  An open file descriptor: the bytes of the image, what \<open>fstat\<close> reports as its size
  (\<open>None\<close> when it fails), and, for each read request, the finite list of events the
  kernel produces while serving it. An event interrupts a \<open>pread\<close> call (\<open>PR_eintr\<close>), fails
  it (\<open>PR_error\<close>) or lets it return at most the given number of bytes (\<open>PR_short\<close>, at
  least one byte unless at the end of the file). Once the events are used up every call
  returns as many bytes as asked for and available.
\<close>

datatype pread_event = PR_eintr | PR_error | PR_short nat

record os_file =
  f_image :: "byte list"
  f_stat_size :: "u64 option"
  f_events :: "u64 \<Rightarrow> nat \<Rightarrow> pread_event list"

datatype pread_ret = PRet_errno errno | PRet_bytes "byte list"

text \<open>The file offset is an \<open>off_t\<close>, a signed 64-bit number: negative offsets are refused.\<close>

definition os_pread :: "byte list \<Rightarrow> pread_event \<Rightarrow> nat \<Rightarrow> u64 \<Rightarrow> pread_ret" where
  "os_pread img ev count off =
     (if 2 ^ 63 \<le> unat off then PRet_errno EINVAL
      else case ev of
        PR_eintr \<Rightarrow> PRet_errno EINTR
      | PR_error \<Rightarrow> PRet_errno EIO
      | PR_short m \<Rightarrow> PRet_bytes (segment img (unat off) (min count (max 1 m))))"

fun next_event :: "pread_event list \<Rightarrow> nat \<Rightarrow> pread_event \<times> pread_event list" where
  "next_event [] n = (PR_short n, [])"
| "next_event (e # es) n = (e, es)"

lemma next_event_length:
  "(ev, evs') = next_event evs n \<Longrightarrow> length evs' + (if ev = PR_eintr then 1 else 0) \<le> length evs"
  by (cases evs) auto

lemma os_pread_eintr: "os_pread img ev count off = PRet_errno EINTR \<longleftrightarrow> ev = PR_eintr \<and> unat off < 2 ^ 63"
  by (auto simp: os_pread_def split: pread_event.splits)

lemma os_pread_bytes:
  "os_pread img ev count off = PRet_bytes bs \<longleftrightarrow>
     unat off < 2 ^ 63 \<and> (\<exists>m. ev = PR_short m \<and> bs = segment img (unat off) (min count (max 1 m)))"
  by (auto simp: os_pread_def split: pread_event.splits)

text \<open>The loop of \<open>sqfs_pread_all\<close>; \<open>total\<close> is the length of the bytes read so far.\<close>

function pread_all_loop ::
  "byte list \<Rightarrow> pread_event list \<Rightarrow> nat \<Rightarrow> u64 \<Rightarrow> byte list \<Rightarrow> byte list res" where
  "pread_all_loop img evs count offset buf =
     (if length buf < count then
        (case next_event evs (count - length buf) of
           (ev, evs') \<Rightarrow>
             (case os_pread img ev (count - length buf) (offset + of_nat (length buf)) of
                PRet_errno e \<Rightarrow>
                  if e = EINTR then pread_all_loop img evs' count offset buf
                  else Inl (Err SQFS_ERR_IO)
              | PRet_bytes bs \<Rightarrow>
                  if bs = [] then Inl (Err SQFS_ERR_CORRUPT)
                  else pread_all_loop img evs' count offset (buf @ bs)))
      else Inr buf)"
  by pat_completeness auto
termination
  by (relation "measure (\<lambda>(img, evs, count, offset, buf). length evs + (count - length buf))")
    (auto simp: os_pread_eintr simp flip: length_greater_0_conv dest!: next_event_length)

declare pread_all_loop.simps [simp del]

definition sqfs_pread_all :: "os_file \<Rightarrow> nat \<Rightarrow> u64 \<Rightarrow> byte list res" where
  "sqfs_pread_all fd count offset =
     pread_all_loop (f_image fd) (f_events fd offset count) count offset []"

text \<open>\<open>sqfs_read_all\<close> is the same loop over \<open>read(2)\<close>, which reads at the descriptor's file
  position and advances it; the position is threaded through the loop.\<close>

function read_all_loop ::
  "byte list \<Rightarrow> pread_event list \<Rightarrow> nat \<Rightarrow> u64 \<Rightarrow> byte list \<Rightarrow> byte list res \<times> u64" where
  "read_all_loop img evs count fpos buf =
     (if length buf < count then
        (case next_event evs (count - length buf) of
           (ev, evs') \<Rightarrow>
             (case os_pread img ev (count - length buf) fpos of
                PRet_errno e \<Rightarrow>
                  if e = EINTR then read_all_loop img evs' count fpos buf
                  else (Inl (Err SQFS_ERR_IO), fpos)
              | PRet_bytes bs \<Rightarrow>
                  if bs = [] then (Inl (Err SQFS_ERR_CORRUPT), fpos)
                  else read_all_loop img evs' count (fpos + of_nat (length bs)) (buf @ bs)))
      else (Inr buf, fpos))"
  by pat_completeness auto
termination
  by (relation "measure (\<lambda>(img, evs, count, fpos, buf). length evs + (count - length buf))")
    (auto simp: os_pread_eintr simp flip: length_greater_0_conv dest!: next_event_length)

declare read_all_loop.simps [simp del]

definition sqfs_read_all :: "os_file \<Rightarrow> u64 \<Rightarrow> nat \<Rightarrow> byte list res \<times> u64" where
  "sqfs_read_all fd fpos count =
     read_all_loop (f_image fd) (f_events fd fpos count) count fpos []"

subsection \<open>What the read loops return\<close>

text \<open>Whatever the kernel does, a successful read returns exactly the bytes of the image
  at the requested range, and a failed one is an I/O or a truncation error.\<close>

lemma pread_all_loop_sound:
  assumes "pread_all_loop img evs count offset buf = Inr bs"
    and "count < 2 ^ 63" and "length buf \<le> count"
    and "buf = segment img (unat offset) (length buf)"
    and "buf \<noteq> [] \<longrightarrow> unat offset < 2 ^ 63 \<and> unat offset + length buf \<le> length img"
  shows "bs = segment img (unat offset) count \<and> length bs = count
    \<and> (0 < count \<longrightarrow> unat offset < 2 ^ 63 \<and> unat offset + count \<le> length img)"
  using assms
proof (induction img evs count offset buf rule: pread_all_loop.induct)
  case (1 img evs count offset buf)
  show ?case
  proof (cases "length buf < count")
    case False
    with "1.prems" show ?thesis by (cases "buf = []") (auto simp: pread_all_loop.simps)
  next
    case more: True
    obtain ev evs' where ev: "next_event evs (count - length buf) = (ev, evs')" by fastforce
    define pos where "pos = offset + of_nat (length buf)"
    have pos: "unat pos = unat offset + length buf" if "unat offset < 2 ^ 63"
      unfolding pos_def using that "1.prems"(2,3) by (intro unat_add_of_nat) simp
    show ?thesis
    proof (cases "os_pread img ev (count - length buf) pos")
      case (PRet_errno e)
      with "1.prems"(1) more ev have "e = EINTR"
        by (auto simp: pread_all_loop.simps [of img evs] pos_def split: if_splits)
      with "1.IH"(1) [OF more ev [symmetric] PRet_errno [unfolded pos_def]] "1.prems"
        PRet_errno more ev
      show ?thesis by (auto simp: pread_all_loop.simps [of img evs] pos_def)
    next
      case (PRet_bytes cs)
      with "1.prems"(1) more ev have ne: "cs \<noteq> []"
        and rec: "pread_all_loop img evs' count offset (buf @ cs) = Inr bs"
        by (auto simp: pread_all_loop.simps [of img evs] pos_def split: if_splits)
      from PRet_bytes obtain m where lt: "unat pos < 2 ^ 63"
        and cs: "cs = segment img (unat pos) (min (count - length buf) (max 1 m))"
        by (auto simp: os_pread_bytes)
      have off: "unat offset < 2 ^ 63"
        using "1.prems"(5) lt by (cases "buf = []") (auto simp: pos_def)
      have len: "length buf + length cs \<le> count" "unat pos + length cs \<le> length img"
        using ne more by (auto simp: cs segment_def)
      have "cs = segment img (unat pos) (length cs)"
        by (simp add: cs segment_def min_def)
      then have "buf @ cs = segment img (unat offset) (length (buf @ cs))"
        using "1.prems"(4) by (metis length_append pos [OF off] segment_append_segment)
      then show ?thesis
        using "1.prems"(2) len off pos [OF off]
        by (intro "1.IH"(2) [OF more ev [symmetric] PRet_bytes [unfolded pos_def] ne rec]) simp_all
    qed
  qed
qed

lemma pread_all_loop_error:
  "pread_all_loop img evs count offset buf = Inl e \<Longrightarrow>
     e = Err SQFS_ERR_IO \<or> e = Err SQFS_ERR_CORRUPT"
proof (induction img evs count offset buf rule: pread_all_loop.induct)
  case (1 img evs count offset buf)
  then show ?case
    by (subst (asm) pread_all_loop.simps) (auto split: if_splits prod.splits pread_ret.splits)
qed

text \<open>If the kernel reports no error, the outcome does not depend on how it splits and
  interrupts the transfer: the range is read when the image holds it and the read is
  refused as truncated otherwise.\<close>

lemma pread_all_loop_complete:
  assumes "PR_error \<notin> set evs" and "unat offset + count < 2 ^ 63"
    and "length buf \<le> count" and "unat offset + length buf \<le> length img \<or> buf = []"
    and "buf = segment img (unat offset) (length buf)"
  shows "pread_all_loop img evs count offset buf =
    (if count = 0 \<or> unat offset + count \<le> length img
     then Inr (segment img (unat offset) count) else Inl (Err SQFS_ERR_CORRUPT))"
  using assms
proof (induction img evs count offset buf rule: pread_all_loop.induct)
  case (1 img evs count offset buf)
  show ?case
  proof (cases "length buf < count")
    case False
    with "1.prems" show ?thesis
      by (subst pread_all_loop.simps) auto
  next
    case more: True
    obtain ev evs' where ev: "next_event evs (count - length buf) = (ev, evs')" by fastforce
    define pos where "pos = offset + of_nat (length buf)"
    have pos: "unat pos = unat offset + length buf"
      unfolding pos_def using "1.prems"(2,3) by (intro unat_add_of_nat) simp
    have no_err: "PR_error \<notin> set evs'" and evk: "ev = PR_eintr \<or> (\<exists>m. ev = PR_short m)"
      using ev "1.prems"(1) by (cases evs; cases ev; auto)+
    from evk show ?thesis
    proof
      assume "ev = PR_eintr"
      moreover from this have "os_pread img ev (count - length buf) pos = PRet_errno EINTR"
        using "1.prems"(2) more by (simp add: os_pread_eintr pos)
      ultimately show ?thesis
        using "1.IH"(1) [OF more ev [symmetric] _ refl no_err] "1.prems" more ev
        by (simp add: pread_all_loop.simps [of img evs] pos_def)
    next
      assume "\<exists>m. ev = PR_short m"
      then obtain m where m: "ev = PR_short m" ..
      define cs where "cs = segment img (unat pos) (min (count - length buf) (max 1 m))"
      have rd: "os_pread img ev (count - length buf) pos = PRet_bytes cs"
        using "1.prems"(2) more by (simp add: m os_pread_bytes pos cs_def)
      show ?thesis
      proof (cases "cs = []")
        case True
        then have "length img \<le> unat pos" using more by (auto simp: cs_def segment_def)
        with True rd more ev show ?thesis
          by (simp add: pread_all_loop.simps [of img evs] pos_def [symmetric] pos)
      next
        case False
        then have "length buf + length cs \<le> count" "unat pos + length cs \<le> length img"
          using more by (auto simp: cs_def segment_def)
        moreover have "cs = segment img (unat pos) (length cs)"
          by (simp add: cs_def segment_def min_def)
        then have "buf @ cs = segment img (unat offset) (length (buf @ cs))"
          using "1.prems"(5) by (metis length_append pos segment_append_segment)
        ultimately show ?thesis
          using "1.IH"(2) [OF more ev [symmetric] rd [unfolded pos_def] False no_err "1.prems"(2)]
            False rd more ev
          by (simp add: pread_all_loop.simps [of img evs] pos_def [symmetric] pos)
      qed
    qed
  qed
qed

lemma sqfs_pread_all_ok:
  assumes "sqfs_pread_all fd count offset = Inr bs" and "count < 2 ^ 63"
  shows "bs = segment (f_image fd) (unat offset) count \<and> length bs = count
    \<and> (0 < count \<longrightarrow> unat offset < 2 ^ 63 \<and> unat offset + count \<le> length (f_image fd))"
  using assms unfolding sqfs_pread_all_def by (rule pread_all_loop_sound) simp_all

lemma sqfs_pread_all_error:
  "sqfs_pread_all fd count offset = Inl e \<Longrightarrow> e = Err SQFS_ERR_IO \<or> e = Err SQFS_ERR_CORRUPT"
  unfolding sqfs_pread_all_def by (rule pread_all_loop_error)

lemma sqfs_pread_all_complete:
  assumes "PR_error \<notin> set (f_events fd offset count)" and "unat offset + count < 2 ^ 63"
  shows "sqfs_pread_all fd count offset =
    (if count = 0 \<or> unat offset + count \<le> length (f_image fd)
     then Inr (segment (f_image fd) (unat offset) count) else Inl (Err SQFS_ERR_CORRUPT))"
  using assms unfolding sqfs_pread_all_def by (intro pread_all_loop_complete) simp_all

text \<open>Reading sequentially at a file position is reading at that offset.\<close>

lemma read_all_loop_pread:
  "fst (read_all_loop img evs count (offset + of_nat (length buf)) buf)
     = pread_all_loop img evs count offset buf"
proof (induction img evs count offset buf rule: pread_all_loop.induct)
  case (1 img evs count offset buf)
  show ?case
  proof (cases "length buf < count")
    case False
    then show ?thesis by (simp add: read_all_loop.simps pread_all_loop.simps)
  next
    case more: True
    obtain ev evs' where ev: "(ev, evs') = next_event evs (count - length buf)"
      by (metis surj_pair)
    note IH = "1.IH" [OF more ev]
    show ?thesis
    proof (cases "os_pread img ev (count - length buf) (offset + of_nat (length buf))")
      case (PRet_errno e)
      with IH(1) [OF PRet_errno] more ev [symmetric] show ?thesis
        by (simp add: read_all_loop.simps [of img evs] pread_all_loop.simps [of img evs])
    next
      case (PRet_bytes bs)
      with IH(2) [OF PRet_bytes] more ev [symmetric] show ?thesis
        by (simp add: read_all_loop.simps [of img evs] pread_all_loop.simps [of img evs] add.assoc)
    qed
  qed
qed

lemma sqfs_read_all_pread: "fst (sqfs_read_all fd fpos count) = sqfs_pread_all fd count fpos"
  using read_all_loop_pread [of "f_image fd" _ _ fpos "[]"]
  by (simp add: sqfs_read_all_def sqfs_pread_all_def)

lemma sqfs_pread_all_0 [simp]: "sqfs_pread_all fd 0 offset = Inr []"
  by (simp add: sqfs_pread_all_def pread_all_loop.simps)

section \<open>The interface the rest of the code reads through\<close>

text \<open>
  Every component above reads the image through one operation: bytes of a fixed content,
  or an error. The laws are those of \<open>sqfs_pread_all\<close>; the lemmas are what the components
  that walk the image from block to block need: reads of overlapping ranges agree, and a
  position that has been read from does not wrap when it is advanced.
\<close>

locale image_reader =
  fixes rd :: "nat \<Rightarrow> u64 \<Rightarrow> byte list res"
    and img :: "byte list"
  assumes rd_ok: "rd n off = Inr bs \<Longrightarrow> n < 2 ^ 63 \<Longrightarrow>
      bs = segment img (unat off) n \<and> length bs = n
      \<and> (0 < n \<longrightarrow> unat off < 2 ^ 63 \<and> unat off + n \<le> length img)"
    and rd_error: "rd n off = Inl e \<Longrightarrow> e = Err SQFS_ERR_IO \<or> e = Err SQFS_ERR_CORRUPT"
begin

lemma rd_safe [simp]: "safe (rd n off)"
  using rd_error [of n off] by (cases "rd n off") auto

lemma rd_length: "rd n off = Inr bs \<Longrightarrow> n < 2 ^ 63 \<Longrightarrow> length bs = n"
  using rd_ok by blast

lemma rd_next:
  assumes "rd n off = Inr bs" and "0 < n" and "n < 2 ^ 63" and "k < 2 ^ 63"
  shows "unat (off + of_nat k) = unat off + k"
  using rd_ok [OF assms(1,3)] assms(2,4) by (intro unat_add_of_nat) simp

lemma rd_within:
  assumes "rd n off = Inr bs" and "rd m (off + of_nat k) = Inr cs"
    and "k + m \<le> n" and "n < 2 ^ 63"
  shows "cs = segment bs k m"
proof (cases "n = 0")
  case True
  with assms show ?thesis by (auto dest: rd_length)
next
  case False
  with assms(1,3,4) have "unat (off + of_nat k) = unat off + k" by (intro rd_next) auto
  with rd_ok [OF assms(1)] rd_ok [OF assms(2)] assms(3,4) show ?thesis
    by (simp add: segment_segment)
qed

end

interpretation pread: image_reader "sqfs_pread_all fd" "f_image fd" for fd
  by unfold_locales (blast dest: sqfs_pread_all_ok sqfs_pread_all_error)+

end
