(* ===== verification/Stats.thy ===== *)
theory Stats
  imports Prelude
begin

text \<open>
  \<open>src/core/stats.h\<close> and \<open>src/core/stats.c\<close>: the counters of \<open>g_stats\<close>, the macros that bump
  them and the report timer. The global is threaded explicitly. The report itself is in
  \<open>Report\<close>.
\<close>

section \<open>Counters\<close>

record sqfs_cache_stats =
  cs_hits :: u64
  cs_misses :: u64
  cs_evictions :: u64
  cs_current_entries :: u64
  cs_current_memory :: u64

record sqfs_compressor_stats =
  decompress_count :: u64
  decompress_bytes_in :: u64
  decompress_bytes_out :: u64
  decompress_errors :: u64
  total_time_us :: u64

record sqfs_error_stats =
  e_total :: u64
  e_io :: u64
  e_corrupt :: u64
  e_no_memory :: u64

record sqfs_stats =
  start_time :: int
  last_report :: int
  open_count :: u64
  read_count :: u64
  read_bytes :: u64
  readdir_count :: u64
  getattr_count :: u64
  lookup_count :: u64
  cache_inode :: sqfs_cache_stats
  cache_dir :: sqfs_cache_stats
  cache_meta :: sqfs_cache_stats
  cache_data :: sqfs_cache_stats
  compressor_stats :: sqfs_compressor_stats
  error_stats :: sqfs_error_stats

text \<open>The zeroed structures \<open>memset\<close> produces.\<close>

definition zero_cache_stats :: sqfs_cache_stats where
  "zero_cache_stats = \<lparr>cs_hits = 0, cs_misses = 0, cs_evictions = 0,
     cs_current_entries = 0, cs_current_memory = 0\<rparr>"

definition zero_stats :: sqfs_stats where
  "zero_stats = \<lparr>start_time = 0, last_report = 0, open_count = 0, read_count = 0,
     read_bytes = 0, readdir_count = 0, getattr_count = 0, lookup_count = 0,
     cache_inode = zero_cache_stats, cache_dir = zero_cache_stats,
     cache_meta = zero_cache_stats, cache_data = zero_cache_stats,
     compressor_stats = \<lparr>decompress_count = 0, decompress_bytes_in = 0,
       decompress_bytes_out = 0, decompress_errors = 0, total_time_us = 0\<rparr>,
     error_stats = \<lparr>e_total = 0, e_io = 0, e_corrupt = 0, e_no_memory = 0\<rparr>\<rparr>"

section \<open>Operations\<close>

text \<open>\<open>now\<close> is the value \<open>time(NULL)\<close> returns.\<close>

definition sqfs_stats_init :: "int \<Rightarrow> sqfs_stats" where
  "sqfs_stats_init now = zero_stats\<lparr>start_time := now, last_report := now\<rparr>"

definition sqfs_stats_reset :: "int \<Rightarrow> sqfs_stats \<Rightarrow> sqfs_stats" where
  "sqfs_stats_reset now g = zero_stats\<lparr>start_time := start_time g, last_report := now\<rparr>"

definition sqfs_stats_get :: "sqfs_stats \<Rightarrow> sqfs_stats" where
  "sqfs_stats_get g = g"

definition sqfs_stats_inc_open :: "sqfs_stats \<Rightarrow> sqfs_stats" where
  "sqfs_stats_inc_open g = g\<lparr>open_count := open_count g + 1\<rparr>"

definition sqfs_stats_inc_readdir :: "sqfs_stats \<Rightarrow> sqfs_stats" where
  "sqfs_stats_inc_readdir g = g\<lparr>readdir_count := readdir_count g + 1\<rparr>"

definition sqfs_stats_inc_getattr :: "sqfs_stats \<Rightarrow> sqfs_stats" where
  "sqfs_stats_inc_getattr g = g\<lparr>getattr_count := getattr_count g + 1\<rparr>"

definition sqfs_stats_inc_lookup :: "sqfs_stats \<Rightarrow> sqfs_stats" where
  "sqfs_stats_inc_lookup g = g\<lparr>lookup_count := lookup_count g + 1\<rparr>"

text \<open>The macros of the caches take the name of a cache; these change its counters.\<close>

definition sqfs_stats_cache_hit :: "sqfs_cache_stats \<Rightarrow> sqfs_cache_stats" where
  "sqfs_stats_cache_hit c = c\<lparr>cs_hits := cs_hits c + 1\<rparr>"

definition sqfs_stats_cache_miss :: "sqfs_cache_stats \<Rightarrow> sqfs_cache_stats" where
  "sqfs_stats_cache_miss c = c\<lparr>cs_misses := cs_misses c + 1\<rparr>"

definition sqfs_stats_cache_evict :: "sqfs_cache_stats \<Rightarrow> sqfs_cache_stats" where
  "sqfs_stats_cache_evict c = c\<lparr>cs_evictions := cs_evictions c + 1\<rparr>"

definition sqfs_stats_comp_error :: "sqfs_stats \<Rightarrow> sqfs_stats" where
  "sqfs_stats_comp_error g = g\<lparr>compressor_stats := (compressor_stats g)
     \<lparr>decompress_errors := decompress_errors (compressor_stats g) + 1\<rparr>\<rparr>"

definition sqfs_stats_inc_read :: "u64 \<Rightarrow> sqfs_stats \<Rightarrow> sqfs_stats" where
  "sqfs_stats_inc_read n g = g\<lparr>read_count := read_count g + 1, read_bytes := read_bytes g + n\<rparr>"

definition sqfs_stats_error_io :: "sqfs_stats \<Rightarrow> sqfs_stats" where
  "sqfs_stats_error_io g = g\<lparr>error_stats := (error_stats g)
     \<lparr>e_io := e_io (error_stats g) + 1, e_total := e_total (error_stats g) + 1\<rparr>\<rparr>"

definition sqfs_stats_error_corrupt :: "sqfs_stats \<Rightarrow> sqfs_stats" where
  "sqfs_stats_error_corrupt g = g\<lparr>error_stats := (error_stats g)
     \<lparr>e_corrupt := e_corrupt (error_stats g) + 1, e_total := e_total (error_stats g) + 1\<rparr>\<rparr>"

definition sqfs_stats_error_memory :: "sqfs_stats \<Rightarrow> sqfs_stats" where
  "sqfs_stats_error_memory g = g\<lparr>error_stats := (error_stats g)
     \<lparr>e_no_memory := e_no_memory (error_stats g) + 1, e_total := e_total (error_stats g) + 1\<rparr>\<rparr>"

definition sqfs_stats_comp_decompress :: "u64 \<Rightarrow> u64 \<Rightarrow> u64 \<Rightarrow> sqfs_stats \<Rightarrow> sqfs_stats" where
  "sqfs_stats_comp_decompress in_sz out_sz time_us g =
     (let c = compressor_stats g in g\<lparr>compressor_stats := c
       \<lparr>decompress_count := decompress_count c + 1,
        decompress_bytes_in := decompress_bytes_in c + in_sz,
        decompress_bytes_out := decompress_bytes_out c + out_sz,
        total_time_us := total_time_us c + time_us\<rparr>\<rparr>)"

definition sqfs_stats_cache_update :: "u64 \<Rightarrow> u64 \<Rightarrow> sqfs_cache_stats \<Rightarrow> sqfs_cache_stats" where
  "sqfs_stats_cache_update entries memory c =
     c\<lparr>cs_current_entries := entries, cs_current_memory := memory\<rparr>"

definition sqfs_stats_should_report :: "int \<Rightarrow> sqfs_stats \<Rightarrow> bool \<times> sqfs_stats" where
  "sqfs_stats_should_report now g =
     (if now - last_report g \<ge> 60 then (True, g\<lparr>last_report := now\<rparr>) else (False, g))"

section \<open>Properties\<close>

text \<open>The total counts every classified error exactly once.\<close>

definition errors_consistent :: "sqfs_stats \<Rightarrow> bool" where
  "errors_consistent g \<longleftrightarrow> e_total (error_stats g) =
     e_io (error_stats g) + e_corrupt (error_stats g) + e_no_memory (error_stats g)"

lemma errors_consistent_init: "errors_consistent (sqfs_stats_init now)"
  by (simp add: errors_consistent_def sqfs_stats_init_def zero_stats_def)

lemma errors_consistent_ops [simp]:
  "errors_consistent (sqfs_stats_error_io g) = errors_consistent g"
  "errors_consistent (sqfs_stats_error_corrupt g) = errors_consistent g"
  "errors_consistent (sqfs_stats_error_memory g) = errors_consistent g"
  by (auto simp: errors_consistent_def sqfs_stats_error_io_def sqfs_stats_error_corrupt_def
      sqfs_stats_error_memory_def algebra_simps)

text \<open>Polled at successive times, the report timer fires at most once in any 60 seconds.\<close>

fun report_times :: "int list \<Rightarrow> sqfs_stats \<Rightarrow> int list" where
  "report_times [] g = []"
| "report_times (now # ts) g =
     (case sqfs_stats_should_report now g of
        (fire, g') \<Rightarrow> (if fire then now # report_times ts g' else report_times ts g'))"

lemma report_times_from: "t \<in> set (report_times ts g) \<Longrightarrow> sorted ts \<Longrightarrow> last_report g + 60 \<le> t"
proof (induction ts arbitrary: g)
  case Nil
  then show ?case by simp
next
  case (Cons now ts)
  then show ?case
    by (fastforce simp: sqfs_stats_should_report_def split: if_splits)
qed

lemma report_times_spaced: "sorted_wrt (\<lambda>a b. a + 60 \<le> b) (report_times ts g)" if "sorted ts"
  using that
proof (induction ts arbitrary: g)
  case Nil
  then show ?case by simp
next
  case (Cons now ts)
  then show ?case
    by (auto simp: sqfs_stats_should_report_def dest: report_times_from)
qed

end
