(* ===== verification/Superblock.thy ===== *)
theory Superblock
  imports Utils Stats
begin

text \<open>
  \<open>src/core/superblock.h\<close> and \<open>src/core/superblock.c\<close>: the 96-byte disk superblock, its
  validation and the runtime superblock. Logging calls are left out, \<open>sqfs_superblock_print\<close>
  is in \<open>Printing\<close>; the error counters of \<open>g_stats\<close> are threaded.
\<close>

section \<open>Data\<close>

definition SQUASHFS_MAGIC :: u32 where "SQUASHFS_MAGIC = 0x73717368"
definition SQUASHFS_VERSION_MAJOR :: u16 where "SQUASHFS_VERSION_MAJOR = 4"
definition SQUASHFS_VERSION_MINOR :: u16 where "SQUASHFS_VERSION_MINOR = 0"

text \<open>The enumerators are compared with raw 16-bit fields, so they are numbers here too.\<close>

definition SQUASHFS_COMP_GZIP :: u16 where "SQUASHFS_COMP_GZIP = 1"
definition SQUASHFS_COMP_ZSTD :: u16 where "SQUASHFS_COMP_ZSTD = 6"

definition SQUASHFS_FLAG_NO_FRAGS :: u16 where "SQUASHFS_FLAG_NO_FRAGS = 0x0010"
definition SQUASHFS_FLAG_NO_XATTRS :: u16 where "SQUASHFS_FLAG_NO_XATTRS = 0x0200"

record squashfs_superblock =
  magic :: u32
  inode_count :: u32
  mod_time :: u32
  block_size :: u32
  frag_count :: u32
  compressor :: u16
  block_log :: u16
  flags :: u16
  id_count :: u16
  version_major :: u16
  version_minor :: u16
  root_inode :: u64
  bytes_used :: u64
  id_table :: u64
  xattr_table :: u64
  inode_table :: u64
  dir_table :: u64
  frag_table :: u64
  export_table :: u64

record sqfs_superblock =
  disk :: squashfs_superblock
  sb_fd :: os_file
  file_size :: u64
  has_xattrs :: bool
  has_fragments :: bool
  has_export :: bool

definition SQFS_INVALID_OFFSET :: u64 where "SQFS_INVALID_OFFSET = - 1"

definition sqfs_table_valid :: "u64 \<Rightarrow> bool" where
  "sqfs_table_valid offset \<longleftrightarrow> offset \<noteq> SQFS_INVALID_OFFSET"

text \<open>The packed structure read in place from the 96 bytes of the disk.\<close>

definition superblock_of_bytes :: "byte list \<Rightarrow> squashfs_superblock" where
  "superblock_of_bytes b = \<lparr>
     magic = sqfs_le32_to_cpu (segment b 0 4),
     inode_count = sqfs_le32_to_cpu (segment b 4 4),
     mod_time = sqfs_le32_to_cpu (segment b 8 4),
     block_size = sqfs_le32_to_cpu (segment b 12 4),
     frag_count = sqfs_le32_to_cpu (segment b 16 4),
     compressor = sqfs_le16_to_cpu (segment b 20 2),
     block_log = sqfs_le16_to_cpu (segment b 22 2),
     flags = sqfs_le16_to_cpu (segment b 24 2),
     id_count = sqfs_le16_to_cpu (segment b 26 2),
     version_major = sqfs_le16_to_cpu (segment b 28 2),
     version_minor = sqfs_le16_to_cpu (segment b 30 2),
     root_inode = sqfs_le64_to_cpu (segment b 32 8),
     bytes_used = sqfs_le64_to_cpu (segment b 40 8),
     id_table = sqfs_le64_to_cpu (segment b 48 8),
     xattr_table = sqfs_le64_to_cpu (segment b 56 8),
     inode_table = sqfs_le64_to_cpu (segment b 64 8),
     dir_table = sqfs_le64_to_cpu (segment b 72 8),
     frag_table = sqfs_le64_to_cpu (segment b 80 8),
     export_table = sqfs_le64_to_cpu (segment b 88 8)\<rparr>"

section \<open>Validation\<close>

text \<open>The loop that computes \<open>computed_log\<close> by shifting \<open>temp\<close> down to 1.\<close>

function block_log_loop :: "u32 \<Rightarrow> u16 \<Rightarrow> u16" where
  "block_log_loop temp computed_log =
     (if 1 < temp then block_log_loop (drop_bit 1 temp) (computed_log + 1) else computed_log)"
  by pat_completeness auto
termination
  by (relation "measure (\<lambda>(temp, l). unat temp)")
    (auto simp: unat_drop_bit_eq drop_bit_eq_div word_less_nat_alt unat_div)

declare block_log_loop.simps [simp del]

definition validate_block_size :: "u32 \<Rightarrow> u16 \<Rightarrow> unit res" where
  "validate_block_size bsize blog =
     (if bsize = 0 \<or> bsize AND (bsize - 1) \<noteq> 0 then Inl (Err SQFS_ERR_CORRUPT)
      else if bsize < 4096 \<or> bsize > 1048576 then Inl (Err SQFS_ERR_CORRUPT)
      else if block_log_loop bsize 0 \<noteq> blog then Inl (Err SQFS_ERR_CORRUPT)
      else Inr ())"

definition is_compressor_supported :: "u16 \<Rightarrow> bool" where
  "is_compressor_supported comp_id \<longleftrightarrow>
     comp_id = SQUASHFS_COMP_GZIP \<or> comp_id = SQUASHFS_COMP_ZSTD"

definition compressor_name :: "u16 \<Rightarrow> string" where
  "compressor_name comp_id =
     (if comp_id = 1 then ''gzip'' else if comp_id = 2 then ''lzma''
      else if comp_id = 3 then ''lzo'' else if comp_id = 4 then ''xz''
      else if comp_id = 5 then ''lz4'' else if comp_id = 6 then ''zstd''
      else ''unknown'')"

section \<open>Loading\<close>

text \<open>The checks on the disk superblock, in the code's order, with the counters they bump.\<close>

definition check_superblock ::
  "squashfs_superblock \<Rightarrow> u64 \<Rightarrow> sqfs_stats \<Rightarrow> unit res \<times> sqfs_stats" where
  "check_superblock d fsize g =
     (if magic d \<noteq> SQUASHFS_MAGIC then (Inl (Err SQFS_ERR_BAD_MAGIC), sqfs_stats_error_corrupt g)
      else if version_major d \<noteq> SQUASHFS_VERSION_MAJOR \<or> version_minor d \<noteq> SQUASHFS_VERSION_MINOR
      then (Inl (Err SQFS_ERR_BAD_VERSION), g)
      else if \<not> is_compressor_supported (compressor d) then (Inl (Err SQFS_ERR_BAD_COMP), g)
      else case validate_block_size (block_size d) (block_log d) of
        Inl e \<Rightarrow> (Inl e, sqfs_stats_error_corrupt g)
      | Inr _ \<Rightarrow>
          if bytes_used d > fsize then (Inl (Err SQFS_ERR_CORRUPT), sqfs_stats_error_corrupt g)
          else (Inr (), g))"

definition sqfs_superblock_load :: "os_file \<Rightarrow> sqfs_stats \<Rightarrow> sqfs_superblock res \<times> sqfs_stats" where
  "sqfs_superblock_load fd g =
     (case f_stat_size fd of
        None \<Rightarrow> (Inl (Err SQFS_ERR_IO), sqfs_stats_error_io g)
      | Some st_size \<Rightarrow>
          (case sqfs_pread_all fd 96 0 of
             Inl e \<Rightarrow> (Inl e, sqfs_stats_error_io g)
           | Inr raw \<Rightarrow>
               (let d = superblock_of_bytes raw in
                case check_superblock d st_size g of
                  (Inl e, g') \<Rightarrow> (Inl e, g')
                | (Inr _, g') \<Rightarrow>
                    (Inr \<lparr>disk = d, sb_fd = fd, file_size = st_size,
                       has_xattrs = flags d AND SQUASHFS_FLAG_NO_XATTRS = 0
                         \<and> sqfs_table_valid (xattr_table d),
                       has_fragments = flags d AND SQUASHFS_FLAG_NO_FRAGS = 0
                         \<and> sqfs_table_valid (frag_table d),
                       has_export = sqfs_table_valid (export_table d)\<rparr>, g'))))"

section \<open>Block size and block log agree\<close>

lemma block_log_loop_spec:
  "1 \<le> unat temp \<Longrightarrow>
     \<exists>k. block_log_loop temp l = l + of_nat k \<and> 2 ^ k \<le> unat temp \<and> unat temp < 2 ^ Suc k"
proof (induction temp l rule: block_log_loop.induct)
  case (1 temp l)
  show ?case
  proof (cases "1 < temp")
    case False
    with "1.prems" have "unat temp = 1" by (simp add: word_less_nat_alt)
    with False show ?thesis by (intro exI [of _ 0]) (simp add: block_log_loop.simps)
  next
    case True
    have half: "unat (drop_bit 1 temp) = unat temp div 2"
      by (simp add: drop_bit_eq_div unat_div)
    moreover have "1 \<le> unat temp div 2" using True by (simp add: word_less_nat_alt)
    ultimately have "1 \<le> unat (drop_bit 1 temp)" by simp
    from "1.IH" [OF True this] half obtain k where
      k: "block_log_loop (drop_bit 1 temp) (l + 1) = (l + 1) + of_nat k"
        "2 ^ k \<le> unat temp div 2" "unat temp div 2 < 2 ^ Suc k"
      by auto
    then have "2 ^ Suc k \<le> unat temp" "unat temp < 2 ^ Suc (Suc k)" by auto
    with True k(1) show ?thesis
      by (intro exI [of _ "Suc k"]) (simp add: block_log_loop.simps [of temp])
  qed
qed

lemma bit_top:
  fixes w :: u32
  assumes "2 ^ k \<le> unat w" and "unat w < 2 ^ Suc k"
  shows "bit w k"
proof -
  from assms have "unat w div 2 ^ k = 1" by (simp add: div_nat_eqI)
  then have "bit (unat w) k" by (simp add: bit_iff_odd)
  then show ?thesis by (simp add: bit_unsigned_iff)
qed

text \<open>A value between two powers of two shares its top bit with its predecessor, so the
  code's test \<open>x & (x - 1)\<close> is exact.\<close>

lemma pow2_test_exact:
  fixes w :: u32
  assumes "2 ^ k \<le> unat w" and "unat w < 2 ^ Suc k" and "w AND (w - 1) = 0"
  shows "unat w = 2 ^ k"
proof (rule ccontr)
  assume "unat w \<noteq> 2 ^ k"
  with assms(1) have gt: "2 ^ k \<le> unat w - 1" and "1 \<le> unat w"
    by (auto intro: Suc_leI order_trans [of 1 "2 ^ k"])
  then have pred: "unat (w - 1) = unat w - 1" by (intro unat_minus_one) auto
  have "bit w k" by (rule bit_top [OF assms(1,2)])
  moreover have "bit (w - 1) k" using gt assms(2) by (intro bit_top) (simp_all add: pred)
  ultimately have "bit (w AND (w - 1)) k" by (simp add: bit_and_iff)
  with assms(3) show False by simp
qed

lemma block_log_loop_pow2: "k < 32 \<Longrightarrow> block_log_loop (2 ^ k) l = l + of_nat k"
proof (induction k arbitrary: l)
  case 0
  then show ?case by (simp add: block_log_loop.simps)
next
  case (Suc k)
  then have "unat ((2 :: u32) ^ Suc k) = 2 ^ Suc k" by (intro unat_pow2) simp
  then have "(1 :: u32) < 2 ^ Suc k"
    by (simp only: word_less_nat_alt unat_1 one_less_power)
  moreover from Suc.prems have "drop_bit 1 ((2 :: u32) ^ Suc k) = 2 ^ k"
    by (intro bit_word_eqI) (auto simp: bit_simps)
  ultimately show ?case
    using Suc by (subst block_log_loop.simps) (simp add: add.assoc del: power_Suc)
qed

definition block_size_ok :: "u32 \<Rightarrow> u16 \<Rightarrow> bool" where
  "block_size_ok bsize blog \<longleftrightarrow>
     (\<exists>k. 12 \<le> k \<and> k \<le> 20 \<and> bsize = 2 ^ k \<and> blog = of_nat k)"

lemma validate_block_size_sound:
  assumes "validate_block_size bsize blog = Inr ()"
  shows "block_size_ok bsize blog"
proof -
  from assms have nz: "1 \<le> unat bsize" and p2: "bsize AND (bsize - 1) = 0"
    and rng: "4096 \<le> unat bsize" "unat bsize \<le> 1048576" and lg: "block_log_loop bsize 0 = blog"
    by (auto simp: validate_block_size_def word_less_nat_alt unat_gt_0 Suc_le_eq split: if_splits)
  from block_log_loop_spec [OF nz, of 0] obtain k where
    k: "blog = of_nat k" "2 ^ k \<le> unat bsize" "unat bsize < 2 ^ Suc k"
    using lg by auto
  from pow2_test_exact [OF k(2,3) p2] have eq: "unat bsize = 2 ^ k" .
  with rng have "(2::nat) ^ 12 \<le> 2 ^ k" "(2::nat) ^ k \<le> 2 ^ 20" by simp_all
  then have "12 \<le> k" "k \<le> 20" by (simp_all only: power_increasing_iff)
  moreover from this eq have "bsize = 2 ^ k"
    by (simp add: word_unat_eq_iff unat_pow2)
  ultimately show ?thesis unfolding block_size_ok_def using k(1) by blast
qed

lemma validate_block_size_complete:
  assumes "block_size_ok bsize blog"
  shows "validate_block_size bsize blog = Inr ()"
proof -
  from assms obtain k where k: "12 \<le> k" "k \<le> 20" "bsize = 2 ^ k" "blog = of_nat k"
    by (auto simp: block_size_ok_def)
  from k have "k = 12 \<or> k = 13 \<or> k = 14 \<or> k = 15 \<or> k = 16 \<or> k = 17 \<or> k = 18 \<or> k = 19 \<or> k = 20"
    by presburger
  moreover have "block_log_loop bsize 0 = blog" using k by (simp add: block_log_loop_pow2)
  ultimately show ?thesis
    unfolding validate_block_size_def k(3) by (elim disjE) simp_all
qed

lemma validate_block_size_error:
  "validate_block_size bsize blog = Inl e \<Longrightarrow> e = Err SQFS_ERR_CORRUPT"
  by (auto simp: validate_block_size_def split: if_splits)

lemma block_size_ok_bounds:
  assumes "block_size_ok bsize blog"
  shows "4096 \<le> unat bsize" and "unat bsize \<le> 1048576"
  using validate_block_size_complete [OF assms]
  by (auto simp: validate_block_size_def word_less_nat_alt split: if_splits)

lemmas validate_block_size_eq = iffI [OF validate_block_size_sound validate_block_size_complete]

section \<open>Round trip of the disk format\<close>

definition put_superblock :: "squashfs_superblock \<Rightarrow> byte list" where
  "put_superblock d =
     put_le32 (magic d) @ put_le32 (inode_count d) @ put_le32 (mod_time d) @
     put_le32 (block_size d) @ put_le32 (frag_count d) @ put_le16 (compressor d) @
     put_le16 (block_log d) @ put_le16 (flags d) @ put_le16 (id_count d) @
     put_le16 (version_major d) @ put_le16 (version_minor d) @ put_le64 (root_inode d) @
     put_le64 (bytes_used d) @ put_le64 (id_table d) @ put_le64 (xattr_table d) @
     put_le64 (inode_table d) @ put_le64 (dir_table d) @ put_le64 (frag_table d) @
     put_le64 (export_table d)"

lemma length_put_superblock [simp]: "length (put_superblock d) = 96"
  by (simp add: put_superblock_def)

lemma superblock_of_put: "superblock_of_bytes (put_superblock d) = d"
  by (cases d) (simp add: superblock_of_bytes_def put_superblock_def layout)

section \<open>What a successful load establishes\<close>

definition superblock_valid :: "squashfs_superblock \<Rightarrow> u64 \<Rightarrow> bool" where
  "superblock_valid d fsize \<longleftrightarrow>
     magic d = 0x73717368 \<and> version_major d = 4 \<and> version_minor d = 0
     \<and> compressor d \<in> {1, 6} \<and> block_size_ok (block_size d) (block_log d)
     \<and> bytes_used d \<le> fsize"

lemmas superblock_consts = SQUASHFS_MAGIC_def SQUASHFS_VERSION_MAJOR_def
  SQUASHFS_VERSION_MINOR_def SQUASHFS_COMP_GZIP_def SQUASHFS_COMP_ZSTD_def

lemma check_superblock_ok_iff:
  "fst (check_superblock d fsize g) = Inr u \<longleftrightarrow> superblock_valid d fsize"
proof (cases "validate_block_size (block_size d) (block_log d)")
  case (Inl e)
  then have "\<not> block_size_ok (block_size d) (block_log d)"
    using validate_block_size_complete by force
  with Inl show ?thesis
    by (auto simp: check_superblock_def superblock_valid_def)
next
  case (Inr v)
  then have "block_size_ok (block_size d) (block_log d)"
    by (intro validate_block_size_sound) simp
  with Inr show ?thesis
    by (auto simp: check_superblock_def superblock_valid_def superblock_consts
        is_compressor_supported_def)
qed

lemma check_superblock_keeps_stats: "fst (check_superblock d n g) = Inr u \<Longrightarrow> snd (check_superblock d n g) = g"
  by (auto simp: check_superblock_def split: if_splits sum.splits)

lemma check_superblock_consistent [simp]:
  "errors_consistent (snd (check_superblock d n g)) = errors_consistent g"
  by (simp add: check_superblock_def split: sum.split)

lemma sqfs_superblock_load_sound:
  assumes "fst (sqfs_superblock_load fd g) = Inr sb"
  shows "superblock_valid (disk sb) (file_size sb)
    \<and> disk sb = superblock_of_bytes (segment (f_image fd) 0 96)
    \<and> 96 \<le> length (f_image fd) \<and> f_stat_size fd = Some (file_size sb) \<and> sb_fd sb = fd"
proof -
  from assms obtain n raw where n: "f_stat_size fd = Some n"
    and raw: "sqfs_pread_all fd 96 0 = Inr raw"
    and chk: "fst (check_superblock (superblock_of_bytes raw) n g) = Inr ()"
    and sb: "disk sb = superblock_of_bytes raw" "file_size sb = n" "sb_fd sb = fd"
    by (auto simp: sqfs_superblock_load_def Let_def split: option.splits sum.splits prod.splits)
  from pread.rd_ok [OF raw] chk n sb show ?thesis by (simp add: check_superblock_ok_iff)
qed

lemma check_superblock_consistentD:
  "check_superblock d n g = (r, g') \<Longrightarrow> errors_consistent g' = errors_consistent g"
  by (metis check_superblock_consistent snd_conv)

lemma sqfs_superblock_load_consistent:
  "errors_consistent g \<Longrightarrow> errors_consistent (snd (sqfs_superblock_load fd g))"
  by (auto simp: sqfs_superblock_load_def Let_def check_superblock_consistentD
      split: option.split sum.split prod.split)

lemma check_superblock_safe [simp]: "safe (fst (check_superblock d n g))"
  by (auto simp: check_superblock_def dest: validate_block_size_error split: sum.split)

lemma check_superblock_safeD: "check_superblock d n g = (Inl e, g') \<Longrightarrow> \<exists>c. e = Err c"
  by (auto simp: check_superblock_def dest!: validate_block_size_error split: if_splits sum.splits)

lemma sqfs_superblock_load_safe: "safe (fst (sqfs_superblock_load fd g))"
  using pread.rd_safe [of fd 96 0]
  by (auto simp: sqfs_superblock_load_def Let_def safe_def dest: check_superblock_safeD
      split: option.split sum.split prod.split)

lemma check_superblock_error:
  "\<not> superblock_valid d n \<Longrightarrow>
     \<exists>e \<in> {SQFS_ERR_BAD_MAGIC, SQFS_ERR_BAD_VERSION, SQFS_ERR_BAD_COMP, SQFS_ERR_CORRUPT}.
       fst (check_superblock d n g) = Inl (Err e)"
  using check_superblock_ok_iff [of d n g]
  by (auto simp: check_superblock_def dest!: validate_block_size_error split: if_splits sum.splits)

lemma superblock_load_encoded:
  assumes "PR_error \<notin> set (f_events fd 0 96)" and "f_stat_size fd = Some n"
    and "f_image fd = put_superblock d @ rest"
  shows "(superblock_valid d n \<longrightarrow> sqfs_superblock_load fd g =
      (Inr \<lparr>disk = d, sb_fd = fd, file_size = n,
         has_xattrs = (flags d AND 0x200 = 0 \<and> xattr_table d \<noteq> - 1),
         has_fragments = (flags d AND 0x10 = 0 \<and> frag_table d \<noteq> - 1),
         has_export = (export_table d \<noteq> - 1)\<rparr>, g))
    \<and> (\<not> superblock_valid d n \<longrightarrow>
        (\<exists>e \<in> {SQFS_ERR_BAD_MAGIC, SQFS_ERR_BAD_VERSION, SQFS_ERR_BAD_COMP, SQFS_ERR_CORRUPT}.
           fst (sqfs_superblock_load fd g) = Inl (Err e)))"
proof -
  have rd: "sqfs_pread_all fd 96 0 = Inr (put_superblock d)"
    using sqfs_pread_all_complete [OF assms(1)] by (simp add: assms(3) layout)
  obtain r g' where chk: "check_superblock d n g = (r, g')" by fastforce
  show ?thesis
  proof (cases "superblock_valid d n")
    case True
    then have "r = Inr ()" "g' = g"
      using check_superblock_ok_iff [of d n g "()"] check_superblock_keeps_stats [of d n g "()"] chk
      by auto
    with True rd chk assms(2) show ?thesis
      by (simp add: sqfs_superblock_load_def superblock_of_put sqfs_table_valid_def
          SQFS_INVALID_OFFSET_def SQUASHFS_FLAG_NO_XATTRS_def SQUASHFS_FLAG_NO_FRAGS_def)
  next
    case False
    with rd chk assms(2) check_superblock_error [OF False, of g] show ?thesis
      by (auto simp: sqfs_superblock_load_def superblock_of_put)
  qed
qed

definition example_superblock :: squashfs_superblock where
  "example_superblock = \<lparr>magic = 0x73717368, inode_count = 3, mod_time = 0,
     block_size = 131072, frag_count = 1, compressor = 6, block_log = 17, flags = 0x40,
     id_count = 1, version_major = 4, version_minor = 0, root_inode = 0x60, bytes_used = 96,
     id_table = 96, xattr_table = - 1, inode_table = 96, dir_table = 96, frag_table = 96,
     export_table = 96\<rparr>"

definition example_sb_file :: os_file where
  "example_sb_file = \<lparr>f_image = put_superblock example_superblock, f_stat_size = Some 96,
     f_events = (\<lambda>off n. [PR_eintr, PR_short 7])\<rparr>"

lemma example_superblock_valid: "superblock_valid example_superblock 96"
proof -
  have "block_size_ok 131072 17"
    unfolding block_size_ok_def by (intro exI [of _ 17]) simp
  then show ?thesis by (simp add: superblock_valid_def example_superblock_def)
qed

lemma example_sb_file_loads:
  "\<exists>sb. fst (sqfs_superblock_load example_sb_file g) = Inr sb"
  using superblock_load_encoded [of example_sb_file 96 example_superblock "[]" g]
    example_superblock_valid
  by (simp add: example_sb_file_def)

section \<open>Properties\<close>

text \<open>The block size check accepts exactly the powers of two from 4 KiB to 1 MiB, each
  with its own logarithm.\<close>

theorem validate_block_size_iff:
  "validate_block_size bsize blog = Inr () \<longleftrightarrow> block_size_ok bsize blog"
  by (rule validate_block_size_eq)

text \<open>C17: loading an image that starts with the encoding of a superblock gives back that
  superblock with the convenience flags of its tables, exactly when it passes the format's
  rules, and one of the four format errors otherwise, however the kernel splits the read.\<close>

theorem superblock_load_exact:
  assumes "PR_error \<notin> set (f_events fd 0 96)" and "f_stat_size fd = Some n"
    and "f_image fd = put_superblock d @ rest"
  shows "(superblock_valid d n \<longrightarrow> sqfs_superblock_load fd g =
      (Inr \<lparr>disk = d, sb_fd = fd, file_size = n,
         has_xattrs = (flags d AND 0x200 = 0 \<and> xattr_table d \<noteq> - 1),
         has_fragments = (flags d AND 0x10 = 0 \<and> frag_table d \<noteq> - 1),
         has_export = (export_table d \<noteq> - 1)\<rparr>, g))
    \<and> (\<not> superblock_valid d n \<longrightarrow>
        (\<exists>e \<in> {SQFS_ERR_BAD_MAGIC, SQFS_ERR_BAD_VERSION, SQFS_ERR_BAD_COMP, SQFS_ERR_CORRUPT}.
           fst (sqfs_superblock_load fd g) = Inl (Err e)))"
  using assms by (rule superblock_load_encoded)

theorem superblock_load_exact_witness:
  "\<exists>sb. fst (sqfs_superblock_load example_sb_file (sqfs_stats_init 0)) = Inr sb \<and> disk sb = example_superblock
     \<and> \<not> has_xattrs sb \<and> has_fragments sb \<and> has_export sb"
  using superblock_load_exact [of example_sb_file 96 example_superblock "[]" "sqfs_stats_init 0"]
    example_superblock_valid
  by (simp add: example_sb_file_def) (simp add: example_superblock_def)

text \<open>A superblock that loads is valid and is the decoding of the first 96 bytes of the
  file, its block size is at least 4 KiB and at most 1 MiB; no load touches memory outside
  of its buffers or loses count of an error.\<close>

theorem superblock_load_sound:
  "safe (fst (sqfs_superblock_load fd g))
   \<and> (errors_consistent g \<longrightarrow> errors_consistent (snd (sqfs_superblock_load fd g)))
   \<and> (\<forall>sb. fst (sqfs_superblock_load fd g) = Inr sb \<longrightarrow>
        superblock_valid (disk sb) (file_size sb)
        \<and> disk sb = superblock_of_bytes (segment (f_image fd) 0 96)
        \<and> 96 \<le> length (f_image fd)
        \<and> 4096 \<le> unat (block_size (disk sb)) \<and> unat (block_size (disk sb)) \<le> 1048576)"
proof (intro conjI impI allI)
  fix sb assume "fst (sqfs_superblock_load fd g) = Inr sb"
  note load = sqfs_superblock_load_sound [OF this]
  then show "superblock_valid (disk sb) (file_size sb)" by blast
  then have "block_size_ok (block_size (disk sb)) (block_log (disk sb))"
    by (simp add: superblock_valid_def)
  then show "4096 \<le> unat (block_size (disk sb))" "unat (block_size (disk sb)) \<le> 1048576"
    by (rule block_size_ok_bounds)+
  from load show "disk sb = superblock_of_bytes (segment (f_image fd) 0 96)"
    and "96 \<le> length (f_image fd)" by blast+
qed (simp_all add: sqfs_superblock_load_safe sqfs_superblock_load_consistent)

theorem superblock_load_sound_witness:
  "\<exists>sb. fst (sqfs_superblock_load example_sb_file (sqfs_stats_init 0)) = Inr sb
     \<and> unat (block_size (disk sb)) \<le> 1048576
     \<and> errors_consistent (snd (sqfs_superblock_load example_sb_file (sqfs_stats_init 0)))"
  using superblock_load_sound [of example_sb_file "sqfs_stats_init 0"]
    example_sb_file_loads [of "sqfs_stats_init 0"] errors_consistent_init [of 0]
  by blast

end
