(* ===== verification/Compressor.thy ===== *)
theory Compressor
  imports Superblock
begin

text \<open>
  \<open>src/core/compressor.h\<close> and \<open>src/core/compressor.c\<close>: the compressor objects, the dispatch
  through their \<open>decompress\<close> function pointer, and the wrappers around zlib and zstd.

  The two libraries are not part of the repository: they are the fields of \<open>codec_lib\<close>, a
  parameter. What their manuals promise and the code relies on is the predicate
  \<open>codec_bounded\<close>, a hypothesis of the theorems that need it.
\<close>

section \<open>Return codes\<close>

datatype comp_error =
    SQFS_COMP_ERROR
  | SQFS_COMP_OVERFLOW
  | SQFS_COMP_CORRUPT
  | SQFS_COMP_UNSUPPORTED
  | SQFS_COMP_NO_MEMORY

fun comp_error_code :: "comp_error \<Rightarrow> int" where
  "comp_error_code SQFS_COMP_ERROR = -1"
| "comp_error_code SQFS_COMP_OVERFLOW = -2"
| "comp_error_code SQFS_COMP_CORRUPT = -3"
| "comp_error_code SQFS_COMP_UNSUPPORTED = -4"
| "comp_error_code SQFS_COMP_NO_MEMORY = -5"

definition sqfs_compressor_strerror :: "int \<Rightarrow> string" where
  "sqfs_compressor_strerror err =
     (if err = 0 then ''Success''
      else if err = -1 then ''General compression error''
      else if err = -2 then ''Output buffer too small''
      else if err = -3 then ''Compressed data is corrupt''
      else if err = -4 then ''Unsupported compression algorithm''
      else if err = -5 then ''Memory allocation failed''
      else ''Unknown error'')"

section \<open>The libraries\<close>

text \<open>Where the source bytes lie: in a buffer of their own, or inside the destination buffer
  from the given offset on (the callers decompress in place to save an allocation).\<close>

datatype src_place = Disjoint | Inside nat

datatype z_code = Z_STREAM_END | Z_OK | Z_DATA_ERROR | Z_BUF_ERROR | Z_OTHER

datatype zstd_result = ZSTD_failed | ZSTD_done (zstd_output: "byte list") (zstd_consumed: nat)

text \<open>
  \<^item> \<open>lib_inflateInit2 w\<close>: whether the stream is set up;
  \<^item> \<open>lib_inflate p w src n\<close>: return code and produced bytes of one \<open>inflate(Z_FINISH)\<close> with
    window bits \<open>w\<close> and \<open>n\<close> bytes of output space;
  \<^item> \<open>lib_tls_dstream\<close>: whether this thread already has a stream object, and
    \<open>lib_createDStream\<close>, \<open>lib_initDStream\<close> whether creating and initialising one succeeds;
  \<^item> \<open>lib_DCtx_reset\<close>: whether the session reset succeeds;
  \<^item> \<open>lib_decompressStream p src n\<close>: an error, or the produced bytes and consumed input.
\<close>

record codec_lib =
  lib_inflateInit2 :: "int \<Rightarrow> bool"
  lib_inflate :: "src_place \<Rightarrow> int \<Rightarrow> byte list \<Rightarrow> nat \<Rightarrow> z_code \<times> byte list"
  lib_tls_dstream :: bool
  lib_createDStream :: bool
  lib_initDStream :: bool
  lib_DCtx_reset :: bool
  lib_decompressStream :: "src_place \<Rightarrow> byte list \<Rightarrow> nat \<Rightarrow> zstd_result"

text \<open>Neither library writes past the output space it is given nor reads past its input.\<close>

definition codec_bounded :: "codec_lib \<Rightarrow> bool" where
  "codec_bounded lib \<longleftrightarrow>
     (\<forall>p w src n. length (snd (lib_inflate lib p w src n)) \<le> n)
     \<and> (\<forall>p src n. case lib_decompressStream lib p src n of
          ZSTD_failed \<Rightarrow> True
        | ZSTD_done out used \<Rightarrow> length out \<le> n \<and> used \<le> length src)"

section \<open>zlib\<close>

text \<open>The format is guessed from the first two bytes: 15 window bits for a zlib stream, -15
  for raw deflate.\<close>

definition zlib_window_bits :: "byte list \<Rightarrow> int" where
  "zlib_window_bits src =
     (if 2 \<le> length src \<and> src ! 0 = 0x78
         \<and> (src ! 1 = 0x01 \<or> src ! 1 = 0x5e \<or> src ! 1 = 0x9c \<or> src ! 1 = 0xda)
      then 15 else -15)"

text \<open>\<open>avail_in\<close> and \<open>avail_out\<close> are 32-bit fields: the sizes are cut to them.\<close>

definition zlib_decompress ::
  "codec_lib \<Rightarrow> src_place \<Rightarrow> byte list \<Rightarrow> nat \<Rightarrow> comp_error + byte list" where
  "zlib_decompress lib place src dst_size =
     (if \<not> lib_inflateInit2 lib (zlib_window_bits src) then Inl SQFS_COMP_ERROR
      else (case lib_inflate lib place (zlib_window_bits src)
                   (take (length src mod 2 ^ 32) src) (dst_size mod 2 ^ 32) of
        (ret, out) \<Rightarrow>
          if ret \<noteq> Z_STREAM_END then
            (if ret = Z_DATA_ERROR then Inl SQFS_COMP_CORRUPT
             else if ret = Z_BUF_ERROR \<or> dst_size mod 2 ^ 32 - length out > 0
             then Inl SQFS_COMP_OVERFLOW
             else Inl SQFS_COMP_ERROR)
          else Inr out))"

section \<open>zstd\<close>

text \<open>The stream object lives in thread-local storage: an existing one is used, otherwise one
  is created and kept only if it initialises. The second component is the new state of the
  slot.\<close>

definition get_or_create_dstream :: "codec_lib \<Rightarrow> bool \<Rightarrow> bool \<times> bool" where
  "get_or_create_dstream lib tls =
     (if tls then (True, tls)
      else if \<not> lib_createDStream lib then (False, tls)
      else if \<not> lib_initDStream lib then (False, tls)
      else (True, True))"

definition zstd_decompress ::
  "codec_lib \<Rightarrow> src_place \<Rightarrow> byte list \<Rightarrow> nat \<Rightarrow> comp_error + byte list" where
  "zstd_decompress lib place src dst_size =
     (if \<not> fst (get_or_create_dstream lib (lib_tls_dstream lib)) then Inl SQFS_COMP_NO_MEMORY
      else if \<not> lib_DCtx_reset lib then Inl SQFS_COMP_ERROR
      else (case lib_decompressStream lib place src dst_size of
        ZSTD_failed \<Rightarrow> Inl SQFS_COMP_ERROR
      | ZSTD_done out used \<Rightarrow>
          if used < length src then Inl SQFS_COMP_CORRUPT else Inr out))"

section \<open>Compressor objects\<close>

type_synonym decompress_fn = "src_place \<Rightarrow> byte list \<Rightarrow> nat \<Rightarrow> comp_error + byte list"

text \<open>The object with its \<open>decompress\<close> function pointer; \<open>None\<close> is the null pointer. \<open>init\<close>
  and \<open>destroy\<close> are never called on a private context (\<open>priv\<close> stays null).\<close>

record sqfs_compressor =
  comp_name :: string
  comp_id :: u16
  comp_decompress :: "decompress_fn option"

definition sqfs_compressor_zlib_new :: "codec_lib \<Rightarrow> sqfs_compressor" where
  "sqfs_compressor_zlib_new lib =
     \<lparr>comp_name = ''gzip'', comp_id = 1, comp_decompress = Some (zlib_decompress lib)\<rparr>"

definition sqfs_compressor_zstd_new :: "codec_lib \<Rightarrow> sqfs_compressor" where
  "sqfs_compressor_zstd_new lib =
     \<lparr>comp_name = ''zstd'', comp_id = 6, comp_decompress = Some (zstd_decompress lib)\<rparr>"

text \<open>The objects are allocated with \<open>calloc(1, sizeof(*comp))\<close>, 48 bytes.\<close>

definition sqfs_compressor_create :: "codec_lib \<Rightarrow> allocator \<Rightarrow> u16 \<Rightarrow> sqfs_compressor option" where
  "sqfs_compressor_create lib mem cid =
     (if cid = 1 then (if sqfs_calloc mem 1 48 = 0 then None else Some (sqfs_compressor_zlib_new lib))
      else if cid = 6 then (if sqfs_calloc mem 1 48 = 0 then None else Some (sqfs_compressor_zstd_new lib))
      else None)"

definition sqfs_compressor_is_supported :: "u16 \<Rightarrow> bool" where
  "sqfs_compressor_is_supported cid \<longleftrightarrow> cid = 1 \<or> cid = 6"

definition sqfs_compressor_decompress ::
  "sqfs_compressor option \<Rightarrow> src_place \<Rightarrow> byte list \<Rightarrow> nat \<Rightarrow> comp_error + byte list" where
  "sqfs_compressor_decompress cmp place src dst_size =
     (case cmp of
        None \<Rightarrow> Inl SQFS_COMP_UNSUPPORTED
      | Some c \<Rightarrow>
          (case comp_decompress c of
             None \<Rightarrow> Inl SQFS_COMP_UNSUPPORTED
           | Some f \<Rightarrow> f place src dst_size))"

section \<open>Facts\<close>

lemma zlib_decompress_bounded:
  assumes "codec_bounded lib" and "zlib_decompress lib p src n = Inr out"
  shows "length out \<le> n"
proof -
  from assms(2) have "out = snd (lib_inflate lib p (zlib_window_bits src)
      (take (length src mod 2 ^ 32) src) (n mod 2 ^ 32))"
    by (auto simp: zlib_decompress_def split: if_splits prod.splits)
  with assms(1) have "length out \<le> n mod 2 ^ 32" by (simp add: codec_bounded_def)
  then show ?thesis by (rule order_trans) simp
qed

lemma zstd_decompress_bounded:
  assumes "codec_bounded lib" and "zstd_decompress lib p src n = Inr out"
  shows "length out \<le> n"
proof -
  from assms(2) obtain used where "lib_decompressStream lib p src n = ZSTD_done out used"
    by (auto simp: zstd_decompress_def split: if_splits zstd_result.splits)
  with assms(1) show ?thesis unfolding codec_bounded_def
    by (metis zstd_result.case(2))
qed

text \<open>A compressor the program can hold: one that \<open>sqfs_compressor_create\<close> returned.\<close>

lemma sqfs_compressor_create_cases:
  "sqfs_compressor_create lib mem cid = Some c \<Longrightarrow>
     cid = 1 \<and> c = sqfs_compressor_zlib_new lib \<or> cid = 6 \<and> c = sqfs_compressor_zstd_new lib"
  by (auto simp: sqfs_compressor_create_def split: if_splits)

lemma created_decompress_bounded:
  assumes "codec_bounded lib" and "sqfs_compressor_create lib mem cid = Some c"
    and "sqfs_compressor_decompress (Some c) p src n = Inr out"
  shows "length out \<le> n"
  using sqfs_compressor_create_cases [OF assms(2)] assms(3)
  by (auto simp: sqfs_compressor_decompress_def sqfs_compressor_zlib_new_def
      sqfs_compressor_zstd_new_def
      intro: zlib_decompress_bounded [OF assms(1)] zstd_decompress_bounded [OF assms(1)])

text \<open>A compressor whose results fit the space they are given; the components above state
  their bounds for any such compressor.\<close>

definition comp_bounded :: "sqfs_compressor option \<Rightarrow> bool" where
  "comp_bounded cmp \<longleftrightarrow>
     (\<forall>p src n out. sqfs_compressor_decompress cmp p src n = Inr out \<longrightarrow> length out \<le> n)"

lemma created_comp_bounded:
  "codec_bounded lib \<Longrightarrow> sqfs_compressor_create lib mem cid = Some c \<Longrightarrow> comp_bounded (Some c)"
  unfolding comp_bounded_def by (blast intro: created_decompress_bounded)

text \<open>The libraries of the concrete runs: ``compressed'' data is the data itself.\<close>

definition stored_lib :: codec_lib where
  "stored_lib = \<lparr>lib_inflateInit2 = (\<lambda>w. True),
     lib_inflate = (\<lambda>p w src n. if length src \<le> n then (Z_STREAM_END, src) else (Z_BUF_ERROR, take n src)),
     lib_tls_dstream = False, lib_createDStream = True, lib_initDStream = True, lib_DCtx_reset = True,
     lib_decompressStream = (\<lambda>p src n. ZSTD_done (take n src) (min n (length src)))\<rparr>"

lemma stored_lib_bounded: "codec_bounded stored_lib"
  by (auto simp: codec_bounded_def stored_lib_def)

section \<open>Properties\<close>

text \<open>The three places that decide whether a compressor is supported agree: the superblock
  check, \<open>sqfs_compressor_is_supported\<close> and \<open>sqfs_compressor_create\<close> accept the same
  identifiers, and a created object carries the identifier it was asked for, the name the
  superblock code prints for it and a decompressor.\<close>

theorem compressor_support_consistent:
  "is_compressor_supported cid = sqfs_compressor_is_supported cid
   \<and> (sqfs_compressor_create lib mem_ok cid \<noteq> None) = sqfs_compressor_is_supported cid
   \<and> (case sqfs_compressor_create lib mem cid of None \<Rightarrow> True
      | Some c \<Rightarrow> comp_id c = cid \<and> comp_name c = compressor_name cid \<and> comp_decompress c \<noteq> None)"
  by (auto simp: is_compressor_supported_def sqfs_compressor_is_supported_def
      sqfs_compressor_create_def SQUASHFS_COMP_GZIP_def SQUASHFS_COMP_ZSTD_def mem_ok_def
      sqfs_calloc_def sqfs_compressor_zlib_new_def sqfs_compressor_zstd_new_def
      compressor_name_def split: option.splits if_splits)

end
