(* ===== verification/MetaBlock.thy ===== *)
theory MetaBlock
  imports Compressor
begin

text \<open>
  The metadata half of \<open>src/core/data.h\<close> and \<open>src/core/data.c\<close>: one metadata block
  (\<open>sqfs_meta_read_block\<close>) and a read that runs over several of them (\<open>sqfs_meta_read\<close>).
  Metadata is a stream of records cut into blocks that follow each other on disk; the
  abstract view is the chain of decoded blocks from a position on, and the routines are
  shown to return the requested slice of its concatenation.
\<close>

section \<open>One metadata block\<close>

definition SQFS_META_BLOCK_SIZE :: nat where "SQFS_META_BLOCK_SIZE = 8192"

lemma meta_block_size [simp]: "SQFS_META_BLOCK_SIZE = 8192"
  by (simp add: SQFS_META_BLOCK_SIZE_def)

definition sqfs_meta_header_is_uncompressed :: "u16 \<Rightarrow> bool" where
  "sqfs_meta_header_is_uncompressed header \<longleftrightarrow> header AND 0x8000 \<noteq> 0"

definition sqfs_meta_header_size :: "u16 \<Rightarrow> u16" where
  "sqfs_meta_header_size header = header AND 0x7FFF"

definition sqfs_meta_ref_pos :: "u64 \<Rightarrow> u64" where
  "sqfs_meta_ref_pos ref = drop_bit 16 ref"

definition sqfs_meta_ref_offset :: "u64 \<Rightarrow> u16" where
  "sqfs_meta_ref_offset ref = ucast (ref AND 0xFFFF)"

definition sqfs_meta_ref_make :: "u64 \<Rightarrow> u16 \<Rightarrow> u64" where
  "sqfs_meta_ref_make pos offset = push_bit 16 pos OR ucast offset"

definition read_block_from_disk :: "os_file \<Rightarrow> u64 \<Rightarrow> nat \<Rightarrow> byte list res" where
  "read_block_from_disk fd pos count =
     (if count = 0 then Inr []
      else recode (Err SQFS_ERR_IO) (sqfs_pread_all fd count pos))"

text \<open>
  The output buffer has 8192 bytes. A compressed block shorter than that is first read into
  the end of the output buffer and decompressed from there to its beginning.
\<close>

definition sqfs_meta_read_block ::
  "allocator \<Rightarrow> os_file \<Rightarrow> u64 \<Rightarrow> sqfs_compressor option \<Rightarrow> byte list res" where
  "sqfs_meta_read_block mem fd pos cmp =
     (if cmp = None then Inl (Err SQFS_ERR_CORRUPT)
      else rbind (read_block_from_disk fd pos 2) (\<lambda>h.
        let header = sqfs_le16_to_cpu h AND 0xFFFF;
            is_uncompressed = header AND 0x8000 \<noteq> 0;
            compressed_size = header AND 0x7FFF
        in if compressed_size = 0 \<or> 8192 < compressed_size then Inl (Err SQFS_ERR_CORRUPT)
           else if is_uncompressed then
             read_block_from_disk fd (pos + 2) (unat compressed_size)
           else rbind
             (if compressed_size < 8192 then Inr (Inside (8192 - unat compressed_size))
              else if sqfs_malloc mem (unat compressed_size) = 0
              then Inl (Err SQFS_ERR_NO_MEMORY) else Inr Disjoint) (\<lambda>place.
             rbind (read_block_from_disk fd (pos + 2) (unat compressed_size)) (\<lambda>src.
               recode (Err SQFS_ERR_CORRUPT)
                 (sqfs_compressor_decompress cmp place src SQFS_META_BLOCK_SIZE)))))"

section \<open>Facts about one block\<close>

lemma meta_ref_same [simp]:
  "sqfs_meta_ref_pos = sqfs_meta_block_pos"
  "sqfs_meta_ref_offset = sqfs_meta_block_offset"
  "sqfs_meta_ref_make = sqfs_make_meta_ref"
  by (simp_all add: fun_eq_iff sqfs_meta_ref_pos_def sqfs_meta_ref_offset_def
      sqfs_meta_ref_make_def sqfs_meta_block_pos_def sqfs_meta_block_offset_def
      sqfs_make_meta_ref_def)

lemma read_block_from_disk_ok:
  assumes "read_block_from_disk fd pos n = Inr bs" and "n < 2 ^ 63"
  shows "bs = segment (f_image fd) (unat pos) n \<and> length bs = n
    \<and> (0 < n \<longrightarrow> unat pos < 2 ^ 63 \<and> unat pos + n \<le> length (f_image fd))"
  using assms by (auto simp: read_block_from_disk_def dest: pread.rd_ok split: if_splits)

lemma read_block_from_disk_error: "read_block_from_disk fd pos n = Inl e \<Longrightarrow> e = Err SQFS_ERR_IO"
  by (auto simp: read_block_from_disk_def recode_eq_Inl_iff split: if_splits)

text \<open>The block reader satisfies the same contract as the read loop below it.\<close>

interpretation blk: image_reader "\<lambda>n pos. read_block_from_disk fd pos n" "f_image fd" for fd
  by unfold_locales (use read_block_from_disk_ok read_block_from_disk_error in blast)+

lemma and_0xFFFF [simp]: "(w :: u16) AND 0xFFFF = w"
proof -
  have "(0xFFFF :: u16) = - 1" by simp
  then show ?thesis by (simp only: and.right_neutral)
qed

lemma meta_size_bound: "unat (header AND 0x7FFF :: u16) \<le> 32767"
  using unat_and_le [of header "0x7FFF"] by simp

lemma meta_read_block_safe: "safe (sqfs_meta_read_block mem fd pos cmp)"
  by (auto simp: sqfs_meta_read_block_def Let_def intro!: safe_rbind blk.rd_safe)

lemma meta_read_block_error:
  "sqfs_meta_read_block mem fd pos cmp = Inl e \<Longrightarrow>
     e = Err SQFS_ERR_IO \<or> e = Err SQFS_ERR_CORRUPT \<or> e = Err SQFS_ERR_NO_MEMORY"
  by (auto simp: sqfs_meta_read_block_def Let_def rbind_eq_Inl_iff
      recode_eq_Inl_iff dest!: read_block_from_disk_error split: if_splits)

text \<open>A block that reads has its header inside the image, at a position that can be
  advanced without wrapping.\<close>

lemma meta_read_block_header:
  assumes "sqfs_meta_read_block mem fd pos cmp = Inr b"
  obtains h where "read_block_from_disk fd pos 2 = Inr h"
    and "unat pos < 2 ^ 63" and "cmp \<noteq> None"
  using assms read_block_from_disk_ok [of fd pos 2]
  by (auto simp: sqfs_meta_read_block_def rbind_eq_Inr_iff split: if_splits)

lemma meta_read_block_bounded:
  assumes "comp_bounded cmp" and "sqfs_meta_read_block mem fd pos cmp = Inr b"
  shows "length b \<le> 8192"
proof -
  from assms(2) consider (raw) n where "n \<le> 8192" "read_block_from_disk fd (pos + 2) n = Inr b"
    | (packed) p src where "sqfs_compressor_decompress cmp p src 8192 = Inr b"
    by (auto simp: sqfs_meta_read_block_def Let_def rbind_eq_Inr_iff word_less_nat_alt not_less
        split: if_splits)
  then show ?thesis
  proof cases
    case raw
    then show ?thesis using read_block_from_disk_ok [of fd "pos + 2" n b] by simp
  next
    case packed
    with assms(1) show ?thesis unfolding comp_bounded_def by blast
  qed
qed

section \<open>A read across blocks\<close>

text \<open>Where the next block starts: the header is read again for its size field.\<close>

definition meta_next_pos :: "os_file \<Rightarrow> u64 \<Rightarrow> u64 res" where
  "meta_next_pos fd pos =
     rbind (read_block_from_disk fd pos 2) (\<lambda>h.
       let compressed_size = sqfs_le16_to_cpu h AND 0x7FFF
       in Inr (pos + (2 + ucast compressed_size)))"

text \<open>The copy out of the 8192-byte work buffer, of which only the first bytes (the decoded
  block) have been produced.\<close>

definition copy_from_block :: "byte list \<Rightarrow> nat \<Rightarrow> nat \<Rightarrow> byte list res" where
  "copy_from_block b off n =
     (if off + n \<le> length b then Inr (segment b off n)
      else if off + n \<le> SQFS_META_BLOCK_SIZE then Inl (Fault Uninit_Read)
      else Inl (Fault OOB_Read))"

function meta_read_loop ::
  "allocator \<Rightarrow> os_file \<Rightarrow> sqfs_compressor option \<Rightarrow> u64 \<Rightarrow> u16 \<Rightarrow> nat \<Rightarrow> byte list res" where
  "meta_read_loop mem fd cmp block_pos block_offset bytes_remaining =
     (if bytes_remaining = 0 then Inr []
      else rbind (sqfs_meta_read_block mem fd block_pos cmp) (\<lambda>b.
        let available = of_nat (length b) - ucast block_offset :: u64;
            to_copy = (if bytes_remaining < unat available then bytes_remaining else unat available)
        in rbind (copy_from_block b (unat block_offset) to_copy) (\<lambda>out.
           if bytes_remaining - to_copy > 0 then
             rbind (meta_next_pos fd block_pos) (\<lambda>next.
               rbind (meta_read_loop mem fd cmp next 0 (bytes_remaining - to_copy))
                 (\<lambda>rest. Inr (out @ rest)))
           else Inr out)))"
  by pat_completeness auto

lemma meta_next_pos_advance:
  assumes "meta_next_pos fd pos = Inr next"
  shows "unat pos < unat next"
proof -
  from assms obtain h where h: "read_block_from_disk fd pos 2 = Inr h"
    and nx: "next = pos + (2 + ucast (sqfs_le16_to_cpu h AND 0x7FFF))"
    by (auto simp: meta_next_pos_def rbind_eq_Inr_iff)
  define k where "k = unat (sqfs_le16_to_cpu h AND 0x7FFF)"
  have k: "k \<le> 32767" unfolding k_def by (rule meta_size_bound)
  have "next = pos + of_nat (2 + k)" by (simp add: nx k_def)
  moreover have "unat (pos + of_nat (2 + k)) = unat pos + (2 + k)"
    using k by (intro blk.rd_next [OF h]) simp_all
  ultimately show ?thesis by simp
qed

termination meta_read_loop
  by (relation "measure (\<lambda>(mem, fd, cmp, pos, off, n). 2 ^ 64 - unat pos)")
    (auto dest!: meta_next_pos_advance intro!: diff_less_mono2)

declare meta_read_loop.simps [simp del]

definition sqfs_meta_read ::
  "allocator \<Rightarrow> os_file \<Rightarrow> u64 \<Rightarrow> nat \<Rightarrow> sqfs_compressor option \<Rightarrow> u64 \<Rightarrow> byte list res" where
  "sqfs_meta_read mem fd ref n cmp table_start =
     (if cmp = None then Inl (Err SQFS_ERR_CORRUPT)
      else if n = 0 then Inr []
      else if sqfs_malloc mem SQFS_META_BLOCK_SIZE = 0 then Inl (Err SQFS_ERR_NO_MEMORY)
      else meta_read_loop mem fd cmp (sqfs_meta_ref_pos ref + table_start) (sqfs_meta_ref_offset ref) n)"

section \<open>The chain of blocks\<close>

inductive meta_chain ::
  "allocator \<Rightarrow> os_file \<Rightarrow> sqfs_compressor option \<Rightarrow> u64 \<Rightarrow> byte list list \<Rightarrow> bool"
  for mem fd cmp where
  chain_last: "sqfs_meta_read_block mem fd pos cmp = Inr b \<Longrightarrow> meta_chain mem fd cmp pos [b]"
| chain_step: "sqfs_meta_read_block mem fd pos cmp = Inr b \<Longrightarrow> meta_next_pos fd pos = Inr next \<Longrightarrow>
    meta_chain mem fd cmp next bs \<Longrightarrow> meta_chain mem fd cmp pos (b # bs)"

text \<open>The work of one iteration, when the offset lies inside the block.\<close>

lemma available_eq:
  assumes "unat (off :: u16) \<le> n" and "n < 2 ^ 63"
  shows "unat (of_nat n - ucast off :: u64) = n - unat off"
proof -
  have "(of_nat n - ucast off :: u64) = of_nat (n - unat off)"
    using assms(1) by (simp add: of_nat_diff)
  then show ?thesis using assms(2) by (simp add: unat_of_nat)
qed

lemma copy_from_block_ok [simp]:
  "off + n \<le> length b \<Longrightarrow> copy_from_block b off n = Inr (segment b off n)"
  by (simp add: copy_from_block_def)

lemma meta_read_loop_step:
  assumes "sqfs_meta_read_block mem fd pos cmp = Inr b" and "unat off \<le> length b"
    and "length b \<le> 8192" and "0 < n"
  shows "meta_read_loop mem fd cmp pos off n =
    (if n \<le> length b - unat off then Inr (segment b (unat off) n)
     else rbind (meta_next_pos fd pos) (\<lambda>next.
       rbind (meta_read_loop mem fd cmp next 0 (n - (length b - unat off)))
         (\<lambda>rest. Inr (drop (unat off) b @ rest))))"
  using assms available_eq [of off "length b"]
  by (subst meta_read_loop.simps)
    (auto simp: Let_def segment_def)

lemma segment_append_split:
  "off \<le> length xs \<Longrightarrow> length xs - off \<le> n \<Longrightarrow>
     segment (xs @ ys) off n = drop off xs @ segment ys 0 (n - (length xs - off))"
  by (simp add: segment_def)

lemma meta_read_loop_chain:
  assumes "comp_bounded cmp" and "meta_chain mem fd cmp pos bs"
    and "unat off \<le> length (hd bs)" and "unat off + n \<le> length (concat bs)"
  shows "meta_read_loop mem fd cmp pos off n = Inr (segment (concat bs) (unat off) n)"
  using assms(2-)
proof (induction pos bs arbitrary: off n rule: meta_chain.induct)
  case (chain_last pos b)
  then show ?case
    using meta_read_loop_step [OF chain_last(1)] meta_read_block_bounded [OF assms(1) chain_last(1)]
    by (cases "n = 0") (auto simp: meta_read_loop.simps [where bytes_remaining = 0])
next
  case (chain_step pos b "next" bs)
  have off: "unat off \<le> length b" and len: "unat off + n \<le> length b + length (concat bs)"
    using chain_step.prems by simp_all
  note bounded = meta_read_block_bounded [OF assms(1) chain_step(1)]
  show ?case
  proof (cases "n = 0")
    case True
    then show ?thesis by (simp add: meta_read_loop.simps)
  next
    case False
    note step = meta_read_loop_step [OF chain_step(1) off bounded, of n]
    show ?thesis
    proof (cases "n \<le> length b - unat off")
      case True
      with False step off show ?thesis by (simp add: segment_append_left)
    next
      case more: False
      have "meta_read_loop mem fd cmp next 0 (n - (length b - unat off))
          = Inr (segment (concat bs) 0 (n - (length b - unat off)))"
        using len off more by (intro chain_step.IH [of 0, simplified]) simp_all
      with step False more off chain_step(2) show ?thesis
        by (simp add: segment_append_split)
    qed
  qed
qed

text \<open>Conversely every read that succeeds from an offset inside the first block walked such a
  chain.\<close>

lemma meta_read_loop_sound:
  assumes "comp_bounded cmp" and "meta_read_loop mem fd cmp pos off n = Inr out" and "0 < n"
    and "\<And>b. sqfs_meta_read_block mem fd pos cmp = Inr b \<Longrightarrow> unat off \<le> length b"
  shows "\<exists>bs. meta_chain mem fd cmp pos bs \<and> unat off + n \<le> length (concat bs)
    \<and> out = segment (concat bs) (unat off) n"
  using assms(2-)
proof (induction "2 ^ 64 - unat pos" arbitrary: pos off n out rule: less_induct)
  case less
  from less.prems(1,2) obtain b where b: "sqfs_meta_read_block mem fd pos cmp = Inr b"
    by (subst (asm) meta_read_loop.simps) (auto simp: rbind_eq_Inr_iff)
  have off: "unat off \<le> length b" using less.prems(3) [OF b] .
  note step = meta_read_loop_step [OF b off meta_read_block_bounded [OF assms(1) b] less.prems(2)]
  show ?case
  proof (cases "n \<le> length b - unat off")
    case True
    with less.prems(1) step off show ?thesis
      by (intro exI [of _ "[b]"]) (auto intro: meta_chain.chain_last [OF b])
  next
    case more: False
    from less.prems(1) step more obtain nx rest where nx: "meta_next_pos fd pos = Inr nx"
      and rest: "meta_read_loop mem fd cmp nx 0 (n - (length b - unat off)) = Inr rest"
      and out: "out = drop (unat off) b @ rest"
      by (auto simp: rbind_eq_Inr_iff)
    have "2 ^ 64 - unat nx < 2 ^ 64 - unat pos"
      using meta_next_pos_advance [OF nx] by (intro diff_less_mono2) simp_all
    from less.hyps [OF this rest] more obtain bs where "meta_chain mem fd cmp nx bs"
      "n - (length b - unat off) \<le> length (concat bs)"
      "rest = segment (concat bs) 0 (n - (length b - unat off))" by auto
    with off more out show ?thesis
      by (intro exI [of _ "b # bs"])
        (auto simp: segment_append_split intro: meta_chain.chain_step [OF b nx])
  qed
qed

lemma meta_read_loop_errors:
  "meta_read_loop mem fd cmp pos off n = Inl (Err e) \<Longrightarrow>
     e = SQFS_ERR_IO \<or> e = SQFS_ERR_CORRUPT \<or> e = SQFS_ERR_NO_MEMORY"
proof (induction "2 ^ 64 - unat pos" arbitrary: pos off n rule: less_induct)
  case less
  have next_err: "meta_next_pos fd pos = Inl (Err e) \<Longrightarrow> e = SQFS_ERR_IO"
    by (auto simp: meta_next_pos_def rbind_eq_Inl_iff Let_def dest: read_block_from_disk_error)
  have copy_err: "copy_from_block b i m \<noteq> Inl (Err e)" for b i m
    by (simp add: copy_from_block_def)
  have "e = SQFS_ERR_IO \<or> e = SQFS_ERR_CORRUPT \<or> e = SQFS_ERR_NO_MEMORY"
    if nx: "meta_next_pos fd pos = Inr nx" and "meta_read_loop mem fd cmp nx 0 m = Inl (Err e)" for nx m
    using that meta_next_pos_advance [OF nx]
    by (intro less.hyps [of nx 0 m] diff_less_mono2) simp_all
  with less.prems next_err copy_err show ?case
    by (subst (asm) meta_read_loop.simps)
      (auto simp: rbind_eq_Inl_iff Let_def dest!: meta_read_block_error split: if_splits)
qed

section \<open>Writing a metadata stream\<close>

text \<open>What the format prescribes for a stored block: its data as it is, with the top bit of the
  header set, or any source the compressor expands to it.\<close>

datatype stored_block = Raw (block_data: "byte list") | Packed (packed_src: "byte list") (block_data: "byte list")

fun block_bytes :: "stored_block \<Rightarrow> byte list" where
  "block_bytes (Raw d) = put_le16 (0x8000 OR of_nat (length d)) @ d"
| "block_bytes (Packed src d) = put_le16 (of_nat (length src)) @ src"

fun block_wf :: "sqfs_compressor option \<Rightarrow> stored_block \<Rightarrow> bool" where
  "block_wf cmp (Raw d) \<longleftrightarrow> 0 < length d \<and> length d \<le> 8192"
| "block_wf cmp (Packed src d) \<longleftrightarrow> 0 < length src \<and> length src < 8192
     \<and> sqfs_compressor_decompress cmp (Inside (8192 - length src)) src 8192 = Inr d"

text \<open>An image without read errors, of a size a file can have.\<close>

definition reliable :: "os_file \<Rightarrow> bool" where
  "reliable fd \<longleftrightarrow> (\<forall>off n. PR_error \<notin> set (f_events fd off n)) \<and> length (f_image fd) < 2 ^ 63"

lemma reliable_pread:
  assumes "reliable fd" and "unat pos + n \<le> length (f_image fd)"
  shows "sqfs_pread_all fd n pos = Inr (segment (f_image fd) (unat pos) n)"
  using assms by (subst sqfs_pread_all_complete) (auto simp: reliable_def)

lemma reliable_read:
  "reliable fd \<Longrightarrow> unat pos + n \<le> length (f_image fd) \<Longrightarrow>
     read_block_from_disk fd pos n = Inr (segment (f_image fd) (unat pos) n)"
  by (simp add: read_block_from_disk_def reliable_pread)

lemma flag_bits:
  fixes w x :: u16
  shows "(push_bit 15 x OR w) AND mask 15 = take_bit 15 w"
    and "take_bit 15 w AND push_bit 15 x = 0"
  by (rule bit_word_eqI, auto simp: bit_simps)+

lemma raw_header:
  assumes "n \<le> 8192"
  shows "(0x8000 OR of_nat n :: u16) AND 0x8000 \<noteq> 0"
    and "(0x8000 OR of_nat n :: u16) AND 0x7FFF = of_nat n"
proof -
  have m: "(0x8000 :: u16) = push_bit 15 1" "(0x7FFF :: u16) = mask 15"
    by (simp_all add: mask_eq_exp_minus_1)
  have "bit ((0x8000 OR of_nat n :: u16) AND 0x8000) 15"
    unfolding m by (simp add: bit_simps)
  then show "(0x8000 OR of_nat n :: u16) AND 0x8000 \<noteq> 0" by (metis bit_0_eq bot_apply bot_bool_def)
  have "take_bit 15 (of_nat n :: u16) = of_nat n"
    using assms by (simp add: take_bit_of_nat take_bit_nat_eq_self)
  moreover note flag_bits(1) [of 1 "of_nat n"]
  ultimately show "(0x8000 OR of_nat n :: u16) AND 0x7FFF = of_nat n" by (simp only: m)
qed

lemma packed_header:
  assumes "n < 8192"
  shows "(of_nat n :: u16) AND 0x8000 = 0" and "(of_nat n :: u16) AND 0x7FFF = of_nat n"
proof -
  have m: "(0x8000 :: u16) = push_bit 15 1" "(0x7FFF :: u16) = mask 15"
    by (simp_all add: mask_eq_exp_minus_1)
  have t: "take_bit 15 (of_nat n :: u16) = of_nat n"
    using assms by (simp add: take_bit_of_nat take_bit_nat_eq_self)
  then show "(of_nat n :: u16) AND 0x7FFF = of_nat n" by (simp only: m take_bit_eq_mask)
  show "(of_nat n :: u16) AND 0x8000 = 0"
    using flag_bits(2) [of "of_nat n" 1] by (simp only: m t)
qed

text \<open>One stored block reads back as its data, and the next one starts right behind it.\<close>

lemma stored_block_read:
  assumes fd: "reliable fd" and img: "f_image fd = pre @ block_bytes sb @ post"
    and pos: "unat pos = length pre" and wf: "block_wf cmp sb" and cmp: "cmp \<noteq> None"
  shows "sqfs_meta_read_block mem fd pos cmp = Inr (block_data sb)"
    and "meta_next_pos fd pos = Inr (pos + of_nat (length (block_bytes sb)))"
proof -
  have small: "length (f_image fd) < 2 ^ 63" using fd by (simp add: reliable_def)
  have wrap: "unat (pos + 2) = unat pos + 2"
    using unat_add_of_nat [of pos 2] pos small img by simp
  obtain h body where bb: "block_bytes sb = put_le16 h @ body"
    and h: "(sb = Raw body \<and> h = 0x8000 OR of_nat (length body))
      \<or> (\<exists>d. sb = Packed body d \<and> h = of_nat (length body))"
    by (cases sb) auto
  from h wf have len: "length body \<le> 8192" "0 < length body" by auto
  have lenw: "unat (of_nat (length body) :: u16) = length body"
    using len by (simp add: unat_of_nat)
  have nz: "(of_nat (length body) :: u16) \<noteq> 0"
    using lenw len(2) by (metis less_numeral_extra(3) unat_0)
  have hdr: "read_block_from_disk fd pos 2 = Inr (put_le16 h)"
    using fd img bb pos by (simp add: reliable_read segment_skip segment_head)
  have bdy: "read_block_from_disk fd (pos + 2) (length body) = Inr body"
    using fd img bb pos wrap by (simp add: reliable_read segment_skip segment_head)
  have size_field: "h AND 0x7FFF = of_nat (length body)"
    using h wf len raw_header(2) packed_header(2) by auto
  show "meta_next_pos fd pos = Inr (pos + of_nat (length (block_bytes sb)))"
    using len by (simp add: meta_next_pos_def hdr size_field bb unsigned_of_nat take_bit_nat_eq_self)
  show "sqfs_meta_read_block mem fd pos cmp = Inr (block_data sb)"
    using h
  proof
    assume "sb = Raw body \<and> h = 0x8000 OR of_nat (length body)"
    with raw_header [OF len(1)] cmp len show ?thesis
      by (simp add: sqfs_meta_read_block_def hdr bdy lenw word_less_nat_alt Let_def nz)
  next
    assume "\<exists>d. sb = Packed body d \<and> h = of_nat (length body)"
    with wf packed_header [of "length body"] cmp len show ?thesis
      by (auto simp add: sqfs_meta_read_block_def hdr bdy lenw word_less_nat_alt Let_def nz)
  qed
qed

lemma stored_chain:
  assumes "reliable fd" and "f_image fd = pre @ concat (map block_bytes sbs) @ post"
    and "unat pos = length pre" and "\<forall>sb \<in> set sbs. block_wf cmp sb" and "cmp \<noteq> None" and "sbs \<noteq> []"
  shows "meta_chain mem fd cmp pos (map block_data sbs)"
  using assms
proof (induction sbs arbitrary: pre pos)
  case Nil
  then show ?case by simp
next
  case (Cons sb sbs)
  have img: "f_image fd = pre @ block_bytes sb @ concat (map block_bytes sbs) @ post"
    using Cons.prems(2) by simp
  have wf: "block_wf cmp sb" using Cons.prems(4) by simp
  note rd = stored_block_read [OF Cons.prems(1) img Cons.prems(3) wf Cons.prems(5)]
  show ?case
  proof (cases "sbs = []")
    case True
    then show ?thesis using rd(1) by (auto intro: meta_chain.chain_last)
  next
    case False
    have "unat (pos + of_nat (length (block_bytes sb))) = length (pre @ block_bytes sb)"
      using Cons.prems(1,3) img by (subst unat_add_of_nat) (simp_all add: reliable_def)
    with Cons.prems img have "meta_chain mem fd cmp (pos + of_nat (length (block_bytes sb))) (map block_data sbs)"
      using False by (intro Cons.IH [of "pre @ block_bytes sb"]) simp_all
    with rd show ?thesis by (auto intro: meta_chain.chain_step)
  qed
qed

section \<open>Properties\<close>

text \<open>One metadata block. Whatever the image holds, the routine neither reads nor writes
  outside its buffers, fails only with an I/O, corruption or memory error, and with a
  compressor that respects its output space yields at most 8192 bytes.\<close>

theorem meta_read_block_total:
  assumes "comp_bounded cmp"
  shows "safe (sqfs_meta_read_block mem fd pos cmp)
    \<and> (case sqfs_meta_read_block mem fd pos cmp of
         Inr b \<Rightarrow> length b \<le> 8192
       | Inl e \<Rightarrow> e \<in> {Err SQFS_ERR_IO, Err SQFS_ERR_CORRUPT, Err SQFS_ERR_NO_MEMORY})"
  using meta_read_block_safe [of mem fd pos cmp] meta_read_block_error [of mem fd pos cmp]
    meta_read_block_bounded [OF assms, of mem fd pos]
  by (auto split: sum.split)

lemma zstd_stored_bounded: "comp_bounded (Some (sqfs_compressor_zstd_new stored_lib))"
  by (rule created_comp_bounded [OF stored_lib_bounded, of mem_ok 6])
    (simp add: sqfs_compressor_create_def mem_ok_def sqfs_calloc_def)

text \<open>A one-block image used by the concrete runs: a raw block of three bytes.\<close>

definition three_byte_file :: os_file where
  "three_byte_file = \<lparr>f_image = [0x03, 0x80, 7, 8, 9], f_stat_size = Some 5, f_events = (\<lambda>_ _. [])\<rparr>"

lemma three_byte_reliable: "reliable three_byte_file"
  by (simp add: reliable_def three_byte_file_def)

theorem meta_read_block_total_witness:
  "safe (sqfs_meta_read_block mem_ok three_byte_file 0 (Some (sqfs_compressor_zstd_new stored_lib)))"
  using meta_read_block_total [OF zstd_stored_bounded] by blast

text \<open>C14: a metadata stream written as raw and compressed blocks that follow each other is read
  back: from any reference into its first block and for any length that stays inside the
  stream, \<open>sqfs_meta_read\<close> succeeds and returns exactly those bytes of the blocks' data, across
  as many block boundaries as the range spans.\<close>

theorem meta_read_roundtrip:
  assumes "reliable fd" and "comp_bounded cmp" and "cmp \<noteq> None" and "\<forall>k. mem k \<noteq> 0"
    and "f_image fd = pre @ concat (map block_bytes sbs) @ post" and "sbs \<noteq> []"
    and "\<forall>sb \<in> set sbs. block_wf cmp sb"
    and "unat (sqfs_meta_ref_pos ref + table_start) = length pre"
    and "unat (sqfs_meta_ref_offset ref) \<le> length (block_data (hd sbs))"
    and "unat (sqfs_meta_ref_offset ref) + n \<le> length (concat (map block_data sbs))"
  shows "sqfs_meta_read mem fd ref n cmp table_start
    = Inr (segment (concat (map block_data sbs)) (unat (sqfs_meta_ref_offset ref)) n)"
proof -
  have "meta_chain mem fd cmp (sqfs_meta_ref_pos ref + table_start) (map block_data sbs)"
    using assms by (intro stored_chain) simp_all
  from meta_read_loop_chain [OF assms(2) this] assms(3,4,6,9,10) show ?thesis
    by (auto simp: sqfs_meta_read_def sqfs_malloc_def hd_map)
qed

theorem meta_read_roundtrip_witness:
  "sqfs_meta_read mem_ok three_byte_file 1 2 (Some (sqfs_compressor_zstd_new stored_lib)) 0 = Inr [8, 9]"
proof -
  have img: "f_image three_byte_file = [] @ concat (map block_bytes [Raw [7, 8, 9]]) @ []"
    by (simp add: three_byte_file_def put_le16_def)
  show ?thesis
    using meta_read_roundtrip [OF three_byte_reliable zstd_stored_bounded _ _ img, of mem_ok 1 0 2]
    by (simp add: mem_ok_def sqfs_meta_block_pos_def sqfs_meta_block_offset_def segment_def)
qed

text \<open>C27: whenever \<open>sqfs_meta_read\<close> returns bytes, starting inside its first block, there is a
  chain of blocks on disk, each decoded by \<open>sqfs_meta_read_block\<close> and each starting where the
  previous one ends, of which these bytes are the requested range.\<close>

theorem meta_read_sound:
  assumes "comp_bounded cmp" and "0 < n"
    and "sqfs_meta_read mem fd ref n cmp table_start = Inr out"
    and "\<And>b. sqfs_meta_read_block mem fd (sqfs_meta_ref_pos ref + table_start) cmp = Inr b \<Longrightarrow>
      unat (sqfs_meta_ref_offset ref) \<le> length b"
  shows "\<exists>bs. meta_chain mem fd cmp (sqfs_meta_ref_pos ref + table_start) bs
    \<and> unat (sqfs_meta_ref_offset ref) + n \<le> length (concat bs)
    \<and> out = segment (concat bs) (unat (sqfs_meta_ref_offset ref)) n"
proof -
  have "meta_read_loop mem fd cmp (sqfs_meta_ref_pos ref + table_start) (sqfs_meta_ref_offset ref) n = Inr out"
    using assms(2,3) by (auto simp: sqfs_meta_read_def split: if_splits)
  from meta_read_loop_sound [OF assms(1) this assms(2,4)] show ?thesis by blast
qed

theorem meta_read_sound_witness:
  "\<exists>bs. meta_chain mem_ok three_byte_file (Some (sqfs_compressor_zstd_new stored_lib)) 0 bs
    \<and> unat (1 :: u16) + 2 \<le> length (concat bs) \<and> [8, 9] = segment (concat bs) 1 2"
proof -
  let ?c = "Some (sqfs_compressor_zstd_new stored_lib)"
  have img: "f_image three_byte_file = [] @ block_bytes (Raw [7, 8, 9]) @ []"
    by (simp add: three_byte_file_def put_le16_def)
  have b: "sqfs_meta_read_block mem_ok three_byte_file 0 ?c = Inr [7, 8, 9]"
    using stored_block_read(1) [OF three_byte_reliable img, of 0 ?c mem_ok] by simp
  have "meta_chain mem_ok three_byte_file ?c 0 [[7, 8, 9]]" by (rule meta_chain.chain_last [OF b])
  from meta_read_loop_chain [OF zstd_stored_bounded this, of 1 2]
  have "meta_read_loop mem_ok three_byte_file ?c 0 1 2 = Inr [8, 9]" by (simp add: segment_def)
  then show ?thesis
    using meta_read_sound [OF zstd_stored_bounded, of 2 mem_ok three_byte_file 1 0 "[8, 9]"] b
    by (simp add: sqfs_meta_read_def sqfs_malloc_def mem_ok_def sqfs_meta_block_pos_def
        sqfs_meta_block_offset_def)
qed

text \<open>The offset is not checked against the decoded block: a reference whose offset is past
  the end of its block makes the 64-bit difference wrap, and the copy reads bytes the block
  does not have.\<close>

theorem meta_read_offset_unchecked:
  "sqfs_meta_read mem_ok three_byte_file 4 1 (Some (sqfs_compressor_zstd_new stored_lib)) 0
     = Inl (Fault Uninit_Read)
   \<and> sqfs_meta_read mem_ok three_byte_file 0x2000 1 (Some (sqfs_compressor_zstd_new stored_lib)) 0
     = Inl (Fault OOB_Read)"
proof -
  let ?c = "Some (sqfs_compressor_zstd_new stored_lib)"
  have img: "f_image three_byte_file = [] @ block_bytes (Raw [7, 8, 9]) @ []"
    by (simp add: three_byte_file_def put_le16_def)
  have b: "sqfs_meta_read_block mem_ok three_byte_file 0 ?c = Inr [7, 8, 9]"
    using stored_block_read(1) [OF three_byte_reliable img, of 0 ?c mem_ok] by simp
  show ?thesis
    by (simp add: sqfs_meta_read_def sqfs_malloc_def mem_ok_def sqfs_meta_block_pos_def
        sqfs_meta_block_offset_def meta_read_loop.simps [where bytes_remaining = "Suc 0"] Let_def
        b [simplified mem_ok_def] copy_from_block_def mem_ok_def)
qed

end
