(* ===== verification/Inode.thy ===== *)
theory Inode
  imports MetaBlock
begin

text \<open>
  \<open>src/core/inode.h\<close> and \<open>src/core/inode.c\<close>: the disk formats of the fourteen inode types,
  the runtime inode with its anonymous union, the parsers, the lookup by metadata reference
  and the lookup by number through the export table.

  The union is modelled by the five 64-bit words it occupies, with the member accesses as
  reads and writes of their bits at the offsets of the x86-64 ABI, because the code writes
  one member and reads another.
\<close>

section \<open>Inode types\<close>

datatype sqfs_inode_type =
    SQFS_INODE_DIR
  | SQFS_INODE_FILE
  | SQFS_INODE_SYMLINK
  | SQFS_INODE_BLKDEV
  | SQFS_INODE_CHRDEV
  | SQFS_INODE_FIFO
  | SQFS_INODE_SOCKET
  | SQFS_INODE_LDIR
  | SQFS_INODE_LFILE
  | SQFS_INODE_LSYMLINK
  | SQFS_INODE_LBLKDEV
  | SQFS_INODE_LCHRDEV
  | SQFS_INODE_LFIFO
  | SQFS_INODE_LSOCKET

fun inode_type_code :: "sqfs_inode_type \<Rightarrow> nat" where
  "inode_type_code SQFS_INODE_DIR = 1"
| "inode_type_code SQFS_INODE_FILE = 2"
| "inode_type_code SQFS_INODE_SYMLINK = 3"
| "inode_type_code SQFS_INODE_BLKDEV = 4"
| "inode_type_code SQFS_INODE_CHRDEV = 5"
| "inode_type_code SQFS_INODE_FIFO = 6"
| "inode_type_code SQFS_INODE_SOCKET = 7"
| "inode_type_code SQFS_INODE_LDIR = 8"
| "inode_type_code SQFS_INODE_LFILE = 9"
| "inode_type_code SQFS_INODE_LSYMLINK = 10"
| "inode_type_code SQFS_INODE_LBLKDEV = 11"
| "inode_type_code SQFS_INODE_LCHRDEV = 12"
| "inode_type_code SQFS_INODE_LFIFO = 13"
| "inode_type_code SQFS_INODE_LSOCKET = 14"

text \<open>The enumerators compare as their values do.\<close>

lemma inode_type_code_inj: "inode_type_code a = inode_type_code b \<Longrightarrow> a = b"
  by (cases a; cases b) simp_all

instantiation sqfs_inode_type :: linorder
begin

definition less_eq_sqfs_inode_type :: "sqfs_inode_type \<Rightarrow> sqfs_inode_type \<Rightarrow> bool" where
  "less_eq_sqfs_inode_type a b \<longleftrightarrow> inode_type_code a \<le> inode_type_code b"

definition less_sqfs_inode_type :: "sqfs_inode_type \<Rightarrow> sqfs_inode_type \<Rightarrow> bool" where
  "less_sqfs_inode_type a b \<longleftrightarrow> inode_type_code a < inode_type_code b"

instance
  by intro_classes
    (auto simp: less_eq_sqfs_inode_type_def less_sqfs_inode_type_def intro: inode_type_code_inj)

end

text \<open>The cast of a validated 16-bit field to the enumeration; \<open>None\<close> stands for a value the
  validation refuses.\<close>

definition inode_type_of_code :: "nat \<Rightarrow> sqfs_inode_type option" where
  "inode_type_of_code n =
     (if n < 1 \<or> 14 < n then None
      else Some ([SQFS_INODE_DIR, SQFS_INODE_FILE, SQFS_INODE_SYMLINK, SQFS_INODE_BLKDEV,
        SQFS_INODE_CHRDEV, SQFS_INODE_FIFO, SQFS_INODE_SOCKET, SQFS_INODE_LDIR,
        SQFS_INODE_LFILE, SQFS_INODE_LSYMLINK, SQFS_INODE_LBLKDEV, SQFS_INODE_LCHRDEV,
        SQFS_INODE_LFIFO, SQFS_INODE_LSOCKET] ! (n - 1)))"

definition sqfs_inode_is_extended :: "sqfs_inode_type \<Rightarrow> bool" where
  "sqfs_inode_is_extended t \<longleftrightarrow> SQFS_INODE_LDIR \<le> t"

definition sqfs_inode_basic_type :: "sqfs_inode_type \<Rightarrow> sqfs_inode_type" where
  "sqfs_inode_basic_type t =
     (if SQFS_INODE_LDIR \<le> t then the (inode_type_of_code (inode_type_code t - 7)) else t)"

definition sqfs_inode_is_dir :: "sqfs_inode_type \<Rightarrow> bool" where
  "sqfs_inode_is_dir t \<longleftrightarrow> t = SQFS_INODE_DIR \<or> t = SQFS_INODE_LDIR"

definition sqfs_inode_is_file :: "sqfs_inode_type \<Rightarrow> bool" where
  "sqfs_inode_is_file t \<longleftrightarrow> t = SQFS_INODE_FILE \<or> t = SQFS_INODE_LFILE"

definition sqfs_inode_is_symlink :: "sqfs_inode_type \<Rightarrow> bool" where
  "sqfs_inode_is_symlink t \<longleftrightarrow> t = SQFS_INODE_SYMLINK \<or> t = SQFS_INODE_LSYMLINK"

definition sqfs_inode_is_dev :: "sqfs_inode_type \<Rightarrow> bool" where
  "sqfs_inode_is_dev t \<longleftrightarrow> t = SQFS_INODE_BLKDEV \<or> t = SQFS_INODE_CHRDEV
     \<or> t = SQFS_INODE_LBLKDEV \<or> t = SQFS_INODE_LCHRDEV"

definition sqfs_inode_is_ipc :: "sqfs_inode_type \<Rightarrow> bool" where
  "sqfs_inode_is_ipc t \<longleftrightarrow> t = SQFS_INODE_FIFO \<or> t = SQFS_INODE_SOCKET
     \<or> t = SQFS_INODE_LFIFO \<or> t = SQFS_INODE_LSOCKET"

fun sqfs_inode_type_name :: "sqfs_inode_type \<Rightarrow> string" where
  "sqfs_inode_type_name SQFS_INODE_DIR = ''directory''"
| "sqfs_inode_type_name SQFS_INODE_FILE = ''file''"
| "sqfs_inode_type_name SQFS_INODE_SYMLINK = ''symlink''"
| "sqfs_inode_type_name SQFS_INODE_BLKDEV = ''block device''"
| "sqfs_inode_type_name SQFS_INODE_CHRDEV = ''char device''"
| "sqfs_inode_type_name SQFS_INODE_FIFO = ''fifo''"
| "sqfs_inode_type_name SQFS_INODE_SOCKET = ''socket''"
| "sqfs_inode_type_name SQFS_INODE_LDIR = ''extended directory''"
| "sqfs_inode_type_name SQFS_INODE_LFILE = ''extended file''"
| "sqfs_inode_type_name SQFS_INODE_LSYMLINK = ''extended symlink''"
| "sqfs_inode_type_name SQFS_INODE_LBLKDEV = ''extended block device''"
| "sqfs_inode_type_name SQFS_INODE_LCHRDEV = ''extended char device''"
| "sqfs_inode_type_name SQFS_INODE_LFIFO = ''extended fifo''"
| "sqfs_inode_type_name SQFS_INODE_LSOCKET = ''extended socket''"

section \<open>The runtime inode\<close>

text \<open>Halves of a 64-bit word of memory; the low half lies at the lower address.\<close>

definition lo32 :: "u64 \<Rightarrow> u32" where "lo32 w = ucast w"
definition hi32 :: "u64 \<Rightarrow> u32" where "hi32 w = ucast (drop_bit 32 w)"

definition join32 :: "u32 \<Rightarrow> u32 \<Rightarrow> u64" where
  "join32 lo hi = ucast lo OR push_bit 32 (ucast hi)"

definition lo16 :: "u32 \<Rightarrow> u16" where "lo16 w = ucast w"

definition set_lo16 :: "u16 \<Rightarrow> u32 \<Rightarrow> u32" where
  "set_lo16 v w = ucast v OR push_bit 16 (drop_bit 16 w)"

lemma halves [simp]: "lo32 (join32 a b) = a" "hi32 (join32 a b) = b"
  unfolding lo32_def hi32_def join32_def
  by (rule bit_word_eqI, auto simp: bit_simps dest: bit_imp_le_length)+

lemma join_halves [simp]: "join32 (lo32 w) (hi32 w) = w"
proof (rule bit_word_eqI)
  fix n assume "n < LENGTH(64)"
  then show "bit (join32 (lo32 w) (hi32 w)) n \<longleftrightarrow> bit w n"
    unfolding lo32_def hi32_def join32_def by (cases "n < 32") (auto simp: bit_simps)
qed

lemma lo16_set [simp]: "lo16 (set_lo16 v w) = v"
  unfolding lo16_def set_lo16_def by (rule bit_word_eqI) (auto simp: bit_simps)

lemma lo32_ucast [simp]: "lo32 (ucast (x :: u32)) = x" "hi32 (ucast x) = 0"
  unfolding lo32_def hi32_def by (rule bit_word_eqI, auto simp: bit_simps dest: bit_imp_le_length)+

text \<open>
  The inode: its common fields, the union as five words, the block size array (\<open>None\<close> is the
  null pointer) and the allocation that holds a symlink target, as its address and bytes.
  The pointer to it is a union member, so it can be overwritten.
\<close>

record sqfs_inode =
  i_number :: u64
  i_type :: sqfs_inode_type
  i_permissions :: u16
  i_uid :: u16
  i_gid :: u16
  i_mtime :: u32
  i_link_count :: u32
  union0 :: u64
  union1 :: u64
  union2 :: u64
  union3 :: u64
  union4 :: u64
  i_block_sizes :: "u32 list option"
  i_target_alloc :: "(u64 \<times> byte list) option"

definition dir_block_idx :: "sqfs_inode \<Rightarrow> u64" where "dir_block_idx i = union0 i"
definition dir_size :: "sqfs_inode \<Rightarrow> u32" where "dir_size i = lo32 (union1 i)"
definition dir_block_offset :: "sqfs_inode \<Rightarrow> u16" where "dir_block_offset i = lo16 (hi32 (union1 i))"
definition dir_parent_inode :: "sqfs_inode \<Rightarrow> u64" where "dir_parent_inode i = union2 i"
definition dir_index_count :: "sqfs_inode \<Rightarrow> u16" where "dir_index_count i = lo16 (lo32 (union3 i))"

definition file_blocks_start :: "sqfs_inode \<Rightarrow> u64" where "file_blocks_start i = union0 i"
definition file_file_size :: "sqfs_inode \<Rightarrow> u64" where "file_file_size i = union1 i"
definition file_sparse :: "sqfs_inode \<Rightarrow> u64" where "file_sparse i = union2 i"
definition file_frag_idx :: "sqfs_inode \<Rightarrow> u32" where "file_frag_idx i = lo32 (union3 i)"
definition file_block_offset :: "sqfs_inode \<Rightarrow> u32" where "file_block_offset i = hi32 (union3 i)"
definition file_block_count :: "sqfs_inode \<Rightarrow> u32" where "file_block_count i = lo32 (union4 i)"
definition file_xattr_idx :: "sqfs_inode \<Rightarrow> u32" where "file_xattr_idx i = hi32 (union4 i)"

definition symlink_target :: "sqfs_inode \<Rightarrow> u64" where "symlink_target i = union0 i"
definition symlink_target_size :: "sqfs_inode \<Rightarrow> u32" where "symlink_target_size i = lo32 (union1 i)"

definition dev_major :: "sqfs_inode \<Rightarrow> u32" where "dev_major i = lo32 (union0 i)"
definition dev_minor :: "sqfs_inode \<Rightarrow> u32" where "dev_minor i = hi32 (union0 i)"

definition i_xattr_idx :: "sqfs_inode \<Rightarrow> u32" where "i_xattr_idx i = lo32 (union0 i)"

text \<open>The member assignments.\<close>

definition put_dir :: "u64 \<Rightarrow> u32 \<Rightarrow> u16 \<Rightarrow> u64 \<Rightarrow> u16 \<Rightarrow> sqfs_inode \<Rightarrow> sqfs_inode" where
  "put_dir block_idx sz offset parent index_count i = i\<lparr>
     union0 := block_idx,
     union1 := join32 sz (set_lo16 offset (hi32 (union1 i))),
     union2 := parent,
     union3 := join32 (set_lo16 index_count (lo32 (union3 i))) (hi32 (union3 i))\<rparr>"

definition put_file ::
  "u64 \<Rightarrow> u64 \<Rightarrow> u64 \<Rightarrow> u32 \<Rightarrow> u32 \<Rightarrow> u32 \<Rightarrow> u32 \<Rightarrow> sqfs_inode \<Rightarrow> sqfs_inode" where
  "put_file blocks_start fsize sparse frag_idx offset block_count xattr_idx i = i\<lparr>
     union0 := blocks_start,
     union1 := fsize,
     union2 := sparse,
     union3 := join32 frag_idx offset,
     union4 := join32 block_count xattr_idx\<rparr>"

definition put_symlink :: "u64 \<Rightarrow> u32 \<Rightarrow> sqfs_inode \<Rightarrow> sqfs_inode" where
  "put_symlink target target_len i = i\<lparr>
     union0 := target, union1 := join32 target_len (hi32 (union1 i))\<rparr>"

definition put_dev :: "u32 \<Rightarrow> u32 \<Rightarrow> sqfs_inode \<Rightarrow> sqfs_inode" where
  "put_dev major minor i = i\<lparr>union0 := join32 major minor\<rparr>"

definition put_xattr_idx :: "u32 \<Rightarrow> sqfs_inode \<Rightarrow> sqfs_inode" where
  "put_xattr_idx x i = i\<lparr>union0 := join32 x (hi32 (union0 i))\<rparr>"

lemmas union_defs = dir_block_idx_def dir_size_def dir_block_offset_def dir_parent_inode_def
  dir_index_count_def file_blocks_start_def file_file_size_def file_sparse_def
  file_frag_idx_def file_block_offset_def file_block_count_def file_xattr_idx_def
  symlink_target_def symlink_target_size_def dev_major_def dev_minor_def i_xattr_idx_def
  put_dir_def put_file_def put_symlink_def put_dev_def put_xattr_idx_def

section \<open>Parsing\<close>

definition XATTR_INVALID :: u32 where "XATTR_INVALID = 0xFFFFFFFF"
definition FRAGMENT_INVALID :: u32 where "FRAGMENT_INVALID = 0xFFFFFFFF"
definition MAX_INODE_SIZE :: nat where "MAX_INODE_SIZE = 8192"

text \<open>The packed disk structures: their sizes, as \<open>sizeof\<close> gives them.\<close>

definition SIZEOF_inode_header :: nat where "SIZEOF_inode_header = 16"
definition SIZEOF_inode_dir :: nat where "SIZEOF_inode_dir = 32"
definition SIZEOF_inode_ldir :: nat where "SIZEOF_inode_ldir = 40"
definition SIZEOF_inode_dev :: nat where "SIZEOF_inode_dev = 24"
definition SIZEOF_inode_ldev :: nat where "SIZEOF_inode_ldev = 28"
definition SIZEOF_inode_ipc :: nat where "SIZEOF_inode_ipc = 20"
definition SIZEOF_inode_lipc :: nat where "SIZEOF_inode_lipc = 24"

lemmas sizeof_defs [simp] = SIZEOF_inode_header_def SIZEOF_inode_dir_def SIZEOF_inode_ldir_def
  SIZEOF_inode_dev_def SIZEOF_inode_ldev_def SIZEOF_inode_ipc_def SIZEOF_inode_lipc_def
  MAX_INODE_SIZE_def

record sqfs_inode_header =
  h_type :: u16
  h_permissions :: u16
  h_uid_idx :: u16
  h_gid_idx :: u16
  h_mtime :: u32
  h_inode_number :: u32

definition parse_inode_header :: "byte list \<Rightarrow> sqfs_inode_header res" where
  "parse_inode_header p =
     rbind (get_le16 p 0) (\<lambda>ty. rbind (get_le16 p 2) (\<lambda>perm.
     rbind (get_le16 p 4) (\<lambda>uid. rbind (get_le16 p 6) (\<lambda>gid.
     rbind (get_le32 p 8) (\<lambda>mt. rbind (get_le32 p 12) (\<lambda>num.
       Inr \<lparr>h_type = ty, h_permissions = perm, h_uid_idx = uid, h_gid_idx = gid,
         h_mtime = mt, h_inode_number = num\<rparr>))))))"

definition sqfs_calc_block_count :: "u64 \<Rightarrow> u32 \<Rightarrow> bool \<Rightarrow> u32 res" where
  "sqfs_calc_block_count fsize bsize has_fragment =
     (if fsize = 0 then Inr 0
      else if bsize = 0 then Inl (Fault Div_By_Zero)
      else let full_blocks = fsize div ucast bsize;
               remainder = fsize mod ucast bsize
           in Inr (ucast (if \<not> has_fragment \<and> remainder \<noteq> 0 then full_blocks + 1 else full_blocks)))"

definition parse_inode_dir :: "byte list \<Rightarrow> sqfs_inode \<Rightarrow> sqfs_inode res" where
  "parse_inode_dir data i =
     rbind (get_le32 data 16) (\<lambda>block_idx. rbind (get_le32 data 20) (\<lambda>links.
     rbind (get_le16 data 24) (\<lambda>sz. rbind (get_le16 data 26) (\<lambda>offset.
     rbind (get_le32 data 28) (\<lambda>parent.
       let sz = (ucast sz :: u32); sz = (if 3 \<le> sz then sz - 3 else sz)
       in Inr (put_dir (ucast block_idx AND 0xFFFFFFFF) sz offset (ucast parent) 0
                (i\<lparr>i_link_count := links\<rparr>)))))))"

definition parse_inode_ldir :: "byte list \<Rightarrow> sqfs_inode \<Rightarrow> sqfs_inode res" where
  "parse_inode_ldir data i =
     rbind (get_le32 data 16) (\<lambda>links. rbind (get_le32 data 20) (\<lambda>sz.
     rbind (get_le32 data 24) (\<lambda>block_idx. rbind (get_le32 data 28) (\<lambda>parent.
     rbind (get_le16 data 32) (\<lambda>index_count. rbind (get_le16 data 34) (\<lambda>offset.
     rbind (get_le32 data 36) (\<lambda>xattr.
       Inr (put_xattr_idx xattr
              (put_dir (ucast block_idx) sz offset (ucast parent) index_count
                (i\<lparr>i_link_count := links\<rparr>))))))))))"

fun read_block_sizes :: "byte list \<Rightarrow> nat \<Rightarrow> nat \<Rightarrow> u32 list res" where
  "read_block_sizes data off 0 = Inr []"
| "read_block_sizes data off (Suc n) =
     rbind (get_le32 data off) (\<lambda>x.
     rbind (read_block_sizes data (off + 4) n) (\<lambda>xs. Inr (x # xs)))"

text \<open>The block list behind the fixed part, which ends at \<open>fixed\<close>: the array and the number of
  bytes consumed.\<close>

definition parse_block_list ::
  "allocator \<Rightarrow> byte list \<Rightarrow> nat \<Rightarrow> u32 \<Rightarrow> (u32 list option \<times> nat) res" where
  "parse_block_list mem data fixed block_count =
     (if 0 < block_count then
        (if sqfs_calloc mem (unat block_count) 4 = 0 then Inl (Err SQFS_ERR_NO_MEMORY)
         else rbind (read_block_sizes data fixed (unat block_count)) (\<lambda>bs.
           Inr (Some bs, fixed + unat block_count * 4)))
      else Inr (None, fixed))"

definition parse_inode_file ::
  "allocator \<Rightarrow> byte list \<Rightarrow> u32 \<Rightarrow> sqfs_inode \<Rightarrow> (sqfs_inode \<times> nat) res" where
  "parse_inode_file mem data bsize i =
     rbind (get_le32 data 16) (\<lambda>blocks_start. rbind (get_le32 data 20) (\<lambda>frag_idx.
     rbind (get_le32 data 24) (\<lambda>offset. rbind (get_le32 data 28) (\<lambda>fsize.
     rbind (sqfs_calc_block_count (ucast fsize) bsize (frag_idx \<noteq> FRAGMENT_INVALID)) (\<lambda>block_count.
     rbind (parse_block_list mem data 32 block_count) (\<lambda>(bs, consumed).
       Inr ((put_file (ucast blocks_start) (ucast fsize) 0 frag_idx offset block_count
              XATTR_INVALID i)\<lparr>i_link_count := 1, i_block_sizes := bs\<rparr>, consumed)))))))"

definition parse_inode_lfile ::
  "allocator \<Rightarrow> byte list \<Rightarrow> u32 \<Rightarrow> sqfs_inode \<Rightarrow> (sqfs_inode \<times> nat) res" where
  "parse_inode_lfile mem data bsize i =
     rbind (get_le64 data 16) (\<lambda>blocks_start. rbind (get_le64 data 24) (\<lambda>fsize.
     rbind (get_le64 data 32) (\<lambda>sparse. rbind (get_le32 data 40) (\<lambda>links.
     rbind (get_le32 data 44) (\<lambda>frag_idx. rbind (get_le32 data 48) (\<lambda>offset.
     rbind (get_le32 data 52) (\<lambda>xattr.
     rbind (sqfs_calc_block_count fsize bsize (frag_idx \<noteq> FRAGMENT_INVALID)) (\<lambda>block_count.
     rbind (parse_block_list mem data 56 block_count) (\<lambda>(bs, consumed).
       Inr ((put_file blocks_start fsize sparse frag_idx offset block_count xattr i)
              \<lparr>i_link_count := links, i_block_sizes := bs\<rparr>, consumed))))))))))"

text \<open>\<open>target_size + 1\<close> is computed on 32 bits before it is passed to \<open>malloc\<close>.\<close>

definition parse_inode_symlink ::
  "allocator \<Rightarrow> byte list \<Rightarrow> sqfs_inode \<Rightarrow> (sqfs_inode \<times> nat) res" where
  "parse_inode_symlink mem data i =
     rbind (get_le32 data 16) (\<lambda>links. rbind (get_le32 data 20) (\<lambda>target_len.
       let target = sqfs_malloc mem (unat (target_len + 1))
       in if target = 0 then Inl (Err SQFS_ERR_NO_MEMORY)
          else rbind (mem_read data 24 (unat target_len)) (\<lambda>path.
            Inr ((put_symlink target target_len i)
                   \<lparr>i_link_count := links, i_target_alloc := Some (target, path @ [0])\<rparr>,
                 24 + unat target_len))))"

definition parse_inode_lsymlink ::
  "allocator \<Rightarrow> byte list \<Rightarrow> sqfs_inode \<Rightarrow> (sqfs_inode \<times> nat) res" where
  "parse_inode_lsymlink mem data i =
     rbind (get_le32 data 16) (\<lambda>links. rbind (get_le32 data 20) (\<lambda>target_len.
       let target = sqfs_malloc mem (unat (target_len + 1))
       in if target = 0 then Inl (Err SQFS_ERR_NO_MEMORY)
          else rbind (mem_read data 24 (unat target_len)) (\<lambda>path.
            rbind (get_le32 data (24 + unat target_len)) (\<lambda>xattr.
            Inr (put_xattr_idx xattr ((put_symlink target target_len i)
                   \<lparr>i_link_count := links, i_target_alloc := Some (target, path @ [0])\<rparr>),
                 24 + unat target_len + 4)))))"

definition parse_inode_dev :: "byte list \<Rightarrow> sqfs_inode \<Rightarrow> bool \<Rightarrow> (sqfs_inode \<times> nat) res" where
  "parse_inode_dev data i is_extended =
     rbind (get_le32 data 16) (\<lambda>links. rbind (get_le32 data 20) (\<lambda>dev_num.
       let i = put_dev (sqfs_dev_major dev_num) (sqfs_dev_minor dev_num) (i\<lparr>i_link_count := links\<rparr>)
       in if is_extended then
            rbind (get_le32 data 24) (\<lambda>xattr. Inr (put_xattr_idx xattr i, 28))
          else Inr (put_xattr_idx XATTR_INVALID i, 24)))"

definition parse_inode_ipc :: "byte list \<Rightarrow> sqfs_inode \<Rightarrow> bool \<Rightarrow> (sqfs_inode \<times> nat) res" where
  "parse_inode_ipc data i is_extended =
     rbind (get_le32 data 16) (\<lambda>links.
       let i = i\<lparr>i_link_count := links\<rparr>
       in if is_extended then
            rbind (get_le32 data 20) (\<lambda>xattr. Inr (put_xattr_idx xattr i, 24))
          else Inr (put_xattr_idx XATTR_INVALID i, 20))"

text \<open>The structure \<open>calloc\<close> returns; the type field of zeros is no enumerator, and is set
  before it is read.\<close>

definition new_inode :: "sqfs_inode_type \<Rightarrow> sqfs_inode" where
  "new_inode t = \<lparr>i_number = 0, i_type = t, i_permissions = 0, i_uid = 0, i_gid = 0, i_mtime = 0,
     i_link_count = 0, union0 = 0, union1 = 0, union2 = 0, union3 = 0, union4 = 0,
     i_block_sizes = None, i_target_alloc = None\<rparr>"

text \<open>The switch of \<open>parse_inode\<close>, with the number of bytes the parser consumed.\<close>

definition parse_inode_switch ::
  "allocator \<Rightarrow> byte list \<Rightarrow> u32 \<Rightarrow> sqfs_inode_type \<Rightarrow> sqfs_inode \<Rightarrow> (sqfs_inode \<times> nat) res" where
  "parse_inode_switch mem data bsize t i =
     (case t of
        SQFS_INODE_DIR \<Rightarrow>
          if length data < SIZEOF_inode_dir then Inl (Err SQFS_ERR_BAD_INODE)
          else rbind (parse_inode_dir data i) (\<lambda>i. Inr (i, 0))
      | SQFS_INODE_LDIR \<Rightarrow>
          if length data < SIZEOF_inode_ldir then Inl (Err SQFS_ERR_BAD_INODE)
          else rbind (parse_inode_ldir data i) (\<lambda>i. Inr (i, 0))
      | SQFS_INODE_FILE \<Rightarrow> parse_inode_file mem data bsize i
      | SQFS_INODE_LFILE \<Rightarrow> parse_inode_lfile mem data bsize i
      | SQFS_INODE_SYMLINK \<Rightarrow> parse_inode_symlink mem data i
      | SQFS_INODE_LSYMLINK \<Rightarrow> parse_inode_lsymlink mem data i
      | SQFS_INODE_BLKDEV \<Rightarrow> parse_inode_dev data i False
      | SQFS_INODE_CHRDEV \<Rightarrow> parse_inode_dev data i False
      | SQFS_INODE_LBLKDEV \<Rightarrow> parse_inode_dev data i True
      | SQFS_INODE_LCHRDEV \<Rightarrow> parse_inode_dev data i True
      | SQFS_INODE_FIFO \<Rightarrow> parse_inode_ipc data i False
      | SQFS_INODE_SOCKET \<Rightarrow> parse_inode_ipc data i False
      | SQFS_INODE_LFIFO \<Rightarrow> parse_inode_ipc data i True
      | SQFS_INODE_LSOCKET \<Rightarrow> parse_inode_ipc data i True)"

definition parse_inode :: "allocator \<Rightarrow> byte list \<Rightarrow> u32 \<Rightarrow> sqfs_inode res" where
  "parse_inode mem data bsize =
     (if length data < SIZEOF_inode_header then Inl (Err SQFS_ERR_BAD_INODE)
      else rbind (parse_inode_header data) (\<lambda>h.
        case inode_type_of_code (unat (h_type h)) of
          None \<Rightarrow> Inl (Err SQFS_ERR_BAD_INODE)
        | Some t \<Rightarrow>
            rbind (parse_inode_switch mem data bsize t
                ((new_inode t)\<lparr>i_number := ucast (h_inode_number h),
                  i_permissions := h_permissions h, i_uid := h_uid_idx h, i_gid := h_gid_idx h,
                  i_mtime := h_mtime h, i_block_sizes := None\<rparr>))
              (\<lambda>(i, bytes_consumed).
                 if 0 < bytes_consumed \<and> length data < bytes_consumed
                 then Inl (Err SQFS_ERR_BAD_INODE) else Inr i)))"

section \<open>Lookup by reference\<close>

text \<open>The part of \<open>struct sqfs_ctx\<close> the metadata readers use; the full context extends it.\<close>

record sqfs_image =
  ctx_sb :: sqfs_superblock
  ctx_comp :: "sqfs_compressor option"

definition read_inode_metadata ::
  "allocator \<Rightarrow> 'a sqfs_image_scheme \<Rightarrow> u64 \<Rightarrow> nat \<Rightarrow> byte list res" where
  "read_inode_metadata mem ctx ref n =
     (let block_pos = sqfs_meta_ref_pos ref;
          block_offset = sqfs_meta_ref_offset ref;
          abs_pos = inode_table (disk (ctx_sb ctx)) + block_pos
      in rbind (sqfs_meta_read_block mem (sb_fd (ctx_sb ctx)) abs_pos (ctx_comp ctx)) (\<lambda>meta_block.
           if length meta_block < unat block_offset + n then Inl (Err SQFS_ERR_BAD_INODE)
           else mem_read meta_block (unat block_offset) n))"

text \<open>The size computed from the type and, for files and symlinks, from a first read of the
  fixed part.\<close>

definition inode_disk_size ::
  "allocator \<Rightarrow> 'a sqfs_image_scheme \<Rightarrow> u64 \<Rightarrow> sqfs_inode_type \<Rightarrow> nat res" where
  "inode_disk_size mem ctx ref t =
     (let bsize = block_size (disk (ctx_sb ctx)) in
      case t of
        SQFS_INODE_DIR \<Rightarrow> Inr SIZEOF_inode_dir
      | SQFS_INODE_LDIR \<Rightarrow> Inr SIZEOF_inode_ldir
      | SQFS_INODE_FILE \<Rightarrow>
          rbind (read_inode_metadata mem ctx ref (SIZEOF_inode_header + 16)) (\<lambda>raw.
          rbind (get_le32 raw 28) (\<lambda>fsize. rbind (get_le32 raw 20) (\<lambda>frag_idx.
          rbind (sqfs_calc_block_count (ucast fsize) bsize (frag_idx \<noteq> FRAGMENT_INVALID)) (\<lambda>n.
            Inr (SIZEOF_inode_header + 16 + unat n * 4)))))
      | SQFS_INODE_LFILE \<Rightarrow>
          rbind (read_inode_metadata mem ctx ref (SIZEOF_inode_header + 40)) (\<lambda>raw.
          rbind (get_le64 raw 24) (\<lambda>fsize. rbind (get_le32 raw 44) (\<lambda>frag_idx.
          rbind (sqfs_calc_block_count fsize bsize (frag_idx \<noteq> FRAGMENT_INVALID)) (\<lambda>n.
            Inr (SIZEOF_inode_header + 40 + unat n * 4)))))
      | SQFS_INODE_SYMLINK \<Rightarrow>
          rbind (read_inode_metadata mem ctx ref (SIZEOF_inode_header + 8)) (\<lambda>raw.
          rbind (get_le32 raw 20) (\<lambda>n. Inr (SIZEOF_inode_header + 8 + unat n)))
      | SQFS_INODE_LSYMLINK \<Rightarrow>
          rbind (read_inode_metadata mem ctx ref (SIZEOF_inode_header + 8)) (\<lambda>raw.
          rbind (get_le32 raw 20) (\<lambda>n. Inr (SIZEOF_inode_header + 8 + unat n + 4)))
      | SQFS_INODE_BLKDEV \<Rightarrow> Inr SIZEOF_inode_dev
      | SQFS_INODE_CHRDEV \<Rightarrow> Inr SIZEOF_inode_dev
      | SQFS_INODE_LBLKDEV \<Rightarrow> Inr SIZEOF_inode_ldev
      | SQFS_INODE_LCHRDEV \<Rightarrow> Inr SIZEOF_inode_ldev
      | SQFS_INODE_FIFO \<Rightarrow> Inr SIZEOF_inode_ipc
      | SQFS_INODE_SOCKET \<Rightarrow> Inr SIZEOF_inode_ipc
      | SQFS_INODE_LFIFO \<Rightarrow> Inr SIZEOF_inode_lipc
      | SQFS_INODE_LSOCKET \<Rightarrow> Inr SIZEOF_inode_lipc)"

text \<open>\<open>sizeof(sqfs_inode_t)\<close> is 80 bytes.\<close>

definition sqfs_inode_get_by_ref ::
  "allocator \<Rightarrow> 'a sqfs_image_scheme \<Rightarrow> u64 \<Rightarrow> sqfs_inode res" where
  "sqfs_inode_get_by_ref mem ctx ref =
     rbind (read_inode_metadata mem ctx ref SIZEOF_inode_header) (\<lambda>raw.
     rbind (parse_inode_header raw) (\<lambda>h.
       case inode_type_of_code (unat (h_type h)) of
         None \<Rightarrow> Inl (Err SQFS_ERR_BAD_INODE)
       | Some t \<Rightarrow>
           rbind (inode_disk_size mem ctx ref t) (\<lambda>inode_size.
           let inode_size = (if MAX_INODE_SIZE < inode_size then MAX_INODE_SIZE else inode_size)
           in rbind (read_inode_metadata mem ctx ref inode_size) (\<lambda>raw.
              if sqfs_calloc mem 1 80 = 0 then Inl (Err SQFS_ERR_NO_MEMORY)
              else parse_inode mem raw (block_size (disk (ctx_sb ctx)))))))"

section \<open>Lookup by number\<close>

text \<open>
  The static variables of \<open>sqfs_inode_load\<close>: the buffer with the bytes the last successful
  read put there, its size and the address it came from. A failed read can leave the buffer
  partly overwritten, while size and address keep describing the previous block.
\<close>

datatype static_buf = Buf_null | Buf_holds "byte list" | Buf_clobbered

record export_cache =
  export_meta_block :: static_buf
  export_meta_size :: nat
  export_meta_block_addr :: u64

definition export_cache_init :: export_cache where
  "export_cache_init = \<lparr>export_meta_block = Buf_null, export_meta_size = 0, export_meta_block_addr = 0\<rparr>"

text \<open>Whether a block read that fails has already written to its output buffer: not before the
  header is accepted, and not while a block of full size is read into a buffer of its own.\<close>

definition meta_read_clobbers ::
  "allocator \<Rightarrow> os_file \<Rightarrow> u64 \<Rightarrow> sqfs_compressor option \<Rightarrow> bool" where
  "meta_read_clobbers mem fd pos cmp \<longleftrightarrow> cmp \<noteq> None \<and>
     (case read_block_from_disk fd pos 2 of
        Inl e \<Rightarrow> False
      | Inr h \<Rightarrow>
          let header = sqfs_le16_to_cpu h; compressed_size = header AND 0x7FFF
          in 0 < compressed_size \<and> compressed_size \<le> 8192
             \<and> (header AND 0x8000 \<noteq> 0 \<or> compressed_size < 8192
                \<or> (sqfs_malloc mem 8192 \<noteq> 0 \<and> \<not> isl (read_block_from_disk fd (pos + 2) 8192))))"

text \<open>The step that makes the buffer hold the block at \<open>addr\<close>.\<close>

definition export_cache_fill ::
  "allocator \<Rightarrow> 'a sqfs_image_scheme \<Rightarrow> u64 \<Rightarrow> export_cache \<Rightarrow> unit res \<times> export_cache" where
  "export_cache_fill mem ctx addr c =
     (if export_meta_block c = Buf_null \<or> export_meta_block_addr c \<noteq> addr then
        (if export_meta_block c = Buf_null \<and> sqfs_malloc mem SQFS_META_BLOCK_SIZE = 0
         then (Inl (Err SQFS_ERR_NO_MEMORY), c)
         else case sqfs_meta_read_block mem (sb_fd (ctx_sb ctx)) addr (ctx_comp ctx) of
             Inl e \<Rightarrow>
               (Inl e,
                if export_meta_block c = Buf_null
                   \<or> meta_read_clobbers mem (sb_fd (ctx_sb ctx)) addr (ctx_comp ctx)
                then c\<lparr>export_meta_block := Buf_clobbered\<rparr> else c)
           | Inr b \<Rightarrow> (Inr (), \<lparr>export_meta_block = Buf_holds b, export_meta_size = length b,
                              export_meta_block_addr = addr\<rparr>))
      else (Inr (), c))"

text \<open>The copy of one reference out of the buffer.\<close>

definition export_cache_ref :: "export_cache \<Rightarrow> u64 \<Rightarrow> u64 res" where
  "export_cache_ref c index_in_block =
     (if export_meta_size c < unat index_in_block * 8 + 8 then Inl (Err SQFS_ERR_NOT_FOUND)
      else case export_meta_block c of
        Buf_null \<Rightarrow> Inl (Fault Null_Deref)
      | Buf_clobbered \<Rightarrow> Inl (Fault Uninit_Read)
      | Buf_holds b \<Rightarrow> get_le64 b (unat index_in_block * 8))"

definition sqfs_inode_load ::
  "allocator \<Rightarrow> 'a sqfs_image_scheme \<Rightarrow> u64 \<Rightarrow> export_cache \<Rightarrow> sqfs_inode res \<times> export_cache" where
  "sqfs_inode_load mem ctx inode_num c =
     (if inode_num = 0 then (Inl (Err SQFS_ERR_NOT_FOUND), c)
      else if \<not> has_export (ctx_sb ctx) \<or> export_table (disk (ctx_sb ctx)) = SQFS_INVALID_OFFSET
      then (Inl (Err SQFS_ERR_NOT_FOUND), c)
      else
        let block_index = (inode_num - 1) div 1024;
            index_in_block = (inode_num - 1) mod 1024;
            lookup_offset = export_table (disk (ctx_sb ctx)) + block_index * 8
        in case sqfs_pread_all (sb_fd (ctx_sb ctx)) 8 lookup_offset of
             Inl e \<Rightarrow> (Inl e, c)
           | Inr p \<Rightarrow>
               let addr = sqfs_le64_to_cpu p
               in if addr = SQFS_INVALID_OFFSET \<or> addr = 0 then (Inl (Err SQFS_ERR_NOT_FOUND), c)
                  else case export_cache_fill mem ctx addr c of
                      (Inl e, c) \<Rightarrow> (Inl e, c)
                    | (Inr _, c) \<Rightarrow>
                        (rbind (export_cache_ref c index_in_block)
                           (\<lambda>inode_ref. sqfs_inode_get_by_ref mem ctx inode_ref), c))"

section \<open>Release\<close>

text \<open>\<open>sqfs_inode_free\<close> passes the target pointer of a symlink to \<open>free\<close>: it must be the
  address of the allocation (the null pointer is skipped).\<close>

definition sqfs_inode_free :: "sqfs_inode option \<Rightarrow> unit res" where
  "sqfs_inode_free inode =
     (case inode of
        None \<Rightarrow> Inr ()
      | Some i \<Rightarrow>
          if sqfs_inode_is_symlink (i_type i) \<and> symlink_target i \<noteq> 0
             \<and> map_option fst (i_target_alloc i) \<noteq> Some (symlink_target i)
          then Inl (Fault Wild_Pointer) else Inr ())"

section \<open>Facts about the types\<close>

lemma inode_type_of_code_code [simp]: "inode_type_of_code (inode_type_code t) = Some t"
  by (cases t) (simp_all add: inode_type_of_code_def)

lemma inode_type_of_code_Some: "inode_type_of_code n = Some t \<longleftrightarrow> n = inode_type_code t"
proof
  assume n: "inode_type_of_code n = Some t"
  then have "n \<in> {1..14}" by (simp add: inode_type_of_code_def split: if_splits)
  then have "1 \<le> n \<and> n \<le> 14" by simp
  then have "n = 1 \<or> n = 2 \<or> n = 3 \<or> n = 4 \<or> n = 5 \<or> n = 6 \<or> n = 7 \<or> n = 8 \<or> n = 9
    \<or> n = 10 \<or> n = 11 \<or> n = 12 \<or> n = 13 \<or> n = 14" by presburger
  with n show "n = inode_type_code t"
    by (elim disjE) (auto simp: inode_type_of_code_def)
qed simp

lemma inode_type_code_bounds: "1 \<le> inode_type_code t \<and> inode_type_code t \<le> 14"
  by (cases t) simp_all

section \<open>Block counts\<close>

lemma div_one_over: "k < b \<Longrightarrow> (b + k) div b = (1 :: nat)"
  using div_add_self1 [of b k] by simp

lemma calc_block_count_value:
  assumes "bsize \<noteq> 0" and "unat fsize div unat bsize < 2 ^ 32 - 1"
  shows "\<exists>n. sqfs_calc_block_count fsize bsize has_fragment = Inr n
    \<and> unat n = (if has_fragment then unat fsize div unat bsize
               else (unat fsize + (unat bsize - 1)) div unat bsize)"
proof -
  define f b where "f = unat fsize" and "b = unat bsize"
  have b: "0 < b" using assms(1) by (simp add: b_def unat_gt_0)
  have q: "unat (fsize div ucast bsize) = f div b" and r: "unat (fsize mod ucast bsize) = f mod b"
    by (simp_all add: f_def b_def unat_div unat_mod)
  have lt: "f div b < 2 ^ 32 - 1" using assms(2) by (simp add: f_def b_def)
  have plus: "unat (fsize div ucast bsize + 1) = f div b + 1"
    using unat_add_of_nat [of "fsize div ucast bsize" 1] q lt by simp
  have cut: "unat (ucast w :: u32) = unat w" if "unat w < 2 ^ 32" for w :: u64
    using that by (simp add: unsigned_ucast_eq take_bit_nat_eq_self)
  have zero: "fsize mod ucast bsize = 0 \<longleftrightarrow> f mod b = 0"
    using r by (metis unat_0 unat_eq_zero)
  have up: "(f + (b - 1)) div b = (if f mod b = 0 then f div b else f div b + 1)"
  proof -
    have "f + (b - 1) = f div b * b + (f mod b + (b - 1))" by simp
    then have "(f + (b - 1)) div b = f div b + (f mod b + (b - 1)) div b"
      using b by (metis div_mult_self3 less_numeral_extra(3) add.commute)
    moreover have "(f mod b + (b - 1)) div b = (if f mod b = 0 then 0 else 1)"
    proof (cases "f mod b = 0")
      case False
      then have e: "f mod b + (b - 1) = b + (f mod b - 1)" and l: "f mod b - 1 < b"
        using b mod_less_divisor [of b f] by linarith+
      show ?thesis unfolding e div_one_over [OF l] using False by simp
    qed (use b in simp)
    ultimately show ?thesis by simp
  qed
  show ?thesis
  proof (cases "fsize = 0")
    case True
    then show ?thesis using b by (simp add: sqfs_calc_block_count_def b_def [symmetric])
  next
    case False
    then show ?thesis
      using assms(1) lt up zero
      by (simp add: sqfs_calc_block_count_def Let_def cut q plus flip: f_def b_def)
  qed
qed

lemma calc_block_count_error: "sqfs_calc_block_count fsize bsize hf \<noteq> Inl (Err e)"
  by (simp add: sqfs_calc_block_count_def Let_def)

lemma calc_block_count_safe: "bsize \<noteq> 0 \<Longrightarrow> \<exists>n. sqfs_calc_block_count fsize bsize hf = Inr n"
  by (simp add: sqfs_calc_block_count_def Let_def)

lemma read_block_sizes_ok:
  "off + n * 4 \<le> length data \<Longrightarrow>
     read_block_sizes data off n = Inr (map (\<lambda>i. sqfs_le32_to_cpu (segment data (off + i * 4) 4)) [0..<n])"
proof (induction n arbitrary: off)
  case 0
  then show ?case by simp
next
  case (Suc n)
  from Suc.prems have rest: "read_block_sizes data (off + 4) n
      = Inr (map (\<lambda>i. sqfs_le32_to_cpu (segment data (off + 4 + i * 4) 4)) [0..<n])"
    by (intro Suc.IH) simp
  have "map (\<lambda>i. sqfs_le32_to_cpu (segment data (off + i * 4) 4)) [0..<Suc n]
      = sqfs_le32_to_cpu (segment data off 4)
        # map (\<lambda>i. sqfs_le32_to_cpu (segment data (off + 4 + i * 4) 4)) [0..<n]"
    by (simp add: upt_conv_Cons map_Suc_upt [symmetric] add.assoc del: upt_Suc)
  with Suc.prems rest show ?case by simp
qed

lemma read_block_sizes_oob:
  "length data < off + n * 4 \<Longrightarrow> 0 < n \<Longrightarrow> read_block_sizes data off n = Inl (Fault OOB_Read)"
proof (induction n arbitrary: off)
  case (Suc n)
  show ?case
  proof (cases "off + 4 \<le> length data")
    case True
    with Suc.prems have "0 < n" by (cases n) simp_all
    with True Suc show ?thesis by simp
  next
    case False
    then show ?thesis by (simp add: get_le_oob)
  qed
qed simp

end
