(* ===== verification/InodeFormat.thy ===== *)
theory InodeFormat
  imports Inode
begin

text \<open>
  The disk format of inodes as \<open>inode.h\<close> lays it out, and what the parsers of \<open>inode.c\<close> make
  of it: every inode written in the format parses to a runtime inode with its fields, up to
  the members of the union a later assignment destroys, which are characterised separately.
\<close>

section \<open>Writing inodes\<close>

datatype inode_body =
    B_dir (b_block_idx: u32) (b_links: u32) (b_size: u16) (b_offset: u16) (b_parent: u32)
  | B_ldir (b_links: u32) (b_lsize: u32) (b_block_idx: u32) (b_parent: u32) (b_indexes: u16)
      (b_offset: u16) (b_xattr: u32)
  | B_file (b_start: u32) (b_frag: u32) (b_frag_offset: u32) (b_fsize: u32) (b_blocks: "u32 list")
  | B_lfile (b_lstart: u64) (b_lfsize: u64) (b_sparse: u64) (b_links: u32) (b_frag: u32)
      (b_frag_offset: u32) (b_xattr: u32) (b_blocks: "u32 list")
  | B_symlink (b_links: u32) (b_target: "byte list")
  | B_lsymlink (b_links: u32) (b_target: "byte list") (b_xattr: u32)
  | B_dev (b_char: bool) (b_links: u32) (b_dev: u32)
  | B_ldev (b_char: bool) (b_links: u32) (b_dev: u32) (b_xattr: u32)
  | B_ipc (b_socket: bool) (b_links: u32)
  | B_lipc (b_socket: bool) (b_links: u32) (b_xattr: u32)

record disk_inode =
  di_permissions :: u16
  di_uid_idx :: u16
  di_gid_idx :: u16
  di_mtime :: u32
  di_number :: u32
  di_body :: inode_body

fun body_type :: "inode_body \<Rightarrow> sqfs_inode_type" where
  "body_type (B_dir _ _ _ _ _) = SQFS_INODE_DIR"
| "body_type (B_ldir _ _ _ _ _ _ _) = SQFS_INODE_LDIR"
| "body_type (B_file _ _ _ _ _) = SQFS_INODE_FILE"
| "body_type (B_lfile _ _ _ _ _ _ _ _) = SQFS_INODE_LFILE"
| "body_type (B_symlink _ _) = SQFS_INODE_SYMLINK"
| "body_type (B_lsymlink _ _ _) = SQFS_INODE_LSYMLINK"
| "body_type (B_dev c _ _) = (if c then SQFS_INODE_CHRDEV else SQFS_INODE_BLKDEV)"
| "body_type (B_ldev c _ _ _) = (if c then SQFS_INODE_LCHRDEV else SQFS_INODE_LBLKDEV)"
| "body_type (B_ipc s _) = (if s then SQFS_INODE_SOCKET else SQFS_INODE_FIFO)"
| "body_type (B_lipc s _ _) = (if s then SQFS_INODE_LSOCKET else SQFS_INODE_LFIFO)"

fun encode_body :: "inode_body \<Rightarrow> byte list" where
  "encode_body (B_dir bi lk sz off par) =
     put_le32 bi @ put_le32 lk @ put_le16 sz @ put_le16 off @ put_le32 par"
| "encode_body (B_ldir lk sz bi par ic off x) =
     put_le32 lk @ put_le32 sz @ put_le32 bi @ put_le32 par @ put_le16 ic @ put_le16 off @ put_le32 x"
| "encode_body (B_file st fr off sz bs) =
     put_le32 st @ put_le32 fr @ put_le32 off @ put_le32 sz @ concat (map put_le32 bs)"
| "encode_body (B_lfile st sz sp lk fr off x bs) =
     put_le64 st @ put_le64 sz @ put_le64 sp @ put_le32 lk @ put_le32 fr @ put_le32 off @ put_le32 x
     @ concat (map put_le32 bs)"
| "encode_body (B_symlink lk path) = put_le32 lk @ put_le32 (of_nat (length path)) @ path"
| "encode_body (B_lsymlink lk path x) =
     put_le32 lk @ put_le32 (of_nat (length path)) @ path @ put_le32 x"
| "encode_body (B_dev c lk d) = put_le32 lk @ put_le32 d"
| "encode_body (B_ldev c lk d x) = put_le32 lk @ put_le32 d @ put_le32 x"
| "encode_body (B_ipc s lk) = put_le32 lk"
| "encode_body (B_lipc s lk x) = put_le32 lk @ put_le32 x"

definition encode_header :: "disk_inode \<Rightarrow> byte list" where
  "encode_header d =
     put_le16 (of_nat (inode_type_code (body_type (di_body d)))) @ put_le16 (di_permissions d)
     @ put_le16 (di_uid_idx d) @ put_le16 (di_gid_idx d) @ put_le32 (di_mtime d) @ put_le32 (di_number d)"

definition encode_inode :: "disk_inode \<Rightarrow> byte list" where
  "encode_inode d = encode_header d @ encode_body (di_body d)"

lemma length_encode_header [simp]: "length (encode_header d) = 16"
  by (simp add: encode_header_def)

text \<open>The block list of a file has the length its size asks for; a target has a 32-bit length.\<close>

fun body_wf :: "u32 \<Rightarrow> inode_body \<Rightarrow> bool" where
  "body_wf bsize (B_file st fr off sz bs) \<longleftrightarrow>
     sqfs_calc_block_count (ucast sz) bsize (fr \<noteq> FRAGMENT_INVALID) = Inr (of_nat (length bs))
     \<and> length bs < 2 ^ 32"
| "body_wf bsize (B_lfile st sz sp lk fr off x bs) \<longleftrightarrow>
     sqfs_calc_block_count sz bsize (fr \<noteq> FRAGMENT_INVALID) = Inr (of_nat (length bs))
     \<and> length bs < 2 ^ 32"
| "body_wf bsize (B_symlink lk path) \<longleftrightarrow> length path < 2 ^ 32 - 1"
| "body_wf bsize (B_lsymlink lk path x) \<longleftrightarrow> length path < 2 ^ 32 - 1"
| "body_wf bsize _ \<longleftrightarrow> True"

section \<open>Reading them back\<close>

text \<open>
  What the format says a disk body means, of a runtime inode. The stored size of a directory is three
  more than that of its listing, for both kinds. Left out are the members the parsers do not deliver:
  the block index and the size of an extended directory, the major number of a device, the
  target pointer of an extended symlink.
\<close>

fun reads_as :: "inode_body \<Rightarrow> sqfs_inode \<Rightarrow> bool" where
  "reads_as (B_dir bi lk sz off par) i \<longleftrightarrow>
     dir_block_idx i = ucast bi \<and> i_link_count i = lk \<and> (3 \<le> sz \<longrightarrow> unat (dir_size i) = unat sz - 3)
     \<and> dir_block_offset i = off \<and> dir_parent_inode i = ucast par \<and> dir_index_count i = 0"
| "reads_as (B_ldir lk sz bi par ic off x) i \<longleftrightarrow>
     i_link_count i = lk \<and> dir_parent_inode i = ucast par
     \<and> dir_index_count i = ic \<and> dir_block_offset i = off \<and> i_xattr_idx i = x"
| "reads_as (B_file st fr off sz bs) i \<longleftrightarrow>
     i_link_count i = 1 \<and> file_blocks_start i = ucast st \<and> file_file_size i = ucast sz
     \<and> file_sparse i = 0 \<and> file_frag_idx i = fr \<and> file_block_offset i = off
     \<and> unat (file_block_count i) = length bs \<and> file_xattr_idx i = XATTR_INVALID
     \<and> i_block_sizes i = (if bs = [] then None else Some bs)"
| "reads_as (B_lfile st sz sp lk fr off x bs) i \<longleftrightarrow>
     i_link_count i = lk \<and> file_blocks_start i = st \<and> file_file_size i = sz
     \<and> file_sparse i = sp \<and> file_frag_idx i = fr \<and> file_block_offset i = off
     \<and> unat (file_block_count i) = length bs \<and> file_xattr_idx i = x
     \<and> i_block_sizes i = (if bs = [] then None else Some bs)"
| "reads_as (B_symlink lk path) i \<longleftrightarrow>
     i_link_count i = lk \<and> unat (symlink_target_size i) = length path
     \<and> i_target_alloc i = Some (symlink_target i, path @ [0])"
| "reads_as (B_lsymlink lk path x) i \<longleftrightarrow>
     i_link_count i = lk \<and> unat (symlink_target_size i) = length path \<and> i_xattr_idx i = x
     \<and> map_option snd (i_target_alloc i) = Some (path @ [0])"
| "reads_as (B_dev c lk d) i \<longleftrightarrow>
     i_link_count i = lk \<and> dev_minor i = sqfs_dev_minor d \<and> i_xattr_idx i = XATTR_INVALID"
| "reads_as (B_ldev c lk d x) i \<longleftrightarrow>
     i_link_count i = lk \<and> dev_minor i = sqfs_dev_minor d \<and> i_xattr_idx i = x"
| "reads_as (B_ipc s lk) i \<longleftrightarrow> i_link_count i = lk \<and> i_xattr_idx i = XATTR_INVALID"
| "reads_as (B_lipc s lk x) i \<longleftrightarrow> i_link_count i = lk \<and> i_xattr_idx i = x"

text \<open>
  What the inode has in place of these members: the index of the attributes lies over the first four bytes
  of the union, and the size of an extended directory is taken as it is stored, three bytes more than its
  listing has. The same happens to a stored size of less than three of a basic directory.
\<close>

fun departs :: "inode_body \<Rightarrow> sqfs_inode \<Rightarrow> bool" where
  "departs (B_dir bi lk sz off par) i \<longleftrightarrow> (sz < 3 \<longrightarrow> dir_size i = ucast sz)"
| "departs (B_ldir lk sz bi par ic off x) i \<longleftrightarrow> dir_size i = sz \<and> dir_block_idx i = ucast x"
| "departs (B_lsymlink lk path x) i \<longleftrightarrow> lo32 (symlink_target i) = x"
| "departs (B_dev c lk d) i \<longleftrightarrow> dev_major i = XATTR_INVALID"
| "departs (B_ldev c lk d x) i \<longleftrightarrow> dev_major i = x"
| "departs _ i \<longleftrightarrow> True"

definition inode_reads_as :: "disk_inode \<Rightarrow> sqfs_inode \<Rightarrow> bool" where
  "inode_reads_as d i \<longleftrightarrow>
     i_type i = body_type (di_body d) \<and> i_number i = ucast (di_number d)
     \<and> i_permissions i = di_permissions d \<and> i_uid i = di_uid_idx d \<and> i_gid i = di_gid_idx d
     \<and> i_mtime i = di_mtime d \<and> reads_as (di_body d) i"

lemma unat_type_code: "unat (of_nat (inode_type_code t) :: u16) = inode_type_code t"
  by (cases t) simp_all

lemma parse_header_encode:
  "parse_inode_header (encode_header d @ rest) =
     Inr \<lparr>h_type = of_nat (inode_type_code (body_type (di_body d))),
       h_permissions = di_permissions d, h_uid_idx = di_uid_idx d, h_gid_idx = di_gid_idx d,
       h_mtime = di_mtime d, h_inode_number = di_number d\<rparr>"
  by (simp add: parse_inode_header_def encode_header_def layout)

text \<open>The common prefix of the parse, before the switch.\<close>

definition inode_common :: "disk_inode \<Rightarrow> sqfs_inode" where
  "inode_common d = (new_inode (body_type (di_body d)))\<lparr>i_number := ucast (di_number d),
     i_permissions := di_permissions d, i_uid := di_uid_idx d, i_gid := di_gid_idx d,
     i_mtime := di_mtime d, i_block_sizes := None\<rparr>"

lemma segment_inode:
  "16 \<le> off \<Longrightarrow> segment (encode_header d @ ys) off n = segment ys (off - 16) n"
  by (simp add: segment_skip)

text \<open>What is left of the union after the parse of each body.\<close>

lemma parse_dir_encode:
  "parse_inode_dir (encode_header d @ encode_body (B_dir bi lk sz off par)) i =
     Inr (put_dir (ucast bi AND 0xFFFFFFFF)
       (if 3 \<le> (ucast sz :: u32) then ucast sz - 3 else ucast sz) off (ucast par) 0 (i\<lparr>i_link_count := lk\<rparr>))"
  by (simp add: parse_inode_dir_def Let_def segment_inode layout)

lemma parse_ldir_encode:
  "parse_inode_ldir (encode_header d @ encode_body (B_ldir lk sz bi par ic off x)) i =
     Inr (put_xattr_idx x (put_dir (ucast bi) sz off (ucast par) ic (i\<lparr>i_link_count := lk\<rparr>)))"
  by (simp add: parse_inode_ldir_def segment_inode layout)

lemma parse_block_list_encode:
  assumes "\<forall>k. mem k \<noteq> 0" and "length pre = fixed" and "length bs < 2 ^ 32"
  shows "parse_block_list mem (pre @ concat (map put_le32 bs)) fixed (of_nat (length bs))
    = Inr (if bs = [] then None else Some bs, fixed + length bs * 4)"
proof -
  have n: "unat (of_nat (length bs) :: u32) = length bs"
    using assms(3) by (simp add: unat_of_nat)
  have nz: "0 < (of_nat (length bs) :: u32) \<longleftrightarrow> bs \<noteq> []"
    using n by (metis length_greater_0_conv unat_gt_0 word_greater_zero_iff)
  have "read_block_sizes (pre @ concat (map put_le32 bs)) fixed (length bs)
      = Inr (map (\<lambda>i. sqfs_le32_to_cpu (segment (pre @ concat (map put_le32 bs)) (fixed + i * 4) 4)) [0..<length bs])"
    using assms(2) by (intro read_block_sizes_ok) (simp add: le32.length_concat_enc)
  also have "map (\<lambda>i. sqfs_le32_to_cpu (segment (pre @ concat (map put_le32 bs)) (fixed + i * 4) 4)) [0..<length bs]
      = map (\<lambda>i. sqfs_le32_to_cpu (segment (concat (map put_le32 bs) @ []) (i * 4) 4)) [0..<length bs]"
    using assms(2) by (simp add: segment_skip)
  also have "\<dots> = bs" by (rule le32.decode_array)
  finally show ?thesis
    using assms(1,3) n nz by (auto simp: parse_block_list_def sqfs_calloc_def)
qed

lemma parse_file_encode:
  assumes "\<forall>k. mem k \<noteq> 0" and "body_wf bsize (B_file st fr off sz bs)"
  shows "parse_inode_file mem (encode_header d @ encode_body (B_file st fr off sz bs)) bsize i =
     Inr ((put_file (ucast st) (ucast sz) 0 fr off (of_nat (length bs)) XATTR_INVALID i)
       \<lparr>i_link_count := 1, i_block_sizes := if bs = [] then None else Some bs\<rparr>, 32 + length bs * 4)"
  using parse_block_list_encode [OF assms(1), of "encode_header d @ put_le32 st @ put_le32 fr @ put_le32 off @ put_le32 sz" 32 bs]
    assms(2)
  by (simp add: parse_inode_file_def segment_inode layout)

lemma parse_lfile_encode:
  assumes "\<forall>k. mem k \<noteq> 0" and "body_wf bsize (B_lfile st sz sp lk fr off x bs)"
  shows "parse_inode_lfile mem (encode_header d @ encode_body (B_lfile st sz sp lk fr off x bs)) bsize i =
     Inr ((put_file st sz sp fr off (of_nat (length bs)) x i)
       \<lparr>i_link_count := lk, i_block_sizes := if bs = [] then None else Some bs\<rparr>, 56 + length bs * 4)"
  using parse_block_list_encode [OF assms(1), of "encode_header d @ put_le64 st @ put_le64 sz @ put_le64 sp
      @ put_le32 lk @ put_le32 fr @ put_le32 off @ put_le32 x" 56 bs] assms(2)
  by (simp add: parse_inode_lfile_def segment_inode layout)

lemma path_length:
  "length path < 2 ^ 32 - 1 \<Longrightarrow> unat (of_nat (length path) :: u32) = length path"
  by (simp add: unat_of_nat)

lemma parse_symlink_encode:
  assumes "\<forall>k. mem k \<noteq> 0" and "length path < 2 ^ 32 - 1"
  shows "parse_inode_symlink mem (encode_header d @ encode_body (B_symlink lk path)) i =
     (let a = mem (unat (of_nat (length path) + 1 :: u32)) in
      Inr ((put_symlink a (of_nat (length path)) i)
        \<lparr>i_link_count := lk, i_target_alloc := Some (a, path @ [0])\<rparr>, 24 + length path))"
  using assms path_length [OF assms(2)]
  by (simp add: parse_inode_symlink_def segment_inode layout sqfs_malloc_def Let_def)

lemma parse_lsymlink_encode:
  assumes "\<forall>k. mem k \<noteq> 0" and "length path < 2 ^ 32 - 1"
  shows "parse_inode_lsymlink mem (encode_header d @ encode_body (B_lsymlink lk path x)) i =
     (let a = mem (unat (of_nat (length path) + 1 :: u32)) in
      Inr (put_xattr_idx x ((put_symlink a (of_nat (length path)) i)
        \<lparr>i_link_count := lk, i_target_alloc := Some (a, path @ [0])\<rparr>), 24 + length path + 4))"
  using assms path_length [OF assms(2)]
  by (simp add: parse_inode_lsymlink_def segment_inode layout sqfs_malloc_def Let_def)

lemma parse_dev_encode:
  "parse_inode_dev (encode_header d @ encode_body (B_dev c lk n)) i False =
     Inr (put_xattr_idx XATTR_INVALID (put_dev (sqfs_dev_major n) (sqfs_dev_minor n) (i\<lparr>i_link_count := lk\<rparr>)), 24)"
  "parse_inode_dev (encode_header d @ encode_body (B_ldev c lk n x)) i True =
     Inr (put_xattr_idx x (put_dev (sqfs_dev_major n) (sqfs_dev_minor n) (i\<lparr>i_link_count := lk\<rparr>)), 28)"
  by (simp_all add: parse_inode_dev_def segment_inode layout Let_def)

lemma parse_ipc_encode:
  "parse_inode_ipc (encode_header d @ encode_body (B_ipc c lk)) i False =
     Inr (put_xattr_idx XATTR_INVALID (i\<lparr>i_link_count := lk\<rparr>), 20)"
  "parse_inode_ipc (encode_header d @ encode_body (B_lipc c lk x)) i True =
     Inr (put_xattr_idx x (i\<lparr>i_link_count := lk\<rparr>), 24)"
  by (simp_all add: parse_inode_ipc_def segment_inode layout Let_def)

lemmas parse_encode = parse_dir_encode parse_ldir_encode parse_file_encode parse_lfile_encode
  parse_symlink_encode parse_lsymlink_encode parse_dev_encode parse_ipc_encode

text \<open>The runtime inode each body parses to.\<close>

fun parsed_body :: "allocator \<Rightarrow> inode_body \<Rightarrow> sqfs_inode \<Rightarrow> sqfs_inode" where
  "parsed_body mem (B_dir bi lk sz off par) i = put_dir (ucast bi AND 0xFFFFFFFF)
     (if 3 \<le> (ucast sz :: u32) then ucast sz - 3 else ucast sz) off (ucast par) 0 (i\<lparr>i_link_count := lk\<rparr>)"
| "parsed_body mem (B_ldir lk sz bi par ic off x) i =
     put_xattr_idx x (put_dir (ucast bi) sz off (ucast par) ic (i\<lparr>i_link_count := lk\<rparr>))"
| "parsed_body mem (B_file st fr off sz bs) i =
     (put_file (ucast st) (ucast sz) 0 fr off (of_nat (length bs)) XATTR_INVALID i)
       \<lparr>i_link_count := 1, i_block_sizes := if bs = [] then None else Some bs\<rparr>"
| "parsed_body mem (B_lfile st sz sp lk fr off x bs) i =
     (put_file st sz sp fr off (of_nat (length bs)) x i)
       \<lparr>i_link_count := lk, i_block_sizes := if bs = [] then None else Some bs\<rparr>"
| "parsed_body mem (B_symlink lk path) i =
     (let a = mem (unat (of_nat (length path) + 1 :: u32)) in
      (put_symlink a (of_nat (length path)) i)\<lparr>i_link_count := lk, i_target_alloc := Some (a, path @ [0])\<rparr>)"
| "parsed_body mem (B_lsymlink lk path x) i =
     (let a = mem (unat (of_nat (length path) + 1 :: u32)) in
      put_xattr_idx x ((put_symlink a (of_nat (length path)) i)
        \<lparr>i_link_count := lk, i_target_alloc := Some (a, path @ [0])\<rparr>))"
| "parsed_body mem (B_dev c lk n) i =
     put_xattr_idx XATTR_INVALID (put_dev (sqfs_dev_major n) (sqfs_dev_minor n) (i\<lparr>i_link_count := lk\<rparr>))"
| "parsed_body mem (B_ldev c lk n x) i =
     put_xattr_idx x (put_dev (sqfs_dev_major n) (sqfs_dev_minor n) (i\<lparr>i_link_count := lk\<rparr>))"
| "parsed_body mem (B_ipc s lk) i = put_xattr_idx XATTR_INVALID (i\<lparr>i_link_count := lk\<rparr>)"
| "parsed_body mem (B_lipc s lk x) i = put_xattr_idx x (i\<lparr>i_link_count := lk\<rparr>)"

text \<open>Each parser consumes what the encoder wrote, no more.\<close>

lemma parse_switch_encode:
  assumes mem: "\<forall>k. mem k \<noteq> 0" and wf: "body_wf bsize b"
  shows "\<exists>n. parse_inode_switch mem (encode_header d @ encode_body b) bsize (body_type b) i
      = Inr (parsed_body mem b i, n) \<and> n \<le> 16 + length (encode_body b)"
proof (cases b)
  case B_file
  with wf parse_file_encode [OF mem, of bsize] show ?thesis
    by (auto simp add: parse_inode_switch_def le32.length_concat_enc)
next
  case B_lfile
  with wf parse_lfile_encode [OF mem, of bsize] show ?thesis
    by (auto simp add: parse_inode_switch_def le32.length_concat_enc)
next
  case (B_symlink lk path)
  with wf parse_symlink_encode [OF mem, of path] show ?thesis
    by (simp add: parse_inode_switch_def Let_def)
next
  case (B_lsymlink lk path x)
  with wf parse_lsymlink_encode [OF mem, of path] show ?thesis
    by (simp add: parse_inode_switch_def Let_def)
next
  case B_dir
  then show ?thesis using parse_dir_encode by (simp add: parse_inode_switch_def)
next
  case B_ldir
  then show ?thesis using parse_ldir_encode by (simp add: parse_inode_switch_def)
next
  case B_dev
  then show ?thesis using parse_dev_encode(1) by (simp add: parse_inode_switch_def)
next
  case B_ldev
  then show ?thesis using parse_dev_encode(2) by (simp add: parse_inode_switch_def)
next
  case B_ipc
  then show ?thesis using parse_ipc_encode(1) by (simp add: parse_inode_switch_def)
next
  case B_lipc
  then show ?thesis using parse_ipc_encode(2) by (simp add: parse_inode_switch_def)
qed

lemma parse_inode_encode:
  assumes "\<forall>k. mem k \<noteq> 0" and "body_wf bsize (di_body d)"
  shows "parse_inode mem (encode_inode d) bsize = Inr (parsed_body mem (di_body d) (inode_common d))"
proof -
  obtain n where "parse_inode_switch mem (encode_header d @ encode_body (di_body d)) bsize
      (body_type (di_body d)) (inode_common d) = Inr (parsed_body mem (di_body d) (inode_common d), n)"
    "n \<le> 16 + length (encode_body (di_body d))"
    using parse_switch_encode [OF assms] by blast
  then show ?thesis
    by (simp add: parse_inode_def encode_inode_def parse_header_encode unat_type_code
        inode_common_def)
qed

lemma and_FFFFFFFF: "(ucast (w :: u32) :: u64) AND 0xFFFFFFFF = ucast w"
proof -
  have m: "(0xFFFFFFFF :: u64) = mask 32" by (simp add: mask_eq_exp_minus_1)
  have "(ucast w :: u64) AND mask 32 = ucast w"
    by (rule bit_word_eqI) (auto simp: bit_simps dest: bit_imp_le_length)
  then show ?thesis by (simp only: m)
qed

lemma size_minus_3: "3 \<le> (ucast (sz :: u16) :: u32) \<longleftrightarrow> 3 \<le> sz"
  by (simp add: word_le_nat_alt)

lemma join32_0: "join32 x 0 = ucast x"
  by (simp add: join32_def)

lemma listing_size_value: "3 \<le> (sz :: u16) \<Longrightarrow> unat ((ucast sz :: u32) - 3) = unat sz - 3"
  by (simp add: word_le_nat_alt unat_sub_if' unsigned_ucast_eq take_bit_nat_eq_self_iff)

lemma parsed_body_reads_as:
  assumes "body_wf bsize b" and "i_block_sizes i = None"
  shows "reads_as b (parsed_body mem b i)"
proof (cases b)
  case (B_symlink lk path)
  with assms show ?thesis by (simp add: union_defs Let_def path_length)
next
  case (B_lsymlink lk path x)
  with assms show ?thesis by (simp add: union_defs Let_def path_length)
qed (use assms in \<open>simp_all add: union_defs and_FFFFFFFF size_minus_3 listing_size_value unat_of_nat\<close>)

lemma parsed_body_departs: "departs b (parsed_body mem b i)"
  by (cases b) (simp_all add: union_defs Let_def join32_0 not_le [symmetric] size_minus_3)

lemma parsed_body_common [simp]:
  "i_type (parsed_body mem b i) = i_type i" "i_number (parsed_body mem b i) = i_number i"
  "i_permissions (parsed_body mem b i) = i_permissions i" "i_uid (parsed_body mem b i) = i_uid i"
  "i_gid (parsed_body mem b i) = i_gid i" "i_mtime (parsed_body mem b i) = i_mtime i"
  by (cases b; simp add: union_defs Let_def)+

lemma inode_common_simps [simp]:
  "i_type (inode_common d) = body_type (di_body d)" "i_number (inode_common d) = ucast (di_number d)"
  "i_permissions (inode_common d) = di_permissions d" "i_uid (inode_common d) = di_uid_idx d"
  "i_gid (inode_common d) = di_gid_idx d" "i_mtime (inode_common d) = di_mtime d"
  "i_block_sizes (inode_common d) = None"
  by (simp_all add: inode_common_def new_inode_def)

lemma parsed_inode_reads_as:
  "body_wf bsize (di_body d) \<Longrightarrow> inode_reads_as d (parsed_body mem (di_body d) (inode_common d))"
  by (simp add: inode_reads_as_def parsed_body_reads_as)

section \<open>From a reference to an inode\<close>

lemma segment_take: "off + k \<le> n \<Longrightarrow> segment (take n xs) off k = segment xs off k"
  by (simp add: segment_def drop_take min_def)

lemma read_metadata_prefix:
  assumes "sqfs_meta_read_block mem (sb_fd (ctx_sb ctx))
      (inode_table (disk (ctx_sb ctx)) + sqfs_meta_ref_pos ref) (ctx_comp ctx) = Inr (bef @ enc @ aft)"
    and "unat (sqfs_meta_ref_offset ref) = length bef" and "n \<le> length enc"
  shows "read_inode_metadata mem ctx ref n = Inr (take n enc)"
  using assms by (simp add: read_inode_metadata_def segment_skip segment_append_left)
    (simp add: segment_def)

text \<open>The size computed before the full read is the size of the encoding.\<close>

lemma inode_disk_size_encode:
  assumes rd: "\<And>n. n \<le> length (encode_inode d) \<Longrightarrow>
      read_inode_metadata mem ctx ref n = Inr (take n (encode_inode d))"
    and wf: "body_wf (block_size (disk (ctx_sb ctx))) (di_body d)"
  shows "inode_disk_size mem ctx ref (body_type (di_body d)) = Inr (length (encode_inode d))"
proof (cases "di_body d")
  case B_file
  with wf rd [of 32] show ?thesis
    by (simp add: inode_disk_size_def encode_inode_def segment_take segment_inode layout
        le32.length_concat_enc unat_of_nat)
next
  case B_lfile
  with wf rd [of 56] show ?thesis
    by (simp add: inode_disk_size_def encode_inode_def segment_take segment_inode layout
        le32.length_concat_enc unat_of_nat)
next
  case B_symlink
  with wf rd [of 24] show ?thesis
    by (simp add: inode_disk_size_def encode_inode_def segment_take segment_inode layout path_length)
next
  case B_lsymlink
  with wf rd [of 24] show ?thesis
    by (simp add: inode_disk_size_def encode_inode_def segment_take segment_inode layout path_length)
qed (simp_all add: inode_disk_size_def encode_inode_def)

lemma get_by_ref_encode:
  assumes mem: "\<forall>k. mem k \<noteq> 0" and wf: "body_wf (block_size (disk (ctx_sb ctx))) (di_body d)"
    and b: "sqfs_meta_read_block mem (sb_fd (ctx_sb ctx))
      (inode_table (disk (ctx_sb ctx)) + sqfs_meta_ref_pos ref) (ctx_comp ctx)
        = Inr (bef @ encode_inode d @ aft)"
    and off: "unat (sqfs_meta_ref_offset ref) = length bef" and len: "length (encode_inode d) \<le> 8192"
  shows "sqfs_inode_get_by_ref mem ctx ref = Inr (parsed_body mem (di_body d) (inode_common d))"
proof -
  note rd = read_metadata_prefix [OF b off]
  have hdr: "read_inode_metadata mem ctx ref 16 = Inr (encode_header d)"
    using rd [of 16] by (simp add: encode_inode_def)
  have full: "read_inode_metadata mem ctx ref (length (encode_inode d)) = Inr (encode_inode d)"
    using rd [of "length (encode_inode d)"] by simp
  show ?thesis
    using parse_header_encode [of d "[]"] mem len
    by (simp add: sqfs_inode_get_by_ref_def hdr unat_type_code inode_disk_size_encode [OF rd wf]
        full sqfs_calloc_def parse_inode_encode [OF mem wf])
qed

section \<open>Safety of the lookup\<close>

lemma parse_header_safe: "16 \<le> length p \<Longrightarrow> \<exists>h. parse_inode_header p = Inr h"
  by (simp add: parse_inode_header_def)

lemma read_inode_metadata_length:
  "read_inode_metadata mem ctx ref n = Inr raw \<Longrightarrow> length raw = n"
  by (auto simp: read_inode_metadata_def Let_def rbind_eq_Inr_iff mem_read_eq_Inr_iff
      split: if_splits)

lemma read_inode_metadata_safe: "safe (read_inode_metadata mem ctx ref n)"
  by (auto simp: read_inode_metadata_def Let_def intro!: safe_rbind meta_read_block_safe)

text \<open>Two reads at one reference agree on their common prefix.\<close>

lemma read_inode_metadata_agree:
  assumes "read_inode_metadata mem ctx ref n = Inr p" and "read_inode_metadata mem ctx ref m = Inr q"
    and "n \<le> m"
  shows "p = take n q"
  using assms by (auto simp: read_inode_metadata_def rbind_eq_Inr_iff mem_read_eq_Inr_iff Let_def
      segment_def min_def split: if_splits)

lemma get_le_take:
  "off + 4 \<le> n \<Longrightarrow> n \<le> length q \<Longrightarrow> get_le32 (take n q) off = get_le32 q off"
  "off + 8 \<le> n \<Longrightarrow> n \<le> length q \<Longrightarrow> get_le64 (take n q) off = get_le64 q off"
  by (simp_all add: segment_take)

text \<open>The size \<open>inode_disk_size\<close> computes, as a function of the bytes it reads.\<close>

definition size_from_fixed :: "u32 \<Rightarrow> sqfs_inode_type \<Rightarrow> byte list \<Rightarrow> nat res" where
  "size_from_fixed bsize t raw =
     (case t of
        SQFS_INODE_DIR \<Rightarrow> Inr 32
      | SQFS_INODE_LDIR \<Rightarrow> Inr 40
      | SQFS_INODE_FILE \<Rightarrow>
          rbind (get_le32 raw 28) (\<lambda>fsize. rbind (get_le32 raw 20) (\<lambda>frag_idx.
          rbind (sqfs_calc_block_count (ucast fsize) bsize (frag_idx \<noteq> FRAGMENT_INVALID)) (\<lambda>n.
            Inr (32 + unat n * 4))))
      | SQFS_INODE_LFILE \<Rightarrow>
          rbind (get_le64 raw 24) (\<lambda>fsize. rbind (get_le32 raw 44) (\<lambda>frag_idx.
          rbind (sqfs_calc_block_count fsize bsize (frag_idx \<noteq> FRAGMENT_INVALID)) (\<lambda>n.
            Inr (56 + unat n * 4))))
      | SQFS_INODE_SYMLINK \<Rightarrow> rbind (get_le32 raw 20) (\<lambda>n. Inr (24 + unat n))
      | SQFS_INODE_LSYMLINK \<Rightarrow> rbind (get_le32 raw 20) (\<lambda>n. Inr (28 + unat n))
      | SQFS_INODE_BLKDEV \<Rightarrow> Inr 24
      | SQFS_INODE_CHRDEV \<Rightarrow> Inr 24
      | SQFS_INODE_LBLKDEV \<Rightarrow> Inr 28
      | SQFS_INODE_LCHRDEV \<Rightarrow> Inr 28
      | SQFS_INODE_FIFO \<Rightarrow> Inr 20
      | SQFS_INODE_SOCKET \<Rightarrow> Inr 20
      | SQFS_INODE_LFIFO \<Rightarrow> Inr 24
      | SQFS_INODE_LSOCKET \<Rightarrow> Inr 24)"

definition fixed_part :: "sqfs_inode_type \<Rightarrow> nat" where
  "fixed_part t = (case t of SQFS_INODE_FILE \<Rightarrow> 32 | SQFS_INODE_LFILE \<Rightarrow> 56
     | SQFS_INODE_SYMLINK \<Rightarrow> 24 | SQFS_INODE_LSYMLINK \<Rightarrow> 24 | _ \<Rightarrow> 0)"

lemma inode_disk_size_from_fixed:
  assumes "inode_disk_size mem ctx ref t = Inr n" and "read_inode_metadata mem ctx ref m = Inr raw"
    and "fixed_part t \<le> m"
  shows "size_from_fixed (block_size (disk (ctx_sb ctx))) t raw = Inr n"
proof -
  have len: "length raw = m" by (rule read_inode_metadata_length [OF assms(2)])
  show ?thesis
  proof (cases t)
    case SQFS_INODE_FILE
    with assms obtain q where "read_inode_metadata mem ctx ref 32 = Inr q"
      by (auto simp: inode_disk_size_def rbind_eq_Inr_iff)
    with read_inode_metadata_agree [OF this assms(2)] assms SQFS_INODE_FILE len show ?thesis
      by (simp add: inode_disk_size_def size_from_fixed_def fixed_part_def segment_take)
  next
    case SQFS_INODE_LFILE
    with assms obtain q where "read_inode_metadata mem ctx ref 56 = Inr q"
      by (auto simp: inode_disk_size_def rbind_eq_Inr_iff)
    with read_inode_metadata_agree [OF this assms(2)] assms SQFS_INODE_LFILE len show ?thesis
      by (simp add: inode_disk_size_def size_from_fixed_def fixed_part_def segment_take)
  next
    case SQFS_INODE_SYMLINK
    with assms obtain q where "read_inode_metadata mem ctx ref 24 = Inr q"
      by (auto simp: inode_disk_size_def rbind_eq_Inr_iff)
    with read_inode_metadata_agree [OF this assms(2)] assms SQFS_INODE_SYMLINK len show ?thesis
      by (simp add: inode_disk_size_def size_from_fixed_def fixed_part_def segment_take)
  next
    case SQFS_INODE_LSYMLINK
    with assms obtain q where "read_inode_metadata mem ctx ref 24 = Inr q"
      by (auto simp: inode_disk_size_def rbind_eq_Inr_iff)
    with read_inode_metadata_agree [OF this assms(2)] assms SQFS_INODE_LSYMLINK len show ?thesis
      by (simp add: inode_disk_size_def size_from_fixed_def fixed_part_def segment_take)
  qed (use assms in \<open>simp_all add: inode_disk_size_def size_from_fixed_def\<close>)
qed

lemma safe_block_list:
  assumes "fixed + unat n * 4 \<le> length data"
  shows "safe (parse_block_list mem data fixed n)"
  using read_block_sizes_ok [OF assms] by (simp add: parse_block_list_def)

text \<open>A parser stays inside data of the computed size.\<close>

lemma parse_switch_safe:
  assumes sz: "size_from_fixed bsize t data = Inr n" and len: "n \<le> length data" and fp: "fixed_part t \<le> n"
  shows "safe (parse_inode_switch mem data bsize t i)"
proof (cases t)
  case SQFS_INODE_FILE
  with fp len have l: "32 \<le> length data" by (simp add: fixed_part_def)
  with sz SQFS_INODE_FILE obtain c where c: "sqfs_calc_block_count (ucast (sqfs_le32_to_cpu (segment data 28 4)))
      bsize (sqfs_le32_to_cpu (segment data 20 4) \<noteq> FRAGMENT_INVALID) = Inr c" "n = 32 + unat c * 4"
    by (auto simp: size_from_fixed_def rbind_eq_Inr_iff)
  with l len safe_block_list [of 32 c data mem] show ?thesis
    by (auto simp add: SQFS_INODE_FILE parse_inode_switch_def parse_inode_file_def)
next
  case SQFS_INODE_LFILE
  with fp len have l: "56 \<le> length data" by (simp add: fixed_part_def)
  with sz SQFS_INODE_LFILE obtain c where c: "sqfs_calc_block_count (sqfs_le64_to_cpu (segment data 24 8))
      bsize (sqfs_le32_to_cpu (segment data 44 4) \<noteq> FRAGMENT_INVALID) = Inr c" "n = 56 + unat c * 4"
    by (auto simp: size_from_fixed_def rbind_eq_Inr_iff)
  with l len safe_block_list [of 56 c data mem] show ?thesis
    by (auto simp add: SQFS_INODE_LFILE parse_inode_switch_def parse_inode_lfile_def)
next
  case SQFS_INODE_SYMLINK
  with fp len have l: "24 \<le> length data" by (simp add: fixed_part_def)
  with sz SQFS_INODE_SYMLINK len show ?thesis
    by (simp add: size_from_fixed_def parse_inode_switch_def parse_inode_symlink_def Let_def)
next
  case SQFS_INODE_LSYMLINK
  with fp len have l: "24 \<le> length data" by (simp add: fixed_part_def)
  with sz SQFS_INODE_LSYMLINK len show ?thesis
    by (simp add: size_from_fixed_def parse_inode_switch_def parse_inode_lsymlink_def Let_def)
qed (use sz len in \<open>simp_all add: size_from_fixed_def parse_inode_switch_def parse_inode_dir_def
    parse_inode_ldir_def parse_inode_dev_def parse_inode_ipc_def Let_def\<close>)

lemma size_at_least_fixed: "size_from_fixed bsize t data = Inr n \<Longrightarrow> fixed_part t \<le> n \<and> 16 \<le> n"
  by (cases t) (auto simp: size_from_fixed_def fixed_part_def rbind_eq_Inr_iff)

lemma inode_disk_size_safe:
  "block_size (disk (ctx_sb ctx)) \<noteq> 0 \<Longrightarrow> safe (inode_disk_size mem ctx ref t)"
  using calc_block_count_safe [of "block_size (disk (ctx_sb ctx))"]
  by (cases t)
    (auto simp: inode_disk_size_def Let_def intro!: safe_rbind read_inode_metadata_safe
      dest!: read_inode_metadata_length, (metis safe_simps(1))+)

lemma parse_inode_safe:
  assumes "size_from_fixed bsize t raw = Inr n" and "n \<le> length raw"
    and "parse_inode_header raw = Inr h" and "inode_type_of_code (unat (h_type h)) = Some t"
  shows "safe (parse_inode mem raw bsize)"
proof -
  note fp = size_at_least_fixed [OF assms(1)]
  have "safe (parse_inode_switch mem raw bsize t i)" for i
    using fp by (intro parse_switch_safe [OF assms(1,2)]) simp
  with fp assms(2-) show ?thesis
    by (auto simp: parse_inode_def intro!: safe_rbind)
qed

lemma parse_header_take:
  "16 \<le> n \<Longrightarrow> n \<le> length q \<Longrightarrow> parse_inode_header (take n q) = parse_inode_header q"
  by (simp add: parse_inode_header_def segment_take)

text \<open>The inode at the reference, with the type its header states, is not larger than the buffer.\<close>

definition inode_fits :: "allocator \<Rightarrow> 'a sqfs_image_scheme \<Rightarrow> u64 \<Rightarrow> bool" where
  "inode_fits mem ctx ref =
     (case rbind (read_inode_metadata mem ctx ref 16) parse_inode_header of
        Inl _ \<Rightarrow> True
      | Inr h \<Rightarrow>
          (case inode_type_of_code (unat (h_type h)) of
             None \<Rightarrow> True
           | Some t \<Rightarrow> (case inode_disk_size mem ctx ref t of Inl _ \<Rightarrow> True | Inr n \<Rightarrow> n \<le> 8192)))"

text \<open>The only way to a fault is the clamp of the size to the buffer.\<close>

lemma get_by_ref_fault:
  assumes bs: "block_size (disk (ctx_sb ctx)) \<noteq> 0"
    and small: "inode_fits mem ctx ref"
  shows "safe (sqfs_inode_get_by_ref mem ctx ref)"
proof -
  have "safe (parse_inode mem raw (block_size (disk (ctx_sb ctx))))"
    if hdr: "read_inode_metadata mem ctx ref 16 = Inr hb" "parse_inode_header hb = Inr h"
      "inode_type_of_code (unat (h_type h)) = Some t"
      and size: "inode_disk_size mem ctx ref t = Inr n"
      and raw: "read_inode_metadata mem ctx ref n = Inr raw" for hb h t n raw
  proof -
    have len: "length raw = n" by (rule read_inode_metadata_length [OF raw])
    have "fixed_part t \<le> n \<and> 16 \<le> n"
      using size by (cases t) (auto simp: inode_disk_size_def fixed_part_def rbind_eq_Inr_iff)
    moreover from this have "hb = take 16 raw"
      using read_inode_metadata_agree [OF hdr(1) raw] by simp
    ultimately show ?thesis
      using inode_disk_size_from_fixed [OF size raw] hdr len
      by (intro parse_inode_safe [of _ t raw n h]) (simp_all add: parse_header_take)
  qed
  then have full: "safe (parse_inode mem raw (block_size (disk (ctx_sb ctx))))"
    if "read_inode_metadata mem ctx ref 16 = Inr hb" "parse_inode_header hb = Inr h"
      "inode_type_of_code (unat (h_type h)) = Some t" "inode_disk_size mem ctx ref t = Inr n"
      "read_inode_metadata mem ctx ref (if 8192 < n then 8192 else n) = Inr raw" for hb h t n raw
    using that small by (simp add: inode_fits_def)
  have hdr: "safe (parse_inode_header raw)" if "read_inode_metadata mem ctx ref 16 = Inr raw" for raw
    using parse_header_safe [of raw] read_inode_metadata_length [OF that] by auto
  show ?thesis
    unfolding sqfs_inode_get_by_ref_def Let_def sizeof_defs
    by (intro safe_rbind)
      (auto intro: hdr full read_inode_metadata_safe inode_disk_size_safe [OF bs]
        intro!: safe_rbind split: option.split)
qed

text \<open>When the block ends before the inode does.\<close>

lemma read_metadata_cut:
  assumes "sqfs_meta_read_block mem (sb_fd (ctx_sb ctx))
      (inode_table (disk (ctx_sb ctx)) + sqfs_meta_ref_pos ref) (ctx_comp ctx) = Inr (bef @ take k enc)"
    and "unat (sqfs_meta_ref_offset ref) = length bef" and "k \<le> length enc"
  shows "read_inode_metadata mem ctx ref n =
    (if n \<le> k then Inr (take n enc) else Inl (Err SQFS_ERR_BAD_INODE))"
  using assms by (auto simp: read_inode_metadata_def segment_def min_def)

lemma inode_disk_size_cut:
  assumes rd: "\<And>n. read_inode_metadata mem ctx ref n =
      (if n \<le> k then Inr (take n (encode_inode d)) else Inl (Err SQFS_ERR_BAD_INODE))"
    and wf: "body_wf (block_size (disk (ctx_sb ctx))) (di_body d)" and k: "k \<le> length (encode_inode d)"
  shows "inode_disk_size mem ctx ref (body_type (di_body d)) =
    (if fixed_part (body_type (di_body d)) \<le> k then Inr (length (encode_inode d))
     else Inl (Err SQFS_ERR_BAD_INODE))"
proof (cases "di_body d")
  case B_file
  with wf k rd [of 32] show ?thesis
    by (simp add: inode_disk_size_def encode_inode_def segment_take segment_inode layout
        le32.length_concat_enc unat_of_nat fixed_part_def)
next
  case B_lfile
  with wf k rd [of 56] show ?thesis
    by (simp add: inode_disk_size_def encode_inode_def segment_take segment_inode layout
        le32.length_concat_enc unat_of_nat fixed_part_def)
next
  case B_symlink
  with wf k rd [of 24] show ?thesis
    by (simp add: inode_disk_size_def encode_inode_def segment_take segment_inode layout
        path_length fixed_part_def)
next
  case B_lsymlink
  with wf k rd [of 24] show ?thesis
    by (simp add: inode_disk_size_def encode_inode_def segment_take segment_inode layout
        path_length fixed_part_def)
qed (simp_all add: inode_disk_size_def encode_inode_def fixed_part_def)

lemma get_by_ref_cut:
  assumes b: "sqfs_meta_read_block mem (sb_fd (ctx_sb ctx))
      (inode_table (disk (ctx_sb ctx)) + sqfs_meta_ref_pos ref) (ctx_comp ctx)
        = Inr (bef @ take k (encode_inode d))"
    and off: "unat (sqfs_meta_ref_offset ref) = length bef"
    and wf: "body_wf (block_size (disk (ctx_sb ctx))) (di_body d)"
    and k: "k < length (encode_inode d)" "k < 8192"
  shows "sqfs_inode_get_by_ref mem ctx ref = Inl (Err SQFS_ERR_BAD_INODE)"
proof -
  note rd = read_metadata_cut [OF b off less_imp_le [OF k(1)]]
  note size = inode_disk_size_cut [OF rd wf less_imp_le [OF k(1)]]
  have t16: "take 16 (encode_inode d) = encode_header d" by (simp add: encode_inode_def)
  show ?thesis
    using parse_header_encode [of d "[]"] k
    by (auto simp add: sqfs_inode_get_by_ref_def rd t16 unat_type_code size Let_def)
qed

section \<open>The export table\<close>

text \<open>The cached block is the block at the recorded address.\<close>

definition export_coherent :: "allocator \<Rightarrow> 'a sqfs_image_scheme \<Rightarrow> export_cache \<Rightarrow> bool" where
  "export_coherent mem ctx c \<longleftrightarrow>
     (case export_meta_block c of
        Buf_null \<Rightarrow> True
      | Buf_clobbered \<Rightarrow> export_meta_block_addr c = 0
      | Buf_holds b \<Rightarrow> export_meta_size c = length b
          \<and> sqfs_meta_read_block mem (sb_fd (ctx_sb ctx)) (export_meta_block_addr c) (ctx_comp ctx) = Inr b)"

lemma export_coherent_init: "export_coherent mem ctx export_cache_init"
  by (simp add: export_coherent_def export_cache_init_def)

lemma export_cache_fill_ok:
  assumes "export_cache_fill mem ctx addr c = (Inr u, c')" and "export_coherent mem ctx c" and "addr \<noteq> 0"
  shows "export_coherent mem ctx c' \<and> (\<exists>b. export_meta_block c' = Buf_holds b \<and> export_meta_size c' = length b
    \<and> sqfs_meta_read_block mem (sb_fd (ctx_sb ctx)) addr (ctx_comp ctx) = Inr b)"
  using assms
  by (auto simp: export_cache_fill_def export_coherent_def
      split: if_splits sum.splits static_buf.splits)

text \<open>Looking a number up is: the pointer in the lookup table, the block it points to, the
  reference in it, the inode at the reference.\<close>

definition export_lookup :: "allocator \<Rightarrow> 'a sqfs_image_scheme \<Rightarrow> u64 \<Rightarrow> u64 res" where
  "export_lookup mem ctx inode_num =
     (let fd = sb_fd (ctx_sb ctx);
          tab = export_table (disk (ctx_sb ctx)) in
      if inode_num = 0 \<or> \<not> has_export (ctx_sb ctx) \<or> tab = SQFS_INVALID_OFFSET then Inl (Err SQFS_ERR_NOT_FOUND)
      else rbind (sqfs_pread_all fd 8 (tab + (inode_num - 1) div 1024 * 8)) (\<lambda>p.
        let addr = sqfs_le64_to_cpu p in
        if addr = SQFS_INVALID_OFFSET \<or> addr = 0 then Inl (Err SQFS_ERR_NOT_FOUND)
        else rbind (sqfs_meta_read_block mem fd addr (ctx_comp ctx)) (\<lambda>b.
          let i = unat ((inode_num - 1) mod 1024) * 8 in
          if length b < i + 8 then Inl (Err SQFS_ERR_NOT_FOUND)
          else Inr (sqfs_le64_to_cpu (segment b i 8)))))"

lemma inode_load_value:
  assumes mem: "\<forall>k. mem k \<noteq> 0" and coh: "export_coherent mem ctx c"
  shows "fst (sqfs_inode_load mem ctx num c)
    = rbind (export_lookup mem ctx num) (\<lambda>ref. sqfs_inode_get_by_ref mem ctx ref)"
proof -
  have fill: "\<exists>b. export_meta_block c' = Buf_holds b \<and> export_meta_size c' = length b
      \<and> sqfs_meta_read_block mem (sb_fd (ctx_sb ctx)) addr (ctx_comp ctx) = Inr b"
    if "export_cache_fill mem ctx addr c = (Inr u, c')" "addr \<noteq> 0" for addr u c'
    using export_cache_fill_ok [OF that(1) coh that(2)] by blast
  have fail: "sqfs_meta_read_block mem (sb_fd (ctx_sb ctx)) addr (ctx_comp ctx) = Inl e"
    if "export_cache_fill mem ctx addr c = (Inl e, c')" for addr e c'
    using that mem by (auto simp: export_cache_fill_def sqfs_malloc_def split: if_splits sum.splits)
  show ?thesis
    by (auto simp: sqfs_inode_load_def export_lookup_def Let_def rbind_def export_cache_ref_def
        split: sum.splits prod.splits if_splits dest!: fill fail)
qed

lemma inode_load_coherent:
  assumes "export_coherent mem ctx c" and "fst (sqfs_inode_load mem ctx num c) = Inr i"
  shows "export_coherent mem ctx (snd (sqfs_inode_load mem ctx num c))"
proof -
  have "export_coherent mem ctx c'"
    if "export_cache_fill mem ctx addr c = (Inr u, c')" "addr \<noteq> 0" for addr u c'
    using export_cache_fill_ok [OF that(1) assms(1) that(2)] by blast
  with assms show ?thesis
    by (auto simp: sqfs_inode_load_def Let_def split: sum.splits prod.splits if_splits)
qed

section \<open>Concrete runs\<close>

text \<open>An image of 44 bytes: a metadata block with one FIFO inode, a metadata block of the export
  table with the reference of that inode, the lookup table, and at its end the header of a
  block whose 100 bytes are missing.\<close>

definition fifo_inode :: disk_inode where
  "fifo_inode = \<lparr>di_permissions = 420, di_uid_idx = 0, di_gid_idx = 0, di_mtime = 1, di_number = 1,
     di_body = B_ipc False 1\<rparr>"

definition fifo_image :: "byte list" where
  "fifo_image = block_bytes (Raw (encode_inode fifo_inode)) @ block_bytes (Raw (put_le64 0))
     @ put_le64 22 @ put_le16 0x8064"

definition fifo_file :: os_file where
  "fifo_file = \<lparr>f_image = fifo_image, f_stat_size = Some 42, f_events = (\<lambda>_ _. [])\<rparr>"

definition fifo_ctx :: sqfs_image where
  "fifo_ctx = \<lparr>ctx_sb = \<lparr>disk = example_superblock\<lparr>inode_table := 0, export_table := 32\<rparr>,
       sb_fd = fifo_file, file_size = 42, has_xattrs = False, has_fragments = False, has_export = True\<rparr>,
     ctx_comp = Some (sqfs_compressor_zstd_new stored_lib)\<rparr>"

lemma length_fifo [simp]: "length (encode_inode fifo_inode) = 20"
  by (simp add: encode_inode_def fifo_inode_def)

lemma fifo_reliable: "reliable fifo_file"
  by (simp add: reliable_def fifo_file_def fifo_image_def)

lemma fifo_ctx_simps [simp]:
  "sb_fd (ctx_sb fifo_ctx) = fifo_file"
  "inode_table (disk (ctx_sb fifo_ctx)) = 0"
  "export_table (disk (ctx_sb fifo_ctx)) = 32"
  "has_export (ctx_sb fifo_ctx)"
  "block_size (disk (ctx_sb fifo_ctx)) = 131072"
  "ctx_comp fifo_ctx = Some (sqfs_compressor_zstd_new stored_lib)"
  by (simp_all add: fifo_ctx_def example_superblock_def)

lemma fifo_blocks:
  "sqfs_meta_read_block mem_ok fifo_file 0 (ctx_comp fifo_ctx) = Inr (encode_inode fifo_inode)"
  "sqfs_meta_read_block mem_ok fifo_file 22 (ctx_comp fifo_ctx) = Inr (put_le64 0)"
  using stored_block_read(1) [OF fifo_reliable, of "[]" "Raw (encode_inode fifo_inode)" _ 0 "ctx_comp fifo_ctx" mem_ok]
    stored_block_read(1) [OF fifo_reliable, of "block_bytes (Raw (encode_inode fifo_inode))"
      "Raw (put_le64 0)" _ 22 "ctx_comp fifo_ctx" mem_ok]
  by (simp_all add: fifo_file_def fifo_image_def)

lemma fifo_lookup: "export_lookup mem_ok fifo_ctx 1 = Inr 0"
proof -
  have "sqfs_pread_all fifo_file 8 32 = Inr (put_le64 22)"
    using reliable_pread [OF fifo_reliable, of 32 8]
    by (simp add: fifo_file_def fifo_image_def layout)
  then show ?thesis
    using fifo_blocks(2) by (simp add: export_lookup_def Let_def SQFS_INVALID_OFFSET_def layout)
qed

lemma mem_ok_pos: "\<forall>k. mem_ok k \<noteq> 0"
  by (simp add: mem_ok_def)

lemma fifo_by_ref:
  "sqfs_inode_get_by_ref mem_ok fifo_ctx 0 = Inr (parsed_body mem_ok (B_ipc False 1) (inode_common fifo_inode))"
  using get_by_ref_encode [OF mem_ok_pos, of fifo_ctx fifo_inode 0 "[]" "[]"] fifo_blocks(1)
  by (simp add: sqfs_meta_block_pos_def sqfs_meta_block_offset_def) (simp add: fifo_inode_def)

section \<open>Properties\<close>

text \<open>The inode type helpers agree with each other and with the numbers on disk: a type
  survives the trip through its number, the basic type of any type is basic and of the same
  kind, and every type is of exactly one of the five kinds.\<close>

theorem inode_type_helpers:
  "inode_type_of_code (inode_type_code t) = Some t
   \<and> \<not> sqfs_inode_is_extended (sqfs_inode_basic_type t)
   \<and> sqfs_inode_is_dir (sqfs_inode_basic_type t) = sqfs_inode_is_dir t
   \<and> sqfs_inode_is_file (sqfs_inode_basic_type t) = sqfs_inode_is_file t
   \<and> sqfs_inode_is_symlink (sqfs_inode_basic_type t) = sqfs_inode_is_symlink t
   \<and> sqfs_inode_is_dev (sqfs_inode_basic_type t) = sqfs_inode_is_dev t
   \<and> sqfs_inode_is_ipc (sqfs_inode_basic_type t) = sqfs_inode_is_ipc t
   \<and> length (filter id [sqfs_inode_is_dir t, sqfs_inode_is_file t, sqfs_inode_is_symlink t,
        sqfs_inode_is_dev t, sqfs_inode_is_ipc t]) = 1"
  by (cases t) (simp_all add: inode_type_of_code_def sqfs_inode_is_extended_def
      sqfs_inode_basic_type_def sqfs_inode_is_dir_def sqfs_inode_is_file_def
      sqfs_inode_is_symlink_def sqfs_inode_is_dev_def sqfs_inode_is_ipc_def
      less_eq_sqfs_inode_type_def)

text \<open>The number of data blocks of a file is the number of full blocks, rounded up exactly
  when there is no fragment to hold the tail, as long as it fits 32 bits.\<close>

theorem calc_block_count_rounds:
  assumes "bsize \<noteq> 0" and "unat fsize div unat bsize < 2 ^ 32 - 1"
  shows "\<exists>n. sqfs_calc_block_count fsize bsize has_fragment = Inr n
    \<and> unat n = (if has_fragment then unat fsize div unat bsize
               else (unat fsize + (unat bsize - 1)) div unat bsize)"
  using assms by (rule calc_block_count_value)

theorem calc_block_count_rounds_witness:
  "\<exists>n. sqfs_calc_block_count 300000 131072 False = Inr n \<and> unat n = 3"
  using calc_block_count_rounds [of 131072 300000 False] by simp

text \<open>C11: an inode written in the disk format, of any of the fourteen types, at any offset of a
  stored metadata block that holds it whole, is found again by its reference, if no read and no allocation fails: the lookup
  succeeds with an inode that has its type, its header fields, and the members of its type as the format means
  them. Four do not come back, and the theorem says what is there instead: the index of the attributes in place of the
  block index of an extended directory, of the major number of a device and of the low half of the target pointer of an extended
  symbolic link; and the size of an extended directory, which stays three more than that of the listing
  (the format adds three to both kinds of directory, the parser takes them off for the basic kind alone, and not from a size below three).\<close>

theorem inode_get_by_ref_roundtrip:
  assumes "\<forall>k. mem k \<noteq> 0" and "reliable (sb_fd (ctx_sb ctx))" and "ctx_comp ctx \<noteq> None"
    and "f_image (sb_fd (ctx_sb ctx)) = pre @ block_bytes sb @ post" and "block_wf (ctx_comp ctx) sb"
    and "unat (inode_table (disk (ctx_sb ctx)) + sqfs_meta_ref_pos ref) = length pre"
    and "block_data sb = bef @ encode_inode d @ aft"
    and "unat (sqfs_meta_ref_offset ref) = length bef"
    and "body_wf (block_size (disk (ctx_sb ctx))) (di_body d)" and "length (encode_inode d) \<le> 8192"
  shows "\<exists>i. sqfs_inode_get_by_ref mem ctx ref = Inr i \<and> inode_reads_as d i \<and> departs (di_body d) i"
proof -
  have "sqfs_meta_read_block mem (sb_fd (ctx_sb ctx))
      (inode_table (disk (ctx_sb ctx)) + sqfs_meta_ref_pos ref) (ctx_comp ctx)
        = Inr (bef @ encode_inode d @ aft)"
    using stored_block_read(1) [OF assms(2,4,6,5,3)] assms(7) by simp
  from get_by_ref_encode [OF assms(1,9) this assms(8,10)] parsed_inode_reads_as [OF assms(9)] parsed_body_departs
  show ?thesis by blast
qed

theorem inode_get_by_ref_roundtrip_witness:
  "\<exists>i. sqfs_inode_get_by_ref mem_ok fifo_ctx 0 = Inr i \<and> i_type i = SQFS_INODE_FIFO \<and> i_number i = 1"
proof -
  have img: "f_image (sb_fd (ctx_sb fifo_ctx)) = [] @ block_bytes (Raw (encode_inode fifo_inode))
      @ block_bytes (Raw (put_le64 0)) @ put_le64 22 @ put_le16 0x8064"
    by (simp add: fifo_file_def fifo_image_def)
  have "\<exists>i. sqfs_inode_get_by_ref mem_ok fifo_ctx 0 = Inr i \<and> inode_reads_as fifo_inode i \<and> departs (di_body fifo_inode) i"
    using inode_get_by_ref_roundtrip [OF mem_ok_pos _ _ img, of 0 "[]" fifo_inode "[]"] fifo_reliable
    by (simp add: sqfs_meta_block_pos_def sqfs_meta_block_offset_def) (simp add: fifo_inode_def)
  then show ?thesis by (auto simp: inode_reads_as_def fifo_inode_def)
qed

text \<open>C22: the lookup by reference is memory safe for every image with a block size other than zero (the superblock of
  every mounted one has that) and every reference, however the metadata is damaged, as long as the size of the inode there, computed for the type its header states, does not exceed the
  8192-byte buffer it is clamped to (the block list of a file can): it returns an inode or one of the error codes.\<close>

theorem inode_get_by_ref_safe:
  assumes "block_size (disk (ctx_sb ctx)) \<noteq> 0" and "inode_fits mem ctx ref"
  shows "safe (sqfs_inode_get_by_ref mem ctx ref)"
  using assms by (rule get_by_ref_fault)

text \<open>The stored inode, and its last 12 bytes taken for an inode.\<close>

theorem inode_get_by_ref_safe_witness:
  "safe (sqfs_inode_get_by_ref mem_ok fifo_ctx 0) \<and> safe (sqfs_inode_get_by_ref mem_ok fifo_ctx 8)
   \<and> \<not> isl (sqfs_inode_get_by_ref mem_ok fifo_ctx 0)"
proof -
  have hdr: "read_inode_metadata mem_ok fifo_ctx 0 16 = Inr (encode_header fifo_inode)"
    using read_metadata_prefix [of mem_ok fifo_ctx 0 "[]" "encode_inode fifo_inode" "[]" 16] fifo_blocks(1)
    by (simp add: sqfs_meta_block_pos_def sqfs_meta_block_offset_def encode_inode_def)
  have "inode_fits mem_ok fifo_ctx 0"
    using parse_header_encode [of fifo_inode "[]"]
    by (simp add: inode_fits_def hdr unat_type_code inode_disk_size_def inode_type_of_code_def fifo_inode_def)
  moreover have "inode_fits mem_ok fifo_ctx 8"
    using fifo_blocks(1) by (simp add: inode_fits_def read_inode_metadata_def sqfs_meta_block_pos_def sqfs_meta_block_offset_def)
  ultimately show ?thesis
    using inode_get_by_ref_safe [of fifo_ctx mem_ok 0] inode_get_by_ref_safe [of fifo_ctx mem_ok 8] fifo_by_ref
    by (simp add: isl_def)
qed

text \<open>An inode whose record does not end in the metadata block it starts in is refused as
  corrupt, wherever the cut falls: the lookup reads a single block, although the format lets
  records run over into the next one.\<close>

theorem inode_across_blocks_refused:
  assumes "sqfs_meta_read_block mem (sb_fd (ctx_sb ctx))
      (inode_table (disk (ctx_sb ctx)) + sqfs_meta_ref_pos ref) (ctx_comp ctx)
        = Inr (bef @ take k (encode_inode d))"
    and "unat (sqfs_meta_ref_offset ref) = length bef"
    and "body_wf (block_size (disk (ctx_sb ctx))) (di_body d)"
    and "k < length (encode_inode d)" and "k < 8192"
  shows "sqfs_inode_get_by_ref mem ctx ref = Inl (Err SQFS_ERR_BAD_INODE)"
  using assms by (rule get_by_ref_cut)

text \<open>The last 12 bytes of the FIFO read as the beginning of a directory inode.\<close>

definition cut_inode :: disk_inode where
  "cut_inode = \<lparr>di_permissions = 0, di_uid_idx = 1, di_gid_idx = 0, di_mtime = 1, di_number = 0,
     di_body = B_dir 0 0 0 0 0\<rparr>"

theorem inode_across_blocks_refused_witness:
  "sqfs_inode_get_by_ref mem_ok fifo_ctx 8 = Inl (Err SQFS_ERR_BAD_INODE)"
proof -
  have "encode_inode fifo_inode = take 8 (encode_inode fifo_inode) @ take 12 (encode_inode cut_inode)"
    by (simp add: encode_inode_def encode_header_def fifo_inode_def cut_inode_def put_le16_def put_le32_def)
  with fifo_blocks(1) have "sqfs_meta_read_block mem_ok fifo_file 0 (ctx_comp fifo_ctx)
      = Inr (take 8 (encode_inode fifo_inode) @ take 12 (encode_inode cut_inode))" by simp
  then show ?thesis
    using inode_across_blocks_refused [of mem_ok fifo_ctx 8 "take 8 (encode_inode fifo_inode)" 12 cut_inode]
    by (simp add: sqfs_meta_block_pos_def sqfs_meta_block_offset_def)
      (simp add: cut_inode_def encode_inode_def)
qed

text \<open>C29: looking an inode up by number is resolving it through the export table and then
  following the reference; the block kept in static variables between calls does not change
  the result as long as it is the block at its recorded address, and a successful lookup
  keeps it so.\<close>

theorem inode_load_transparent:
  assumes "\<forall>k. mem k \<noteq> 0" and "export_coherent mem ctx c"
  shows "fst (sqfs_inode_load mem ctx num c)
      = rbind (export_lookup mem ctx num) (\<lambda>ref. sqfs_inode_get_by_ref mem ctx ref)
    \<and> ((\<exists>i. fst (sqfs_inode_load mem ctx num c) = Inr i)
         \<longrightarrow> export_coherent mem ctx (snd (sqfs_inode_load mem ctx num c)))"
  using inode_load_value [OF assms] inode_load_coherent [OF assms(2)] by blast

theorem inode_load_transparent_witness:
  "\<exists>i. fst (sqfs_inode_load mem_ok fifo_ctx 1 export_cache_init) = Inr i \<and> i_type i = SQFS_INODE_FIFO
     \<and> export_coherent mem_ok fifo_ctx (snd (sqfs_inode_load mem_ok fifo_ctx 1 export_cache_init))"
proof -
  have "fst (sqfs_inode_load mem_ok fifo_ctx 1 export_cache_init)
      = Inr (parsed_body mem_ok (B_ipc False 1) (inode_common fifo_inode))"
    using inode_load_transparent [OF mem_ok_pos export_coherent_init [of mem_ok fifo_ctx], of 1]
    by (simp add: fifo_lookup fifo_by_ref)
  moreover from this have "export_coherent mem_ok fifo_ctx (snd (sqfs_inode_load mem_ok fifo_ctx 1 export_cache_init))"
    using inode_load_transparent [OF mem_ok_pos export_coherent_init [of mem_ok fifo_ctx], of 1] by simp
  ultimately show ?thesis by (simp add: inode_common_def new_inode_def fifo_inode_def union_defs)
qed

text \<open>A metadata read that fails half-way breaks this: the buffer is overwritten while its
  recorded address stays, so the next lookup for the old address takes bytes that are not
  the block's.\<close>

theorem export_cache_goes_stale:
  assumes "export_meta_block c = Buf_holds b" and "addr' \<noteq> export_meta_block_addr c"
    and "sqfs_meta_read_block mem (sb_fd (ctx_sb ctx)) addr' (ctx_comp ctx) = Inl e"
    and "meta_read_clobbers mem (sb_fd (ctx_sb ctx)) addr' (ctx_comp ctx)"
    and "export_cache_fill mem ctx addr' c = (r, c')"
    and "unat i * 8 + 8 \<le> export_meta_size c"
  shows "r = Inl e \<and> export_cache_fill mem ctx (export_meta_block_addr c) c' = (Inr (), c')
    \<and> export_cache_ref c' i = Inl (Fault Uninit_Read)"
  using assms by (auto simp: export_cache_fill_def export_cache_ref_def)

theorem export_cache_goes_stale_witness:
  "\<exists>c. export_cache_fill mem_ok fifo_ctx 22 (snd (export_cache_fill mem_ok fifo_ctx 40
        (snd (export_cache_fill mem_ok fifo_ctx 22 export_cache_init)))) = (Inr (), c)
     \<and> export_cache_ref c 0 = Inl (Fault Uninit_Read)"
proof -
  define c where "c = \<lparr>export_meta_block = Buf_holds (put_le64 0), export_meta_size = 8,
    export_meta_block_addr = 22\<rparr>"
  have c: "snd (export_cache_fill mem_ok fifo_ctx 22 export_cache_init) = c"
    using fifo_blocks(2)
    by (simp add: export_cache_fill_def export_cache_init_def c_def sqfs_malloc_def mem_ok_pos)
  have hdr: "read_block_from_disk fifo_file 40 2 = Inr (put_le16 0x8064)"
    using reliable_read [OF fifo_reliable, of 40 2]
    by (simp add: fifo_file_def fifo_image_def layout)
  have body: "read_block_from_disk fifo_file 42 100 = Inl (Err SQFS_ERR_IO)"
    by (simp add: read_block_from_disk_def sqfs_pread_all_complete fifo_file_def fifo_image_def)
  have cl: "meta_read_clobbers mem_ok fifo_file 40 (ctx_comp fifo_ctx)"
    by (simp add: meta_read_clobbers_def hdr Let_def)
  have e: "sqfs_meta_read_block mem_ok fifo_file 40 (ctx_comp fifo_ctx) = Inl (Err SQFS_ERR_IO)"
    by (simp add: sqfs_meta_read_block_def hdr body Let_def)
  obtain r c' where "export_cache_fill mem_ok fifo_ctx 40 c = (r, c')" by fastforce
  with export_cache_goes_stale [of c "put_le64 0" 40 mem_ok fifo_ctx "Err SQFS_ERR_IO" r c' 0] e cl c
  show ?thesis by (simp add: c_def)
qed

text \<open>Members of the union that share storage: the parsers store the extended attribute
  index over the low half of the first word, so an extended directory reads its block index
  as its attribute index, the major number of a device reads as its attribute index or as
  all ones, and the target pointer of an extended symlink survives only if the index happens
  to equal its low half; otherwise freeing the inode passes a wild pointer to \<open>free\<close>.\<close>

theorem xattr_index_overwrites_union:
  "dir_block_idx (parsed_body mem (B_ldir lk sz bi par ic off x) i) = ucast x
   \<and> dev_major (parsed_body mem (B_dev c lk n) i) = 0xFFFFFFFF
   \<and> dev_major (parsed_body mem (B_ldev c lk n x) i) = x
   \<and> symlink_target (parsed_body mem (B_lsymlink lk path x) i)
       = join32 x (hi32 (mem (unat (of_nat (length path) + 1 :: u32))))"
  by (simp add: union_defs Let_def XATTR_INVALID_def join32_0)

text \<open>Releasing an inode that was just parsed is safe for every type but the extended
  symlink; for that one it is safe exactly if the attribute index happens to leave the
  pointer as \<open>malloc\<close> returned it, or to make it null.\<close>

theorem inode_free_outcome:
  "sqfs_inode_free (Some (parsed_body mem (di_body d) (inode_common d))) =
    (case di_body d of
       B_lsymlink lk path x \<Rightarrow>
         (let a = mem (unat (of_nat (length path) + 1 :: u32)); p = join32 x (hi32 a)
          in if p = 0 \<or> p = a then Inr () else Inl (Fault Wild_Pointer))
     | _ \<Rightarrow> Inr ())"
  by (cases "di_body d")
    (auto simp: sqfs_inode_free_def sqfs_inode_is_symlink_def union_defs Let_def)

end
