(* ===== verification/ReadBuffer.thy ===== *)
theory ReadBuffer
  imports MetaBlock
begin

text \<open>
  \<open>sqfs_pread_all\<close> once more, for the callers that do not compare the number of bytes they ask for
  with the buffer they pass: the loop with the size of the buffer, in which every \<open>pread\<close> writes what
  it delivers behind what is there. A call that delivers more than is left of the buffer writes outside of
  it. For a buffer that is large enough it is the loop of \<open>Utils\<close>.
\<close>

section \<open>The loop with its buffer\<close>

function pread_buf_loop ::
  "nat \<Rightarrow> byte list \<Rightarrow> pread_event list \<Rightarrow> nat \<Rightarrow> u64 \<Rightarrow> byte list \<Rightarrow> byte list res" where
  "pread_buf_loop cap img evs count offset buf =
     (if length buf < count then
        (case next_event evs (count - length buf) of
           (ev, evs') \<Rightarrow>
             (case os_pread img ev (count - length buf) (offset + of_nat (length buf)) of
                PRet_errno e \<Rightarrow>
                  if e = EINTR then pread_buf_loop cap img evs' count offset buf
                  else Inl (Err SQFS_ERR_IO)
              | PRet_bytes bs \<Rightarrow>
                  if cap < length buf + length bs then Inl (Fault OOB_Write)
                  else if bs = [] then Inl (Err SQFS_ERR_CORRUPT)
                  else pread_buf_loop cap img evs' count offset (buf @ bs)))
      else Inr buf)"
  by pat_completeness auto
termination
  by (relation "measure (\<lambda>(cap, img, evs, count, offset, buf). length evs + (count - length buf))")
    (auto simp: os_pread_eintr simp flip: length_greater_0_conv dest!: next_event_length)

declare pread_buf_loop.simps [simp del]

text \<open>An error code in place of another; a fault stays.\<close>

definition as_error :: "'e \<Rightarrow> 'e failure + 'a \<Rightarrow> 'e failure + 'a" where
  "as_error e m = (case m of Inl (Err _) \<Rightarrow> Inl (Err e) | _ \<Rightarrow> m)"

lemma as_error_simps [simp]:
  "as_error e m = Inr x \<longleftrightarrow> m = Inr x" "as_error e m = Inl (Fault f) \<longleftrightarrow> m = Inl (Fault f)"
  by (auto simp: as_error_def split: sum.split failure.split)

text \<open>\<open>count\<close> bytes at \<open>offset\<close> into a buffer of \<open>cap\<close> bytes; and \<open>read_block_from_disk\<close> over it.\<close>

definition sqfs_pread_buf :: "os_file \<Rightarrow> nat \<Rightarrow> nat \<Rightarrow> u64 \<Rightarrow> byte list res" where
  "sqfs_pread_buf fd cap count offset =
     pread_buf_loop cap (f_image fd) (f_events fd offset count) count offset []"

definition read_block_buf :: "os_file \<Rightarrow> u64 \<Rightarrow> nat \<Rightarrow> nat \<Rightarrow> byte list res" where
  "read_block_buf fd pos cap count =
     (if count = 0 then Inr [] else as_error SQFS_ERR_IO (sqfs_pread_buf fd cap count pos))"

text \<open>\<open>memcpy\<close> of \<open>n\<close> bytes at \<open>off\<close> of the data \<open>b\<close> behind the bytes \<open>out\<close> of a buffer of \<open>cap\<close> bytes.\<close>

definition buf_copy :: "nat \<Rightarrow> byte list \<Rightarrow> byte list \<Rightarrow> nat \<Rightarrow> nat \<Rightarrow> byte list res" where
  "buf_copy cap out b off n =
     (if length b < off + n then Inl (Fault OOB_Read)
      else if cap < length out + n then Inl (Fault OOB_Write)
      else Inr (out @ segment b off n))"

section \<open>Against the loop without a buffer\<close>

lemma pread_buf_loop_cases:
  "length buf \<le> count \<Longrightarrow> pread_buf_loop cap img evs count offset buf = pread_all_loop img evs count offset buf
     \<or> pread_buf_loop cap img evs count offset buf = Inl (Fault OOB_Write) \<and> cap < count"
proof (induction cap img evs count offset buf rule: pread_buf_loop.induct)
  case (1 cap img evs count offset buf)
  show ?case
  proof (cases "length buf < count")
    case False
    then show ?thesis by (simp add: pread_buf_loop.simps pread_all_loop.simps)
  next
    case more: True
    obtain ev evs' where ev: "(ev, evs') = next_event evs (count - length buf)" by (metis surj_pair)
    note IH = "1.IH" [OF more ev]
    show ?thesis
    proof (cases "os_pread img ev (count - length buf) (offset + of_nat (length buf))")
      case (PRet_errno e)
      with IH(1) [OF PRet_errno] more ev [symmetric] show ?thesis
        by (simp add: pread_buf_loop.simps [of cap img evs] pread_all_loop.simps [of img evs])
    next
      case (PRet_bytes bs)
      then have "length buf + length bs \<le> count" using more by (auto simp: os_pread_bytes segment_def)
      with IH(2) [OF PRet_bytes] PRet_bytes more ev [symmetric] show ?thesis
        by (auto simp: pread_buf_loop.simps [of cap img evs] pread_all_loop.simps [of img evs])
    qed
  qed
qed

lemma pread_buf_loop_fits:
  "pread_buf_loop cap img evs count offset buf = Inr bs \<Longrightarrow> length buf \<le> cap \<Longrightarrow> length bs \<le> cap"
proof (induction cap img evs count offset buf rule: pread_buf_loop.induct)
  case (1 cap img evs count offset buf)
  then show ?case
    by (subst (asm) pread_buf_loop.simps [of cap img evs])
      (auto simp: not_less split: if_splits prod.splits pread_ret.splits)
qed

lemma pread_buf_large [simp]: "count \<le> cap \<Longrightarrow> sqfs_pread_buf fd cap count pos = sqfs_pread_all fd count pos"
  using pread_buf_loop_cases [of "[]" count cap] by (auto simp: sqfs_pread_buf_def sqfs_pread_all_def not_less)

lemma read_block_buf_large [simp]: "count \<le> cap \<Longrightarrow> read_block_buf fd pos cap count = read_block_from_disk fd pos count"
  using pread.rd_safe [of fd count pos]
  by (auto simp: read_block_buf_def read_block_from_disk_def as_error_def safe_def split: sum.split failure.split)

text \<open>A read that succeeds fits its buffer.\<close>

lemma pread_buf_ok:
  assumes "sqfs_pread_buf fd cap count pos = Inr bs" and "count < 2 ^ 63"
  shows "sqfs_pread_all fd count pos = Inr bs \<and> count \<le> cap"
proof -
  have "sqfs_pread_all fd count pos = Inr bs"
    using assms(1) pread_buf_loop_cases [of "[]" count cap]
    by (simp add: sqfs_pread_buf_def sqfs_pread_all_def) (metis sum.distinct(1))
  moreover from this have "length bs = count" using sqfs_pread_all_ok [OF _ assms(2)] by blast
  moreover have "length bs \<le> cap" using assms(1) pread_buf_loop_fits by (simp add: sqfs_pread_buf_def)
  ultimately show ?thesis by simp
qed

lemma read_block_buf_ok:
  assumes "read_block_buf fd pos cap count = Inr bs" and "count < 2 ^ 63"
  shows "read_block_from_disk fd pos count = Inr bs \<and> count \<le> cap"
  using assms by (auto simp: read_block_buf_def read_block_from_disk_def dest: pread_buf_ok split: if_splits)

lemma pread_buf_fault: "sqfs_pread_buf fd cap count pos = Inl (Fault f) \<Longrightarrow> f = OOB_Write \<and> cap < count"
  using pread_buf_loop_cases [of "[]" count cap "f_image fd" "f_events fd pos count" pos]
    pread.rd_error [of fd count pos "Fault f"]
  by (auto simp: sqfs_pread_buf_def sqfs_pread_all_def)

lemma read_block_buf_fault: "read_block_buf fd pos cap count = Inl (Fault f) \<Longrightarrow> f = OOB_Write \<and> cap < count"
  by (auto simp: read_block_buf_def dest: pread_buf_fault split: if_splits)

section \<open>When the buffer is overrun\<close>

text \<open>The bytes the kernel is willing to deliver before a call fails; \<open>None\<close> if none fails.\<close>

fun allowance :: "pread_event list \<Rightarrow> nat option" where
  "allowance [] = None"
| "allowance (PR_eintr # es) = allowance es"
| "allowance (PR_error # es) = Some 0"
| "allowance (PR_short m # es) = map_option ((+) (max 1 m)) (allowance es)"

text \<open>More than \<open>cap\<close> bytes are delivered: asked for, in the image behind the offset, and not stopped by an error.\<close>

definition delivers_more :: "os_file \<Rightarrow> nat \<Rightarrow> u64 \<Rightarrow> nat \<Rightarrow> bool" where
  "delivers_more fd count pos cap \<longleftrightarrow> cap < count \<and> unat pos < 2 ^ 63 \<and> unat pos + cap < length (f_image fd)
     \<and> (case allowance (f_events fd pos count) of None \<Rightarrow> True | Some k \<Rightarrow> cap < k)"

lemma pread_buf_loop_overrun:
  assumes "length img \<le> 2 ^ 63" and "length buf \<le> cap" and "length buf \<le> count"
    and "unat offset + length buf \<le> length img \<or> buf = []"
  shows "pread_buf_loop cap img evs count offset buf = Inl (Fault OOB_Write) \<longleftrightarrow>
     cap < count \<and> unat offset < 2 ^ 63 \<and> unat offset + cap < length img
     \<and> (case allowance evs of None \<Rightarrow> True | Some k \<Rightarrow> cap < length buf + k)"
  using assms
proof (induction cap img evs count offset buf rule: pread_buf_loop.induct)
  case (1 cap img evs count offset buf)
  show ?case
  proof (cases "length buf < count")
    case False
    with "1.prems" show ?thesis by (simp add: pread_buf_loop.simps)
  next
    case more: True
    obtain ev evs' where ev: "(ev, evs') = next_event evs (count - length buf)" by (metis surj_pair)
    note IH = "1.IH" [OF more ev]
    define pos where "pos = offset + of_nat (length buf)"
    have pos: "unat pos = unat offset + length buf" if "unat offset < 2 ^ 63"
    proof (cases "buf = []")
      case False
      with "1.prems"(1,4) have "unat offset + length buf \<le> 2 ^ 63" by simp
      then show ?thesis unfolding pos_def by (intro unat_add_of_nat) simp
    qed (simp add: pos_def)
    have evs: "evs = [] \<and> ev = PR_short (count - length buf) \<or> evs = ev # evs'" using ev by (cases evs) auto
    show ?thesis
    proof (cases "os_pread img ev (count - length buf) pos")
      case (PRet_errno e)
      show ?thesis
      proof (cases "e = EINTR")
        case True
        with PRet_errno have "ev = PR_eintr" by (simp add: os_pread_eintr)
        with evs have evs': "evs = PR_eintr # evs'" by simp
        from True PRet_errno more have "pread_buf_loop cap img evs count offset buf = pread_buf_loop cap img evs' count offset buf"
          by (subst pread_buf_loop.simps) (simp add: pos_def ev [symmetric])
        with True IH(1) [OF PRet_errno [unfolded pos_def]] "1.prems" show ?thesis by (simp add: evs')
      next
        case False
        with PRet_errno have "2 ^ 63 \<le> unat pos \<or> ev = PR_error"
          by (auto simp: os_pread_def split: if_splits pread_event.splits)
        then have "\<not> (unat offset < 2 ^ 63 \<and> unat offset + cap < length img
            \<and> (case allowance evs of None \<Rightarrow> True | Some k \<Rightarrow> cap < length buf + k))"
          using evs "1.prems"(1,2) pos by auto
        with False PRet_errno more ev [symmetric] show ?thesis
          by (simp add: pread_buf_loop.simps [of cap img evs] pos_def)
      qed
    next
      case (PRet_bytes cs)
      from PRet_bytes obtain m where lt: "unat pos < 2 ^ 63" and m: "ev = PR_short m"
        and cs: "cs = segment img (unat pos) (min (count - length buf) (max 1 m))"
        by (auto simp: os_pread_bytes)
      have off: "unat offset < 2 ^ 63" using "1.prems"(1,4) lt by (cases buf) (auto simp: pos_def)
      have len: "length cs = min (min (count - length buf) (max 1 m)) (length img - unat pos)"
        by (simp add: cs segment_def min.commute)
      have al: "allowance evs = None \<and> evs = [] \<or> allowance evs = map_option ((+) (max 1 m)) (allowance evs')"
        using evs m by auto
      have step: "pread_buf_loop cap img evs count offset buf =
          (if cap < length buf + length cs then Inl (Fault OOB_Write)
           else if cs = [] then Inl (Err SQFS_ERR_CORRUPT) else pread_buf_loop cap img evs' count offset (buf @ cs))"
        using PRet_bytes more by (subst pread_buf_loop.simps) (simp add: pos_def ev [symmetric])
      note pos = pos [OF off]
      have le: "length cs \<le> count - length buf" "length cs \<le> max 1 m" "length cs \<le> length img - unat pos"
        by (simp_all add: len)
      consider (over) "cap < length buf + length cs" | (empty) "length buf + length cs \<le> cap" "cs = []"
        | (more) "length buf + length cs \<le> cap" "cs \<noteq> []" by linarith
      then show ?thesis
      proof cases
        case over
        from over le(1) more have "cap < count" by linarith
        moreover from over le(3) pos "1.prems"(2) have "unat offset + cap < length img" by linarith
        moreover from over le(2) have "cap < length buf + max 1 m" by linarith
        with al have "cap < length buf + k" if "allowance evs = Some k" for k
          using that by (cases "allowance evs'") auto
        ultimately show ?thesis using over step off by (simp split: option.split)
      next
        case empty
        with step len "1.prems"(2) more pos show ?thesis by auto
      next
        case more': more
        have rest: "unat offset + length (buf @ cs) \<le> length img" using more'(2) le(3) pos by (cases cs) auto
        have IH2: "(pread_buf_loop cap img evs' count offset (buf @ cs) = Inl (Fault OOB_Write)) \<longleftrightarrow>
            cap < count \<and> unat offset < 2 ^ 63 \<and> unat offset + cap < length img
            \<and> (case allowance evs' of None \<Rightarrow> True | Some k \<Rightarrow> cap < length (buf @ cs) + k)"
          using more' rest le(1) more "1.prems"(1)
          by (intro IH(2) [OF PRet_bytes [unfolded pos_def]]) simp_all
        have "length cs = max 1 m \<or> length buf + length cs = count \<or> unat offset + length buf + length cs = length img"
          using len pos rest more by (simp add: min_def split: if_splits)
        then show ?thesis
        proof (elim disjE)
          assume "length cs = max 1 m"
          with IH2 step more' al ev m show ?thesis by (cases evs) (auto split: option.splits)
        qed (use IH2 step more' in auto)
      qed
    qed
  qed
qed

lemma pread_buf_overrun:
  assumes "length (f_image fd) \<le> 2 ^ 63"
  shows "sqfs_pread_buf fd cap count pos = Inl (Fault OOB_Write) \<longleftrightarrow> delivers_more fd count pos cap"
  using pread_buf_loop_overrun [OF assms, of "[]" cap count pos]
  by (auto simp: sqfs_pread_buf_def delivers_more_def split: option.split)

lemma read_block_buf_overrun:
  assumes "length (f_image fd) \<le> 2 ^ 63"
  shows "read_block_buf fd pos cap count = Inl (Fault OOB_Write) \<longleftrightarrow> delivers_more fd count pos cap"
  using pread_buf_overrun [OF assms, of cap count pos]
  by (auto simp: read_block_buf_def delivers_more_def)

end
