(* ===== verification/DataBlock.thy ===== *)
theory DataBlock
  imports InodeFormat ReadBuffer
begin

text \<open>
  The part of \<open>src/core/data.h\<close> and \<open>src/core/data.c\<close> that needs no cache: the file context
  built from an inode, the layout of the blocks, their positions on disk, the reader of one data
  block, the sparse range check.
\<close>

section \<open>Encoded sizes\<close>

definition SQFS_FRAGMENT_NONE :: u32 where "SQFS_FRAGMENT_NONE = 0xFFFFFFFF"

definition sqfs_fragment_is_none :: "u32 \<Rightarrow> bool" where
  "sqfs_fragment_is_none frag_idx \<longleftrightarrow> frag_idx = SQFS_FRAGMENT_NONE"

definition sqfs_block_size_get :: "u32 \<Rightarrow> u32" where
  "sqfs_block_size_get sz = sz AND 0x00FFFFFF"

definition sqfs_block_size_encode :: "u32 \<Rightarrow> bool \<Rightarrow> u32" where
  "sqfs_block_size_encode sz uncompressed = (if uncompressed then sz OR push_bit 24 1 else sz)"

definition sqfs_block_is_sparse :: "u32 \<Rightarrow> bool" where
  "sqfs_block_is_sparse disk_size \<longleftrightarrow> disk_size = 0"

lemma block_size_get_same: "sqfs_block_size_get = sqfs_block_size"
  by (simp add: fun_eq_iff sqfs_block_size_get_def sqfs_block_size_def)

lemma block_size_get_bound: "unat (sqfs_block_size_get w) < 2 ^ 24"
  by (simp only: block_size_get_same block_size_bound)

section \<open>The file context\<close>

record sqfs_file_ctx =
  fc_file_size :: u64
  fc_current_offset :: u64
  fc_blocks_start :: u64
  fc_block_size :: u32
  fc_block_count :: u32
  fc_tail_size :: u32
  fc_frag_idx :: u32
  fc_frag_offset :: u32
  fc_sparse_bytes :: u64
  fc_block_sizes :: "u32 list option"

definition zero_file_ctx :: sqfs_file_ctx where
  "zero_file_ctx = \<lparr>fc_file_size = 0, fc_current_offset = 0, fc_blocks_start = 0, fc_block_size = 0,
     fc_block_count = 0, fc_tail_size = 0, fc_frag_idx = 0, fc_frag_offset = 0, fc_sparse_bytes = 0,
     fc_block_sizes = None\<rparr>"

definition calculate_block_layout :: "sqfs_file_ctx \<Rightarrow> u64 \<Rightarrow> u32 \<Rightarrow> sqfs_file_ctx res" where
  "calculate_block_layout ctx fsize bsize =
     (if fsize = 0 then Inr (ctx\<lparr>fc_block_count := 0, fc_tail_size := 0\<rparr>)
      else if bsize = 0 then Inl (Fault Div_By_Zero)
      else let count = ucast (fsize div ucast bsize); tail = ucast (fsize mod ucast bsize)
           in Inr (ctx\<lparr>fc_block_count := (if 0 < tail \<and> sqfs_fragment_is_none (fc_frag_idx ctx)
                                       then count + 1 else count),
                     fc_tail_size := tail\<rparr>))"

text \<open>The context borrows the inode's block size array.\<close>

definition sqfs_file_ctx_init :: "sqfs_superblock \<Rightarrow> sqfs_inode \<Rightarrow> sqfs_file_ctx res" where
  "sqfs_file_ctx_init sb i =
     (if \<not> sqfs_inode_is_file (i_type i) then Inl (Err SQFS_ERR_BAD_INODE)
      else rbind (calculate_block_layout
             (zero_file_ctx\<lparr>fc_block_size := block_size (disk sb),
                fc_file_size := file_file_size i, fc_blocks_start := file_blocks_start i,
                fc_frag_idx := file_frag_idx i, fc_frag_offset := file_block_offset i,
                fc_sparse_bytes := file_sparse i, fc_block_sizes := i_block_sizes i\<rparr>)
             (file_file_size i) (block_size (disk sb))) (\<lambda>ctx.
           Inr (ctx\<lparr>fc_current_offset := 0\<rparr>)))"

definition sqfs_file_ctx_cleanup :: "sqfs_file_ctx \<Rightarrow> sqfs_file_ctx" where
  "sqfs_file_ctx_cleanup ctx = ctx\<lparr>fc_block_sizes := None\<rparr>"

text \<open>The quotient is cut to an \<open>int\<close>.\<close>

definition sqfs_file_block_index :: "sqfs_file_ctx \<Rightarrow> u64 \<Rightarrow> int res" where
  "sqfs_file_block_index ctx offset =
     (if fc_file_size ctx \<le> offset then Inr (- 1)
      else if fc_block_size ctx = 0 then Inl (Fault Div_By_Zero)
      else Inr (sint (ucast (offset div ucast (fc_block_size ctx)) :: u32)))"

text \<open>Position of a block, its encoded size and whether it is stored uncompressed. The loop adds up
  the stored sizes of the blocks before it.\<close>

definition blocks_end :: "u64 \<Rightarrow> u32 list \<Rightarrow> u64" where
  "blocks_end start sizes = foldl (\<lambda>pos s. pos + ucast (sqfs_block_size_get s)) start sizes"

definition sqfs_file_block_location :: "sqfs_file_ctx \<Rightarrow> u32 \<Rightarrow> (u64 \<times> u32 \<times> bool) res" where
  "sqfs_file_block_location ctx block_idx =
     (if fc_block_count ctx \<le> block_idx then
        (if block_idx = fc_block_count ctx \<and> \<not> sqfs_fragment_is_none (fc_frag_idx ctx)
         then Inl (Err SQFS_ERR_NOT_FOUND) else Inl (Err SQFS_ERR_BAD_BLOCK))
      else case fc_block_sizes ctx of
          None \<Rightarrow> Inl (Fault Null_Deref)
        | Some sizes \<Rightarrow>
            if length sizes \<le> unat block_idx then Inl (Fault OOB_Read)
            else if sizes ! unat block_idx = 0 then Inr (0, 0, False)
            else Inr (blocks_end (fc_blocks_start ctx) (take (unat block_idx) sizes),
                   sizes ! unat block_idx, sqfs_block_is_uncompressed (sizes ! unat block_idx)))"

section \<open>One data block\<close>

text \<open>
  The output buffer has \<open>uncomp_size\<close> bytes. An uncompressed block is read into it with its stored
  size, which is not compared with the buffer. A compressed block
  that is not larger than the buffer is read into the buffer's end and decompressed from there.
  The function returns the length as an \<open>int\<close>; here it returns the bytes.
\<close>

definition sqfs_data_read_block ::
  "allocator \<Rightarrow> os_file \<Rightarrow> u64 \<Rightarrow> u32 \<Rightarrow> nat \<Rightarrow> sqfs_compressor option \<Rightarrow> byte list res" where
  "sqfs_data_read_block mem fd block_pos disk_size uncomp_size cmp =
     (if cmp = None then Inl (Err SQFS_ERR_CORRUPT)
      else if disk_size = 0 then Inr (replicate uncomp_size 0)
      else let actual_size = unat (sqfs_block_size_get disk_size) in
        if sqfs_block_is_uncompressed disk_size then
          read_block_buf fd block_pos uncomp_size actual_size
        else rbind
          (if actual_size \<le> uncomp_size then Inr (Inside (uncomp_size - actual_size))
           else if sqfs_malloc mem actual_size = 0 then Inl (Err SQFS_ERR_NO_MEMORY)
           else Inr Disjoint) (\<lambda>place.
          rbind (read_block_from_disk fd block_pos actual_size) (\<lambda>src.
            recode (Err SQFS_ERR_CORRUPT) (sqfs_compressor_decompress cmp place src uncomp_size))))"

section \<open>Sparse ranges\<close>

text \<open>The loop over the blocks of a range; it stops at the end of the block list.\<close>

function sparse_loop :: "u32 list option \<Rightarrow> nat \<Rightarrow> nat \<Rightarrow> nat \<Rightarrow> bool res" where
  "sparse_loop sizes count i end_block =
     (if end_block < i then Inr True
      else if count \<le> i then Inr True
      else case sizes of
          None \<Rightarrow> Inl (Fault Null_Deref)
        | Some bs \<Rightarrow>
            if length bs \<le> i then Inl (Fault OOB_Read)
            else if bs ! i \<noteq> 0 then Inr False
            else sparse_loop sizes count (i + 1) end_block)"
  by pat_completeness auto
termination by (relation "measure (\<lambda>(sizes, count, i, e). count - i)") auto

declare sparse_loop.simps [simp del]

definition sqfs_data_is_sparse :: "sqfs_file_ctx \<Rightarrow> u64 \<Rightarrow> u64 \<Rightarrow> bool res" where
  "sqfs_data_is_sparse ctx offset sz =
     (if fc_sparse_bytes ctx = 0 then Inr False
      else if fc_block_size ctx = 0 then Inl (Fault Div_By_Zero)
      else let end_offset = (if fc_file_size ctx < offset + sz then fc_file_size ctx else offset + sz);
               start_block = ucast (offset div ucast (fc_block_size ctx)) :: u32;
               end_block = ucast ((end_offset - 1) div ucast (fc_block_size ctx)) :: u32
           in sparse_loop (fc_block_sizes ctx) (unat (fc_block_count ctx)) (unat start_block) (unat end_block))"

definition sqfs_data_fill_sparse :: "nat \<Rightarrow> byte list" where
  "sqfs_data_fill_sparse n = replicate n 0"

section \<open>Facts\<close>

lemma file_ctx_init_fields:
  assumes "sqfs_file_ctx_init sb i = Inr fc"
  shows "sqfs_inode_is_file (i_type i)" and "fc_file_size fc = file_file_size i"
    and "fc_blocks_start fc = file_blocks_start i" and "fc_block_size fc = block_size (disk sb)"
    and "fc_frag_idx fc = file_frag_idx i" and "fc_frag_offset fc = file_block_offset i"
    and "fc_block_sizes fc = i_block_sizes i" and "fc_sparse_bytes fc = file_sparse i"
  using assms
  by (auto simp: sqfs_file_ctx_init_def calculate_block_layout_def rbind_eq_Inr_iff Let_def split: if_splits)

lemma ucast_Suc: "(ucast (q + 1 :: u64) :: u32) = ucast q + 1"
proof -
  have "(x + 1) mod 4294967296 = (x mod 18446744073709551616 + 1) mod 4294967296" for x :: int
    by (subst (2) mod_add_left_eq [symmetric]) (simp add: mod_mod_cancel mod_add_left_eq)
  then show ?thesis by transfer (simp add: take_bit_eq_mod mod_mod_cancel)
qed

lemma ucast_down_small: "unat (w :: u64) < 2 ^ 32 \<Longrightarrow> unat (ucast w :: u32) = unat w"
  by (simp add: unsigned_ucast_eq take_bit_nat_eq_self)

lemma unat_mod_block: "0 < b \<Longrightarrow> unat (w mod ucast (b :: u32) :: u64) < unat b"
  by (simp add: unat_mod word_greater_zero_iff word_less_nat_alt)

text \<open>The layout of the context is the one the inode's parser counted its block sizes with.\<close>

lemma file_ctx_block_count:
  assumes "sqfs_file_ctx_init sb i = Inr fc"
  shows "sqfs_calc_block_count (file_file_size i) (block_size (disk sb)) (file_frag_idx i \<noteq> FRAGMENT_INVALID)
    = Inr (fc_block_count fc)"
proof -
  define b where "b = block_size (disk sb)"
  define r where "r = file_file_size i mod ucast b"
  have none: "sqfs_fragment_is_none f \<longleftrightarrow> f = FRAGMENT_INVALID" for f
    by (simp add: sqfs_fragment_is_none_def SQFS_FRAGMENT_NONE_def FRAGMENT_INVALID_def)
  have "(ucast r :: u32) = 0 \<longleftrightarrow> r = 0" if "b \<noteq> 0"
  proof -
    have "unat r < unat b" using that unat_mod_block [of b] by (simp add: r_def word_greater_zero_iff)
    with unat_u32_lt [of b] have "unat r < 4294967296" by linarith
    then have "unat r < 2 ^ 32" by simp
    from ucast_down_small [OF this] show ?thesis by (metis unat_eq_0)
  qed
  moreover note assms [unfolded sqfs_file_ctx_init_def calculate_block_layout_def, folded b_def, folded r_def]
  ultimately show ?thesis
    unfolding sqfs_calc_block_count_def b_def [symmetric] r_def [symmetric]
    by (auto simp: rbind_eq_Inr_iff none Let_def ucast_Suc zero_file_ctx_def word_greater_zero_iff split: if_splits)
qed

section \<open>The block list of a loaded inode\<close>

text \<open>The array of a file inode has as many elements as the layout has blocks.\<close>

definition block_list_ok :: "sqfs_superblock \<Rightarrow> sqfs_inode \<Rightarrow> bool" where
  "block_list_ok sb i \<longleftrightarrow> (sqfs_inode_is_file (i_type i) \<longrightarrow>
     (\<exists>n. sqfs_calc_block_count (file_file_size i) (block_size (disk sb)) (file_frag_idx i \<noteq> FRAGMENT_INVALID) = Inr n
        \<and> (0 < n \<longrightarrow> (\<exists>xs. i_block_sizes i = Some xs \<and> length xs = unat n))))"

lemma read_block_sizes_length: "read_block_sizes data off n = Inr xs \<Longrightarrow> length xs = n"
  by (induction n arbitrary: off xs) (auto simp: rbind_eq_Inr_iff)

lemma parse_block_list_length:
  "parse_block_list mem data fixed n = Inr (bs, k) \<Longrightarrow> 0 < n \<Longrightarrow> \<exists>xs. bs = Some xs \<and> length xs = unat n"
  by (auto simp: parse_block_list_def rbind_eq_Inr_iff dest: read_block_sizes_length split: if_splits)

lemma parse_file_block_list:
  assumes "parse_inode_file mem data (block_size (disk sb)) i = Inr (i', k)
    \<or> parse_inode_lfile mem data (block_size (disk sb)) i = Inr (i', k)"
  shows "block_list_ok sb i'"
  using assms
  by (auto simp: parse_inode_file_def parse_inode_lfile_def rbind_eq_Inr_iff block_list_ok_def union_defs
      dest: parse_block_list_length)

lemma parse_switch_type:
  "parse_inode_switch mem data bsize t i = Inr (i', k) \<Longrightarrow> i_type i' = i_type i"
  by (cases t) (auto simp: parse_inode_switch_def parse_inode_dir_def parse_inode_ldir_def parse_inode_file_def
      parse_inode_lfile_def parse_inode_symlink_def parse_inode_lsymlink_def parse_inode_dev_def
      parse_inode_ipc_def rbind_eq_Inr_iff Let_def union_defs split: if_splits)

lemma parse_inode_block_list:
  assumes "parse_inode mem data (block_size (disk sb)) = Inr i"
  shows "block_list_ok sb i"
proof (cases "sqfs_inode_is_file (i_type i)")
  case False
  then show ?thesis by (simp add: block_list_ok_def)
next
  case True
  from assms obtain t j k where run: "parse_inode_switch mem data (block_size (disk sb)) t j = Inr (i, k)"
    and "i_type j = t"
    by (auto simp: parse_inode_def rbind_eq_Inr_iff new_inode_def split: if_splits option.splits)
  with parse_switch_type [OF run] True have "t = SQFS_INODE_FILE \<or> t = SQFS_INODE_LFILE"
    by (simp add: sqfs_inode_is_file_def)
  with run show ?thesis by (auto simp: parse_inode_switch_def intro: parse_file_block_list)
qed

lemma loaded_block_list:
  "sqfs_inode_get_by_ref mem ctx ref = Inr i \<Longrightarrow> block_list_ok (ctx_sb ctx) i"
  by (auto simp: sqfs_inode_get_by_ref_def rbind_eq_Inr_iff Let_def split: option.splits if_splits
      intro: parse_inode_block_list)

lemma block_count_sizes:
  assumes "sqfs_file_ctx_init sb i = Inr fc" and "block_list_ok sb i" and "k < fc_block_count fc"
  obtains xs where "fc_block_sizes fc = Some xs" and "length xs = unat (fc_block_count fc)" and "unat k < length xs"
proof -
  note F = file_ctx_init_fields [OF assms(1)]
  have "0 < fc_block_count fc" using assms(3) by (rule le_less_trans [rotated]) simp
  with assms(2) F(1,7) file_ctx_block_count [OF assms(1)] obtain xs where
    "fc_block_sizes fc = Some xs" "length xs = unat (fc_block_count fc)" by (auto simp: block_list_ok_def)
  with that assms(3) show ?thesis by (simp add: word_less_nat_alt)
qed

lemma block_location_safe:
  assumes "sqfs_file_ctx_init sb i = Inr fc" and "block_list_ok sb i"
  shows "safe (sqfs_file_block_location fc k)"
proof (cases "k < fc_block_count fc")
  case True
  from block_count_sizes [OF assms True] obtain xs where "fc_block_sizes fc = Some xs" "unat k < length xs" by metis
  then show ?thesis using True by (simp add: sqfs_file_block_location_def not_le [symmetric])
qed (simp add: sqfs_file_block_location_def not_less)

section \<open>Positions\<close>

lemma blocks_end_Nil [simp]: "blocks_end start [] = start"
  by (simp add: blocks_end_def)

lemma blocks_end_Cons: "blocks_end start (s # ss) = blocks_end (start + ucast (sqfs_block_size_get s)) ss"
  by (simp add: blocks_end_def)

lemma blocks_end_snoc: "blocks_end start (ss @ [s]) = blocks_end start ss + ucast (sqfs_block_size_get s)"
  by (simp add: blocks_end_def)

lemma blocks_end_sum:
  assumes "unat start + (\<Sum>s \<leftarrow> ss. unat (sqfs_block_size_get s)) < 2 ^ 64"
  shows "unat (blocks_end start ss) = unat start + (\<Sum>s \<leftarrow> ss. unat (sqfs_block_size_get s))"
  using assms
proof (induction ss arbitrary: start)
  case (Cons s ss)
  have "unat (start + ucast (sqfs_block_size_get s)) = unat start + unat (sqfs_block_size_get s)"
    using Cons.prems unat_add_of_nat [of start "unat (sqfs_block_size_get s)"] by simp
  with Cons show ?case by (simp add: blocks_end_Cons)
qed simp

lemma block_location_value:
  assumes "fc_block_sizes fc = Some xs" and "length xs = unat (fc_block_count fc)" and "unat k < length xs"
  shows "sqfs_file_block_location fc k =
    (if xs ! unat k = 0 then Inr (0, 0, False)
     else Inr (blocks_end (fc_blocks_start fc) (take (unat k) xs), xs ! unat k,
            sqfs_block_is_uncompressed (xs ! unat k)))"
  using assms by (simp add: sqfs_file_block_location_def word_le_nat_alt)

end
