(* ===== verification/Cache.thy ===== *)
theory Cache
  imports Utils
begin

text \<open>
  \<open>src/core/cache.h\<close> and \<open>src/core/cache.c\<close>: the LRU cache, a hash table with separate chaining
  whose entries are also nodes of a doubly linked list.

  The entries live in a heap of their own, a map from references to entries; the links are
  optional references, \<open>None\<close> being the null pointer, and a dereference of a reference that is
  not live is a fault. A loop that follows links is a partial function, whose result \<open>None\<close>
  says that it never ends. The lock only delimits the atomic steps and has no state here;
  \<open>c_freed\<close> records the values handed to the free function, in order, and \<open>c_tables\<close> counts the
  bucket tables that are allocated and not freed.
\<close>

section \<open>State\<close>

type_synonym ref = nat
type_synonym cache_key = u64

record 'v cache_entry =
  ce_key :: cache_key
  ce_value :: 'v
  ce_memory_size :: u64
  ce_prev :: "ref option"
  ce_next :: "ref option"
  ce_hnext :: "ref option"

record 'v sqfs_cache =
  c_max_entries :: u64
  c_current_entries :: u64
  c_max_memory :: u64
  c_current_memory :: u64
  c_head :: "ref option"
  c_tail :: "ref option"
  c_free_fn :: bool
  c_buckets :: "ref option list option"
  c_bucket_count :: u64
  c_bucket_mask :: u64
  c_hits :: u64
  c_misses :: u64
  c_heap :: "ref \<rightharpoonup> 'v cache_entry"
  c_freed :: "'v list"
  c_tables :: nat

text \<open>The structure after \<open>memset(cache, 0, sizeof(*cache))\<close>.\<close>

definition zero_cache :: "'v sqfs_cache" where
  "zero_cache = \<lparr>c_max_entries = 0, c_current_entries = 0, c_max_memory = 0, c_current_memory = 0,
     c_head = None, c_tail = None, c_free_fn = False, c_buckets = None, c_bucket_count = 0,
     c_bucket_mask = 0, c_hits = 0, c_misses = 0, c_heap = Map.empty, c_freed = [], c_tables = 0\<rparr>"

type_synonym 'a cres = "errno failure + 'a"

text \<open>Results of code with loops over links.\<close>

type_synonym 'a lres = "'a cres option"

definition lbind :: "('e + 'a) option \<Rightarrow> ('a \<Rightarrow> ('e + 'b) option) \<Rightarrow> ('e + 'b) option" where
  "lbind m f = (case m of None \<Rightarrow> None | Some (Inl e) \<Rightarrow> Some (Inl e) | Some (Inr x) \<Rightarrow> f x)"

lemma lbind_simps [simp]:
  "lbind None f = None"
  "lbind (Some (Inl e)) f = Some (Inl e)"
  "lbind (Some (Inr x)) f = f x"
  by (simp_all add: lbind_def)

section \<open>Hashing\<close>

text \<open>FNV-1a over the eight bytes of the key, most significant first.\<close>

definition fnv_step :: "u64 \<Rightarrow> u64 \<Rightarrow> u64" where
  "fnv_step hash b = (hash XOR b) * 1099511628211"

definition cache_hash :: "cache_key \<Rightarrow> u64" where
  "cache_hash key =
     fold (\<lambda>s hash. fnv_step hash (drop_bit s key AND 0xFF)) [56, 48, 40, 32, 24, 16, 8, 0]
       14695981039346656037"

definition bucket_index :: "'v sqfs_cache \<Rightarrow> cache_key \<Rightarrow> nat" where
  "bucket_index c key = unat (cache_hash key AND c_bucket_mask c)"

definition get_bucket :: "'v sqfs_cache \<Rightarrow> nat \<Rightarrow> ref option cres" where
  "get_bucket c idx =
     (case c_buckets c of
        None \<Rightarrow> Inl (Fault Null_Deref)
      | Some bs \<Rightarrow> if idx < length bs then Inr (bs ! idx) else Inl (Fault OOB_Read))"

definition set_bucket :: "'v sqfs_cache \<Rightarrow> nat \<Rightarrow> ref option \<Rightarrow> 'v sqfs_cache cres" where
  "set_bucket c idx p =
     (case c_buckets c of
        None \<Rightarrow> Inl (Fault Null_Deref)
      | Some bs \<Rightarrow> if idx < length bs then Inr (c\<lparr>c_buckets := Some (bs[idx := p])\<rparr>)
                 else Inl (Fault OOB_Write))"

text \<open>\<open>free\<close> of a table, which may be the null pointer.\<close>

definition free_table :: "ref option list option \<Rightarrow> 'v sqfs_cache \<Rightarrow> 'v sqfs_cache" where
  "free_table t c = (case t of None \<Rightarrow> c | Some _ \<Rightarrow> c\<lparr>c_tables := c_tables c - 1\<rparr>)"

section \<open>Entries\<close>

definition deref :: "'v sqfs_cache \<Rightarrow> ref \<Rightarrow> 'v cache_entry cres" where
  "deref c r = (case c_heap c r of None \<Rightarrow> Inl (Fault Wild_Pointer) | Some e \<Rightarrow> Inr e)"

definition update_entry ::
  "'v sqfs_cache \<Rightarrow> ref \<Rightarrow> ('v cache_entry \<Rightarrow> 'v cache_entry) \<Rightarrow> 'v sqfs_cache cres" where
  "update_entry c r f = rbind (deref c r) (\<lambda>e. Inr (c\<lparr>c_heap := (c_heap c)(r \<mapsto> f e)\<rparr>))"

text \<open>\<open>malloc\<close> as the cache sees it: a reference that is not live, or none.\<close>

type_synonym 'v entry_alloc = "(ref \<rightharpoonup> 'v cache_entry) \<Rightarrow> ref option"

definition cache_entry_new ::
  "'v entry_alloc \<Rightarrow> 'v sqfs_cache \<Rightarrow> cache_key \<Rightarrow> 'v \<Rightarrow> u64 \<Rightarrow> ('v sqfs_cache \<times> ref) option" where
  "cache_entry_new alloc c key v sz =
     (case alloc (c_heap c) of
        None \<Rightarrow> None
      | Some r \<Rightarrow> Some (c\<lparr>c_heap := (c_heap c)(r \<mapsto> \<lparr>ce_key = key, ce_value = v, ce_memory_size = sz,
          ce_prev = None, ce_next = None, ce_hnext = None\<rparr>)\<rparr>, r))"

definition free_value :: "'v sqfs_cache \<Rightarrow> 'v \<Rightarrow> 'v sqfs_cache" where
  "free_value c v = (if c_free_fn c then c\<lparr>c_freed := c_freed c @ [v]\<rparr> else c)"

definition cache_entry_free :: "'v sqfs_cache \<Rightarrow> ref \<Rightarrow> 'v sqfs_cache cres" where
  "cache_entry_free c r =
     rbind (deref c r) (\<lambda>e. Inr ((free_value c (ce_value e))\<lparr>c_heap := (c_heap c)(r := None)\<rparr>))"

section \<open>The list\<close>

definition lru_insert_head :: "'v sqfs_cache \<Rightarrow> ref \<Rightarrow> 'v sqfs_cache cres" where
  "lru_insert_head c r =
     rbind (update_entry c r (\<lambda>e. e\<lparr>ce_prev := None, ce_next := c_head c\<rparr>)) (\<lambda>c.
       rbind (case c_head c of
                Some h \<Rightarrow> update_entry c h (\<lambda>e. e\<lparr>ce_prev := Some r\<rparr>)
              | None \<Rightarrow> Inr (c\<lparr>c_tail := Some r\<rparr>)) (\<lambda>c.
         Inr (c\<lparr>c_head := Some r\<rparr>)))"

definition lru_remove :: "'v sqfs_cache \<Rightarrow> ref \<Rightarrow> 'v sqfs_cache cres" where
  "lru_remove c r =
     rbind (deref c r) (\<lambda>e.
     rbind (case ce_prev e of
              Some p \<Rightarrow> update_entry c p (\<lambda>q. q\<lparr>ce_next := ce_next e\<rparr>)
            | None \<Rightarrow> Inr (c\<lparr>c_head := ce_next e\<rparr>)) (\<lambda>c.
     rbind (deref c r) (\<lambda>e.
     rbind (case ce_next e of
              Some n \<Rightarrow> update_entry c n (\<lambda>q. q\<lparr>ce_prev := ce_prev e\<rparr>)
            | None \<Rightarrow> Inr (c\<lparr>c_tail := ce_prev e\<rparr>)) (\<lambda>c.
       update_entry c r (\<lambda>e. e\<lparr>ce_prev := None, ce_next := None\<rparr>)))))"

definition lru_move_to_head :: "'v sqfs_cache \<Rightarrow> ref \<Rightarrow> 'v sqfs_cache cres" where
  "lru_move_to_head c r =
     (if c_head c = Some r then Inr c
      else rbind (lru_remove c r) (\<lambda>c. lru_insert_head c r))"

section \<open>The hash table\<close>

partial_function (option) find_in_chain ::
  "'v sqfs_cache \<Rightarrow> ref option \<Rightarrow> cache_key \<Rightarrow> ref option lres" where
  "find_in_chain c p key =
     (case p of
        None \<Rightarrow> Some (Inr None)
      | Some r \<Rightarrow>
          (case deref c r of
             Inl e \<Rightarrow> Some (Inl e)
           | Inr e \<Rightarrow> if ce_key e = key then Some (Inr (Some r)) else find_in_chain c (ce_hnext e) key))"

definition hash_find :: "'v sqfs_cache \<Rightarrow> cache_key \<Rightarrow> ref option lres" where
  "hash_find c key =
     (case get_bucket c (bucket_index c key) of
        Inl e \<Rightarrow> Some (Inl e)
      | Inr p \<Rightarrow> find_in_chain c p key)"

definition hash_insert :: "'v sqfs_cache \<Rightarrow> ref \<Rightarrow> 'v sqfs_cache cres" where
  "hash_insert c r =
     rbind (deref c r) (\<lambda>e.
     rbind (get_bucket c (bucket_index c (ce_key e))) (\<lambda>p.
     rbind (update_entry c r (\<lambda>e. e\<lparr>ce_hnext := p\<rparr>)) (\<lambda>c.
       set_bucket c (bucket_index c (ce_key e)) (Some r))))"

partial_function (option) remove_from_chain ::
  "'v sqfs_cache \<Rightarrow> nat \<Rightarrow> ref option \<Rightarrow> ref option \<Rightarrow> cache_key \<Rightarrow> 'v sqfs_cache lres" where
  "remove_from_chain c idx prev p key =
     (case p of
        None \<Rightarrow> Some (Inr c)
      | Some r \<Rightarrow>
          (case deref c r of
             Inl e \<Rightarrow> Some (Inl e)
           | Inr e \<Rightarrow>
               if ce_key e = key then
                 Some (rbind (case prev of
                                Some q \<Rightarrow> update_entry c q (\<lambda>x. x\<lparr>ce_hnext := ce_hnext e\<rparr>)
                              | None \<Rightarrow> set_bucket c idx (ce_hnext e)) (\<lambda>c.
                         update_entry c r (\<lambda>x. x\<lparr>ce_hnext := None\<rparr>)))
               else remove_from_chain c idx (Some r) (ce_hnext e) key))"

definition hash_remove :: "'v sqfs_cache \<Rightarrow> cache_key \<Rightarrow> 'v sqfs_cache lres" where
  "hash_remove c key =
     (case get_bucket c (bucket_index c key) of
        Inl e \<Rightarrow> Some (Inl e)
      | Inr p \<Rightarrow> remove_from_chain c (bucket_index c key) None p key)"

section \<open>Resizing and evicting\<close>

text \<open>The walk over the list that pushes every entry on its chain in the new table.\<close>

partial_function (option) rehash_loop :: "'v sqfs_cache \<Rightarrow> ref option \<Rightarrow> 'v sqfs_cache lres" where
  "rehash_loop c p =
     (case p of
        None \<Rightarrow> Some (Inr c)
      | Some r \<Rightarrow>
          (case rbind (hash_insert c r) (\<lambda>c. rbind (deref c r) (\<lambda>e. Inr (c, ce_next e))) of
             Inl e \<Rightarrow> Some (Inl e)
           | Inr (c, next) \<Rightarrow> rehash_loop c next))"

text \<open>The load factor test is done in floating point, which is exact below \<open>2\<^sup>5\<^sup>3\<close>; the flag says
  whether the allocation of the new table succeeds, and its failure is ignored by the caller.\<close>

definition cache_resize_if_needed :: "bool \<Rightarrow> 'v sqfs_cache \<Rightarrow> 'v sqfs_cache lres" where
  "cache_resize_if_needed table_ok c =
     (if 4 * unat (c_current_entries c) \<le> 3 * unat (c_bucket_count c) then Some (Inr c)
      else let new_count = c_bucket_count c * 2
           in if new_count < c_bucket_count c then Some (Inr c)
              else if \<not> table_ok then Some (Inr c)
              else let old_buckets = c_buckets c
                   in lbind (rehash_loop (c\<lparr>c_buckets := Some (replicate (unat new_count) None),
                          c_bucket_count := new_count, c_bucket_mask := new_count - 1,
                          c_tables := c_tables c + 1\<rparr>) (c_head c))
                        (\<lambda>c. Some (Inr (free_table old_buckets c))))"

text \<open>The common end of an eviction and a removal: out of the table, out of the list, off the
  counters, freed.\<close>

definition release_entry :: "'v sqfs_cache \<Rightarrow> cache_key \<Rightarrow> ref \<Rightarrow> 'v sqfs_cache lres" where
  "release_entry c key r =
     lbind (hash_remove c key) (\<lambda>c.
       Some (rbind (lru_remove c r) (\<lambda>c.
             rbind (deref c r) (\<lambda>e.
               cache_entry_free (c\<lparr>c_current_entries := c_current_entries c - 1,
                 c_current_memory := c_current_memory c - ce_memory_size e\<rparr>) r))))"

definition evict_tail :: "'v sqfs_cache \<Rightarrow> ref \<Rightarrow> 'v sqfs_cache lres" where
  "evict_tail c victim = lbind (Some (deref c victim)) (\<lambda>e. release_entry c (ce_key e) victim)"

partial_function (option) cache_evict :: "'v sqfs_cache \<Rightarrow> u64 \<Rightarrow> 'v sqfs_cache lres" where
  "cache_evict c memory_needed =
     (case c_tail c of
        None \<Rightarrow> Some (Inr c)
      | Some victim \<Rightarrow>
          if c_current_entries c < c_max_entries c
             \<and> c_current_memory c + memory_needed \<le> c_max_memory c
          then Some (Inr c)
          else (case evict_tail c victim of
                  None \<Rightarrow> None
                | Some r \<Rightarrow> (case r of Inl e \<Rightarrow> Some (Inl e) | Inr c \<Rightarrow> cache_evict c memory_needed)))"

section \<open>Operations\<close>

text \<open>The loop that doubles the bucket count up to the number of entries.\<close>

function initial_buckets :: "nat \<Rightarrow> nat \<Rightarrow> nat" where
  "initial_buckets bucket_count max_entries =
     (if 0 < bucket_count \<and> bucket_count < max_entries \<and> bucket_count < 65536
      then initial_buckets (bucket_count * 2) max_entries else bucket_count)"
  by pat_completeness auto
termination by (relation "measure (\<lambda>(b, m). 65536 - b)") auto

declare initial_buckets.simps [simp del]

text \<open>The two flags are the outcomes of \<open>pthread_rwlock_init\<close> and \<open>calloc\<close>. A failure without
  \<open>errno\<close> of its own is \<open>ENOMEM\<close>. The heap, the log of freed values and the count of tables are
  the process's, not the structure's.\<close>

definition sqfs_cache_init ::
  "bool \<Rightarrow> bool \<Rightarrow> u64 \<Rightarrow> u64 \<Rightarrow> bool \<Rightarrow> 'v sqfs_cache cres" where
  "sqfs_cache_init lock_ok table_ok max_entries max_memory free_fn =
     (if max_entries = 0 then Inl (Err EINVAL)
      else if \<not> lock_ok then Inl (Err ENOMEM)
      else let bucket_count = initial_buckets 64 (unat max_entries)
           in if \<not> table_ok then Inl (Err ENOMEM)
              else Inr (zero_cache\<lparr>c_max_entries := max_entries, c_max_memory := max_memory,
                     c_free_fn := free_fn, c_buckets := Some (replicate bucket_count None),
                     c_bucket_count := of_nat bucket_count, c_bucket_mask := of_nat bucket_count - 1,
                     c_tables := 1\<rparr>))"

partial_function (option) free_all :: "'v sqfs_cache \<Rightarrow> ref option \<Rightarrow> 'v sqfs_cache lres" where
  "free_all c p =
     (case p of
        None \<Rightarrow> Some (Inr c)
      | Some r \<Rightarrow>
          (case rbind (deref c r) (\<lambda>e. rbind (cache_entry_free c r) (\<lambda>c. Inr (c, ce_next e))) of
             Inl e \<Rightarrow> Some (Inl e)
           | Inr (c, next) \<Rightarrow> free_all c next))"

definition sqfs_cache_destroy :: "'v sqfs_cache \<Rightarrow> 'v sqfs_cache lres" where
  "sqfs_cache_destroy c =
     lbind (free_all c (c_head c)) (\<lambda>c.
       let c = free_table (c_buckets c) c
       in Some (Inr (zero_cache\<lparr>c_heap := c_heap c, c_freed := c_freed c, c_tables := c_tables c\<rparr>)))"

text \<open>\<open>sqfs_cache_get\<close> under the read lock, and the step it takes after it has exchanged the read
  lock for the write lock; in between other threads may run.\<close>

definition cache_get_find :: "'v sqfs_cache \<Rightarrow> cache_key \<Rightarrow> ('v option \<times> 'v sqfs_cache) lres" where
  "cache_get_find c key =
     lbind (hash_find c key) (\<lambda>r. case r of
         None \<Rightarrow> Some (Inr (None, c\<lparr>c_misses := c_misses c + 1\<rparr>))
       | Some r \<Rightarrow> Some (rbind (deref c r) (\<lambda>e. Inr (Some (ce_value e), c\<lparr>c_hits := c_hits c + 1\<rparr>))))"

definition cache_get_touch :: "'v sqfs_cache \<Rightarrow> cache_key \<Rightarrow> 'v sqfs_cache lres" where
  "cache_get_touch c key =
     lbind (hash_find c key) (\<lambda>r. case r of
         None \<Rightarrow> Some (Inr c)
       | Some r \<Rightarrow> Some (lru_move_to_head c r))"

definition sqfs_cache_get :: "'v sqfs_cache \<Rightarrow> cache_key \<Rightarrow> ('v option \<times> 'v sqfs_cache) lres" where
  "sqfs_cache_get c key =
     lbind (cache_get_find c key) (\<lambda>(v, c).
       case v of
         None \<Rightarrow> Some (Inr (None, c))
       | Some v \<Rightarrow> lbind (cache_get_touch c key) (\<lambda>c. Some (Inr (Some v, c))))"

text \<open>\<open>value = None\<close> is a null pointer. The first component is the error the code returns (with
  \<open>errno\<close>), the second the cache afterwards.\<close>

definition sqfs_cache_put ::
  "'v entry_alloc \<Rightarrow> bool \<Rightarrow> 'v sqfs_cache \<Rightarrow> cache_key \<Rightarrow> 'v option \<Rightarrow> u64 \<Rightarrow>
   (errno option \<times> 'v sqfs_cache) lres" where
  "sqfs_cache_put alloc table_ok c key v memory_size =
     (case v of
        None \<Rightarrow> Some (Inr (Some EINVAL, c))
      | Some v \<Rightarrow>
          if c_max_memory c < memory_size then Some (Inr (Some E2BIG, c))
          else lbind (hash_find c key) (\<lambda>existing. case existing of
              Some r \<Rightarrow>
                Some (rbind (deref c r) (\<lambda>e.
                      rbind (update_entry (free_value (c\<lparr>c_current_memory :=
                               c_current_memory c - ce_memory_size e + memory_size\<rparr>) (ce_value e)) r
                             (\<lambda>e. e\<lparr>ce_value := v, ce_memory_size := memory_size\<rparr>)) (\<lambda>c.
                      rbind (lru_move_to_head c r) (\<lambda>c. Inr (None, c)))))
            | None \<Rightarrow>
                lbind (cache_evict c memory_size) (\<lambda>c.
                  if c_max_entries c \<le> c_current_entries c then Some (Inr (Some ENOSPC, c))
                  else case cache_entry_new alloc c key v memory_size of
                      None \<Rightarrow> Some (Inr (Some ENOMEM, c))
                    | Some (c, r) \<Rightarrow>
                        lbind (Some (rbind (hash_insert c r) (\<lambda>c. lru_insert_head c r))) (\<lambda>c.
                        lbind (cache_resize_if_needed table_ok
                            (c\<lparr>c_current_entries := c_current_entries c + 1,
                               c_current_memory := c_current_memory c + memory_size\<rparr>)) (\<lambda>c.
                          Some (Inr (None, c)))))))"

definition sqfs_cache_remove :: "'v sqfs_cache \<Rightarrow> cache_key \<Rightarrow> 'v sqfs_cache lres" where
  "sqfs_cache_remove c key =
     lbind (hash_find c key) (\<lambda>r. case r of
         None \<Rightarrow> Some (Inr c)
       | Some r \<Rightarrow> release_entry c key r)"

text \<open>The \<open>memset\<close> of the table writes through \<open>buckets\<close>; it has no effect when the count is 0.\<close>

definition sqfs_cache_clear :: "'v sqfs_cache \<Rightarrow> 'v sqfs_cache lres" where
  "sqfs_cache_clear c =
     lbind (free_all c (c_head c)) (\<lambda>c.
       if c_buckets c = None \<and> 0 < c_bucket_count c then Some (Inl (Fault Null_Deref))
       else Some (Inr (c\<lparr>c_buckets := map_option (\<lambda>bs. replicate (unat (c_bucket_count c)) None) (c_buckets c),
              c_head := None, c_tail := None, c_current_entries := 0, c_current_memory := 0\<rparr>)))"

definition sqfs_cache_hits :: "'v sqfs_cache \<Rightarrow> u64" where "sqfs_cache_hits c = c_hits c"
definition sqfs_cache_misses :: "'v sqfs_cache \<Rightarrow> u64" where "sqfs_cache_misses c = c_misses c"
definition sqfs_cache_entries :: "'v sqfs_cache \<Rightarrow> u64" where "sqfs_cache_entries c = c_current_entries c"
definition sqfs_cache_memory :: "'v sqfs_cache \<Rightarrow> u64" where "sqfs_cache_memory c = c_current_memory c"

text \<open>The configured limits.\<close>

definition CACHE_INODE_MAX_ENTRIES :: u64 where "CACHE_INODE_MAX_ENTRIES = 1024"
definition CACHE_INODE_MAX_MEMORY :: u64 where "CACHE_INODE_MAX_MEMORY = 4 * 1024 * 1024"
definition CACHE_DIR_MAX_ENTRIES :: u64 where "CACHE_DIR_MAX_ENTRIES = 512"
definition CACHE_DIR_MAX_MEMORY :: u64 where "CACHE_DIR_MAX_MEMORY = 2 * 1024 * 1024"
definition CACHE_META_MAX_ENTRIES :: u64 where "CACHE_META_MAX_ENTRIES = 256"
definition CACHE_META_MAX_MEMORY :: u64 where "CACHE_META_MAX_MEMORY = 8 * 1024 * 1024"
definition CACHE_DATA_MAX_ENTRIES :: u64 where "CACHE_DATA_MAX_ENTRIES = 128"
definition CACHE_DATA_MAX_MEMORY :: u64 where "CACHE_DATA_MAX_MEMORY = 16 * 1024 * 1024"

end
