(* ===== verification/CacheLinks.thy ===== *)
theory CacheLinks
  imports Cache
begin

text \<open>
  The two link structures of the cache, each with the operations that change it: the doubly
  linked list against the list of its references, the hash chains against the set of the
  references they hold. An operation on one structure leaves the fields of the other alone,
  which is stated with three views of the heap.
\<close>

section \<open>Views\<close>

definition key_view :: "(ref \<rightharpoonup> 'v cache_entry) \<Rightarrow> ref \<Rightarrow> (cache_key \<times> 'v \<times> u64) option" where
  "key_view h r = map_option (\<lambda>e. (ce_key e, ce_value e, ce_memory_size e)) (h r)"

definition link_view :: "(ref \<rightharpoonup> 'v cache_entry) \<Rightarrow> ref \<Rightarrow> (ref option \<times> ref option) option" where
  "link_view h r = map_option (\<lambda>e. (ce_prev e, ce_next e)) (h r)"

definition hnext_view :: "(ref \<rightharpoonup> 'v cache_entry) \<Rightarrow> ref \<Rightarrow> ref option option" where
  "hnext_view h r = map_option ce_hnext (h r)"

lemmas view_defs = key_view_def link_view_def hnext_view_def

named_theorems views \<comment> \<open>updates that leave a view alone\<close>

lemma key_view_upd [views]:
  "h r = Some e \<Longrightarrow> ce_key e' = ce_key e \<Longrightarrow> ce_value e' = ce_value e \<Longrightarrow>
     ce_memory_size e' = ce_memory_size e \<Longrightarrow> key_view (h(r \<mapsto> e')) = key_view h"
  by (auto simp: key_view_def fun_eq_iff)

lemma link_view_upd [views]:
  "h r = Some e \<Longrightarrow> ce_prev e' = ce_prev e \<Longrightarrow> ce_next e' = ce_next e \<Longrightarrow>
     link_view (h(r \<mapsto> e')) = link_view h"
  by (auto simp: link_view_def fun_eq_iff)

lemma hnext_view_upd [views]:
  "h r = Some e \<Longrightarrow> ce_hnext e' = ce_hnext e \<Longrightarrow> hnext_view (h(r \<mapsto> e')) = hnext_view h"
  by (auto simp: hnext_view_def fun_eq_iff)

lemma view_None [simp]:
  "key_view h r = None \<longleftrightarrow> h r = None"
  "link_view h r = None \<longleftrightarrow> h r = None"
  "hnext_view h r = None \<longleftrightarrow> h r = None"
  by (simp_all add: view_defs)

lemma view_live:
  assumes "key_view h = key_view h'"
  shows "h r = None \<longleftrightarrow> h' r = None"
proof -
  have "key_view h r = None \<longleftrightarrow> key_view h' r = None" by (simp only: assms)
  then show ?thesis by simp
qed

lemma key_view_dom: "key_view h = key_view h' \<Longrightarrow> dom h = dom h'"
  unfolding dom_def by (simp only: view_live [of h h'] simp_thms)

lemma deref_Some [simp]: "c_heap c r = Some e \<Longrightarrow> deref c r = Inr e"
  by (simp add: deref_def)

lemma update_entry_Some [simp]:
  "c_heap c r = Some e \<Longrightarrow> update_entry c r f = Inr (c\<lparr>c_heap := (c_heap c)(r \<mapsto> f e)\<rparr>)"
  by (simp add: update_entry_def)

section \<open>The doubly linked list\<close>

definition hd_opt :: "'a list \<Rightarrow> 'a option" where
  "hd_opt xs = (case xs of [] \<Rightarrow> None | x # _ \<Rightarrow> Some x)"

definition last_opt :: "'a list \<Rightarrow> 'a option" where
  "last_opt xs = (if xs = [] then None else Some (last xs))"

lemma hd_opt_simps [simp]: "hd_opt [] = None" "hd_opt (x # xs) = Some x"
  by (simp_all add: hd_opt_def)

lemma last_opt_simps [simp]: "last_opt [] = None" "last_opt (xs @ [x]) = Some x"
  "last_opt (xs @ y # ys) = last_opt (y # ys)" "last_opt (x # y # ys) = last_opt (y # ys)"
  "last_opt [x] = Some x"
  by (simp_all add: last_opt_def)

lemma hd_opt_append: "hd_opt (xs @ ys) = (if xs = [] then hd_opt ys else hd_opt xs)"
  by (cases xs) simp_all

text \<open>Every node points to its neighbours in the list, whatever the split.\<close>

definition linked :: "(ref \<rightharpoonup> 'v cache_entry) \<Rightarrow> ref list \<Rightarrow> bool" where
  "linked h ps \<longleftrightarrow> (\<forall>xs r ys. ps = xs @ r # ys \<longrightarrow> link_view h r = Some (last_opt xs, hd_opt ys))"

definition dll :: "'v sqfs_cache \<Rightarrow> ref list \<Rightarrow> bool" where
  "dll c ps \<longleftrightarrow> distinct ps \<and> linked (c_heap c) ps \<and> c_head c = hd_opt ps \<and> c_tail c = last_opt ps"

lemma linkedD: "linked h (xs @ r # ys) \<Longrightarrow> link_view h r = Some (last_opt xs, hd_opt ys)"
  by (simp add: linked_def)

lemma linked_live: "linked h ps \<Longrightarrow> r \<in> set ps \<Longrightarrow> h r \<noteq> None"
  by (metis linkedD option.distinct(1) split_list view_None(2))

lemma linked_Cons:
  "linked h (r # ps) \<longleftrightarrow> link_view h r = Some (None, hd_opt ps)
     \<and> (\<forall>xs q ys. ps = xs @ q # ys \<longrightarrow> link_view h q = Some (last_opt (r # xs), hd_opt ys))"
  (is "_ \<longleftrightarrow> ?rhs")
proof
  assume l: "linked h (r # ps)"
  have "link_view h q = Some (last_opt (r # xs), hd_opt ys)" if "ps = xs @ q # ys" for xs q ys
    using l that linkedD [of h "r # xs" q ys] by simp
  then show ?rhs using linkedD [of h "[]" r ps] l by simp
next
  assume rhs: ?rhs
  show "linked h (r # ps)"
    unfolding linked_def
  proof (intro allI impI)
    fix xs q ys assume "r # ps = xs @ q # ys"
    then show "link_view h q = Some (last_opt xs, hd_opt ys)"
      using rhs by (cases xs) auto
  qed
qed

lemma last_opt_Cons: "last_opt (r # xs) = (if xs = [] then Some r else last_opt xs)"
  by (simp add: last_opt_def)

lemma lru_insert_head_ok:
  assumes dll: "dll c ps" and r: "r \<notin> set ps" "c_heap c r \<noteq> None"
  shows "\<exists>h t. lru_insert_head c r = Inr (c\<lparr>c_heap := h, c_head := Some r, c_tail := t\<rparr>)
    \<and> key_view h = key_view (c_heap c) \<and> hnext_view h = hnext_view (c_heap c)
    \<and> dll (c\<lparr>c_heap := h, c_head := Some r, c_tail := t\<rparr>) (r # ps)"
proof -
  obtain e where e: "c_heap c r = Some e" using r by auto
  define e' where "e' = e\<lparr>ce_prev := None, ce_next := c_head c\<rparr>"
  show ?thesis
  proof (cases ps)
    case Nil
    with dll e show ?thesis
      by (intro exI [of _ "(c_heap c)(r \<mapsto> e')"] exI [of _ "Some r"])
        (auto simp: lru_insert_head_def dll_def linked_Cons link_view_def views e'_def)
  next
    case (Cons q qs)
    from dll Cons have hd: "c_head c = Some q" and lq: "linked (c_heap c) (q # qs)"
      by (simp_all add: dll_def)
    from linked_live [OF lq, of q] obtain f where f: "c_heap c q = Some f" by auto
    have neq: "q \<noteq> r" using r Cons by auto
    define f' where "f' = f\<lparr>ce_prev := Some r\<rparr>"
    define h where "h = (c_heap c)(r \<mapsto> e', q \<mapsto> f')"
    have kv: "key_view h = key_view (c_heap c)" and hv: "hnext_view h = hnext_view (c_heap c)"
      using e f neq by (simp_all add: h_def e'_def f'_def key_view_def hnext_view_def fun_eq_iff)
    have qs: "link_view h x = Some (last_opt (r # q # xs), hd_opt ys)" if "qs = xs @ x # ys" for xs x ys
    proof -
      have "x \<noteq> q" "x \<noteq> r" using that dll r Cons by (auto simp: dll_def)
      then have "link_view h x = link_view (c_heap c) x" by (simp add: h_def link_view_def)
      with linkedD [of "c_heap c" "q # xs" x ys] lq that show ?thesis by simp
    qed
    have "link_view (c_heap c) q = Some (None, hd_opt qs)" using lq by (simp add: linked_Cons)
    then have lvq: "link_view h q = Some (Some r, hd_opt qs)" using f neq
      by (simp add: h_def link_view_def f'_def)
    have lvr: "link_view h r = Some (None, Some q)"
      using neq hd by (simp add: h_def link_view_def e'_def)
    have "linked h (r # ps)"
      unfolding linked_Cons Cons using lvr lvq qs
      by (auto simp: Cons_eq_append_conv)
    with dll r hd Cons e f neq kv hv show ?thesis
      by (intro exI [of _ h] exI [of _ "c_tail c"])
        (simp add: lru_insert_head_def dll_def h_def e'_def f'_def)
  qed
qed

text \<open>Unlinking a node: what the three assignments do to the links.\<close>

definition unlinked ::
  "(ref option \<times> ref option) \<Rightarrow> ref \<Rightarrow> (ref \<Rightarrow> (ref option \<times> ref option) option) \<Rightarrow>
   ref \<Rightarrow> (ref option \<times> ref option) option" where
  "unlinked pn r l x =
     (if x = r then Some (None, None)
      else if fst pn = Some x then map_option (\<lambda>(p, n). (p, snd pn)) (l x)
      else if snd pn = Some x then map_option (\<lambda>(p, n). (fst pn, n)) (l x)
      else l x)"

lemma last_opt_in: "last_opt xs = Some p \<Longrightarrow> p \<in> set xs"
  by (auto simp: last_opt_def split: if_splits)

lemma hd_opt_in: "hd_opt xs = Some p \<Longrightarrow> p \<in> set xs"
  by (cases xs) simp_all

lemma lru_remove_heap:
  assumes dll: "dll c (xs @ r # ys)"
  shows "\<exists>h. lru_remove c r = Inr (c\<lparr>c_heap := h, c_head := hd_opt (xs @ ys), c_tail := last_opt (xs @ ys)\<rparr>)
    \<and> key_view h = key_view (c_heap c) \<and> hnext_view h = hnext_view (c_heap c)
    \<and> link_view h = unlinked (last_opt xs, hd_opt ys) r (link_view (c_heap c))"
proof -
  have l: "linked (c_heap c) (xs @ r # ys)" and dist: "distinct (xs @ r # ys)"
    and hd: "c_head c = hd_opt (xs @ r # ys)" and tl: "c_tail c = last_opt (xs @ r # ys)"
    using dll by (simp_all add: dll_def)
  note live = linked_live [OF l]
  from linkedD [OF l] obtain e where e: "c_heap c r = Some e" "ce_prev e = last_opt xs" "ce_next e = hd_opt ys"
    by (auto simp: link_view_def)
  show ?thesis
  proof (cases "last_opt xs"; cases "hd_opt ys")
    assume a: "last_opt xs = None" "hd_opt ys = None"
    then have "xs = []" "ys = []" by (simp_all add: last_opt_def hd_opt_def split: if_splits list.splits)
    with a e hd tl show ?thesis
      by (intro exI [of _ "(c_heap c)(r \<mapsto> e\<lparr>ce_prev := None, ce_next := None\<rparr>)"])
        (simp add: lru_remove_def view_defs unlinked_def fun_eq_iff)
  next
    fix n assume a: "last_opt xs = None" "hd_opt ys = Some n"
    then have xs: "xs = []" by (simp add: last_opt_def split: if_splits)
    have n: "n \<in> set ys" "n \<noteq> r" using hd_opt_in [OF a(2)] dist by auto
    then obtain f where f: "c_heap c n = Some f" using live [of n] by auto
    have "last_opt (r # ys) = last_opt ys" using n(1) by (auto simp: last_opt_def)
    with a e f n xs hd tl show ?thesis
      by (intro exI [of _ "(c_heap c)(n \<mapsto> f\<lparr>ce_prev := None\<rparr>, r \<mapsto> e\<lparr>ce_prev := None, ce_next := None\<rparr>)"])
        (simp add: lru_remove_def view_defs unlinked_def fun_eq_iff)
  next
    fix p assume a: "last_opt xs = Some p" "hd_opt ys = None"
    then have ys: "ys = []" by (simp add: hd_opt_def split: list.splits)
    have p: "p \<in> set xs" "p \<noteq> r" using last_opt_in [OF a(1)] dist by auto
    then obtain f where f: "c_heap c p = Some f" using live [of p] by auto
    have "hd_opt (xs @ [r]) = hd_opt xs" using p(1) by (cases xs) simp_all
    with a e f p ys hd tl show ?thesis
      by (intro exI [of _ "(c_heap c)(p \<mapsto> f\<lparr>ce_next := None\<rparr>, r \<mapsto> e\<lparr>ce_prev := None, ce_next := None\<rparr>)"])
        (simp add: lru_remove_def view_defs unlinked_def fun_eq_iff)
  next
    fix p n assume a: "last_opt xs = Some p" "hd_opt ys = Some n"
    have p: "p \<in> set xs" "p \<noteq> r" using last_opt_in [OF a(1)] dist by auto
    have n: "n \<in> set ys" "n \<noteq> r" using hd_opt_in [OF a(2)] dist by auto
    have pn: "p \<noteq> n" using p n dist by auto
    obtain f where f: "c_heap c p = Some f" using live [of p] p by auto
    obtain g where g: "c_heap c n = Some g" using live [of n] n by auto
    have h1: "hd_opt (xs @ r # ys) = hd_opt (xs @ ys)" using p(1) by (cases xs) simp_all
    have t1: "last_opt (r # ys) = last_opt (xs @ ys)" using n(1) by (auto simp: last_opt_def)
    show ?thesis using a e f g p n pn hd tl h1 t1
      by (intro exI [of _ "(c_heap c)(p \<mapsto> f\<lparr>ce_next := Some n\<rparr>, n \<mapsto> g\<lparr>ce_prev := Some p\<rparr>,
          r \<mapsto> e\<lparr>ce_prev := None, ce_next := None\<rparr>)"])
        (auto simp add: lru_remove_def view_defs unlinked_def fun_eq_iff)
  qed
qed

lemma unlinked_linked:
  assumes l: "linked h (xs @ r # ys)" and dist: "distinct (xs @ r # ys)"
    and lv: "link_view h' = unlinked (last_opt xs, hd_opt ys) r (link_view h)"
  shows "linked h' (xs @ ys)"
  unfolding linked_def
proof (intro allI impI)
  fix us x vs assume split: "xs @ ys = us @ x # vs"
  have "x \<in> set (xs @ ys)" by (simp only: split) simp
  then have neq: "x \<noteq> r" using dist by auto
  from split consider (left) ws where "xs = us @ x # ws" "vs = ws @ ys"
    | (right) ws where "ys = ws @ x # vs" "us = xs @ ws"
    by (auto simp: append_eq_append_conv2 append_eq_Cons_conv Cons_eq_append_conv)
  then show "link_view h' x = Some (last_opt us, hd_opt vs)"
  proof cases
    case left
    have lx: "link_view h x = Some (last_opt us, hd_opt (ws @ r # ys))"
      using linkedD [of h us x "ws @ r # ys"] l left by simp
    have "hd_opt ys \<noteq> Some x" using hd_opt_in [of ys x] dist left by auto
    then show ?thesis using lx neq left dist
      by (cases ws rule: rev_cases) (auto simp: lv unlinked_def hd_opt_append last_opt_Cons)
  next
    case right
    have lx: "link_view h x = Some (last_opt (xs @ r # ws), hd_opt vs)"
      using linkedD [of h "xs @ r # ws" x vs] l right by simp
    have "last_opt xs \<noteq> Some x" using last_opt_in [of xs x] dist right by auto
    then show ?thesis using lx neq right dist
      by (cases ws) (auto simp: lv unlinked_def last_opt_Cons dest: hd_opt_in)
  qed
qed

lemma lru_remove_ok:
  assumes dll: "dll c (xs @ r # ys)"
  shows "\<exists>h hd tl. lru_remove c r = Inr (c\<lparr>c_heap := h, c_head := hd, c_tail := tl\<rparr>)
    \<and> key_view h = key_view (c_heap c) \<and> hnext_view h = hnext_view (c_heap c)
    \<and> dll (c\<lparr>c_heap := h, c_head := hd, c_tail := tl\<rparr>) (xs @ ys)"
  using lru_remove_heap [OF dll] unlinked_linked [of "c_heap c" xs r ys] dll
  by (fastforce simp: dll_def)

lemma lru_move_to_head_ok:
  assumes dll: "dll c (xs @ r # ys)"
  shows "\<exists>h hd tl. lru_move_to_head c r = Inr (c\<lparr>c_heap := h, c_head := hd, c_tail := tl\<rparr>)
    \<and> key_view h = key_view (c_heap c) \<and> hnext_view h = hnext_view (c_heap c)
    \<and> dll (c\<lparr>c_heap := h, c_head := hd, c_tail := tl\<rparr>) (r # xs @ ys)"
proof (cases "c_head c = Some r")
  case True
  then have "xs = []" using dll by (cases xs) (auto simp: dll_def)
  with True dll have "lru_move_to_head c r = Inr (c\<lparr>c_heap := c_heap c, c_head := c_head c, c_tail := c_tail c\<rparr>)
    \<and> dll (c\<lparr>c_heap := c_heap c, c_head := c_head c, c_tail := c_tail c\<rparr>) (r # xs @ ys)"
    by (simp add: lru_move_to_head_def) (simp add: dll_def)
  then show ?thesis by blast
next
  case False
  from lru_remove_ok [OF dll] obtain h hd tl where
    rm: "lru_remove c r = Inr (c\<lparr>c_heap := h, c_head := hd, c_tail := tl\<rparr>)"
    and v: "key_view h = key_view (c_heap c)" "hnext_view h = hnext_view (c_heap c)"
    and d: "dll (c\<lparr>c_heap := h, c_head := hd, c_tail := tl\<rparr>) (xs @ ys)" by blast
  have "r \<notin> set (xs @ ys)" using dll by (simp add: dll_def)
  moreover have "c_heap c r \<noteq> None" using dll linked_live [of "c_heap c" "xs @ r # ys" r] by (simp add: dll_def)
  then have "c_heap (c\<lparr>c_heap := h, c_head := hd, c_tail := tl\<rparr>) r \<noteq> None"
    using view_live [OF v(1)] by simp
  ultimately show ?thesis
    using lru_insert_head_ok [OF d] rm v False by (fastforce simp: lru_move_to_head_def)
qed

section \<open>The hash chains\<close>

fun chain :: "(ref \<rightharpoonup> 'v cache_entry) \<Rightarrow> ref option \<Rightarrow> ref list \<Rightarrow> bool" where
  "chain h p [] \<longleftrightarrow> p = None"
| "chain h p (r # rs) \<longleftrightarrow> p = Some r \<and> (\<exists>q. hnext_view h r = Some q \<and> chain h q rs)"

lemma chain_cong: "(\<And>r. r \<in> set rs \<Longrightarrow> hnext_view h' r = hnext_view h r) \<Longrightarrow> chain h' p rs = chain h p rs"
  by (induction rs arbitrary: p) auto

lemma chain_live: "chain h p rs \<Longrightarrow> r \<in> set rs \<Longrightarrow> h r \<noteq> None"
proof (induction rs arbitrary: p)
  case (Cons x rs)
  then show ?case by (auto simp: hnext_view_def)
qed simp

text \<open>The key of a live entry.\<close>

definition key_of :: "'v sqfs_cache \<Rightarrow> ref \<Rightarrow> cache_key" where
  "key_of c r = fst (the (key_view (c_heap c) r))"

lemma key_of_Some: "c_heap c r = Some e \<Longrightarrow> key_of c r = ce_key e"
  by (simp add: key_of_def key_view_def)

text \<open>The table holds exactly the given references: each bucket is a chain of the ones whose hash
  selects it.\<close>

definition table_ok :: "'v sqfs_cache \<Rightarrow> ref set \<Rightarrow> bool" where
  "table_ok c S \<longleftrightarrow> (\<exists>bs. c_buckets c = Some bs \<and> length bs = unat (c_bucket_count c)
     \<and> 0 < length bs \<and> c_bucket_mask c = c_bucket_count c - 1
     \<and> (\<forall>i < length bs. \<exists>rs. chain (c_heap c) (bs ! i) rs \<and> distinct rs
          \<and> set rs = {r \<in> S. bucket_index c (key_of c r) = i}))"

lemma bucket_index_less:
  assumes "c_bucket_mask c = c_bucket_count c - 1" and "0 < unat (c_bucket_count c)"
  shows "bucket_index c k < unat (c_bucket_count c)"
proof -
  have "unat (cache_hash k AND c_bucket_mask c) \<le> unat (c_bucket_mask c)" by (rule unat_and_le)
  also have "unat (c_bucket_mask c) = unat (c_bucket_count c) - 1"
    using assms by (metis unat_gt_0 unat_minus_one)
  finally show ?thesis using assms(2) by (simp add: bucket_index_def)
qed

text \<open>What the table depends on.\<close>

lemma table_ok_cong:
  assumes "key_view (c_heap c') = key_view (c_heap c)" and "hnext_view (c_heap c') = hnext_view (c_heap c)"
    and "c_buckets c' = c_buckets c" and "c_bucket_count c' = c_bucket_count c"
    and "c_bucket_mask c' = c_bucket_mask c"
  shows "table_ok c' S = table_ok c S"
proof -
  have "chain (c_heap c') p rs = chain (c_heap c) p rs" for p rs
    by (rule chain_cong) (simp add: assms(2))
  moreover have "key_of c' r = key_of c r" for r by (simp add: key_of_def assms(1))
  ultimately show ?thesis by (simp add: table_ok_def bucket_index_def assms(3-5))
qed

lemma find_in_chain_ok:
  "chain (c_heap c) p rs \<Longrightarrow> find_in_chain c p k = Some (Inr (find (\<lambda>r. key_of c r = k) rs))"
proof (induction rs arbitrary: p)
  case Nil
  then show ?case by (simp add: find_in_chain.simps)
next
  case (Cons r rs)
  then obtain e where e: "c_heap c r = Some e" "chain (c_heap c) (ce_hnext e) rs" and p: "p = Some r"
    by (auto simp: hnext_view_def)
  show ?case
    by (subst find_in_chain.simps) (simp add: p e(1) key_of_Some [OF e(1)] Cons.IH [OF e(2)])
qed

lemma find_unique:
  assumes "inj_on f S" and "set rs \<subseteq> S" and "r \<in> set rs" and "f r = k"
  shows "find (\<lambda>r. f r = k) rs = Some r"
proof -
  have "find (\<lambda>r. f r = k) rs \<noteq> None" using assms(3,4) by (auto simp: find_None_iff)
  then obtain q where q: "find (\<lambda>r. f r = k) rs = Some q" by blast
  then have "q \<in> set rs" "f q = k" by (auto simp: find_Some_iff)
  with assms have "q = r" by (metis inj_onD subsetD)
  with q show ?thesis by simp
qed

lemma table_bucket:
  assumes "table_ok c S"
  obtains bs rs where "c_buckets c = Some bs" and "length bs = unat (c_bucket_count c)"
    and "bucket_index c k < length bs"
    and "chain (c_heap c) (bs ! bucket_index c k) rs" and "distinct rs"
    and "set rs = {r \<in> S. bucket_index c (key_of c r) = bucket_index c k}"
proof -
  from assms obtain bs where bs: "c_buckets c = Some bs" "length bs = unat (c_bucket_count c)" "0 < length bs"
    "c_bucket_mask c = c_bucket_count c - 1" and chains: "\<forall>i < length bs. \<exists>rs. chain (c_heap c) (bs ! i) rs
      \<and> distinct rs \<and> set rs = {r \<in> S. bucket_index c (key_of c r) = i}"
    unfolding table_ok_def by blast
  have "bucket_index c k < length bs" using bucket_index_less [of c k] bs by simp
  with chains bs(1,2) that show ?thesis by blast
qed

lemma hash_find_Some:
  assumes "table_ok c S" and "inj_on (key_of c) S" and "r \<in> S" and "key_of c r = k"
  shows "hash_find c k = Some (Inr (Some r))"
proof -
  from assms(1) obtain bs rs where i: "c_buckets c = Some bs" "bucket_index c k < length bs"
    "chain (c_heap c) (bs ! bucket_index c k) rs"
    and rs: "set rs = {r \<in> S. bucket_index c (key_of c r) = bucket_index c k}"
    by (rule table_bucket)
  have "find (\<lambda>r. key_of c r = k) rs = Some r"
    using rs assms by (intro find_unique [OF assms(2)]) auto
  with i show ?thesis by (simp add: hash_find_def get_bucket_def find_in_chain_ok)
qed

lemma hash_find_None:
  assumes "table_ok c S" and "k \<notin> key_of c ` S"
  shows "hash_find c k = Some (Inr None)"
proof -
  from assms(1) obtain bs rs where i: "c_buckets c = Some bs" "bucket_index c k < length bs"
    "chain (c_heap c) (bs ! bucket_index c k) rs"
    and rs: "set rs = {r \<in> S. bucket_index c (key_of c r) = bucket_index c k}"
    by (rule table_bucket)
  have "find (\<lambda>r. key_of c r = k) rs = None"
    using rs assms(2) by (auto simp: find_None_iff)
  with i show ?thesis by (simp add: hash_find_def get_bucket_def find_in_chain_ok)
qed

text \<open>Inserting a live entry that is in no chain.\<close>

lemma hash_insert_ok:
  assumes tab: "table_ok c S" and r: "r \<notin> S" "c_heap c r \<noteq> None"
  shows "\<exists>h bs. hash_insert c r = Inr (c\<lparr>c_heap := h, c_buckets := Some bs\<rparr>)
    \<and> key_view h = key_view (c_heap c) \<and> link_view h = link_view (c_heap c)
    \<and> table_ok (c\<lparr>c_heap := h, c_buckets := Some bs\<rparr>) (insert r S)"
proof -
  obtain e where e: "c_heap c r = Some e" using r(2) by auto
  define i where "i = bucket_index c (ce_key e)"
  from tab obtain bs where bs: "c_buckets c = Some bs" "length bs = unat (c_bucket_count c)" "0 < length bs"
    "c_bucket_mask c = c_bucket_count c - 1" and chains: "\<forall>i < length bs. \<exists>rs. chain (c_heap c) (bs ! i) rs
      \<and> distinct rs \<and> set rs = {r \<in> S. bucket_index c (key_of c r) = i}"
    unfolding table_ok_def by blast
  have i: "i < length bs" using bucket_index_less [of c "ce_key e"] bs by (simp add: i_def)
  define h where "h = (c_heap c)(r \<mapsto> e\<lparr>ce_hnext := bs ! i\<rparr>)"
  define c' where "c' = c\<lparr>c_heap := h, c_buckets := Some (bs[i := Some r])\<rparr>"
  have run: "hash_insert c r = Inr c'"
    using e i bs(1) by (simp add: hash_insert_def get_bucket_def set_bucket_def i_def h_def c'_def bucket_index_def)
  have kv: "key_view h = key_view (c_heap c)" and lv: "link_view h = link_view (c_heap c)"
    using e by (simp_all add: h_def views)
  have bi: "bucket_index c' k = bucket_index c k" for k by (simp add: c'_def bucket_index_def)
  have ko: "key_of c' q = key_of c q" for q by (simp add: key_of_def c'_def kv)
  have same: "chain h p rs = chain (c_heap c) p rs" if "r \<notin> set rs" for p rs
    using that by (intro chain_cong) (auto simp: h_def hnext_view_def)
  have "\<exists>rs. chain h (bs[i := Some r] ! j) rs \<and> distinct rs
      \<and> set rs = {q \<in> insert r S. bucket_index c (key_of c q) = j}" if j: "j < length bs" for j
  proof -
    from chains j obtain rs where rs: "chain (c_heap c) (bs ! j) rs" "distinct rs"
      "set rs = {q \<in> S. bucket_index c (key_of c q) = j}" by blast
    have nr: "r \<notin> set rs" using rs(3) r(1) by blast
    show ?thesis
    proof (cases "j = i")
      case True
      have "hnext_view h r = Some (bs ! i)" by (simp add: h_def hnext_view_def)
      with True rs nr i e same show ?thesis
        by (intro exI [of _ "r # rs"]) (auto simp: key_of_Some i_def)
    next
      case False
      with rs nr e same show ?thesis
        by (intro exI [of _ rs]) (auto simp: key_of_Some i_def)
    qed
  qed
  then have "table_ok c' (insert r S)"
    using bs unfolding table_ok_def bi ko by (auto simp: c'_def)
  with run kv lv show ?thesis unfolding c'_def by blast
qed

text \<open>Removing: the walk stops at the first entry with the key, with its predecessor at hand.\<close>

lemma remove_from_chain_walk:
  assumes "chain (c_heap c) p (us @ r # vs)" and "\<forall>u \<in> set us. key_of c u \<noteq> k" and "key_of c r = k"
  shows "\<exists>e. c_heap c r = Some e \<and> remove_from_chain c idx prev p k =
    Some (rbind (case (if us = [] then prev else Some (last us)) of
                   Some q \<Rightarrow> update_entry c q (\<lambda>x. x\<lparr>ce_hnext := ce_hnext e\<rparr>)
                 | None \<Rightarrow> set_bucket c idx (ce_hnext e)) (\<lambda>c.
            update_entry c r (\<lambda>x. x\<lparr>ce_hnext := None\<rparr>)))"
  using assms
proof (induction us arbitrary: p prev)
  case Nil
  then obtain e where e: "c_heap c r = Some e" "p = Some r" by (auto simp: hnext_view_def)
  with Nil key_of_Some [OF e(1)] show ?case by (subst remove_from_chain.simps) simp
next
  case (Cons u us)
  then obtain f where f: "c_heap c u = Some f" "p = Some u" "chain (c_heap c) (ce_hnext f) (us @ r # vs)"
    by (auto simp: hnext_view_def)
  from Cons.IH [OF f(3), of "Some u"] Cons.prems key_of_Some [OF f(1)] f(1,2) show ?case
    by (cases "us = []") (auto simp: remove_from_chain.simps [of c idx prev "Some u"])
qed

lemma chain_bypass:
  assumes "chain h p (us @ q # r # vs)" and "hnext_view h' q = hnext_view h r"
    and "\<And>x. x \<in> set us \<union> set vs \<Longrightarrow> hnext_view h' x = hnext_view h x"
  shows "chain h' p (us @ q # vs)"
  using assms(1,3)
proof (induction us arbitrary: p)
  case Nil
  then obtain m where "p = Some q" "hnext_view h r = Some m" "chain h m vs" by auto
  moreover have "chain h' m vs = chain h m vs" by (rule chain_cong) (simp add: Nil.prems(2))
  ultimately show ?case using assms(2) by simp
next
  case (Cons u us)
  then show ?case by auto
qed

lemma hash_remove_ok:
  assumes tab: "table_ok c S" and r: "r \<in> S" "key_of c r = k" and inj: "inj_on (key_of c) S"
  shows "\<exists>h bs. hash_remove c k = Some (Inr (c\<lparr>c_heap := h, c_buckets := Some bs\<rparr>))
    \<and> key_view h = key_view (c_heap c) \<and> link_view h = link_view (c_heap c)
    \<and> table_ok (c\<lparr>c_heap := h, c_buckets := Some bs\<rparr>) (S - {r})"
proof -
  define i where "i = bucket_index c k"
  from tab obtain bs where bs: "c_buckets c = Some bs" "length bs = unat (c_bucket_count c)" "0 < length bs"
    "c_bucket_mask c = c_bucket_count c - 1" and chains: "\<forall>i < length bs. \<exists>rs. chain (c_heap c) (bs ! i) rs
      \<and> distinct rs \<and> set rs = {r \<in> S. bucket_index c (key_of c r) = i}"
    unfolding table_ok_def by blast
  have i: "i < length bs" using bucket_index_less [of c k] bs by (simp add: i_def)
  then obtain rs where rs: "chain (c_heap c) (bs ! i) rs" "distinct rs"
    "set rs = {r \<in> S. bucket_index c (key_of c r) = i}" using chains by blast
  then obtain us vs where split: "rs = us @ r # vs" using r by (metis (mono_tags, lifting) i_def mem_Collect_eq split_list)
  have us: "\<forall>u \<in> set us. key_of c u \<noteq> k"
  proof
    fix u assume "u \<in> set us"
    then have "u \<in> S" "u \<noteq> r" using rs split by auto
    then show "key_of c u \<noteq> k" using inj r by (metis inj_onD)
  qed
  from remove_from_chain_walk [OF rs(1) [unfolded split] us r(2), of i None]
  obtain e where e: "c_heap c r = Some e"
    and run: "remove_from_chain c i None (bs ! i) k = Some (rbind
      (case (if us = [] then None else Some (last us)) of
         Some q \<Rightarrow> update_entry c q (\<lambda>x. x\<lparr>ce_hnext := ce_hnext e\<rparr>)
       | None \<Rightarrow> set_bucket c i (ce_hnext e)) (\<lambda>c. update_entry c r (\<lambda>x. x\<lparr>ce_hnext := None\<rparr>)))"
    by blast
  have "\<exists>h b. hash_remove c k = Some (Inr (c\<lparr>c_heap := h, c_buckets := Some (bs[i := b])\<rparr>))
      \<and> key_view h = key_view (c_heap c) \<and> link_view h = link_view (c_heap c)
      \<and> chain h b (us @ vs)
      \<and> (\<forall>x. x \<notin> set rs \<longrightarrow> hnext_view h x = hnext_view (c_heap c) x)"
  proof (cases us rule: rev_cases)
    case Nil
    define h where "h = (c_heap c)(r \<mapsto> e\<lparr>ce_hnext := None\<rparr>)"
    have "chain (c_heap c) (ce_hnext e) vs" using rs(1) split Nil e by (auto simp: hnext_view_def)
    moreover have "chain h (ce_hnext e) vs = chain (c_heap c) (ce_hnext e) vs"
      using rs(2) split by (intro chain_cong) (auto simp: h_def hnext_view_def)
    moreover have "hash_remove c k = Some (Inr (c\<lparr>c_heap := h, c_buckets := Some (bs[i := ce_hnext e])\<rparr>))"
      using run Nil i bs(1) e
      by (simp add: hash_remove_def get_bucket_def set_bucket_def update_entry_def deref_def h_def flip: i_def)
    ultimately show ?thesis using e Nil split
      by (intro exI [of _ h] exI [of _ "ce_hnext e"]) (auto simp: h_def views hnext_view_def)
  next
    case (snoc us' q)
    have q: "q \<noteq> r" using rs(2) split snoc by auto
    have "q \<in> set rs" using split snoc by simp
    then obtain f where f: "c_heap c q = Some f" using chain_live [OF rs(1)] by auto
    define h where "h = (c_heap c)(q \<mapsto> f\<lparr>ce_hnext := ce_hnext e\<rparr>, r \<mapsto> e\<lparr>ce_hnext := None\<rparr>)"
    have "chain h (bs ! i) (us' @ q # vs)"
      using rs(1,2) split snoc e f q
      by (intro chain_bypass [of "c_heap c" _ us' q r vs]) (auto simp: h_def hnext_view_def)
    moreover have "hash_remove c k = Some (Inr (c\<lparr>c_heap := h, c_buckets := Some (bs[i := bs ! i])\<rparr>))"
      using run snoc i bs(1) e f q
      by (simp add: hash_remove_def get_bucket_def h_def flip: i_def)
    moreover have "key_view h = key_view (c_heap c)" "link_view h = link_view (c_heap c)"
      using e f q by (auto simp: h_def view_defs fun_eq_iff)
    ultimately show ?thesis using snoc split
      by (intro exI [of _ h] exI [of _ "bs ! i"]) (auto simp: h_def hnext_view_def)
  qed
  then obtain h b where res: "hash_remove c k = Some (Inr (c\<lparr>c_heap := h, c_buckets := Some (bs[i := b])\<rparr>))"
    and kv: "key_view h = key_view (c_heap c)" and lv: "link_view h = link_view (c_heap c)"
    and ch: "chain h b (us @ vs)" and other: "\<forall>x. x \<notin> set rs \<longrightarrow> hnext_view h x = hnext_view (c_heap c) x"
    by blast
  define c' where "c' = c\<lparr>c_heap := h, c_buckets := Some (bs[i := b])\<rparr>"
  have bi: "bucket_index c' k = bucket_index c k" for k by (simp add: c'_def bucket_index_def)
  have ko: "key_of c' q = key_of c q" for q by (simp add: key_of_def c'_def kv)
  have "\<exists>ts. chain h (bs[i := b] ! j) ts \<and> distinct ts
      \<and> set ts = {q \<in> S - {r}. bucket_index c (key_of c q) = j}" if j: "j < length bs" for j
  proof (cases "j = i")
    case True
    have "set (us @ vs) = {q \<in> S - {r}. bucket_index c (key_of c q) = i}" "distinct (us @ vs)"
      using rs(2,3) split by auto
    with True i ch show ?thesis by auto
  next
    case False
    from chains j obtain ts where ts: "chain (c_heap c) (bs ! j) ts" "distinct ts"
      "set ts = {q \<in> S. bucket_index c (key_of c q) = j}" by blast
    have "chain h (bs ! j) ts = chain (c_heap c) (bs ! j) ts"
      using ts(3) rs(3) False other by (intro chain_cong) auto
    moreover have "set ts = {q \<in> S - {r}. bucket_index c (key_of c q) = j}"
      using ts(3) False r by (auto simp: i_def)
    ultimately show ?thesis using ts False by auto
  qed
  then have "table_ok c' (S - {r})"
    using bs unfolding table_ok_def bi ko by (auto simp: c'_def)
  with res kv lv show ?thesis unfolding c'_def by blast
qed

end
