(* ===== verification/CacheLru.thy ===== *)
theory CacheLru
  imports CacheLinks
begin

text \<open>
  The cache as its users see it: a list of keys with values and sizes, the most recently used
  first. The pointer structure of \<open>cache.c\<close> is shown to refine it, operation by operation,
  with its counters and with the values it frees.
\<close>

section \<open>The abstract cache\<close>

type_synonym 'v lru = "(cache_key \<times> 'v \<times> u64) list"

definition lru_delete :: "cache_key \<Rightarrow> 'v lru \<Rightarrow> 'v lru" where
  "lru_delete k l = filter (\<lambda>x. fst x \<noteq> k) l"

definition lru_mem :: "'v lru \<Rightarrow> nat" where
  "lru_mem l = sum_list (map (\<lambda>x. unat (snd (snd x))) l)"

definition lru_touch :: "cache_key \<Rightarrow> 'v lru \<Rightarrow> 'v lru" where
  "lru_touch k l = (case map_of l k of None \<Rightarrow> l | Some p \<Rightarrow> (k, p) # lru_delete k l)"

text \<open>Evicting from the end until one more entry of the given size fits: what is left and what
  was freed.\<close>

function lru_evict :: "nat \<Rightarrow> nat \<Rightarrow> nat \<Rightarrow> 'v lru \<Rightarrow> 'v lru \<times> 'v list" where
  "lru_evict maxe maxm need l =
     (if l = [] \<or> length l < maxe \<and> lru_mem l + need \<le> maxm then (l, [])
      else case lru_evict maxe maxm need (butlast l) of (l', vs) \<Rightarrow> (l', fst (snd (last l)) # vs))"
  by pat_completeness auto
termination by (relation "measure (\<lambda>(maxe, maxm, need, l). length l)") auto

declare lru_evict.simps [simp del]

text \<open>Storing: the new list and the freed values. An existing entry is replaced in place of its
  old value whatever its size; a new one makes room for itself first.\<close>

definition lru_put :: "nat \<Rightarrow> nat \<Rightarrow> cache_key \<Rightarrow> 'v \<Rightarrow> u64 \<Rightarrow> 'v lru \<Rightarrow> 'v lru \<times> 'v list" where
  "lru_put maxe maxm k v s l =
     (case map_of l k of
        Some (v', _) \<Rightarrow> ((k, v, s) # lru_delete k l, [v'])
      | None \<Rightarrow> (case lru_evict maxe maxm (unat s) l of (l', vs) \<Rightarrow> ((k, v, s) # l', vs)))"

lemma lru_mem_append [simp]: "lru_mem (l @ m) = lru_mem l + lru_mem m"
  by (simp add: lru_mem_def)

lemma lru_mem_simps [simp]: "lru_mem [] = 0" "lru_mem (x # l) = unat (snd (snd x)) + lru_mem l"
  by (simp_all add: lru_mem_def)

lemma lru_delete_fresh: "k \<notin> fst ` set l \<Longrightarrow> lru_delete k l = l"
  by (auto simp: lru_delete_def filter_id_conv)

lemma lru_delete_split:
  "k \<notin> fst ` set (l @ m) \<Longrightarrow> lru_delete k (l @ (k, p) # m) = l @ m"
  using lru_delete_fresh [of k l] lru_delete_fresh [of k m] by (simp add: lru_delete_def image_Un)

lemma lru_evict_bound:
  "lru_evict maxe maxm need l = (l', vs) \<Longrightarrow> 0 < maxe \<Longrightarrow> need \<le> maxm \<Longrightarrow>
     length l' < maxe \<and> lru_mem l' + need \<le> maxm \<and> (\<exists>m. l = l' @ m \<and> vs = rev (map (\<lambda>x. fst (snd x)) m))"
proof (induction maxe maxm need l arbitrary: l' vs rule: lru_evict.induct)
  case (1 maxe maxm need l)
  show ?case
  proof (cases "l = [] \<or> length l < maxe \<and> lru_mem l + need \<le> maxm")
    case True
    with "1.prems" show ?thesis by (auto simp: lru_evict.simps [of maxe maxm need l])
  next
    case False
    then obtain vs' where e: "lru_evict maxe maxm need (butlast l) = (l', vs')"
      and vs: "vs = fst (snd (last l)) # vs'"
      using "1.prems"(1) by (auto simp: lru_evict.simps [of maxe maxm need l] split: prod.splits)
    from "1.IH" [OF False e "1.prems"(2,3)] obtain m where m: "butlast l = l' @ m"
      "vs' = rev (map (\<lambda>x. fst (snd x)) m)" and b: "length l' < maxe" "lru_mem l' + need \<le> maxm" by blast
    have "l = butlast l @ [last l]" using False by simp
    also have "\<dots> = l' @ (m @ [last l])" by (simp add: m(1))
    finally have "l = l' @ (m @ [last l])" .
    moreover have "vs = rev (map (\<lambda>x. fst (snd x)) (m @ [last l]))" by (simp add: vs m(2))
    ultimately show ?thesis using b by blast
  qed
qed

section \<open>The invariant\<close>

definition abs_cache :: "'v sqfs_cache \<Rightarrow> ref list \<Rightarrow> 'v lru" where
  "abs_cache c ps = map (\<lambda>r. the (key_view (c_heap c) r)) ps"

text \<open>The limits leave room for the sums of sizes on 64 bits.\<close>

definition limits_ok :: "'v sqfs_cache \<Rightarrow> bool" where
  "limits_ok c \<longleftrightarrow> 0 < c_max_entries c
     \<and> (unat (c_max_entries c) + 1) * unat (c_max_memory c) < 2 ^ 64"

definition cache_inv :: "'v sqfs_cache \<Rightarrow> ref list \<Rightarrow> bool" where
  "cache_inv c ps \<longleftrightarrow> dll c ps \<and> table_ok c (set ps) \<and> dom (c_heap c) = set ps
     \<and> distinct (map fst (abs_cache c ps))
     \<and> unat (c_current_entries c) = length ps
     \<and> unat (c_current_memory c) = lru_mem (abs_cache c ps)
     \<and> length ps \<le> unat (c_max_entries c)
     \<and> (\<forall>x \<in> set (abs_cache c ps). unat (snd (snd x)) \<le> unat (c_max_memory c))
     \<and> limits_ok c \<and> c_tables c = 1"

text \<open>What an operation leaves alone, and the log of freed values.\<close>

definition same_config :: "'v sqfs_cache \<Rightarrow> 'v sqfs_cache \<Rightarrow> bool" where
  "same_config c c' \<longleftrightarrow> c_max_entries c' = c_max_entries c \<and> c_max_memory c' = c_max_memory c
     \<and> c_free_fn c' = c_free_fn c \<and> c_hits c' = c_hits c \<and> c_misses c' = c_misses c"

definition freed_after :: "'v sqfs_cache \<Rightarrow> 'v list \<Rightarrow> 'v list" where
  "freed_after c vs = (if c_free_fn c then c_freed c @ vs else c_freed c)"

lemma cache_invD:
  assumes "cache_inv c ps"
  shows "dll c ps" "table_ok c (set ps)" "dom (c_heap c) = set ps" "distinct (map fst (abs_cache c ps))"
    "unat (c_current_entries c) = length ps" "unat (c_current_memory c) = lru_mem (abs_cache c ps)"
    "length ps \<le> unat (c_max_entries c)" "distinct ps"
    "\<forall>x \<in> set (abs_cache c ps). unat (snd (snd x)) \<le> unat (c_max_memory c)" "limits_ok c" "c_tables c = 1"
  using assms by (simp_all add: cache_inv_def dll_def)

lemma abs_cache_fst: "map fst (abs_cache c ps) = map (key_of c) ps"
  by (simp add: abs_cache_def key_of_def)

lemma abs_cache_simps [simp]:
  "abs_cache c [] = []" "abs_cache c (r # ps) = the (key_view (c_heap c) r) # abs_cache c ps"
  "abs_cache c (ps @ qs) = abs_cache c ps @ abs_cache c qs" "length (abs_cache c ps) = length ps"
  by (simp_all add: abs_cache_def)

lemma abs_cache_cong: "(\<And>r. r \<in> set ps \<Longrightarrow> key_view (c_heap c') r = key_view (c_heap c) r) \<Longrightarrow>
    abs_cache c' ps = abs_cache c ps"
  by (simp add: abs_cache_def)

lemma inj_on_key_of: "distinct (map fst (abs_cache c ps)) \<Longrightarrow> inj_on (key_of c) (set ps)"
  by (simp add: abs_cache_fst distinct_map)

lemma dll_cong:
  assumes "\<And>r. r \<in> set ps \<Longrightarrow> link_view (c_heap c') r = link_view (c_heap c) r"
    and "c_head c' = c_head c" and "c_tail c' = c_tail c"
  shows "dll c' ps = dll c ps"
proof -
  have "linked (c_heap c') ps = linked (c_heap c) ps"
    unfolding linked_def using assms(1) by auto
  then show ?thesis by (simp add: dll_def assms(2,3))
qed

text \<open>Entries outside of the table do not matter to it.\<close>

lemma table_ok_agree:
  assumes tab: "table_ok c S" and agree: "\<And>q. q \<in> S \<Longrightarrow> key_of c' q = key_of c q \<and>
      hnext_view (c_heap c') q = hnext_view (c_heap c) q"
    and "c_buckets c' = c_buckets c" "c_bucket_count c' = c_bucket_count c" "c_bucket_mask c' = c_bucket_mask c"
  shows "table_ok c' S"
proof -
  have ch: "chain (c_heap c') p rs = chain (c_heap c) p rs" if "set rs \<subseteq> S" for p rs
    using that agree by (intro chain_cong) blast
  have eq: "{q \<in> S. bucket_index c' (key_of c' q) = i} = {q \<in> S. bucket_index c (key_of c q) = i}" for i
    using agree assms(5) by (auto simp: bucket_index_def)
  from tab obtain bs where bs: "c_buckets c = Some bs" "length bs = unat (c_bucket_count c)" "0 < length bs"
    "c_bucket_mask c = c_bucket_count c - 1" and chains: "\<forall>i < length bs. \<exists>rs. chain (c_heap c) (bs ! i) rs
      \<and> distinct rs \<and> set rs = {r \<in> S. bucket_index c (key_of c r) = i}"
    unfolding table_ok_def by blast
  have "\<exists>rs. chain (c_heap c') (bs ! i) rs \<and> distinct rs
      \<and> set rs = {q \<in> S. bucket_index c' (key_of c' q) = i}" if "i < length bs" for i
  proof -
    from chains that obtain rs where rs: "chain (c_heap c) (bs ! i) rs" "distinct rs"
      "set rs = {r \<in> S. bucket_index c (key_of c r) = i}" by blast
    have "set rs \<subseteq> S" using rs(3) by blast
    from ch [OF this] rs eq show ?thesis by auto
  qed
  with bs show ?thesis unfolding table_ok_def assms(3-5) by auto
qed

lemma table_ok_free:
  assumes "table_ok c S" and "r \<notin> S"
  shows "table_ok (c\<lparr>c_heap := (c_heap c)(r := None)\<rparr>) S"
  using assms by (intro table_ok_agree [OF assms(1)]) (auto simp: key_of_def key_view_def hnext_view_def)

section \<open>Removing one entry\<close>

lemma abs_cache_free:
  "r \<notin> set ps \<Longrightarrow> c_heap c' = h(r := None) \<Longrightarrow> key_view h = key_view (c_heap c) \<Longrightarrow>
     abs_cache c' ps = abs_cache c ps"
  by (intro abs_cache_cong) (auto simp: key_view_def dest!: fun_cong)

lemma release_entry_run:
  assumes inv: "cache_inv c (xs @ r # ys)" and k: "key_of c r = k"
  shows "\<exists>h2 bs hd tl e. release_entry c k r = Some (Inr ((free_value (c\<lparr>c_buckets := Some bs, c_head := hd,
        c_tail := tl, c_current_entries := c_current_entries c - 1,
        c_current_memory := c_current_memory c - ce_memory_size e\<rparr>) (ce_value e))\<lparr>c_heap := h2(r := None)\<rparr>))
    \<and> key_view h2 = key_view (c_heap c) \<and> c_heap c r \<noteq> None \<and> h2 r = Some e
    \<and> dll (c\<lparr>c_heap := h2, c_head := hd, c_tail := tl\<rparr>) (xs @ ys)
    \<and> table_ok (c\<lparr>c_heap := h2, c_buckets := Some bs\<rparr>) (set (xs @ ys))"
proof -
  note D = cache_invD [OF inv]
  have dist: "distinct (xs @ r # ys)" using D(8) .
  have set: "set (xs @ r # ys) - {r} = set (xs @ ys)" using dist by auto
  from hash_remove_ok [OF D(2) _ k inj_on_key_of [OF D(4)]]
  obtain h1 bs where hr: "hash_remove c k = Some (Inr (c\<lparr>c_heap := h1, c_buckets := Some bs\<rparr>))"
    and kv1: "key_view h1 = key_view (c_heap c)" and lv1: "link_view h1 = link_view (c_heap c)"
    and t1: "table_ok (c\<lparr>c_heap := h1, c_buckets := Some bs\<rparr>) (set (xs @ ys))"
    unfolding set by auto
  let ?c1 = "c\<lparr>c_heap := h1, c_buckets := Some bs\<rparr>"
  have d1: "dll ?c1 (xs @ r # ys)" using D(1) by (subst dll_cong [of _ _ c]) (simp_all add: lv1)
  from lru_remove_ok [OF d1] obtain h2 hd tl where
    lr: "lru_remove ?c1 r = Inr (?c1\<lparr>c_heap := h2, c_head := hd, c_tail := tl\<rparr>)"
    and kv2: "key_view h2 = key_view h1" and hv2: "hnext_view h2 = hnext_view h1"
    and d2: "dll (?c1\<lparr>c_heap := h2, c_head := hd, c_tail := tl\<rparr>) (xs @ ys)" by auto
  have kv: "key_view h2 = key_view (c_heap c)" using kv1 kv2 by simp
  have live: "c_heap c r \<noteq> None" using D(3) by auto
  then obtain e where e: "h2 r = Some e" using view_live [OF kv, of r] by auto
  have t2: "table_ok (c\<lparr>c_heap := h2, c_buckets := Some bs\<rparr>) (set (xs @ ys))"
    using t1 by (subst table_ok_cong [of _ ?c1]) (simp_all add: kv2 hv2)
  have "dll (c\<lparr>c_heap := h2, c_head := hd, c_tail := tl\<rparr>) (xs @ ys)" using d2 by (simp add: dll_def)
  then show ?thesis
    using hr lr e kv t2 live
    by (intro exI [of _ h2] exI [of _ bs] exI conjI)
      (simp_all add: release_entry_def cache_entry_free_def deref_def free_value_def)
qed

lemma release_entry_ok:
  assumes inv: "cache_inv c (xs @ r # ys)" and k: "key_of c r = k"
  shows "\<exists>c'. release_entry c k r = Some (Inr c') \<and> cache_inv c' (xs @ ys)
    \<and> abs_cache c' (xs @ ys) = abs_cache c (xs @ ys) \<and> same_config c c'
    \<and> c_freed c' = freed_after c [fst (snd (the (key_view (c_heap c) r)))]"
proof -
  note D = cache_invD [OF inv]
  from release_entry_run [OF assms] obtain h2 bs hd tl e where
    run: "release_entry c k r = Some (Inr ((free_value (c\<lparr>c_buckets := Some bs, c_head := hd,
        c_tail := tl, c_current_entries := c_current_entries c - 1,
        c_current_memory := c_current_memory c - ce_memory_size e\<rparr>) (ce_value e))\<lparr>c_heap := h2(r := None)\<rparr>))"
    and kv: "key_view h2 = key_view (c_heap c)" and live: "c_heap c r \<noteq> None" and e: "h2 r = Some e"
    and dl: "dll (c\<lparr>c_heap := h2, c_head := hd, c_tail := tl\<rparr>) (xs @ ys)"
    and tab: "table_ok (c\<lparr>c_heap := h2, c_buckets := Some bs\<rparr>) (set (xs @ ys))" by blast
  define c' where "c' = (free_value (c\<lparr>c_buckets := Some bs, c_head := hd,
        c_tail := tl, c_current_entries := c_current_entries c - 1,
        c_current_memory := c_current_memory c - ce_memory_size e\<rparr>) (ce_value e))\<lparr>c_heap := h2(r := None)\<rparr>"
  have fields: "c_heap c' = h2(r := None)" "c_buckets c' = Some bs" "c_head c' = hd" "c_tail c' = tl"
    "c_current_entries c' = c_current_entries c - 1"
    "c_current_memory c' = c_current_memory c - ce_memory_size e"
    "c_max_entries c' = c_max_entries c" "c_max_memory c' = c_max_memory c" "c_free_fn c' = c_free_fn c"
    "c_hits c' = c_hits c" "c_misses c' = c_misses c" "c_bucket_count c' = c_bucket_count c"
    "c_bucket_mask c' = c_bucket_mask c" "c_freed c' = freed_after c [ce_value e]" "c_tables c' = c_tables c"
    by (simp_all add: c'_def free_value_def freed_after_def)
  have r: "r \<notin> set (xs @ ys)" using D(8) by auto
  have entry: "key_view (c_heap c) r = Some (ce_key e, ce_value e, ce_memory_size e)"
    unfolding kv [symmetric] using e by (simp add: key_view_def)
  have abs: "abs_cache c' xs = abs_cache c xs" "abs_cache c' ys = abs_cache c ys"
    using r by (auto intro!: abs_cache_free [OF _ fields(1) kv])
  have mem: "lru_mem (abs_cache c (xs @ r # ys)) = unat (ce_memory_size e) + lru_mem (abs_cache c (xs @ ys))"
    by (simp add: entry)
  have le: "unat (ce_memory_size e) \<le> unat (c_current_memory c)" using D(6) mem by simp
  have "dll c' (xs @ ys) = dll (c\<lparr>c_heap := h2, c_head := hd, c_tail := tl\<rparr>) (xs @ ys)"
    using r by (intro dll_cong) (auto simp: fields link_view_def)
  then have dll': "dll c' (xs @ ys)" using dl by simp
  have "table_ok ((c\<lparr>c_heap := h2, c_buckets := Some bs\<rparr>)\<lparr>c_heap := h2(r := None)\<rparr>) (set (xs @ ys))"
    using table_ok_free [OF tab r] by simp
  moreover have "table_ok c' (set (xs @ ys)) = table_ok ((c\<lparr>c_heap := h2, c_buckets := Some bs\<rparr>)\<lparr>c_heap := h2(r := None)\<rparr>) (set (xs @ ys))"
    by (intro table_ok_cong) (simp_all add: fields)
  ultimately have tab': "table_ok c' (set (xs @ ys))" by simp
  have dom': "dom (c_heap c') = set (xs @ ys)"
    using D(3) key_view_dom [OF kv] r by (auto simp: fields)
  have cnt: "unat (c_current_entries c') = length (xs @ ys)"
    using D(5) by (simp add: fields unat_sub_if')
  have mem': "unat (c_current_memory c') = lru_mem (abs_cache c' (xs @ ys))"
    using D(6) mem le by (simp only: fields abs abs_cache_simps unat_sub_if' if_True)
  have "cache_inv c' (xs @ ys)"
    unfolding cache_inv_def using dll' tab' dom' cnt mem' D
    by (auto simp: abs fields limits_ok_def)
  with run abs show ?thesis
    unfolding c'_def [symmetric] by (auto simp: same_config_def fields entry)
qed

section \<open>Eviction\<close>

lemma lru_mem_bound: "\<forall>x \<in> set l. unat (snd (snd x)) \<le> m \<Longrightarrow> lru_mem l \<le> length l * m"
  by (induction l) (auto intro: add_mono)

text \<open>The two comparisons of the loop are the ones of the specification: no sum wraps.\<close>

lemma room_iff:
  assumes inv: "cache_inv c ps" and need: "need \<le> c_max_memory c"
  shows "c_current_entries c < c_max_entries c \<and> c_current_memory c + need \<le> c_max_memory c \<longleftrightarrow>
    length ps < unat (c_max_entries c) \<and> lru_mem (abs_cache c ps) + unat need \<le> unat (c_max_memory c)"
proof -
  note D = cache_invD [OF inv]
  have "lru_mem (abs_cache c ps) \<le> length ps * unat (c_max_memory c)"
    using lru_mem_bound [OF D(9)] by simp
  also have "\<dots> \<le> unat (c_max_entries c) * unat (c_max_memory c)" using D(7) by simp
  finally have "unat (c_current_memory c) + unat need < 2 ^ 64"
    using D(6,10) need by (simp add: limits_ok_def word_le_nat_alt)
  then have "unat (c_current_memory c + need) = lru_mem (abs_cache c ps) + unat need"
    using D(6) by (simp add: unat_word_ariths(1))
  then show ?thesis using D(5) by (simp add: word_less_nat_alt word_le_nat_alt)
qed

lemma freed_after_trans:
  "c_free_fn c' = c_free_fn c \<Longrightarrow> c_freed c' = freed_after c vs \<Longrightarrow>
     freed_after c' ws = freed_after c (vs @ ws)"
  by (simp add: freed_after_def)

lemma same_config_trans: "same_config a b \<Longrightarrow> same_config b c \<Longrightarrow> same_config a c"
  by (simp add: same_config_def)

lemma same_config_refl [simp]: "same_config c c"
  by (simp add: same_config_def)

lemma cache_evict_ok:
  assumes "cache_inv c ps" and "need \<le> c_max_memory c"
  shows "\<exists>c' ps' vs. cache_evict c need = Some (Inr c') \<and> cache_inv c' ps'
    \<and> lru_evict (unat (c_max_entries c)) (unat (c_max_memory c)) (unat need) (abs_cache c ps) = (abs_cache c' ps', vs)
    \<and> same_config c c' \<and> c_freed c' = freed_after c vs"
  using assms
proof (induction ps arbitrary: c rule: rev_induct)
  case Nil
  then have "c_tail c = None" by (simp add: cache_inv_def dll_def)
  then have "cache_evict c need = Some (Inr c)" by (simp add: cache_evict.simps)
  with Nil show ?case
    by (intro exI [of _ c] exI [of _ "[]"]) (simp add: lru_evict.simps freed_after_def)
next
  case (snoc r ps)
  note D = cache_invD [OF snoc.prems(1)]
  have tl: "c_tail c = Some r" using D(1) by (simp add: dll_def)
  obtain e where e: "c_heap c r = Some e" using D(3) by auto
  note room = room_iff [OF snoc.prems]
  show ?case
  proof (cases "c_current_entries c < c_max_entries c \<and> c_current_memory c + need \<le> c_max_memory c")
    case True
    then have "cache_evict c need = Some (Inr c)" using tl by (simp add: cache_evict.simps)
    moreover have "lru_evict (unat (c_max_entries c)) (unat (c_max_memory c)) (unat need) (abs_cache c (ps @ [r]))
        = (abs_cache c (ps @ [r]), [])"
      using True room by (subst lru_evict.simps) simp
    ultimately show ?thesis
      using snoc.prems by (intro exI [of _ c] exI [of _ "ps @ [r]"] exI [of _ "[]"]) (simp add: freed_after_def)
  next
    case False
    have inv: "cache_inv c (ps @ r # [])" using snoc.prems(1) by simp
    from release_entry_ok [OF inv key_of_Some [OF e]] obtain c1 where
      rel: "release_entry c (ce_key e) r = Some (Inr c1)" and inv1: "cache_inv c1 ps"
      and abs1: "abs_cache c1 ps = abs_cache c ps" and cfg: "same_config c c1"
      and fr: "c_freed c1 = freed_after c [fst (snd (the (key_view (c_heap c) r)))]" by auto
    have need1: "need \<le> c_max_memory c1" using snoc.prems(2) cfg by (simp add: same_config_def)
    from snoc.IH [OF inv1 need1] obtain c' ps' vs where
      ev: "cache_evict c1 need = Some (Inr c')" "cache_inv c' ps'"
      "lru_evict (unat (c_max_entries c)) (unat (c_max_memory c)) (unat need) (abs_cache c ps) = (abs_cache c' ps', vs)"
      "same_config c1 c'" "c_freed c' = freed_after c1 vs"
      using cfg abs1 by (auto simp: same_config_def)
    have "cache_evict c need = Some (Inr c')"
      using tl False rel ev(1) e by (auto simp: cache_evict.simps [of c need] evict_tail_def)
    moreover have "lru_evict (unat (c_max_entries c)) (unat (c_max_memory c)) (unat need) (abs_cache c (ps @ [r]))
        = (abs_cache c' ps', fst (snd (the (key_view (c_heap c) r))) # vs)"
      using False room ev(3) by (subst lru_evict.simps) simp
    moreover have "c_freed c' = freed_after c (fst (snd (the (key_view (c_heap c) r))) # vs)"
      using freed_after_trans [OF _ fr] cfg ev(5) by (simp add: same_config_def)
    ultimately show ?thesis using ev(2) same_config_trans [OF cfg ev(4)] by blast
  qed
qed

section \<open>Inserting\<close>

lemma rehash_loop_ok:
  assumes "dll c ps" and "table_ok c (set done)" and "ps = done @ todo"
  shows "\<exists>h bs. rehash_loop c (hd_opt todo) = Some (Inr (c\<lparr>c_heap := h, c_buckets := Some bs\<rparr>))
    \<and> key_view h = key_view (c_heap c) \<and> link_view h = link_view (c_heap c)
    \<and> table_ok (c\<lparr>c_heap := h, c_buckets := Some bs\<rparr>) (set ps)"
  using assms
proof (induction todo arbitrary: c "done")
  case Nil
  obtain bs where "c_buckets c = Some bs" using Nil.prems(2) unfolding table_ok_def by blast
  then have "c = c\<lparr>c_heap := c_heap c, c_buckets := Some bs\<rparr>" by simp
  with Nil show ?case
    by (intro exI [of _ "c_heap c"] exI [of _ bs]) (simp add: rehash_loop.simps)
next
  case (Cons r todo)
  have l: "linked (c_heap c) (done @ r # todo)" and d: "distinct (done @ r # todo)"
    using Cons.prems(1,3) by (simp_all add: dll_def)
  have live: "c_heap c r \<noteq> None" using linked_live [OF l] by simp
  from hash_insert_ok [OF Cons.prems(2) _ live] d obtain h bs where
    ins: "hash_insert c r = Inr (c\<lparr>c_heap := h, c_buckets := Some bs\<rparr>)"
    and kv: "key_view h = key_view (c_heap c)" and lv: "link_view h = link_view (c_heap c)"
    and tab: "table_ok (c\<lparr>c_heap := h, c_buckets := Some bs\<rparr>) (insert r (set done))" by auto
  have "link_view h r = Some (last_opt done, hd_opt todo)" using linkedD [OF l] lv by simp
  then obtain e where e: "h r = Some e" "ce_next e = hd_opt todo" by (auto simp: link_view_def)
  let ?c = "c\<lparr>c_heap := h, c_buckets := Some bs\<rparr>"
  have dl: "dll ?c ps" using Cons.prems(1) by (subst dll_cong [of _ _ c]) (simp_all add: lv)
  have "table_ok ?c (set (done @ [r]))" using tab by simp
  from Cons.IH [OF dl this] Cons.prems(3) obtain h' bs' where
    "rehash_loop ?c (hd_opt todo) = Some (Inr (?c\<lparr>c_heap := h', c_buckets := Some bs'\<rparr>))"
    "key_view h' = key_view h" "link_view h' = link_view h"
    "table_ok (?c\<lparr>c_heap := h', c_buckets := Some bs'\<rparr>) (set ps)" by auto
  with ins e kv lv show ?case
    by (subst rehash_loop.simps) auto
qed

lemma resize_ok:
  assumes inv: "dll c ps" "table_ok c (set ps)"
  shows "\<exists>h bs n m. cache_resize_if_needed ok c
      = Some (Inr (c\<lparr>c_heap := h, c_buckets := Some bs, c_bucket_count := n, c_bucket_mask := m\<rparr>))
    \<and> key_view h = key_view (c_heap c) \<and> link_view h = link_view (c_heap c)
    \<and> table_ok (c\<lparr>c_heap := h, c_buckets := Some bs, c_bucket_count := n, c_bucket_mask := m\<rparr>) (set ps)"
proof -
  obtain bs where bs: "c_buckets c = Some bs" "0 < length bs" "length bs = unat (c_bucket_count c)"
    using inv(2) unfolding table_ok_def by blast
  have same: "c\<lparr>c_heap := c_heap c, c_buckets := Some bs, c_bucket_count := c_bucket_count c,
      c_bucket_mask := c_bucket_mask c\<rparr> = c" using bs(1) by simp
  define n where "n = c_bucket_count c * 2"
  define c1 where "c1 = c\<lparr>c_buckets := Some (replicate (unat n) None), c_bucket_count := n, c_bucket_mask := n - 1,
      c_tables := c_tables c + 1\<rparr>"
  show ?thesis
  proof (cases "4 * unat (c_current_entries c) \<le> 3 * unat (c_bucket_count c) \<or> n < c_bucket_count c \<or> \<not> ok")
    case True
    then have "cache_resize_if_needed ok c = Some (Inr c)"
      by (auto simp: cache_resize_if_needed_def Let_def n_def)
    then have "cache_resize_if_needed ok c = Some (Inr (c\<lparr>c_heap := c_heap c, c_buckets := Some bs,
        c_bucket_count := c_bucket_count c, c_bucket_mask := c_bucket_mask c\<rparr>))" by (simp only: same)
    then show ?thesis
      by (intro exI conjI, assumption) (simp_all only: same inv)
  next
    case False
    then have "c_bucket_count c \<le> n" by (simp add: not_less)
    then have n: "0 < unat n" using bs by (simp add: word_le_nat_alt)
    have empty: "table_ok c1 (set [])"
      unfolding table_ok_def using n
      by (intro exI [of _ "replicate (unat n) None"]) (auto simp: c1_def intro!: exI [of _ "[]"])
    have dl: "dll c1 ps" using inv(1) by (simp add: c1_def dll_def)
    from rehash_loop_ok [OF dl empty, of ps] obtain h bs' where
      "rehash_loop c1 (hd_opt ps) = Some (Inr (c1\<lparr>c_heap := h, c_buckets := Some bs'\<rparr>))"
      "key_view h = key_view (c_heap c)" "link_view h = link_view (c_heap c)"
      "table_ok (c1\<lparr>c_heap := h, c_buckets := Some bs'\<rparr>) (set ps)"
      by (auto simp: c1_def)
    moreover have "cache_resize_if_needed ok c
        = lbind (rehash_loop c1 (hd_opt ps)) (\<lambda>c'. Some (Inr (free_table (Some bs) c')))"
      using False inv(1) bs(1) by (auto simp: cache_resize_if_needed_def Let_def n_def c1_def dll_def)
    moreover have "free_table (Some bs) (c1\<lparr>c_heap := h, c_buckets := Some bs'\<rparr>)
        = c\<lparr>c_heap := h, c_buckets := Some bs', c_bucket_count := n, c_bucket_mask := n - 1\<rparr>"
      by (simp add: c1_def free_table_def)
    moreover have "table_ok (c\<lparr>c_heap := h, c_buckets := Some bs', c_bucket_count := n, c_bucket_mask := n - 1\<rparr>) (set ps)
        = table_ok (c1\<lparr>c_heap := h, c_buckets := Some bs'\<rparr>) (set ps)"
      by (rule table_ok_cong) (simp_all add: c1_def)
    ultimately show ?thesis
      by (intro exI [of _ h] exI [of _ bs'] exI [of _ n] exI [of _ "n - 1"]) simp
  qed
qed

section \<open>The operations\<close>

text \<open>An entry with the key, if there is one, splits the list.\<close>

lemma entry_split:
  assumes inv: "cache_inv c ps" and k: "map_of (abs_cache c ps) k = Some p"
  obtains xs r ys where "ps = xs @ r # ys" and "key_of c r = k"
    and "key_view (c_heap c) r = Some (k, p)" and "abs_cache c ps = abs_cache c xs @ (k, p) # abs_cache c ys"
    and "k \<notin> fst ` set (abs_cache c xs @ abs_cache c ys)"
proof -
  note D = cache_invD [OF inv]
  have "(k, p) \<in> set (abs_cache c ps)" using k by (rule map_of_SomeD)
  then obtain r where r: "r \<in> set ps" "the (key_view (c_heap c) r) = (k, p)"
    by (auto simp: abs_cache_def)
  then obtain xs ys where ps: "ps = xs @ r # ys" by (meson split_list)
  have "c_heap c r \<noteq> None" using D(3) r(1) by auto
  then have kv: "key_view (c_heap c) r = Some (k, p)" using r(2) by (auto simp: key_view_def)
  have "key_of c r = k" using kv by (simp add: key_of_def)
  moreover have "abs_cache c ps = abs_cache c xs @ (k, p) # abs_cache c ys" by (simp add: ps kv)
  moreover have "k \<notin> fst ` set (abs_cache c xs @ abs_cache c ys)"
    using D(4) by (auto simp: ps kv image_iff)
  ultimately show ?thesis using that ps kv by blast
qed

lemma find_hit:
  assumes "cache_inv c (xs @ r # ys)" and "key_of c r = k"
  shows "hash_find c k = Some (Inr (Some r))"
  by (rule hash_find_Some [OF cache_invD(2) [OF assms(1)]
        inj_on_key_of [OF cache_invD(4) [OF assms(1)]] _ assms(2)]) simp

lemma find_miss:
  assumes inv: "cache_inv c ps" and "map_of (abs_cache c ps) k = None"
  shows "hash_find c k = Some (Inr None)"
proof (rule hash_find_None [OF cache_invD(2) [OF inv]])
  have "k \<notin> fst ` set (abs_cache c ps)" using assms(2) by (simp add: map_of_eq_None_iff)
  then show "k \<notin> key_of c ` set ps" by (auto simp: abs_cache_def key_of_def)
qed

text \<open>Counters and values that do not take part in the structure.\<close>

lemma cache_inv_cong:
  assumes "c_heap c' = c_heap c" "c_buckets c' = c_buckets c" "c_bucket_count c' = c_bucket_count c"
    "c_bucket_mask c' = c_bucket_mask c" "c_head c' = c_head c" "c_tail c' = c_tail c"
    "c_current_entries c' = c_current_entries c" "c_current_memory c' = c_current_memory c"
    "c_max_entries c' = c_max_entries c" "c_max_memory c' = c_max_memory c" "c_tables c' = c_tables c"
  shows "cache_inv c' ps = cache_inv c ps" and "abs_cache c' ps = abs_cache c ps"
proof -
  show a: "abs_cache c' ps = abs_cache c ps" by (simp add: abs_cache_def assms)
  have "dll c' ps = dll c ps" by (rule dll_cong) (simp_all add: assms)
  moreover have "table_ok c' S = table_ok c S" for S by (rule table_ok_cong) (simp_all add: assms)
  ultimately show "cache_inv c' ps = cache_inv c ps" by (simp add: cache_inv_def a assms limits_ok_def)
qed

text \<open>Moving an entry to the head rotates it to the front of the abstract list.\<close>

lemma move_inv:
  assumes inv: "cache_inv c (xs @ r # ys)"
  shows "\<exists>h hd tl. lru_move_to_head c r = Inr (c\<lparr>c_heap := h, c_head := hd, c_tail := tl\<rparr>)
    \<and> key_view h = key_view (c_heap c)
    \<and> cache_inv (c\<lparr>c_heap := h, c_head := hd, c_tail := tl\<rparr>) (r # xs @ ys)"
proof -
  note D = cache_invD [OF inv]
  from lru_move_to_head_ok [OF D(1)] obtain h hd tl where
    mv: "lru_move_to_head c r = Inr (c\<lparr>c_heap := h, c_head := hd, c_tail := tl\<rparr>)"
    and kv: "key_view h = key_view (c_heap c)" and hv: "hnext_view h = hnext_view (c_heap c)"
    and dl: "dll (c\<lparr>c_heap := h, c_head := hd, c_tail := tl\<rparr>) (r # xs @ ys)" by blast
  let ?c = "c\<lparr>c_heap := h, c_head := hd, c_tail := tl\<rparr>"
  have "table_ok ?c (set (r # xs @ ys)) = table_ok c (set (xs @ r # ys))"
    by (subst table_ok_cong [of _ c]) (simp_all add: kv hv)
  moreover have "abs_cache ?c zs = abs_cache c zs" for zs by (intro abs_cache_cong) (simp add: kv)
  ultimately have "cache_inv ?c (r # xs @ ys)"
    using D dl key_view_dom [OF kv] by (auto simp: cache_inv_def limits_ok_def kv)
  with mv kv show ?thesis by blast
qed

lemma cache_get_ok:
  assumes inv: "cache_inv c ps"
  shows "\<exists>c' ps'. sqfs_cache_get c k = Some (Inr (map_option fst (map_of (abs_cache c ps) k), c'))
    \<and> cache_inv c' ps' \<and> abs_cache c' ps' = lru_touch k (abs_cache c ps)
    \<and> c_hits c' = (if map_of (abs_cache c ps) k = None then c_hits c else c_hits c + 1)
    \<and> c_misses c' = (if map_of (abs_cache c ps) k = None then c_misses c + 1 else c_misses c)
    \<and> c_freed c' = c_freed c \<and> c_max_entries c' = c_max_entries c \<and> c_max_memory c' = c_max_memory c
    \<and> c_free_fn c' = c_free_fn c"
proof (cases "map_of (abs_cache c ps) k")
  case None
  let ?c = "c\<lparr>c_misses := c_misses c + 1\<rparr>"
  have "sqfs_cache_get c k = Some (Inr (None, ?c))"
    using find_miss [OF inv None] by (simp add: sqfs_cache_get_def cache_get_find_def)
  moreover have "cache_inv ?c ps" "abs_cache ?c ps = abs_cache c ps"
    using inv cache_inv_cong [of ?c c ps] by simp_all
  ultimately show ?thesis using None
    by (intro exI [of _ ?c] exI [of _ ps]) (simp add: lru_touch_def)
next
  case (Some p)
  from entry_split [OF inv Some] obtain xs r ys where ps: "ps = xs @ r # ys" and k: "key_of c r = k"
    and kv: "key_view (c_heap c) r = Some (k, p)"
    and abs: "abs_cache c ps = abs_cache c xs @ (k, p) # abs_cache c ys"
    and nk: "k \<notin> fst ` set (abs_cache c xs @ abs_cache c ys)" by blast
  let ?c = "c\<lparr>c_hits := c_hits c + 1\<rparr>"
  have inv1: "cache_inv ?c (xs @ r # ys)" using inv cache_inv_cong [of ?c c ps] ps by simp
  have k1: "key_of ?c r = k" using k by (simp add: key_of_def)
  obtain e where e: "c_heap c r = Some e" "ce_value e = fst p"
    using kv by (auto simp: key_view_def)
  from move_inv [OF inv1] obtain h hd tl where
    mv: "lru_move_to_head ?c r = Inr (?c\<lparr>c_heap := h, c_head := hd, c_tail := tl\<rparr>)"
    and kvh: "key_view h = key_view (c_heap c)"
    and inv2: "cache_inv (?c\<lparr>c_heap := h, c_head := hd, c_tail := tl\<rparr>) (r # xs @ ys)" by auto
  let ?d = "?c\<lparr>c_heap := h, c_head := hd, c_tail := tl\<rparr>"
  have "abs_cache ?d zs = abs_cache c zs" for zs by (intro abs_cache_cong) (simp add: kvh)
  moreover have "lru_touch k (abs_cache c ps) = (k, p) # lru_delete k (abs_cache c ps)"
    by (simp add: lru_touch_def Some)
  moreover have "lru_delete k (abs_cache c ps) = abs_cache c xs @ abs_cache c ys"
    unfolding abs lru_delete_split [OF nk] ..
  ultimately have "abs_cache ?d (r # xs @ ys) = lru_touch k (abs_cache c ps)"
    by (simp add: kv kvh)
  moreover have "sqfs_cache_get c k = Some (Inr (Some (fst p), ?d))"
    using find_hit [OF inv [unfolded ps] k] find_hit [OF inv1 k1] e mv
    by (simp add: sqfs_cache_get_def cache_get_find_def cache_get_touch_def)
  ultimately show ?thesis using inv2 Some
    by (intro exI [of _ ?d] exI [of _ "r # xs @ ys"]) simp
qed

lemma cache_remove_ok:
  assumes inv: "cache_inv c ps"
  shows "\<exists>c' ps'. sqfs_cache_remove c k = Some (Inr c') \<and> cache_inv c' ps'
    \<and> abs_cache c' ps' = lru_delete k (abs_cache c ps) \<and> same_config c c'
    \<and> c_freed c' = freed_after c (case map_of (abs_cache c ps) k of None \<Rightarrow> [] | Some p \<Rightarrow> [fst p])"
proof (cases "map_of (abs_cache c ps) k")
  case None
  have "lru_delete k (abs_cache c ps) = abs_cache c ps"
    using None by (intro lru_delete_fresh) (simp add: map_of_eq_None_iff)
  with find_miss [OF inv None] inv None show ?thesis
    by (intro exI [of _ c] exI [of _ ps]) (simp add: sqfs_cache_remove_def freed_after_def)
next
  case (Some p)
  from entry_split [OF inv Some] obtain xs r ys where ps: "ps = xs @ r # ys" and k: "key_of c r = k"
    and kv: "key_view (c_heap c) r = Some (k, p)"
    and abs: "abs_cache c ps = abs_cache c xs @ (k, p) # abs_cache c ys"
    and nk: "k \<notin> fst ` set (abs_cache c xs @ abs_cache c ys)" by blast
  from release_entry_ok [OF inv [unfolded ps] k] obtain c' where
    "release_entry c k r = Some (Inr c')" "cache_inv c' (xs @ ys)"
    "abs_cache c' (xs @ ys) = abs_cache c (xs @ ys)" "same_config c c'" "c_freed c' = freed_after c [fst p]"
    using kv by auto
  then show ?thesis
    using find_hit [OF inv [unfolded ps] k] lru_delete_split [OF nk, of p] Some abs
    by (intro exI [of _ c'] exI [of _ "xs @ ys"]) (simp add: sqfs_cache_remove_def)
qed

section \<open>Storing\<close>

text \<open>Overwriting the value and size of an entry in place.\<close>

lemma overwrite_inv:
  assumes inv: "cache_inv c (xs @ r # ys)" and kv: "key_view (c_heap c) r = Some (k, v0, s0)"
    and e: "c_heap c r = Some e" and s: "s \<le> c_max_memory c"
    and c': "c' = c\<lparr>c_current_memory := c_current_memory c - s0 + s,
      c_heap := (c_heap c)(r \<mapsto> e\<lparr>ce_value := v, ce_memory_size := s\<rparr>), c_freed := fr\<rparr>"
  shows "cache_inv c' (xs @ r # ys)" and "abs_cache c' xs = abs_cache c xs"
    and "abs_cache c' ys = abs_cache c ys" and "key_view (c_heap c') r = Some (k, v, s)"
proof -
  note D = cache_invD [OF inv]
  have r: "r \<notin> set xs" "r \<notin> set ys" using D(8) by auto
  show abs: "abs_cache c' xs = abs_cache c xs" "abs_cache c' ys = abs_cache c ys"
    using r by (auto intro!: abs_cache_cong simp: c' key_view_def)
  show kv': "key_view (c_heap c') r = Some (k, v, s)" using kv e by (simp add: c' key_view_def)
  have ko: "key_of c' q = key_of c q" for q using e by (simp add: c' key_of_def key_view_def)
  have dl: "dll c' (xs @ r # ys)"
    using D(1) e by (subst dll_cong [of _ _ c]) (simp_all add: c' link_view_def)
  have tab: "table_ok c' (set (xs @ r # ys))"
    using e by (intro table_ok_agree [OF D(2)] conjI ko) (simp_all add: c' hnext_view_def)
  have mem: "unat (c_current_memory c) = lru_mem (abs_cache c xs) + (unat s0 + lru_mem (abs_cache c ys))"
    using D(6) kv by simp
  define m where "m = c_current_memory c - s0"
  have m: "unat m = lru_mem (abs_cache c xs) + lru_mem (abs_cache c ys)"
    using mem by (simp add: m_def unat_sub_if')
  have "lru_mem (abs_cache c xs) \<le> length xs * unat (c_max_memory c)"
    "lru_mem (abs_cache c ys) \<le> length ys * unat (c_max_memory c)"
    using lru_mem_bound [of "abs_cache c xs"] lru_mem_bound [of "abs_cache c ys"] D(9) by auto
  then have "unat m + unat s \<le> (length xs + length ys + 1) * unat (c_max_memory c)"
    using m s by (simp add: word_le_nat_alt add_mult_distrib)
  also have "\<dots> \<le> (unat (c_max_entries c) + 1) * unat (c_max_memory c)" using D(7) by (intro mult_le_mono) simp_all
  also have "\<dots> < 2 ^ 64" using D(10) by (simp add: limits_ok_def)
  finally have "unat (m + s) = unat m + unat s" by (simp add: unat_word_ariths(1))
  then have cur: "unat (c_current_memory c') = lru_mem (abs_cache c' (xs @ r # ys))"
    using m kv' abs by (simp add: c' m_def)
  have "dom (c_heap c') = set (xs @ r # ys)" using D(3) e by (auto simp: c')
  then show "cache_inv c' (xs @ r # ys)"
    unfolding cache_inv_def using dl tab cur D kv kv' abs s
    by (auto simp: c' limits_ok_def word_le_nat_alt)
qed

lemma cache_put_existing:
  assumes inv: "cache_inv c ps" and k: "map_of (abs_cache c ps) k = Some (v0, s0)" and s: "s \<le> c_max_memory c"
  shows "\<exists>c' ps'. sqfs_cache_put alloc ok c k (Some v) s = Some (Inr (None, c')) \<and> cache_inv c' ps'
    \<and> abs_cache c' ps' = (k, v, s) # lru_delete k (abs_cache c ps) \<and> same_config c c'
    \<and> c_freed c' = freed_after c [v0]"
proof -
  from entry_split [OF inv k] obtain xs r ys where ps: "ps = xs @ r # ys" and kr: "key_of c r = k"
    and kv: "key_view (c_heap c) r = Some (k, v0, s0)"
    and abs: "abs_cache c ps = abs_cache c xs @ (k, v0, s0) # abs_cache c ys"
    and nk: "k \<notin> fst ` set (abs_cache c xs @ abs_cache c ys)" by blast
  from kv obtain e where e: "c_heap c r = Some e" "ce_key e = k" "ce_value e = v0" "ce_memory_size e = s0"
    by (auto simp: key_view_def)
  define c1 where "c1 = c\<lparr>c_current_memory := c_current_memory c - s0 + s,
      c_heap := (c_heap c)(r \<mapsto> e\<lparr>ce_value := v, ce_memory_size := s\<rparr>), c_freed := freed_after c [v0]\<rparr>"
  note inv0 = inv [unfolded ps]
  note O = overwrite_inv [OF inv0 kv e(1) s c1_def]
  from move_inv [OF O(1)] obtain h hd tl where
    mv: "lru_move_to_head c1 r = Inr (c1\<lparr>c_heap := h, c_head := hd, c_tail := tl\<rparr>)"
    and kvh: "key_view h = key_view (c_heap c1)"
    and inv2: "cache_inv (c1\<lparr>c_heap := h, c_head := hd, c_tail := tl\<rparr>) (r # xs @ ys)" by blast
  let ?d = "c1\<lparr>c_heap := h, c_head := hd, c_tail := tl\<rparr>"
  have upd: "update_entry (free_value (c\<lparr>c_current_memory := c_current_memory c - s0 + s\<rparr>) v0) r
      (\<lambda>e. e\<lparr>ce_value := v, ce_memory_size := s\<rparr>) = Inr c1"
    using e by (simp add: update_entry_def deref_def free_value_def c1_def freed_after_def)
  have "sqfs_cache_put alloc ok c k (Some v) s = Some (Inr (None, ?d))"
    using find_hit [OF inv0 kr] e s mv upd by (simp add: sqfs_cache_put_def not_less)
  moreover have "abs_cache ?d zs = abs_cache c1 zs" for zs by (intro abs_cache_cong) (simp add: kvh)
  then have "abs_cache ?d (r # xs @ ys) = (k, v, s) # lru_delete k (abs_cache c ps)"
    using lru_delete_split [OF nk] O(2-4) kvh by (simp add: abs)
  moreover have "same_config c ?d" "c_freed ?d = freed_after c [v0]"
    by (simp_all add: same_config_def c1_def)
  ultimately show ?thesis using inv2 by blast
qed

lemma insert_new_inv:
  assumes inv: "cache_inv c ps" and room: "length ps < unat (c_max_entries c)"
    and fits: "lru_mem (abs_cache c ps) + unat s \<le> unat (c_max_memory c)"
    and fresh: "c_heap c r = None" and k: "k \<notin> fst ` set (abs_cache c ps)"
    and c1: "c1 = c\<lparr>c_heap := (c_heap c)(r \<mapsto> \<lparr>ce_key = k, ce_value = v, ce_memory_size = s,
      ce_prev = None, ce_next = None, ce_hnext = None\<rparr>)\<rparr>"
  shows "\<exists>c2 c3. rbind (hash_insert c1 r) (\<lambda>c. lru_insert_head c r) = Inr c2
    \<and> cache_resize_if_needed ok (c2\<lparr>c_current_entries := c_current_entries c2 + 1,
        c_current_memory := c_current_memory c2 + s\<rparr>) = Some (Inr c3)
    \<and> cache_inv c3 (r # ps) \<and> abs_cache c3 (r # ps) = (k, v, s) # abs_cache c ps
    \<and> same_config c c3 \<and> c_freed c3 = c_freed c"
proof -
  note D = cache_invD [OF inv]
  have r: "r \<notin> set ps" using D(3) fresh by auto
  have ko: "key_of c1 q = key_of c q \<and> hnext_view (c_heap c1) q = hnext_view (c_heap c) q" if "q \<in> set ps" for q
    using that r by (auto simp: c1 key_of_def key_view_def hnext_view_def)
  have tab1: "table_ok c1 (set ps)" by (rule table_ok_agree [OF D(2) ko]) (simp_all add: c1)
  have dl1: "dll c1 ps" using D(1) r by (subst dll_cong [of _ _ c]) (auto simp: c1 link_view_def)
  have live1: "c_heap c1 r \<noteq> None" by (simp add: c1)
  from hash_insert_ok [OF tab1 r live1] obtain h2 bs where
    hi: "hash_insert c1 r = Inr (c1\<lparr>c_heap := h2, c_buckets := Some bs\<rparr>)"
    and kv2: "key_view h2 = key_view (c_heap c1)" and lv2: "link_view h2 = link_view (c_heap c1)"
    and tab2: "table_ok (c1\<lparr>c_heap := h2, c_buckets := Some bs\<rparr>) (insert r (set ps))" by blast
  let ?c2 = "c1\<lparr>c_heap := h2, c_buckets := Some bs\<rparr>"
  have dl2: "dll ?c2 ps" using dl1 by (subst dll_cong [of _ _ c1]) (simp_all add: lv2)
  have live2: "c_heap ?c2 r \<noteq> None" using view_live [OF kv2, of r] live1 by simp
  from lru_insert_head_ok [OF dl2 r live2] obtain h3 tl where
    li: "lru_insert_head ?c2 r = Inr (?c2\<lparr>c_heap := h3, c_head := Some r, c_tail := tl\<rparr>)"
    and kv3: "key_view h3 = key_view h2" and hv3: "hnext_view h3 = hnext_view h2"
    and dl3: "dll (?c2\<lparr>c_heap := h3, c_head := Some r, c_tail := tl\<rparr>) (r # ps)" by auto
  define c3 where "c3 = ?c2\<lparr>c_heap := h3, c_head := Some r, c_tail := tl\<rparr>"
  define c4 where "c4 = c3\<lparr>c_current_entries := c_current_entries c3 + 1, c_current_memory := c_current_memory c3 + s\<rparr>"
  have dl4: "dll c4 (r # ps)" using dl3 by (simp add: c4_def c3_def dll_def)
  have tab4: "table_ok c4 (set (r # ps))"
    using tab2 by (subst table_ok_cong [of _ ?c2]) (simp_all add: c4_def c3_def kv3 hv3)
  from resize_ok [OF dl4 tab4, of ok] obtain h5 bs5 n m where
    rs: "cache_resize_if_needed ok c4 = Some (Inr (c4\<lparr>c_heap := h5, c_buckets := Some bs5,
        c_bucket_count := n, c_bucket_mask := m\<rparr>))"
    and kv5: "key_view h5 = key_view (c_heap c4)" and lv5: "link_view h5 = link_view (c_heap c4)"
    and tab5: "table_ok (c4\<lparr>c_heap := h5, c_buckets := Some bs5, c_bucket_count := n, c_bucket_mask := m\<rparr>) (set (r # ps))"
    by blast
  define c5 where "c5 = c4\<lparr>c_heap := h5, c_buckets := Some bs5, c_bucket_count := n, c_bucket_mask := m\<rparr>"
  have kv: "key_view (c_heap c5) = key_view (c_heap c1)"
    by (simp add: c5_def kv5 c4_def c3_def kv3 kv2)
  have kvr: "key_view (c_heap c5) r = Some (k, v, s)" by (simp add: kv) (simp add: c1 key_view_def)
  have abs: "abs_cache c5 ps = abs_cache c ps"
    using r by (intro abs_cache_cong) (auto simp: kv, auto simp: c1 key_view_def)
  have dl5: "dll c5 (r # ps)" using dl4 by (subst dll_cong [of _ _ c4]) (simp_all add: c5_def lv5)
  have f5: "c_max_entries c5 = c_max_entries c" "c_max_memory c5 = c_max_memory c" "c_free_fn c5 = c_free_fn c"
    "c_hits c5 = c_hits c" "c_misses c5 = c_misses c" "c_freed c5 = c_freed c"
    "c_current_entries c5 = c_current_entries c + 1" "c_current_memory c5 = c_current_memory c + s"
    "c_tables c5 = c_tables c"
    by (simp_all add: c5_def c4_def c3_def c1)
  have "dom (c_heap c5) = set (r # ps)" using key_view_dom [OF kv] D(3) by (simp add: c1)
  moreover have "unat (c_current_entries c + 1) = length (r # ps)"
    using unat_add_of_nat [of "c_current_entries c" 1] D(5) room unat_u64_lt [of "c_max_entries c"] by simp
  moreover have "unat (c_current_memory c + s) = lru_mem (abs_cache c ps) + unat s"
    using D(6) order.strict_trans1 [OF fits unat_u64_lt] by (simp add: unat_word_ariths(1))
  ultimately have "cache_inv c5 (r # ps)"
    unfolding cache_inv_def using dl5 tab5 kvr abs D(4,9,10,11) k room fits
    by (auto simp: f5 limits_ok_def c5_def [symmetric])
  with hi li rs abs kvr show ?thesis
    by (intro exI [of _ c3] exI [of _ c5]) (simp add: c3_def c4_def c5_def same_config_def c1)
qed

text \<open>The allocator of entries: what it returns is not in use; and one that finds a place as long
  as fewer than \<open>n\<close> entries live.\<close>

definition fresh_alloc :: "'v entry_alloc \<Rightarrow> bool" where
  "fresh_alloc alloc \<longleftrightarrow> (\<forall>h r. alloc h = Some r \<longrightarrow> h r = None)"

definition serves :: "'v entry_alloc \<Rightarrow> nat \<Rightarrow> bool" where
  "serves alloc n \<longleftrightarrow> (\<forall>h. finite (dom h) \<longrightarrow> card (dom h) < n \<longrightarrow> alloc h \<noteq> None)"

definition first_free :: "nat \<Rightarrow> 'v entry_alloc" where
  "first_free n h = find (\<lambda>r. h r = None) [0..<n]"

lemma first_free_fresh: "fresh_alloc (first_free n)"
  by (auto simp: fresh_alloc_def first_free_def find_Some_iff)

lemma first_free_serves: "serves (first_free n) n"
  unfolding serves_def
proof (intro allI impI notI)
  fix h :: "ref \<rightharpoonup> 'v cache_entry"
  assume fin: "finite (dom h)" and lt: "card (dom h) < n" and "first_free n h = None"
  then have "{..<n} \<subseteq> dom h" by (auto simp: first_free_def find_None_iff)
  from card_mono [OF fin this] lt show False by simp
qed

lemma cache_put_new:
  assumes inv: "cache_inv c ps" and k: "map_of (abs_cache c ps) k = None" and s: "s \<le> c_max_memory c"
    and fresh: "fresh_alloc alloc"
  shows "\<exists>r c' ps'. sqfs_cache_put alloc ok c k (Some v) s = Some (Inr (r, c')) \<and> cache_inv c' ps'
    \<and> same_config c c'
    \<and> (case lru_evict (unat (c_max_entries c)) (unat (c_max_memory c)) (unat s) (abs_cache c ps) of (l, vs) \<Rightarrow>
         c_freed c' = freed_after c vs
         \<and> (r = None \<and> abs_cache c' ps' = (k, v, s) # l
            \<or> r = Some ENOMEM \<and> abs_cache c' ps' = l \<and> \<not> serves alloc (unat (c_max_entries c))))"
proof -
  from cache_evict_ok [OF inv s] obtain c1 ps1 vs where
    ev: "cache_evict c s = Some (Inr c1)" and inv1: "cache_inv c1 ps1"
    and le: "lru_evict (unat (c_max_entries c)) (unat (c_max_memory c)) (unat s) (abs_cache c ps) = (abs_cache c1 ps1, vs)"
    and cfg: "same_config c c1" and fr: "c_freed c1 = freed_after c vs" by blast
  have maxe: "0 < unat (c_max_entries c)" using cache_invD(10) [OF inv] by (auto simp: limits_ok_def unat_gt_0)
  from lru_evict_bound [OF le maxe] s obtain m where room: "length ps1 < unat (c_max_entries c)"
    "lru_mem (abs_cache c1 ps1) + unat s \<le> unat (c_max_memory c)" and pre: "abs_cache c ps = abs_cache c1 ps1 @ m"
    by (auto simp: word_le_nat_alt)
  have nk: "k \<notin> fst ` set (abs_cache c1 ps1)" using k pre by (auto simp: map_of_eq_None_iff)
  have notfull: "\<not> c_max_entries c1 \<le> c_current_entries c1"
    using cache_invD(5) [OF inv1] room cfg by (simp add: word_le_nat_alt same_config_def)
  show ?thesis
  proof (cases "alloc (c_heap c1)")
    case None
    then have "sqfs_cache_put alloc ok c k (Some v) s = Some (Inr (Some ENOMEM, c1))"
      using find_miss [OF inv k] s ev notfull by (simp add: sqfs_cache_put_def cache_entry_new_def not_less)
    moreover have "finite (dom (c_heap c1)) \<and> card (dom (c_heap c1)) < unat (c_max_entries c)"
      using cache_invD(3,8) [OF inv1] room(1) by (simp add: distinct_card)
    then have "\<not> serves alloc (unat (c_max_entries c))" using None by (auto simp: serves_def)
    ultimately show ?thesis using inv1 cfg fr le
      by (intro exI [of _ "Some ENOMEM"] exI [of _ c1] exI [of _ ps1]) auto
  next
    case (Some r)
    define c2 where "c2 = c1\<lparr>c_heap := (c_heap c1)(r \<mapsto> \<lparr>ce_key = k, ce_value = v, ce_memory_size = s,
      ce_prev = None, ce_next = None, ce_hnext = None\<rparr>)\<rparr>"
    have r: "c_heap c1 r = None" using fresh Some by (simp add: fresh_alloc_def)
    have room1: "length ps1 < unat (c_max_entries c1)" "lru_mem (abs_cache c1 ps1) + unat s \<le> unat (c_max_memory c1)"
      using room cfg by (simp_all add: same_config_def)
    from insert_new_inv [OF inv1 room1 r nk c2_def, of ok] obtain c3 c4 where
      "rbind (hash_insert c2 r) (\<lambda>c. lru_insert_head c r) = Inr c3"
      "cache_resize_if_needed ok (c3\<lparr>c_current_entries := c_current_entries c3 + 1,
        c_current_memory := c_current_memory c3 + s\<rparr>) = Some (Inr c4)"
      and inv4: "cache_inv c4 (r # ps1)" "abs_cache c4 (r # ps1) = (k, v, s) # abs_cache c1 ps1"
        "same_config c1 c4" "c_freed c4 = c_freed c1" by blast
    then have "sqfs_cache_put alloc ok c k (Some v) s = Some (Inr (None, c4))"
      using find_miss [OF inv k] s ev notfull Some
      by (simp add: sqfs_cache_put_def cache_entry_new_def not_less c2_def)
    with inv4 same_config_trans [OF cfg inv4(3)] fr le show ?thesis
      by (intro exI [of _ None] exI [of _ c4] exI [of _ "r # ps1"]) simp
  qed
qed

lemma put_too_large: "c_max_memory c < s \<Longrightarrow> sqfs_cache_put alloc ok c k (Some v) s = Some (Inr (Some E2BIG, c))"
  by (simp add: sqfs_cache_put_def)

text \<open>Storing, whether or not the key is there, when the allocator delivers.\<close>

lemma cache_put_ok:
  assumes inv: "cache_inv c ps" and s: "s \<le> c_max_memory c" and fresh: "fresh_alloc alloc"
    and total: "serves alloc (unat (c_max_entries c))"
  shows "\<exists>c' ps' vs. sqfs_cache_put alloc ok c k (Some v) s = Some (Inr (None, c')) \<and> cache_inv c' ps'
    \<and> lru_put (unat (c_max_entries c)) (unat (c_max_memory c)) k v s (abs_cache c ps) = (abs_cache c' ps', vs)
    \<and> same_config c c' \<and> c_freed c' = freed_after c vs"
proof (cases "map_of (abs_cache c ps) k")
  case None
  obtain l vs where le: "lru_evict (unat (c_max_entries c)) (unat (c_max_memory c)) (unat s) (abs_cache c ps) = (l, vs)"
    by fastforce
  with cache_put_new [OF inv None s fresh, of ok v] total obtain r c' ps' where
    p: "sqfs_cache_put alloc ok c k (Some v) s = Some (Inr (r, c'))" "cache_inv c' ps'" "same_config c c'"
    "c_freed c' = freed_after c vs" "r = None" "abs_cache c' ps' = (k, v, s) # l" by auto
  have "lru_put (unat (c_max_entries c)) (unat (c_max_memory c)) k v s (abs_cache c ps) = (abs_cache c' ps', vs)"
    by (simp add: lru_put_def None le p(6))
  with p show ?thesis by blast
next
  case (Some p)
  obtain v0 s0 where p: "p = (v0, s0)" by fastforce
  from cache_put_existing [OF inv Some [unfolded p] s, of alloc ok v] obtain c' ps' where
    q: "sqfs_cache_put alloc ok c k (Some v) s = Some (Inr (None, c'))" "cache_inv c' ps'" "same_config c c'"
    "abs_cache c' ps' = (k, v, s) # lru_delete k (abs_cache c ps)" "c_freed c' = freed_after c [v0]" by blast
  have "lru_put (unat (c_max_entries c)) (unat (c_max_memory c)) k v s (abs_cache c ps) = (abs_cache c' ps', [v0])"
    by (simp add: lru_put_def Some p q(4))
  with q show ?thesis by blast
qed

section \<open>Creating, clearing, destroying\<close>

lemma initial_buckets_bounds: "0 < b \<Longrightarrow> b \<le> initial_buckets b m \<and> initial_buckets b m \<le> max b 131072"
proof (induction b m rule: initial_buckets.induct)
  case (1 b m)
  then show ?case by (subst (1 2) initial_buckets.simps) (auto simp: max_def)
qed

lemma cache_init_ok:
  assumes "sqfs_cache_init True True maxe maxm ff = Inr c" and "(unat maxe + 1) * unat maxm < 2 ^ 64"
  shows "cache_inv c [] \<and> c_max_entries c = maxe \<and> c_max_memory c = maxm \<and> c_free_fn c = ff
    \<and> c_freed c = [] \<and> c_hits c = 0 \<and> c_misses c = 0"
proof -
  define n where "n = initial_buckets 64 (unat maxe)"
  have n: "64 \<le> n" "n \<le> 131072" using initial_buckets_bounds [of 64 "unat maxe"] by (simp_all add: n_def)
  have maxe: "maxe \<noteq> 0" using assms(1) by (auto simp: sqfs_cache_init_def)
  then have c: "c = zero_cache\<lparr>c_max_entries := maxe, c_max_memory := maxm, c_free_fn := ff,
      c_buckets := Some (replicate n None), c_bucket_count := of_nat n, c_bucket_mask := of_nat n - 1, c_tables := 1\<rparr>"
    using assms(1) by (simp add: sqfs_cache_init_def Let_def n_def)
  have un: "unat (of_nat n :: u64) = n" using n by (simp add: unat_of_nat)
  have "table_ok c (set [])"
    unfolding table_ok_def using n un
    by (intro exI [of _ "replicate n None"]) (auto simp: c intro!: exI [of _ "[]"])
  moreover have "dll c []" by (simp add: c dll_def linked_def zero_cache_def)
  ultimately show ?thesis
    using maxe assms(2) by (simp add: cache_inv_def c zero_cache_def limits_ok_def word_greater_zero_iff)
qed

lemma free_all_ok:
  assumes "\<And>xs r ys. todo = xs @ r # ys \<Longrightarrow> \<exists>e. c_heap c r = Some e \<and> ce_next e = hd_opt ys" and "distinct todo"
  shows "free_all c (hd_opt todo) = Some (Inr (c\<lparr>c_heap := c_heap c |` (- set todo),
    c_freed := freed_after c (map (\<lambda>r. fst (snd (the (key_view (c_heap c) r)))) todo)\<rparr>))"
  using assms
proof (induction todo arbitrary: c)
  case Nil
  then show ?case by (simp add: free_all.simps freed_after_def)
next
  case (Cons r todo)
  from Cons.prems(1) [of "[]" r todo] obtain e where e: "c_heap c r = Some e" "ce_next e = hd_opt todo" by auto
  define c1 where "c1 = (free_value c (ce_value e))\<lparr>c_heap := (c_heap c)(r := None)\<rparr>"
  have heap1: "c_heap c1 = (c_heap c)(r := None)" by (simp add: c1_def)
  have nodes: "\<exists>e. c_heap c1 q = Some e \<and> ce_next e = hd_opt ys" if "todo = xs @ q # ys" for xs q ys
    using Cons.prems(1) [of "r # xs" q ys] Cons.prems(2) that by (auto simp: heap1)
  have vals: "map (\<lambda>q. fst (snd (the (key_view (c_heap c1) q)))) todo
      = map (\<lambda>q. fst (snd (the (key_view (c_heap c) q)))) todo"
    using Cons.prems(2) by (auto simp: heap1 key_view_def)
  have "free_all c (Some r) = free_all c1 (hd_opt todo)"
    using e by (subst free_all.simps) (simp add: cache_entry_free_def c1_def)
  also have "\<dots> = Some (Inr (c1\<lparr>c_heap := c_heap c1 |` (- set todo),
      c_freed := freed_after c1 (map (\<lambda>q. fst (snd (the (key_view (c_heap c1) q)))) todo)\<rparr>))"
    using Cons.prems(2) by (intro Cons.IH nodes) simp_all
  also have "c1\<lparr>c_heap := c_heap c1 |` (- set todo),
      c_freed := freed_after c1 (map (\<lambda>q. fst (snd (the (key_view (c_heap c1) q)))) todo)\<rparr>
    = c\<lparr>c_heap := c_heap c |` (- set (r # todo)),
      c_freed := freed_after c (map (\<lambda>q. fst (snd (the (key_view (c_heap c) q)))) (r # todo))\<rparr>"
    unfolding vals using e
    by (auto simp: c1_def free_value_def freed_after_def key_view_def restrict_map_def fun_eq_iff)
  finally show ?case by simp
qed

lemma free_all_inv:
  assumes inv: "cache_inv c ps"
  shows "free_all c (c_head c) = Some (Inr (c\<lparr>c_heap := Map.empty,
    c_freed := freed_after c (map (\<lambda>x. fst (snd x)) (abs_cache c ps))\<rparr>))"
proof -
  note D = cache_invD [OF inv]
  have "\<exists>e. c_heap c r = Some e \<and> ce_next e = hd_opt ys" if "ps = xs @ r # ys" for xs r ys
    using linkedD [of "c_heap c" xs r ys] D(1) that by (auto simp: dll_def link_view_def)
  from free_all_ok [OF this D(8)]
  have "free_all c (hd_opt ps) = Some (Inr (c\<lparr>c_heap := c_heap c |` (- set ps),
      c_freed := freed_after c (map (\<lambda>r. fst (snd (the (key_view (c_heap c) r)))) ps)\<rparr>))" by simp
  moreover have "c_heap c |` (- set ps) = Map.empty"
    using D(3) by (auto simp: restrict_map_def fun_eq_iff dom_def)
  ultimately show ?thesis using D(1) by (simp add: dll_def abs_cache_def comp_def)
qed

lemma cache_destroy_ok:
  "cache_inv c ps \<Longrightarrow> sqfs_cache_destroy c = Some (Inr (zero_cache\<lparr>c_freed :=
     freed_after c (map (\<lambda>x. fst (snd x)) (abs_cache c ps))\<rparr>))"
proof -
  assume inv: "cache_inv c ps"
  then obtain bs where "c_buckets c = Some bs" using cache_invD(2) [OF inv] unfolding table_ok_def by blast
  then show ?thesis
    by (simp add: sqfs_cache_destroy_def free_all_inv [OF inv] free_table_def cache_invD(11) [OF inv]) (simp add: zero_cache_def)
qed

lemma cache_clear_ok:
  assumes inv: "cache_inv c ps"
  shows "\<exists>c'. sqfs_cache_clear c = Some (Inr c') \<and> cache_inv c' [] \<and> same_config c c'
    \<and> c_freed c' = freed_after c (map (\<lambda>x. fst (snd x)) (abs_cache c ps))"
proof -
  note D = cache_invD [OF inv]
  obtain bs where bs: "c_buckets c = Some bs" "length bs = unat (c_bucket_count c)" "0 < length bs"
    "c_bucket_mask c = c_bucket_count c - 1" using D(2) unfolding table_ok_def by blast
  define c' where "c' = c\<lparr>c_heap := Map.empty, c_freed := freed_after c (map (\<lambda>x. fst (snd x)) (abs_cache c ps)),
    c_buckets := Some (replicate (unat (c_bucket_count c)) None), c_head := None, c_tail := None,
    c_current_entries := 0, c_current_memory := 0\<rparr>"
  have run: "sqfs_cache_clear c = Some (Inr c')"
    using bs(1) by (simp add: sqfs_cache_clear_def free_all_inv [OF inv] c'_def)
  have "table_ok c' (set [])"
    unfolding table_ok_def using bs
    by (intro exI [of _ "replicate (unat (c_bucket_count c)) None"]) (auto simp: c'_def intro!: exI [of _ "[]"])
  moreover have "dll c' []" by (simp add: c'_def dll_def linked_def)
  ultimately have "cache_inv c' []" using D(10,11) by (simp add: cache_inv_def c'_def limits_ok_def)
  with run show ?thesis by (auto simp: c'_def same_config_def)
qed

end
