(* ===== verification/CacheStore.thy ===== *)
theory CacheStore
  imports CacheLru "HOL-Library.Multiset"
begin

text \<open>
  The cache as an interface for the code that reads through it, and the properties of the
  cache. A client needs little: a lookup returns a value that was stored under the key, a
  store adds at most its own binding, nothing else appears. From these laws alone follows
  that memoising a computation is sound, whatever is evicted in between.
\<close>

section \<open>The interface\<close>

locale value_cache =
  fixes inv :: "'c \<Rightarrow> bool"
    and bindings :: "'c \<Rightarrow> (cache_key \<times> 'v) set"
    and get :: "'c \<Rightarrow> cache_key \<Rightarrow> ('v option \<times> 'c) lres"
    and put :: "'c \<Rightarrow> cache_key \<Rightarrow> 'v \<Rightarrow> u64 \<Rightarrow> (errno option \<times> 'c) lres"
  assumes get_law: "inv c \<Longrightarrow> \<exists>v c'. get c k = Some (Inr (v, c')) \<and> inv c' \<and> bindings c' = bindings c
      \<and> (\<forall>x. v = Some x \<longleftrightarrow> (k, x) \<in> bindings c)"
    and put_law: "inv c \<Longrightarrow> \<exists>e c'. put c k v s = Some (Inr (e, c')) \<and> inv c'
      \<and> bindings c' \<subseteq> insert (k, v) (bindings c)"
begin

text \<open>Every cached value has the property its key demands.\<close>

definition sound :: "(cache_key \<Rightarrow> 'v \<Rightarrow> bool) \<Rightarrow> 'c \<Rightarrow> bool" where
  "sound P c \<longleftrightarrow> inv c \<and> (\<forall>(k, v) \<in> bindings c. P k v)"

lemma get_sound:
  assumes "sound P c"
  obtains v c' where "get c k = Some (Inr (v, c'))" and "sound P c'" and "\<And>x. v = Some x \<Longrightarrow> P k x"
  using get_law [of c k] assms unfolding sound_def by fastforce

lemma put_sound:
  assumes "sound P c" and "P k v"
  obtains e c' where "put c k v s = Some (Inr (e, c'))" and "sound P c'"
  using put_law [of c k v s] assms unfolding sound_def by blast

lemma bindings_functional: "inv c \<Longrightarrow> (k, x) \<in> bindings c \<Longrightarrow> (k, y) \<in> bindings c \<Longrightarrow> x = y"
  using get_law [of c k] by (metis option.inject)

text \<open>Reading through: look the key up, compute and store on a miss. The result is the
  computed value in either case.\<close>

lemma memo_sound:
  assumes snd: "sound (\<lambda>k v. v = f k) c"
  shows "\<exists>c'. lbind (get c k) (\<lambda>(v, c). case v of
        Some x \<Rightarrow> Some (Inr (x, c))
      | None \<Rightarrow> lbind (put c k (f k) s) (\<lambda>(_, c). Some (Inr (f k, c)))) = Some (Inr (f k, c'))
    \<and> sound (\<lambda>k v. v = f k) c'"
proof -
  from get_sound [OF snd, where k = k] obtain v c1 where g: "get c k = Some (Inr (v, c1))"
    and s1: "sound (\<lambda>k v. v = f k) c1" and v: "\<And>x. v = Some x \<Longrightarrow> x = f k" by metis
  show ?thesis
  proof (cases v)
    case None
    from put_sound [OF s1, where k = k and v = "f k" and s = s] obtain e c2 where "put c1 k (f k) s = Some (Inr (e, c2))"
      "sound (\<lambda>k v. v = f k) c2" by auto
    with g None show ?thesis by auto
  next
    case (Some x)
    with g s1 v show ?thesis by auto
  qed
qed

end

section \<open>The model provides it\<close>

definition cache_valid :: "'v sqfs_cache \<Rightarrow> bool" where
  "cache_valid c \<longleftrightarrow> (\<exists>ps. cache_inv c ps)"

definition cache_bindings :: "'v sqfs_cache \<Rightarrow> (cache_key \<times> 'v) set" where
  "cache_bindings c = {(k, v). \<exists>r s. key_view (c_heap c) r = Some (k, v, s)}"

lemma cache_bindings_abs:
  assumes inv: "cache_inv c ps"
  shows "cache_bindings c = {(k, v). \<exists>s. (k, v, s) \<in> set (abs_cache c ps)}"
proof -
  have live: "r \<in> set ps \<longleftrightarrow> c_heap c r \<noteq> None" for r
    using cache_invD(3) [OF inv] by (metis domIff)
  have "key_view (c_heap c) r = Some x \<longleftrightarrow> r \<in> set ps \<and> the (key_view (c_heap c) r) = x" for r x
    by (cases "c_heap c r") (auto simp: live key_view_def)
  then have "x \<in> set (abs_cache c ps) \<longleftrightarrow> (\<exists>r. key_view (c_heap c) r = Some x)" for x
    unfolding abs_cache_def set_map image_iff by metis
  then show ?thesis unfolding cache_bindings_def by blast
qed

lemma lru_touch_set:
  assumes "distinct (map fst l)"
  shows "set (lru_touch k l) = set l"
proof (cases "map_of l k")
  case (Some p)
  then have p: "(k, p) \<in> set l" by (rule map_of_SomeD)
  have touch: "lru_touch k l = (k, p) # lru_delete k l" by (simp add: lru_touch_def Some)
  have "x \<in> set (lru_touch k l)" if x: "x \<in> set l" for x
  proof (cases "fst x = k")
    case True
    then have "x = (k, snd x)" by (metis prod.collapse)
    with map_of_is_SomeI [OF assms, of k "snd x"] x Some show ?thesis by (simp add: touch)
  next
    case False
    with x show ?thesis by (simp add: touch lru_delete_def)
  qed
  moreover have "x \<in> set l" if "x \<in> set (lru_touch k l)" for x
    using that p by (auto simp: touch lru_delete_def)
  ultimately show ?thesis by blast
qed (simp add: lru_touch_def)

lemma cache_get_law:
  assumes "cache_valid c"
  shows "\<exists>v c'. sqfs_cache_get c k = Some (Inr (v, c')) \<and> cache_valid c' \<and> cache_bindings c' = cache_bindings c
      \<and> (\<forall>x. v = Some x \<longleftrightarrow> (k, x) \<in> cache_bindings c)"
proof -
  from assms obtain ps where inv: "cache_inv c ps" by (auto simp: cache_valid_def)
  from cache_get_ok [OF inv, of k] obtain c' ps' where
    get: "sqfs_cache_get c k = Some (Inr (map_option fst (map_of (abs_cache c ps) k), c'))"
    and inv': "cache_inv c' ps'" and abs: "abs_cache c' ps' = lru_touch k (abs_cache c ps)" by blast
  note dist = cache_invD(4) [OF inv]
  have "cache_bindings c' = cache_bindings c"
    by (simp add: cache_bindings_abs [OF inv] cache_bindings_abs [OF inv'] abs lru_touch_set [OF dist])
  moreover have "map_option fst (map_of (abs_cache c ps) k) = Some x \<longleftrightarrow> (k, x) \<in> cache_bindings c" for x
    using dist by (auto simp: cache_bindings_abs [OF inv] dest!: map_of_SomeD)
  ultimately show ?thesis using get inv' by (auto simp: cache_valid_def)
qed

lemma lru_evict_subset: "lru_evict a b n l = (l', vs) \<Longrightarrow> set l' \<subseteq> set l"
proof (induction a b n l arbitrary: l' vs rule: lru_evict.induct)
  case (1 a b n l)
  show ?case
  proof (cases "l = [] \<or> length l < a \<and> lru_mem l + n \<le> b")
    case True
    with "1.prems" show ?thesis by (auto simp: lru_evict.simps [of a b n l])
  next
    case False
    then obtain vs' where "lru_evict a b n (butlast l) = (l', vs')"
      using "1.prems" by (auto simp: lru_evict.simps [of a b n l] split: prod.splits)
    from "1.IH" [OF False this] show ?thesis by (auto dest: in_set_butlastD)
  qed
qed

lemma cache_put_law:
  assumes "cache_valid c" and fresh: "fresh_alloc alloc"
  shows "\<exists>e c'. sqfs_cache_put alloc ok c k (Some v) s = Some (Inr (e, c')) \<and> cache_valid c'
      \<and> cache_bindings c' \<subseteq> insert (k, v) (cache_bindings c)"
proof -
  from assms obtain ps where inv: "cache_inv c ps" by (auto simp: cache_valid_def)
  show ?thesis
  proof (cases "c_max_memory c < s")
    case True
    with assms(1) show ?thesis by (auto simp: put_too_large)
  next
    case False
    then have s: "s \<le> c_max_memory c" by simp
    show ?thesis
    proof (cases "map_of (abs_cache c ps) k")
      case None
      obtain l vs where le: "lru_evict (unat (c_max_entries c)) (unat (c_max_memory c)) (unat s) (abs_cache c ps) = (l, vs)"
        by fastforce
      from cache_put_new [OF inv None s fresh, of ok v] le obtain e c' ps' where
        p: "sqfs_cache_put alloc ok c k (Some v) s = Some (Inr (e, c'))" "cache_inv c' ps'"
        "abs_cache c' ps' = (k, v, s) # l \<or> abs_cache c' ps' = l" by auto
      have "cache_bindings c' \<subseteq> insert (k, v) (cache_bindings c)"
        using p(3) lru_evict_subset [OF le]
        by (auto simp: cache_bindings_abs [OF inv] cache_bindings_abs [OF p(2)])
      with p show ?thesis by (auto simp: cache_valid_def)
    next
      case (Some p)
      obtain v0 s0 where p: "p = (v0, s0)" by fastforce
      from cache_put_existing [OF inv Some [unfolded p] s, of alloc ok v] obtain c' ps' where
        q: "sqfs_cache_put alloc ok c k (Some v) s = Some (Inr (None, c'))" "cache_inv c' ps'"
        "abs_cache c' ps' = (k, v, s) # lru_delete k (abs_cache c ps)" by blast
      have "cache_bindings c' \<subseteq> insert (k, v) (cache_bindings c)"
        by (auto simp: cache_bindings_abs [OF inv] cache_bindings_abs [OF q(2)] q(3) lru_delete_def)
      with q show ?thesis by (auto simp: cache_valid_def)
    qed
  qed
qed

text \<open>The limits of a cache never change.\<close>

lemma put_config:
  assumes inv: "cache_inv c ps" and fresh: "fresh_alloc alloc"
    and run: "sqfs_cache_put alloc ok c k (Some v) s = Some (Inr (e, c'))"
  shows "same_config c c'"
proof (cases "c_max_memory c < s")
  case True
  with run show ?thesis by (simp add: put_too_large)
next
  case False
  then have s: "s \<le> c_max_memory c" by simp
  show ?thesis
  proof (cases "map_of (abs_cache c ps) k")
    case None
    moreover obtain l vs where
      "lru_evict (unat (c_max_entries c)) (unat (c_max_memory c)) (unat s) (abs_cache c ps) = (l, vs)" by fastforce
    ultimately show ?thesis using cache_put_new [OF inv _ s fresh, of k ok v] run by auto
  next
    case (Some p)
    from cache_put_existing [OF inv _ s, of k "fst p" "snd p" alloc ok v] Some run show ?thesis by auto
  qed
qed

lemma get_limits:
  assumes "cache_valid c" and "sqfs_cache_get c k = Some (Inr (v, c'))"
  shows "c_max_entries c' = c_max_entries c \<and> c_max_memory c' = c_max_memory c"
proof -
  from assms(1) obtain ps where "cache_inv c ps" by (auto simp: cache_valid_def)
  from cache_get_ok [OF this, of k] assms(2) show ?thesis by auto
qed

lemma put_limits:
  assumes "cache_valid c" and "fresh_alloc alloc" and "sqfs_cache_put alloc ok c k (Some v) s = Some (Inr (e, c'))"
  shows "c_max_entries c' = c_max_entries c \<and> c_max_memory c' = c_max_memory c"
  using put_config [OF _ assms(2,3)] assms(1) by (auto simp: cache_valid_def same_config_def)

text \<open>A value that fits is taken whenever memory for its entry can be had.\<close>

lemma put_accepts:
  assumes "cache_valid c" and "s \<le> c_max_memory c" and "fresh_alloc alloc" and "serves alloc (unat (c_max_entries c))"
  shows "\<exists>c'. sqfs_cache_put alloc ok c k (Some v) s = Some (Inr (None, c'))"
proof -
  from assms(1) obtain ps where "cache_inv c ps" by (auto simp: cache_valid_def)
  from cache_put_ok [OF this assms(2-4)] show ?thesis by blast
qed

text \<open>The allocator and the outcome of the table's reallocation are arbitrary; an allocator that
  returns references in use is taken as one that fails.\<close>

definition guard_alloc :: "'v entry_alloc \<Rightarrow> 'v entry_alloc" where
  "guard_alloc alloc h = (case alloc h of None \<Rightarrow> None | Some r \<Rightarrow> if h r = None then Some r else None)"

lemma guard_alloc_fresh: "fresh_alloc (guard_alloc alloc)"
  by (auto simp: fresh_alloc_def guard_alloc_def split: option.splits if_splits)

interpretation lru: value_cache cache_valid cache_bindings sqfs_cache_get
    "\<lambda>c k v s. sqfs_cache_put (guard_alloc alloc) ok c k (Some v) s" for alloc ok
  by unfold_locales (blast intro: cache_get_law cache_put_law guard_alloc_fresh)+

section \<open>Runs of operations\<close>

datatype 'v cache_op = Get cache_key | Put cache_key 'v u64 bool | Remove cache_key | Clear

text \<open>One call of a client; the list collects the values the cache has accepted. The flag of a
  \<open>Put\<close> is the outcome of the table's reallocation.\<close>

fun cache_step :: "'v entry_alloc \<Rightarrow> 'v sqfs_cache \<Rightarrow> 'v cache_op \<Rightarrow> ('v list \<times> 'v sqfs_cache) lres" where
  "cache_step alloc c (Get k) = lbind (sqfs_cache_get c k) (\<lambda>(_, c). Some (Inr ([], c)))"
| "cache_step alloc c (Put k v s ok) =
     lbind (sqfs_cache_put alloc ok c k (Some v) s) (\<lambda>(e, c). Some (Inr (if e = None then [v] else [], c)))"
| "cache_step alloc c (Remove k) = lbind (sqfs_cache_remove c k) (\<lambda>c. Some (Inr ([], c)))"
| "cache_step alloc c Clear = lbind (sqfs_cache_clear c) (\<lambda>c. Some (Inr ([], c)))"

fun cache_run :: "'v entry_alloc \<Rightarrow> 'v sqfs_cache \<Rightarrow> 'v cache_op list \<Rightarrow> ('v list \<times> 'v sqfs_cache) lres" where
  "cache_run alloc c [] = Some (Inr ([], c))"
| "cache_run alloc c (x # xs) =
     lbind (cache_step alloc c x) (\<lambda>(vs, c). lbind (cache_run alloc c xs) (\<lambda>(ws, c). Some (Inr (vs @ ws, c))))"

text \<open>The values the cache owns.\<close>

definition held :: "'v lru \<Rightarrow> 'v multiset" where
  "held l = mset (map (\<lambda>x. fst (snd x)) l)"

lemma held_simps [simp]: "held [] = {#}" "held (x # l) = add_mset (fst (snd x)) (held l)"
  "held (l @ m) = held l + held m"
  by (simp_all add: held_def)

lemma held_delete:
  assumes "distinct (map fst l)" and "map_of l k = Some (v, s)"
  shows "held l = add_mset v (held (lru_delete k l))"
  using assms
proof (induction l)
  case (Cons x l)
  show ?case
  proof (cases "fst x = k")
    case True
    then have "k \<notin> fst ` set l" using Cons.prems(1) by auto
    then have "lru_delete k (x # l) = l" using True lru_delete_fresh [of k l] by (simp add: lru_delete_def)
    with True Cons.prems(2) show ?thesis by (cases x) simp
  next
    case False
    then have "lru_delete k (x # l) = x # lru_delete k l" by (simp add: lru_delete_def)
    with False Cons show ?thesis by (cases x) simp
  qed
qed simp

lemma held_touch:
  assumes "distinct (map fst l)"
  shows "held (lru_touch k l) = held l"
  using held_delete [OF assms, of k] by (auto simp: lru_touch_def split: option.split)

lemma held_evict:
  assumes "lru_evict maxe maxm need l = (l', vs)" and "0 < maxe" and "need \<le> maxm"
  shows "held l = held l' + mset vs"
proof -
  from lru_evict_bound [OF assms] obtain m where "l = l' @ m" "vs = rev (map (\<lambda>x. fst (snd x)) m)" by blast
  then show ?thesis by (simp add: held_def)
qed

text \<open>A valid cache that owns exactly the accepted values that it has not freed.\<close>

definition balanced :: "'v sqfs_cache \<Rightarrow> 'v multiset \<Rightarrow> bool" where
  "balanced c A \<longleftrightarrow> c_free_fn c \<and> (\<exists>ps. cache_inv c ps \<and> A = held (abs_cache c ps) + mset (c_freed c))"

lemma put_balanced:
  assumes inv: "cache_inv c ps" and s: "s \<le> c_max_memory c" and fresh: "fresh_alloc alloc" and ff: "c_free_fn c"
  shows "\<exists>e c'. sqfs_cache_put alloc ok c k (Some v) s = Some (Inr (e, c'))
    \<and> balanced c' (held (abs_cache c ps) + mset (c_freed c) + mset (if e = None then [v] else []))"
proof (cases "map_of (abs_cache c ps) k")
  case None
  obtain l vs where le: "lru_evict (unat (c_max_entries c)) (unat (c_max_memory c)) (unat s) (abs_cache c ps) = (l, vs)"
    by fastforce
  from cache_put_new [OF inv None s fresh, of ok v] le obtain e c' ps' where
    p: "sqfs_cache_put alloc ok c k (Some v) s = Some (Inr (e, c'))" "cache_inv c' ps'" "same_config c c'"
    "c_freed c' = freed_after c vs"
    and abs: "abs_cache c' ps' = (k, v, s) # l \<and> e = None \<or> abs_cache c' ps' = l \<and> e \<noteq> None" by auto
  have "held (abs_cache c ps) = held l + mset vs"
    using held_evict [OF le] cache_invD(10) [OF inv] s
    by (simp add: limits_ok_def word_le_nat_alt word_less_nat_alt)
  with p abs ff show ?thesis
    by (auto simp: balanced_def freed_after_def same_config_def intro!: exI [of _ e] exI [of _ c'] exI [of _ ps'])
next
  case (Some p)
  obtain v0 s0 where p: "p = (v0, s0)" by fastforce
  from cache_put_existing [OF inv Some [unfolded p] s, of alloc ok v] obtain c' ps' where
    q: "sqfs_cache_put alloc ok c k (Some v) s = Some (Inr (None, c'))" "cache_inv c' ps'" "same_config c c'"
    "abs_cache c' ps' = (k, v, s) # lru_delete k (abs_cache c ps)" "c_freed c' = freed_after c [v0]" by blast
  from held_delete [OF cache_invD(4) [OF inv] Some [unfolded p]] q ff show ?thesis
    by (auto simp: balanced_def freed_after_def same_config_def intro!: exI [of _ c'] exI [of _ ps'])
qed

lemma cache_step_balanced:
  assumes bal: "balanced c A" and fresh: "fresh_alloc alloc"
  shows "\<exists>vs c'. cache_step alloc c x = Some (Inr (vs, c')) \<and> balanced c' (A + mset vs)"
proof -
  from bal obtain ps where ff: "c_free_fn c" and inv: "cache_inv c ps"
    and A: "A = held (abs_cache c ps) + mset (c_freed c)" by (auto simp: balanced_def)
  note dist = cache_invD(4) [OF inv]
  show ?thesis
  proof (cases x)
    case (Get k)
    from cache_get_ok [OF inv, of k] obtain c' ps' where
      "sqfs_cache_get c k = Some (Inr (map_option fst (map_of (abs_cache c ps) k), c'))" "cache_inv c' ps'"
      "abs_cache c' ps' = lru_touch k (abs_cache c ps)" "c_freed c' = c_freed c" "c_free_fn c' = c_free_fn c" by blast
    with ff A show ?thesis by (auto simp: Get balanced_def held_touch [OF dist] intro!: exI [of _ ps'])
  next
    case (Put k v s ok)
    show ?thesis
    proof (cases "c_max_memory c < s")
      case True
      with bal show ?thesis by (simp add: Put put_too_large)
    next
      case False
      then have "s \<le> c_max_memory c" by simp
      from put_balanced [OF inv this fresh ff] obtain e c' where
        "sqfs_cache_put alloc ok c k (Some v) s = Some (Inr (e, c'))"
        "balanced c' (A + mset (if e = None then [v] else []))" unfolding A by blast
      then show ?thesis by (simp add: Put)
    qed
  next
    case (Remove k)
    from cache_remove_ok [OF inv, of k] obtain c' ps' where r: "sqfs_cache_remove c k = Some (Inr c')" "cache_inv c' ps'"
      "abs_cache c' ps' = lru_delete k (abs_cache c ps)" "same_config c c'"
      "c_freed c' = freed_after c (case map_of (abs_cache c ps) k of None \<Rightarrow> [] | Some p \<Rightarrow> [fst p])" by blast
    have "held (abs_cache c ps) + mset (c_freed c) = held (abs_cache c' ps') + mset (c_freed c')"
    proof (cases "map_of (abs_cache c ps) k")
      case None
      then have "lru_delete k (abs_cache c ps) = abs_cache c ps"
        by (intro lru_delete_fresh) (simp add: map_of_eq_None_iff)
      with None show ?thesis using r by (simp add: freed_after_def)
    next
      case (Some p)
      then show ?thesis using held_delete [OF dist, of k "fst p" "snd p"] r ff by (simp add: freed_after_def)
    qed
    with r ff A show ?thesis by (auto simp: Remove balanced_def same_config_def intro!: exI [of _ ps'])
  next
    case Clear
    from cache_clear_ok [OF inv] obtain c' where "sqfs_cache_clear c = Some (Inr c')" "cache_inv c' []"
      "same_config c c'" "c_freed c' = freed_after c (map (\<lambda>x. fst (snd x)) (abs_cache c ps))" by blast
    with ff A show ?thesis
      by (auto simp: Clear balanced_def same_config_def freed_after_def held_def intro!: exI [of _ "[]"])
  qed
qed

lemma cache_run_balanced:
  "balanced c A \<Longrightarrow> fresh_alloc alloc \<Longrightarrow>
     \<exists>vs c'. cache_run alloc c xs = Some (Inr (vs, c')) \<and> balanced c' (A + mset vs)"
proof (induction xs arbitrary: c A)
  case (Cons x xs)
  from cache_step_balanced [OF Cons.prems] obtain vs c1 where
    s: "cache_step alloc c x = Some (Inr (vs, c1))" "balanced c1 (A + mset vs)" by blast
  from Cons.IH [OF s(2) Cons.prems(2)] obtain ws c2 where
    "cache_run alloc c1 xs = Some (Inr (ws, c2))" "balanced c2 (A + mset vs + mset ws)" by blast
  with s show ?case by (auto simp: add.assoc)
qed simp

lemma destroy_balanced:
  assumes "balanced c A"
  shows "\<exists>c'. sqfs_cache_destroy c = Some (Inr c') \<and> c_heap c' = Map.empty \<and> mset (c_freed c') = A"
proof -
  from assms obtain ps where ff: "c_free_fn c" and inv: "cache_inv c ps"
    and A: "A = held (abs_cache c ps) + mset (c_freed c)" by (auto simp: balanced_def)
  show ?thesis
    using ff by (simp add: cache_destroy_ok [OF inv] A freed_after_def held_def) (simp add: zero_cache_def)
qed

section \<open>Properties\<close>

text \<open>A cache of two entries and ten bytes, with a fitting allocator.\<close>

definition small_cache :: "nat sqfs_cache" where
  "small_cache = zero_cache\<lparr>c_max_entries := 2, c_max_memory := 10, c_free_fn := True,
     c_buckets := Some (replicate 64 None), c_bucket_count := 64, c_bucket_mask := 63, c_tables := 1\<rparr>"

lemma small_cache_init: "sqfs_cache_init True True 2 10 True = Inr small_cache"
  by (simp add: sqfs_cache_init_def small_cache_def initial_buckets.simps [of 64 2])

lemma small_cache_inv: "cache_inv small_cache [] \<and> c_max_entries small_cache = 2 \<and> c_max_memory small_cache = 10"
  using cache_init_ok [OF small_cache_init] by simp

lemma fst_snd_small: "abs_cache small_cache [] = []" by simp

text \<open>C20: \<open>sqfs_cache_get\<close> refines the look-up of a list ordered by recency: on every valid cache
  the search ends, no link is dangling, the value found is the one the key is bound to, the entry moves
  to the front and everything else keeps its place; the invariant (list, table, counters and limits
  agree) is kept, exactly one of the two statistics is advanced, and nothing is freed.\<close>
theorem cache_get_refines:
  assumes "cache_inv c ps"
  shows "\<exists>c' ps'. sqfs_cache_get c k = Some (Inr (map_option fst (map_of (abs_cache c ps) k), c'))
    \<and> cache_inv c' ps' \<and> abs_cache c' ps' = lru_touch k (abs_cache c ps)
    \<and> c_hits c' = (if map_of (abs_cache c ps) k = None then c_hits c else c_hits c + 1)
    \<and> c_misses c' = (if map_of (abs_cache c ps) k = None then c_misses c + 1 else c_misses c)
    \<and> c_freed c' = c_freed c"
  using cache_get_ok [OF assms, of k] by blast

theorem cache_get_refines_witness:
  "\<exists>c' ps'. sqfs_cache_get small_cache 7 = Some (Inr (None, c')) \<and> cache_inv c' ps' \<and> c_misses c' = 1"
proof -
  have "c_misses small_cache = 0" by (simp add: small_cache_def zero_cache_def)
  with cache_get_refines [OF conjunct1 [OF small_cache_inv], of 7] show ?thesis by auto
qed

text \<open>C8: \<open>sqfs_cache_put\<close> refines storing in the list ordered by recency: with an allocator that
  delivers, storing a value that is not larger than the whole cache always succeeds; a new key evicts
  least recently used entries until entry and memory limits hold, and no more; a known key has its
  value replaced and moves to the front; the invariant is kept, the evicted or replaced values are
  freed in that order, each once, and a new key leaves the memory limit respected.\<close>
theorem cache_put_refines:
  assumes "cache_inv c ps" and "s \<le> c_max_memory c" and "fresh_alloc alloc"
    and "serves alloc (unat (c_max_entries c))"
  shows "\<exists>c' ps' vs. sqfs_cache_put alloc ok c k (Some v) s = Some (Inr (None, c')) \<and> cache_inv c' ps'
    \<and> lru_put (unat (c_max_entries c)) (unat (c_max_memory c)) k v s (abs_cache c ps) = (abs_cache c' ps', vs)
    \<and> same_config c c' \<and> c_freed c' = freed_after c vs
    \<and> (map_of (abs_cache c ps) k = None \<longrightarrow> c_current_memory c' \<le> c_max_memory c)"
proof -
  from cache_put_ok [OF assms, of ok k v] obtain c' ps' vs where
    p: "sqfs_cache_put alloc ok c k (Some v) s = Some (Inr (None, c'))" "cache_inv c' ps'"
    "lru_put (unat (c_max_entries c)) (unat (c_max_memory c)) k v s (abs_cache c ps) = (abs_cache c' ps', vs)"
    "same_config c c'" "c_freed c' = freed_after c vs" by blast
  have "c_current_memory c' \<le> c_max_memory c" if new: "map_of (abs_cache c ps) k = None"
  proof -
    obtain l where le: "lru_evict (unat (c_max_entries c)) (unat (c_max_memory c)) (unat s) (abs_cache c ps) = (l, vs)"
      and abs: "abs_cache c' ps' = (k, v, s) # l" using p(3) new by (auto simp: lru_put_def split: prod.splits)
    from lru_evict_bound [OF le] assms(2) cache_invD(10) [OF assms(1)]
    have "lru_mem l + unat s \<le> unat (c_max_memory c)"
      by (simp add: limits_ok_def word_le_nat_alt word_less_nat_alt)
    with cache_invD(6) [OF p(2)] abs show ?thesis by (simp add: word_le_nat_alt)
  qed
  then have "map_of (abs_cache c ps) k = None \<longrightarrow> c_current_memory c' \<le> c_max_memory c" by blast
  with p show ?thesis by (intro exI [of _ c'] exI [of _ ps'] exI [of _ vs]) simp
qed

theorem cache_put_refines_witness:
  "\<exists>c' ps' vs. sqfs_cache_put (first_free 2) True small_cache 7 (Some 5) 10 = Some (Inr (None, c'))
    \<and> cache_inv c' ps' \<and> abs_cache c' ps' = [(7, 5, 10)] \<and> c_current_memory c' \<le> 10"
proof -
  have "lru_put (unat (2::u64)) (unat (10::u64)) 7 5 10 [] = ([(7, 5, 10)], [] :: nat list)"
    by (simp add: lru_put_def lru_evict.simps)
  with cache_put_refines [of small_cache "[]" 10 "first_free 2" True 7 5] small_cache_inv
  show ?thesis by (fastforce simp: first_free_fresh first_free_serves)
qed

text \<open>C4: No value is leaked and none is freed twice. From the creation of a cache with a free
  function, through any sequence of look-ups, stores, removals and clearings with any allocator that
  may fail at any time and with reallocations of the table that may fail, to its destruction: every
  operation ends without touching a dead entry, and at the end no entry is left and the free function
  has been called exactly once for every value that a successful store had taken over.\<close>
theorem cache_frees_once:
  assumes "sqfs_cache_init True True maxe maxm True = Inr c" and "(unat maxe + 1) * unat maxm < 2 ^ 64"
    and "fresh_alloc alloc"
  shows "\<exists>accepted c1 c2. cache_run alloc c ops = Some (Inr (accepted, c1))
    \<and> sqfs_cache_destroy c1 = Some (Inr c2) \<and> c_heap c2 = Map.empty \<and> mset (c_freed c2) = mset accepted"
proof -
  from cache_init_ok [OF assms(1,2)] have "balanced c {#}"
    by (auto simp: balanced_def intro!: exI [of _ "[]"])
  from cache_run_balanced [OF this assms(3), of ops] obtain vs c1 where
    run: "cache_run alloc c ops = Some (Inr (vs, c1))" and bal: "balanced c1 (mset vs)" by auto
  from destroy_balanced [OF bal] run show ?thesis by blast
qed

theorem cache_frees_once_witness:
  "\<exists>accepted c1 c2. cache_run (first_free 2) small_cache [Put 1 10 4 True, Put 2 20 4 True, Get 1, Put 3 30 4 True,
      Remove 1, Put 3 31 2 False] = Some (Inr (accepted, c1))
    \<and> sqfs_cache_destroy c1 = Some (Inr c2) \<and> c_heap c2 = Map.empty \<and> mset (c_freed c2) = mset accepted"
  by (rule cache_frees_once [OF small_cache_init]) (simp_all add: first_free_fresh)

text \<open>Replacing the value of a known key is not bounded by the memory limit: the store succeeds
  whatever the other entries take, evicts nothing, and the cache then accounts for the old total less
  the old size plus the new one, which may be more than the limit.\<close>
theorem cache_update_ignores_limit:
  assumes "cache_inv c ps" and k: "map_of (abs_cache c ps) k = Some (v0, s0)" and "s \<le> c_max_memory c"
  shows "\<exists>c' ps'. sqfs_cache_put alloc ok c k (Some v) s = Some (Inr (None, c')) \<and> cache_inv c' ps'
    \<and> unat (c_current_memory c') + unat s0 = unat (c_current_memory c) + unat s
    \<and> c_current_entries c' = c_current_entries c"
proof -
  from cache_put_existing [OF assms, of alloc ok v] obtain c' ps' where
    q: "sqfs_cache_put alloc ok c k (Some v) s = Some (Inr (None, c'))" "cache_inv c' ps'" "same_config c c'"
    "abs_cache c' ps' = (k, v, s) # lru_delete k (abs_cache c ps)" "c_freed c' = freed_after c [v0]" by blast
  from entry_split [OF assms(1) k] obtain xs r ys where ps: "ps = xs @ r # ys"
    and abs: "abs_cache c ps = abs_cache c xs @ (k, v0, s0) # abs_cache c ys"
    and nk: "k \<notin> fst ` set (abs_cache c xs @ abs_cache c ys)" by blast
  have del: "lru_delete k (abs_cache c ps) = abs_cache c xs @ abs_cache c ys"
    using lru_delete_split [OF nk] abs by simp
  have mem: "lru_mem (abs_cache c ps) = unat s0 + lru_mem (lru_delete k (abs_cache c ps))"
    by (simp only: del) (simp add: abs)
  have "unat (c_current_memory c') + unat s0 = unat (c_current_memory c) + unat s"
    using cache_invD(6) [OF q(2)] cache_invD(6) [OF assms(1)] mem by (simp add: q(4))
  moreover have "length ps' = length ps"
    using arg_cong [OF q(4), of length] by (simp add: del) (simp add: ps)
  then have "c_current_entries c' = c_current_entries c"
    using cache_invD(5) [OF q(2)] cache_invD(5) [OF assms(1)] by (simp add: word_unat_eq_iff)
  ultimately show ?thesis using q by blast
qed

theorem cache_update_ignores_limit_witness:
  "\<exists>c' ps'. sqfs_cache_put (first_free 2) True (snd (projr (the (sqfs_cache_put (first_free 2) True
       (snd (projr (the (sqfs_cache_put (first_free 2) True small_cache 1 (Some 10) 1)))) 2 (Some 20) 9))))
     1 (Some 11) 10 = Some (Inr (None, c')) \<and> cache_inv c' ps' \<and> unat (c_current_memory c') = 19
     \<and> c_max_memory small_cache = 10"
proof -
  have room: "lru_put (unat (2::u64)) (unat (10::u64)) 1 10 1 [] = ([(1, 10, 1)], [] :: nat list)"
    "lru_put (unat (2::u64)) (unat (10::u64)) 2 20 9 [(1, 10, 1)] = ([(2, 20, 9), (1, 10, 1)], [] :: nat list)"
    by (simp_all add: lru_put_def lru_evict.simps)
  note small = small_cache_inv [THEN conjunct1] small_cache_inv [THEN conjunct2, THEN conjunct1]
    small_cache_inv [THEN conjunct2, THEN conjunct2] first_free_fresh first_free_serves
  from cache_put_ok [of small_cache "[]" 1 "first_free 2" True 1 10] room(1) obtain c1 ps1 where
    p1: "sqfs_cache_put (first_free 2) True small_cache 1 (Some 10) 1 = Some (Inr (None, c1))" "cache_inv c1 ps1"
    "abs_cache c1 ps1 = [(1, 10, 1)]" "same_config small_cache c1" by (fastforce simp: small)
  have cfg1: "c_max_entries c1 = 2" "c_max_memory c1 = 10" using p1(4) by (simp_all add: same_config_def small)
  from cache_put_ok [of c1 ps1 9 "first_free 2" True 2 20] room(2) p1 obtain c2 ps2 where
    p2: "sqfs_cache_put (first_free 2) True c1 2 (Some 20) 9 = Some (Inr (None, c2))" "cache_inv c2 ps2"
    "abs_cache c2 ps2 = [(2, 20, 9), (1, 10, 1)]" "same_config c1 c2" by (fastforce simp: small cfg1)
  have cfg2: "c_max_memory c2 = 10" using p2(4) by (simp add: same_config_def cfg1)
  have cur: "unat (c_current_memory c2) = 10" using cache_invD(6) [OF p2(2)] by (simp add: p2(3))
  have s: "10 \<le> c_max_memory c2" by (simp add: cfg2)
  have k: "map_of (abs_cache c2 ps2) 1 = Some (10, 1)" by (simp add: p2(3))
  from cache_update_ignores_limit [OF p2(2) k s, of "first_free 2" True 11] cur
  show ?thesis by (simp add: p1(1) p2(1) small) metis
qed

text \<open>C39: The value handed out by a look-up is not protected: between the two locks of
  \<open>sqfs_cache_get\<close> another thread may remove the key. The value is freed, the second step finds
  nothing and changes nothing, and the look-up still returns the freed value.\<close>
theorem cache_get_returns_freed:
  assumes "cache_inv c ps" and k: "map_of (abs_cache c ps) k = Some (v, s)" and ff: "c_free_fn c"
  shows "\<exists>c1 c2. cache_get_find c k = Some (Inr (Some v, c1)) \<and> sqfs_cache_remove c1 k = Some (Inr c2)
    \<and> cache_get_touch c2 k = Some (Inr c2) \<and> c_freed c2 = c_freed c @ [v]"
proof -
  from entry_split [OF assms(1) k] obtain xs r ys where ps: "ps = xs @ r # ys" and key: "key_of c r = k"
    and kv: "key_view (c_heap c) r = Some (k, v, s)" by blast
  have e: "\<exists>e. c_heap c r = Some e \<and> ce_value e = v" using kv by (auto simp: key_view_def)
  define c1 where "c1 = c\<lparr>c_hits := c_hits c + 1\<rparr>"
  have find: "cache_get_find c k = Some (Inr (Some v, c1))"
    using find_hit [OF assms(1) [unfolded ps] key] e by (auto simp: cache_get_find_def deref_def c1_def)
  have c1: "cache_inv c1 ps" "abs_cache c1 ps = abs_cache c ps"
    using cache_inv_cong [of c1 c ps] assms(1) by (simp_all add: c1_def)
  from cache_remove_ok [OF c1(1), of k] obtain c2 ps2 where r: "sqfs_cache_remove c1 k = Some (Inr c2)"
    "cache_inv c2 ps2" "abs_cache c2 ps2 = lru_delete k (abs_cache c ps)" "same_config c1 c2"
    "c_freed c2 = freed_after c1 [v]" by (auto simp: c1(2) k)
  have "map_of (abs_cache c2 ps2) k = None" by (simp add: r(3) lru_delete_def map_of_eq_None_iff image_iff)
  from find_miss [OF r(2) this] have "cache_get_touch c2 k = Some (Inr c2)" by (simp add: cache_get_touch_def)
  with find r ff show ?thesis by (auto simp: freed_after_def c1_def)
qed

theorem cache_get_returns_freed_witness:
  "\<exists>c c1 c2. sqfs_cache_put (first_free 2) True small_cache 7 (Some 5) 10 = Some (Inr (None, c))
    \<and> cache_get_find c 7 = Some (Inr (Some 5, c1)) \<and> sqfs_cache_remove c1 7 = Some (Inr c2)
    \<and> cache_get_touch c2 7 = Some (Inr c2) \<and> c_freed c2 = [5]"
proof -
  have room: "lru_put (unat (2::u64)) (unat (10::u64)) 7 5 10 [] = ([(7, 5, 10)], [] :: nat list)"
    by (simp add: lru_put_def lru_evict.simps)
  have "c_free_fn small_cache" "c_freed small_cache = []" by (simp_all add: small_cache_def zero_cache_def)
  with cache_put_ok [of small_cache "[]" 10 "first_free 2" True 7 5] small_cache_inv room
  obtain c ps where p: "sqfs_cache_put (first_free 2) True small_cache 7 (Some 5) 10 = Some (Inr (None, c))"
    "cache_inv c ps" "abs_cache c ps = [(7, 5, 10)]" "c_free_fn c" "c_freed c = []"
    by (fastforce simp: first_free_fresh first_free_serves same_config_def freed_after_def)
  have "map_of (abs_cache c ps) 7 = Some (5, 10)" by (simp add: p(3))
  from cache_get_returns_freed [OF p(2) this p(4)] p show ?thesis by auto
qed

end
