(* ===== verification/Context.thy ===== *)
theory Context
  imports DataBlock CacheStore
begin

text \<open>
  \<open>src/core/context.h\<close>: the context of a mounted image, and the tables and cache entries it
  holds. The operations that read through the data cache change the context, may fail, and may
  not return; they are composed with \<open>obind\<close>.
\<close>

section \<open>Cache entries\<close>

text \<open>
  \<open>sqfs_data_block_entry_t\<close> and \<open>sqfs_fragment_t\<close>: the same four members in the same order. Both
  are stored in the data cache as untyped pointers and released by the same function.
\<close>

record block_entry =
  be_block_pos :: u64
  be_data :: "byte list option"
  be_data_size :: nat
  be_is_cached :: bool

definition zero_block_entry :: block_entry where
  "zero_block_entry = \<lparr>be_block_pos = 0, be_data = None, be_data_size = 0, be_is_cached = False\<rparr>"

definition SIZEOF_block_entry :: nat where "SIZEOF_block_entry = 32"

definition sqfs_data_block_cache_new :: "allocator \<Rightarrow> block_entry option" where
  "sqfs_data_block_cache_new mem =
     (if sqfs_calloc mem 1 SIZEOF_block_entry = 0 then None else Some zero_block_entry)"

definition sqfs_fragment_cache_entry_new :: "allocator \<Rightarrow> block_entry option" where
  "sqfs_fragment_cache_entry_new mem =
     (if sqfs_calloc mem 1 SIZEOF_block_entry = 0 then None else Some zero_block_entry)"

definition sqfs_data_block_cache_key :: "u64 \<Rightarrow> cache_key" where
  "sqfs_data_block_cache_key block_pos = block_pos"

definition sqfs_fragment_cache_key :: "u32 \<Rightarrow> cache_key" where
  "sqfs_fragment_cache_key frag_idx = ucast frag_idx"

section \<open>Tables\<close>

record sqfs_frag_entry =
  fe_start :: u64
  fe_size :: u32
  fe_unused :: u32

record sqfs_fragment_table =
  ft_entries :: "sqfs_frag_entry list option"
  ft_count :: u32
  ft_loaded :: bool

record sqfs_xattr_id_entry =
  xe_xattr_ref :: u64
  xe_count :: u32
  xe_size :: u32

record sqfs_xattr_table =
  xt_entries :: "sqfs_xattr_id_entry list option"
  xt_count :: u64
  xt_table_start :: u64
  xt_loaded :: bool

section \<open>The context\<close>

text \<open>The directory and the metadata cache are never filled.\<close>

record sqfs_ctx = sqfs_image +
  ctx_inode_cache :: "sqfs_inode sqfs_cache"
  ctx_dir_cache :: "unit sqfs_cache"
  ctx_meta_cache :: "unit sqfs_cache"
  ctx_data_cache :: "block_entry sqfs_cache"
  ctx_id_table :: "u32 list option"
  ctx_id_count :: nat
  ctx_fragment_table :: "sqfs_fragment_table option"
  ctx_fragment_table_loaded :: bool
  ctx_xattr_table :: "sqfs_xattr_table option"
  ctx_no_cache :: bool
  ctx_debug_level :: int

text \<open>What the heap answers: to the code's own allocations, to a new cache entry, to a larger
  table of the cache.\<close>

record heap_env =
  h_mem :: allocator
  h_entry :: "block_entry entry_alloc"
  h_table :: bool

section \<open>Operations on the context\<close>

type_synonym 'a op = "sqfs_ctx \<Rightarrow> ('a res \<times> sqfs_ctx) option"

definition olift :: "'a res \<Rightarrow> 'a op" where
  "olift r ctx = Some (r, ctx)"

definition obind :: "'a op \<Rightarrow> ('a \<Rightarrow> 'b op) \<Rightarrow> 'b op" where
  "obind m f ctx =
     (case m ctx of
        None \<Rightarrow> None
      | Some (r, ctx) \<Rightarrow> (case r of Inl e \<Rightarrow> Some (Inl e, ctx) | Inr x \<Rightarrow> f x ctx))"

lemma olift_apply [simp]: "olift r ctx = Some (r, ctx)"
  by (simp add: olift_def)

lemma obind_simps [simp]:
  "m ctx = None \<Longrightarrow> obind m f ctx = None"
  "m ctx = Some (Inl e, ctx') \<Longrightarrow> obind m f ctx = Some (Inl e, ctx')"
  "m ctx = Some (Inr x, ctx') \<Longrightarrow> obind m f ctx = f x ctx'"
  by (simp_all add: obind_def)

lemma obind_olift [simp]:
  "obind (olift (Inr x)) f = f x"
  "obind (olift (Inl e)) f = olift (Inl e)"
  by (simp_all add: fun_eq_iff)

text \<open>A fault inside of the cache is a fault of the caller. A look-up has no error code.\<close>

definition data_cache_get :: "cache_key \<Rightarrow> block_entry option op" where
  "data_cache_get key ctx =
     (case sqfs_cache_get (ctx_data_cache ctx) key of
        None \<Rightarrow> None
      | Some (Inl (Fault f)) \<Rightarrow> Some (Inl (Fault f), ctx)
      | Some (Inl (Err e)) \<Rightarrow> Some (Inr None, ctx)
      | Some (Inr (v, c)) \<Rightarrow> Some (Inr v, ctx\<lparr>ctx_data_cache := c\<rparr>))"

text \<open>The result is \<open>errno\<close> when the value was not taken over.\<close>

definition data_cache_put :: "heap_env \<Rightarrow> cache_key \<Rightarrow> block_entry \<Rightarrow> u64 \<Rightarrow> errno option op" where
  "data_cache_put E key v memory_size ctx =
     (case sqfs_cache_put (guard_alloc (h_entry E)) (h_table E) (ctx_data_cache ctx) key (Some v) memory_size of
        None \<Rightarrow> None
      | Some (Inl (Fault f)) \<Rightarrow> Some (Inl (Fault f), ctx)
      | Some (Inl (Err e)) \<Rightarrow> Some (Inr (Some e), ctx)
      | Some (Inr (r, c)) \<Rightarrow> Some (Inr r, ctx\<lparr>ctx_data_cache := c\<rparr>))"

section \<open>A coherent cache\<close>

text \<open>
  What the keys of the data cache stand for: a partial map from keys to block contents. The cache
  is coherent with it when it is valid and every entry holds the content of its key.
\<close>

type_synonym key_map = "cache_key \<Rightarrow> byte list option"

definition entry_holds :: "block_entry \<Rightarrow> byte list \<Rightarrow> bool" where
  "entry_holds v d \<longleftrightarrow> be_is_cached v \<and> be_data v = Some d \<and> be_data_size v = length d"

definition coherent :: "key_map \<Rightarrow> sqfs_ctx \<Rightarrow> bool" where
  "coherent K ctx \<longleftrightarrow> lru.sound (\<lambda>k v. \<exists>d. K k = Some d \<and> entry_holds v d) (ctx_data_cache ctx)"

text \<open>Two contexts that differ at most in their data caches.\<close>

definition same_ctx :: "sqfs_ctx \<Rightarrow> sqfs_ctx \<Rightarrow> bool" where
  "same_ctx a b \<longleftrightarrow> (\<exists>c. b = a\<lparr>ctx_data_cache := c\<rparr>)"

lemma same_ctx_refl [simp]: "same_ctx a a"
  unfolding same_ctx_def by (rule exI [of _ "ctx_data_cache a"]) simp

lemma same_ctx_trans: "same_ctx a b \<Longrightarrow> same_ctx b c \<Longrightarrow> same_ctx a c"
  by (auto simp: same_ctx_def)

lemma same_ctx_fields:
  "same_ctx a b \<Longrightarrow> ctx_sb b = ctx_sb a \<and> ctx_comp b = ctx_comp a \<and> ctx_fragment_table b = ctx_fragment_table a"
  by (auto simp: same_ctx_def)

lemma data_cache_get_coherent:
  assumes "coherent K ctx"
  obtains v ctx' where "data_cache_get k ctx = Some (Inr v, ctx')" and "coherent K ctx'" and "same_ctx ctx ctx'"
    and "\<And>x. v = Some x \<Longrightarrow> \<exists>d. K k = Some d \<and> entry_holds x d"
proof -
  define P where "P = (\<lambda>k v. \<exists>d. K k = Some d \<and> entry_holds v d)"
  have P: "lru.sound P (ctx_data_cache ctx)" using assms by (simp add: coherent_def P_def)
  obtain v c' where get: "sqfs_cache_get (ctx_data_cache ctx) k = Some (Inr (v, c'))"
    and c': "lru.sound P c'" and v: "\<forall>x. v = Some x \<longrightarrow> P k x"
    by (rule lru.get_sound [OF P, where k = k]) blast
  show ?thesis
  proof (rule that)
    show "data_cache_get k ctx = Some (Inr v, ctx\<lparr>ctx_data_cache := c'\<rparr>)"
      by (simp add: data_cache_get_def get)
    show "coherent K (ctx\<lparr>ctx_data_cache := c'\<rparr>)" using c' by (simp add: coherent_def P_def)
    show "same_ctx ctx (ctx\<lparr>ctx_data_cache := c'\<rparr>)" unfolding same_ctx_def by blast
    show "\<exists>d. K k = Some d \<and> entry_holds x d" if "v = Some x" for x using v that by (simp add: P_def)
  qed
qed

lemma data_cache_put_coherent:
  assumes "coherent K ctx" and "K k = Some d" and "entry_holds v d"
  obtains e ctx' where "data_cache_put E k v s ctx = Some (Inr e, ctx')" and "coherent K ctx'" and "same_ctx ctx ctx'"
proof -
  define P where "P = (\<lambda>k v. \<exists>d. K k = Some d \<and> entry_holds v d)"
  have P: "lru.sound P (ctx_data_cache ctx)" "P k v" using assms by (auto simp: coherent_def P_def)
  obtain e c' where
    put: "sqfs_cache_put (guard_alloc (h_entry E)) (h_table E) (ctx_data_cache ctx) k (Some v) s = Some (Inr (e, c'))"
    and c': "lru.sound P c'" by (rule lru.put_sound [OF P])
  show ?thesis
  proof (rule that)
    show "data_cache_put E k v s ctx = Some (Inr e, ctx\<lparr>ctx_data_cache := c'\<rparr>)"
      by (simp add: data_cache_put_def put)
    show "coherent K (ctx\<lparr>ctx_data_cache := c'\<rparr>)" using c' by (simp add: coherent_def P_def)
    show "same_ctx ctx (ctx\<lparr>ctx_data_cache := c'\<rparr>)" unfolding same_ctx_def by blast
  qed
qed

end
