(* ===== verification/Fragment.thy ===== *)
theory Fragment
  imports Context ReadBuffer
begin

text \<open>
  \<open>src/core/fragment.h\<close> and \<open>src/core/fragment.c\<close>: the fragment table, loaded once through its
  two-level index, the location of a fragment block, its reader, and the read of a file's tail out
  of a fragment through the data cache. The printing routine is in \<open>Printing\<close>.
\<close>

section \<open>Encoded sizes\<close>

definition FRAGMENT_ENTRIES_PER_BLOCK :: nat where "FRAGMENT_ENTRIES_PER_BLOCK = 512"
definition SIZEOF_frag_entry :: nat where "SIZEOF_frag_entry = 16"

definition sqfs_fragment_is_uncompressed :: "u32 \<Rightarrow> bool" where
  "sqfs_fragment_is_uncompressed sz \<longleftrightarrow> sz AND push_bit 24 1 \<noteq> 0"

definition sqfs_fragment_size :: "u32 \<Rightarrow> u32" where
  "sqfs_fragment_size sz = sz AND 0x00FFFFFF"

definition sqfs_fragment_table_blocks :: "u32 \<Rightarrow> u32" where
  "sqfs_fragment_table_blocks fcount = (fcount + 511) div 512"

section \<open>The table\<close>

definition sqfs_fragment_table_init :: sqfs_fragment_table where
  "sqfs_fragment_table_init = \<lparr>ft_entries = None, ft_count = 0, ft_loaded = False\<rparr>"

definition sqfs_fragment_table_destroy :: "sqfs_fragment_table \<Rightarrow> sqfs_fragment_table" where
  "sqfs_fragment_table_destroy t = t\<lparr>ft_entries := None, ft_count := 0, ft_loaded := False\<rparr>"

text \<open>The structures are copied as they lie on disk, on a little-endian host.\<close>

fun get_u64s :: "byte list \<Rightarrow> nat \<Rightarrow> nat \<Rightarrow> u64 list res" where
  "get_u64s data off 0 = Inr []"
| "get_u64s data off (Suc n) =
     rbind (get_le64 data off) (\<lambda>x. rbind (get_u64s data (off + 8) n) (\<lambda>xs. Inr (x # xs)))"

definition get_frag_entry :: "byte list \<Rightarrow> nat \<Rightarrow> sqfs_frag_entry res" where
  "get_frag_entry data off =
     rbind (get_le64 data off) (\<lambda>start. rbind (get_le32 data (off + 8)) (\<lambda>sz.
     rbind (get_le32 data (off + 12)) (\<lambda>unused.
       Inr \<lparr>fe_start = start, fe_size = sz, fe_unused = unused\<rparr>)))"

fun get_frag_entries :: "byte list \<Rightarrow> nat \<Rightarrow> nat \<Rightarrow> sqfs_frag_entry list res" where
  "get_frag_entries data off 0 = Inr []"
| "get_frag_entries data off (Suc n) =
     rbind (get_frag_entry data off) (\<lambda>x.
     rbind (get_frag_entries data (off + SIZEOF_frag_entry) n) (\<lambda>xs. Inr (x # xs)))"

definition zero_frag_entry :: sqfs_frag_entry where
  "zero_frag_entry = \<lparr>fe_start = 0, fe_size = 0, fe_unused = 0\<rparr>"

text \<open>The number of blocks is computed on 32 bits. \<open>None\<close> is the null pointer.\<close>

definition read_fragment_table_index ::
  "allocator \<Rightarrow> os_file \<Rightarrow> u64 \<Rightarrow> u32 \<Rightarrow> (u64 list option \<times> u32) res" where
  "read_fragment_table_index mem fd table_pos fcount =
     (if fcount = 0 then Inr (None, 0)
      else let num_blocks = (fcount + of_nat FRAGMENT_ENTRIES_PER_BLOCK - 1) div of_nat FRAGMENT_ENTRIES_PER_BLOCK;
               index_size = unat num_blocks * 8
           in if sqfs_malloc mem index_size = 0 then Inl (Err SQFS_ERR_NO_MEMORY)
              else rbind (sqfs_pread_all fd index_size table_pos) (\<lambda>b.
                rbind (get_u64s b 0 (unat num_blocks)) (\<lambda>index. Inr (Some index, num_blocks))))"

text \<open>The loop over the blocks; \<open>left\<close> is \<open>frag_count - entries_read\<close>. What the loop does not
  write stays zero.\<close>

fun load_entries_loop ::
  "allocator \<Rightarrow> os_file \<Rightarrow> u64 list \<Rightarrow> nat \<Rightarrow> sqfs_compressor option \<Rightarrow> sqfs_frag_entry list res" where
  "load_entries_loop mem fd [] left cmp = Inr (replicate left zero_frag_entry)"
| "load_entries_loop mem fd (block_pos # index) left cmp =
     rbind (sqfs_meta_read_block mem fd block_pos cmp) (\<lambda>block_buf.
       let entries_in_block = (if FRAGMENT_ENTRIES_PER_BLOCK < left then FRAGMENT_ENTRIES_PER_BLOCK else left);
           copy_size = entries_in_block * SIZEOF_frag_entry
       in if length block_buf < copy_size then Inl (Err SQFS_ERR_CORRUPT)
          else rbind (get_frag_entries block_buf 0 entries_in_block) (\<lambda>es.
            rbind (load_entries_loop mem fd index (left - entries_in_block) cmp) (\<lambda>rest. Inr (es @ rest))))"

definition load_fragment_entries ::
  "allocator \<Rightarrow> os_file \<Rightarrow> u64 list \<Rightarrow> u32 \<Rightarrow> sqfs_compressor option \<Rightarrow> sqfs_frag_entry list res" where
  "load_fragment_entries mem fd index fcount cmp =
     (if sqfs_malloc mem SQFS_META_BLOCK_SIZE = 0 then Inl (Err SQFS_ERR_NO_MEMORY)
      else load_entries_loop mem fd index (unat fcount) cmp)"

text \<open>The reading part of \<open>sqfs_fragment_table_load\<close>: the new entries array.\<close>

definition fragment_entries_read :: "allocator \<Rightarrow> sqfs_ctx \<Rightarrow> u32 \<Rightarrow> sqfs_frag_entry list res" where
  "fragment_entries_read mem ctx fcount =
     (if sqfs_calloc mem (unat fcount) SIZEOF_frag_entry = 0 then Inl (Err SQFS_ERR_NO_MEMORY)
      else rbind (read_fragment_table_index mem (sb_fd (ctx_sb ctx)) (frag_table (disk (ctx_sb ctx))) fcount)
        (\<lambda>(index, num_blocks).
           case index of
             Some xs \<Rightarrow>
               if 0 < num_blocks
               then load_fragment_entries mem (sb_fd (ctx_sb ctx)) xs fcount (ctx_comp ctx)
               else Inr (replicate (unat fcount) zero_frag_entry)
           | None \<Rightarrow> Inr (replicate (unat fcount) zero_frag_entry)))"

definition sqfs_fragment_table_load :: "allocator \<Rightarrow> unit op" where
  "sqfs_fragment_table_load mem ctx =
     (case ctx_fragment_table ctx of
        None \<Rightarrow> Some (Inl (Fault Null_Deref), ctx)
      | Some t \<Rightarrow>
          if ft_loaded t then Some (Inr (), ctx)
          else if \<not> has_fragments (ctx_sb ctx) \<or> frag_count (disk (ctx_sb ctx)) = 0 then
            Some (Inr (), ctx\<lparr>ctx_fragment_table := Some (t\<lparr>ft_entries := None, ft_count := 0, ft_loaded := True\<rparr>)\<rparr>)
          else (case fragment_entries_read mem ctx (frag_count (disk (ctx_sb ctx))) of
              Inl e \<Rightarrow> Some (Inl e, ctx\<lparr>ctx_fragment_table := Some (t\<lparr>ft_entries := None\<rparr>)\<rparr>)
            | Inr es \<Rightarrow> Some (Inr (), ctx\<lparr>ctx_fragment_table := Some (t\<lparr>ft_entries := Some es,
                ft_count := frag_count (disk (ctx_sb ctx)), ft_loaded := True\<rparr>)\<rparr>)))"

definition sqfs_fragment_get_entry :: "sqfs_ctx \<Rightarrow> u32 \<Rightarrow> sqfs_frag_entry res" where
  "sqfs_fragment_get_entry ctx idx =
     (case ctx_fragment_table ctx of
        None \<Rightarrow> Inl (Fault Null_Deref)
      | Some t \<Rightarrow>
          if \<not> ft_loaded t then Inl (Err SQFS_ERR_CORRUPT)
          else if ft_count t \<le> idx then Inl (Err SQFS_ERR_NOT_FOUND)
          else (case ft_entries t of
              None \<Rightarrow> Inl (Fault Null_Deref)
            | Some es \<Rightarrow> if unat idx < length es then Inr (es ! unat idx) else Inl (Fault OOB_Read)))"

definition sqfs_fragment_index_valid :: "sqfs_ctx \<Rightarrow> u32 \<Rightarrow> bool res" where
  "sqfs_fragment_index_valid ctx idx =
     (case ctx_fragment_table ctx of
        None \<Rightarrow> Inl (Fault Null_Deref)
      | Some t \<Rightarrow> Inr (ft_loaded t \<and> idx < ft_count t))"

section \<open>Fragment blocks\<close>

definition sqfs_fragment_location :: "sqfs_ctx \<Rightarrow> u32 \<Rightarrow> (u64 \<times> u32) res" where
  "sqfs_fragment_location ctx frag_idx =
     (if sqfs_fragment_is_none frag_idx then Inl (Err SQFS_ERR_NOT_FOUND)
      else rbind (sqfs_fragment_get_entry ctx frag_idx) (\<lambda>entry.
        if fe_start entry = 0 \<and> fe_size entry = 0 then Inl (Err SQFS_ERR_CORRUPT)
        else Inr (fe_start entry, fe_size entry)))"

text \<open>The buffer has the size of a data block; the size of an uncompressed fragment block is not
  compared with it.\<close>

definition sqfs_fragment_read_block :: "allocator \<Rightarrow> sqfs_ctx \<Rightarrow> u32 \<Rightarrow> byte list res" where
  "sqfs_fragment_read_block mem ctx frag_idx =
     rbind (sqfs_fragment_location ctx frag_idx) (\<lambda>(block_pos, disk_size).
       let actual_size = unat (sqfs_fragment_size disk_size);
           block_buf_size = unat (block_size (disk (ctx_sb ctx)))
       in if sqfs_fragment_is_uncompressed disk_size then
            sqfs_pread_buf (sb_fd (ctx_sb ctx)) block_buf_size actual_size block_pos
          else rbind
            (if actual_size < block_buf_size then Inr (Inside (block_buf_size - actual_size))
             else if sqfs_malloc mem actual_size = 0 then Inl (Err SQFS_ERR_NO_MEMORY)
             else Inr Disjoint) (\<lambda>place.
            rbind (sqfs_pread_all (sb_fd (ctx_sb ctx)) actual_size block_pos) (\<lambda>src.
              recode (Err SQFS_ERR_CORRUPT)
                (sqfs_compressor_decompress (ctx_comp ctx) place src block_buf_size))))"

text \<open>The copy out of a fragment: zeros when the offset lies behind its data.\<close>

definition fragment_copy :: "nat \<Rightarrow> block_entry \<Rightarrow> nat \<Rightarrow> nat \<Rightarrow> byte list res" where
  "fragment_copy bsize frag offset sz =
     (let available = be_data_size frag in
      if available < offset then Inr (replicate (if sz < bsize - offset then sz else bsize - offset) 0)
      else let to_copy = (if sz < available - offset then sz else available - offset)
           in case be_data frag of
                None \<Rightarrow> Inl (Fault Null_Deref)
              | Some d \<Rightarrow> mem_read d offset to_copy)"

text \<open>On a miss the block is read into a new entry, the entry is offered to the cache, and the
  data is copied out of it; an entry that the cache does not take is freed afterwards.\<close>

definition fragment_fetch :: "heap_env \<Rightarrow> u32 \<Rightarrow> block_entry op" where
  "fragment_fetch E frag_idx ctx =
     (case sqfs_fragment_cache_entry_new (h_mem E) of
        None \<Rightarrow> Some (Inl (Err SQFS_ERR_NO_MEMORY), ctx)
      | Some frag \<Rightarrow>
          if sqfs_malloc (h_mem E) (unat (block_size (disk (ctx_sb ctx)))) = 0
          then Some (Inl (Err SQFS_ERR_NO_MEMORY), ctx)
          else obind (olift (sqfs_fragment_read_block (h_mem E) ctx frag_idx)) (\<lambda>d.
            let frag = frag\<lparr>be_data := Some d, be_data_size := length d, be_is_cached := True\<rparr>
            in obind (data_cache_put E (sqfs_fragment_cache_key frag_idx) frag
                 (of_nat SIZEOF_block_entry + ucast (block_size (disk (ctx_sb ctx))))) (\<lambda>_. olift (Inr frag))) ctx)"

definition sqfs_fragment_read :: "heap_env \<Rightarrow> u32 \<Rightarrow> u32 \<Rightarrow> nat \<Rightarrow> byte list op" where
  "sqfs_fragment_read E frag_idx offset sz ctx =
     (let bsize = unat (block_size (disk (ctx_sb ctx))) in
      if sqfs_fragment_is_none frag_idx then Some (Inl (Err SQFS_ERR_NOT_FOUND), ctx)
      else if bsize \<le> unat offset then Some (Inl (Err SQFS_ERR_CORRUPT), ctx)
      else obind (data_cache_get (sqfs_fragment_cache_key frag_idx)) (\<lambda>cached.
        case cached of
          Some frag \<Rightarrow>
            if be_is_cached frag then olift (fragment_copy bsize frag (unat offset) sz)
            else obind (fragment_fetch E frag_idx) (\<lambda>frag. olift (fragment_copy bsize frag (unat offset) sz))
        | None \<Rightarrow>
            obind (fragment_fetch E frag_idx) (\<lambda>frag. olift (fragment_copy bsize frag (unat offset) sz))) ctx)"

end
