(* ===== verification/DataRead.thy ===== *)
theory DataRead
  imports Fragment
begin

text \<open>
  The file reader of \<open>src/core/data.c\<close>: \<open>sqfs_data_read\<close> with its loop over the blocks a read
  touches, through the data cache, and its tail out of a fragment. The loop is a partial
  function: its result \<open>None\<close> says that it never ends.

  The function returns the number of bytes as an \<open>int\<close>; here it returns the bytes it has put into
  the caller's buffer, whose number is that result as long as it is below \<open>2\<^sup>3\<^sup>1\<close>.
  \<open>sqfs_data_read_internal\<close> has one caller, which passes all of the context, so its branches for
  a missing cache and a missing context are never taken.
\<close>

section \<open>The tail\<close>

text \<open>Whatever error the fragment code reports, the caller gets zeros.\<close>

definition read_from_fragment :: "heap_env \<Rightarrow> u32 \<Rightarrow> u32 \<Rightarrow> nat \<Rightarrow> byte list op" where
  "read_from_fragment E frag_idx frag_offset sz ctx =
     (case sqfs_fragment_read E frag_idx frag_offset sz ctx of
        None \<Rightarrow> None
      | Some (r, ctx) \<Rightarrow>
          (case r of
             Inr b \<Rightarrow> Some (Inr b, ctx)
           | Inl (Err e) \<Rightarrow> Some (Inr (replicate sz 0), ctx)
           | Inl (Fault f) \<Rightarrow> Some (Inl (Fault f), ctx)))"

section \<open>One block\<close>

datatype read_step = Read_done "byte list" | Read_more "byte list"

text \<open>The bytes a cached block gives, if it is marked valid and the offset lies inside of it.\<close>

definition copy_cached :: "block_entry option \<Rightarrow> nat \<Rightarrow> nat \<Rightarrow> byte list res option" where
  "copy_cached cached block_offset remaining =
     (case cached of
        None \<Rightarrow> None
      | Some v \<Rightarrow>
          if be_is_cached v then
            (let to_copy = unat (of_nat (be_data_size v) - of_nat block_offset :: u64);
                 to_copy = (if remaining < to_copy then remaining else to_copy)
             in if 0 < to_copy \<and> block_offset < be_data_size v then
                  Some (case be_data v of
                          None \<Rightarrow> Inl (Fault Null_Deref)
                        | Some d \<Rightarrow> mem_read d block_offset to_copy)
                else None)
          else None)"

text \<open>A decoded block is offered to the cache in a fresh entry; failures are ignored.\<close>

definition cache_block :: "heap_env \<Rightarrow> u64 \<Rightarrow> byte list \<Rightarrow> unit op" where
  "cache_block E block_pos d ctx =
     (if d = [] then Some (Inr (), ctx)
      else case sqfs_data_block_cache_new (h_mem E) of
          None \<Rightarrow> Some (Inr (), ctx)
        | Some v \<Rightarrow>
            if sqfs_malloc (h_mem E) (length d) = 0 then Some (Inr (), ctx)
            else obind (data_cache_put E (sqfs_data_block_cache_key block_pos)
                   (v\<lparr>be_data := Some d, be_data_size := length d, be_block_pos := block_pos, be_is_cached := True\<rparr>)
                   (of_nat SIZEOF_block_entry + of_nat (length d))) (\<lambda>_. olift (Inr ())) ctx)"

text \<open>The copy out of the work buffer, which has the size of a block and of which this round has
  written the decoded bytes. The subtraction of the offset is on 64 bits.\<close>

definition copy_decoded :: "nat \<Rightarrow> byte list \<Rightarrow> nat \<Rightarrow> nat \<Rightarrow> byte list res" where
  "copy_decoded bsize d block_offset remaining =
     (let to_copy = bsize - block_offset;
          to_copy = (if remaining < to_copy then remaining else to_copy);
          actual = unat (of_nat (length d) - of_nat block_offset :: u64);
          to_copy = (if actual < to_copy then actual else to_copy)
      in if to_copy = 0 then Inr []
         else if block_offset + to_copy \<le> length d then Inr (segment d block_offset to_copy)
         else if block_offset + to_copy \<le> bsize then Inl (Fault Uninit_Read)
         else Inl (Fault OOB_Read))"

definition read_miss ::
  "heap_env \<Rightarrow> sqfs_file_ctx \<Rightarrow> u64 \<Rightarrow> u32 \<Rightarrow> nat \<Rightarrow> nat \<Rightarrow> read_step op" where
  "read_miss E fc block_pos disk_size block_offset remaining ctx =
     obind (olift (sqfs_data_read_block (h_mem E) (sb_fd (ctx_sb ctx)) block_pos disk_size
                     (unat (fc_block_size fc)) (ctx_comp ctx))) (\<lambda>d.
       obind (cache_block E block_pos d) (\<lambda>_.
         olift (rbind (copy_decoded (unat (fc_block_size fc)) d block_offset remaining)
           (\<lambda>b. Inr (Read_more b))))) ctx"

text \<open>A non-sparse block: out of the cache, or from disk.\<close>

definition read_stored ::
  "heap_env \<Rightarrow> sqfs_file_ctx \<Rightarrow> u64 \<Rightarrow> u32 \<Rightarrow> nat \<Rightarrow> nat \<Rightarrow> read_step op" where
  "read_stored E fc block_pos disk_size block_offset remaining =
     obind (data_cache_get (sqfs_data_block_cache_key block_pos)) (\<lambda>cached.
       case copy_cached cached block_offset remaining of
         Some r \<Rightarrow> olift (rbind r (\<lambda>b. Inr (Read_more b)))
       | None \<Rightarrow> read_miss E fc block_pos disk_size block_offset remaining)"

text \<open>One round of the main loop: the bytes it adds, and whether it leaves the loop. The block index
  is cut to 32 bits, the offset into the fragment is a 32-bit sum.\<close>

definition data_read_step :: "heap_env \<Rightarrow> sqfs_file_ctx \<Rightarrow> u64 \<Rightarrow> nat \<Rightarrow> read_step op" where
  "data_read_step E fc pos remaining =
     (if fc_block_size fc = 0 then olift (Inl (Fault Div_By_Zero))
      else let block_idx = ucast (pos div ucast (fc_block_size fc)) :: u32;
               block_offset = unat (pos mod ucast (fc_block_size fc))
      in if block_idx = fc_block_count fc \<and> \<not> sqfs_fragment_is_none (fc_frag_idx fc) then
           obind (read_from_fragment E (fc_frag_idx fc) (fc_frag_offset fc + of_nat block_offset) remaining)
             (\<lambda>b. olift (Inr (Read_done b)))
         else case sqfs_file_block_location fc block_idx of
             Inl e \<Rightarrow>
               if e = Err SQFS_ERR_NOT_FOUND \<and> block_idx = fc_block_count fc
               then olift (Inr (Read_done (replicate remaining 0)))
               else olift (Inl e)
           | Inr (block_pos, disk_size, is_uncompressed) \<Rightarrow>
               if disk_size = 0 then
                 (let to_copy = unat (fc_block_size fc) - block_offset;
                      to_copy = (if remaining < to_copy then remaining else to_copy)
                  in olift (Inr (Read_more (replicate to_copy 0))))
               else read_stored E fc block_pos disk_size block_offset remaining)"

section \<open>The loop\<close>

partial_function (option) data_read_loop ::
  "heap_env \<Rightarrow> sqfs_file_ctx \<Rightarrow> u64 \<Rightarrow> byte list \<Rightarrow> nat \<Rightarrow> sqfs_ctx \<Rightarrow> (byte list res \<times> sqfs_ctx) option" where
  "data_read_loop E fc pos out remaining ctx =
     (if remaining = 0 then Some (Inr out, ctx)
      else case data_read_step E fc pos remaining ctx of
          None \<Rightarrow> None
        | Some p \<Rightarrow>
            (case fst p of
               Inl e \<Rightarrow> Some (Inl e, snd p)
             | Inr s \<Rightarrow>
                 (case s of
                    Read_done b \<Rightarrow> Some (Inr (out @ b), snd p)
                  | Read_more b \<Rightarrow>
                      data_read_loop E fc (pos + of_nat (length b)) (out @ b) (remaining - length b) (snd p))))"

definition sqfs_data_read_internal :: "heap_env \<Rightarrow> sqfs_inode \<Rightarrow> u64 \<Rightarrow> u64 \<Rightarrow> byte list op" where
  "sqfs_data_read_internal E i offset sz ctx =
     (if \<not> sqfs_inode_is_file (i_type i) then Some (Inl (Err SQFS_ERR_BAD_INODE), ctx)
      else case sqfs_file_ctx_init (ctx_sb ctx) i of
          Inl e \<Rightarrow> Some (Inl e, ctx)
        | Inr fc \<Rightarrow>
            if fc_file_size fc \<le> offset then Some (Inr [], ctx)
            else let sz = (if fc_file_size fc < offset + sz then fc_file_size fc - offset else sz)
                 in if sz = 0 then Some (Inr [], ctx)
                    else if sqfs_malloc (h_mem E) (unat (fc_block_size fc)) = 0
                    then Some (Inl (Err SQFS_ERR_NO_MEMORY), ctx)
                    else data_read_loop E fc offset [] (unat sz) ctx)"

definition sqfs_data_read :: "heap_env \<Rightarrow> sqfs_inode \<Rightarrow> u64 \<Rightarrow> u64 \<Rightarrow> byte list op" where
  "sqfs_data_read E i offset sz = sqfs_data_read_internal E i offset sz"

end
