(* ===== verification/DataFormat.thy ===== *)
theory DataFormat
  imports DataRead
begin

text \<open>
  What a file read returns: the stored content. The blocks of a file are described by what the
  block reader makes of them, so the description covers every compressor and every way of storing
  a block; the cache may hold any of them, and the blocks of other files.
\<close>

section \<open>Stored files\<close>

definition fc_blocks :: "sqfs_file_ctx \<Rightarrow> u32 list" where
  "fc_blocks fc = (case fc_block_sizes fc of None \<Rightarrow> [] | Some xs \<Rightarrow> xs)"

definition block_pos_of :: "sqfs_file_ctx \<Rightarrow> nat \<Rightarrow> u64" where
  "block_pos_of fc j = blocks_end (fc_blocks_start fc) (take j (fc_blocks fc))"

text \<open>Block \<open>j\<close> holds the data \<open>d\<close>: a hole of zeros, or bytes the block reader decodes to it and
  its position stands for.\<close>

definition block_stored :: "allocator \<Rightarrow> key_map \<Rightarrow> sqfs_ctx \<Rightarrow> sqfs_file_ctx \<Rightarrow> nat \<Rightarrow> byte list \<Rightarrow> bool" where
  "block_stored mem K ctx fc j d \<longleftrightarrow>
     (if fc_blocks fc ! j = 0 then set d \<subseteq> {0}
      else sqfs_data_read_block mem (sb_fd (ctx_sb ctx)) (block_pos_of fc j) (fc_blocks fc ! j)
             (unat (fc_block_size fc)) (ctx_comp ctx) = Inr d
           \<and> K (sqfs_data_block_cache_key (block_pos_of fc j)) = Some d)"

text \<open>The tail lies in a fragment block at the file's offset.\<close>

definition tail_stored :: "allocator \<Rightarrow> key_map \<Rightarrow> sqfs_ctx \<Rightarrow> sqfs_file_ctx \<Rightarrow> byte list \<Rightarrow> bool" where
  "tail_stored mem K ctx fc tail \<longleftrightarrow>
     (\<exists>fb. sqfs_fragment_read_block mem ctx (fc_frag_idx fc) = Inr fb
        \<and> K (sqfs_fragment_cache_key (fc_frag_idx fc)) = Some fb
        \<and> unat (fc_frag_offset fc) + length tail \<le> length fb
        \<and> length fb \<le> unat (fc_block_size fc)
        \<and> segment fb (unat (fc_frag_offset fc)) (length tail) = tail)"

definition file_stored :: "allocator \<Rightarrow> key_map \<Rightarrow> sqfs_ctx \<Rightarrow> sqfs_file_ctx \<Rightarrow> byte list \<Rightarrow> bool" where
  "file_stored mem K ctx fc content \<longleftrightarrow>
     (let bs = unat (fc_block_size fc); n = length (fc_blocks fc) in
        length content = unat (fc_file_size fc) \<and> 0 < bs \<and> unat (fc_block_count fc) = n
        \<and> fc_block_size fc = block_size (disk (ctx_sb ctx))
        \<and> (\<forall>j < n. block_stored mem K ctx fc j (segment content (j * bs) bs))
        \<and> (if sqfs_fragment_is_none (fc_frag_idx fc) then length content \<le> n * bs
           else length content < n * bs + bs
             \<and> (n * bs < length content \<longrightarrow> tail_stored mem K ctx fc (drop (n * bs) content))))"

lemma fragment_block_cong: "same_ctx a b \<Longrightarrow> sqfs_fragment_read_block mem b f = sqfs_fragment_read_block mem a f"
  by (auto simp: same_ctx_def sqfs_fragment_read_block_def sqfs_fragment_location_def sqfs_fragment_get_entry_def
      cong: if_cong)

lemma file_stored_cong: "same_ctx a b \<Longrightarrow> file_stored mem K b fc content = file_stored mem K a fc content"
  using same_ctx_fields [of a b] fragment_block_cong [of a b]
  by (simp add: file_stored_def block_stored_def tail_stored_def)

section \<open>The copies\<close>

lemma sub_u64: "a \<le> b \<Longrightarrow> b < 2 ^ 64 \<Longrightarrow> unat (of_nat b - of_nat a :: u64) = b - a"
  by (simp add: unat_sub_if' unat_of_nat)

lemma copy_decoded_ok:
  assumes "off < length d" and "length d \<le> bsize" and "length d < 2 ^ 64" and "0 < remaining"
  shows "\<exists>k. copy_decoded bsize d off remaining = Inr (segment d off k) \<and> 0 < k \<and> k \<le> remaining \<and> off + k \<le> length d"
  using assms by (intro exI [of _ "min remaining (length d - off)"])
    (auto simp: copy_decoded_def Let_def sub_u64 min_def)

lemma copy_cached_ok:
  assumes "entry_holds v d" and "off < length d" and "length d < 2 ^ 64" and "0 < remaining"
  shows "\<exists>k. copy_cached (Some v) off remaining = Some (Inr (segment d off k))
    \<and> 0 < k \<and> k \<le> remaining \<and> off + k \<le> length d"
  using assms by (intro exI [of _ "min remaining (length d - off)"])
    (auto simp: copy_cached_def entry_holds_def Let_def sub_u64 min_def)

lemma cache_block_ok:
  assumes "coherent K ctx" and "K (sqfs_data_block_cache_key pos) = Some d"
  shows "\<exists>ctx'. cache_block E pos d ctx = Some (Inr (), ctx') \<and> coherent K ctx' \<and> same_ctx ctx ctx'"
proof (cases "d = [] \<or> sqfs_data_block_cache_new (h_mem E) = None \<or> sqfs_malloc (h_mem E) (length d) = 0")
  case True
  with assms(1) show ?thesis by (auto simp: cache_block_def split: option.splits)
next
  case False
  then obtain v where v: "sqfs_data_block_cache_new (h_mem E) = Some v" and ne: "d \<noteq> []"
    and m: "sqfs_malloc (h_mem E) (length d) \<noteq> 0" by auto
  let ?v = "v\<lparr>be_data := Some d, be_data_size := length d, be_block_pos := pos, be_is_cached := True\<rparr>"
  have "entry_holds ?v d" by (simp add: entry_holds_def)
  from data_cache_put_coherent [OF assms this] obtain e ctx' where
    "data_cache_put E (sqfs_data_block_cache_key pos) ?v (of_nat SIZEOF_block_entry + of_nat (length d)) ctx
       = Some (Inr e, ctx')" "coherent K ctx'" "same_ctx ctx ctx'" by metis
  with v ne m show ?thesis by (simp add: cache_block_def)
qed

text \<open>A stored block, from the cache or from disk: the same bytes either way.\<close>

lemma read_stored_ok:
  assumes coh: "coherent K ctx" and key: "K (sqfs_data_block_cache_key pos) = Some d"
    and blk: "sqfs_data_read_block (h_mem E) (sb_fd (ctx_sb ctx)) pos dsize (unat (fc_block_size fc)) (ctx_comp ctx) = Inr d"
    and len: "off < length d" "length d \<le> unat (fc_block_size fc)" and rem: "0 < remaining"
  shows "\<exists>k ctx'. read_stored E fc pos dsize off remaining ctx = Some (Inr (Read_more (segment d off k)), ctx')
    \<and> 0 < k \<and> k \<le> remaining \<and> off + k \<le> length d \<and> coherent K ctx' \<and> same_ctx ctx ctx'"
proof -
  have "length d < 4294967296" using len(2) unat_u32_lt [of "fc_block_size fc"] by linarith
  then have small: "length d < 2 ^ 64" by simp
  from data_cache_get_coherent [OF coh] obtain v ctx1 where
    get: "data_cache_get (sqfs_data_block_cache_key pos) ctx = Some (Inr v, ctx1)"
    and coh1: "coherent K ctx1" and same1: "same_ctx ctx ctx1"
    and v: "\<And>x. v = Some x \<Longrightarrow> \<exists>d. K (sqfs_data_block_cache_key pos) = Some d \<and> entry_holds x d" by metis
  show ?thesis
  proof (cases v)
    case (Some x)
    with v key have "entry_holds x d" by auto
    from copy_cached_ok [OF this len(1) small rem] get Some coh1 same1
    show ?thesis by (fastforce simp: read_stored_def)
  next
    case None
    from copy_decoded_ok [OF len small rem] obtain k where
      k: "copy_decoded (unat (fc_block_size fc)) d off remaining = Inr (segment d off k)"
      "0 < k" "k \<le> remaining" "off + k \<le> length d" by blast
    from cache_block_ok [OF coh1 key] obtain ctx2 where
      c: "cache_block E pos d ctx1 = Some (Inr (), ctx2)" "coherent K ctx2" "same_ctx ctx1 ctx2" by blast
    have blk1: "sqfs_data_read_block (h_mem E) (sb_fd (ctx_sb ctx1)) pos dsize (unat (fc_block_size fc)) (ctx_comp ctx1) = Inr d"
      using same_ctx_fields [OF same1] blk by simp
    have "read_miss E fc pos dsize off remaining ctx1 = Some (Inr (Read_more (segment d off k)), ctx2)"
      by (simp add: read_miss_def blk1 c(1) k(1))
    then have "read_stored E fc pos dsize off remaining ctx = Some (Inr (Read_more (segment d off k)), ctx2)"
      using get None by (simp add: read_stored_def copy_cached_def)
    with k c same_ctx_trans [OF same1 c(3)] show ?thesis by blast
  qed
qed

section \<open>One round\<close>

text \<open>Division of a position by the block size.\<close>

lemma block_split:
  assumes "fc_block_size fc \<noteq> 0" and "unat pos div unat (fc_block_size fc) < 2 ^ 32"
  shows "unat (ucast (pos div ucast (fc_block_size fc)) :: u32) = unat pos div unat (fc_block_size fc)"
    and "unat (pos mod ucast (fc_block_size fc) :: u64) = unat pos mod unat (fc_block_size fc)"
  using assms by (simp_all add: ucast_down_small unat_div unat_mod)

lemma file_storedD:
  assumes "file_stored mem K ctx fc content"
  shows "length content = unat (fc_file_size fc)" and "fc_block_size fc \<noteq> 0"
    and "unat (fc_block_count fc) = length (fc_blocks fc)"
    and "fc_block_size fc = block_size (disk (ctx_sb ctx))"
    and "j < length (fc_blocks fc) \<Longrightarrow> block_stored mem K ctx fc j
      (segment content (j * unat (fc_block_size fc)) (unat (fc_block_size fc)))"
    and "sqfs_fragment_is_none (fc_frag_idx fc) \<Longrightarrow> length content \<le> length (fc_blocks fc) * unat (fc_block_size fc)"
    and "\<not> sqfs_fragment_is_none (fc_frag_idx fc) \<Longrightarrow>
      length content < length (fc_blocks fc) * unat (fc_block_size fc) + unat (fc_block_size fc)"
    and "\<not> sqfs_fragment_is_none (fc_frag_idx fc) \<Longrightarrow>
      length (fc_blocks fc) * unat (fc_block_size fc) < length content \<Longrightarrow>
      tail_stored mem K ctx fc (drop (length (fc_blocks fc) * unat (fc_block_size fc)) content)"
  using assms by (auto simp: file_stored_def Let_def)

text \<open>A round inside of a block adds the content from the position on.\<close>

lemma block_round:
  assumes fs: "file_stored (h_mem E) K ctx fc content" and coh: "coherent K ctx" and rem: "0 < remaining"
    and within: "unat pos + remaining \<le> length content"
    and idx: "unat pos div unat (fc_block_size fc) < length (fc_blocks fc)"
  shows "\<exists>k ctx'. data_read_step E fc pos remaining ctx = Some (Inr (Read_more (segment content (unat pos) k)), ctx')
    \<and> 0 < k \<and> k \<le> remaining \<and> coherent K ctx' \<and> same_ctx ctx ctx'"
proof -
  note F = file_storedD [OF fs]
  define bs where "bs = unat (fc_block_size fc)"
  define j where "j = unat pos div bs"
  define off where "off = unat pos mod bs"
  have bs: "0 < bs" using F(2) by (simp add: bs_def unat_gt_0)
  have j: "j < length (fc_blocks fc)" using idx by (simp add: j_def bs_def)
  have pos: "unat pos = j * bs + off" by (simp add: j_def off_def)
  have off: "off < bs" using bs by (simp add: off_def)
  have "j < 2 ^ 32" using j F(3) unat_u32_lt [of "fc_block_count fc"] by simp
  with block_split [of fc pos] F(2) have
    ji: "unat (ucast (pos div ucast (fc_block_size fc)) :: u32) = j"
    and oi: "unat (pos mod ucast (fc_block_size fc) :: u64) = off" by (simp_all add: j_def off_def bs_def)
  define idx where "idx = (ucast (pos div ucast (fc_block_size fc)) :: u32)"
  have ui: "unat idx = j" using ji by (simp add: idx_def)
  have neq: "idx \<noteq> fc_block_count fc" using j F(3) ui by auto
  define d where "d = segment content (j * bs) bs"
  have len: "length d = min bs (length content - j * bs)" by (simp add: d_def)
  have offd: "off < length d" using off within rem pos by (simp add: len)
  have seg: "segment d off k = segment content (unat pos) k" if "off + k \<le> length d" for k
    using that pos by (simp add: d_def segment_segment)
  have st: "block_stored (h_mem E) K ctx fc j d" using F(5) [OF j] by (simp add: d_def bs_def)
  obtain xs where xs: "fc_block_sizes fc = Some xs" "xs = fc_blocks fc"
    using j by (cases "fc_block_sizes fc") (auto simp: fc_blocks_def)
  have loc: "sqfs_file_block_location fc idx =
    (if xs ! j = 0 then Inr (0, 0, False)
     else Inr (block_pos_of fc j, xs ! j, sqfs_block_is_uncompressed (xs ! j)))"
    using block_location_value [OF xs(1), of idx] F(3) j ui xs(2) by (simp add: block_pos_of_def)
  have step: "data_read_step E fc pos remaining ctx =
    (if xs ! j = 0 then Some (Inr (Read_more (replicate (min remaining (bs - off)) 0)), ctx)
     else read_stored E fc (block_pos_of fc j) (xs ! j) off remaining ctx)"
    unfolding data_read_step_def idx_def [symmetric] oi bs_def [symmetric] Let_def
    using F(2) neq loc by (simp add: min_def)
  show ?thesis
  proof (cases "xs ! j = 0")
    case True
    define k where "k = min remaining (bs - off)"
    have k: "off + k \<le> length d" "0 < k" "k \<le> remaining"
      using off rem within pos by (auto simp: k_def len)
    have "set (segment d off k) \<subseteq> {0}"
      using st True xs(2) by (auto simp: block_stored_def segment_def dest!: in_set_takeD in_set_dropD)
    moreover have "length (segment d off k) = k" using k(1) by simp
    ultimately have "segment d off k = replicate k 0" by (metis replicate_eqI singletonD subsetD)
    with step True seg [OF k(1)] have "data_read_step E fc pos remaining ctx
        = Some (Inr (Read_more (segment content (unat pos) k)), ctx)" by (simp add: k_def)
    with k coh show ?thesis by (intro exI [of _ k] exI [of _ ctx]) simp
  next
    case False
    with st xs(2) have blk: "K (sqfs_data_block_cache_key (block_pos_of fc j)) = Some d"
      "sqfs_data_read_block (h_mem E) (sb_fd (ctx_sb ctx)) (block_pos_of fc j) (xs ! j)
         (unat (fc_block_size fc)) (ctx_comp ctx) = Inr d" by (simp_all add: block_stored_def)
    have "length d \<le> unat (fc_block_size fc)" by (simp add: len bs_def)
    from read_stored_ok [OF coh blk offd this rem] obtain k ctx' where
      r: "read_stored E fc (block_pos_of fc j) (xs ! j) off remaining ctx = Some (Inr (Read_more (segment d off k)), ctx')"
      "0 < k" "k \<le> remaining" "off + k \<le> length d" "coherent K ctx'" "same_ctx ctx ctx'" by blast
    with step False seg [OF r(4)] show ?thesis by (intro exI [of _ k] exI [of _ ctx']) simp
  qed
qed

section \<open>The tail\<close>

lemma fragment_copy_ok:
  assumes "entry_holds v fb" and "off + n \<le> length fb"
  shows "fragment_copy bsize v off n = Inr (segment fb off n)"
proof -
  have "(if n < length fb - off then n else length fb - off) = n" using assms(2) by auto
  with assms show ?thesis by (simp add: fragment_copy_def entry_holds_def Let_def)
qed

lemma fragment_fetch_ok:
  assumes coh: "coherent K ctx" and key: "K (sqfs_fragment_cache_key f) = Some fb"
    and blk: "sqfs_fragment_read_block (h_mem E) ctx f = Inr fb" and mem: "\<forall>k. h_mem E k \<noteq> 0"
  shows "\<exists>v ctx'. fragment_fetch E f ctx = Some (Inr v, ctx') \<and> entry_holds v fb \<and> coherent K ctx' \<and> same_ctx ctx ctx'"
proof -
  let ?v = "zero_block_entry\<lparr>be_data := Some fb, be_data_size := length fb, be_is_cached := True\<rparr>"
  have v: "entry_holds ?v fb" by (simp add: entry_holds_def)
  from data_cache_put_coherent [OF coh key v] obtain e ctx' where
    "data_cache_put E (sqfs_fragment_cache_key f) ?v
       (of_nat SIZEOF_block_entry + ucast (block_size (disk (ctx_sb ctx)))) ctx = Some (Inr e, ctx')"
    "coherent K ctx'" "same_ctx ctx ctx'" by metis
  with v mem blk show ?thesis
    by (simp add: fragment_fetch_def sqfs_fragment_cache_entry_new_def sqfs_calloc_def sqfs_malloc_def
        SIZEOF_block_entry_def Let_def)
qed

lemma fragment_read_ok:
  assumes coh: "coherent K ctx" and key: "K (sqfs_fragment_cache_key f) = Some fb"
    and blk: "sqfs_fragment_read_block (h_mem E) ctx f = Inr fb" and mem: "\<forall>k. h_mem E k \<noteq> 0"
    and within: "unat off + n \<le> length fb" "unat off < unat (block_size (disk (ctx_sb ctx)))"
    and none: "\<not> sqfs_fragment_is_none f"
  shows "\<exists>ctx'. sqfs_fragment_read E f off n ctx = Some (Inr (segment fb (unat off) n), ctx')
    \<and> coherent K ctx' \<and> same_ctx ctx ctx'"
proof -
  from data_cache_get_coherent [OF coh] obtain v ctx1 where
    get: "data_cache_get (sqfs_fragment_cache_key f) ctx = Some (Inr v, ctx1)"
    and coh1: "coherent K ctx1" and same1: "same_ctx ctx ctx1"
    and v: "\<And>x. v = Some x \<Longrightarrow> \<exists>d. K (sqfs_fragment_cache_key f) = Some d \<and> entry_holds x d" by metis
  have guard: "\<not> unat (block_size (disk (ctx_sb ctx))) \<le> unat off" using within(2) by simp
  show ?thesis
  proof (cases v)
    case (Some x)
    with v key have x: "entry_holds x fb" by auto
    then have "be_is_cached x" by (simp add: entry_holds_def)
    with get Some guard none fragment_copy_ok [OF x within(1)] coh1 same1 show ?thesis
      by (simp add: sqfs_fragment_read_def)
  next
    case None
    have "sqfs_fragment_read_block (h_mem E) ctx1 f = Inr fb" using fragment_block_cong [OF same1] blk by simp
    from fragment_fetch_ok [OF coh1 key this mem] obtain x ctx2 where
      f: "fragment_fetch E f ctx1 = Some (Inr x, ctx2)" "entry_holds x fb" "coherent K ctx2" "same_ctx ctx1 ctx2" by blast
    with get None guard none fragment_copy_ok [OF f(2) within(1)] same_ctx_trans [OF same1 f(4)] show ?thesis
      by (simp add: sqfs_fragment_read_def)
  qed
qed

lemma tail_round:
  assumes fs: "file_stored (h_mem E) K ctx fc content" and coh: "coherent K ctx" and rem: "0 < remaining"
    and mem: "\<forall>k. h_mem E k \<noteq> 0"
    and within: "unat pos + remaining \<le> length content"
    and idx: "\<not> unat pos div unat (fc_block_size fc) < length (fc_blocks fc)"
  shows "\<exists>ctx'. data_read_step E fc pos remaining ctx = Some (Inr (Read_done (segment content (unat pos) remaining)), ctx')
    \<and> coherent K ctx' \<and> same_ctx ctx ctx'"
proof -
  note F = file_storedD [OF fs]
  define bs n where "bs = unat (fc_block_size fc)" and "n = length (fc_blocks fc)"
  have bs: "0 < bs" using F(2) by (simp add: bs_def unat_gt_0)
  have ge: "n * bs \<le> unat pos" using idx by (simp add: n_def bs_def not_less) (metis bs bs_def less_eq_div_iff_mult_less_eq)
  then have some: "\<not> sqfs_fragment_is_none (fc_frag_idx fc)" using F(6) rem within by (auto simp: n_def bs_def)
  have up: "unat pos < n * bs + bs" using F(7) [OF some] rem within by (simp add: n_def bs_def)
  have q: "unat pos div bs = n" using ge up bs by (intro div_nat_eqI) (simp_all add: algebra_simps)
  define off where "off = unat pos mod bs"
  have pos: "unat pos = n * bs + off" using q by (metis div_mult_mod_eq off_def)
  have "n < 2 ^ 32" using F(3) unat_u32_lt [of "fc_block_count fc"] by (simp add: n_def)
  with block_split [of fc pos] F(2) q have
    ji: "unat (ucast (pos div ucast (fc_block_size fc)) :: u32) = n"
    and oi: "unat (pos mod ucast (fc_block_size fc) :: u64) = off" by (simp_all add: off_def bs_def)
  have idx': "ucast (pos div ucast (fc_block_size fc)) = fc_block_count fc"
    using ji F(3) by (simp add: n_def word_unat_eq_iff)
  define tail where "tail = drop (n * bs) content"
  have len: "off + remaining \<le> length tail" using within pos by (simp add: tail_def)
  have "n * bs < length content" using rem within ge by linarith
  with F(8) [OF some] have "tail_stored (h_mem E) K ctx fc tail" by (simp add: tail_def n_def bs_def)
  then obtain fb where blk: "sqfs_fragment_read_block (h_mem E) ctx (fc_frag_idx fc) = Inr fb"
    and key: "K (sqfs_fragment_cache_key (fc_frag_idx fc)) = Some fb"
    and room: "unat (fc_frag_offset fc) + length tail \<le> length fb" "length fb \<le> bs"
    and cut: "segment fb (unat (fc_frag_offset fc)) (length tail) = tail"
    by (auto simp: tail_stored_def bs_def)
  have "bs < 2 ^ 32" by (simp add: bs_def)
  with room len have "unat (fc_frag_offset fc) + off < 2 ^ LENGTH(32)" by simp
  then have fo: "unat (fc_frag_offset fc + of_nat off) = unat (fc_frag_offset fc) + off" by (rule unat_add_of_nat)
  have "segment fb (unat (fc_frag_offset fc) + off) remaining = segment tail off remaining"
    using len by (subst cut [symmetric]) (simp add: segment_segment)
  also have "\<dots> = segment content (unat pos) remaining" by (simp add: tail_def segment_def pos add.commute)
  finally have bytes: "segment fb (unat (fc_frag_offset fc) + off) remaining = segment content (unat pos) remaining" .
  have "unat (fc_frag_offset fc + of_nat off) + remaining \<le> length fb"
    "unat (fc_frag_offset fc + of_nat off) < unat (block_size (disk (ctx_sb ctx)))"
    using room len rem fo F(4) by (simp_all add: bs_def)
  from fragment_read_ok [OF coh key blk mem this some] fo bytes obtain ctx' where
    "sqfs_fragment_read E (fc_frag_idx fc) (fc_frag_offset fc + of_nat off) remaining ctx
       = Some (Inr (segment content (unat pos) remaining), ctx')" "coherent K ctx'" "same_ctx ctx ctx'" by auto
  then show ?thesis
    unfolding data_read_step_def oi Let_def using F(2) idx' some by (simp add: read_from_fragment_def)
qed

section \<open>The whole read\<close>

lemma data_read_loop_ok:
  assumes "file_stored (h_mem E) K ctx fc content" and "coherent K ctx" and "\<forall>k. h_mem E k \<noteq> 0"
    and "unat pos + remaining \<le> length content" and "length content < 2 ^ 64"
  shows "\<exists>ctx'. data_read_loop E fc pos out remaining ctx = Some (Inr (out @ segment content (unat pos) remaining), ctx')
    \<and> coherent K ctx' \<and> same_ctx ctx ctx'"
  using assms
proof (induction remaining arbitrary: pos out ctx rule: less_induct)
  case (less remaining)
  show ?case
  proof (cases "remaining = 0")
    case True
    with less.prems(2) show ?thesis by (simp add: data_read_loop.simps)
  next
    case False
    then have rem: "0 < remaining" by simp
    show ?thesis
    proof (cases "unat pos div unat (fc_block_size fc) < length (fc_blocks fc)")
      case False
      from tail_round [OF less.prems(1,2) rem less.prems(3,4) False] obtain ctx' where
        "data_read_step E fc pos remaining ctx = Some (Inr (Read_done (segment content (unat pos) remaining)), ctx')"
        "coherent K ctx'" "same_ctx ctx ctx'" by blast
      with rem show ?thesis by (simp add: data_read_loop.simps)
    next
      case True
      from block_round [OF less.prems(1,2) rem less.prems(4) True] obtain k ctx1 where
        s: "data_read_step E fc pos remaining ctx = Some (Inr (Read_more (segment content (unat pos) k)), ctx1)"
        and k: "0 < k" "k \<le> remaining" and c1: "coherent K ctx1" "same_ctx ctx ctx1" by blast
      define b where "b = segment content (unat pos) k"
      have len: "length b = k" using k less.prems(4) by (simp add: b_def)
      have nx: "unat (pos + of_nat k) = unat pos + k"
        using k less.prems(4,5) by (intro unat_add_of_nat) simp
      have "remaining - k < remaining" "unat (pos + of_nat k) + (remaining - k) \<le> length content"
        using k less.prems(4) nx by auto
      from less.IH [OF this(1) _ c1(1) less.prems(3) this(2) less.prems(5), of "out @ b"]
        file_stored_cong [OF c1(2)] less.prems(1) obtain ctx2 where
        r: "data_read_loop E fc (pos + of_nat k) (out @ b) (remaining - k) ctx1
           = Some (Inr ((out @ b) @ segment content (unat (pos + of_nat k)) (remaining - k)), ctx2)"
        and c2: "coherent K ctx2" "same_ctx ctx1 ctx2" by blast
      have "b @ segment content (unat (pos + of_nat k)) (remaining - k) = segment content (unat pos) remaining"
        using k by (simp add: b_def nx segment_append_segment)
      with rem s len r c2 same_ctx_trans [OF c1(2) c2(2)] show ?thesis
        by (subst data_read_loop.simps) (simp add: b_def [symmetric])
    qed
  qed
qed

lemma data_read_ok:
  assumes init: "sqfs_file_ctx_init (ctx_sb ctx) i = Inr fc" and fs: "file_stored (h_mem E) K ctx fc content"
    and coh: "coherent K ctx" and mem: "\<forall>k. h_mem E k \<noteq> 0" and sum: "unat offset + unat sz < 2 ^ 64"
  shows "\<exists>ctx'. sqfs_data_read E i offset sz ctx = Some (Inr (segment content (unat offset) (unat sz)), ctx')
    \<and> coherent K ctx' \<and> same_ctx ctx ctx'"
proof -
  note I = file_ctx_init_fields [OF init] and F = file_storedD [OF fs]
  have len: "length content = unat (fc_file_size fc)" by (rule F(1))
  have small: "length content < 2 ^ 64" unfolding len by simp
  show ?thesis
  proof (cases "fc_file_size fc \<le> offset")
    case True
    then have "segment content (unat offset) (unat sz) = []" by (simp add: segment_def len word_le_nat_alt)
    with True coh init I(1) show ?thesis by (simp add: sqfs_data_read_def sqfs_data_read_internal_def)
  next
    case False
    define n where "n = (if fc_file_size fc < offset + sz then fc_file_size fc - offset else sz)"
    have un: "unat (offset + sz) = unat offset + unat sz" using sum by (simp add: unat_word_ariths(1))
    have n: "unat n = min (unat sz) (length content - unat offset)"
      using False un by (auto simp: n_def len min_def word_less_nat_alt word_le_nat_alt unat_sub_if')
    have bytes: "segment content (unat offset) (unat n) = segment content (unat offset) (unat sz)"
      by (simp add: n segment_def take_all_iff min_def)
    show ?thesis
    proof (cases "n = 0")
      case True
      then have "segment content (unat offset) (unat sz) = []" using bytes by simp
      with True False coh init I(1) show ?thesis
        by (simp add: sqfs_data_read_def sqfs_data_read_internal_def n_def [symmetric] Let_def)
    next
      case nz: False
      have "unat offset + unat n \<le> length content" using n False len
        unfolding word_le_nat_alt by (auto simp: min_def)
      from data_read_loop_ok [OF fs coh mem this small, of "[]"] nz False init I(1) mem bytes show ?thesis
        by (simp add: sqfs_data_read_def sqfs_data_read_internal_def n_def [symmetric] Let_def sqfs_malloc_def)
    qed
  qed
qed

end
