(* ===== verification/DataClaims.thy ===== *)
theory DataClaims
  imports DataFormat
begin

text \<open>
  Properties of the file reader beyond the stored content: what happens on blocks that are
  shorter than the block size, larger than the buffer, cached under a key of something else, or
  not readable.
\<close>

section \<open>Blocks that end early\<close>

lemma sub_wraps: "a < b \<Longrightarrow> b < 2 ^ 32 \<Longrightarrow> unat (of_nat a - of_nat b :: u64) = 2 ^ 64 - (b - a)"
  by (simp add: unat_sub_if' unat_of_nat)

lemma copy_decoded_at_end:
  "length d < bsize \<Longrightarrow> bsize < 2 ^ 32 \<Longrightarrow> copy_decoded bsize d (length d) remaining = Inr []"
  by (simp add: copy_decoded_def Let_def)

lemma copy_decoded_behind_end:
  "length d < off \<Longrightarrow> off < bsize \<Longrightarrow> bsize < 2 ^ 32 \<Longrightarrow> 0 < remaining \<Longrightarrow>
     copy_decoded bsize d off remaining = Inl (Fault Uninit_Read)"
  by (auto simp: copy_decoded_def Let_def sub_wraps)

lemma copy_cached_short:
  "entry_holds v d \<Longrightarrow> length d \<le> off \<Longrightarrow> copy_cached (Some v) off remaining = None"
  by (simp add: copy_cached_def entry_holds_def)

lemma read_stored_short:
  assumes coh: "coherent K ctx" and key: "K (sqfs_data_block_cache_key pos) = Some d"
    and blk: "sqfs_data_read_block (h_mem E) (sb_fd (ctx_sb ctx)) pos dsize (unat (fc_block_size fc)) (ctx_comp ctx) = Inr d"
    and len: "length d \<le> off" and r: "copy_decoded (unat (fc_block_size fc)) d off remaining = r"
  shows "\<exists>ctx'. read_stored E fc pos dsize off remaining ctx = Some (rbind r (\<lambda>b. Inr (Read_more b)), ctx')
    \<and> coherent K ctx' \<and> same_ctx ctx ctx'"
proof -
  from data_cache_get_coherent [OF coh] obtain v ctx1 where
    get: "data_cache_get (sqfs_data_block_cache_key pos) ctx = Some (Inr v, ctx1)"
    and coh1: "coherent K ctx1" and same1: "same_ctx ctx ctx1"
    and v: "\<And>x. v = Some x \<Longrightarrow> \<exists>d. K (sqfs_data_block_cache_key pos) = Some d \<and> entry_holds x d" by metis
  have miss: "copy_cached v off remaining = None"
    using v key len by (cases v) (auto simp: copy_cached_def [of None] dest: copy_cached_short)
  from cache_block_ok [OF coh1 key] obtain ctx2 where
    c: "cache_block E pos d ctx1 = Some (Inr (), ctx2)" "coherent K ctx2" "same_ctx ctx1 ctx2" by blast
  have blk1: "sqfs_data_read_block (h_mem E) (sb_fd (ctx_sb ctx1)) pos dsize (unat (fc_block_size fc)) (ctx_comp ctx1) = Inr d"
    using same_ctx_fields [OF same1] blk by simp
  have "read_miss E fc pos dsize off remaining ctx1 = Some (rbind r (\<lambda>b. Inr (Read_more b)), ctx2)"
    by (simp add: read_miss_def blk1 c(1) r)
  with get miss c(2) same_ctx_trans [OF same1 c(3)] show ?thesis by (simp add: read_stored_def)
qed

text \<open>The round that reads block \<open>j\<close> from offset \<open>off\<close> on.\<close>

lemma stored_step:
  assumes "fc_block_size fc \<noteq> 0" and "unat (fc_block_count fc) = length (fc_blocks fc)"
    and j: "j < length (fc_blocks fc)" and "fc_blocks fc ! j \<noteq> 0"
    and pos: "unat pos = j * unat (fc_block_size fc) + off" and off: "off < unat (fc_block_size fc)"
  shows "data_read_step E fc pos remaining ctx
    = read_stored E fc (block_pos_of fc j) (fc_blocks fc ! j) off remaining ctx"
proof -
  have q: "unat pos div unat (fc_block_size fc) = j" "unat pos mod unat (fc_block_size fc) = off"
    using pos off by simp_all
  have "j < 2 ^ 32" using j assms(2) unat_u32_lt [of "fc_block_count fc"] by simp
  with block_split [of fc pos] assms(1) q have
    ji: "unat (ucast (pos div ucast (fc_block_size fc)) :: u32) = j"
    and oi: "unat (pos mod ucast (fc_block_size fc) :: u64) = off" by simp_all
  define idx where "idx = (ucast (pos div ucast (fc_block_size fc)) :: u32)"
  have ui: "unat idx = j" using ji by (simp add: idx_def)
  have neq: "idx \<noteq> fc_block_count fc" using j assms(2) ui by auto
  obtain xs where xs: "fc_block_sizes fc = Some xs" "xs = fc_blocks fc"
    using j by (cases "fc_block_sizes fc") (auto simp: fc_blocks_def)
  have "sqfs_file_block_location fc idx
    = Inr (block_pos_of fc j, fc_blocks fc ! j, sqfs_block_is_uncompressed (fc_blocks fc ! j))"
    using block_location_value [OF xs(1), of idx] assms(2,4) j ui xs(2) by (simp add: block_pos_of_def)
  then show ?thesis
    unfolding data_read_step_def idx_def [symmetric] oi Let_def using assms(1,4) neq by simp
qed

text \<open>A round that adds nothing and keeps the state in a set is repeated for ever.\<close>

lemma data_read_loop_stuck:
  assumes stuck: "\<And>c. c \<in> S \<Longrightarrow> \<exists>c' \<in> S. data_read_step E0 fc0 pos0 n c = Some (Inr (Read_more []), c')"
    and rem: "0 < n" and r: "data_read_loop E fc pos out remaining ctx = Some y"
  shows "\<not> (E = E0 \<and> fc = fc0 \<and> pos = pos0 \<and> remaining = n \<and> ctx \<in> S)"
proof (rule data_read_loop.raw_induct [where P = "\<lambda>E fc pos out remaining ctx y.
    \<not> (E = E0 \<and> fc = fc0 \<and> pos = pos0 \<and> remaining = n \<and> ctx \<in> S)", OF _ r])
  fix rec E fc pos out remaining ctx y
  assume IH: "\<And>E fc pos out remaining ctx y. rec E fc pos out remaining ctx = Some y \<Longrightarrow>
        \<not> (E = E0 \<and> fc = fc0 \<and> pos = pos0 \<and> remaining = n \<and> ctx \<in> S)"
    and body: "(if remaining = 0 then Some (Inr out, ctx)
      else case data_read_step E fc pos remaining ctx of
          None \<Rightarrow> None
        | Some p \<Rightarrow>
            (case fst p of
               Inl e \<Rightarrow> Some (Inl e, snd p)
             | Inr s \<Rightarrow>
                 (case s of
                    Read_done b \<Rightarrow> Some (Inr (out @ b), snd p)
                  | Read_more b \<Rightarrow>
                      rec E fc (pos + of_nat (length b)) (out @ b) (remaining - length b) (snd p)))) = Some y"
  show "\<not> (E = E0 \<and> fc = fc0 \<and> pos = pos0 \<and> remaining = n \<and> ctx \<in> S)"
  proof
    assume eq: "E = E0 \<and> fc = fc0 \<and> pos = pos0 \<and> remaining = n \<and> ctx \<in> S"
    with stuck obtain c' where c': "c' \<in> S" "data_read_step E0 fc0 pos0 n ctx = Some (Inr (Read_more []), c')" by blast
    with body eq rem have "rec E0 fc0 pos0 out n c' = Some y" by simp
    from IH [OF this] c'(1) show False by simp
  qed
qed

lemma data_read_loop_diverges:
  assumes "\<And>c. c \<in> S \<Longrightarrow> \<exists>c' \<in> S. data_read_step E fc pos remaining c = Some (Inr (Read_more []), c')"
    and "ctx \<in> S" and "0 < remaining"
  shows "data_read_loop E fc pos out remaining ctx = None"
  using data_read_loop_stuck [OF assms(1,3)] assms(2) by (cases "data_read_loop E fc pos out remaining ctx") blast+

text \<open>A block whose content ends before the block does.\<close>

definition short_block :: "heap_env \<Rightarrow> key_map \<Rightarrow> sqfs_ctx \<Rightarrow> sqfs_file_ctx \<Rightarrow> nat \<Rightarrow> byte list \<Rightarrow> bool" where
  "short_block E K ctx fc j d \<longleftrightarrow>
     unat (fc_block_count fc) = length (fc_blocks fc) \<and> j < length (fc_blocks fc) \<and> fc_blocks fc ! j \<noteq> 0
     \<and> block_stored (h_mem E) K ctx fc j d \<and> length d < unat (fc_block_size fc)"

lemma short_blockD:
  assumes "short_block E K ctx fc j d"
  shows "fc_block_size fc \<noteq> 0" and "unat (fc_block_count fc) = length (fc_blocks fc)"
    and "j < length (fc_blocks fc)" and "fc_blocks fc ! j \<noteq> 0" and "length d < unat (fc_block_size fc)"
    and "K (sqfs_data_block_cache_key (block_pos_of fc j)) = Some d"
    and "sqfs_data_read_block (h_mem E) (sb_fd (ctx_sb ctx)) (block_pos_of fc j) (fc_blocks fc ! j)
      (unat (fc_block_size fc)) (ctx_comp ctx) = Inr d"
  using assms by (auto simp: short_block_def block_stored_def)

lemma short_block_cong: "same_ctx a b \<Longrightarrow> short_block E K b fc j d = short_block E K a fc j d"
  using same_ctx_fields [of a b] by (simp add: short_block_def block_stored_def)

lemma short_block_end_step:
  assumes sb: "short_block E K ctx fc j d" and coh: "coherent K ctx"
    and pos: "unat pos = j * unat (fc_block_size fc) + off" and off: "length d \<le> off" "off < unat (fc_block_size fc)"
    and rem: "0 < remaining"
  shows "\<exists>ctx'. data_read_step E fc pos remaining ctx
      = Some (if off = length d then Inr (Read_more []) else Inl (Fault Uninit_Read), ctx')
    \<and> coherent K ctx' \<and> same_ctx ctx ctx'"
proof -
  note D = short_blockD [OF sb]
  define r :: "byte list res" where "r = (if off = length d then Inr [] else Inl (Fault Uninit_Read))"
  have "unat (fc_block_size fc) < 2 ^ 32" by simp
  then have "copy_decoded (unat (fc_block_size fc)) d off remaining = r"
    using copy_decoded_at_end [OF D(5), of remaining] copy_decoded_behind_end [OF _ off(2), of d remaining] off rem
    by (auto simp: r_def)
  from read_stored_short [OF coh D(6,7) off(1) this] stored_step [OF D(1-4) pos off(2), of E remaining ctx] obtain ctx' where
    "data_read_step E fc pos remaining ctx = Some (rbind r (\<lambda>b. Inr (Read_more b)), ctx')"
    "coherent K ctx'" "same_ctx ctx ctx'" by auto
  then show ?thesis by (intro exI [of _ ctx']) (simp add: r_def)
qed

lemma short_block_loop:
  assumes "short_block E K ctx fc j d" and "coherent K ctx"
    and "unat pos = j * unat (fc_block_size fc) + off" and "off \<le> length d" and "length d - off < remaining"
    and "unat pos + remaining < 2 ^ 64"
  shows "data_read_loop E fc pos out remaining ctx = None"
  using assms
proof (induction "length d - off" arbitrary: pos off out remaining ctx rule: less_induct)
  case less
  note D = short_blockD [OF less.prems(1)]
  show ?case
  proof (cases "off = length d")
    case True
    let ?S = "{c. coherent K c \<and> same_ctx ctx c}"
    have "\<exists>c' \<in> ?S. data_read_step E fc pos remaining c = Some (Inr (Read_more []), c')" if "c \<in> ?S" for c
    proof -
      from that have c: "coherent K c" "same_ctx ctx c" by simp_all
      with less.prems(1) have "short_block E K c fc j d" by (simp add: short_block_cong)
      from short_block_end_step [OF this c(1) less.prems(3)] True D(5) less.prems(5) obtain c' where
        "data_read_step E fc pos remaining c = Some (Inr (Read_more []), c')" "coherent K c'" "same_ctx c c'" by auto
      with same_ctx_trans [OF c(2)] show ?thesis by blast
    qed
    then show ?thesis by (rule data_read_loop_diverges) (use less.prems in auto)
  next
    case False
    with less.prems(4) have off: "off < length d" by simp
    have rem: "0 < remaining" and offb: "off < unat (fc_block_size fc)" and le: "length d \<le> unat (fc_block_size fc)"
      using less.prems(5) off D(5) by simp_all
    from read_stored_ok [OF less.prems(2) D(6,7) off le rem] stored_step [OF D(1-4) less.prems(3) offb, of E remaining ctx]
    obtain k ctx1 where step: "data_read_step E fc pos remaining ctx = Some (Inr (Read_more (segment d off k)), ctx1)"
      and k: "0 < k" "k \<le> remaining" "off + k \<le> length d" and c1: "coherent K ctx1" "same_ctx ctx ctx1" by auto
    have "unat (pos + of_nat k) = unat pos + k" using k less.prems(6) by (intro unat_add_of_nat) simp
    with less.prems k off have nx: "unat (pos + of_nat k) = j * unat (fc_block_size fc) + (off + k)"
      "length d - (off + k) < remaining - k" "unat (pos + of_nat k) + (remaining - k) < 2 ^ 64"
      "length d - (off + k) < length d - off" by simp_all
    have "short_block E K ctx1 fc j d" using less.prems(1) c1(2) by (simp add: short_block_cong)
    from less.hyps [OF nx(4) this c1(1) nx(1) k(3) nx(2,3)] step rem k
    show ?thesis by (subst data_read_loop.simps) simp
  qed
qed

lemma data_read_reaches_loop:
  assumes "sqfs_file_ctx_init (ctx_sb ctx) i = Inr fc" and "\<forall>k. h_mem E k \<noteq> 0" and "offset < fc_file_size fc"
    and "0 < sz" and "unat offset + unat sz < 2 ^ 64"
  obtains n where "sqfs_data_read E i offset sz ctx = data_read_loop E fc offset [] n ctx"
    and "n = min (unat sz) (unat (fc_file_size fc) - unat offset)" and "0 < n"
proof -
  define n where "n = (if fc_file_size fc < offset + sz then fc_file_size fc - offset else sz)"
  have un: "unat (offset + sz) = unat offset + unat sz" using assms(5) by (simp add: unat_word_ariths(1))
  have n: "unat n = min (unat sz) (unat (fc_file_size fc) - unat offset)"
    using assms(3) un by (auto simp: n_def min_def word_less_nat_alt word_le_nat_alt unat_sub_if')
  moreover have "0 < unat n" using n assms(3,4) by (simp add: word_less_nat_alt)
  moreover have "sqfs_data_read E i offset sz ctx = data_read_loop E fc offset [] (unat n) ctx"
    using assms file_ctx_init_fields(1) [OF assms(1)] \<open>0 < unat n\<close>
    by (auto simp: sqfs_data_read_def sqfs_data_read_internal_def n_def [symmetric] Let_def sqfs_malloc_def not_le)
  ultimately show ?thesis using that by blast
qed

section \<open>Bounds of a block\<close>

lemma data_read_block_result:
  assumes "comp_bounded cmp"
  shows "length (f_image fd) \<le> 2 ^ 63 \<Longrightarrow> sqfs_data_read_block mem fd pos dsize usz cmp = Inl (Fault f) \<longleftrightarrow>
      f = OOB_Write \<and> cmp \<noteq> None \<and> sqfs_block_is_uncompressed dsize \<and> delivers_more fd (unat (sqfs_block_size_get dsize)) pos usz"
    and "sqfs_data_read_block mem fd pos dsize usz cmp = Inr d \<Longrightarrow> length d \<le> usz"
proof -
  have nz: "\<not> sqfs_block_is_uncompressed 0" by (simp add: sqfs_block_is_uncompressed_def)
  show "sqfs_data_read_block mem fd pos dsize usz cmp = Inl (Fault f) \<longleftrightarrow>
      f = OOB_Write \<and> cmp \<noteq> None \<and> sqfs_block_is_uncompressed dsize \<and> delivers_more fd (unat (sqfs_block_size_get dsize)) pos usz"
    if img: "length (f_image fd) \<le> 2 ^ 63"
    using nz read_block_buf_overrun [OF img, of pos usz "unat (sqfs_block_size_get dsize)"]
    by (auto simp: sqfs_data_read_block_def Let_def rbind_eq_Inl_iff recode_eq_Inl_iff
        dest: read_block_buf_fault dest!: read_block_from_disk_error split: if_splits)
  show "length d \<le> usz" if "sqfs_data_read_block mem fd pos dsize usz cmp = Inr d"
  proof -
    have "unat (sqfs_block_size_get dsize) < 2 ^ 63" using block_size_get_bound [of dsize] by simp
    then have "read_block_buf fd pos usz (unat (sqfs_block_size_get dsize)) = Inr d \<Longrightarrow> length d \<le> usz"
      by (auto dest!: read_block_buf_ok read_block_from_disk_ok)
    with that assms show ?thesis
      by (auto simp: sqfs_data_read_block_def Let_def rbind_eq_Inr_iff comp_bounded_def not_less split: if_splits)
  qed
qed

section \<open>A small image\<close>

text \<open>Blocks of four bytes. A fragment block of three bytes at 0, a data block at 3, a block that
  is stored with two bytes at 7; the file of six bytes has the data block and its tail in the
  fragment, the short file has the short block.\<close>

definition small_file :: os_file where
  "small_file = \<lparr>f_image = [9, 5, 6, 1, 2, 3, 4, 7, 8], f_stat_size = Some 9, f_events = (\<lambda>_ _. [])\<rparr>"

definition block_cache :: "block_entry sqfs_cache" where
  "block_cache = zero_cache\<lparr>c_max_entries := 4, c_max_memory := 1000, c_free_fn := True,
     c_buckets := Some (replicate 64 None), c_bucket_count := 64, c_bucket_mask := 63, c_tables := 1\<rparr>"

definition small_table :: sqfs_fragment_table where
  "small_table = \<lparr>ft_entries = Some [\<lparr>fe_start = 0, fe_size = 0x1000003, fe_unused = 0\<rparr>],
     ft_count = 1, ft_loaded = True\<rparr>"

definition small_ctx :: sqfs_ctx where
  "small_ctx = \<lparr>ctx_sb = \<lparr>disk = example_superblock\<lparr>block_size := 4\<rparr>, sb_fd = small_file, file_size = 9,
       has_xattrs = False, has_fragments = True, has_export = True\<rparr>,
     ctx_comp = Some (sqfs_compressor_zstd_new stored_lib), ctx_inode_cache = zero_cache,
     ctx_dir_cache = zero_cache, ctx_meta_cache = zero_cache, ctx_data_cache = block_cache,
     ctx_id_table = None, ctx_id_count = 0, ctx_fragment_table = Some small_table,
     ctx_fragment_table_loaded = True, ctx_xattr_table = None, ctx_no_cache = False, ctx_debug_level = 0\<rparr>"

definition small_heap :: heap_env where
  "small_heap = \<lparr>h_mem = mem_ok, h_entry = first_free 4, h_table = True\<rparr>"

definition small_inode :: sqfs_inode where
  "small_inode = (put_file 3 6 0 0 1 1 0xFFFFFFFF (new_inode SQFS_INODE_FILE))\<lparr>i_block_sizes := Some [0x1000004]\<rparr>"

definition short_inode :: sqfs_inode where
  "short_inode = (put_file 7 4 0 SQFS_FRAGMENT_NONE 0 1 0xFFFFFFFF (new_inode SQFS_INODE_FILE))
     \<lparr>i_block_sizes := Some [0x1000002]\<rparr>"

definition small_keys :: key_map where
  "small_keys = [0 \<mapsto> [9, 5, 6], 3 \<mapsto> [1, 2, 3, 4], 7 \<mapsto> [7, 8]]"

lemma block_cache_inv: "cache_inv block_cache [] \<and> c_max_entries block_cache = 4 \<and> c_max_memory block_cache = 1000"
proof -
  have "sqfs_cache_init True True 4 1000 True = Inr block_cache"
    by (simp add: sqfs_cache_init_def block_cache_def initial_buckets.simps [of 64 4])
  from cache_init_ok [OF this] show ?thesis by simp
qed

lemma small_ctx_simps [simp]:
  "ctx_data_cache small_ctx = block_cache" "sb_fd (ctx_sb small_ctx) = small_file"
  "ctx_comp small_ctx = Some (sqfs_compressor_zstd_new stored_lib)"
  "block_size (disk (ctx_sb small_ctx)) = 4" "ctx_fragment_table small_ctx = Some small_table"
  by (simp_all add: small_ctx_def)

lemma small_heap_mem [simp]: "h_mem small_heap = mem_ok"
  by (simp add: small_heap_def)

lemma small_coherent: "coherent K small_ctx"
proof -
  have "cache_valid block_cache" using block_cache_inv by (auto simp: cache_valid_def)
  moreover have "cache_bindings block_cache = {}"
    using cache_bindings_abs [OF conjunct1 [OF block_cache_inv]] by simp
  ultimately show ?thesis by (simp add: coherent_def lru.sound_def)
qed

lemma small_block:
  assumes "unat pos + unat (sqfs_block_size_get s) \<le> 9" and "sqfs_block_is_uncompressed s"
    and "unat (sqfs_block_size_get s) \<le> 4"
  shows "sqfs_data_read_block mem_ok small_file pos s 4 (Some c)
    = Inr (segment [9, 5, 6, 1, 2, 3, 4, 7, 8] (unat pos) (unat (sqfs_block_size_get s)))"
proof -
  have "reliable small_file" by (simp add: reliable_def small_file_def)
  from reliable_read [OF this, of pos "unat (sqfs_block_size_get s)"] assms show ?thesis
    by (auto simp: sqfs_data_read_block_def small_file_def sqfs_block_is_uncompressed_def)
qed

definition small_fc :: sqfs_file_ctx where
  "small_fc = \<lparr>fc_file_size = 6, fc_current_offset = 0, fc_blocks_start = 3, fc_block_size = 4,
     fc_block_count = 1, fc_tail_size = 2, fc_frag_idx = 0, fc_frag_offset = 1, fc_sparse_bytes = 0,
     fc_block_sizes = Some [0x1000004]\<rparr>"

definition short_fc :: sqfs_file_ctx where
  "short_fc = \<lparr>fc_file_size = 4, fc_current_offset = 0, fc_blocks_start = 7, fc_block_size = 4,
     fc_block_count = 1, fc_tail_size = 0, fc_frag_idx = SQFS_FRAGMENT_NONE, fc_frag_offset = 0, fc_sparse_bytes = 0,
     fc_block_sizes = Some [0x1000002]\<rparr>"

lemma small_fc_init: "sqfs_file_ctx_init (ctx_sb small_ctx) small_inode = Inr small_fc"
  by (simp add: sqfs_file_ctx_init_def calculate_block_layout_def small_inode_def new_inode_def union_defs
      sqfs_inode_is_file_def zero_file_ctx_def small_fc_def sqfs_fragment_is_none_def SQFS_FRAGMENT_NONE_def)

lemma short_fc_init: "sqfs_file_ctx_init (ctx_sb small_ctx) short_inode = Inr short_fc"
  by (simp add: sqfs_file_ctx_init_def calculate_block_layout_def short_inode_def new_inode_def union_defs
      sqfs_inode_is_file_def zero_file_ctx_def short_fc_def sqfs_fragment_is_none_def)

lemma small_fragment: "sqfs_fragment_read_block mem_ok small_ctx 0 = Inr [9, 5, 6]"
proof -
  have "reliable small_file" by (simp add: reliable_def small_file_def)
  from reliable_pread [OF this, of 0 3] show ?thesis
    by (simp add: sqfs_fragment_read_block_def sqfs_fragment_location_def sqfs_fragment_get_entry_def
        small_table_def sqfs_fragment_is_none_def SQFS_FRAGMENT_NONE_def sqfs_fragment_size_def
        sqfs_fragment_is_uncompressed_def small_file_def segment_def)
qed

lemma small_file_stored: "file_stored mem_ok small_keys small_ctx small_fc [1, 2, 3, 4, 5, 6]"
proof -
  have "block_stored mem_ok small_keys small_ctx small_fc 0 [1, 2, 3, 4]"
    using small_block [of 3 "0x1000004"]
    by (simp add: block_stored_def small_fc_def fc_blocks_def block_pos_of_def small_keys_def segment_def
        sqfs_data_block_cache_key_def sqfs_block_size_get_def sqfs_block_is_uncompressed_def)
  moreover have "tail_stored mem_ok small_keys small_ctx small_fc [5, 6]"
    using small_fragment
    by (simp add: tail_stored_def small_fc_def small_keys_def sqfs_fragment_cache_key_def segment_def)
  ultimately show ?thesis
    by (simp add: file_stored_def small_fc_def fc_blocks_def sqfs_fragment_is_none_def SQFS_FRAGMENT_NONE_def
        segment_def)
qed

lemma short_block_stored: "short_block small_heap small_keys small_ctx short_fc 0 [7, 8]"
  using small_block [of 7 "0x1000002"]
  by (simp add: short_block_def block_stored_def short_fc_def fc_blocks_def block_pos_of_def small_keys_def segment_def
      sqfs_data_block_cache_key_def sqfs_block_size_get_def sqfs_block_is_uncompressed_def)

lemma guard_fresh: "fresh_alloc alloc \<Longrightarrow> guard_alloc alloc = alloc"
  by (auto simp: fun_eq_iff fresh_alloc_def guard_alloc_def split: option.splits)

section \<open>Properties\<close>

text \<open>C3: a read returns exactly the stored bytes. For a file whose blocks (compressed, raw or
  sparse) and tail in a fragment block decode to the pieces of some content, any offset and any size an \<open>int\<close> holds,
  any heap behaviour of the cache, and a data cache with any coherent content, the read ends and gives
  the requested part of the content, cut at the end of the file; the cache stays coherent and nothing
  else of the context changes.\<close>

theorem data_read_correct:
  assumes "sqfs_file_ctx_init (ctx_sb ctx) i = Inr fc" and "file_stored (h_mem E) K ctx fc content"
    and "coherent K ctx" and "\<forall>k. h_mem E k \<noteq> 0" and "unat offset + unat sz < 2 ^ 64" and "unat sz < 2 ^ 31"
  shows "\<exists>ctx'. sqfs_data_read E i offset sz ctx = Some (Inr (segment content (unat offset) (unat sz)), ctx')
    \<and> coherent K ctx' \<and> same_ctx ctx ctx'"
  using assms(1-5) by (rule data_read_ok)

theorem data_read_correct_witness:
  "\<exists>ctx'. sqfs_data_read small_heap small_inode 2 10 small_ctx = Some (Inr [3, 4, 5, 6], ctx') \<and> same_ctx small_ctx ctx'"
  using data_read_correct [OF small_fc_init _ small_coherent, where E = small_heap and offset = 2 and sz = 10,
      of small_keys "[1, 2, 3, 4, 5, 6]"] small_file_stored mem_ok_pos
  by (auto simp: segment_def)



text \<open>C25: for an image of at most \<open>2\<^sup>6\<^sup>3\<close> bytes, the block reader writes outside of its buffer exactly for an uncompressed block whose
  stored size is larger than the buffer and of which the kernel delivers more than the buffer holds: the image goes on
  that far behind the position, and no read fails before. If the image ends earlier, it is an error and
  nothing is written outside. There is no other fault; in every other case it returns an error code or at most as many
  bytes as the buffer holds, for every image and every compressor that keeps to the space it is given.\<close>

theorem data_read_block_bounds:
  assumes "comp_bounded cmp" and "length (f_image fd) \<le> 2 ^ 63"
  shows "(sqfs_data_read_block mem fd pos dsize usz cmp = Inl (Fault OOB_Write) \<longleftrightarrow>
      cmp \<noteq> None \<and> sqfs_block_is_uncompressed dsize \<and> delivers_more fd (unat (sqfs_block_size_get dsize)) pos usz)
    \<and> (\<forall>f. sqfs_data_read_block mem fd pos dsize usz cmp = Inl (Fault f) \<longrightarrow> f = OOB_Write)
    \<and> (\<forall>d. sqfs_data_read_block mem fd pos dsize usz cmp = Inr d \<longrightarrow> length d \<le> usz)"
  using data_read_block_result(1) [OF assms] data_read_block_result(2) [OF assms(1)] by simp

text \<open>Five bytes into a buffer of four, out of an image that has them and at a position where it ends behind two.\<close>

theorem data_read_block_bounds_witness:
  "sqfs_data_read_block mem_ok small_file 3 0x1000005 4 (Some (sqfs_compressor_zstd_new stored_lib))
    = Inl (Fault OOB_Write)
   \<and> (\<forall>f. sqfs_data_read_block mem_ok small_file 7 0x1000005 4 (Some (sqfs_compressor_zstd_new stored_lib)) \<noteq> Inl (Fault f))"
  using data_read_block_bounds [OF zstd_stored_bounded, of small_file mem_ok 3 "0x1000005" 4]
    data_read_block_bounds [OF zstd_stored_bounded, of small_file mem_ok 7 "0x1000005" 4]
  by (auto simp: sqfs_block_is_uncompressed_def sqfs_block_size_get_def delivers_more_def small_file_def)

text \<open>An error of the fragment code never reaches the caller of a read. Whatever it reports for
  the tail (a table that is not loaded, a bad index, an unreadable or damaged block, no memory), the read
  succeeds and delivers zeros for the bytes of the tail.\<close>

theorem fragment_error_reads_zeros:
  assumes init: "sqfs_file_ctx_init (ctx_sb ctx) i = Inr fc" and mem: "\<forall>k. h_mem E k \<noteq> 0"
    and frag: "\<not> sqfs_fragment_is_none (fc_frag_idx fc)" and bs: "fc_block_size fc \<noteq> 0"
    and tail: "unat offset div unat (fc_block_size fc) = unat (fc_block_count fc)"
    and size: "offset < fc_file_size fc" and want: "0 < sz" and sum: "unat offset + unat sz < 2 ^ 64"
    and err: "sqfs_fragment_read E (fc_frag_idx fc)
        (fc_frag_offset fc + of_nat (unat offset mod unat (fc_block_size fc)))
        (min (unat sz) (unat (fc_file_size fc) - unat offset)) ctx = Some (Inl (Err e), ctx')"
  shows "sqfs_data_read E i offset sz ctx
    = Some (Inr (replicate (min (unat sz) (unat (fc_file_size fc) - unat offset)) 0), ctx')"
proof -
  from data_read_reaches_loop [OF init mem size want sum] obtain n where
    run: "sqfs_data_read E i offset sz ctx = data_read_loop E fc offset [] n ctx"
    and n: "n = min (unat sz) (unat (fc_file_size fc) - unat offset)" "0 < n" by metis
  have "unat offset div unat (fc_block_size fc) < 2 ^ 32" by (simp add: tail)
  with block_split [of fc offset] bs tail have
    ji: "unat (ucast (offset div ucast (fc_block_size fc)) :: u32) = unat (fc_block_count fc)"
    and oi: "unat (offset mod ucast (fc_block_size fc) :: u64) = unat offset mod unat (fc_block_size fc)" by simp_all
  have "ucast (offset div ucast (fc_block_size fc)) = fc_block_count fc"
    using ji by (simp add: word_unat_eq_iff)
  then have "data_read_step E fc offset n ctx = Some (Inr (Read_done (replicate n 0)), ctx')"
    unfolding data_read_step_def oi Let_def using bs frag err n(1) by (simp add: read_from_fragment_def)
  with run n show ?thesis by (simp add: data_read_loop.simps)
qed

theorem fragment_error_reads_zeros_witness:
  "sqfs_data_read small_heap small_inode 4 2 (small_ctx\<lparr>ctx_fragment_table := Some sqfs_fragment_table_init\<rparr>)
    = Some (Inr [0, 0], small_ctx\<lparr>ctx_fragment_table := Some sqfs_fragment_table_init,
        ctx_data_cache := block_cache\<lparr>c_misses := 1\<rparr>\<rparr>)"
proof -
  let ?c = "small_ctx\<lparr>ctx_fragment_table := Some sqfs_fragment_table_init\<rparr>"
  let ?c' = "?c\<lparr>ctx_data_cache := block_cache\<lparr>c_misses := 1\<rparr>\<rparr>"
  have init: "sqfs_file_ctx_init (ctx_sb ?c) small_inode = Inr small_fc" using small_fc_init by simp
  have "sqfs_cache_get block_cache 0 = Some (Inr (None, block_cache\<lparr>c_misses := 1\<rparr>))"
    using find_miss [OF conjunct1 [OF block_cache_inv], of 0]
    by (simp add: sqfs_cache_get_def cache_get_find_def) (simp add: block_cache_def zero_cache_def)
  then have read: "sqfs_fragment_read small_heap 0 1 2 ?c = Some (Inl (Err SQFS_ERR_CORRUPT), ?c')"
    by (simp add: sqfs_fragment_read_def sqfs_fragment_is_none_def SQFS_FRAGMENT_NONE_def obind_def
        data_cache_get_def sqfs_fragment_cache_key_def fragment_fetch_def sqfs_fragment_cache_entry_new_def
        sqfs_calloc_def sqfs_malloc_def mem_ok_def SIZEOF_block_entry_def sqfs_fragment_read_block_def
        sqfs_fragment_location_def sqfs_fragment_get_entry_def sqfs_fragment_table_init_def)
  have two: "replicate 2 (0 :: byte) = [0, 0]" by (simp add: numeral_2_eq_2)
  have "sqfs_data_read small_heap small_inode 4 2 ?c = Some (Inr (replicate 2 0), ?c')"
    using fragment_error_reads_zeros [OF init, of small_heap 4 2 SQFS_ERR_CORRUPT ?c'] read mem_ok_pos
    by (simp add: small_fc_def sqfs_fragment_is_none_def SQFS_FRAGMENT_NONE_def)
  then show ?thesis by (simp only: two)
qed

text \<open>C37: the data cache has one key space for block positions and for fragment indices. When a data
  block lies at the position that equals the index of a fragment, reading the block plants it in the cache
  as that fragment: a following read of the fragment returns the bytes of the data block.\<close>

theorem fragment_key_collision:
  assumes inv: "cache_inv (ctx_data_cache ctx) ps" and mem: "\<forall>k. h_mem E k \<noteq> 0"
    and heap: "serves (guard_alloc (h_entry E)) (unat (c_max_entries (ctx_data_cache ctx)))"
    and room: "of_nat SIZEOF_block_entry + of_nat (length d) \<le> c_max_memory (ctx_data_cache ctx)"
    and d: "d \<noteq> []" and frag: "\<not> sqfs_fragment_is_none f"
    and off: "unat off < unat (block_size (disk (ctx_sb ctx)))" "unat off \<le> length d"
  shows "\<exists>ctx1 ctx2. cache_block E (ucast f) d ctx = Some (Inr (), ctx1)
    \<and> sqfs_fragment_read E f off n ctx1 = Some (Inr (segment d (unat off) n), ctx2)"
proof -
  let ?v = "zero_block_entry\<lparr>be_data := Some d, be_data_size := length d, be_block_pos := ucast f, be_is_cached := True\<rparr>"
  from cache_put_ok [OF inv room guard_alloc_fresh heap, of "h_table E" "ucast f" ?v] obtain c1 ps1 vs where
    put: "sqfs_cache_put (guard_alloc (h_entry E)) (h_table E) (ctx_data_cache ctx) (ucast f) (Some ?v)
        (of_nat SIZEOF_block_entry + of_nat (length d)) = Some (Inr (None, c1))"
    and inv1: "cache_inv c1 ps1"
    and lru: "lru_put (unat (c_max_entries (ctx_data_cache ctx))) (unat (c_max_memory (ctx_data_cache ctx))) (ucast f) ?v
        (of_nat SIZEOF_block_entry + of_nat (length d)) (abs_cache (ctx_data_cache ctx) ps)
        = (abs_cache c1 ps1, vs)" by blast
  define ctx1 where "ctx1 = ctx\<lparr>ctx_data_cache := c1\<rparr>"
  obtain s l where "abs_cache c1 ps1 = (ucast f, ?v, s) # l"
    using lru [symmetric] by (auto simp: lru_put_def split: option.splits prod.splits)
  then have "map_option fst (map_of (abs_cache c1 ps1) (ucast f)) = Some ?v" by simp
  with cache_get_ok [OF inv1, of "ucast f"] obtain c2 where
    "sqfs_cache_get c1 (ucast f) = Some (Inr (Some ?v, c2))" by auto
  then have get: "data_cache_get (sqfs_fragment_cache_key f) ctx1 = Some (Inr (Some ?v), ctx1\<lparr>ctx_data_cache := c2\<rparr>)"
    by (simp add: data_cache_get_def ctx1_def sqfs_fragment_cache_key_def)
  have "cache_block E (ucast f) d ctx = Some (Inr (), ctx1)"
    using put d mem by (simp add: cache_block_def sqfs_data_block_cache_new_def sqfs_calloc_def sqfs_malloc_def
        SIZEOF_block_entry_def data_cache_put_def sqfs_data_block_cache_key_def ctx1_def)
  moreover have "fragment_copy (unat (block_size (disk (ctx_sb ctx)))) ?v (unat off) n = Inr (segment d (unat off) n)"
    using off(2) by (auto simp: fragment_copy_def mem_read_def Let_def segment_def)
  then have "sqfs_fragment_read E f off n ctx1
      = Some (Inr (segment d (unat off) n), ctx1\<lparr>ctx_data_cache := c2\<rparr>)"
    using get frag off(1) by (simp add: sqfs_fragment_read_def ctx1_def)
  ultimately show ?thesis by blast
qed

theorem fragment_key_collision_witness:
  "\<exists>ctx1 ctx2. cache_block small_heap 96 [1, 2, 3, 4] small_ctx = Some (Inr (), ctx1)
    \<and> sqfs_fragment_read small_heap 96 1 2 ctx1 = Some (Inr [2, 3], ctx2)"
  using fragment_key_collision [of small_ctx "[]" small_heap "[1, 2, 3, 4]" 96 1 2] block_cache_inv mem_ok_pos
  by (simp add: sqfs_fragment_is_none_def SQFS_FRAGMENT_NONE_def SIZEOF_block_entry_def segment_def
      small_heap_def guard_fresh [OF first_free_fresh] first_free_serves)

end
