(* ===== verification/FragmentFormat.thy ===== *)
theory FragmentFormat
  imports DataClaims
begin

text \<open>
  The fragment table on disk: up to 512 entries of 16 bytes in a metadata block, the positions of
  the blocks in an index. What the loader makes of it, and what happens when it is not there.
\<close>

section \<open>The format\<close>

definition put_frag_entry :: "sqfs_frag_entry \<Rightarrow> byte list" where
  "put_frag_entry e = put_le64 (fe_start e) @ put_le32 (fe_size e) @ put_le32 (fe_unused e)"

text \<open>The blocks at the positions of the index hold the entries, 512 in each but the last.\<close>

fun entries_stored :: "(u64 \<Rightarrow> byte list res) \<Rightarrow> u64 list \<Rightarrow> sqfs_frag_entry list \<Rightarrow> bool" where
  "entries_stored rd [] es \<longleftrightarrow> es = []"
| "entries_stored rd (p # ps) es \<longleftrightarrow>
     es \<noteq> [] \<and> (\<exists>rest. rd p = Inr (concat (map put_frag_entry (take 512 es)) @ rest))
     \<and> entries_stored rd ps (drop 512 es)"

lemma length_put_frag_entry [simp]: "length (put_frag_entry e) = 16"
  by (simp add: put_frag_entry_def)

lemma length_put_entries [simp]: "length (concat (map put_frag_entry es)) = 16 * length es"
  by (induction es) simp_all

lemma entries_stored_blocks: "entries_stored rd ps es \<Longrightarrow> length ps = (length es + 511) div 512"
proof (induction ps arbitrary: es)
  case (Cons p ps)
  from Cons.prems have ne: "0 < length es" by simp
  have "entries_stored rd ps (drop 512 es)" using Cons.prems by simp
  from Cons.IH [OF this] have "length ps = (length es - 512 + 511) div 512" by simp
  with ne show ?case by (cases "length es \<le> 512") (simp_all add: div_if)
qed simp

section \<open>Decoding\<close>

lemma get_frag_entry_put:
  assumes "segment data off 16 = put_frag_entry e" and "off + 16 \<le> length data"
  shows "get_frag_entry data off = Inr e"
proof -
  have part: "segment data (off + i) n = segment (put_frag_entry e) i n" if "i + n \<le> 16" for i n
    using that by (simp add: assms(1) [symmetric] segment_segment)
  note part [of 0 8, simplified] part [of 8 4, simplified] part [of 12 4, simplified]
  moreover have "segment (put_le32 (fe_unused e)) 0 4 = put_le32 (fe_unused e)" by (simp add: segment_def)
  ultimately show ?thesis using assms(2)
    by (simp add: get_frag_entry_def put_frag_entry_def segment_skip segment_head)
qed

lemma get_frag_entries_put:
  assumes "data = pre @ concat (map put_frag_entry es) @ post"
  shows "get_frag_entries data (length pre) (length es) = Inr es"
  using assms
proof (induction es arbitrary: pre)
  case (Cons e es)
  have "get_frag_entry data (length pre) = Inr e"
    using Cons.prems by (intro get_frag_entry_put) (simp_all add: segment_skip segment_head)
  moreover have "get_frag_entries data (length (pre @ put_frag_entry e)) (length es) = Inr es"
    using Cons.prems by (intro Cons.IH) simp
  ultimately show ?case by (simp add: SIZEOF_frag_entry_def)
qed simp

lemma get_u64s_put:
  assumes "data = pre @ concat (map put_le64 xs) @ post"
  shows "get_u64s data (length pre) (length xs) = Inr xs"
  using assms
proof (induction xs arbitrary: pre)
  case (Cons x xs)
  have "get_le64 data (length pre) = Inr x" using Cons.prems by (simp add: segment_skip segment_head)
  moreover have "get_u64s data (length (pre @ put_le64 x)) (length xs) = Inr xs"
    using Cons.prems by (intro Cons.IH) simp
  ultimately show ?case by simp
qed simp

lemma load_entries_loop_ok:
  assumes "entries_stored (\<lambda>p. sqfs_meta_read_block mem fd p cmp) ps es"
  shows "load_entries_loop mem fd ps (length es) cmp = Inr es"
  using assms
proof (induction ps arbitrary: es)
  case (Cons p ps)
  define n where "n = min 512 (length es)"
  from Cons.prems obtain rest where
    b: "sqfs_meta_read_block mem fd p cmp = Inr (concat (map put_frag_entry (take 512 es)) @ rest)" by auto
  have "length (take 512 es) = n" by (simp add: n_def)
  with get_frag_entries_put [of _ "[]" "take 512 es" rest] have
    "get_frag_entries (concat (map put_frag_entry (take 512 es)) @ rest) 0 n = Inr (take 512 es)" by simp
  moreover have "length es - n = length (drop 512 es)" by (simp add: n_def min_def)
  then have "load_entries_loop mem fd ps (length es - n) cmp = Inr (drop 512 es)"
    using Cons.IH [of "drop 512 es"] Cons.prems by (simp del: length_drop)
  moreover have "(if FRAGMENT_ENTRIES_PER_BLOCK < length es then FRAGMENT_ENTRIES_PER_BLOCK else length es) = n"
    by (simp add: FRAGMENT_ENTRIES_PER_BLOCK_def n_def)
  ultimately show ?case using b by (simp add: SIZEOF_frag_entry_def n_def Let_def min.commute)
qed simp

text \<open>The number of index entries, on 32 bits.\<close>

lemma index_count:
  assumes "n + 511 < 2 ^ 32"
  shows "unat ((of_nat n + of_nat FRAGMENT_ENTRIES_PER_BLOCK - 1) div of_nat FRAGMENT_ENTRIES_PER_BLOCK :: u32)
    = (n + 511) div 512"
proof -
  have "(of_nat n + of_nat FRAGMENT_ENTRIES_PER_BLOCK - 1 :: u32) = of_nat (n + 511)"
    by (simp add: FRAGMENT_ENTRIES_PER_BLOCK_def)
  moreover have "unat (of_nat (n + 511) :: u32) = n + 511" using assms by (simp only: unat_of_nat) simp
  ultimately show ?thesis by (simp only: unat_div FRAGMENT_ENTRIES_PER_BLOCK_def) simp
qed

lemma fragment_entries_read_ok:
  assumes mem: "\<forall>k. mem k \<noteq> 0" and rel: "reliable (sb_fd (ctx_sb ctx))"
    and n: "0 < length es" "length es + 511 < 2 ^ 32"
    and img: "f_image (sb_fd (ctx_sb ctx)) = pre @ concat (map put_le64 ps) @ post"
    and pos: "unat (frag_table (disk (ctx_sb ctx))) = length pre"
    and st: "entries_stored (\<lambda>p. sqfs_meta_read_block mem (sb_fd (ctx_sb ctx)) p (ctx_comp ctx)) ps es"
  shows "fragment_entries_read mem ctx (of_nat (length es)) = Inr es"
proof -
  have len: "length ps = (length es + 511) div 512" by (rule entries_stored_blocks [OF st])
  have cnt: "unat (of_nat (length es) :: u32) = length es" using n(2) by (simp add: unat_of_nat)
  have nz: "(of_nat (length es) :: u32) \<noteq> 0" using cnt n(1) by (metis unat_0 less_irrefl)
  define nb where "nb = ((of_nat (length es) + of_nat FRAGMENT_ENTRIES_PER_BLOCK - 1) div of_nat FRAGMENT_ENTRIES_PER_BLOCK :: u32)"
  have nb: "unat nb = length ps" unfolding nb_def using index_count [OF n(2)] len by simp
  have "length (concat (map put_le64 ps)) = 8 * length ps" by (induction ps) simp_all
  then have "segment (f_image (sb_fd (ctx_sb ctx))) (length pre) (unat nb * 8) = concat (map put_le64 ps)"
    and fits: "length pre + unat nb * 8 \<le> length (f_image (sb_fd (ctx_sb ctx)))"
    by (simp_all add: img nb segment_def mult.commute)
  with reliable_pread [OF rel, of "frag_table (disk (ctx_sb ctx))" "unat nb * 8"] pos have
    "sqfs_pread_all (sb_fd (ctx_sb ctx)) (unat nb * 8) (frag_table (disk (ctx_sb ctx))) = Inr (concat (map put_le64 ps))"
    by simp
  with get_u64s_put [of "concat (map put_le64 ps)" "[]" ps "[]"] nz mem nb have
    "read_fragment_table_index mem (sb_fd (ctx_sb ctx)) (frag_table (disk (ctx_sb ctx))) (of_nat (length es))
      = Inr (Some ps, nb)"
    by (simp add: read_fragment_table_index_def nb_def [symmetric] Let_def sqfs_malloc_def)
  moreover have "0 < length ps" unfolding len using n(1) by (simp add: div_greater_zero_iff Suc_le_eq)
  then have "0 < nb" by (simp add: word_less_nat_alt nb)
  moreover have "load_fragment_entries mem (sb_fd (ctx_sb ctx)) ps (of_nat (length es)) (ctx_comp ctx) = Inr es"
    using load_entries_loop_ok [OF st] mem cnt by (simp add: load_fragment_entries_def sqfs_malloc_def)
  moreover have "unat (of_nat (length es) :: u32) * SIZEOF_frag_entry < 18446744073709551616"
    using n(2) cnt by (simp add: SIZEOF_frag_entry_def)
  ultimately show ?thesis using mem by (simp add: fragment_entries_read_def sqfs_calloc_def)
qed

lemma fragment_table_load_ok:
  assumes "\<forall>k. mem k \<noteq> 0" and "reliable (sb_fd (ctx_sb ctx))" and "0 < length es" and "length es + 511 < 2 ^ 32"
    and "f_image (sb_fd (ctx_sb ctx)) = pre @ concat (map put_le64 ps) @ post"
    and "unat (frag_table (disk (ctx_sb ctx))) = length pre"
    and "entries_stored (\<lambda>p. sqfs_meta_read_block mem (sb_fd (ctx_sb ctx)) p (ctx_comp ctx)) ps es"
    and "has_fragments (ctx_sb ctx)" and "frag_count (disk (ctx_sb ctx)) = of_nat (length es)"
    and "ctx_fragment_table ctx = Some t" and "\<not> ft_loaded t"
  shows "sqfs_fragment_table_load mem ctx = Some (Inr (), ctx\<lparr>ctx_fragment_table :=
      Some (t\<lparr>ft_entries := Some es, ft_count := of_nat (length es), ft_loaded := True\<rparr>)\<rparr>)"
proof -
  have "unat (of_nat (length es) :: u32) = length es" using assms(4) by (simp add: unat_of_nat)
  with assms(3) have "(of_nat (length es) :: u32) \<noteq> 0" by (metis unat_0 less_irrefl)
  with fragment_entries_read_ok [OF assms(1-7)] assms(8-11) show ?thesis
    by (simp add: sqfs_fragment_table_load_def)
qed

lemma loaded_entry:
  assumes "ctx_fragment_table ctx = Some (t\<lparr>ft_entries := Some es, ft_count := of_nat (length es), ft_loaded := True\<rparr>)"
    and "length es < 2 ^ 32"
  shows "sqfs_fragment_get_entry ctx idx =
    (if unat idx < length es then Inr (es ! unat idx) else Inl (Err SQFS_ERR_NOT_FOUND))"
proof -
  have "unat (of_nat (length es) :: u32) = length es" using assms(2) by (simp add: unat_of_nat)
  then have "(of_nat (length es) \<le> idx) = (length es \<le> unat idx)" by (simp add: word_le_nat_alt)
  with assms(1) show ?thesis by (simp add: sqfs_fragment_get_entry_def)
qed

section \<open>Properties\<close>

text \<open>An image with a fragment table of one entry: the metadata block, then the index.\<close>

definition one_entry :: sqfs_frag_entry where
  "one_entry = \<lparr>fe_start = 7, fe_size = 0x1000003, fe_unused = 0\<rparr>"

definition table_ctx :: sqfs_ctx where
  "table_ctx = small_ctx\<lparr>ctx_sb := (ctx_sb small_ctx)\<lparr>
       disk := example_superblock\<lparr>frag_table := 18, frag_count := 1\<rparr>,
       sb_fd := \<lparr>f_image = block_bytes (Raw (put_frag_entry one_entry)) @ put_le64 0, f_stat_size = Some 26,
         f_events = (\<lambda>_ _. [])\<rparr>\<rparr>,
     ctx_fragment_table := Some sqfs_fragment_table_init\<rparr>"

text \<open>C15: loading the fragment table. For every list of entries stored as the format says, in
  metadata blocks of any encoding, with the index at the place the superblock names, the loader succeeds
  with exactly these entries, and a look-up then gives the entry for an index below their number and
  ``not found'' for every other.\<close>

theorem fragment_table_roundtrip:
  assumes mem: "\<forall>k. mem k \<noteq> 0" and rel: "reliable (sb_fd (ctx_sb ctx))"
    and n: "0 < length es" "length es + 511 < 2 ^ 32"
    and img: "f_image (sb_fd (ctx_sb ctx)) = pre @ concat (map put_le64 ps) @ post"
    and pos: "unat (frag_table (disk (ctx_sb ctx))) = length pre"
    and st: "entries_stored (\<lambda>p. sqfs_meta_read_block mem (sb_fd (ctx_sb ctx)) p (ctx_comp ctx)) ps es"
    and sb: "has_fragments (ctx_sb ctx)" "frag_count (disk (ctx_sb ctx)) = of_nat (length es)"
    and t: "ctx_fragment_table ctx = Some t" "\<not> ft_loaded t"
  shows "\<exists>ctx'. sqfs_fragment_table_load mem ctx = Some (Inr (), ctx')
    \<and> (\<forall>idx. sqfs_fragment_get_entry ctx' idx =
        (if unat idx < length es then Inr (es ! unat idx) else Inl (Err SQFS_ERR_NOT_FOUND)))"
proof -
  let ?ctx = "ctx\<lparr>ctx_fragment_table :=
      Some (t\<lparr>ft_entries := Some es, ft_count := of_nat (length es), ft_loaded := True\<rparr>)\<rparr>"
  have "length es < 2 ^ 32" using n(2) by simp
  then have "\<forall>idx. sqfs_fragment_get_entry ?ctx idx =
      (if unat idx < length es then Inr (es ! unat idx) else Inl (Err SQFS_ERR_NOT_FOUND))"
    by (intro allI loaded_entry) simp_all
  with fragment_table_load_ok [OF mem rel n img pos st sb t] show ?thesis by blast
qed

theorem fragment_table_roundtrip_witness:
  "\<exists>ctx'. sqfs_fragment_table_load mem_ok table_ctx = Some (Inr (), ctx')
    \<and> sqfs_fragment_get_entry ctx' 0 = Inr one_entry \<and> sqfs_fragment_get_entry ctx' 1 = Inl (Err SQFS_ERR_NOT_FOUND)"
proof -
  let ?fd = "sb_fd (ctx_sb table_ctx)"
  have rel: "reliable ?fd" by (simp add: reliable_def table_ctx_def)
  have img: "f_image ?fd = block_bytes (Raw (put_frag_entry one_entry)) @ concat (map put_le64 [0]) @ []"
    by (simp add: table_ctx_def)
  have "sqfs_meta_read_block mem_ok ?fd 0 (ctx_comp table_ctx) = Inr (put_frag_entry one_entry)"
    using stored_block_read(1) [OF rel, of "[]" "Raw (put_frag_entry one_entry)" "put_le64 0" 0 "ctx_comp table_ctx" mem_ok]
    by (simp add: table_ctx_def)
  then have st: "entries_stored (\<lambda>p. sqfs_meta_read_block mem_ok ?fd p (ctx_comp table_ctx)) [0] [one_entry]"
    by simp
  have pos: "unat (frag_table (disk (ctx_sb table_ctx))) = length (block_bytes (Raw (put_frag_entry one_entry)))"
    by (simp add: table_ctx_def)
  have "\<exists>ctx'. sqfs_fragment_table_load mem_ok table_ctx = Some (Inr (), ctx')
      \<and> (\<forall>idx. sqfs_fragment_get_entry ctx' idx =
        (if unat idx < length [one_entry] then Inr ([one_entry] ! unat idx) else Inl (Err SQFS_ERR_NOT_FOUND)))"
    by (rule fragment_table_roundtrip [OF mem_ok_pos rel _ _ img pos st, where t = sqfs_fragment_table_init])
      (simp_all add: table_ctx_def small_ctx_def sqfs_fragment_table_init_def)
  then obtain ctx' where l: "sqfs_fragment_table_load mem_ok table_ctx = Some (Inr (), ctx')"
    and e: "\<And>idx. sqfs_fragment_get_entry ctx' idx =
        (if unat idx < length [one_entry] then Inr ([one_entry] ! unat idx) else Inl (Err SQFS_ERR_NOT_FOUND))" by blast
  from e [of 0] e [of 1] l show ?thesis by simp
qed

end
