(* ===== verification/Xattr.thy ===== *)
theory Xattr
  imports FragmentFormat
begin

text \<open>
  \<open>src/core/xattr.h\<close> and \<open>src/core/xattr.c\<close>: the table of attribute references, the parser of
  key-value pairs in a metadata block, the value of one attribute and the list of names. The
  pointers the callers pass are not null, except for the output buffers, whose absence asks for
  the size only.
\<close>

section \<open>Prefixes\<close>

definition SQFS_XATTR_PREFIX_USER :: u16 where "SQFS_XATTR_PREFIX_USER = 0"
definition SQFS_XATTR_PREFIX_TRUSTED :: u16 where "SQFS_XATTR_PREFIX_TRUSTED = 1"
definition SQFS_XATTR_PREFIX_SECURITY :: u16 where "SQFS_XATTR_PREFIX_SECURITY = 2"
definition SQFS_XATTR_TYPE_OOL :: u16 where "SQFS_XATTR_TYPE_OOL = 0x0100"
definition SQFS_XATTR_INVALID_IDX :: u32 where "SQFS_XATTR_INVALID_IDX = 0xFFFFFFFF"

text \<open>The strings \<open>user.\<close>, \<open>trusted.\<close> and \<open>security.\<close>; \<open>None\<close> is the null pointer.\<close>

definition sqfs_xattr_prefix_str :: "u16 \<Rightarrow> byte list option" where
  "sqfs_xattr_prefix_str t =
     (if t = SQFS_XATTR_PREFIX_USER then Some [117, 115, 101, 114, 46]
      else if t = SQFS_XATTR_PREFIX_TRUSTED then Some [116, 114, 117, 115, 116, 101, 100, 46]
      else if t = SQFS_XATTR_PREFIX_SECURITY then Some [115, 101, 99, 117, 114, 105, 116, 121, 46]
      else None)"

definition sqfs_xattr_prefix_len :: "u16 \<Rightarrow> nat" where
  "sqfs_xattr_prefix_len t =
     (if t = SQFS_XATTR_PREFIX_USER then 5
      else if t = SQFS_XATTR_PREFIX_TRUSTED then 8
      else if t = SQFS_XATTR_PREFIX_SECURITY then 9
      else 0)"

definition sqfs_xattr_parse_type :: "u16 \<Rightarrow> u16 \<times> bool" where
  "sqfs_xattr_parse_type t = (t AND 0x00FF, t AND SQFS_XATTR_TYPE_OOL \<noteq> 0)"

section \<open>The table\<close>

definition XATTR_ID_ENTRY_SIZE :: nat where "XATTR_ID_ENTRY_SIZE = 16"
definition SIZEOF_xattr_table_header :: nat where "SIZEOF_xattr_table_header = 18"
definition SIZEOF_xattr_table :: nat where "SIZEOF_xattr_table = 32"

record sqfs_xattr =
  x_key :: "byte list"
  x_value :: "byte list"
  x_value_size :: nat

definition SIZEOF_xattr :: nat where "SIZEOF_xattr = 24"

text \<open>The loop over the entries, one read for each.\<close>

function read_id_entries :: "os_file \<Rightarrow> u64 \<Rightarrow> nat \<Rightarrow> nat \<Rightarrow> sqfs_xattr_id_entry list res" where
  "read_id_entries fd entries_offset i n =
     (if n \<le> i then Inr []
      else rbind (sqfs_pread_all fd XATTR_ID_ENTRY_SIZE (entries_offset + of_nat (i * XATTR_ID_ENTRY_SIZE))) (\<lambda>b.
        rbind (get_le64 b 0) (\<lambda>ref. rbind (get_le32 b 8) (\<lambda>cnt. rbind (get_le32 b 12) (\<lambda>sz.
        rbind (read_id_entries fd entries_offset (i + 1) n) (\<lambda>rest.
          Inr (\<lparr>xe_xattr_ref = ref, xe_count = cnt, xe_size = sz\<rparr> # rest)))))))"
  by pat_completeness auto
termination read_id_entries by (relation "measure (\<lambda>(fd, off, i, n). n - i)") auto

declare read_id_entries.simps [simp del]

definition read_xattr_id_table :: "allocator \<Rightarrow> sqfs_ctx \<Rightarrow> sqfs_xattr_table \<Rightarrow> sqfs_xattr_table res" where
  "read_xattr_id_table mem ctx table =
     rbind (sqfs_pread_all (sb_fd (ctx_sb ctx)) SIZEOF_xattr_table_header (xattr_table (disk (ctx_sb ctx)))) (\<lambda>header.
     rbind (get_le64 header 0) (\<lambda>start. rbind (get_le64 header 8) (\<lambda>xattr_ids.
       if \<not> xattr_ids < 0xFFFFFFFF then Inl (Err SQFS_ERR_CORRUPT)
       else let table = table\<lparr>xt_table_start := start, xt_count := xattr_ids\<rparr> in
         if xattr_ids = 0 then Inr (table\<lparr>xt_entries := None, xt_loaded := True\<rparr>)
         else if sqfs_calloc mem (unat xattr_ids) XATTR_ID_ENTRY_SIZE = 0 then Inl (Err SQFS_ERR_NO_MEMORY)
         else rbind (read_id_entries (sb_fd (ctx_sb ctx))
             (xattr_table (disk (ctx_sb ctx)) + of_nat SIZEOF_xattr_table_header) 0 (unat xattr_ids)) (\<lambda>es.
           Inr (table\<lparr>xt_entries := Some es, xt_loaded := True\<rparr>)))))"

definition sqfs_xattr_table_load :: "allocator \<Rightarrow> unit op" where
  "sqfs_xattr_table_load mem ctx =
     (if flags (disk (ctx_sb ctx)) AND SQUASHFS_FLAG_NO_XATTRS \<noteq> 0 then Some (Inl (Err SQFS_ERR_NOT_FOUND), ctx)
      else if \<not> sqfs_table_valid (xattr_table (disk (ctx_sb ctx))) then Some (Inl (Err SQFS_ERR_NOT_FOUND), ctx)
      else if sqfs_calloc mem 1 SIZEOF_xattr_table = 0
      then Some (Inl (Err SQFS_ERR_NO_MEMORY), ctx\<lparr>ctx_xattr_table := None\<rparr>)
      else case read_xattr_id_table mem ctx \<lparr>xt_entries = None, xt_count = 0, xt_table_start = 0, xt_loaded = False\<rparr> of
          Inl e \<Rightarrow> Some (Inl e, ctx\<lparr>ctx_xattr_table := None\<rparr>)
        | Inr t \<Rightarrow> Some (Inr (), ctx\<lparr>ctx_xattr_table := Some t\<rparr>))"

definition sqfs_xattr_table_destroy :: "sqfs_ctx \<Rightarrow> sqfs_ctx" where
  "sqfs_xattr_table_destroy ctx = ctx\<lparr>ctx_xattr_table := None\<rparr>"

section \<open>One metadata block\<close>

text \<open>The buffer has 8192 bytes; an uncompressed block is read into it with whatever size its header
  states. The decompressor is called through the object's pointer.\<close>

definition read_metadata_block_internal :: "allocator \<Rightarrow> sqfs_ctx \<Rightarrow> u64 \<Rightarrow> byte list res" where
  "read_metadata_block_internal mem ctx pos =
     rbind (sqfs_pread_all (sb_fd (ctx_sb ctx)) 2 pos) (\<lambda>h.
       let block_header = sqfs_le16_to_cpu h;
           uncompressed = block_header AND 0x8000 \<noteq> 0;
           compressed_size = unat (block_header AND 0x7FFF)
       in if uncompressed then
            sqfs_pread_buf (sb_fd (ctx_sb ctx)) SQFS_META_BLOCK_SIZE compressed_size (pos + 2)
          else if sqfs_malloc mem compressed_size = 0 then Inl (Err SQFS_ERR_NO_MEMORY)
          else rbind (sqfs_pread_all (sb_fd (ctx_sb ctx)) compressed_size (pos + 2)) (\<lambda>src.
            case ctx_comp ctx of
              None \<Rightarrow> Inl (Fault Null_Deref)
            | Some c \<Rightarrow>
                (case comp_decompress c of
                   None \<Rightarrow> Inl (Fault Null_Deref)
                 | Some f \<Rightarrow> recode (Err SQFS_ERR_CORRUPT) (f Disjoint src SQFS_META_BLOCK_SIZE))))"

section \<open>Pairs\<close>

text \<open>A read inside of the 8192-byte block buffer, of which the block's bytes have been written.\<close>

definition buf_read :: "byte list \<Rightarrow> nat \<Rightarrow> nat \<Rightarrow> byte list res" where
  "buf_read b off n =
     (if n = 0 then Inr []
      else if off + n \<le> length b then Inr (segment b off n)
      else if off + n \<le> SQFS_META_BLOCK_SIZE then Inl (Fault Uninit_Read)
      else Inl (Fault OOB_Read))"

text \<open>Type and name size of the key at \<open>data + pos\<close>, and a value size.\<close>

definition read_key :: "byte list \<Rightarrow> nat \<Rightarrow> (u16 \<times> u16) res" where
  "read_key b off = rbind (buf_read b off 4) (\<lambda>k.
     rbind (get_le16 k 0) (\<lambda>t. rbind (get_le16 k 2) (\<lambda>n. Inr (t, n))))"

definition read_value_size :: "byte list \<Rightarrow> nat \<Rightarrow> u32 res" where
  "read_value_size b off = rbind (buf_read b off 4) (\<lambda>v. get_le32 v 0)"

text \<open>The first pass: it checks every pair up to the end of the block and counts them. \<open>off\<close> is the
  offset of the data in the buffer, \<open>remaining\<close> the bytes the code takes to be there.\<close>

function count_pairs :: "byte list \<Rightarrow> nat \<Rightarrow> nat \<Rightarrow> nat \<Rightarrow> nat \<Rightarrow> nat res" where
  "count_pairs b off remaining pos pair_count =
     (if \<not> pos + 4 \<le> remaining then Inr pair_count
      else rbind (read_key b (off + pos)) (\<lambda>(t, name_size).
        if SQFS_XATTR_PREFIX_SECURITY < fst (sqfs_xattr_parse_type t) then Inl (Err SQFS_ERR_BAD_XATTR)
        else let pos = pos + 4 + unat name_size in
          if remaining < pos + 4 then Inl (Err SQFS_ERR_BAD_XATTR)
          else rbind (read_value_size b (off + pos)) (\<lambda>value_size.
            let pos = pos + 4 + unat value_size in
              if remaining < pos then Inl (Err SQFS_ERR_BAD_XATTR)
              else count_pairs b off remaining pos (pair_count + 1))))"
  by pat_completeness auto
termination count_pairs by (relation "measure (\<lambda>(b, off, remaining, pos, n). remaining - pos)") auto

declare count_pairs.simps [simp del]

text \<open>The second pass builds the array.\<close>

fun fill_pairs :: "allocator \<Rightarrow> byte list \<Rightarrow> nat \<Rightarrow> nat \<Rightarrow> nat \<Rightarrow> nat \<Rightarrow> sqfs_xattr list res" where
  "fill_pairs mem b off remaining pos 0 = Inr []"
| "fill_pairs mem b off remaining pos (Suc n) =
     (if \<not> pos + 4 \<le> remaining then Inr []
      else rbind (read_key b (off + pos)) (\<lambda>(t, name_size).
        let prefix = fst (sqfs_xattr_parse_type t); prefix_len = sqfs_xattr_prefix_len prefix in
        if sqfs_malloc mem (prefix_len + unat name_size + 1) = 0 then Inl (Err SQFS_ERR_NO_MEMORY)
        else rbind (buf_read b (off + pos + 4) (unat name_size)) (\<lambda>name.
          let key = (case sqfs_xattr_prefix_str prefix of None \<Rightarrow> [] | Some s \<Rightarrow> take prefix_len s) @ name @ [0];
              pos = pos + 4 + unat name_size
          in rbind (read_value_size b (off + pos)) (\<lambda>value_size.
            if sqfs_malloc mem (unat value_size) = 0 then Inl (Err SQFS_ERR_NO_MEMORY)
            else rbind (buf_read b (off + pos + 4) (unat value_size)) (\<lambda>value.
              rbind (fill_pairs mem b off remaining (pos + 4 + unat value_size) n) (\<lambda>rest.
                Inr (\<lparr>x_key = key, x_value = value, x_value_size = unat value_size\<rparr> # rest)))))))"

text \<open>The difference of the block's size and the offset is an unsigned one.\<close>

definition read_xattr_pairs :: "allocator \<Rightarrow> sqfs_ctx \<Rightarrow> u64 \<Rightarrow> sqfs_xattr list res" where
  "read_xattr_pairs mem ctx ref =
     (case ctx_xattr_table ctx of
        None \<Rightarrow> Inl (Fault Null_Deref)
      | Some table \<Rightarrow>
          if sqfs_malloc mem SQFS_META_BLOCK_SIZE = 0 then Inl (Err SQFS_ERR_NO_MEMORY)
          else rbind (read_metadata_block_internal mem ctx (xt_table_start table + sqfs_meta_block_pos ref)) (\<lambda>b.
            let off = unat (sqfs_meta_block_offset ref);
                remaining = unat (of_nat (length b) - of_nat off :: u64)
            in rbind (count_pairs b off remaining 0 0) (\<lambda>pair_count.
              if pair_count = 0 then Inr []
              else if sqfs_calloc mem pair_count SIZEOF_xattr = 0 then Inl (Err SQFS_ERR_NO_MEMORY)
              else fill_pairs mem b off remaining 0 pair_count)))"

section \<open>Reading attributes\<close>

text \<open>The first pair with the name.\<close>

fun find_xattr :: "sqfs_xattr list \<Rightarrow> byte list \<Rightarrow> sqfs_xattr option" where
  "find_xattr [] name = None"
| "find_xattr (x # xs) name = (if c_str (x_key x) = name then Some x else find_xattr xs name)"

text \<open>
  The result, the bytes written to the value buffer, and the size stored through \<open>out_size\<close>. The
  buffer is given by its size, or is missing.
\<close>

definition sqfs_xattr_get ::
  "allocator \<Rightarrow> sqfs_ctx \<Rightarrow> u32 \<Rightarrow> byte list \<Rightarrow> nat option \<Rightarrow> byte list res \<times> nat" where
  "sqfs_xattr_get mem ctx xattr_idx name buf =
     (case ctx_xattr_table ctx of
        None \<Rightarrow> (Inl (Err SQFS_ERR_NOT_FOUND), 0)
      | Some table \<Rightarrow>
          if \<not> xt_loaded table then (Inl (Err SQFS_ERR_NOT_FOUND), 0)
          else if xattr_idx = SQFS_XATTR_INVALID_IDX then (Inl (Err SQFS_ERR_NOT_FOUND), 0)
          else if xt_count table \<le> ucast xattr_idx then (Inl (Err SQFS_ERR_BAD_XATTR), 0)
          else case xt_entries table of
              None \<Rightarrow> (Inl (Fault Null_Deref), 0)
            | Some es \<Rightarrow>
                if length es \<le> unat xattr_idx then (Inl (Fault OOB_Read), 0)
                else case read_xattr_pairs mem ctx (xe_xattr_ref (es ! unat xattr_idx)) of
                    Inl e \<Rightarrow> (Inl e, 0)
                  | Inr pairs \<Rightarrow>
                      (case find_xattr pairs name of
                         None \<Rightarrow> (Inl (Err SQFS_ERR_NOT_FOUND), 0)
                       | Some x \<Rightarrow>
                           (case buf of
                              None \<Rightarrow> (Inr [], x_value_size x)
                            | Some sz \<Rightarrow>
                                if sz < x_value_size x then (Inl (Err SQFS_ERR_OVERFLOW), x_value_size x)
                                else (Inr (x_value x), x_value_size x))))"

definition names_of :: "sqfs_xattr list \<Rightarrow> byte list" where
  "names_of pairs = concat (map (\<lambda>x. c_str (x_key x) @ [0]) pairs)"

definition sqfs_xattr_list :: "allocator \<Rightarrow> sqfs_ctx \<Rightarrow> u32 \<Rightarrow> nat option \<Rightarrow> byte list res \<times> nat" where
  "sqfs_xattr_list mem ctx xattr_idx buf =
     (case ctx_xattr_table ctx of
        None \<Rightarrow> (Inl (Err SQFS_ERR_NOT_FOUND), 0)
      | Some table \<Rightarrow>
          if \<not> xt_loaded table then (Inl (Err SQFS_ERR_NOT_FOUND), 0)
          else if xattr_idx = SQFS_XATTR_INVALID_IDX then (Inr [], 0)
          else if xt_count table \<le> ucast xattr_idx then (Inl (Err SQFS_ERR_BAD_XATTR), 0)
          else case xt_entries table of
              None \<Rightarrow> (Inl (Fault Null_Deref), 0)
            | Some es \<Rightarrow>
                if length es \<le> unat xattr_idx then (Inl (Fault OOB_Read), 0)
                else case read_xattr_pairs mem ctx (xe_xattr_ref (es ! unat xattr_idx)) of
                    Inl e \<Rightarrow> (Inl e, 0)
                  | Inr pairs \<Rightarrow>
                      let total_size = length (names_of pairs) in
                      (case buf of
                         None \<Rightarrow> (Inr [], total_size)
                       | Some sz \<Rightarrow>
                           if sz < total_size then (Inl (Err SQFS_ERR_OVERFLOW), total_size)
                           else (Inr (names_of pairs), total_size)))"

end
