(* ===== verification/Directory.thy ===== *)
theory Directory
  imports InodeFormat ReadBuffer
begin

text \<open>
  \<open>src/core/directory.h\<close> and \<open>src/core/directory.c\<close>: the directory's own reader of metadata
  blocks, the copy of a listing that runs over several blocks, the parser of headers and
  entries, the lookup by name. The printing routine is in \<open>Printing\<close>.
\<close>

section \<open>Metadata blocks\<close>

definition read_meta_header :: "os_file \<Rightarrow> u64 \<Rightarrow> u16 res" where
  "read_meta_header fd pos = rbind (sqfs_pread_all fd 2 pos) (\<lambda>h. Inr (sqfs_le16_to_cpu h))"

text \<open>The output buffer has 8192 bytes, but the size field of an uncompressed block can say up
  to 32767 and is passed to the read as it is. A request for more bytes than the buffer holds
  is the fault, whether or not the file has that many.\<close>

definition decompress_meta_block ::
  "allocator \<Rightarrow> os_file \<Rightarrow> u64 \<Rightarrow> u16 \<Rightarrow> bool \<Rightarrow> sqfs_compressor option \<Rightarrow> byte list res" where
  "decompress_meta_block mem fd pos comp_size is_uncomp cmp =
     (if is_uncomp then
        sqfs_pread_buf fd SQFS_META_BLOCK_SIZE (unat comp_size) pos
      else if sqfs_malloc mem (unat comp_size) = 0 then Inl (Err SQFS_ERR_NO_MEMORY)
      else rbind (sqfs_pread_all fd (unat comp_size) pos) (\<lambda>comp_buf.
        recode (Err SQFS_ERR_CORRUPT)
          (sqfs_compressor_decompress cmp Disjoint comp_buf SQFS_META_BLOCK_SIZE)))"

definition read_meta_block ::
  "allocator \<Rightarrow> os_file \<Rightarrow> u64 \<Rightarrow> sqfs_compressor option \<Rightarrow> (byte list \<times> u64) res" where
  "read_meta_block mem fd pos cmp =
     rbind (read_meta_header fd pos) (\<lambda>header.
       let is_uncomp = header AND 0x8000 \<noteq> 0;
           comp_size = header AND 0x7FFF
       in rbind (decompress_meta_block mem fd (pos + 2) comp_size is_uncomp cmp) (\<lambda>b.
            Inr (b, pos + 2 + ucast comp_size)))"

section \<open>The bytes of a listing\<close>

text \<open>The loop over the blocks: \<open>out\<close> are the bytes copied so far, of the \<open>sz\<close> bytes wanted, into a
  buffer of \<open>cap\<close> bytes.\<close>

function read_remaining_blocks ::
  "allocator \<Rightarrow> os_file \<Rightarrow> sqfs_compressor option \<Rightarrow> u64 \<Rightarrow> nat \<Rightarrow> nat \<Rightarrow> byte list \<Rightarrow> byte list res" where
  "read_remaining_blocks mem fd cmp block_pos cap sz out =
     (if sz \<le> length out then Inr out
      else rbind (read_meta_block mem fd block_pos cmp) (\<lambda>(b, next).
        let to_copy = sz - length out;
            to_copy = (if length b < to_copy then length b else to_copy)
        in rbind (buf_copy cap out b 0 to_copy) (\<lambda>out.
             read_remaining_blocks mem fd cmp next cap sz out)))"
  by pat_completeness auto

lemma read_meta_block_header:
  assumes "read_meta_block mem fd pos cmp = Inr (b, next)"
  obtains header where "sqfs_pread_all fd 2 pos = Inr header"
    and "next = pos + of_nat (2 + unat (sqfs_le16_to_cpu header AND 0x7FFF))"
    and "decompress_meta_block mem fd (pos + 2) (sqfs_le16_to_cpu header AND 0x7FFF)
      (sqfs_le16_to_cpu header AND 0x8000 \<noteq> 0) cmp = Inr b"
  using assms by (auto simp: read_meta_block_def read_meta_header_def rbind_eq_Inr_iff Let_def
      add.assoc)

lemma read_meta_block_advance:
  assumes "read_meta_block mem fd pos cmp = Inr (b, next)"
  shows "unat pos < unat next"
proof -
  from assms obtain header where h: "sqfs_pread_all fd 2 pos = Inr header"
    and nx: "next = pos + of_nat (2 + unat (sqfs_le16_to_cpu header AND 0x7FFF))"
    by (rule read_meta_block_header)
  have "unat (pos + of_nat (2 + unat (sqfs_le16_to_cpu header AND 0x7FFF)))
      = unat pos + (2 + unat (sqfs_le16_to_cpu header AND 0x7FFF))"
    using meta_size_bound [of "sqfs_le16_to_cpu header"] by (intro pread.rd_next [OF h]) simp_all
  with nx show ?thesis by simp
qed

termination read_remaining_blocks
  by (relation "measure (\<lambda>(mem, fd, cmp, pos, cap, sz, out). 2 ^ 64 - unat pos)")
    (auto dest!: read_meta_block_advance intro!: diff_less_mono2)

declare read_remaining_blocks.simps [simp del]

text \<open>\<open>cap\<close> is the size of the buffer the caller allocated.\<close>

definition read_directory_data ::
  "allocator \<Rightarrow> os_file \<Rightarrow> u64 \<Rightarrow> sqfs_compressor option \<Rightarrow> u64 \<Rightarrow> u16 \<Rightarrow> u32 \<Rightarrow> nat \<Rightarrow> byte list res" where
  "read_directory_data mem fd dtab cmp block_idx block_offset sz cap =
     rbind (read_meta_block mem fd (dtab + block_idx) cmp) (\<lambda>(b, block_pos).
       if length b \<le> unat block_offset then Inl (Err SQFS_ERR_BAD_DIR)
       else if unat block_offset + unat sz \<le> length b then buf_copy cap [] b (unat block_offset) (unat sz)
       else rbind (buf_copy cap [] b (unat block_offset) (length b - unat block_offset))
         (read_remaining_blocks mem fd cmp block_pos cap (unat sz)))"

section \<open>Entries\<close>

record sqfs_dir_header =
  dh_count :: u32
  dh_start :: u32
  dh_inode_number :: u32

record sqfs_dir_entry =
  de_offset :: u16
  de_inode_offset :: u16   \<comment> \<open>an \<open>int16_t\<close>\<close>
  de_type :: u16
  de_name_size :: u16

text \<open>A runtime entry; the name is the allocated buffer, terminator included.\<close>

record sqfs_dirent =
  d_name :: "byte list"
  d_inode_number :: u64
  d_inode_ref :: u64
  d_type :: sqfs_inode_type

text \<open>Sizes of the packed headers and of the runtime entry.\<close>

definition SIZEOF_dir_header :: nat where "SIZEOF_dir_header = 12"
definition SIZEOF_dir_entry :: nat where "SIZEOF_dir_entry = 8"
definition SIZEOF_dirent :: nat where "SIZEOF_dirent = 32"

lemmas dir_sizes [simp] = SIZEOF_dir_header_def SIZEOF_dir_entry_def SIZEOF_dirent_def

definition get_dir_header :: "byte list \<Rightarrow> nat \<Rightarrow> sqfs_dir_header res" where
  "get_dir_header data ptr =
     rbind (get_le32 data ptr) (\<lambda>c. rbind (get_le32 data (ptr + 4)) (\<lambda>s.
     rbind (get_le32 data (ptr + 8)) (\<lambda>n.
       Inr \<lparr>dh_count = c, dh_start = s, dh_inode_number = n\<rparr>)))"

definition get_dir_entry :: "byte list \<Rightarrow> nat \<Rightarrow> sqfs_dir_entry res" where
  "get_dir_entry data ptr =
     rbind (get_le16 data ptr) (\<lambda>off. rbind (get_le16 data (ptr + 2)) (\<lambda>delta.
     rbind (get_le16 data (ptr + 4)) (\<lambda>ty. rbind (get_le16 data (ptr + 6)) (\<lambda>n.
       Inr \<lparr>de_offset = off, de_inode_offset = delta, de_type = ty, de_name_size = n\<rparr>))))"

text \<open>The inode number is the sum of the header's number, taken as an \<open>int32_t\<close>, and the
  signed offset, as an \<open>int64_t\<close>.\<close>

definition dirent_of :: "sqfs_dir_header \<Rightarrow> sqfs_dir_entry \<Rightarrow> sqfs_inode_type \<Rightarrow> byte list \<Rightarrow> sqfs_dirent" where
  "dirent_of header entry t name =
     \<lparr>d_name = name @ [0],
      d_inode_number = scast (dh_inode_number header) + scast (de_inode_offset entry),
      d_inode_ref = push_bit 16 (ucast (dh_start header)) OR ucast (de_offset entry),
      d_type = t\<rparr>"

text \<open>The result array: the entries so far and the capacity in entries.\<close>

type_synonym dirent_array = "sqfs_dirent list \<times> nat"

definition grow_array :: "allocator \<Rightarrow> dirent_array \<Rightarrow> dirent_array res" where
  "grow_array mem arr =
     (case arr of (es, capacity) \<Rightarrow>
        if capacity \<le> length es then
          let new_capacity = (if capacity = 0 then 16 else capacity * 2)
          in if sqfs_realloc mem (new_capacity * SIZEOF_dirent) = 0 then Inl (Err SQFS_ERR_NO_MEMORY)
             else Inr (es, new_capacity)
        else Inr (es, capacity))"

text \<open>The store into the array: the slot must lie below the capacity.\<close>

definition store_dirent :: "dirent_array \<Rightarrow> sqfs_dirent \<Rightarrow> dirent_array res" where
  "store_dirent arr d =
     (case arr of (es, capacity) \<Rightarrow>
        if length es < capacity then Inr (es @ [d], capacity) else Inl (Fault OOB_Write))"

text \<open>One iteration of the inner loop: the new position and array. \<open>name_size + 1\<close> is stored in
  a \<open>uint16_t\<close>.\<close>

definition parse_entry ::
  "allocator \<Rightarrow> byte list \<Rightarrow> sqfs_dir_header \<Rightarrow> nat \<times> dirent_array \<Rightarrow> (nat \<times> dirent_array) res" where
  "parse_entry mem data header st =
     (case st of (ptr, arr) \<Rightarrow>
        if length data - ptr < SIZEOF_dir_entry then Inl (Err SQFS_ERR_BAD_DIR)
        else rbind (get_dir_entry data ptr) (\<lambda>entry.
          let name_len = de_name_size entry + 1
          in if length data - ptr < SIZEOF_dir_entry + unat name_len then Inl (Err SQFS_ERR_BAD_DIR)
             else if de_type entry < 1 \<or> 7 < de_type entry then Inl (Err SQFS_ERR_BAD_DIR)
             else rbind (grow_array mem arr) (\<lambda>arr.
               if sqfs_malloc mem (unat name_len + 1) = 0 then Inl (Err SQFS_ERR_NO_MEMORY)
               else rbind (mem_read data (ptr + SIZEOF_dir_entry) (unat name_len)) (\<lambda>name.
                 rbind (store_dirent arr
                     (dirent_of header entry (the (inode_type_of_code (unat (de_type entry)))) name)) (\<lambda>arr.
                   Inr (ptr + (SIZEOF_dir_entry + unat name_len), arr))))))"

fun parse_entries ::
  "allocator \<Rightarrow> byte list \<Rightarrow> sqfs_dir_header \<Rightarrow> nat \<Rightarrow> nat \<times> dirent_array \<Rightarrow> (nat \<times> dirent_array) res" where
  "parse_entries mem data header 0 st = Inr st"
| "parse_entries mem data header (Suc n) st =
     rbind (parse_entry mem data header st) (\<lambda>st. parse_entries mem data header n st)"

lemma parse_entry_progress:
  "parse_entry mem data header (ptr, arr) = Inr (ptr', arr') \<Longrightarrow> ptr < ptr' \<and> ptr' \<le> length data"
  by (auto simp: parse_entry_def rbind_eq_Inr_iff Let_def split: if_splits)

lemma parse_entries_progress:
  "parse_entries mem data header n (ptr, arr) = Inr (ptr', arr') \<Longrightarrow> ptr \<le> ptr' \<and> (ptr' \<le> length data \<or> ptr' = ptr)"
proof (induction n arbitrary: ptr arr)
  case (Suc n)
  then obtain ptr1 arr1 where "parse_entry mem data header (ptr, arr) = Inr (ptr1, arr1)"
    and "parse_entries mem data header n (ptr1, arr1) = Inr (ptr', arr')"
    by (auto simp: rbind_eq_Inr_iff)
  with Suc.IH [of ptr1 arr1] parse_entry_progress show ?case by fastforce
qed simp

text \<open>The outer loop, one header per round. \<open>count + 1\<close> is a 32-bit sum.\<close>

function parse_groups ::
  "allocator \<Rightarrow> byte list \<Rightarrow> nat \<Rightarrow> dirent_array \<Rightarrow> dirent_array res" where
  "parse_groups mem data ptr arr =
     (if length data \<le> ptr then Inr arr
      else if length data - ptr < SIZEOF_dir_header then Inl (Err SQFS_ERR_BAD_DIR)
      else rbind (get_dir_header data ptr) (\<lambda>header.
        let entry_count = dh_count header + 1
        in rbind (parse_entries mem data header (unat entry_count) (ptr + SIZEOF_dir_header, arr))
             (\<lambda>(ptr', arr'). parse_groups mem data ptr' arr')))"
  by pat_completeness auto
termination
  by (relation "measure (\<lambda>(mem, data, ptr, arr). length data - ptr)")
    (auto dest!: parse_entries_progress)

declare parse_groups.simps [simp del]

text \<open>On an error the names and the array are freed; the caller sees only the code.\<close>

definition parse_directory_entries :: "allocator \<Rightarrow> byte list \<Rightarrow> sqfs_dirent list res" where
  "parse_directory_entries mem data = rbind (parse_groups mem data 0 ([], 0)) (\<lambda>(es, capacity). Inr es)"

definition sqfs_dir_read ::
  "allocator \<Rightarrow> 'a sqfs_image_scheme \<Rightarrow> sqfs_inode \<Rightarrow> sqfs_dirent list res" where
  "sqfs_dir_read mem ctx i =
     (if \<not> sqfs_inode_is_dir (i_type i) then Inl (Err SQFS_ERR_BAD_INODE)
      else if dir_size i = 0 then Inr []
      else if sqfs_malloc mem (unat (dir_size i)) = 0 then Inl (Err SQFS_ERR_NO_MEMORY)
      else rbind (read_directory_data mem (sb_fd (ctx_sb ctx)) (dir_table (disk (ctx_sb ctx)))
          (ctx_comp ctx) (dir_block_idx i) (dir_block_offset i) (dir_size i) (unat (dir_size i))) (\<lambda>dir_data.
        parse_directory_entries mem dir_data))"

text \<open>The first entry whose name, as a C string, is the given one.\<close>

fun sqfs_dirent_lookup :: "sqfs_dirent list \<Rightarrow> byte list \<Rightarrow> sqfs_dirent option" where
  "sqfs_dirent_lookup [] name = None"
| "sqfs_dirent_lookup (d # ds) name =
     (if c_str (d_name d) = name then Some d else sqfs_dirent_lookup ds name)"

end
