(* ===== verification/DirectoryFormat.thy ===== *)
theory DirectoryFormat
  imports Directory
begin

text \<open>
  What the directory code promises: a listing written in the disk format is parsed to exactly
  its entries, however it is cut into metadata blocks; no listing makes the parser leave its
  buffer; the block reader is safe as long as no stored block is larger than its buffer.
\<close>

section \<open>Growing the array\<close>

definition array_ok :: "dirent_array \<Rightarrow> bool" where
  "array_ok arr \<longleftrightarrow> length (fst arr) \<le> snd arr"

lemma grow_array_ok:
  "grow_array mem (es, capacity) = Inr (es', capacity') \<Longrightarrow> array_ok (es, capacity) \<Longrightarrow>
     es' = es \<and> length es < capacity'"
  by (auto simp: grow_array_def array_ok_def Let_def split: if_splits)

lemma grow_array_mem:
  "\<forall>k. mem k \<noteq> 0 \<Longrightarrow> \<exists>capacity'. grow_array mem (es, capacity) = Inr (es, capacity')"
  by (auto simp: grow_array_def sqfs_realloc_def Let_def)

lemma grow_array_safe: "safe (grow_array mem arr)"
  by (auto simp: grow_array_def Let_def split: prod.split)

lemma store_dirent_ok:
  "length es < capacity \<Longrightarrow> store_dirent (es, capacity) d = Inr (es @ [d], capacity)"
  by (simp add: store_dirent_def)

section \<open>No listing faults\<close>

lemma get_dir_entry_ok: "ptr + 8 \<le> length data \<Longrightarrow> \<exists>e. get_dir_entry data ptr = Inr e"
  by (simp add: get_dir_entry_def)

lemma get_dir_header_ok: "ptr + 12 \<le> length data \<Longrightarrow> \<exists>h. get_dir_header data ptr = Inr h"
  by (simp add: get_dir_header_def)

lemma parse_entry_safe:
  assumes "array_ok arr"
  shows "safe (parse_entry mem data header (ptr, arr))"
proof (cases "length data - ptr < 8")
  case True
  then show ?thesis by (simp add: parse_entry_def)
next
  case False
  then have "ptr + 8 \<le> length data" by linarith
  then obtain e where e: "get_dir_entry data ptr = Inr e" using get_dir_entry_ok by blast
  have store: "safe (store_dirent arr' d)" if "grow_array mem arr = Inr arr'" for arr' d
    using that assms grow_array_ok [of mem "fst arr" "snd arr" "fst arr'" "snd arr'"]
    by (cases arr') (simp add: store_dirent_def)
  show ?thesis
    using False e store
    by (auto simp: parse_entry_def Let_def intro!: safe_rbind grow_array_safe)
qed

text \<open>Every entry takes at least eight bytes of the listing, so the array keeps step with the
  position, and its length is bounded by the size of the listing.\<close>

lemma parse_entry_array:
  assumes "parse_entry mem data header (ptr, arr) = Inr (ptr', arr')" and "array_ok arr"
  shows "array_ok arr' \<and> (\<exists>d. fst arr' = fst arr @ [d] \<and> d_type d \<le> SQFS_INODE_SOCKET) \<and> ptr + 8 \<le> ptr'"
proof -
  obtain es capacity where arr: "arr = (es, capacity)" by fastforce
  from assms obtain e es1 cap1 name where
    g: "grow_array mem (es, capacity) = Inr (es1, cap1)"
    and st: "store_dirent (es1, cap1)
        (dirent_of header e (the (inode_type_of_code (unat (de_type e)))) name) = Inr arr'"
    and ty: "\<not> (de_type e < 1 \<or> 7 < de_type e)"
    and p: "ptr' = ptr + (8 + unat (de_name_size e + 1))"
    by (auto simp: parse_entry_def arr rbind_eq_Inr_iff Let_def split: if_splits)
  from grow_array_ok [OF g] assms(2) arr have "es1 = es" "length es < cap1" by auto
  with st have arr': "arr' = (es @ [dirent_of header e (the (inode_type_of_code (unat (de_type e)))) name], cap1)"
    by (simp add: store_dirent_ok)
  from ty have c: "1 \<le> unat (de_type e) \<and> unat (de_type e) \<le> 7"
    by (simp add: word_less_nat_alt not_less)
  then have "inode_type_of_code (unat (de_type e)) \<noteq> None" by (auto simp: inode_type_of_code_def)
  then obtain t where t: "inode_type_of_code (unat (de_type e)) = Some t" by blast
  with c have "inode_type_code t \<le> 7" by (simp add: inode_type_of_code_Some)
  with t have "d_type (dirent_of header e (the (inode_type_of_code (unat (de_type e)))) name) \<le> SQFS_INODE_SOCKET"
    by (simp add: dirent_of_def less_eq_sqfs_inode_type_def)
  with arr' p arr \<open>length es < cap1\<close> show ?thesis by (auto simp: array_ok_def)
qed

definition listing_ok :: "sqfs_dirent list \<Rightarrow> nat \<Rightarrow> bool" where
  "listing_ok es ptr \<longleftrightarrow> (\<forall>d \<in> set es. d_type d \<le> SQFS_INODE_SOCKET) \<and> 8 * length es \<le> ptr"

lemma parse_entries_array:
  "parse_entries mem data header n (ptr, arr) = Inr (ptr', arr') \<Longrightarrow> array_ok arr \<Longrightarrow>
     listing_ok (fst arr) ptr \<Longrightarrow> array_ok arr' \<and> listing_ok (fst arr') ptr'"
proof (induction n arbitrary: ptr arr)
  case (Suc n)
  from Suc.prems(1) obtain ptr1 arr1 where one: "parse_entry mem data header (ptr, arr) = Inr (ptr1, arr1)"
    and rest: "parse_entries mem data header n (ptr1, arr1) = Inr (ptr', arr')"
    by (auto simp: rbind_eq_Inr_iff)
  from parse_entry_array [OF one Suc.prems(2)] Suc.prems(3)
  have "array_ok arr1" "listing_ok (fst arr1) ptr1" by (auto simp: listing_ok_def)
  with Suc.IH [OF rest] show ?case by blast
qed simp

lemma parse_entries_safe:
  "array_ok arr \<Longrightarrow> safe (parse_entries mem data header n (ptr, arr))"
proof (induction n arbitrary: ptr arr)
  case (Suc n)
  have "safe (parse_entries mem data header n x)"
    if x: "parse_entry mem data header (ptr, arr) = Inr x" for x
    using Suc.IH [of "snd x" "fst x"] parse_entry_array [of mem data header ptr arr "fst x" "snd x"]
      x Suc.prems by simp
  with Suc.prems show ?case by (auto intro!: safe_rbind parse_entry_safe)
qed simp

lemma parse_groups_safe:
  "array_ok arr \<Longrightarrow> listing_ok (fst arr) ptr \<Longrightarrow> safe (parse_groups mem data ptr arr)
     \<and> (\<forall>arr'. parse_groups mem data ptr arr = Inr arr' \<longrightarrow> ptr \<le> length data \<longrightarrow> listing_ok (fst arr') (length data))"
proof (induction "length data - ptr" arbitrary: ptr arr rule: less_induct)
  case less
  show ?case
  proof (cases "length data \<le> ptr \<or> length data - ptr < 12")
    case True
    with less.prems show ?thesis by (auto simp: parse_groups.simps [of mem data] listing_ok_def)
  next
    case False
    then have lt: "ptr + 12 \<le> length data" by linarith
    then obtain h where h: "get_dir_header data ptr = Inr h" using get_dir_header_ok by blast
    have pre: "listing_ok (fst arr) (ptr + 12)" using less.prems(2) by (simp add: listing_ok_def)
    show ?thesis
    proof (cases "parse_entries mem data h (unat (dh_count h + 1)) (ptr + 12, arr)")
      case (Inl e)
      with parse_entries_safe [OF less.prems(1), of mem data h "unat (dh_count h + 1)" "ptr + 12"] False h
      show ?thesis by (auto simp: parse_groups.simps [of mem data] safe_def)
    next
      case (Inr x)
      obtain ptr1 arr1 where x: "x = (ptr1, arr1)" by (cases x)
      from parse_entries_array [OF Inr [unfolded x] less.prems(1) pre]
      have ok: "array_ok arr1" "listing_ok (fst arr1) ptr1" by simp_all
      have p1: "ptr < ptr1" "ptr1 \<le> length data"
        using parse_entries_progress [OF Inr [unfolded x]] lt by auto
      have step: "parse_groups mem data ptr arr = parse_groups mem data ptr1 arr1"
        using False h Inr by (subst parse_groups.simps) (simp add: x)
      from p1 lt have "length data - ptr1 < length data - ptr" by linarith
      from less.hyps [OF this ok] p1 show ?thesis by (simp add: step)
    qed
  qed
qed

lemma parse_directory_safe: "safe (parse_directory_entries mem data)"
  using parse_groups_safe [of "([], 0)" 0 mem data]
  by (auto simp: parse_directory_entries_def array_ok_def listing_ok_def intro!: safe_rbind)

lemma parse_directory_listing:
  "parse_directory_entries mem data = Inr es \<Longrightarrow> listing_ok es (length data)"
  using parse_groups_safe [of "([], 0)" 0 mem data]
  by (auto simp: parse_directory_entries_def array_ok_def listing_ok_def rbind_eq_Inr_iff)

section \<open>Writing a listing\<close>

record dir_item =
  it_offset :: u16
  it_delta :: u16
  it_type :: sqfs_inode_type
  it_name :: "byte list"

record dir_group =
  g_start :: u32
  g_base :: u32
  g_items :: "dir_item list"

definition encode_item :: "dir_item \<Rightarrow> byte list" where
  "encode_item it = put_le16 (it_offset it) @ put_le16 (it_delta it)
     @ put_le16 (of_nat (inode_type_code (it_type it))) @ put_le16 (of_nat (length (it_name it) - 1))
     @ it_name it"

definition encode_group :: "dir_group \<Rightarrow> byte list" where
  "encode_group g = put_le32 (of_nat (length (g_items g) - 1)) @ put_le32 (g_start g)
     @ put_le32 (g_base g) @ concat (map encode_item (g_items g))"

definition encode_listing :: "dir_group list \<Rightarrow> byte list" where
  "encode_listing gs = concat (map encode_group gs)"

definition item_wf :: "dir_item \<Rightarrow> bool" where
  "item_wf it \<longleftrightarrow> it_name it \<noteq> [] \<and> length (it_name it) < 65536 \<and> inode_type_code (it_type it) \<le> 7"

definition group_wf :: "dir_group \<Rightarrow> bool" where
  "group_wf g \<longleftrightarrow> g_items g \<noteq> [] \<and> length (g_items g) < 2 ^ 32 \<and> (\<forall>it \<in> set (g_items g). item_wf it)"

definition item_dirent :: "dir_group \<Rightarrow> dir_item \<Rightarrow> sqfs_dirent" where
  "item_dirent g it =
     \<lparr>d_name = it_name it @ [0],
      d_inode_number = scast (g_base g) + scast (it_delta it),
      d_inode_ref = sqfs_make_meta_ref (ucast (g_start g)) (it_offset it),
      d_type = it_type it\<rparr>"

definition listing_dirents :: "dir_group list \<Rightarrow> sqfs_dirent list" where
  "listing_dirents gs = concat (map (\<lambda>g. map (item_dirent g) (g_items g)) gs)"

lemma encode_item_length: "length (encode_item it) = 8 + length (it_name it)"
  by (simp add: encode_item_def)

lemma parse_entry_encode:
  assumes mem: "\<forall>k. mem k \<noteq> 0" and wf: "item_wf it" and arr: "array_ok (es, capacity)"
    and data: "data = pre @ encode_item it @ post" and ptr: "ptr = length pre"
    and h: "dh_start h = g_start g" "dh_inode_number h = g_base g"
  shows "\<exists>capacity'. parse_entry mem data h (ptr, es, capacity)
    = Inr (ptr + length (encode_item it), es @ [item_dirent g it], capacity')
    \<and> array_ok (es @ [item_dirent g it], capacity')"
proof -
  have n: "0 < length (it_name it)" "length (it_name it) < 65536" "inode_type_code (it_type it) \<le> 7"
    using wf by (auto simp: item_wf_def)
  define nm where "nm = (of_nat (length (it_name it) - 1) :: u16)"
  define ty where "ty = (of_nat (inode_type_code (it_type it)) :: u16)"
  define e where "e = \<lparr>de_offset = it_offset it, de_inode_offset = it_delta it, de_type = ty, de_name_size = nm\<rparr>"
  have entry: "get_dir_entry data ptr = Inr e"
    by (simp add: get_dir_entry_def data ptr encode_item_def layout e_def nm_def ty_def)
  have "nm + 1 = of_nat (length (it_name it) - 1 + 1)"
    unfolding nm_def by (simp only: of_nat_add of_nat_1)
  also have "\<dots> = of_nat (length (it_name it))" using n by simp
  finally have name_len: "unat (nm + 1) = length (it_name it)"
    using n by (simp add: unat_of_nat)
  obtain capacity' where grow: "grow_array mem (es, capacity) = Inr (es, capacity')"
    using grow_array_mem [OF mem] by blast
  have lt: "length es < capacity'" using grow_array_ok [OF grow arr] by simp
  have ty: "\<not> (ty < 1 \<or> 7 < ty)" "inode_type_of_code (unat ty) = Some (it_type it)"
    using n(3) inode_type_code_bounds [of "it_type it"]
    by (simp_all add: ty_def word_less_nat_alt unat_type_code)
  have sel: "de_type e = ty" "de_name_size e = nm" by (simp_all add: e_def)
  have name: "segment data (ptr + 8) (length (it_name it)) = it_name it"
    by (simp add: data ptr encode_item_def layout)
  have room: "\<not> length data - ptr < 8 + length (it_name it)"
    by (simp add: data ptr encode_item_length)
  have de: "dirent_of h e (it_type it) (it_name it) = item_dirent g it"
    by (simp add: dirent_of_def item_dirent_def h sqfs_make_meta_ref_def e_def)
  have "parse_entry mem data h (ptr, es, capacity)
      = Inr (ptr + (8 + length (it_name it)), es @ [item_dirent g it], capacity')"
    using mem lt ty room name_len
    by (simp add: parse_entry_def entry grow name store_dirent_ok de sel sqfs_malloc_def Let_def)
  with lt show ?thesis by (auto simp: encode_item_length array_ok_def)
qed

lemma parse_entries_encode:
  assumes "\<forall>k. mem k \<noteq> 0" and "\<forall>it \<in> set its. item_wf it" and "array_ok (es, capacity)"
    and "data = pre @ concat (map encode_item its) @ post" and "ptr = length pre"
    and "dh_start h = g_start g" "dh_inode_number h = g_base g"
  shows "\<exists>capacity'. parse_entries mem data h (length its) (ptr, es, capacity)
    = Inr (ptr + length (concat (map encode_item its)), es @ map (item_dirent g) its, capacity')
    \<and> array_ok (es @ map (item_dirent g) its, capacity')"
  using assms(2-)
proof (induction its arbitrary: es capacity pre ptr)
  case Nil
  then show ?case by simp
next
  case (Cons it its)
  have wf: "item_wf it" using Cons.prems(1) by simp
  have data: "data = pre @ encode_item it @ (concat (map encode_item its) @ post)"
    using Cons.prems(3) by simp
  from parse_entry_encode [OF assms(1) wf Cons.prems(2) data Cons.prems(4) Cons.prems(5,6)]
  obtain c1 where one: "parse_entry mem data h (ptr, es, capacity)
      = Inr (ptr + length (encode_item it), es @ [item_dirent g it], c1)"
    and ok: "array_ok (es @ [item_dirent g it], c1)" by blast
  have "data = (pre @ encode_item it) @ concat (map encode_item its) @ post" using data by simp
  from Cons.IH [OF _ ok this _ Cons.prems(5,6), of "ptr + length (encode_item it)"] Cons.prems(1,4) one
  show ?case by (auto simp: add.assoc)
qed

lemma encode_group_length: "g_items g \<noteq> [] \<Longrightarrow> 12 < length (encode_group g)"
  by (cases "g_items g") (simp_all add: encode_group_def encode_item_def)

lemma parse_groups_encode:
  assumes "\<forall>k. mem k \<noteq> 0" and "\<forall>g \<in> set gs. group_wf g" and "array_ok (es, capacity)"
    and "data = pre @ encode_listing gs" and "ptr = length pre"
  shows "\<exists>capacity'. parse_groups mem data ptr (es, capacity) = Inr (es @ listing_dirents gs, capacity')"
  using assms(2-)
proof (induction gs arbitrary: es capacity pre ptr)
  case Nil
  then show ?case
    by (simp add: parse_groups.simps encode_listing_def listing_dirents_def)
next
  case (Cons g gs)
  define its where "its = g_items g"
  have wf: "its \<noteq> []" "length its < 2 ^ 32" "\<forall>it \<in> set its. item_wf it"
    using Cons.prems(1) by (auto simp: group_wf_def its_def)
  define h where "h = \<lparr>dh_count = of_nat (length its - 1), dh_start = g_start g, dh_inode_number = g_base g\<rparr>"
  define items where "items = concat (map encode_item its)"
  have data: "data = pre @ put_le32 (of_nat (length its - 1)) @ put_le32 (g_start g)
      @ put_le32 (g_base g) @ items @ encode_listing gs"
    using Cons.prems(3) by (simp add: encode_listing_def encode_group_def its_def items_def)
  have hdr: "get_dir_header data ptr = Inr h"
    by (simp add: get_dir_header_def data Cons.prems(4) layout h_def)
  have "of_nat (length its - 1) + (1 :: u32) = of_nat (length its - 1 + 1)"
    by (simp only: of_nat_add of_nat_1)
  also have "\<dots> = of_nat (length its)" using wf(1) by (cases its) simp_all
  finally have plus1: "of_nat (length its - 1) + (1 :: u32) = of_nat (length its)" .
  have count: "unat (dh_count h + 1) = length its"
    unfolding h_def sqfs_dir_header.simps plus1 using wf(2) by (simp add: unat_of_nat)
  have d1: "data = (pre @ put_le32 (of_nat (length its - 1)) @ put_le32 (g_start g) @ put_le32 (g_base g))
      @ concat (map encode_item its) @ encode_listing gs" using data by (simp add: items_def)
  obtain c1 where es: "parse_entries mem data h (length its) (ptr + 12, es, capacity)
      = Inr (ptr + 12 + length items, es @ map (item_dirent g) its, c1)"
    and ok: "array_ok (es @ map (item_dirent g) its, c1)"
    using parse_entries_encode [OF assms(1) wf(3) Cons.prems(2) d1, of "ptr + 12" h g] Cons.prems(4)
    by (auto simp: h_def items_def)
  have d2: "data = (pre @ put_le32 (of_nat (length its - 1)) @ put_le32 (g_start g) @ put_le32 (g_base g)
      @ items) @ encode_listing gs" using data by simp
  obtain c2 where rest: "parse_groups mem data (ptr + 12 + length items) (es @ map (item_dirent g) its, c1)
      = Inr ((es @ map (item_dirent g) its) @ listing_dirents gs, c2)"
    using Cons.IH [OF _ ok d2, of "ptr + 12 + length items"] Cons.prems(1,4) by auto
  have "parse_groups mem data ptr (es, capacity)
      = parse_groups mem data (ptr + 12 + length items) (es @ map (item_dirent g) its, c1)"
    using hdr count es by (subst parse_groups.simps) (simp add: data Cons.prems(4))
  with rest show ?case by (auto simp: listing_dirents_def its_def)
qed

lemma parse_directory_encode:
  "\<forall>k. mem k \<noteq> 0 \<Longrightarrow> \<forall>g \<in> set gs. group_wf g \<Longrightarrow>
     parse_directory_entries mem (encode_listing gs) = Inr (listing_dirents gs)"
  using parse_groups_encode [of mem gs "[]" 0 "encode_listing gs" "[]" 0]
  by (auto simp: parse_directory_entries_def array_ok_def)

section \<open>Reading the bytes of a listing\<close>

text \<open>The directory code decompresses out of a buffer of its own.\<close>

fun dir_block_wf :: "sqfs_compressor option \<Rightarrow> stored_block \<Rightarrow> bool" where
  "dir_block_wf cmp (Raw d) \<longleftrightarrow> 0 < length d \<and> length d \<le> 8192"
| "dir_block_wf cmp (Packed src d) \<longleftrightarrow> 0 < length src \<and> length src < 8192
     \<and> sqfs_compressor_decompress cmp Disjoint src 8192 = Inr d"

lemma dir_stored_block_read:
  assumes fd: "reliable fd" and img: "f_image fd = pre @ block_bytes sb @ post"
    and pos: "unat pos = length pre" and wf: "dir_block_wf cmp sb" and mem: "\<forall>k. mem k \<noteq> 0"
  shows "read_meta_block mem fd pos cmp = Inr (block_data sb, pos + of_nat (length (block_bytes sb)))"
proof -
  have small: "length (f_image fd) < 2 ^ 63" using fd by (simp add: reliable_def)
  have wrap: "unat (pos + 2) = unat pos + 2"
    using unat_add_of_nat [of pos 2] pos small img by simp
  obtain h body where bb: "block_bytes sb = put_le16 h @ body"
    and h: "(sb = Raw body \<and> h = 0x8000 OR of_nat (length body))
      \<or> (\<exists>d. sb = Packed body d \<and> h = of_nat (length body))"
    by (cases sb) auto
  from h wf have len: "length body \<le> 8192" "0 < length body" by auto
  have lenw: "unat (of_nat (length body) :: u16) = length body"
    using len by (simp add: unat_of_nat)
  have hdr: "read_meta_header fd pos = Inr h"
    using fd img bb pos by (simp add: read_meta_header_def reliable_pread segment_skip segment_head)
  have bdy: "sqfs_pread_all fd (length body) (pos + 2) = Inr body"
    using fd img bb pos wrap by (simp add: reliable_pread segment_skip segment_head)
  have size_field: "h AND 0x7FFF = of_nat (length body)"
    using h wf len raw_header(2) packed_header(2) by auto
  have nxt: "pos + 2 + ucast (of_nat (length body) :: u16) = pos + of_nat (length (block_bytes sb))"
    using len by (simp add: bb unsigned_of_nat take_bit_nat_eq_self)
  have "decompress_meta_block mem fd (pos + 2) (of_nat (length body)) (h AND 0x8000 \<noteq> 0) cmp = Inr (block_data sb)"
    using h
  proof
    assume "sb = Raw body \<and> h = 0x8000 OR of_nat (length body)"
    with raw_header [OF len(1)] len show ?thesis
      by (simp add: decompress_meta_block_def lenw bdy)
  next
    assume "\<exists>d. sb = Packed body d \<and> h = of_nat (length body)"
    with wf packed_header [of "length body"] mem show ?thesis
      by (auto simp add: decompress_meta_block_def lenw bdy sqfs_malloc_def)
  qed
  with nxt show ?thesis by (simp add: read_meta_block_def hdr size_field Let_def)
qed

lemma next_block_pos:
  assumes "reliable fd" and "f_image fd = pre @ xs @ post" and "unat (pos :: u64) = length pre"
  shows "unat (pos + of_nat (length xs)) = length (pre @ xs)"
  using assms by (subst unat_add_of_nat) (simp_all add: reliable_def)

lemma read_remaining_stored:
  assumes "reliable fd" and "f_image fd = pre @ concat (map block_bytes sbs) @ post"
    and "unat pos = length pre" and "\<forall>sb \<in> set sbs. dir_block_wf cmp sb" and "\<forall>k. mem k \<noteq> 0"
    and "sz - length out \<le> length (concat (map block_data sbs))" and "sz \<le> cap" and "length out \<le> cap"
  shows "read_remaining_blocks mem fd cmp pos cap sz out
    = Inr (out @ take (sz - length out) (concat (map block_data sbs)))"
  using assms
proof (induction sbs arbitrary: pre pos out)
  case Nil
  then show ?case by (simp add: read_remaining_blocks.simps)
next
  case (Cons sb sbs)
  show ?case
  proof (cases "sz \<le> length out")
    case True
    then show ?thesis by (simp add: read_remaining_blocks.simps)
  next
    case False
    have img: "f_image fd = pre @ block_bytes sb @ concat (map block_bytes sbs) @ post"
      using Cons.prems(2) by simp
    have wf: "dir_block_wf cmp sb" using Cons.prems(4) by simp
    note blk = dir_stored_block_read [OF Cons.prems(1) img Cons.prems(3) wf Cons.prems(5)]
    note nx = next_block_pos [OF Cons.prems(1) img Cons.prems(3)]
    have img2: "f_image fd = (pre @ block_bytes sb) @ concat (map block_bytes sbs) @ post"
      using img by simp
    define d where "d = take (sz - length out) (block_data sb)"
    have d: "length out + length d \<le> cap" using False Cons.prems(7) by (simp add: d_def)
    have "read_remaining_blocks mem fd cmp (pos + of_nat (length (block_bytes sb))) cap sz (out @ d)
        = Inr ((out @ d) @ take (sz - length (out @ d)) (concat (map block_data sbs)))"
      using Cons.prems d by (intro Cons.IH [OF Cons.prems(1) img2 nx]) (auto simp: d_def)
    moreover have "d @ take (sz - length (out @ d)) (concat (map block_data sbs))
        = take (sz - length out) (block_data sb @ concat (map block_data sbs))"
      by (simp add: d_def min_def)
    moreover obtain n where n: "n = (if length (block_data sb) < sz - length out then length (block_data sb) else sz - length out)"
      and "segment (block_data sb) 0 n = d" by (simp add: d_def segment_def)
    moreover have "length out + n \<le> cap" "\<not> length (block_data sb) < n" using n False Cons.prems(7) by (simp_all split: if_splits)
    ultimately show ?thesis
      using False blk d by (subst read_remaining_blocks.simps) (simp add: Let_def buf_copy_def n [symmetric])
  qed
qed

lemma read_directory_stored:
  assumes "reliable fd" and "f_image fd = pre @ concat (map block_bytes sbs) @ post"
    and "unat (dtab + block_idx) = length pre" and "\<forall>sb \<in> set sbs. dir_block_wf cmp sb"
    and "\<forall>k. mem k \<noteq> 0" and "sbs \<noteq> []" and "unat off < length (block_data (hd sbs))"
    and "unat off + unat sz \<le> length (concat (map block_data sbs))"
  shows "read_directory_data mem fd dtab cmp block_idx off sz (unat sz)
    = Inr (segment (concat (map block_data sbs)) (unat off) (unat sz))"
proof -
  obtain sb rest where sbs: "sbs = sb # rest" using assms(6) by (cases sbs) auto
  have img: "f_image fd = pre @ block_bytes sb @ concat (map block_bytes rest) @ post"
    using assms(2) sbs by simp
  have img2: "f_image fd = (pre @ block_bytes sb) @ concat (map block_bytes rest) @ post"
    using img by simp
  have wf: "dir_block_wf cmp sb" "\<forall>sb \<in> set rest. dir_block_wf cmp sb" using assms(4) sbs by simp_all
  note blk = dir_stored_block_read [OF assms(1) img assms(3) wf(1) assms(5)]
  note nx = next_block_pos [OF assms(1) img assms(3)]
  have off: "unat off < length (block_data sb)" using assms(7) sbs by simp
  let ?d = "drop (unat off) (block_data sb)"
  show ?thesis
  proof (cases "unat off + unat sz \<le> length (block_data sb)")
    case True
    with blk off show ?thesis by (simp add: read_directory_data_def buf_copy_def sbs segment_append_left)
  next
    case False
    have "read_remaining_blocks mem fd cmp (dtab + block_idx + of_nat (length (block_bytes sb))) (unat sz) (unat sz) ?d
        = Inr (?d @ take (unat sz - length ?d) (concat (map block_data rest)))"
      using assms(8) off sbs False by (intro read_remaining_stored [OF assms(1) img2 nx wf(2) assms(5)]) auto
    with blk off False show ?thesis
      by (simp add: read_directory_data_def buf_copy_def sbs segment_def)
  qed
qed

text \<open>The number the sum of header and offset denotes, when the header's number is below
  \<open>2\<^sup>3\<^sup>1\<close> and the sum is not negative.\<close>

lemma dirent_inode_number:
  assumes "unat (base :: u32) < 2 ^ 31" and "0 \<le> int (unat base) + sint (delta :: u16)"
  shows "int (unat (scast base + scast delta :: u64)) = int (unat base) + sint delta"
proof -
  have "int (unat base) < int (2 ^ 31)" using assms(1) by (simp only: of_nat_less_iff)
  then have "signed_take_bit 31 (uint base) = uint base"
    by (intro signed_take_bit_int_eq_self) (simp_all add: order_trans [OF _ unsigned_greater_eq])
  then have sb: "sint base = int (unat base)" by (simp add: sint_uint)
  define k where "k = int (unat base) + sint delta"
  have sum: "(scast base + scast delta :: u64) = of_int k"
    unfolding k_def of_int_add sb [symmetric] by (simp only: of_int_sint)
  have "sint delta < 2 ^ 15" using sint_lt [of delta] by simp
  moreover have "int (unat base) < 2 ^ 32" using unsigned_less [of base, where 'a = int] by simp
  ultimately have k: "0 \<le> k" "k < 2 ^ 64" using assms(2) by (simp_all add: k_def)
  have "int (unat (of_int k :: u64)) = k mod 2 ^ 64"
    using uint_word_of_int [of k, where 'a = 64] by simp
  also have "\<dots> = k" using k by simp
  finally show ?thesis by (simp only: sum k_def [symmetric])
qed

section \<open>Faults and error codes\<close>

text \<open>The reader of a block faults when the block is raw and the kernel delivers more of it than the buffer holds.\<close>

definition block_overruns :: "os_file \<Rightarrow> u64 \<Rightarrow> bool" where
  "block_overruns fd pos =
     (case read_meta_header fd pos of
        Inl _ \<Rightarrow> False
      | Inr h \<Rightarrow> h AND 0x8000 \<noteq> 0 \<and> delivers_more fd (unat (h AND 0x7FFF)) (pos + 2) SQFS_META_BLOCK_SIZE)"

lemma decompress_meta_block_fault:
  assumes "length (f_image fd) \<le> 2 ^ 63"
  shows "decompress_meta_block mem fd pos n raw cmp = Inl (Fault f) \<longleftrightarrow>
     f = OOB_Write \<and> raw \<and> delivers_more fd (unat n) pos SQFS_META_BLOCK_SIZE"
  using pread.rd_error [of fd "unat n" pos "Fault f"] pread_buf_overrun [OF assms, of 8192 "unat n" pos]
  by (auto simp: decompress_meta_block_def rbind_eq_Inl_iff recode_eq_Inl_iff dest: pread_buf_fault)

lemma read_meta_block_fault:
  assumes "length (f_image fd) \<le> 2 ^ 63"
  shows "read_meta_block mem fd pos cmp = Inl (Fault f) \<longleftrightarrow> f = OOB_Write \<and> block_overruns fd pos"
  using pread.rd_error [of fd 2 pos "Fault f"]
  by (cases "sqfs_pread_all fd 2 pos") (auto simp: read_meta_block_def read_meta_header_def block_overruns_def Let_def
      rbind_eq_Inl_iff decompress_meta_block_fault [OF assms])

text \<open>The positions the loop reads a block at, while \<open>n\<close> bytes are still wanted.\<close>

function visited_blocks :: "allocator \<Rightarrow> os_file \<Rightarrow> sqfs_compressor option \<Rightarrow> u64 \<Rightarrow> nat \<Rightarrow> u64 list" where
  "visited_blocks mem fd cmp pos n =
     (if n = 0 then []
      else pos # (case read_meta_block mem fd pos cmp of
          Inl _ \<Rightarrow> []
        | Inr (b, next) \<Rightarrow> visited_blocks mem fd cmp next (n - length b)))"
  by pat_completeness auto
termination
  by (relation "measure (\<lambda>(mem, fd, cmp, pos, n). 2 ^ 64 - unat pos)")
    (auto dest!: read_meta_block_advance intro!: diff_less_mono2)

declare visited_blocks.simps [simp del]

lemma read_meta_block_safe_iff:
  assumes "length (f_image fd) \<le> 2 ^ 63"
  shows "safe (read_meta_block mem fd pos cmp) \<longleftrightarrow> \<not> block_overruns fd pos"
  by (auto simp: safe_def read_meta_block_fault [OF assms])

lemma read_remaining_safe_iff:
  assumes "length (f_image fd) \<le> 2 ^ 63" and "sz \<le> cap" and "length out \<le> cap"
  shows "safe (read_remaining_blocks mem fd cmp pos cap sz out)
    \<longleftrightarrow> (\<forall>p \<in> set (visited_blocks mem fd cmp pos (sz - length out)). \<not> block_overruns fd p)"
  using assms(3)
proof (induction "2 ^ 64 - unat pos" arbitrary: pos out rule: less_induct)
  case less
  note blk = read_meta_block_safe_iff [OF assms(1), of mem pos cmp]
  show ?case
  proof (cases "sz \<le> length out")
    case True
    then show ?thesis by (simp add: read_remaining_blocks.simps visited_blocks.simps)
  next
    case False
    note unf = read_remaining_blocks.simps [of mem fd cmp pos] visited_blocks.simps [of mem fd cmp pos]
    show ?thesis
    proof (cases "read_meta_block mem fd pos cmp")
      case (Inl e)
      with False blk show ?thesis by (simp add: unf safe_def)
    next
      case (Inr x)
      obtain b nx where x: "x = (b, nx)" by (cases x)
      define d where "d = take (sz - length out) b"
      obtain n where n: "n = (if length b < sz - length out then length b else sz - length out)" and d: "segment b 0 n = d"
        by (simp add: d_def segment_def)
      have "\<not> cap < length out + n" "\<not> length b < n" using n False assms(2) by (simp_all split: if_splits)
      have fits: "length (out @ d) \<le> cap" using less.prems assms(2) False by (simp add: d_def)
      have rest: "sz - length (out @ d) = sz - length out - length b" by (simp add: d_def min_def)
      have "safe (read_remaining_blocks mem fd cmp nx cap sz (out @ d))
          \<longleftrightarrow> (\<forall>p \<in> set (visited_blocks mem fd cmp nx (sz - length (out @ d))). \<not> block_overruns fd p)"
        using read_meta_block_advance [OF Inr [unfolded x]] fits by (intro less.hyps diff_less_mono2) simp_all
      moreover have "\<not> block_overruns fd pos" using blk Inr by simp
      ultimately show ?thesis
        using False \<open>\<not> cap < length out + n\<close> \<open>\<not> length b < n\<close> Inr unfolding rest by (simp add: unf x Let_def n [symmetric] d buf_copy_def)
    qed
  qed
qed

text \<open>The positions of the blocks that reading a directory visits.\<close>

definition listing_blocks :: "allocator \<Rightarrow> 'a sqfs_image_scheme \<Rightarrow> sqfs_inode \<Rightarrow> u64 list" where
  "listing_blocks mem ctx i =
     (if \<not> sqfs_inode_is_dir (i_type i) \<or> dir_size i = 0 \<or> sqfs_malloc mem (unat (dir_size i)) = 0 then []
      else let fd = sb_fd (ctx_sb ctx); pos = dir_table (disk (ctx_sb ctx)) + dir_block_idx i in
        pos # (case read_meta_block mem fd pos (ctx_comp ctx) of
            Inl _ \<Rightarrow> []
          | Inr (b, next) \<Rightarrow>
              if length b \<le> unat (dir_block_offset i) then []
              else visited_blocks mem fd (ctx_comp ctx) next
                (unat (dir_block_offset i) + unat (dir_size i) - length b)))"

lemma read_directory_safe_iff:
  assumes "length (f_image fd) \<le> 2 ^ 63"
  shows "safe (read_directory_data mem fd dtab cmp bi off sz (unat sz)) \<longleftrightarrow>
     \<not> block_overruns fd (dtab + bi)
     \<and> (\<forall>b nx. read_meta_block mem fd (dtab + bi) cmp = Inr (b, nx) \<longrightarrow> unat off < length b \<longrightarrow>
          (\<forall>p \<in> set (visited_blocks mem fd cmp nx (unat off + unat sz - length b)). \<not> block_overruns fd p))"
proof (cases "read_meta_block mem fd (dtab + bi) cmp")
  case (Inl e)
  with read_meta_block_safe_iff [OF assms, of mem "dtab + bi" cmp] show ?thesis
    by (simp add: read_directory_data_def safe_def)
next
  case (Inr x)
  obtain b nx where x: "x = (b, nx)" by (cases x)
  from Inr read_meta_block_safe_iff [OF assms, of mem "dtab + bi" cmp] have first: "\<not> block_overruns fd (dtab + bi)" by simp
  consider "length b \<le> unat off" | "unat off < length b" "unat off + unat sz \<le> length b"
    | "unat off < length b" "length b < unat off + unat sz" by linarith
  then show ?thesis
  proof cases
    case 3
    have "unat sz - length (drop (unat off) b) = unat off + unat sz - length b" "\<not> unat sz < length b - unat off"
      using 3 by simp_all
    with 3 first Inr x read_remaining_safe_iff [OF assms, of "unat sz" "unat sz" "drop (unat off) b" mem cmp nx] show ?thesis
      by (simp add: read_directory_data_def buf_copy_def segment_def)
  qed (use first Inr x in \<open>simp_all add: read_directory_data_def buf_copy_def visited_blocks.simps\<close>)
qed

lemma dir_read_safe_iff:
  assumes "length (f_image (sb_fd (ctx_sb ctx))) \<le> 2 ^ 63"
  shows "safe (sqfs_dir_read mem ctx i) \<longleftrightarrow> (\<forall>p \<in> set (listing_blocks mem ctx i). \<not> block_overruns (sb_fd (ctx_sb ctx)) p)"
proof (cases "\<not> sqfs_inode_is_dir (i_type i) \<or> dir_size i = 0 \<or> sqfs_malloc mem (unat (dir_size i)) = 0")
  case True
  then show ?thesis by (auto simp: sqfs_dir_read_def listing_blocks_def)
next
  case False
  let ?rd = "read_directory_data mem (sb_fd (ctx_sb ctx)) (dir_table (disk (ctx_sb ctx))) (ctx_comp ctx)
    (dir_block_idx i) (dir_block_offset i) (dir_size i) (unat (dir_size i))"
  have "safe (sqfs_dir_read mem ctx i) \<longleftrightarrow> safe ?rd"
    using False parse_directory_safe [of mem] by (cases ?rd) (auto simp: sqfs_dir_read_def safe_def)
  then show ?thesis
    using False unfolding read_directory_safe_iff [OF assms]
    by (cases "read_meta_block mem (sb_fd (ctx_sb ctx)) (dir_table (disk (ctx_sb ctx)) + dir_block_idx i) (ctx_comp ctx)")
      (auto simp: listing_blocks_def Let_def not_le [symmetric])
qed

lemma parse_entry_error:
  assumes "parse_entry mem data header st = Inl (Err e)"
  shows "e = SQFS_ERR_BAD_DIR \<or> e = SQFS_ERR_NO_MEMORY"
proof -
  have g: "get_dir_entry data p \<noteq> Inl (Err e)" for p
    by (simp add: get_dir_entry_def rbind_eq_Inl_iff get_le16_def mem_read_def)
  have s: "store_dirent a d \<noteq> Inl (Err e)" for a d
    by (simp add: store_dirent_def split: prod.split)
  from assms g s show ?thesis
    by (auto simp: parse_entry_def rbind_eq_Inl_iff Let_def mem_read_def grow_array_def
        split: if_splits prod.splits)
qed

lemma parse_entries_error:
  "parse_entries mem data header n st = Inl (Err e) \<Longrightarrow> e = SQFS_ERR_BAD_DIR \<or> e = SQFS_ERR_NO_MEMORY"
  by (induction n arbitrary: st) (auto simp: rbind_eq_Inl_iff dest: parse_entry_error)

lemma parse_groups_error:
  "parse_groups mem data ptr arr = Inl (Err e) \<Longrightarrow> e = SQFS_ERR_BAD_DIR \<or> e = SQFS_ERR_NO_MEMORY"
proof (induction "length data - ptr" arbitrary: ptr arr rule: less_induct)
  case less
  have g: "get_dir_header data p \<noteq> Inl (Err e)" for p
    by (simp add: get_dir_header_def rbind_eq_Inl_iff get_le32_def mem_read_def)
  have rec: "e = SQFS_ERR_BAD_DIR \<or> e = SQFS_ERR_NO_MEMORY"
    if "parse_entries mem data h n (ptr + 12, arr) = Inr (ptr', arr')" "\<not> length data \<le> ptr"
      "parse_groups mem data ptr' arr' = Inl (Err e)" for h n ptr' arr'
    using parse_entries_progress [OF that(1)] that(2,3) by (intro less.hyps [of ptr' arr']) auto
  from less.prems g rec show ?case
    by (subst (asm) parse_groups.simps)
      (auto simp: rbind_eq_Inl_iff Let_def dest: parse_entries_error split: if_splits sum.splits)
qed

lemma parse_directory_error:
  assumes "parse_directory_entries mem data = Inl e"
  shows "e = Err SQFS_ERR_BAD_DIR \<or> e = Err SQFS_ERR_NO_MEMORY"
proof (cases e)
  case (Err x)
  with assms parse_groups_error [of mem data 0 "([], 0)" x] show ?thesis
    by (auto simp: parse_directory_entries_def rbind_eq_Inl_iff)
next
  case (Fault f)
  with assms parse_directory_safe [of mem data] show ?thesis by (simp add: safe_def)
qed

section \<open>Lookup\<close>

lemma lookup_listing:
  assumes "\<forall>g \<in> set gs. \<forall>it \<in> set (g_items g). 0 \<notin> set (it_name it)"
  shows "sqfs_dirent_lookup (listing_dirents gs) name
    = map_of (concat (map (\<lambda>g. map (\<lambda>it. (it_name it, item_dirent g it)) (g_items g)) gs)) name"
proof -
  have one: "sqfs_dirent_lookup (map (item_dirent g) its @ es) name
      = (case map_of (map (\<lambda>it. (it_name it, item_dirent g it)) its) name of
           Some d \<Rightarrow> Some d | None \<Rightarrow> sqfs_dirent_lookup es name)"
    if "\<forall>it \<in> set its. 0 \<notin> set (it_name it)" for g its es
    using that by (induction its) (auto simp: item_dirent_def c_str_terminated)
  from assms show ?thesis
    by (induction gs) (auto simp: listing_dirents_def one map_add_def split: option.split)
qed

text \<open>Reading a directory whose listing is stored.\<close>

lemma dir_read_stored:
  assumes "\<forall>k. mem k \<noteq> 0" and "reliable (sb_fd (ctx_sb ctx))"
    and "f_image (sb_fd (ctx_sb ctx)) = pre @ concat (map block_bytes sbs) @ post" and "sbs \<noteq> []"
    and "\<forall>sb \<in> set sbs. dir_block_wf (ctx_comp ctx) sb"
    and "sqfs_inode_is_dir (i_type i)"
    and "unat (dir_table (disk (ctx_sb ctx)) + dir_block_idx i) = length pre"
    and "unat (dir_block_offset i) < length (block_data (hd sbs))"
    and "concat (map block_data sbs) = bef @ encode_listing gs @ aft"
    and "unat (dir_block_offset i) = length bef" and "unat (dir_size i) = length (encode_listing gs)"
    and "\<forall>g \<in> set gs. group_wf g"
  shows "sqfs_dir_read mem ctx i = Inr (listing_dirents gs)"
proof -
  have "read_directory_data mem (sb_fd (ctx_sb ctx)) (dir_table (disk (ctx_sb ctx))) (ctx_comp ctx)
      (dir_block_idx i) (dir_block_offset i) (dir_size i) (unat (dir_size i))
        = Inr (segment (concat (map block_data sbs)) (unat (dir_block_offset i)) (unat (dir_size i)))"
    using assms(9,10,11) by (intro read_directory_stored [OF assms(2,3,7,5,1,4,8)]) simp
  then have data: "read_directory_data mem (sb_fd (ctx_sb ctx)) (dir_table (disk (ctx_sb ctx))) (ctx_comp ctx)
      (dir_block_idx i) (dir_block_offset i) (dir_size i) (unat (dir_size i)) = Inr (encode_listing gs)"
    using assms(9,10,11) by (simp add: segment_skip segment_head)
  show ?thesis
  proof (cases "dir_size i = 0")
    case True
    with assms(11) have "encode_listing gs = []" by simp
    then have "gs = []" by (cases gs) (simp_all add: encode_listing_def encode_group_def put_le32_def)
    with True assms(6) show ?thesis by (simp add: sqfs_dir_read_def listing_dirents_def)
  next
    case False
    with assms(1,6) data parse_directory_encode [OF assms(1,12)] show ?thesis
      by (simp add: sqfs_dir_read_def sqfs_malloc_def)
  qed
qed

section \<open>Concrete runs\<close>

text \<open>A listing of one entry, a FIFO named \<open>a\<close>, cut into two stored blocks.\<close>

definition a_item :: dir_item where
  "a_item = \<lparr>it_offset = 0, it_delta = 0, it_type = SQFS_INODE_FIFO, it_name = [97]\<rparr>"

definition a_listing :: "dir_group list" where
  "a_listing = [\<lparr>g_start = 0, g_base = 1, g_items = [a_item]\<rparr>]"

definition a_blocks :: "stored_block list" where
  "a_blocks = [Raw (take 10 (encode_listing a_listing)), Raw (drop 10 (encode_listing a_listing))]"

definition a_file :: os_file where
  "a_file = \<lparr>f_image = concat (map block_bytes a_blocks), f_stat_size = Some 25, f_events = (\<lambda>_ _. [])\<rparr>"

definition a_ctx :: sqfs_image where
  "a_ctx = \<lparr>ctx_sb = \<lparr>disk = example_superblock\<lparr>inode_table := 0, dir_table := 0\<rparr>,
       sb_fd = a_file, file_size = 25, has_xattrs = False, has_fragments = False, has_export = False\<rparr>,
     ctx_comp = Some (sqfs_compressor_zstd_new stored_lib)\<rparr>"

definition a_dir :: sqfs_inode where
  "a_dir = put_dir 0 21 0 1 0 (new_inode SQFS_INODE_DIR)"

lemma length_a_listing [simp]: "length (encode_listing a_listing) = 21"
  by (simp add: encode_listing_def a_listing_def encode_group_def encode_item_def a_item_def)

lemma a_listing_wf: "\<forall>g \<in> set a_listing. group_wf g"
  by (simp add: a_listing_def group_wf_def item_wf_def a_item_def)

lemma a_reliable: "reliable a_file"
  by (simp add: reliable_def a_file_def a_blocks_def)

section \<open>Properties\<close>

text \<open>C10: a directory written in the disk format reads back as its entries. The listing may have
  any number of headers and entries and be cut anywhere into raw and compressed metadata
  blocks; \<open>sqfs_dir_read\<close> returns every entry once, in order, with its name, type, inode
  reference and number.\<close>

theorem dir_read_roundtrip:
  assumes "\<forall>k. mem k \<noteq> 0" and "reliable (sb_fd (ctx_sb ctx))"
    and "f_image (sb_fd (ctx_sb ctx)) = pre @ concat (map block_bytes sbs) @ post" and "sbs \<noteq> []"
    and "\<forall>sb \<in> set sbs. dir_block_wf (ctx_comp ctx) sb"
    and "sqfs_inode_is_dir (i_type i)"
    and "unat (dir_table (disk (ctx_sb ctx)) + dir_block_idx i) = length pre"
    and "unat (dir_block_offset i) < length (block_data (hd sbs))"
    and "concat (map block_data sbs) = bef @ encode_listing gs @ aft"
    and "unat (dir_block_offset i) = length bef" and "unat (dir_size i) = length (encode_listing gs)"
    and "\<forall>g \<in> set gs. group_wf g"
  shows "sqfs_dir_read mem ctx i = Inr (listing_dirents gs)"
  using assms by (rule dir_read_stored)

theorem dir_read_roundtrip_witness:
  "sqfs_dir_read mem_ok a_ctx a_dir = Inr [\<lparr>d_name = [97, 0], d_inode_number = 1, d_inode_ref = 0,
     d_type = SQFS_INODE_FIFO\<rparr>]"
proof -
  have "sqfs_dir_read mem_ok a_ctx a_dir = Inr (listing_dirents a_listing)"
  proof (rule dir_read_roundtrip [OF mem_ok_pos, where sbs = a_blocks and pre = "[]" and post = "[]"
        and bef = "[]" and aft = "[]"])
    show "reliable (sb_fd (ctx_sb a_ctx))" by (simp add: a_ctx_def a_reliable)
    show "f_image (sb_fd (ctx_sb a_ctx)) = [] @ concat (map block_bytes a_blocks) @ []"
      by (simp add: a_ctx_def a_file_def)
    show "concat (map block_data a_blocks) = [] @ encode_listing a_listing @ []"
      by (simp add: a_blocks_def)
  qed (simp_all add: a_blocks_def a_ctx_def a_dir_def union_defs new_inode_def example_superblock_def
      sqfs_inode_is_dir_def a_listing_wf)
  then show ?thesis
    by (simp add: listing_dirents_def a_listing_def a_item_def item_dirent_def sqfs_make_meta_ref_def)
qed

text \<open>C28: the parser is total on arbitrary bytes. It never reads outside of the listing nor
  writes outside of the growing array, fails only as a corrupt directory or for lack of
  memory, and what it returns are entries of the seven basic types, at most one for every
  eight bytes.\<close>

theorem parse_directory_total:
  "safe (parse_directory_entries mem data)
   \<and> (case parse_directory_entries mem data of
        Inl e \<Rightarrow> e = Err SQFS_ERR_BAD_DIR \<or> e = Err SQFS_ERR_NO_MEMORY
      | Inr es \<Rightarrow> listing_ok es (length data))"
  using parse_directory_safe [of mem data] parse_directory_error [of mem data]
    parse_directory_listing [of mem data]
  by (simp split: sum.split)

text \<open>C40: for an image of at most \<open>2\<^sup>6\<^sup>3\<close> bytes, the directory's block reader writes outside of the 8192-byte buffer on the stack exactly if the header
  of an uncompressed block states more than 8192 bytes and more than 8192 of them are delivered, because the
  image goes on that far and no read fails before: unlike the reader in \<open>data.c\<close>, it does not check the size
  field. If the image ends earlier, the read is refused as truncated and nothing is written outside. No other fault is possible.\<close>

theorem dir_block_overflow_iff:
  assumes "length (f_image fd) \<le> 2 ^ 63"
  shows "read_meta_block mem fd pos cmp = Inl (Fault f) \<longleftrightarrow>
     f = OOB_Write \<and> (\<exists>h. read_meta_header fd pos = Inr h \<and> h AND 0x8000 \<noteq> 0
       \<and> delivers_more fd (unat (h AND 0x7FFF)) (pos + 2) 8192)"
  unfolding read_meta_block_fault [OF assms] block_overruns_def by (simp split: sum.split)

text \<open>A block of 8193 bytes, and the same image without its last byte.\<close>

definition long_block :: "nat \<Rightarrow> os_file" where
  "long_block n = \<lparr>f_image = put_le16 0xA001 @ replicate n 7, f_stat_size = None, f_events = (\<lambda>_ _. [])\<rparr>"

lemma long_block_header: "read_meta_header (long_block n) 0 = Inr 0xA001"
  by (simp add: read_meta_header_def sqfs_pread_all_complete long_block_def segment_head)

theorem dir_block_overflow_iff_witness:
  "read_meta_block mem_ok (long_block 8193) 0 None = Inl (Fault OOB_Write)
   \<and> (\<forall>f. read_meta_block mem_ok (long_block 8192) 0 None \<noteq> Inl (Fault f))"
  using dir_block_overflow_iff [of "long_block 8193" mem_ok 0 None] dir_block_overflow_iff [of "long_block 8192" mem_ok 0 None]
  by (simp add: long_block_header delivers_more_def) (simp add: long_block_def)

text \<open>C23: for an image of at most \<open>2\<^sup>6\<^sup>3\<close> bytes, reading a directory is memory safe, whatever its inode and the bytes of the image say, exactly if
  none of the metadata blocks it visits is one of those that overrun the block buffer. All copies into the buffer
  of the listing stay inside of the bytes that were allocated for it, and the parser stays inside of the listing.\<close>

theorem dir_read_memory_safe:
  assumes "length (f_image (sb_fd (ctx_sb ctx))) \<le> 2 ^ 63"
  shows "safe (sqfs_dir_read mem ctx i) \<longleftrightarrow> (\<forall>p \<in> set (listing_blocks mem ctx i). \<not> block_overruns (sb_fd (ctx_sb ctx)) p)"
  using assms by (rule dir_read_safe_iff)

text \<open>The stored listing is read safely; on an image that begins with the long block it is not.\<close>

theorem dir_read_memory_safe_witness:
  "safe (sqfs_dir_read mem_ok a_ctx a_dir)
   \<and> \<not> safe (sqfs_dir_read mem_ok (a_ctx\<lparr>ctx_sb := (ctx_sb a_ctx)\<lparr>sb_fd := long_block 8193\<rparr>\<rparr>) a_dir)"
proof -
  let ?c = "a_ctx\<lparr>ctx_sb := (ctx_sb a_ctx)\<lparr>sb_fd := long_block 8193\<rparr>\<rparr>"
  have dir: "sqfs_inode_is_dir (i_type a_dir)" "dir_size a_dir = 21" "dir_block_idx a_dir = 0"
    by (simp_all add: a_dir_def union_defs new_inode_def sqfs_inode_is_dir_def)
  have "f_image (sb_fd (ctx_sb a_ctx)) = f_image a_file" "length (f_image a_file) = 25"
    by (simp_all add: a_ctx_def a_file_def a_blocks_def)
  then have safe: "safe (sqfs_dir_read mem_ok a_ctx a_dir)"
    using dir_read_memory_safe [of a_ctx mem_ok a_dir]
    by (simp add: block_overruns_def delivers_more_def a_ctx_def split: sum.split)
  have "dir_table (disk (ctx_sb ?c)) = 0" "sb_fd (ctx_sb ?c) = long_block 8193" by (simp_all add: a_ctx_def)
  with dir have "0 \<in> set (listing_blocks mem_ok ?c a_dir)" by (simp add: listing_blocks_def sqfs_malloc_def mem_ok_def Let_def)
  moreover have "block_overruns (long_block 8193) 0"
    by (simp add: block_overruns_def long_block_header delivers_more_def) (simp add: long_block_def)
  moreover have "length (f_image (sb_fd (ctx_sb ?c))) \<le> 2 ^ 63" by (simp add: long_block_def)
  ultimately have "\<not> safe (sqfs_dir_read mem_ok ?c a_dir)"
    using dir_read_memory_safe [of ?c mem_ok a_dir] by auto
  with safe show ?thesis by blast
qed

text \<open>An entry's inode number is the sum of its header's number and its signed offset, as long
  as the number is below \<open>2\<^sup>3\<^sup>1\<close> (the header's number is widened as a signed integer) and the
  sum is not negative.\<close>

theorem dirent_number_sum:
  assumes "unat (dh_inode_number h) < 2 ^ 31"
    and "0 \<le> int (unat (dh_inode_number h)) + sint (de_inode_offset e)"
  shows "int (unat (d_inode_number (dirent_of h e t name)))
    = int (unat (dh_inode_number h)) + sint (de_inode_offset e)"
  using dirent_inode_number [OF assms] by (simp add: dirent_of_def)

theorem dirent_number_sum_witness:
  "int (unat (d_inode_number (dirent_of \<lparr>dh_count = 0, dh_start = 0, dh_inode_number = 7\<rparr>
     \<lparr>de_offset = 0, de_inode_offset = 3, de_type = 2, de_name_size = 0\<rparr> SQFS_INODE_FILE [97]))) = 10"
  using dirent_number_sum [of "\<lparr>dh_count = 0, dh_start = 0, dh_inode_number = 7\<rparr>"
      "\<lparr>de_offset = 0, de_inode_offset = 3, de_type = 2, de_name_size = 0\<rparr>"]
  by simp

text \<open>Looking a name up in a directory is the map its listing denotes: the first entry with
  that name, none if there is none, as long as no stored name contains a zero byte.\<close>

theorem dirent_lookup_map:
  assumes "\<forall>g \<in> set gs. \<forall>it \<in> set (g_items g). 0 \<notin> set (it_name it)"
  shows "sqfs_dirent_lookup (listing_dirents gs) name
    = map_of (concat (map (\<lambda>g. map (\<lambda>it. (it_name it, item_dirent g it)) (g_items g)) gs)) name"
  using assms by (rule lookup_listing)

theorem dirent_lookup_map_witness:
  "sqfs_dirent_lookup (listing_dirents a_listing) [97]
     = Some (item_dirent \<lparr>g_start = 0, g_base = 1, g_items = [a_item]\<rparr> a_item)
   \<and> sqfs_dirent_lookup (listing_dirents a_listing) [98] = None"
  using dirent_lookup_map [of a_listing "[97]"] dirent_lookup_map [of a_listing "[98]"]
  by (simp add: a_listing_def) (simp add: a_item_def)

end
