(* ===== verification/XattrFormat.thy ===== *)
theory XattrFormat
  imports Xattr DirectoryFormat
begin

text \<open>
  Extended attributes on disk: key-value pairs that follow each other in a metadata block. What the
  parser makes of them, when it stays inside of its buffer, and whose attributes it returns.
\<close>

section \<open>The format\<close>

record xattr_pair =
  p_type :: u16
  p_name :: "byte list"
  p_value :: "byte list"

definition put_pair :: "xattr_pair \<Rightarrow> byte list" where
  "put_pair p = put_le16 (p_type p) @ put_le16 (of_nat (length (p_name p))) @ p_name p
     @ put_le32 (of_nat (length (p_value p))) @ p_value p"

text \<open>What the parser lets pass: it looks at the low byte of the type alone.\<close>

definition pair_parses :: "xattr_pair \<Rightarrow> bool" where
  "pair_parses p \<longleftrightarrow> fst (sqfs_xattr_parse_type (p_type p)) \<le> SQFS_XATTR_PREFIX_SECURITY
     \<and> length (p_name p) < 2 ^ 16 \<and> length (p_value p) < 2 ^ 32"

text \<open>A pair of the format with its value inline: the type is one of the three prefixes, without the flag of
  values that are stored elsewhere.\<close>

definition pair_wf :: "xattr_pair \<Rightarrow> bool" where
  "pair_wf p \<longleftrightarrow> p_type p \<le> SQFS_XATTR_PREFIX_SECURITY \<and> length (p_name p) < 2 ^ 16 \<and> length (p_value p) < 2 ^ 32"

lemma pair_wf_parses: "pair_wf p \<Longrightarrow> pair_parses p"
proof -
  assume "pair_wf p"
  moreover have "t AND 0x00FF = t" if "t \<le> SQFS_XATTR_PREFIX_SECURITY" for t :: u16
  proof -
    have "t = 0 \<or> t = 1 \<or> t = 2"
      using that by (auto simp: SQFS_XATTR_PREFIX_SECURITY_def word_le_nat_alt word_unat_eq_iff)
    then show ?thesis by auto
  qed
  ultimately show ?thesis by (simp add: pair_wf_def pair_parses_def sqfs_xattr_parse_type_def)
qed

text \<open>The attribute a pair stands for: the prefix of its type, the name, a zero byte.\<close>

definition pair_prefix :: "xattr_pair \<Rightarrow> byte list" where
  "pair_prefix p = (case sqfs_xattr_prefix_str (fst (sqfs_xattr_parse_type (p_type p))) of None \<Rightarrow> [] | Some s \<Rightarrow> s)"

definition pair_attr :: "xattr_pair \<Rightarrow> sqfs_xattr" where
  "pair_attr p = \<lparr>x_key = pair_prefix p @ p_name p @ [0], x_value = p_value p, x_value_size = length (p_value p)\<rparr>"

lemma length_put_pair [simp]: "length (put_pair p) = 8 + length (p_name p) + length (p_value p)"
  by (simp add: put_pair_def)

lemma prefix_len: "sqfs_xattr_prefix_str t = Some s \<Longrightarrow> sqfs_xattr_prefix_len t = length s"
  by (auto simp: sqfs_xattr_prefix_str_def sqfs_xattr_prefix_len_def split: if_splits)

section \<open>Reads of a stored pair\<close>

lemma buf_read_in: "off + n \<le> length b \<Longrightarrow> buf_read b off n = Inr (segment b off n)"
  by (simp add: buf_read_def)

lemma buf_read_out: "0 < n \<Longrightarrow> length b < off + n \<Longrightarrow> \<not> safe (buf_read b off n)"
  by (simp add: buf_read_def)

lemma read_key_in: "off + 4 \<le> length b \<Longrightarrow> \<exists>k. read_key b off = Inr k"
  by (simp add: read_key_def buf_read_in)

lemma read_value_size_in: "off + 4 \<le> length b \<Longrightarrow> \<exists>n. read_value_size b off = Inr n"
  by (simp add: read_value_size_def buf_read_in)

lemma stored_pair_reads:
  assumes b: "b = bef @ put_pair p @ aft" and wf: "pair_parses p"
  shows "read_key b (length bef) = Inr (p_type p, of_nat (length (p_name p)))"
    and "unat (of_nat (length (p_name p)) :: u16) = length (p_name p)"
    and "buf_read b (length bef + 4) (length (p_name p)) = Inr (p_name p)"
    and "read_value_size b (length bef + (4 + length (p_name p))) = Inr (of_nat (length (p_value p)))"
    and "unat (of_nat (length (p_value p)) :: u32) = length (p_value p)"
    and "buf_read b (length bef + (4 + length (p_name p)) + 4) (length (p_value p)) = Inr (p_value p)"
proof -
  show "unat (of_nat (length (p_name p)) :: u16) = length (p_name p)"
    and "unat (of_nat (length (p_value p)) :: u32) = length (p_value p)"
    using wf by (simp_all add: pair_parses_def unat_of_nat)
  have "segment b (length bef) 4 = put_le16 (p_type p) @ put_le16 (of_nat (length (p_name p)))"
    by (simp add: b put_pair_def segment_def)
  then show "read_key b (length bef) = Inr (p_type p, of_nat (length (p_name p)))"
    by (simp add: read_key_def buf_read_in b segment_skip segment_head) (simp add: segment_def)
  show "buf_read b (length bef + 4) (length (p_name p)) = Inr (p_name p)"
    by (subst buf_read_in) (simp_all add: b put_pair_def segment_def)
  show "read_value_size b (length bef + (4 + length (p_name p))) = Inr (of_nat (length (p_value p)))"
    by (simp add: read_value_size_def buf_read_in b) (simp add: put_pair_def segment_def)
  show "buf_read b (length bef + (4 + length (p_name p)) + 4) (length (p_value p)) = Inr (p_value p)"
    by (subst buf_read_in) (simp_all add: b put_pair_def segment_def)
qed

section \<open>Both passes over stored pairs\<close>

lemma count_pairs_stored:
  assumes "b = bef @ mid @ concat (map put_pair ps) @ rest" and "\<forall>p \<in> set ps. pair_parses p" and "length rest < 4"
    and "remaining = length b - length bef"
  shows "count_pairs b (length bef) remaining (length mid) n = Inr (n + length ps)"
  using assms
proof (induction ps arbitrary: mid n)
  case Nil
  then show ?case by (simp add: count_pairs.simps)
next
  case (Cons p ps)
  have b: "b = (bef @ mid) @ put_pair p @ concat (map put_pair ps) @ rest" using Cons.prems(1) by simp
  have wf: "pair_parses p" using Cons.prems(2) by simp
  note R = stored_pair_reads [OF b wf]
  have "count_pairs b (length bef) remaining (length (mid @ put_pair p)) (n + 1) = Inr (n + 1 + length ps)"
    using Cons.prems by (intro Cons.IH) simp_all
  moreover have "fst (sqfs_xattr_parse_type (p_type p)) \<le> SQFS_XATTR_PREFIX_SECURITY" using wf by (simp add: pair_parses_def)
  ultimately show ?case
    using R Cons.prems(1,4)
    by (subst count_pairs.simps) (simp add: not_less add.assoc add.commute add.left_commute)
qed

lemma fill_pairs_stored:
  assumes "b = bef @ mid @ concat (map put_pair ps) @ rest" and "\<forall>p \<in> set ps. pair_parses p"
    and "remaining = length b - length bef" and "\<forall>k. mem k \<noteq> 0"
  shows "fill_pairs mem b (length bef) remaining (length mid) (length ps) = Inr (map pair_attr ps)"
  using assms
proof (induction ps arbitrary: mid)
  case (Cons p ps)
  have b: "b = (bef @ mid) @ put_pair p @ concat (map put_pair ps) @ rest" using Cons.prems(1) by simp
  have wf: "pair_parses p" using Cons.prems(2) by simp
  note R = stored_pair_reads [OF b wf]
  have "fill_pairs mem b (length bef) remaining (length (mid @ put_pair p)) (length ps) = Inr (map pair_attr ps)"
    using Cons.prems by (intro Cons.IH) simp_all
  moreover have "(case sqfs_xattr_prefix_str t of None \<Rightarrow> [] | Some s \<Rightarrow> take (sqfs_xattr_prefix_len t) s)
      = (case sqfs_xattr_prefix_str t of None \<Rightarrow> [] | Some s \<Rightarrow> s)" for t
    by (auto simp: prefix_len split: option.split)
  ultimately show ?case
    using R Cons.prems(1,3,4)
    by (simp add: sqfs_malloc_def pair_attr_def pair_prefix_def add.assoc add.commute add.left_commute Let_def)
qed simp

section \<open>Staying inside\<close>

text \<open>One round of the first pass that goes on.\<close>

lemma count_pairs_round:
  assumes "count_pairs b off remaining pos n = Inr m" and "pos + 4 \<le> remaining"
  obtains t ns vs where "read_key b (off + pos) = Inr (t, ns)"
    and "read_value_size b (off + (pos + 4 + unat ns)) = Inr vs" and "pos + 4 + unat ns + 4 + unat vs \<le> remaining"
    and "count_pairs b off remaining (pos + 4 + unat ns + 4 + unat vs) (n + 1) = Inr m"
  using assms by (subst (asm) count_pairs.simps) (auto simp: rbind_eq_Inr_iff Let_def not_less split: if_splits)

lemma count_pairs_safe:
  assumes "off + remaining = length b"
  shows "safe (count_pairs b off remaining pos n)"
  using assms
proof (induction b off remaining pos n rule: count_pairs.induct)
  case (1 b off remaining pos n)
  show ?case
  proof (cases "pos + 4 \<le> remaining")
    case False
    then show ?thesis by (simp add: count_pairs.simps)
  next
    case True
    obtain t ns where k: "read_key b (off + pos) = Inr (t, ns)"
      using read_key_in [of "off + pos" b] True "1.prems" by auto
    have "safe (count_pairs b off remaining (pos + 4 + unat ns + 4 + unat vs) (n + 1))"
      if "\<not> SQFS_XATTR_PREFIX_SECURITY < fst (sqfs_xattr_parse_type t)" "\<not> remaining < pos + 4 + unat ns + 4"
        "read_value_size b (off + (pos + 4 + unat ns)) = Inr vs" "\<not> remaining < pos + 4 + unat ns + 4 + unat vs" for vs
      using "1.IH" [OF _ k refl that(1) refl that(2,3) refl that(4) "1.prems"] True by simp
    moreover have "safe (read_value_size b (off + (pos + 4 + unat ns)))" if "pos + 4 + unat ns + 4 \<le> remaining"
      using read_value_size_in [of "off + (pos + 4 + unat ns)" b] that "1.prems" by auto
    ultimately show ?thesis
      using k by (subst count_pairs.simps) (auto simp: Let_def not_less intro!: safe_rbind)
  qed
qed

lemma fill_pairs_inside:
  assumes "off + remaining = length b" and "count_pairs b off remaining pos n = Inr m"
  shows "n \<le> m \<and> safe (fill_pairs mem b off remaining pos (m - n))
    \<and> (\<forall>xs. fill_pairs mem b off remaining pos (m - n) = Inr xs \<longrightarrow> length xs = m - n)"
  using assms
proof (induction b off remaining pos n arbitrary: m rule: count_pairs.induct)
  case (1 b off remaining pos n)
  show ?case
  proof (cases "pos + 4 \<le> remaining")
    case False
    with "1.prems"(2) show ?thesis by (simp add: count_pairs.simps)
  next
    case True
    from count_pairs_round [OF "1.prems"(2) True] obtain t ns vs where
      k: "read_key b (off + pos) = Inr (t, ns)" and v: "read_value_size b (off + (pos + 4 + unat ns)) = Inr vs"
      and le: "pos + 4 + unat ns + 4 + unat vs \<le> remaining"
      and rest: "count_pairs b off remaining (pos + 4 + unat ns + 4 + unat vs) (n + 1) = Inr m" by metis
    have "\<not> SQFS_XATTR_PREFIX_SECURITY < fst (sqfs_xattr_parse_type t)"
      using "1.prems"(2) True k by (subst (asm) count_pairs.simps) (auto split: if_splits)
    then have "n + 1 \<le> m \<and> safe (fill_pairs mem b off remaining (pos + 4 + unat ns + 4 + unat vs) (m - (n + 1)))
        \<and> (\<forall>xs. fill_pairs mem b off remaining (pos + 4 + unat ns + 4 + unat vs) (m - (n + 1)) = Inr xs \<longrightarrow> length xs = m - (n + 1))"
      using "1.IH" [OF _ k refl _ refl _ v refl _ "1.prems"(1) rest] True le by (simp add: not_less)
    moreover have "buf_read b (off + pos + 4) (unat ns) = Inr (segment b (off + pos + 4) (unat ns))"
      "buf_read b (off + (pos + 4 + unat ns) + 4) (unat vs) = Inr (segment b (off + (pos + 4 + unat ns) + 4) (unat vs))"
      using le "1.prems"(1) by (simp_all add: buf_read_in)
    moreover obtain l where "m - n = Suc l" "m - (n + 1) = l" if "n + 1 \<le> m" by (cases "m - n") auto
    ultimately show ?thesis using True k v by (auto simp: Let_def rbind_eq_Inr_iff intro!: safe_rbind)
  qed
qed

section \<open>The block reader\<close>

text \<open>A context with a compressor that can be called, as every created one can.\<close>

definition comp_callable :: "sqfs_compressor option \<Rightarrow> bool" where
  "comp_callable cmp \<longleftrightarrow> (\<exists>c. cmp = Some c \<and> comp_decompress c \<noteq> None)"

text \<open>The block reader of this file does what the one for directories does.\<close>

lemma xattr_block_same:
  assumes "comp_callable (ctx_comp ctx)"
  shows "read_metadata_block_internal mem ctx pos
    = rbind (read_meta_block mem (sb_fd (ctx_sb ctx)) pos (ctx_comp ctx)) (\<lambda>(b, _). Inr b)"
proof -
  from assms obtain c f where c: "ctx_comp ctx = Some c" "comp_decompress c = Some f"
    by (auto simp: comp_callable_def)
  have r: "rbind m Inr = m" for m :: "byte list res" by (cases m) simp_all
  show ?thesis
    by (simp add: read_metadata_block_internal_def read_meta_block_def read_meta_header_def
        decompress_meta_block_def sqfs_compressor_decompress_def rbind_assoc Let_def c r cong: if_cong)
qed

lemma xattr_block_bounded:
  assumes "comp_callable (ctx_comp ctx)" and "comp_bounded (ctx_comp ctx)"
    and "read_metadata_block_internal mem ctx pos = Inr b"
  shows "length b \<le> 8192"
proof -
  from assms(1) obtain c f where c: "ctx_comp ctx = Some c" "comp_decompress c = Some f"
    by (auto simp: comp_callable_def)
  have "length b \<le> 8192" if "f Disjoint src 8192 = Inr b" for src
    using assms(2) that c unfolding comp_bounded_def by (auto simp: sqfs_compressor_decompress_def)
  moreover have "length b \<le> 8192" if "sqfs_pread_buf fd 8192 n q = Inr b" for fd n q
    using that pread_buf_loop_fits [of 8192] by (simp add: sqfs_pread_buf_def)
  ultimately show ?thesis
    using assms(3) c
    by (fastforce simp: read_metadata_block_internal_def rbind_eq_Inr_iff Let_def SQFS_META_BLOCK_SIZE_def not_less
        split: if_splits)
qed

lemma read_pairs_of_block:
  assumes "ctx_xattr_table ctx = Some t" and "\<forall>k. mem k \<noteq> 0"
    and "read_metadata_block_internal mem ctx (xt_table_start t + sqfs_meta_block_pos ref) = Inr b"
    and "b = bef @ concat (map put_pair ps) @ rest" and "\<forall>p \<in> set ps. pair_parses p" and "length rest < 4"
    and "unat (sqfs_meta_block_offset ref) = length bef" and "length b \<le> 8192"
  shows "read_xattr_pairs mem ctx ref = Inr (map pair_attr ps)"
proof -
  have len: "length bef \<le> length b" "length ps \<le> length b"
  proof -
    have "length ps \<le> length (concat (map put_pair ps))" by (induction ps) simp_all
    then show "length bef \<le> length b" "length ps \<le> length b" by (simp_all add: assms(4))
  qed
  have "unat (of_nat (length b) - of_nat (length bef) :: u64) = length b - length bef"
    using sub_u64 [OF len(1)] assms(8) by simp
  moreover have "count_pairs b (length bef) (length b - length bef) 0 0 = Inr (length ps)"
    using count_pairs_stored [of b bef "[]" ps rest _ 0] assms(4-6) by simp
  moreover have "fill_pairs mem b (length bef) (length b - length bef) 0 (length ps) = Inr (map pair_attr ps)"
    using fill_pairs_stored [of b bef "[]" ps rest _ mem] assms(2,4,5) by simp
  moreover have "length ps * SIZEOF_xattr < 18446744073709551616"
    using len(2) assms(8) by (simp add: SIZEOF_xattr_def)
  ultimately show ?thesis
    using assms(1-3,7) by (auto simp: read_xattr_pairs_def sqfs_malloc_def sqfs_calloc_def Let_def)
qed

text \<open>The search by name over the attributes of stored pairs.\<close>

lemma find_xattr_find: "find_xattr xs name = find (\<lambda>x. c_str (x_key x) = name) xs"
  by (induction xs) simp_all

lemma find_xattr_append:
  "find_xattr (xs @ ys) name = (case find_xattr xs name of None \<Rightarrow> find_xattr ys name | Some x \<Rightarrow> Some x)"
  by (induction xs) simp_all

lemma xattr_get_of_pairs:
  assumes "ctx_xattr_table ctx = Some t" and "xt_loaded t" and "xt_entries t = Some es"
    and "unat (xt_count t) = length es" and "unat idx < length es" and "idx \<noteq> SQFS_XATTR_INVALID_IDX"
    and "read_xattr_pairs mem ctx (xe_xattr_ref (es ! unat idx)) = Inr pairs" and "find_xattr pairs name = Some x"
  shows "sqfs_xattr_get mem ctx idx name None = (Inr [], x_value_size x)"
    and "sqfs_xattr_get mem ctx idx name (Some sz) =
      (if sz < x_value_size x then (Inl (Err SQFS_ERR_OVERFLOW), x_value_size x) else (Inr (x_value x), x_value_size x))"
  using assms by (simp_all add: sqfs_xattr_get_def word_le_nat_alt)

section \<open>Properties\<close>

text \<open>A block with two attributes, \<open>user.a\<close> and \<open>trusted.b\<close>, each of an inode of its own.\<close>

definition user_a :: xattr_pair where "user_a = \<lparr>p_type = 0, p_name = [97], p_value = [1]\<rparr>"
definition trusted_b :: xattr_pair where "trusted_b = \<lparr>p_type = 1, p_name = [98], p_value = [2, 2]\<rparr>"

definition xattr_ctx :: sqfs_ctx where
  "xattr_ctx = small_ctx\<lparr>ctx_sb := (ctx_sb small_ctx)\<lparr>
       sb_fd := \<lparr>f_image = block_bytes (Raw (put_pair user_a @ put_pair trusted_b)), f_stat_size = Some 23,
         f_events = (\<lambda>_ _. [])\<rparr>\<rparr>,
     ctx_xattr_table := Some \<lparr>xt_entries = Some [\<lparr>xe_xattr_ref = 0, xe_count = 1, xe_size = 12\<rparr>,
         \<lparr>xe_xattr_ref = 10, xe_count = 1, xe_size = 17\<rparr>], xt_count = 2, xt_table_start = 0, xt_loaded = True\<rparr>\<rparr>"

lemma xattr_ctx_block:
  "read_metadata_block_internal mem_ok xattr_ctx 0 = Inr (put_pair user_a @ put_pair trusted_b)"
proof -
  have rel: "reliable (sb_fd (ctx_sb xattr_ctx))" by (simp add: reliable_def xattr_ctx_def user_a_def trusted_b_def)
  have comp: "comp_callable (ctx_comp xattr_ctx)"
    by (simp add: xattr_ctx_def small_ctx_def comp_callable_def sqfs_compressor_zstd_new_def)
  show ?thesis
    unfolding xattr_block_same [OF comp]
    using dir_stored_block_read [OF rel, of "[]" "Raw (put_pair user_a @ put_pair trusted_b)" "[]" 0 "ctx_comp xattr_ctx"]
      mem_ok_pos by (simp add: xattr_ctx_def user_a_def trusted_b_def)
qed

lemma xattr_ctx_wf: "\<forall>p \<in> set [user_a, trusted_b]. pair_wf p"
  by (simp add: pair_wf_def user_a_def trusted_b_def SQFS_XATTR_PREFIX_SECURITY_def)

text \<open>C16: attributes written in the disk format with their values inline are read back: from a metadata block, stored
  raw or compressed, whose content from the referenced offset to its end is a sequence of key-value pairs (at most
  three bytes may follow them), \<open>read_xattr_pairs\<close> returns exactly these, in order, each with the prefix of its type
  in front of the name and its value unchanged. The pairs have to go on to the end of the block, because
  the count and the size that bound them in the format are not looked at; values that are stored elsewhere are left out. No read and no allocation fails.\<close>

theorem xattr_pairs_roundtrip:
  assumes mem: "\<forall>k. mem k \<noteq> 0" and rel: "reliable (sb_fd (ctx_sb ctx))" and comp: "comp_callable (ctx_comp ctx)"
    and t: "ctx_xattr_table ctx = Some t"
    and img: "f_image (sb_fd (ctx_sb ctx)) = pre @ block_bytes sb @ post" and wf: "dir_block_wf (ctx_comp ctx) sb"
    and pos: "unat (xt_table_start t + sqfs_meta_block_pos ref) = length pre"
    and data: "block_data sb = bef @ concat (map put_pair ps) @ rest" and pairs: "\<forall>p \<in> set ps. pair_wf p"
    and rest: "length rest < 4" and off: "unat (sqfs_meta_block_offset ref) = length bef"
    and len: "length (block_data sb) \<le> 8192"
  shows "read_xattr_pairs mem ctx ref = Inr (map pair_attr ps)"
proof -
  have "read_metadata_block_internal mem ctx (xt_table_start t + sqfs_meta_block_pos ref) = Inr (block_data sb)"
    unfolding xattr_block_same [OF comp] using dir_stored_block_read [OF rel img pos wf mem] by simp
  from read_pairs_of_block [OF t mem this data _ rest off len] pairs pair_wf_parses show ?thesis by blast
qed

theorem xattr_pairs_roundtrip_witness:
  "read_xattr_pairs mem_ok xattr_ctx 10 = Inr [pair_attr trusted_b] \<and> x_key (pair_attr trusted_b)
    = [116, 114, 117, 115, 116, 101, 100, 46, 98, 0]"
proof -
  let ?sb = "Raw (put_pair user_a @ put_pair trusted_b)"
  have "read_xattr_pairs mem_ok xattr_ctx 10 = Inr (map pair_attr [trusted_b])"
  proof (rule xattr_pairs_roundtrip [OF mem_ok_pos, where sb = ?sb and pre = "[]" and post = "[]"
        and bef = "put_pair user_a" and rest = "[]"])
    show "ctx_xattr_table xattr_ctx = Some (the (ctx_xattr_table xattr_ctx))" by (simp add: xattr_ctx_def)
    show "comp_callable (ctx_comp xattr_ctx)"
      by (simp add: xattr_ctx_def small_ctx_def comp_callable_def sqfs_compressor_zstd_new_def)
    show "\<forall>p \<in> set [trusted_b]. pair_wf p" using xattr_ctx_wf by simp
  qed (simp_all add: xattr_ctx_def reliable_def user_a_def trusted_b_def sqfs_meta_block_pos_def
      sqfs_meta_block_offset_def)
  then show ?thesis
    by (simp add: pair_attr_def pair_prefix_def trusted_b_def sqfs_xattr_parse_type_def sqfs_xattr_prefix_str_def
        SQFS_XATTR_PREFIX_USER_def SQFS_XATTR_PREFIX_TRUSTED_def)
qed

text \<open>A value that is stored elsewhere, type \<open>0x0100\<close> and the 8 bytes of its reference, is not followed: the parser
  delivers the reference as the value.\<close>

theorem out_of_line_value:
  assumes mem: "\<forall>k. mem k \<noteq> 0" and t: "ctx_xattr_table ctx = Some t"
    and b: "read_metadata_block_internal mem ctx (xt_table_start t + sqfs_meta_block_pos ref) = Inr (put_pair p)"
    and off: "sqfs_meta_block_offset ref = 0" and p: "p_type p = 0x0100" "length (p_name p) < 256" "length (p_value p) = 8"
  shows "read_xattr_pairs mem ctx ref = Inr [\<lparr>x_key = [117, 115, 101, 114, 46] @ p_name p @ [0], x_value = p_value p, x_value_size = 8\<rparr>]"
proof -
  have "pair_parses p" using p by (simp add: pair_parses_def sqfs_xattr_parse_type_def)
  then have "read_xattr_pairs mem ctx ref = Inr (map pair_attr [p])"
    using p off by (intro read_pairs_of_block [OF t mem b, of "[]" "[p]" "[]"]) simp_all
  with p show ?thesis
    by (simp add: pair_attr_def pair_prefix_def sqfs_xattr_parse_type_def sqfs_xattr_prefix_str_def SQFS_XATTR_PREFIX_USER_def)
qed

text \<open>C24: the parser of attributes is memory safe exactly when the referenced offset does not lie
  behind the end of the block: then every key, name and value it touches is inside of the block,
  whatever the block contains; otherwise the remaining length wraps around and the first access is
  outside.\<close>

theorem xattr_pairs_safe_iff:
  assumes t: "ctx_xattr_table ctx = Some t" and mem: "\<forall>k. mem k \<noteq> 0"
    and b: "read_metadata_block_internal mem ctx (xt_table_start t + sqfs_meta_block_pos ref) = Inr b"
    and len: "length b \<le> 8192"
  shows "safe (read_xattr_pairs mem ctx ref) \<longleftrightarrow> unat (sqfs_meta_block_offset ref) \<le> length b"
proof -
  define off where "off = unat (sqfs_meta_block_offset ref)"
  define remaining where "remaining = unat (of_nat (length b) - of_nat off :: u64)"
  have run: "read_xattr_pairs mem ctx ref = rbind (count_pairs b off remaining 0 0) (\<lambda>n.
      if n = 0 then Inr [] else if sqfs_calloc mem n SIZEOF_xattr = 0 then Inl (Err SQFS_ERR_NO_MEMORY)
      else fill_pairs mem b off remaining 0 n)"
    using t mem b by (simp add: read_xattr_pairs_def sqfs_malloc_def off_def remaining_def Let_def cong: if_cong)
  show ?thesis
  proof (cases "off \<le> length b")
    case True
    with len have "remaining = length b - off" by (simp add: remaining_def sub_u64)
    with True have split: "off + remaining = length b" by simp
    from fill_pairs_inside [OF split, of 0 0 _ mem] count_pairs_safe [OF split, of 0 0] True show ?thesis
      by (auto simp: run off_def [symmetric] intro!: safe_rbind)
  next
    case False
    have "off < 2 ^ 16" by (simp add: off_def)
    then have "remaining = 2 ^ 64 - (off - length b)" using False by (simp add: remaining_def sub_wraps)
    with \<open>off < 2 ^ 16\<close> have "4 \<le> remaining" by simp
    moreover have "buf_read b off 4 = Inl (Fault Uninit_Read) \<or> buf_read b off 4 = Inl (Fault OOB_Read)"
      using False by (simp add: buf_read_def)
    ultimately have "\<not> safe (count_pairs b off remaining 0 0)"
      by (subst count_pairs.simps) (auto simp: read_key_def)
    then have "\<not> safe (read_xattr_pairs mem ctx ref)"
      by (cases "count_pairs b off remaining 0 0") (auto simp: run safe_def)
    with False show ?thesis by (simp add: off_def)
  qed
qed

theorem xattr_pairs_safe_iff_witness:
  "safe (read_xattr_pairs mem_ok xattr_ctx 10) \<and> \<not> safe (read_xattr_pairs mem_ok xattr_ctx 100)"
proof -
  have t: "ctx_xattr_table xattr_ctx = Some (the (ctx_xattr_table xattr_ctx))" by (simp add: xattr_ctx_def)
  have start: "xt_table_start (the (ctx_xattr_table xattr_ctx)) = 0" by (simp add: xattr_ctx_def)
  have blk: "read_metadata_block_internal mem_ok xattr_ctx (xt_table_start (the (ctx_xattr_table xattr_ctx))
      + sqfs_meta_block_pos r) = Inr (put_pair user_a @ put_pair trusted_b)" if "r = 10 \<or> r = 100" for r
    using that xattr_ctx_block start by (auto simp: sqfs_meta_block_pos_def)
  from xattr_pairs_safe_iff [OF t mem_ok_pos blk, of 10] xattr_pairs_safe_iff [OF t mem_ok_pos blk, of 100]
  show ?thesis by (simp add: user_a_def trusted_b_def sqfs_meta_block_offset_def)
qed

text \<open>Neither the number nor the size in the table entry of an inode bounds what is read for
  it: the parser goes on to the end of the metadata block. An inode without an attribute is given the
  attribute of that name of another inode stored behind its own in the block.\<close>

theorem xattr_get_foreign:
  assumes "ctx_xattr_table ctx = Some t" and "xt_loaded t" and "xt_entries t = Some es"
    and "unat (xt_count t) = length es" and "unat idx < length es" and "idx \<noteq> SQFS_XATTR_INVALID_IDX"
    and mem: "\<forall>k. mem k \<noteq> 0"
    and "read_metadata_block_internal mem ctx (xt_table_start t + sqfs_meta_block_pos (xe_xattr_ref (es ! unat idx))) = Inr b"
    and b: "b = bef @ concat (map put_pair own) @ concat (map put_pair others)"
    and wf: "\<forall>p \<in> set (own @ others). pair_wf p"
    and off: "unat (sqfs_meta_block_offset (xe_xattr_ref (es ! unat idx))) = length bef" and len: "length b \<le> 8192"
    and cnt: "unat (xe_count (es ! unat idx)) = length own"
    and none: "find_xattr (map pair_attr own) name = None" and some: "find_xattr (map pair_attr others) name = Some x"
  shows "sqfs_xattr_get mem ctx idx name (Some (x_value_size x)) = (Inr (x_value x), x_value_size x)"
proof -
  have "b = bef @ concat (map put_pair (own @ others)) @ []" using b by simp
  moreover have "\<forall>p \<in> set (own @ others). pair_parses p" using wf pair_wf_parses by blast
  ultimately have "read_xattr_pairs mem ctx (xe_xattr_ref (es ! unat idx)) = Inr (map pair_attr (own @ others))"
    by (rule read_pairs_of_block [OF assms(1) mem assms(8)]) (use off len in simp_all)
  moreover have "find_xattr (map pair_attr (own @ others)) name = Some x"
    using none some by (simp add: find_xattr_append)
  ultimately show ?thesis using xattr_get_of_pairs(2) [OF assms(1-6)] by simp
qed

theorem xattr_get_foreign_witness:
  "sqfs_xattr_get mem_ok xattr_ctx 0 [116, 114, 117, 115, 116, 101, 100, 46, 98] (Some 2) = (Inr [2, 2], 2)"
proof -
  let ?t = "the (ctx_xattr_table xattr_ctx)"
  have "sqfs_xattr_get mem_ok xattr_ctx 0 [116, 114, 117, 115, 116, 101, 100, 46, 98]
      (Some (x_value_size (pair_attr trusted_b))) = (Inr (x_value (pair_attr trusted_b)), x_value_size (pair_attr trusted_b))"
  proof (rule xattr_get_foreign [where t = ?t and es = "the (xt_entries ?t)"
        and own = "[user_a]" and others = "[trusted_b]" and bef = "[]"])
    show "\<forall>p \<in> set ([user_a] @ [trusted_b]). pair_wf p" using xattr_ctx_wf by simp
    show "read_metadata_block_internal mem_ok xattr_ctx (xt_table_start ?t
        + sqfs_meta_block_pos (xe_xattr_ref (the (xt_entries ?t) ! unat (0 :: u32))))
      = Inr (put_pair user_a @ put_pair trusted_b)"
      using xattr_ctx_block by (simp add: xattr_ctx_def sqfs_meta_block_pos_def)
  qed (use mem_ok_pos in \<open>simp_all add: xattr_ctx_def SQFS_XATTR_INVALID_IDX_def sqfs_meta_block_offset_def pair_attr_def
      user_a_def trusted_b_def pair_prefix_def sqfs_xattr_parse_type_def sqfs_xattr_prefix_str_def
      SQFS_XATTR_PREFIX_USER_def SQFS_XATTR_PREFIX_TRUSTED_def c_str_def\<close>)
  then show ?thesis by (simp add: pair_attr_def trusted_b_def numeral_2_eq_2)
qed

end
