(* ===== verification/Vfs.thy ===== *)
theory Vfs
  imports XattrFormat
begin

text \<open>
  \<open>src/vfs/vfs.h\<close> and \<open>src/vfs/vfs_ops.c\<close>: the operations of the file system on paths and open
  files. They return a negative errno or a result; the model's failure carries the errno. The
  pointers the callers pass are not null. Paths and names are the bytes of a C string without its
  terminating zero.
\<close>

section \<open>Error codes\<close>

text \<open>\<open>sqfs_err_to_errno\<close> takes the whole enumeration; \<open>None\<close> is \<open>SQFS_OK\<close> and 0.\<close>

definition sqfs_err_to_errno :: "sqfs_error option \<Rightarrow> errno option" where
  "sqfs_err_to_errno err =
     (case err of
        None \<Rightarrow> None
      | Some SQFS_ERR_NOT_FOUND \<Rightarrow> Some ENOENT
      | Some SQFS_ERR_CORRUPT \<Rightarrow> Some EIO
      | Some SQFS_ERR_NO_MEMORY \<Rightarrow> Some ENOMEM
      | Some SQFS_ERR_IO \<Rightarrow> Some EIO
      | Some SQFS_ERR_BAD_INODE \<Rightarrow> Some EIO
      | Some SQFS_ERR_BAD_DIR \<Rightarrow> Some EIO
      | Some _ \<Rightarrow> Some EIO)"

text \<open>\<open>SQFS_VFS_ERR_*\<close>.\<close>

definition SQFS_VFS_ERR_NOT_FOUND :: errno where "SQFS_VFS_ERR_NOT_FOUND = ENOENT"
definition SQFS_VFS_ERR_NOT_DIR :: errno where "SQFS_VFS_ERR_NOT_DIR = ENOTDIR"
definition SQFS_VFS_ERR_NOT_FILE :: errno where "SQFS_VFS_ERR_NOT_FILE = EINVAL"
definition SQFS_VFS_ERR_NOMEM :: errno where "SQFS_VFS_ERR_NOMEM = ENOMEM"
definition SQFS_VFS_ERR_INVAL :: errno where "SQFS_VFS_ERR_INVAL = EINVAL"
definition SQFS_VFS_ERR_NOSUP :: errno where "SQFS_VFS_ERR_NOSUP = EOPNOTSUPP"
definition SQFS_VFS_ERR_NODATA :: errno where "SQFS_VFS_ERR_NODATA = ENODATA"

lemmas vfs_err_defs = SQFS_VFS_ERR_NOT_FOUND_def SQFS_VFS_ERR_NOT_DIR_def SQFS_VFS_ERR_NOT_FILE_def
  SQFS_VFS_ERR_NOMEM_def SQFS_VFS_ERR_INVAL_def SQFS_VFS_ERR_NOSUP_def SQFS_VFS_ERR_NODATA_def

text \<open>A result of the core handed on: its error code as errno, a fault as it is.\<close>

definition to_vfs :: "'a res \<Rightarrow> 'a cres" where
  "to_vfs r = (case r of
       Inr x \<Rightarrow> Inr x
     | Inl (Fault f) \<Rightarrow> Inl (Fault f)
     | Inl (Err e) \<Rightarrow> Inl (Err (case sqfs_err_to_errno (Some e) of None \<Rightarrow> EIO | Some n \<Rightarrow> n)))"

lemma to_vfs_simps [simp]:
  "to_vfs (Inr x) = Inr x"
  "to_vfs (Inl (Fault f)) = Inl (Fault f)"
  by (simp_all add: to_vfs_def)

definition free_inode :: "sqfs_inode \<Rightarrow> unit cres" where
  "free_inode i = to_vfs (sqfs_inode_free (Some i))"

section \<open>Paths\<close>

text \<open>\<open>strtok_r\<close> with the delimiter \<open>/\<close>: leading delimiters are skipped; the token ends at the next one,
  which is consumed. \<open>None\<close>: no token is left.\<close>

definition strtok_r :: "byte list \<Rightarrow> (byte list \<times> byte list) option" where
  "strtok_r s =
     (let s = dropWhile (\<lambda>c. c = 47) s
      in if s = [] then None
         else Some (takeWhile (\<lambda>c. c \<noteq> 47) s, drop 1 (dropWhile (\<lambda>c. c \<noteq> 47) s)))"

lemma strtok_shorter: "strtok_r s = Some (t, r) \<Longrightarrow> length r < length s"
proof -
  assume a: "strtok_r s = Some (t, r)"
  let ?s = "dropWhile (\<lambda>c. c = 47) s"
  from a have ne: "?s \<noteq> []" and r: "r = drop 1 (dropWhile (\<lambda>c. c \<noteq> 47) ?s)"
    by (auto simp: strtok_r_def Let_def split: if_splits)
  from ne have "hd ?s \<noteq> 47" by (rule hd_dropWhile)
  with ne have "length (dropWhile (\<lambda>c. c \<noteq> 47) ?s) < length ?s"
    by (cases ?s) (auto simp: le_imp_less_Suc length_dropWhile_le)
  with length_dropWhile_le [of "\<lambda>c. c = 47" s] show ?thesis by (simp add: r)
qed

text \<open>
  The walk over the components. The inode in hand is released before the entries are searched; an
  entry whose inode does not load counts as not found.
\<close>

function walk_components :: "allocator \<Rightarrow> sqfs_ctx \<Rightarrow> byte list \<Rightarrow> sqfs_inode \<Rightarrow> sqfs_inode cres" where
  "walk_components mem ctx rest i =
     (case strtok_r rest of
        None \<Rightarrow> Inr i
      | Some (component, rest') \<Rightarrow>
          if \<not> sqfs_inode_is_dir (i_type i) then rbind (free_inode i) (\<lambda>_. Inl (Err SQFS_VFS_ERR_NOT_DIR))
          else case sqfs_dir_read mem ctx i of
              Inl (Fault f) \<Rightarrow> Inl (Fault f)
            | r \<Rightarrow> rbind (free_inode i) (\<lambda>_. rbind (to_vfs r) (\<lambda>entries.
                case sqfs_dirent_lookup entries component of
                  None \<Rightarrow> Inl (Err SQFS_VFS_ERR_NOT_FOUND)
                | Some d \<Rightarrow>
                    (case sqfs_inode_get_by_ref mem ctx (d_inode_ref d) of
                       Inl (Fault f) \<Rightarrow> Inl (Fault f)
                     | Inl (Err e) \<Rightarrow> Inl (Err SQFS_VFS_ERR_NOT_FOUND)
                     | Inr i' \<Rightarrow> walk_components mem ctx rest' i'))))"
  by pat_completeness auto
termination walk_components
  by (relation "measure (\<lambda>(mem, ctx, rest, i). length rest)") (auto dest: strtok_shorter)

declare walk_components.simps [simp del]

text \<open>The first byte of the path is skipped whatever it is; for the empty path the tokenizer starts
  behind the end of the copy.\<close>

definition sqfs_vfs_resolve_path :: "allocator \<Rightarrow> sqfs_ctx \<Rightarrow> byte list \<Rightarrow> sqfs_inode cres" where
  "sqfs_vfs_resolve_path mem ctx path =
     rbind (to_vfs (sqfs_inode_get_by_ref mem ctx (root_inode (disk (ctx_sb ctx))))) (\<lambda>i.
       if path = [47] then Inr i
       else if sqfs_malloc mem (length path + 1) = 0
       then rbind (free_inode i) (\<lambda>_. Inl (Err SQFS_VFS_ERR_NOMEM))
       else case path of
           [] \<Rightarrow> Inl (Fault OOB_Read)
         | _ # rest \<Rightarrow> walk_components mem ctx rest i)"

section \<open>Attributes\<close>

record sqfs_vfs_attr =
  at_ino :: u64
  at_mode :: u32
  at_nlink :: u32
  at_uid :: u32
  at_gid :: u32
  at_size :: u64
  at_blocks :: u64
  at_blksize :: u32
  at_atime :: u64
  at_mtime :: u64
  at_ctime :: u64
  at_rdev_major :: u32
  at_rdev_minor :: u32

text \<open>The \<open>S_IF*\<close> constants.\<close>

fun type_mode :: "sqfs_inode_type \<Rightarrow> u32" where
  "type_mode SQFS_INODE_DIR = 0x4000" | "type_mode SQFS_INODE_LDIR = 0x4000"
| "type_mode SQFS_INODE_FILE = 0x8000" | "type_mode SQFS_INODE_LFILE = 0x8000"
| "type_mode SQFS_INODE_SYMLINK = 0xA000" | "type_mode SQFS_INODE_LSYMLINK = 0xA000"
| "type_mode SQFS_INODE_BLKDEV = 0x6000" | "type_mode SQFS_INODE_LBLKDEV = 0x6000"
| "type_mode SQFS_INODE_CHRDEV = 0x2000" | "type_mode SQFS_INODE_LCHRDEV = 0x2000"
| "type_mode SQFS_INODE_FIFO = 0x1000" | "type_mode SQFS_INODE_LFIFO = 0x1000"
| "type_mode SQFS_INODE_SOCKET = 0xC000" | "type_mode SQFS_INODE_LSOCKET = 0xC000"

text \<open>The block counts are computed at the width of the size, 32 bits for a directory.\<close>

definition sqfs_vfs_fill_attr :: "sqfs_ctx \<Rightarrow> sqfs_inode \<Rightarrow> sqfs_vfs_attr" where
  "sqfs_vfs_fill_attr ctx i =
     (let attr = \<lparr>at_ino = i_number i, at_mode = ucast (i_permissions i) OR type_mode (i_type i),
            at_nlink = i_link_count i, at_uid = ucast (i_uid i), at_gid = ucast (i_gid i),
            at_size = 0, at_blocks = 0, at_blksize = 0,
            at_atime = ucast (i_mtime i), at_mtime = ucast (i_mtime i), at_ctime = ucast (i_mtime i),
            at_rdev_major = 0, at_rdev_minor = 0\<rparr>;
          bsize = block_size (disk (ctx_sb ctx))
      in if sqfs_inode_is_dir (i_type i) then
           attr\<lparr>at_size := ucast (dir_size i), at_blksize := bsize, at_blocks := ucast ((dir_size i + 511) div 512)\<rparr>
         else if sqfs_inode_is_file (i_type i) then
           attr\<lparr>at_size := file_file_size i, at_blksize := bsize, at_blocks := (file_file_size i + 511) div 512\<rparr>
         else if sqfs_inode_is_symlink (i_type i) then
           attr\<lparr>at_size := ucast (symlink_target_size i), at_blksize := bsize\<rparr>
         else if sqfs_inode_is_dev (i_type i) then
           attr\<lparr>at_rdev_major := dev_major i, at_rdev_minor := dev_minor i\<rparr>
         else attr)"

definition sqfs_vfs_getattr :: "allocator \<Rightarrow> sqfs_ctx \<Rightarrow> byte list \<Rightarrow> sqfs_vfs_attr cres" where
  "sqfs_vfs_getattr mem ctx path =
     rbind (sqfs_vfs_resolve_path mem ctx path) (\<lambda>i.
       rbind (free_inode i) (\<lambda>_. Inr (sqfs_vfs_fill_attr ctx i)))"

section \<open>Files\<close>

record sqfs_vfs_fh =
  fh_inode :: "sqfs_inode option"
  fh_file_size :: u64

definition SIZEOF_vfs_fh :: nat where "SIZEOF_vfs_fh = 16"

definition sqfs_vfs_open :: "allocator \<Rightarrow> sqfs_ctx \<Rightarrow> byte list \<Rightarrow> sqfs_vfs_fh cres" where
  "sqfs_vfs_open mem ctx path =
     rbind (sqfs_vfs_resolve_path mem ctx path) (\<lambda>i.
       if \<not> sqfs_inode_is_file (i_type i) then rbind (free_inode i) (\<lambda>_. Inl (Err SQFS_VFS_ERR_NOT_FILE))
       else if sqfs_malloc mem SIZEOF_vfs_fh = 0 then rbind (free_inode i) (\<lambda>_. Inl (Err SQFS_VFS_ERR_NOMEM))
       else Inr \<lparr>fh_inode = Some i, fh_file_size = file_file_size i\<rparr>)"

text \<open>The read changes the context through the data cache, and may not return. It returns the number of
  bytes as an \<open>int\<close>; here it returns the bytes, which is the same for sizes below \<open>2\<^sup>3\<^sup>1\<close>.\<close>

definition sqfs_vfs_read ::
  "heap_env \<Rightarrow> sqfs_vfs_fh \<Rightarrow> u64 \<Rightarrow> u64 \<Rightarrow> sqfs_ctx \<Rightarrow> (byte list cres \<times> sqfs_ctx) option" where
  "sqfs_vfs_read E fh sz offset ctx =
     (case fh_inode fh of
        None \<Rightarrow> Some (Inl (Err SQFS_VFS_ERR_INVAL), ctx)
      | Some i \<Rightarrow>
          if fh_file_size fh \<le> offset then Some (Inr [], ctx)
          else let sz = (if fh_file_size fh < offset + sz then fh_file_size fh - offset else sz)
               in case sqfs_data_read E i offset sz ctx of
                   None \<Rightarrow> None
                 | Some (r, ctx) \<Rightarrow> Some (to_vfs r, ctx))"

definition sqfs_vfs_release :: "sqfs_vfs_fh option \<Rightarrow> unit cres" where
  "sqfs_vfs_release fh =
     (case fh of
        None \<Rightarrow> Inr ()
      | Some h \<Rightarrow> (case fh_inode h of None \<Rightarrow> Inr () | Some i \<Rightarrow> free_inode i))"

section \<open>Directories\<close>

record sqfs_vfs_dirent =
  ve_name :: "byte list"
  ve_ino :: u64
  ve_type :: u32

definition SIZEOF_vfs_dirent :: nat where "SIZEOF_vfs_dirent = 24"

definition vfs_dirent_of :: "sqfs_dirent \<Rightarrow> sqfs_vfs_dirent" where
  "vfs_dirent_of d = \<lparr>ve_name = d_name d, ve_ino = d_inode_number d, ve_type = type_mode (d_type d)\<rparr>"

definition sqfs_vfs_readdir :: "allocator \<Rightarrow> sqfs_ctx \<Rightarrow> byte list \<Rightarrow> sqfs_vfs_dirent list cres" where
  "sqfs_vfs_readdir mem ctx path =
     rbind (sqfs_vfs_resolve_path mem ctx path) (\<lambda>i.
       if \<not> sqfs_inode_is_dir (i_type i) then rbind (free_inode i) (\<lambda>_. Inl (Err SQFS_VFS_ERR_NOT_DIR))
       else case sqfs_dir_read mem ctx i of
           Inl (Fault f) \<Rightarrow> Inl (Fault f)
         | r \<Rightarrow> rbind (free_inode i) (\<lambda>_. rbind (to_vfs r) (\<lambda>entries.
             if sqfs_malloc mem (length entries * SIZEOF_vfs_dirent) = 0 then Inl (Err SQFS_VFS_ERR_NOMEM)
             else Inr (map vfs_dirent_of entries))))"

section \<open>Symbolic links\<close>

text \<open>The copy from the target pointer, which must be the address of the inode's allocation.\<close>

definition read_target :: "sqfs_inode \<Rightarrow> nat \<Rightarrow> byte list cres" where
  "read_target i n =
     (if n = 0 then Inr []
      else case i_target_alloc i of
          None \<Rightarrow> Inl (Fault (if symlink_target i = 0 then Null_Deref else Wild_Pointer))
        | Some (a, bs) \<Rightarrow>
            if symlink_target i = a then mem_read bs 0 n
            else Inl (Fault (if symlink_target i = 0 then Null_Deref else Wild_Pointer)))"

text \<open>The bytes written to the buffer of \<open>sz\<close> bytes, with the terminating zero.\<close>

definition sqfs_vfs_readlink :: "allocator \<Rightarrow> sqfs_ctx \<Rightarrow> byte list \<Rightarrow> nat \<Rightarrow> byte list cres" where
  "sqfs_vfs_readlink mem ctx path sz =
     (if sz = 0 then Inl (Err SQFS_VFS_ERR_INVAL)
      else rbind (sqfs_vfs_resolve_path mem ctx path) (\<lambda>i.
        if \<not> sqfs_inode_is_symlink (i_type i) then rbind (free_inode i) (\<lambda>_. Inl (Err SQFS_VFS_ERR_INVAL))
        else let target_len = unat (symlink_target_size i);
                 copy_size = (if target_len < sz - 1 then target_len else sz - 1)
             in rbind (read_target i copy_size) (\<lambda>b.
                rbind (free_inode i) (\<lambda>_. Inr (b @ [0])))))"

section \<open>The file system\<close>

record sqfs_vfs_statfs =
  sf_bsize :: u64
  sf_frsize :: u64
  sf_blocks :: u64
  sf_bfree :: u64
  sf_bavail :: u64
  sf_files :: u64
  sf_ffree :: u64
  sf_favail :: u64
  sf_fsid :: u32
  sf_flags :: u32
  sf_namemax :: u32

definition sqfs_vfs_statfs :: "sqfs_ctx \<Rightarrow> sqfs_vfs_statfs cres" where
  "sqfs_vfs_statfs ctx =
     (let d = disk (ctx_sb ctx) in
      if block_size d = 0 then Inl (Fault Div_By_Zero)
      else Inr \<lparr>sf_bsize = ucast (block_size d), sf_frsize = ucast (block_size d),
             sf_blocks = bytes_used d div ucast (block_size d), sf_bfree = 0, sf_bavail = 0,
             sf_files = ucast (inode_count d), sf_ffree = 0, sf_favail = 0, sf_fsid = 0, sf_flags = 1,
             sf_namemax = 256\<rparr>)"

section \<open>Extended attributes\<close>

definition get_xattr_idx_from_inode :: "sqfs_inode \<Rightarrow> u32" where
  "get_xattr_idx_from_inode i =
     (if sqfs_inode_is_file (i_type i) then file_xattr_idx i
      else if i_type i = SQFS_INODE_LDIR then i_xattr_idx i
      else if i_type i = SQFS_INODE_LSYMLINK then i_xattr_idx i
      else i_xattr_idx i)"

text \<open>The bytes written to the buffer and the returned size.\<close>

definition sqfs_vfs_getxattr ::
  "allocator \<Rightarrow> sqfs_ctx \<Rightarrow> byte list \<Rightarrow> byte list \<Rightarrow> nat option \<Rightarrow> (byte list \<times> nat) cres" where
  "sqfs_vfs_getxattr mem ctx path name buf =
     (if \<not> has_xattrs (ctx_sb ctx) then Inl (Err SQFS_VFS_ERR_NOSUP)
      else rbind (sqfs_vfs_resolve_path mem ctx path) (\<lambda>i.
        rbind (free_inode i) (\<lambda>_.
          if get_xattr_idx_from_inode i = 0xFFFFFFFF then Inl (Err SQFS_VFS_ERR_NODATA)
          else case sqfs_xattr_get mem ctx (get_xattr_idx_from_inode i) name buf of
              (r, out_size) \<Rightarrow> rbind (to_vfs r) (\<lambda>b. Inr (b, out_size)))))"

definition sqfs_vfs_listxattr ::
  "allocator \<Rightarrow> sqfs_ctx \<Rightarrow> byte list \<Rightarrow> nat option \<Rightarrow> (byte list \<times> nat) cres" where
  "sqfs_vfs_listxattr mem ctx path buf =
     (if \<not> has_xattrs (ctx_sb ctx) then Inl (Err SQFS_VFS_ERR_NOSUP)
      else rbind (sqfs_vfs_resolve_path mem ctx path) (\<lambda>i.
        rbind (free_inode i) (\<lambda>_.
          if get_xattr_idx_from_inode i = 0xFFFFFFFF then Inr ([], 0)
          else case sqfs_xattr_list mem ctx (get_xattr_idx_from_inode i) buf of
              (r, out_size) \<Rightarrow> rbind (to_vfs r) (\<lambda>b. Inr (b, out_size)))))"

end
