(* ===== verification/VfsTree.thy ===== *)
theory VfsTree
  imports Vfs
begin

text \<open>
  The abstract file system: a tree of inodes, and what the operations on paths promise about it.
  An image stores a tree when its inodes load, its directories list the names of their children,
  and the references lead to the children. Path resolution then is the look-up in the tree.
\<close>

section \<open>Components of a path\<close>

text \<open>Splitting at the slashes; the non-empty pieces are the components.\<close>

fun split_slash :: "byte list \<Rightarrow> byte list list" where
  "split_slash [] = [[]]"
| "split_slash (c # s) = (if c = 47 then [] # split_slash s
     else case split_slash s of [] \<Rightarrow> [[c]] | w # ws \<Rightarrow> (c # w) # ws)"

definition path_components :: "byte list \<Rightarrow> byte list list" where
  "path_components s = filter (\<lambda>w. w \<noteq> []) (split_slash s)"

lemma split_slash_word:
  "47 \<notin> set w \<Longrightarrow> split_slash (w @ 47 # s) = w # split_slash s"
  "47 \<notin> set w \<Longrightarrow> split_slash w = [w]"
  by (induction w) simp_all

lemma components_skip: "path_components (47 # s) = path_components s"
  by (simp add: path_components_def)

lemma components_dropWhile: "path_components (dropWhile (\<lambda>c. c = 47) s) = path_components s"
  by (induction s) (simp_all add: components_skip)

lemma components_word:
  assumes "s \<noteq> []" and "hd s \<noteq> 47"
  shows "path_components s
    = takeWhile (\<lambda>c. c \<noteq> 47) s # path_components (drop 1 (dropWhile (\<lambda>c. c \<noteq> 47) s))"
proof -
  define w r where "w = takeWhile (\<lambda>c. c \<noteq> 47) s" and "r = dropWhile (\<lambda>c. c \<noteq> 47) s"
  have s: "s = w @ r" by (simp add: w_def r_def)
  have w: "47 \<notin> set w" "w \<noteq> []" using assms by (auto simp: w_def dest: set_takeWhileD) (cases s; simp)
  show ?thesis
  proof (cases r)
    case Nil
    then have "path_components s = [w]" using w s by (simp add: path_components_def split_slash_word(2))
    with Nil show ?thesis unfolding w_def [symmetric] r_def [symmetric] by (simp add: path_components_def)
  next
    case (Cons c r')
    then have "c = 47" using hd_dropWhile [of "\<lambda>c. c \<noteq> 47" s] by (simp add: r_def)
    with Cons w s have "path_components s = w # path_components r'"
      by (simp add: path_components_def split_slash_word(1))
    with Cons show ?thesis unfolding w_def [symmetric] r_def [symmetric] by simp
  qed
qed

text \<open>The tokenizer delivers the components one by one.\<close>

lemma strtok_components:
  "case strtok_r s of
     None \<Rightarrow> path_components s = []
   | Some (w, rest) \<Rightarrow> path_components s = w # path_components rest"
proof (cases "dropWhile (\<lambda>c. c = 47) s = []")
  case True
  then have "path_components s = []" using components_dropWhile [of s] by (simp only:) (simp add: path_components_def)
  with True show ?thesis by (simp add: strtok_r_def)
next
  case False
  then have "hd (dropWhile (\<lambda>c. c = 47) s) \<noteq> 47" by (rule hd_dropWhile)
  from components_word [OF False this] False components_dropWhile [of s] show ?thesis
    by (simp add: strtok_r_def Let_def)
qed

section \<open>Trees\<close>

datatype node = Node (node_inode: sqfs_inode) (node_children: "(byte list \<times> node) list")

fun node_at :: "node \<Rightarrow> byte list list \<Rightarrow> errno + node" where
  "node_at t [] = Inr t"
| "node_at (Node i cs) (c # path) =
     (if \<not> sqfs_inode_is_dir (i_type i) then Inl ENOTDIR
      else case map_of cs c of None \<Rightarrow> Inl ENOENT | Some t \<Rightarrow> node_at t path)"

inductive tree_stored :: "allocator \<Rightarrow> sqfs_ctx \<Rightarrow> u64 \<Rightarrow> node \<Rightarrow> bool" for mem ctx where
  stored_leaf: "sqfs_inode_get_by_ref mem ctx ref = Inr i \<Longrightarrow> \<not> sqfs_inode_is_dir (i_type i) \<Longrightarrow>
    sqfs_inode_free (Some i) = Inr () \<Longrightarrow> tree_stored mem ctx ref (Node i [])"
| stored_dir: "sqfs_inode_get_by_ref mem ctx ref = Inr i \<Longrightarrow> sqfs_inode_is_dir (i_type i) \<Longrightarrow>
    sqfs_dir_read mem ctx i = Inr es \<Longrightarrow>
    list_all2 (\<lambda>d c. c_str (d_name d) = fst c \<and> tree_stored mem ctx (d_inode_ref d) (snd c)) es cs \<Longrightarrow>
    tree_stored mem ctx ref (Node i cs)"

inductive_simps tree_stored_Node: "tree_stored mem ctx ref (Node i cs)"

lemma tree_stored_inode: "tree_stored mem ctx ref t \<Longrightarrow> sqfs_inode_get_by_ref mem ctx ref = Inr (node_inode t)"
  by (cases t) (auto simp: tree_stored_Node)

lemma free_dir: "sqfs_inode_is_dir (i_type i) \<Longrightarrow> sqfs_inode_free (Some i) = Inr ()"
  by (auto simp: sqfs_inode_free_def sqfs_inode_is_dir_def sqfs_inode_is_symlink_def)

lemma free_inode_stored: "tree_stored mem ctx ref t \<Longrightarrow> free_inode (node_inode t) = Inr ()"
  by (cases t) (auto simp: tree_stored_Node free_inode_def free_dir)

lemma lookup_stored:
  assumes "list_all2 (\<lambda>d c. c_str (d_name d) = fst c \<and> P d (snd c)) es cs"
  shows "case sqfs_dirent_lookup es name of
      None \<Rightarrow> map_of cs name = None
    | Some d \<Rightarrow> \<exists>t. map_of cs name = Some t \<and> P d t"
  using assms
proof (induction es cs rule: list_all2_induct)
  case (Cons d es c cs)
  then show ?case by (cases c) (auto split: option.splits)
qed simp

section \<open>Resolution\<close>

lemma walk_stored:
  assumes "tree_stored mem ctx ref t"
  shows "walk_components mem ctx rest (node_inode t)
    = (case node_at t (path_components rest) of Inl e \<Rightarrow> Inl (Err e) | Inr n \<Rightarrow> Inr (node_inode n))"
  using assms
proof (induction "length rest" arbitrary: rest ref t rule: less_induct)
  case less
  obtain i cs where t: "t = Node i cs" by (cases t)
  note free = free_inode_stored [OF less.prems, unfolded t node.sel]
  show ?case
  proof (cases "strtok_r rest")
    case None
    then show ?thesis using strtok_components [of rest] by (simp add: walk_components.simps)
  next
    case (Some p)
    obtain w rest' where p: "p = (w, rest')" by (cases p)
    have comps: "path_components rest = w # path_components rest'"
      and shorter: "length rest' < length rest"
      using Some p strtok_components [of rest] strtok_shorter [of rest w rest'] by simp_all
    show ?thesis
    proof (cases "sqfs_inode_is_dir (i_type i)")
      case False
      with Some p comps t free show ?thesis
        by (simp add: walk_components.simps SQFS_VFS_ERR_NOT_DIR_def)
    next
      case True
      with less.prems t obtain es where rd: "sqfs_dir_read mem ctx i = Inr es"
        and all: "list_all2 (\<lambda>d c. c_str (d_name d) = fst c \<and> tree_stored mem ctx (d_inode_ref d) (snd c)) es cs"
        by (auto simp: tree_stored_Node)
      show ?thesis
      proof (cases "sqfs_dirent_lookup es w")
        case None
        with lookup_stored [OF all, of w] Some p comps t free True rd show ?thesis
          by (simp add: walk_components.simps SQFS_VFS_ERR_NOT_FOUND_def)
      next
        case (Some d)
        with lookup_stored [OF all, of w] obtain t' where m: "map_of cs w = Some t'"
          and st: "tree_stored mem ctx (d_inode_ref d) t'" by auto
        from less.hyps [OF shorter st] Some m \<open>strtok_r rest = Some p\<close> p comps t free True rd tree_stored_inode [OF st]
        show ?thesis by (subst walk_components.simps) simp
      qed
    qed
  qed
qed

lemma resolve_stored:
  assumes "tree_stored mem ctx (root_inode (disk (ctx_sb ctx))) t" and "\<forall>k. mem k \<noteq> 0"
  shows "sqfs_vfs_resolve_path mem ctx (c # rest)
    = (case node_at t (path_components rest) of Inl e \<Rightarrow> Inl (Err e) | Inr n \<Rightarrow> Inr (node_inode n))"
proof (cases "c # rest = [47]")
  case True
  then show ?thesis using tree_stored_inode [OF assms(1)]
    by (simp add: sqfs_vfs_resolve_path_def path_components_def)
next
  case False
  then show ?thesis using tree_stored_inode [OF assms(1)] walk_stored [OF assms(1), of rest] assms(2)
    by (auto simp: sqfs_vfs_resolve_path_def sqfs_malloc_def path_components_def)
qed

text \<open>Every node that can be reached is stored.\<close>

lemma node_at_stored:
  assumes "tree_stored mem ctx ref t" and "node_at t path = Inr n"
  shows "\<exists>ref'. tree_stored mem ctx ref' n"
  using assms
proof (induction path arbitrary: ref t)
  case (Cons c path)
  obtain i cs where t: "t = Node i cs" by (cases t)
  from Cons.prems(2) t obtain t' where dir: "sqfs_inode_is_dir (i_type i)" and m: "map_of cs c = Some t'"
    and at: "node_at t' path = Inr n" by (auto split: if_splits option.splits)
  from Cons.prems(1) t dir obtain es :: "sqfs_dirent list" where
    all: "list_all2 (\<lambda>d c. c_str (d_name d) = fst c \<and> tree_stored mem ctx (d_inode_ref d) (snd c)) es cs"
    by (auto simp: tree_stored_Node)
  from map_of_SomeD [OF m] all obtain d :: sqfs_dirent where "tree_stored mem ctx (d_inode_ref d) t'"
    by (fastforce simp: list_all2_conv_all_nth in_set_conv_nth)
  from Cons.IH [OF this at] show ?case .
qed auto

section \<open>A small file system\<close>

text \<open>A root directory with one file \<open>a\<close> of four bytes: a superblock, a metadata block with both
  inodes, a directory block, the data. It has no fragments, ids and attributes.\<close>

definition root_di :: disk_inode where
  "root_di = \<lparr>di_permissions = 493, di_uid_idx = 0, di_gid_idx = 0, di_mtime = 1, di_number = 1,
     di_body = B_dir 0 2 24 0 0\<rparr>"

definition file_di :: disk_inode where
  "file_di = \<lparr>di_permissions = 420, di_uid_idx = 1, di_gid_idx = 0, di_mtime = 1, di_number = 2,
     di_body = B_file 189 0xFFFFFFFF 0 4 [0x1000004]\<rparr>"

definition root_listing :: "dir_group list" where
  "root_listing = [\<lparr>g_start = 0, g_base = 2, g_items =
     [\<lparr>it_offset = 32, it_delta = 0, it_type = SQFS_INODE_FILE, it_name = [97]\<rparr>]\<rparr>]"

definition fs_superblock :: squashfs_superblock where
  "fs_superblock = \<lparr>magic = 0x73717368, inode_count = 2, mod_time = 0, block_size = 4096, frag_count = 0,
     compressor = 6, block_log = 12, flags = 0x10, id_count = 0, version_major = 4, version_minor = 0,
     root_inode = 0, bytes_used = 193, id_table = 193, xattr_table = 193, inode_table = 96, dir_table = 166,
     frag_table = - 1, export_table = - 1\<rparr>"

definition fs_file :: os_file where
  "fs_file = \<lparr>f_image = put_superblock fs_superblock
       @ block_bytes (Raw (encode_inode root_di @ encode_inode file_di))
       @ block_bytes (Raw (encode_listing root_listing)) @ [1, 2, 3, 4],
     f_stat_size = Some 193, f_events = (\<lambda>_ _. [])\<rparr>"

definition fs_sb :: sqfs_superblock where
  "fs_sb = \<lparr>disk = fs_superblock, sb_fd = fs_file, file_size = 193, has_xattrs = True, has_fragments = False,
     has_export = False\<rparr>"

definition fs_ctx :: sqfs_ctx where
  "fs_ctx = small_ctx\<lparr>ctx_sb := fs_sb\<rparr>"

lemma fs_loads: "sqfs_superblock_load fs_file g = (Inr fs_sb, g)"
proof -
  have "block_size_ok 4096 12" unfolding block_size_ok_def by (intro exI [of _ 12]) simp
  then have "superblock_valid fs_superblock 193" by (simp add: superblock_valid_def fs_superblock_def)
  with superblock_load_encoded [of fs_file 193 fs_superblock _ g] show ?thesis
    by (simp add: fs_file_def fs_sb_def) (simp add: fs_superblock_def)
qed

definition root_inode_ram :: sqfs_inode where
  "root_inode_ram = parsed_body mem_ok (di_body root_di) (inode_common root_di)"

definition file_inode_ram :: sqfs_inode where
  "file_inode_ram = parsed_body mem_ok (di_body file_di) (inode_common file_di)"

definition fs_tree :: node where
  "fs_tree = Node root_inode_ram [([97], Node file_inode_ram [])]"

lemma fs_lengths [simp]:
  "length (encode_inode root_di) = 32" "length (encode_inode file_di) = 36"
  "length (encode_listing root_listing) = 21"
  by (simp_all add: encode_inode_def root_di_def file_di_def encode_listing_def root_listing_def encode_group_def
      encode_item_def)

lemma fs_ctx_simps [simp]:
  "sb_fd (ctx_sb fs_ctx) = fs_file" "ctx_comp fs_ctx = Some (sqfs_compressor_zstd_new stored_lib)"
  "block_size (disk (ctx_sb fs_ctx)) = 4096" "root_inode (disk (ctx_sb fs_ctx)) = 0"
  "inode_table (disk (ctx_sb fs_ctx)) = 96" "dir_table (disk (ctx_sb fs_ctx)) = 166"
  "ctx_data_cache fs_ctx = block_cache"
  by (simp_all add: fs_ctx_def fs_sb_def fs_superblock_def)

lemma fs_reliable: "reliable fs_file"
  by (simp add: reliable_def fs_file_def)

lemma fs_inode_block:
  "sqfs_meta_read_block mem_ok fs_file 96 (ctx_comp fs_ctx) = Inr (encode_inode root_di @ encode_inode file_di)"
  using stored_block_read(1) [OF fs_reliable, of "put_superblock fs_superblock"
      "Raw (encode_inode root_di @ encode_inode file_di)" _ 96 "ctx_comp fs_ctx" mem_ok] by (simp add: fs_file_def)

lemma fs_root: "sqfs_inode_get_by_ref mem_ok fs_ctx 0 = Inr root_inode_ram"
proof -
  have "body_wf 4096 (di_body root_di)" by (simp add: root_di_def)
  with get_by_ref_encode [OF mem_ok_pos, of fs_ctx root_di 0 "[]" "encode_inode file_di"] fs_inode_block
  show ?thesis by (simp add: root_inode_ram_def sqfs_meta_block_pos_def sqfs_meta_block_offset_def)
qed

lemma fs_file_inode: "sqfs_inode_get_by_ref mem_ok fs_ctx 32 = Inr file_inode_ram"
proof -
  have "body_wf 4096 (di_body file_di)" by (simp add: file_di_def sqfs_calc_block_count_def FRAGMENT_INVALID_def)
  with get_by_ref_encode [OF mem_ok_pos, of fs_ctx file_di 32 "encode_inode root_di" "[]"] fs_inode_block
  show ?thesis by (simp add: file_inode_ram_def sqfs_meta_block_pos_def sqfs_meta_block_offset_def)
qed

lemma fs_root_fields:
  "i_type root_inode_ram = SQFS_INODE_DIR" "dir_block_idx root_inode_ram = 0" "dir_block_offset root_inode_ram = 0"
  "dir_size root_inode_ram = 21"
  by (simp_all add: root_inode_ram_def root_di_def inode_common_def new_inode_def union_defs)

lemma fs_file_fields:
  "i_type file_inode_ram = SQFS_INODE_FILE" "file_file_size file_inode_ram = 4" "i_uid file_inode_ram = 1"
  "file_blocks_start file_inode_ram = 189" "file_frag_idx file_inode_ram = 0xFFFFFFFF"
  "file_block_offset file_inode_ram = 0" "file_sparse file_inode_ram = 0"
  "i_block_sizes file_inode_ram = Some [0x1000004]"
  by (simp_all add: file_inode_ram_def file_di_def inode_common_def new_inode_def union_defs)

lemma fs_dir_read: "sqfs_dir_read mem_ok fs_ctx root_inode_ram
  = Inr [\<lparr>d_name = [97, 0], d_inode_number = 2, d_inode_ref = 32, d_type = SQFS_INODE_FILE\<rparr>]"
proof -
  have "sqfs_dir_read mem_ok fs_ctx root_inode_ram = Inr (listing_dirents root_listing)"
  proof (rule dir_read_stored [OF mem_ok_pos, where sbs = "[Raw (encode_listing root_listing)]"
        and pre = "put_superblock fs_superblock @ block_bytes (Raw (encode_inode root_di @ encode_inode file_di))" and post = "[1, 2, 3, 4]"
        and bef = "[]" and aft = "[]"])
    show "reliable (sb_fd (ctx_sb fs_ctx))" by (simp add: fs_reliable)
    show "\<forall>g \<in> set root_listing. group_wf g" by (simp add: root_listing_def group_wf_def item_wf_def)
  qed (simp_all add: fs_file_def fs_root_fields sqfs_inode_is_dir_def)
  then show ?thesis
    by (simp add: listing_dirents_def root_listing_def item_dirent_def sqfs_make_meta_ref_def)
qed

lemma fs_tree_stored: "tree_stored mem_ok fs_ctx 0 fs_tree"
proof -
  have "tree_stored mem_ok fs_ctx 32 (Node file_inode_ram [])"
    by (rule stored_leaf) (simp_all add: fs_file_inode fs_file_fields sqfs_inode_is_dir_def sqfs_inode_free_def
        sqfs_inode_is_symlink_def)
  with stored_dir [OF fs_root _ fs_dir_read, of "[([97], Node file_inode_ram [])]"] show ?thesis
    by (simp add: fs_tree_def fs_root_fields sqfs_inode_is_dir_def c_str_def)
qed

definition fs_fc :: sqfs_file_ctx where
  "fs_fc = \<lparr>fc_file_size = 4, fc_current_offset = 0, fc_blocks_start = 189, fc_block_size = 4096,
     fc_block_count = 1, fc_tail_size = 4, fc_frag_idx = SQFS_FRAGMENT_NONE, fc_frag_offset = 0, fc_sparse_bytes = 0,
     fc_block_sizes = Some [0x1000004]\<rparr>"

lemma fs_fc_init: "sqfs_file_ctx_init (ctx_sb fs_ctx) file_inode_ram = Inr fs_fc"
  by (simp add: sqfs_file_ctx_init_def calculate_block_layout_def fs_file_fields
      sqfs_inode_is_file_def zero_file_ctx_def fs_fc_def sqfs_fragment_is_none_def SQFS_FRAGMENT_NONE_def)

lemma fs_content_stored: "file_stored mem [189 \<mapsto> [1, 2, 3, 4]] fs_ctx fs_fc [1, 2, 3, 4]"
proof -
  have len: "length (put_superblock fs_superblock @ block_bytes (Raw (encode_inode root_di @ encode_inode file_di))
      @ block_bytes (Raw (encode_listing root_listing))) = 189" by simp
  have "sqfs_pread_all fs_file 4 189 = Inr [1, 2, 3, 4]"
    using reliable_pread [OF fs_reliable, of 189 4] len by (simp add: fs_file_def segment_def)
  then have "block_stored mem [189 \<mapsto> [1, 2, 3, 4]] fs_ctx fs_fc 0 [1, 2, 3, 4]"
    by (simp add: block_stored_def fs_fc_def fc_blocks_def block_pos_of_def sqfs_data_block_cache_key_def
        sqfs_data_read_block_def sqfs_block_size_get_def sqfs_block_is_uncompressed_def read_block_from_disk_def)
  then show ?thesis
    by (simp add: file_stored_def fs_fc_def fc_blocks_def sqfs_fragment_is_none_def segment_def)
qed

lemma fs_coherent: "coherent K fs_ctx"
  using small_coherent [of K] by (simp add: coherent_def)

section \<open>Reading what was opened\<close>

lemma vfs_read_ok:
  assumes init: "sqfs_file_ctx_init (ctx_sb ctx) i = Inr fc" and fs: "file_stored (h_mem E) K ctx fc content"
    and coh: "coherent K ctx" and mem: "\<forall>k. h_mem E k \<noteq> 0" and sum: "unat offset + unat sz < 2 ^ 64"
  shows "\<exists>ctx'. sqfs_vfs_read E \<lparr>fh_inode = Some i, fh_file_size = file_file_size i\<rparr> sz offset ctx
      = Some (Inr (segment content (unat offset) (unat sz)), ctx') \<and> coherent K ctx' \<and> same_ctx ctx ctx'"
proof -
  have size: "length content = unat (file_file_size i)"
    using file_storedD(1) [OF fs] file_ctx_init_fields(2) [OF init] by simp
  show ?thesis
  proof (cases "file_file_size i \<le> offset")
    case True
    then have "segment content (unat offset) (unat sz) = []" by (simp add: segment_def size word_le_nat_alt)
    with True coh show ?thesis by (simp add: sqfs_vfs_read_def)
  next
    case False
    define n where "n = (if file_file_size i < offset + sz then file_file_size i - offset else sz)"
    have un: "unat (offset + sz) = unat offset + unat sz" using sum by (simp add: unat_word_ariths(1))
    have n: "unat n = min (unat sz) (length content - unat offset)"
      using False un by (auto simp: n_def size min_def word_less_nat_alt word_le_nat_alt unat_sub_if')
    then have bytes: "segment content (unat offset) (unat n) = segment content (unat offset) (unat sz)"
      by (simp add: segment_def take_all_iff min_def)
    have "unat offset + unat n < 2 ^ 64" using n sum by simp
    from data_read_ok [OF init fs coh mem this] bytes obtain ctx' where
      "sqfs_data_read E i offset n ctx = Some (Inr (segment content (unat offset) (unat sz)), ctx')"
      "coherent K ctx'" "same_ctx ctx ctx'" by auto
    with False show ?thesis by (simp add: sqfs_vfs_read_def Let_def n_def cong: if_cong)
  qed
qed

section \<open>What an operation depends on\<close>

text \<open>Looking inodes up and reading directories depend on the superblock and the compressor only.\<close>

definition same_image :: "sqfs_ctx \<Rightarrow> sqfs_ctx \<Rightarrow> bool" where
  "same_image a b \<longleftrightarrow> ctx_sb a = ctx_sb b \<and> ctx_comp a = ctx_comp b"

lemma get_by_ref_cong:
  assumes "same_image a b"
  shows "sqfs_inode_get_by_ref mem a = sqfs_inode_get_by_ref mem b"
proof -
  have 1: "read_inode_metadata mem a = read_inode_metadata mem b"
    using assms by (simp add: fun_eq_iff same_image_def read_inode_metadata_def)
  have bs: "block_size (disk (ctx_sb a)) = block_size (disk (ctx_sb b))" using assms by (simp add: same_image_def)
  have 2: "inode_disk_size mem a = inode_disk_size mem b"
    by (simp only: fun_eq_iff inode_disk_size_def 1 bs simp_thms)
  show ?thesis by (simp only: fun_eq_iff sqfs_inode_get_by_ref_def 1 2 bs simp_thms)
qed

lemma dir_read_cong: "same_image a b \<Longrightarrow> sqfs_dir_read mem a = sqfs_dir_read mem b"
  by (simp add: fun_eq_iff same_image_def sqfs_dir_read_def)

lemma walk_cong:
  assumes "same_image a b"
  shows "walk_components mem a rest i = walk_components mem b rest i"
proof (induction "length rest" arbitrary: rest i rule: less_induct)
  case less
  show ?case
  proof (cases "strtok_r rest")
    case None
    then show ?thesis by (simp add: walk_components.simps)
  next
    case (Some p)
    obtain w rest' where p: "p = (w, rest')" by (cases p)
    have rec: "walk_components mem a rest' = walk_components mem b rest'"
      using less strtok_shorter [of rest w rest'] Some p by (simp add: fun_eq_iff)
    show ?thesis
      by (subst (1 2) walk_components.simps)
        (simp only: Some p option.case prod.case get_by_ref_cong [OF assms] dir_read_cong [OF assms] rec)
  qed
qed

lemma resolve_cong:
  assumes "same_image a b"
  shows "sqfs_vfs_resolve_path mem a path = sqfs_vfs_resolve_path mem b path"
proof -
  have "walk_components mem a = walk_components mem b" using walk_cong [OF assms] by (simp add: fun_eq_iff)
  moreover have "root_inode (disk (ctx_sb a)) = root_inode (disk (ctx_sb b))" using assms by (simp add: same_image_def)
  ultimately show ?thesis by (simp only: sqfs_vfs_resolve_path_def get_by_ref_cong [OF assms])
qed

lemma fill_attr_cong: "same_image a b \<Longrightarrow> sqfs_vfs_fill_attr a i = sqfs_vfs_fill_attr b i"
  by (simp add: same_image_def sqfs_vfs_fill_attr_def)

lemma same_ctx_image: "same_ctx a b \<Longrightarrow> same_image a b"
  by (auto simp: same_ctx_def same_image_def)

section \<open>Properties\<close>

text \<open>C9: path resolution is the look-up in the stored tree. For an image that stores a tree
  of inodes, in whatever encoding, and an absolute path, \<open>sqfs_vfs_resolve_path\<close> returns the inode at
  the components of the path (the non-empty pieces between slashes), ENOENT when a directory has no child of
  that name, ENOTDIR when a component before the last is not a directory, and nothing else.\<close>

theorem resolve_path_refines:
  assumes "tree_stored mem ctx (root_inode (disk (ctx_sb ctx))) t" and "\<forall>k. mem k \<noteq> 0"
  shows "sqfs_vfs_resolve_path mem ctx (47 # rest)
    = (case node_at t (path_components rest) of Inl e \<Rightarrow> Inl (Err e) | Inr n \<Rightarrow> Inr (node_inode n))"
  using assms by (rule resolve_stored)

theorem resolve_path_refines_witness:
  "sqfs_vfs_resolve_path mem_ok fs_ctx [47, 47, 97, 47] = Inr file_inode_ram
   \<and> sqfs_vfs_resolve_path mem_ok fs_ctx [47, 98] = Inl (Err ENOENT)
   \<and> sqfs_vfs_resolve_path mem_ok fs_ctx [47, 97, 47, 97] = Inl (Err ENOTDIR)"
proof -
  have t: "tree_stored mem_ok fs_ctx (root_inode (disk (ctx_sb fs_ctx))) fs_tree" by (simp add: fs_tree_stored)
  note r = resolve_path_refines [OF t mem_ok_pos]
  from r [of "[47, 97, 47]"] r [of "[98]"] r [of "[97, 47, 97]"] show ?thesis
    by (simp add: path_components_def fs_tree_def fs_root_fields fs_file_fields sqfs_inode_is_dir_def)
qed

text \<open>C13: opening a file by its path and reading gives its content. The path leads to a regular file of the stored
  tree whose blocks and tail are stored under the keys of a map \<open>K\<close>; the data cache is initialised and coherent: all it
  holds is what \<open>K\<close> has for the key (so no position of a block equals the index of a fragment with other content,
  C37); and the allocations succeed, but for those of the cache entries. Then \<open>sqfs_vfs_open\<close> succeeds, and a read through the handle, of any size
  an \<open>int\<close> holds and at any offset with an end below \<open>2\<^sup>6\<^sup>4\<close>, ends with exactly the requested part of the content, and leaves the cache
  coherent.\<close>

theorem open_read_correct:
  assumes t: "tree_stored (h_mem E) ctx (root_inode (disk (ctx_sb ctx))) t" and mem: "\<forall>k. h_mem E k \<noteq> 0"
    and n: "node_at t (path_components rest) = Inr n"
    and init: "sqfs_file_ctx_init (ctx_sb ctx) (node_inode n) = Inr fc"
    and fs: "file_stored (h_mem E) K ctx fc content" and coh: "coherent K ctx"
    and sum: "unat offset + unat sz < 2 ^ 64" and "unat sz < 2 ^ 31"
  shows "\<exists>fh ctx'. sqfs_vfs_open (h_mem E) ctx (47 # rest) = Inr fh
    \<and> sqfs_vfs_read E fh sz offset ctx = Some (Inr (segment content (unat offset) (unat sz)), ctx')
    \<and> coherent K ctx' \<and> same_ctx ctx ctx'"
proof -
  have "sqfs_vfs_resolve_path (h_mem E) ctx (47 # rest) = Inr (node_inode n)"
    using resolve_stored [OF t mem] n by simp
  with file_ctx_init_fields(1) [OF init] mem have
    "sqfs_vfs_open (h_mem E) ctx (47 # rest)
      = Inr \<lparr>fh_inode = Some (node_inode n), fh_file_size = file_file_size (node_inode n)\<rparr>"
    by (simp add: sqfs_vfs_open_def sqfs_malloc_def)
  with vfs_read_ok [OF init fs coh mem sum] show ?thesis by blast
qed

theorem open_read_correct_witness:
  "\<exists>fh ctx'. sqfs_vfs_open mem_ok fs_ctx [47, 97] = Inr fh
    \<and> sqfs_vfs_read small_heap fh 100 1 fs_ctx = Some (Inr [2, 3, 4], ctx')"
proof -
  have t: "tree_stored (h_mem small_heap) fs_ctx (root_inode (disk (ctx_sb fs_ctx))) fs_tree" by (simp add: fs_tree_stored)
  have n: "node_at fs_tree (path_components [97]) = Inr (Node file_inode_ram [])"
    by (simp add: path_components_def fs_tree_def fs_root_fields sqfs_inode_is_dir_def)
  have st: "file_stored (h_mem small_heap) [189 \<mapsto> [1, 2, 3, 4]] fs_ctx fs_fc [1, 2, 3, 4]" by (simp add: fs_content_stored)
  have init: "sqfs_file_ctx_init (ctx_sb fs_ctx) (node_inode (Node file_inode_ram [])) = Inr fs_fc" by (simp add: fs_fc_init)
  have mem: "\<forall>k. h_mem small_heap k \<noteq> 0" using mem_ok_pos by simp
  from open_read_correct [OF t mem n init st fs_coherent, of 1 100] show ?thesis
    by (auto simp: segment_def)
qed

text \<open>Owners are not translated. The attributes of a file do not depend on the table of user and
  group ids that is loaded at start: \<open>sqfs_vfs_getattr\<close> reports the 16-bit table indices of the inode as
  user and group id.\<close>

theorem getattr_ignores_id_table:
  "sqfs_vfs_getattr mem (ctx\<lparr>ctx_id_table := ids, ctx_id_count := n\<rparr>) path = sqfs_vfs_getattr mem ctx path
   \<and> (case sqfs_vfs_getattr mem ctx path of Inl e \<Rightarrow> True
      | Inr attr \<Rightarrow> \<exists>i. sqfs_vfs_resolve_path mem ctx path = Inr i
          \<and> at_uid attr = ucast (i_uid i) \<and> at_gid attr = ucast (i_gid i))"
proof -
  have img: "same_image (ctx\<lparr>ctx_id_table := ids, ctx_id_count := n\<rparr>) ctx" by (simp add: same_image_def)
  have "at_uid (sqfs_vfs_fill_attr ctx i) = ucast (i_uid i) \<and> at_gid (sqfs_vfs_fill_attr ctx i) = ucast (i_gid i)" for i
    by (simp add: sqfs_vfs_fill_attr_def Let_def)
  then show ?thesis
    unfolding sqfs_vfs_getattr_def resolve_cong [OF img] fill_attr_cong [OF img]
    by (auto simp: rbind_eq_Inr_iff split: sum.split)
qed

text \<open>The two translations of error codes into errno, \<open>sqfs_err_to_errno\<close> of the file system
  operations and \<open>sqfs_errno\<close> of the utilities, agree on every code but one: a buffer that is too small
  for an attribute (\<open>SQFS_ERR_OVERFLOW\<close>) becomes an I/O error instead of EOVERFLOW.\<close>

theorem err_to_errno_differs:
  "sqfs_err_to_errno e \<noteq> sqfs_errno e \<longleftrightarrow> e = Some SQFS_ERR_OVERFLOW"
proof (cases e)
  case (Some x)
  then show ?thesis by (cases x) (simp_all add: sqfs_err_to_errno_def)
qed (simp add: sqfs_err_to_errno_def)

end
