(* ===== verification/FuseMain.thy ===== *)
theory FuseMain
  imports VfsTree
begin

text \<open>
  \<open>src/fuse/fuse_main.c\<close>: the command line, the table of ids, the creation and the destruction of
  the context of a mount. Messages to the terminal and the log are left out. Outcomes of the
  process's environment are parameters: opening the image, the allocations, the creation of the
  caches' locks and tables.
\<close>

definition DEFAULT_CACHE_SIZE_MB :: u64 where "DEFAULT_CACHE_SIZE_MB = 32"

section \<open>The table of ids\<close>

fun get_u32s :: "byte list \<Rightarrow> nat \<Rightarrow> nat \<Rightarrow> u32 list res" where
  "get_u32s data off 0 = Inr []"
| "get_u32s data off (Suc n) =
     rbind (get_le32 data off) (\<lambda>x. rbind (get_u32s data (off + 4) n) (\<lambda>xs. Inr (x # xs)))"

text \<open>One position is read for every id, although a block holds 2048 ids; only the first block is
  used. The model's table holds the ids that are copied; the rest of the array is not written. The ids are
  copied as memory, without a conversion: they are the format's ids on the little-endian host of the model.\<close>

definition load_id_table :: "allocator \<Rightarrow> unit op" where
  "load_id_table mem ctx =
     (let id_table_pos = id_table (disk (ctx_sb ctx)); n = unat (id_count (disk (ctx_sb ctx))) in
      if n = 0 then Some (Inr (), ctx\<lparr>ctx_id_table := None, ctx_id_count := 0\<rparr>)
      else if sqfs_malloc mem (n * 8) = 0 then Some (Inl (Err SQFS_ERR_NO_MEMORY), ctx)
      else case sqfs_pread_all (sb_fd (ctx_sb ctx)) (n * 8) id_table_pos of
          Inl e \<Rightarrow> Some (Inl e, ctx)
        | Inr pos_table \<Rightarrow>
            if sqfs_malloc mem (n * 4) = 0 then Some (Inl (Err SQFS_ERR_NO_MEMORY), ctx\<lparr>ctx_id_table := None\<rparr>)
            else let ctx = ctx\<lparr>ctx_id_count := n\<rparr> in
              if sqfs_malloc mem SQFS_META_BLOCK_SIZE = 0
              then Some (Inl (Err SQFS_ERR_NO_MEMORY), ctx\<lparr>ctx_id_table := None\<rparr>)
              else case rbind (get_le64 pos_table 0) (\<lambda>first_block_pos.
                  rbind (sqfs_meta_read_block mem (sb_fd (ctx_sb ctx)) first_block_pos (ctx_comp ctx)) (\<lambda>b.
                    get_u32s b 0 (if n * 4 < length b then n else length b div 4))) of
                  Inl e \<Rightarrow> Some (Inl e, ctx\<lparr>ctx_id_table := None\<rparr>)
                | Inr ids \<Rightarrow> Some (Inr (), ctx\<lparr>ctx_id_table := Some ids\<rparr>))"

section \<open>The context\<close>

text \<open>\<open>sqfs_cache_init\<close> reports its failures as \<open>-1\<close>, which is none of the program's codes.\<close>

datatype init_error = Init_sqfs sqfs_error | Init_minus_one

definition zero_ctx :: "sqfs_superblock \<Rightarrow> sqfs_compressor option \<Rightarrow> bool \<Rightarrow> sqfs_ctx" where
  "zero_ctx sb cmp no_cache = \<lparr>ctx_sb = sb, ctx_comp = cmp, ctx_inode_cache = zero_cache,
     ctx_dir_cache = zero_cache, ctx_meta_cache = zero_cache, ctx_data_cache = zero_cache,
     ctx_id_table = None, ctx_id_count = 0, ctx_fragment_table = None, ctx_fragment_table_loaded = False,
     ctx_xattr_table = None, ctx_no_cache = no_cache, ctx_debug_level = 0\<rparr>"

text \<open>The four caches share the size the user asked for. The environment \<open>env\<close> gives, for each, the
  outcomes of creating its lock and its table. A failure leaves the caches created so far.\<close>

definition init_caches :: "(nat \<Rightarrow> bool \<times> bool) \<Rightarrow> u64 \<Rightarrow> sqfs_ctx \<Rightarrow> bool \<times> sqfs_ctx" where
  "init_caches env cache_size_mb ctx =
     (let total_cache = cache_size_mb * 1024 * 1024 in
      case sqfs_cache_init (fst (env 0)) (snd (env 0)) CACHE_INODE_MAX_ENTRIES (total_cache div 8) True of
        Inl _ \<Rightarrow> (False, ctx)
      | Inr c \<Rightarrow> let ctx = ctx\<lparr>ctx_inode_cache := c\<rparr> in
      case sqfs_cache_init (fst (env 1)) (snd (env 1)) CACHE_DIR_MAX_ENTRIES (total_cache div 16) False of
        Inl _ \<Rightarrow> (False, ctx)
      | Inr c \<Rightarrow> let ctx = ctx\<lparr>ctx_dir_cache := c\<rparr> in
      case sqfs_cache_init (fst (env 2)) (snd (env 2)) CACHE_META_MAX_ENTRIES (total_cache div 4) False of
        Inl _ \<Rightarrow> (False, ctx)
      | Inr c \<Rightarrow> let ctx = ctx\<lparr>ctx_meta_cache := c\<rparr> in
      case sqfs_cache_init (fst (env 3)) (snd (env 3)) CACHE_DATA_MAX_ENTRIES (total_cache div 2) True of
        Inl _ \<Rightarrow> (False, ctx)
      | Inr c \<Rightarrow> (True, ctx\<lparr>ctx_data_cache := c\<rparr>))"

definition destroy_caches :: "sqfs_ctx \<Rightarrow> sqfs_ctx lres" where
  "destroy_caches ctx =
     lbind (sqfs_cache_destroy (ctx_inode_cache ctx)) (\<lambda>ci.
     lbind (sqfs_cache_destroy (ctx_dir_cache ctx)) (\<lambda>cd.
     lbind (sqfs_cache_destroy (ctx_meta_cache ctx)) (\<lambda>cm.
     lbind (sqfs_cache_destroy (ctx_data_cache ctx)) (\<lambda>cb.
       Some (Inr (ctx\<lparr>ctx_inode_cache := ci, ctx_dir_cache := cd, ctx_meta_cache := cm, ctx_data_cache := cb\<rparr>))))))"

text \<open>The label \<open>error\<close>: the caches are destroyed, the compressor and the superblock freed, the code
  is returned. The tables are not freed.\<close>

definition init_failed :: "bool \<Rightarrow> sqfs_ctx \<Rightarrow> init_error \<Rightarrow> (init_error failure + sqfs_ctx) option" where
  "init_failed no_cache ctx e =
     (if no_cache then Some (Inl (Err e))
      else case destroy_caches ctx of
          None \<Rightarrow> None
        | Some (Inl (Fault f)) \<Rightarrow> Some (Inl (Fault f))
        | Some _ \<Rightarrow> Some (Inl (Err e)))"

text \<open>The fragment table is allocated with 16 bytes; if it cannot be loaded the mount goes on.\<close>

definition init_fragments :: "allocator \<Rightarrow> sqfs_ctx \<Rightarrow> (init_error failure + sqfs_ctx) option" where
  "init_fragments mem ctx =
     (case sqfs_fragment_table_load mem (ctx\<lparr>ctx_fragment_table := Some sqfs_fragment_table_init\<rparr>) of
        None \<Rightarrow> None
      | Some (Inl (Fault f), ctx) \<Rightarrow> Some (Inl (Fault f))
      | Some (Inl (Err e), ctx) \<Rightarrow> Some (Inr (ctx\<lparr>ctx_fragment_table_loaded := False\<rparr>))
      | Some (Inr _, ctx) \<Rightarrow> Some (Inr (ctx\<lparr>ctx_fragment_table_loaded := True\<rparr>)))"

definition SIZEOF_superblock :: nat where "SIZEOF_superblock = 128"
definition SIZEOF_fragment_table :: nat where "SIZEOF_fragment_table = 16"

text \<open>What follows the creation of the superblock and the compressor.\<close>

definition init_tables ::
  "allocator \<Rightarrow> (nat \<Rightarrow> bool \<times> bool) \<Rightarrow> u64 \<Rightarrow> bool \<Rightarrow> sqfs_ctx \<Rightarrow> (init_error failure + sqfs_ctx) option" where
  "init_tables mem env cache_size_mb no_cache ctx =
     (case (if no_cache then (True, ctx) else init_caches env cache_size_mb ctx) of
        (False, ctx) \<Rightarrow> init_failed no_cache ctx Init_minus_one
      | (True, ctx) \<Rightarrow>
          (case load_id_table mem ctx of
             None \<Rightarrow> None
           | Some (Inl (Fault f), ctx) \<Rightarrow> Some (Inl (Fault f))
           | Some (Inl (Err e), ctx) \<Rightarrow> init_failed no_cache ctx (Init_sqfs e)
           | Some (Inr _, ctx) \<Rightarrow>
               if \<not> has_fragments (ctx_sb ctx) then Some (Inr ctx)
               else if sqfs_malloc mem SIZEOF_fragment_table = 0
               then init_failed no_cache ctx (Init_sqfs SQFS_ERR_NO_MEMORY)
               else init_fragments mem ctx))"

definition init_context ::
  "codec_lib \<Rightarrow> allocator \<Rightarrow> (nat \<Rightarrow> bool \<times> bool) \<Rightarrow> os_file \<Rightarrow> u64 \<Rightarrow> bool \<Rightarrow> sqfs_stats
   \<Rightarrow> (init_error failure + sqfs_ctx) option \<times> sqfs_stats" where
  "init_context lib mem env fd cache_size_mb no_cache g =
     (if sqfs_malloc mem SIZEOF_superblock = 0 then (Some (Inl (Err (Init_sqfs SQFS_ERR_NO_MEMORY))), g)
      else case sqfs_superblock_load fd g of
          (Inl (Err e), g) \<Rightarrow> (Some (Inl (Err (Init_sqfs e))), g)
        | (Inl (Fault f), g) \<Rightarrow> (Some (Inl (Fault f)), g)
        | (Inr sb, g) \<Rightarrow>
            (case sqfs_compressor_create lib mem (compressor (disk sb)) of
               None \<Rightarrow> (Some (Inl (Err (Init_sqfs SQFS_ERR_BAD_COMP))), g)
             | Some c \<Rightarrow> (init_tables mem env cache_size_mb no_cache (zero_ctx sb (Some c) no_cache), g)))"

definition destroy_context :: "sqfs_ctx \<Rightarrow> sqfs_ctx lres" where
  "destroy_context ctx =
     (let ctx = ctx\<lparr>ctx_id_table := None\<rparr> in
      lbind (if ctx_no_cache ctx then Some (Inr ctx) else destroy_caches ctx) (\<lambda>ctx.
        Some (Inr (ctx\<lparr>ctx_comp := None\<rparr>))))"

section \<open>The command line\<close>

text \<open>\<open>atoi\<close> on the range where it is defined: a sign and the digits at the beginning.\<close>

fun digits_value :: "string \<Rightarrow> int \<Rightarrow> int" where
  "digits_value [] acc = acc"
| "digits_value (c # s) acc =
     (let d = int (of_char c) - 48 in if 0 \<le> d \<and> d \<le> 9 then digits_value s (acc * 10 + d) else acc)"

definition atoi :: "string \<Rightarrow> int" where
  "atoi s =
     (let s = dropWhile (\<lambda>c. c = CHR '' '' \<or> (9 \<le> (of_char c :: nat) \<and> (of_char c :: nat) \<le> 13)) s
      in case s of
          [] \<Rightarrow> 0
        | c # r \<Rightarrow> if c = CHR ''-'' then - digits_value r 0
                  else if c = CHR ''+'' then digits_value r 0 else digits_value s 0)"

definition starts_with :: "string \<Rightarrow> string \<Rightarrow> bool" where
  "starts_with p s \<longleftrightarrow> take (length p) s = p"

record main_options =
  o_image :: "string option"
  o_mount :: "string option"
  o_cache_size_mb :: u64
  o_no_cache :: bool

datatype parsed = Show_usage | Show_version | Parsed main_options

text \<open>A copied argument; the copy may fail.\<close>

definition strdup :: "allocator \<Rightarrow> string \<Rightarrow> string option" where
  "strdup mem s = (if mem (length s + 1) = 0 then None else Some s)"

text \<open>The comparisons of an argument.\<close>

definition is_nocache :: "string \<Rightarrow> bool" where "is_nocache a \<longleftrightarrow> a = ''--nocache''"
definition is_cache_size :: "string \<Rightarrow> bool" where "is_cache_size a \<longleftrightarrow> starts_with ''--cache-size='' a"
definition is_help :: "string \<Rightarrow> bool" where "is_help a \<longleftrightarrow> a = ''-h'' \<or> a = ''--help''"
definition is_version :: "string \<Rightarrow> bool" where "is_version a \<longleftrightarrow> a = ''-V'' \<or> a = ''--version''"
definition is_log :: "string \<Rightarrow> bool" where "is_log a \<longleftrightarrow> a = ''-l'' \<or> a = ''--log''"
definition is_log_path :: "string \<Rightarrow> bool" where "is_log_path a \<longleftrightarrow> starts_with ''-l'' a \<and> 2 < length a"
definition is_word :: "string \<Rightarrow> bool" where "is_word a \<longleftrightarrow> a = [] \<or> hd a \<noteq> CHR ''-''"

lemmas arg_defs = is_nocache_def is_cache_size_def is_help_def is_version_def is_log_def is_log_path_def
  is_word_def starts_with_def

text \<open>The first pass.\<close>

fun parse_args :: "allocator \<Rightarrow> string list \<Rightarrow> main_options \<Rightarrow> parsed" where
  "parse_args mem [] opts = Parsed opts"
| "parse_args mem (a # as) opts =
     (if is_nocache a then parse_args mem as (opts\<lparr>o_no_cache := True\<rparr>)
      else if is_cache_size a then parse_args mem as (opts\<lparr>o_cache_size_mb := of_int (atoi (drop 13 a))\<rparr>)
      else if is_help a then Show_usage
      else if is_version a then Show_version
      else if is_log a then parse_args mem (drop 1 as) opts
      else if is_log_path a then parse_args mem as opts
      else if is_word a then
        (if o_image opts = None then parse_args mem as (opts\<lparr>o_image := strdup mem a\<rparr>)
         else if o_mount opts = None then parse_args mem as (opts\<lparr>o_mount := strdup mem a\<rparr>)
         else parse_args mem as opts)
      else parse_args mem as opts)"

text \<open>The second pass: what is handed on to FUSE.\<close>

fun fuse_args :: "string \<Rightarrow> string list \<Rightarrow> string list" where
  "fuse_args img [] = []"
| "fuse_args img (a # as) =
     (if is_nocache a \<or> is_cache_size a then fuse_args img as
      else if is_log a then fuse_args img (drop 1 as)
      else if is_log_path a then fuse_args img as
      else if a = img then fuse_args img as
      else a # fuse_args img as)"

datatype main_outcome = Exit int | Run_fuse "string list" sqfs_ctx | Crash fault

definition main ::
  "codec_lib \<Rightarrow> allocator \<Rightarrow> (nat \<Rightarrow> bool \<times> bool) \<Rightarrow> (string \<Rightarrow> os_file option) \<Rightarrow> string \<Rightarrow> string list \<Rightarrow> sqfs_stats
   \<Rightarrow> main_outcome option" where
  "main lib mem env open_image argv0 argv g =
     (case parse_args mem argv \<lparr>o_image = None, o_mount = None, o_cache_size_mb = DEFAULT_CACHE_SIZE_MB,
         o_no_cache = False\<rparr> of
        Show_usage \<Rightarrow> Some (Exit 0)
      | Show_version \<Rightarrow> Some (Exit 0)
      | Parsed opts \<Rightarrow>
          (case o_image opts of
             None \<Rightarrow> Some (Exit 1)
           | Some img \<Rightarrow>
               if o_mount opts = None then Some (Exit 1)
               else case open_image img of
                   None \<Rightarrow> Some (Exit 1)
                 | Some fd \<Rightarrow>
                     (case fst (init_context lib mem env fd (o_cache_size_mb opts) (o_no_cache opts) g) of
                        None \<Rightarrow> None
                      | Some (Inl (Fault f)) \<Rightarrow> Some (Crash f)
                      | Some (Inl (Err e)) \<Rightarrow> Some (Exit 1)
                      | Some (Inr ctx) \<Rightarrow>
                          Some (Run_fuse (argv0 # fuse_args img argv @ [''-oro'', ''-onosuid'', ''-onodev'']) ctx))))"

end
