(* ===== verification/Fuse.thy ===== *)
theory Fuse
  imports FuseMain
begin

text \<open>
  \<open>src/fuse/vfs_fuse.c\<close>: the callbacks FUSE calls, each a conversion around an operation of the
  file system, and a session: the callbacks that change state, in any order. FUSE passes the
  context and the file handle that the callback for opening has stored.
\<close>

section \<open>Attributes\<close>

record fuse_stat =
  st_ino :: u64
  st_mode :: u32
  st_nlink :: u64
  st_uid :: u32
  st_gid :: u32
  st_size :: u64
  st_blksize :: u64
  st_blocks :: u64
  st_mtime :: u64
  st_ctime :: u64
  st_atime :: u64
  st_rdev :: u64

definition S_ISBLK :: "u32 \<Rightarrow> bool" where "S_ISBLK m \<longleftrightarrow> m AND 0xF000 = 0x6000"
definition S_ISCHR :: "u32 \<Rightarrow> bool" where "S_ISCHR m \<longleftrightarrow> m AND 0xF000 = 0x2000"

text \<open>\<open>makedev\<close> of the C library.\<close>

definition makedev :: "u32 \<Rightarrow> u32 \<Rightarrow> u64" where
  "makedev major minor =
     push_bit 32 (ucast major AND 0xFFFFF000) OR push_bit 8 (ucast major AND 0x00000FFF)
     OR push_bit 12 (ucast minor AND 0xFFFFFF00) OR (ucast minor AND 0x000000FF)"

definition stat_of_attr :: "sqfs_vfs_attr \<Rightarrow> fuse_stat" where
  "stat_of_attr attr =
     \<lparr>st_ino = at_ino attr, st_mode = at_mode attr, st_nlink = ucast (at_nlink attr), st_uid = at_uid attr,
      st_gid = at_gid attr, st_size = at_size attr, st_blksize = ucast (at_blksize attr),
      st_blocks = at_blocks attr, st_mtime = at_mtime attr, st_ctime = at_ctime attr, st_atime = at_atime attr,
      st_rdev = (if S_ISBLK (at_mode attr) \<or> S_ISCHR (at_mode attr)
                 then makedev (at_rdev_major attr) (at_rdev_minor attr) else 0)\<rparr>"

definition sqfs_fuse_getattr :: "allocator \<Rightarrow> sqfs_ctx \<Rightarrow> byte list \<Rightarrow> fuse_stat cres" where
  "sqfs_fuse_getattr mem ctx path =
     rbind (sqfs_vfs_getattr mem ctx path) (\<lambda>attr. Inr (stat_of_attr attr))"

section \<open>Directories\<close>

text \<open>The calls of the filler: name, inode number and type; its result is ignored.\<close>

definition sqfs_fuse_readdir :: "allocator \<Rightarrow> sqfs_ctx \<Rightarrow> byte list \<Rightarrow> (byte list \<times> u64 \<times> u32) list cres" where
  "sqfs_fuse_readdir mem ctx path =
     rbind (sqfs_vfs_readdir mem ctx path) (\<lambda>entries.
       Inr (map (\<lambda>e. (c_str (ve_name e), ve_ino e, ve_type e)) entries))"

section \<open>Files\<close>

definition sqfs_fuse_open :: "allocator \<Rightarrow> sqfs_ctx \<Rightarrow> byte list \<Rightarrow> sqfs_vfs_fh cres" where
  "sqfs_fuse_open mem ctx path = sqfs_vfs_open mem ctx path"

definition sqfs_fuse_read ::
  "heap_env \<Rightarrow> sqfs_vfs_fh option \<Rightarrow> u64 \<Rightarrow> u64 \<Rightarrow> sqfs_ctx \<Rightarrow> (byte list cres \<times> sqfs_ctx) option" where
  "sqfs_fuse_read E fh sz offset ctx =
     (case fh of
        None \<Rightarrow> Some (Inl (Err EINVAL), ctx)
      | Some h \<Rightarrow> sqfs_vfs_read E h sz offset ctx)"

definition sqfs_fuse_release :: "sqfs_vfs_fh option \<Rightarrow> unit cres" where
  "sqfs_fuse_release fh = sqfs_vfs_release fh"

section \<open>The others\<close>

definition sqfs_fuse_readlink :: "allocator \<Rightarrow> sqfs_ctx \<Rightarrow> byte list \<Rightarrow> nat \<Rightarrow> byte list cres" where
  "sqfs_fuse_readlink mem ctx path sz = sqfs_vfs_readlink mem ctx path sz"

record fuse_statvfs =
  f_bsize :: u64
  f_frsize :: u64
  f_blocks :: u64
  f_bfree :: u64
  f_bavail :: u64
  f_files :: u64
  f_ffree :: u64
  f_favail :: u64
  f_fsid :: u64
  f_flag :: u64
  f_namemax :: u64

definition sqfs_fuse_statfs :: "sqfs_ctx \<Rightarrow> fuse_statvfs cres" where
  "sqfs_fuse_statfs ctx =
     rbind (sqfs_vfs_statfs ctx) (\<lambda>s.
       Inr \<lparr>f_bsize = sf_bsize s, f_frsize = sf_frsize s, f_blocks = sf_blocks s, f_bfree = 0, f_bavail = 0,
          f_files = sf_files s, f_ffree = 0, f_favail = 0, f_fsid = ucast (sf_fsid s),
          f_flag = ucast (sf_flags s), f_namemax = ucast (sf_namemax s)\<rparr>)"

definition sqfs_fuse_getxattr ::
  "allocator \<Rightarrow> sqfs_ctx \<Rightarrow> byte list \<Rightarrow> byte list \<Rightarrow> nat option \<Rightarrow> (byte list \<times> nat) cres" where
  "sqfs_fuse_getxattr mem ctx path name buf = sqfs_vfs_getxattr mem ctx path name buf"

definition sqfs_fuse_listxattr ::
  "allocator \<Rightarrow> sqfs_ctx \<Rightarrow> byte list \<Rightarrow> nat option \<Rightarrow> (byte list \<times> nat) cres" where
  "sqfs_fuse_listxattr mem ctx path buf = sqfs_vfs_listxattr mem ctx path buf"

section \<open>The table of callbacks\<close>

text \<open>The structure handed to FUSE: the member and the function it holds. The other members are null, and
  FUSE answers what has no callback with \<open>ENOSYS\<close>.\<close>

definition sqfs_fuse_operations :: "string \<rightharpoonup> string" where
  "sqfs_fuse_operations = map_of
     [(''getattr'', ''sqfs_fuse_getattr''), (''readdir'', ''sqfs_fuse_readdir''), (''open'', ''sqfs_fuse_open''),
      (''read'', ''sqfs_fuse_read''), (''release'', ''sqfs_fuse_release''), (''readlink'', ''sqfs_fuse_readlink''),
      (''statfs'', ''sqfs_fuse_statfs''), (''getxattr'', ''sqfs_fuse_getxattr''), (''listxattr'', ''sqfs_fuse_listxattr'')]"

text \<open>The copy that \<open>main\<close> completes.\<close>

definition sqfs_oper :: "string \<rightharpoonup> string" where
  "sqfs_oper = sqfs_fuse_operations(''init'' \<mapsto> ''sqfs_fuse_init'', ''destroy'' \<mapsto> ''sqfs_fuse_destroy'')"

text \<open>Nothing that would change the file system has a callback.\<close>

lemma fuse_operations_read_only:
  "list_all (\<lambda>op. sqfs_oper op = None)
     [''mknod'', ''mkdir'', ''unlink'', ''rmdir'', ''symlink'', ''rename'', ''link'', ''chmod'', ''chown'', ''truncate'',
      ''write'', ''setxattr'', ''removexattr'', ''create'', ''utimens'', ''fallocate'']"
  by code_simp

section \<open>Sessions\<close>

text \<open>The context and the open files, by the addresses of their handles. The callbacks that are not
  steps leave both as they are. The kernel keeps the end of a read inside of \<open>loff_t\<close>, and its
  size inside of an \<open>int\<close>.\<close>

record session =
  se_ctx :: sqfs_ctx
  se_open :: "u64 \<rightharpoonup> sqfs_vfs_fh"

definition mounted :: "sqfs_ctx \<Rightarrow> session" where
  "mounted ctx = \<lparr>se_ctx = ctx, se_open = Map.empty\<rparr>"

inductive fuse_step :: "heap_env \<Rightarrow> session \<Rightarrow> session \<Rightarrow> bool" for E where
  open_step: "sqfs_fuse_open (h_mem E) (se_ctx s) path = Inr fh \<Longrightarrow> a \<noteq> 0 \<Longrightarrow> se_open s a = None \<Longrightarrow>
    fuse_step E s (s\<lparr>se_open := (se_open s)(a \<mapsto> fh)\<rparr>)"
| read_step: "se_open s a = Some fh \<Longrightarrow> unat offset + unat sz < 2 ^ 63 \<Longrightarrow> unat sz < 2 ^ 31 \<Longrightarrow>
    sqfs_fuse_read E (Some fh) sz offset (se_ctx s) = Some (r, ctx') \<Longrightarrow>
    fuse_step E s (s\<lparr>se_ctx := ctx'\<rparr>)"
| release_step: "se_open s a = Some fh \<Longrightarrow> sqfs_fuse_release (Some fh) = Inr () \<Longrightarrow>
    fuse_step E s (s\<lparr>se_open := (se_open s)(a := None)\<rparr>)"

inductive_cases fuse_stepE: "fuse_step E s s'"

end
