(* ===== verification/Session.thy ===== *)
theory Session
  imports Fuse
begin

text \<open>
  What holds throughout a mount: after any sequence of opening, reading and releasing files the
  data cache is valid, the rest of the context is as it was mounted, every handle names a
  regular file of the image, and reads return the stored bytes.
\<close>

section \<open>Operations that keep the context\<close>

text \<open>The data cache may change, but not its limits.\<close>

definition same_limits :: "sqfs_ctx \<Rightarrow> sqfs_ctx \<Rightarrow> bool" where
  "same_limits a b \<longleftrightarrow> c_max_entries (ctx_data_cache b) = c_max_entries (ctx_data_cache a)
     \<and> c_max_memory (ctx_data_cache b) = c_max_memory (ctx_data_cache a)"

lemma same_limits_trans: "same_limits a b \<Longrightarrow> same_limits b c \<Longrightarrow> same_limits a c"
  by (simp add: same_limits_def)

lemma same_limits_refl [simp]: "same_limits a a"
  by (simp add: same_limits_def)

definition keeps :: "'a op \<Rightarrow> bool" where
  "keeps m \<longleftrightarrow> (\<forall>ctx r ctx'. cache_valid (ctx_data_cache ctx) \<longrightarrow> m ctx = Some (r, ctx') \<longrightarrow>
     cache_valid (ctx_data_cache ctx') \<and> same_ctx ctx ctx' \<and> same_limits ctx ctx')"

lemma keepsD:
  "keeps m \<Longrightarrow> cache_valid (ctx_data_cache ctx) \<Longrightarrow> m ctx = Some (r, ctx') \<Longrightarrow>
     cache_valid (ctx_data_cache ctx') \<and> same_ctx ctx ctx' \<and> same_limits ctx ctx'"
  unfolding keeps_def by blast

lemma keeps_olift: "keeps (olift r)"
  by (simp add: keeps_def)

lemma keeps_const: "keeps (\<lambda>ctx. Some (r ctx, ctx))"
  by (simp add: keeps_def)

lemma keeps_ctx: "(\<And>c. keeps (m c)) \<Longrightarrow> keeps (\<lambda>ctx. m ctx ctx)"
  unfolding keeps_def by blast

lemma keeps_obind:
  assumes "keeps m" and "\<And>x. keeps (f x)"
  shows "keeps (obind m f)"
  unfolding keeps_def
proof (intro allI impI)
  fix ctx r ctx'
  assume ctx: "cache_valid (ctx_data_cache ctx)" and run: "obind m f ctx = Some (r, ctx')"
  from run obtain q c where m: "m ctx = Some (q, c)" by (auto simp: obind_def split: option.splits)
  note k = keepsD [OF assms(1) ctx m]
  show "cache_valid (ctx_data_cache ctx') \<and> same_ctx ctx ctx' \<and> same_limits ctx ctx'"
  proof (cases q)
    case (Inl e)
    with m run k show ?thesis by simp
  next
    case (Inr x)
    with m run have "f x c = Some (r, ctx')" by simp
    with keepsD [OF assms(2)] k same_ctx_trans same_limits_trans show ?thesis by blast
  qed
qed

lemma keeps_get: "keeps (data_cache_get k)"
  unfolding keeps_def
proof (intro allI impI)
  fix ctx r ctx'
  assume ctx: "cache_valid (ctx_data_cache ctx)" and run: "data_cache_get k ctx = Some (r, ctx')"
  from lru.get_law [OF ctx, of k] get_limits [OF ctx, of k] run show "cache_valid (ctx_data_cache ctx') \<and> same_ctx ctx ctx' \<and> same_limits ctx ctx'"
    by (auto simp: data_cache_get_def same_ctx_def same_limits_def)
qed

lemma keeps_put: "keeps (data_cache_put E k v s)"
  unfolding keeps_def
proof (intro allI impI)
  fix ctx r ctx'
  assume ctx: "cache_valid (ctx_data_cache ctx)" and run: "data_cache_put E k v s ctx = Some (r, ctx')"
  from lru.put_law [OF ctx, where alloc = "h_entry E" and ok = "h_table E" and k = k and v = v and s = s] put_limits [OF ctx guard_alloc_fresh, of "h_entry E" "h_table E" k v s] run
  show "cache_valid (ctx_data_cache ctx') \<and> same_ctx ctx ctx' \<and> same_limits ctx ctx'"
    by (auto simp: data_cache_put_def same_ctx_def same_limits_def)
qed

lemmas keeps_rules = keeps_olift keeps_const keeps_obind keeps_get keeps_put

lemma keeps_cache_block: "keeps (cache_block E pos d)"
proof -
  have "cache_block E pos d = (if d = [] then olift (Inr ())
      else case sqfs_data_block_cache_new (h_mem E) of
          None \<Rightarrow> olift (Inr ())
        | Some v \<Rightarrow> if sqfs_malloc (h_mem E) (length d) = 0 then olift (Inr ())
            else obind (data_cache_put E (sqfs_data_block_cache_key pos)
                   (v\<lparr>be_data := Some d, be_data_size := length d, be_block_pos := pos, be_is_cached := True\<rparr>)
                   (of_nat SIZEOF_block_entry + of_nat (length d))) (\<lambda>_. olift (Inr ())))"
    by (auto simp: fun_eq_iff cache_block_def split: option.split)
  then show ?thesis by (auto split: option.split intro!: keeps_rules)
qed

lemma keeps_read_miss: "keeps (read_miss E fc pos dsize off remaining)"
proof -
  have "keeps (\<lambda>ctx. obind (olift (sqfs_data_read_block (h_mem E) (sb_fd (ctx_sb ctx)) pos dsize
      (unat (fc_block_size fc)) (ctx_comp ctx))) (\<lambda>d. obind (cache_block E pos d) (\<lambda>_.
         olift (rbind (copy_decoded (unat (fc_block_size fc)) d off remaining) (\<lambda>b. Inr (Read_more b))))) ctx)"
    by (rule keeps_ctx [where m = "\<lambda>c. obind (olift (sqfs_data_read_block (h_mem E) (sb_fd (ctx_sb c)) pos dsize
      (unat (fc_block_size fc)) (ctx_comp c))) _"]) (intro keeps_rules keeps_cache_block)
  then show ?thesis by (simp add: read_miss_def [abs_def])
qed

lemma keeps_read_stored: "keeps (read_stored E fc pos dsize off remaining)"
  unfolding read_stored_def by (auto split: option.split intro!: keeps_rules keeps_read_miss)

lemma keeps_fragment_fetch: "keeps (fragment_fetch E f)"
proof -
  let ?m = "\<lambda>c. case sqfs_fragment_cache_entry_new (h_mem E) of
        None \<Rightarrow> olift (Inl (Err SQFS_ERR_NO_MEMORY))
      | Some frag \<Rightarrow>
          if sqfs_malloc (h_mem E) (unat (block_size (disk (ctx_sb c)))) = 0
          then olift (Inl (Err SQFS_ERR_NO_MEMORY))
          else obind (olift (sqfs_fragment_read_block (h_mem E) c f)) (\<lambda>d.
            let frag = frag\<lparr>be_data := Some d, be_data_size := length d, be_is_cached := True\<rparr>
            in obind (data_cache_put E (sqfs_fragment_cache_key f) frag
                 (of_nat SIZEOF_block_entry + ucast (block_size (disk (ctx_sb c))))) (\<lambda>_. olift (Inr frag)))"
  have "keeps (\<lambda>ctx. ?m ctx ctx)"
    by (rule keeps_ctx) (auto simp: Let_def split: option.split intro!: keeps_rules)
  moreover have "(\<lambda>ctx. ?m ctx ctx) = fragment_fetch E f"
    by (auto simp: fun_eq_iff fragment_fetch_def split: option.split)
  ultimately show ?thesis by simp
qed

lemma keeps_fragment_read: "keeps (sqfs_fragment_read E f off n)"
proof -
  let ?b = "\<lambda>c. unat (block_size (disk (ctx_sb c)))"
  let ?m = "\<lambda>c. if sqfs_fragment_is_none f then olift (Inl (Err SQFS_ERR_NOT_FOUND))
      else if ?b c \<le> unat off then olift (Inl (Err SQFS_ERR_CORRUPT))
      else obind (data_cache_get (sqfs_fragment_cache_key f)) (\<lambda>cached.
        case cached of
          Some frag \<Rightarrow>
            if be_is_cached frag then olift (fragment_copy (?b c) frag (unat off) n)
            else obind (fragment_fetch E f) (\<lambda>frag. olift (fragment_copy (?b c) frag (unat off) n))
        | None \<Rightarrow> obind (fragment_fetch E f) (\<lambda>frag. olift (fragment_copy (?b c) frag (unat off) n)))"
  have "keeps (\<lambda>ctx. ?m ctx ctx)"
    by (rule keeps_ctx) (auto split: option.split intro!: keeps_rules keeps_fragment_fetch)
  moreover have "(\<lambda>ctx. ?m ctx ctx) = sqfs_fragment_read E f off n"
    by (simp add: fun_eq_iff sqfs_fragment_read_def Let_def)
  ultimately show ?thesis by simp
qed

lemma keeps_read_from_fragment: "keeps (read_from_fragment E f off n)"
  unfolding keeps_def read_from_fragment_def
  by (auto dest: keepsD [OF keeps_fragment_read] split: option.splits sum.splits failure.splits)

lemma keeps_read_step: "keeps (data_read_step E fc pos remaining)"
  unfolding data_read_step_def Let_def
  by (auto split: sum.split intro!: keeps_rules keeps_read_from_fragment keeps_read_stored)

lemma data_read_loop_keeps:
  assumes "data_read_loop E fc pos out remaining ctx = Some y"
  shows "cache_valid (ctx_data_cache ctx) \<longrightarrow> cache_valid (ctx_data_cache (snd y)) \<and> same_ctx ctx (snd y) \<and> same_limits ctx (snd y)"
proof (rule data_read_loop.raw_induct [where P = "\<lambda>E fc pos out remaining ctx y.
    cache_valid (ctx_data_cache ctx) \<longrightarrow> cache_valid (ctx_data_cache (snd y)) \<and> same_ctx ctx (snd y) \<and> same_limits ctx (snd y)", OF _ assms], rule impI)
  fix rec E fc pos out remaining ctx y
  assume IH: "\<And>E fc pos out remaining ctx y. rec E fc pos out remaining ctx = Some y \<Longrightarrow>
        cache_valid (ctx_data_cache ctx) \<longrightarrow> cache_valid (ctx_data_cache (snd y)) \<and> same_ctx ctx (snd y) \<and> same_limits ctx (snd y)"
    and body: "(if remaining = 0 then Some (Inr out, ctx)
      else case data_read_step E fc pos remaining ctx of
          None \<Rightarrow> None
        | Some p \<Rightarrow>
            (case fst p of
               Inl e \<Rightarrow> Some (Inl e, snd p)
             | Inr s \<Rightarrow>
                 (case s of
                    Read_done b \<Rightarrow> Some (Inr (out @ b), snd p)
                  | Read_more b \<Rightarrow>
                      rec E fc (pos + of_nat (length b)) (out @ b) (remaining - length b) (snd p)))) = Some y"
    and ctx: "cache_valid (ctx_data_cache ctx)"
  show "cache_valid (ctx_data_cache (snd y)) \<and> same_ctx ctx (snd y) \<and> same_limits ctx (snd y)"
  proof (cases "remaining = 0")
    case False
    with body obtain p where p: "data_read_step E fc pos remaining ctx = Some p" by (auto split: option.splits)
    obtain r c where rc: "p = (r, c)" by (cases p)
    have c: "cache_valid (ctx_data_cache c)" "same_ctx ctx c" "same_limits ctx c"
      using keepsD [OF keeps_read_step ctx] p rc by blast+
    show ?thesis
    proof (cases "\<exists>b. r = Inr (Read_more b)")
      case True
      then obtain b where "r = Inr (Read_more b)" by blast
      with body False p rc have "rec E fc (pos + of_nat (length b)) (out @ b) (remaining - length b) c = Some y" by simp
      from IH [OF this] c show ?thesis using same_ctx_trans same_limits_trans by blast
    next
      case neq: False
      with body False p rc c show ?thesis by (auto split: sum.splits read_step.splits)
    qed
  qed (use body ctx in auto)
qed

lemma keeps_data_read: "keeps (sqfs_data_read E i offset sz)"
  unfolding keeps_def sqfs_data_read_def
proof (intro allI impI)
  fix ctx r ctx'
  assume ctx: "cache_valid (ctx_data_cache ctx)" and run: "sqfs_data_read_internal E i offset sz ctx = Some (r, ctx')"
  show "cache_valid (ctx_data_cache ctx') \<and> same_ctx ctx ctx' \<and> same_limits ctx ctx'"
    using run ctx data_read_loop_keeps [of E _ offset "[]" _ ctx "(r, ctx')"]
    by (auto simp: sqfs_data_read_internal_def Let_def split: if_splits sum.splits)
qed

lemma vfs_read_keeps:
  assumes "cache_valid (ctx_data_cache ctx)" and "sqfs_vfs_read E fh sz offset ctx = Some (r, ctx')"
  shows "cache_valid (ctx_data_cache ctx') \<and> same_ctx ctx ctx' \<and> same_limits ctx ctx'"
  using assms keepsD [OF keeps_data_read assms(1)]
  by (fastforce simp: sqfs_vfs_read_def Let_def split: option.splits if_splits prod.splits)

end
