(* ===== verification/SessionClaims.thy ===== *)
theory SessionClaims
  imports Session
begin

text \<open>
  From the creation of the context on: what \<open>init_context\<close> delivers, the invariant of a session, the
  reads of a session on an image that stores a tree of files, and the behaviours that follow from
  what \<open>fuse_main.c\<close> sets up and what it leaves out.
\<close>

section \<open>The created context\<close>

text \<open>Two contexts that differ at most in their caches and their tables of ids and fragments.\<close>

definition same_mount :: "sqfs_ctx \<Rightarrow> sqfs_ctx \<Rightarrow> bool" where
  "same_mount a b \<longleftrightarrow> ctx_sb b = ctx_sb a \<and> ctx_comp b = ctx_comp a \<and> ctx_xattr_table b = ctx_xattr_table a
     \<and> ctx_no_cache b = ctx_no_cache a"

lemma load_id_table_keeps:
  "load_id_table mem ctx = Some (r, ctx') \<Longrightarrow> same_mount ctx ctx' \<and> ctx_data_cache ctx' = ctx_data_cache ctx"
  by (auto simp: load_id_table_def same_mount_def Let_def split: if_splits sum.splits)

lemma init_fragments_keeps:
  "init_fragments mem ctx = Some (Inr ctx') \<Longrightarrow> same_mount ctx ctx' \<and> ctx_data_cache ctx' = ctx_data_cache ctx"
  by (auto simp: init_fragments_def sqfs_fragment_table_load_def same_mount_def Let_def
      split: if_splits sum.splits option.splits failure.splits)

lemma cache_init_empty:
  assumes "sqfs_cache_init l t maxe maxm ff = Inr c" and "(unat maxe + 1) * unat maxm < 2 ^ 64"
  shows "cache_inv c []"
proof -
  have "sqfs_cache_init True True maxe maxm ff = Inr c"
    using assms(1) by (auto simp: sqfs_cache_init_def Let_def split: if_splits)
  from cache_init_ok [OF this assms(2)] show ?thesis by simp
qed

lemma data_cache_memory:
  fixes mb :: u64
  assumes "unat mb \<le> 2 ^ 30"
  shows "(unat CACHE_DATA_MAX_ENTRIES + 1) * unat (mb * 1024 * 1024 div 2) < 2 ^ 64"
proof -
  have "unat (mb * 1024 * 1024) \<le> 2 ^ 50" using assms by (simp add: unat_word_ariths)
  then have "unat (mb * 1024 * 1024 div 2) \<le> 2 ^ 49" by (simp add: unat_div)
  then show ?thesis by (simp add: CACHE_DATA_MAX_ENTRIES_def)
qed

lemma init_caches_ok:
  assumes "init_caches env mb ctx = (True, ctx')" and "unat mb \<le> 2 ^ 30"
  shows "same_mount ctx ctx' \<and> cache_inv (ctx_data_cache ctx') []"
  using assms(1) cache_init_empty [OF _ data_cache_memory [OF assms(2)]]
  by (auto simp: init_caches_def Let_def same_mount_def split: sum.splits)

lemma init_tables_ok:
  assumes "init_tables mem env mb no_cache ctx = Some (Inr ctx')"
  shows "\<exists>ctx1. (if no_cache then ctx1 = ctx else init_caches env mb ctx = (True, ctx1))
    \<and> same_mount ctx1 ctx' \<and> ctx_data_cache ctx' = ctx_data_cache ctx1"
proof -
  have failed: "init_failed no_cache c e \<noteq> Some (Inr x)" for c e x
    by (simp add: init_failed_def split: option.split sum.split failure.split)
  obtain ok ctx1 where c1: "(if no_cache then (True, ctx) else init_caches env mb ctx) = (ok, ctx1)" by fastforce
  with assms failed have ok: ok by (cases ok) (simp_all add: init_tables_def)
  obtain r ctx2 where ids: "load_id_table mem ctx1 = Some (Inr r, ctx2)"
    using assms c1 ok failed by (auto simp: init_tables_def split: option.splits sum.splits failure.splits)
  note k = load_id_table_keeps [OF ids]
  from assms c1 ok ids failed have "ctx' = ctx2 \<or> init_fragments mem ctx2 = Some (Inr ctx')"
    by (auto simp: init_tables_def split: if_splits)
  with k have "same_mount ctx1 ctx' \<and> ctx_data_cache ctx' = ctx_data_cache ctx1"
    using init_fragments_keeps [of mem ctx2 ctx'] by (auto simp: same_mount_def)
  with c1 ok show ?thesis by (auto split: if_splits)
qed

lemma init_context_zero:
  assumes "fst (init_context lib mem env fd mb no_cache g) = Some (Inr ctx)"
  obtains sb c where "fst (sqfs_superblock_load fd g) = Inr sb"
    and "sqfs_compressor_create lib mem (compressor (disk sb)) = Some c"
    and "init_tables mem env mb no_cache (zero_ctx sb (Some c) no_cache) = Some (Inr ctx)"
  using assms
  by (auto simp: init_context_def split: if_splits prod.splits sum.splits failure.splits option.splits)

lemma init_context_ok:
  assumes "fst (init_context lib mem env fd mb False g) = Some (Inr ctx)" and "unat mb \<le> 2 ^ 30"
  shows "cache_inv (ctx_data_cache ctx) [] \<and> ctx_xattr_table ctx = None"
proof -
  from init_context_zero [OF assms(1)] obtain sb c where
    "init_tables mem env mb False (zero_ctx sb (Some c) False) = Some (Inr ctx)" by blast
  from init_tables_ok [OF this] init_caches_ok [OF _ assms(2)] show ?thesis
    by (auto simp: same_mount_def zero_ctx_def)
qed

lemma empty_cache_coherent:
  assumes "cache_inv (ctx_data_cache ctx) []"
  shows "coherent K ctx"
proof -
  have "cache_valid (ctx_data_cache ctx)" using assms by (auto simp: cache_valid_def)
  moreover have "cache_bindings (ctx_data_cache ctx) = {}" using cache_bindings_abs [OF assms] by simp
  ultimately show ?thesis by (simp add: coherent_def lru.sound_def)
qed

lemma init_context_nocache:
  assumes "fst (init_context lib mem env fd mb True g) = Some (Inr ctx)"
  shows "ctx_data_cache ctx = zero_cache \<and> ctx_comp ctx \<noteq> None"
proof -
  from init_context_zero [OF assms] obtain sb c where
    "init_tables mem env mb True (zero_ctx sb (Some c) True) = Some (Inr ctx)" by blast
  from init_tables_ok [OF this] show ?thesis by (auto simp: same_mount_def zero_ctx_def)
qed

section \<open>The invariant of a session\<close>

lemma replaced_error_Inr:
  "(case r of Inl (Fault f) \<Rightarrow> Inl (Fault f) | Inl (Err e) \<Rightarrow> Inl (Err e') | Inr x \<Rightarrow> k x) = Inr y
     \<longleftrightarrow> (\<exists>x. r = Inr x \<and> k x = Inr y)"
  by (auto split: sum.splits failure.splits)

lemma to_vfs_Inr: "to_vfs r = Inr x \<longleftrightarrow> r = Inr x"
  by (simp add: to_vfs_def split: sum.split failure.split)

lemma walk_loaded:
  "walk_components mem ctx rest i = Inr i' \<Longrightarrow> sqfs_inode_get_by_ref mem ctx ref = Inr i \<Longrightarrow>
     \<exists>ref. sqfs_inode_get_by_ref mem ctx ref = Inr i'"
proof (induction "length rest" arbitrary: rest i ref rule: less_induct)
  case less
  show ?case
  proof (cases "strtok_r rest")
    case None
    with less.prems show ?thesis by (auto simp: walk_components.simps)
  next
    case (Some p)
    obtain w rest' where p: "p = (w, rest')" by (cases p)
    from less.prems(1) [unfolded walk_components.simps [of mem ctx rest i]] Some p
    obtain d :: sqfs_dirent and j where
      j: "sqfs_inode_get_by_ref mem ctx (d_inode_ref d) = Inr j" and w: "walk_components mem ctx rest' j = Inr i'"
      by (simp only: option.case prod.case replaced_error_Inr)
        (auto simp: rbind_eq_Inr_iff to_vfs_Inr replaced_error_Inr split: if_splits sum.splits failure.splits option.splits)
    from less.hyps [OF _ w j] strtok_shorter [of rest w rest'] Some p show ?thesis by simp
  qed
qed

lemma resolve_loaded:
  assumes "sqfs_vfs_resolve_path mem ctx path = Inr i"
  shows "\<exists>ref. sqfs_inode_get_by_ref mem ctx ref = Inr i"
  using assms
  by (auto simp: sqfs_vfs_resolve_path_def rbind_eq_Inr_iff to_vfs_Inr intro: walk_loaded split: if_splits list.splits)

text \<open>A handle in use: a regular file, with its size and a block list of the length its size calls for.\<close>

definition handle_ok :: "sqfs_superblock \<Rightarrow> sqfs_vfs_fh \<Rightarrow> bool" where
  "handle_ok sb fh \<longleftrightarrow> (\<exists>i. fh_inode fh = Some i \<and> sqfs_inode_is_file (i_type i)
     \<and> fh_file_size fh = file_file_size i \<and> block_list_ok sb i)"

definition session_ok :: "sqfs_ctx \<Rightarrow> session \<Rightarrow> bool" where
  "session_ok ctx0 s \<longleftrightarrow> same_ctx ctx0 (se_ctx s) \<and> cache_valid (ctx_data_cache (se_ctx s))
     \<and> (\<forall>fh \<in> ran (se_open s). handle_ok (ctx_sb ctx0) fh)"

lemma opened_handle:
  assumes "sqfs_fuse_open mem ctx path = Inr fh"
  shows "\<exists>i. sqfs_vfs_resolve_path mem ctx path = Inr i \<and> sqfs_inode_is_file (i_type i)
    \<and> fh = \<lparr>fh_inode = Some i, fh_file_size = file_file_size i\<rparr>"
  using assms by (auto simp: sqfs_fuse_open_def sqfs_vfs_open_def rbind_eq_Inr_iff split: if_splits)

lemma opened_handle_ok: "sqfs_fuse_open mem ctx path = Inr fh \<Longrightarrow> handle_ok (ctx_sb ctx) fh"
  using opened_handle [of mem ctx path fh] resolve_loaded loaded_block_list by (fastforce simp: handle_ok_def)

lemma ran_release: "fh \<in> ran (m(a := None)) \<Longrightarrow> fh \<in> ran m"
  by (auto simp: ran_def split: if_splits)

lemma session_ok_step:
  assumes "session_ok ctx0 s" and "fuse_step E s s'"
  shows "session_ok ctx0 s'"
  using assms(2)
proof cases
  case (open_step path fh a)
  from assms(1) same_ctx_fields have "ctx_sb (se_ctx s) = ctx_sb ctx0" by (auto simp: session_ok_def)
  with opened_handle_ok [OF open_step(2)] assms(1) open_step show ?thesis
    by (auto simp: session_ok_def)
next
  case (read_step a fh offset sz r ctx')
  with assms(1) vfs_read_keeps [of "se_ctx s" E fh sz offset r ctx'] show ?thesis
    by (auto simp: session_ok_def sqfs_fuse_read_def intro: same_ctx_trans)
next
  case (release_step a fh)
  with assms(1) show ?thesis by (auto simp: session_ok_def dest: ran_release)
qed

lemma session_ok_run:
  assumes "(fuse_step E)\<^sup>*\<^sup>* (mounted ctx0) s" and "cache_valid (ctx_data_cache ctx0)"
  shows "session_ok ctx0 s"
  using assms(1)
proof induction
  case base
  with assms(2) show ?case by (simp add: session_ok_def mounted_def)
next
  case (step s s')
  then show ?case by (blast intro: session_ok_step)
qed

section \<open>Reads of a session\<close>

text \<open>Every regular file of the tree is stored, with its content.\<close>

definition files_stored :: "allocator \<Rightarrow> key_map \<Rightarrow> sqfs_ctx \<Rightarrow> node \<Rightarrow> (sqfs_inode \<Rightarrow> byte list) \<Rightarrow> bool" where
  "files_stored mem K ctx t content \<longleftrightarrow>
     (\<forall>path n. node_at t path = Inr n \<longrightarrow> sqfs_inode_is_file (i_type (node_inode n)) \<longrightarrow>
        (\<exists>fc. sqfs_file_ctx_init (ctx_sb ctx) (node_inode n) = Inr fc
          \<and> file_stored mem K ctx fc (content (node_inode n))))"

text \<open>A handle of a file of the tree.\<close>

definition handle_in :: "node \<Rightarrow> sqfs_vfs_fh \<Rightarrow> bool" where
  "handle_in t fh \<longleftrightarrow> (\<exists>path n. node_at t path = Inr n \<and> sqfs_inode_is_file (i_type (node_inode n))
     \<and> fh = \<lparr>fh_inode = Some (node_inode n), fh_file_size = file_file_size (node_inode n)\<rparr>)"

definition session_reads :: "key_map \<Rightarrow> sqfs_ctx \<Rightarrow> node \<Rightarrow> session \<Rightarrow> bool" where
  "session_reads K ctx0 t s \<longleftrightarrow> same_ctx ctx0 (se_ctx s) \<and> coherent K (se_ctx s)
     \<and> (\<forall>fh \<in> ran (se_open s). handle_in t fh)"

lemma tree_stored_cong:
  assumes img: "same_image a b"
  shows "tree_stored mem a ref t \<Longrightarrow> tree_stored mem b ref t"
proof (induction rule: tree_stored.induct)
  case (stored_leaf ref i)
  then show ?case by (simp add: get_by_ref_cong [OF img] tree_stored.stored_leaf)
next
  case (stored_dir ref i es cs)
  from stored_dir(4) have "list_all2 (\<lambda>d c. c_str (d_name d) = fst c \<and> tree_stored mem b (d_inode_ref d) (snd c)) es cs"
    by (auto elim: list_all2_mono)
  with stored_dir(1-3) show ?case
    by (auto simp: get_by_ref_cong [OF img] dir_read_cong [OF img] intro: tree_stored.stored_dir)
qed

lemma resolve_cases:
  assumes "tree_stored mem ctx (root_inode (disk (ctx_sb ctx))) t" and "\<forall>k. mem k \<noteq> 0"
    and "sqfs_vfs_resolve_path mem ctx path = Inr i"
  shows "\<exists>rest n. node_at t rest = Inr n \<and> i = node_inode n"
proof (cases path)
  case Nil
  with assms(2,3) tree_stored_inode [OF assms(1)] show ?thesis
    by (simp add: sqfs_vfs_resolve_path_def sqfs_malloc_def)
next
  case (Cons c rest)
  with resolve_stored [OF assms(1,2), of c rest] assms(3) show ?thesis by (auto split: sum.splits)
qed

lemma session_read:
  assumes inv: "session_reads K ctx0 t s" and fs: "files_stored (h_mem E) K ctx0 t content"
    and mem: "\<forall>k. h_mem E k \<noteq> 0" and fh: "se_open s a = Some fh" and sum: "unat offset + unat sz < 2 ^ 64"
  shows "\<exists>i ctx'. fh_inode fh = Some i
    \<and> sqfs_fuse_read E (Some fh) sz offset (se_ctx s)
       = Some (Inr (segment (content i) (unat offset) (unat sz)), ctx') \<and> coherent K ctx' \<and> same_ctx (se_ctx s) ctx'"
proof -
  from inv have ctx: "same_ctx ctx0 (se_ctx s)" "coherent K (se_ctx s)" and "handle_in t fh"
    using fh by (auto simp: session_reads_def ran_def)
  then obtain path n where n: "node_at t path = Inr n" "sqfs_inode_is_file (i_type (node_inode n))"
    and h: "fh = \<lparr>fh_inode = Some (node_inode n), fh_file_size = file_file_size (node_inode n)\<rparr>"
    unfolding handle_in_def by blast
  from fs n obtain fc where init: "sqfs_file_ctx_init (ctx_sb ctx0) (node_inode n) = Inr fc"
    and st: "file_stored (h_mem E) K ctx0 fc (content (node_inode n))" unfolding files_stored_def by blast
  have "sqfs_file_ctx_init (ctx_sb (se_ctx s)) (node_inode n) = Inr fc"
    using init same_ctx_fields [OF ctx(1)] by simp
  moreover have "file_stored (h_mem E) K (se_ctx s) fc (content (node_inode n))"
    using st file_stored_cong [OF ctx(1)] by simp
  ultimately show ?thesis
    using vfs_read_ok [where i = "node_inode n", OF _ _ ctx(2) mem sum] h by (simp add: sqfs_fuse_read_def)
qed

lemma session_reads_step:
  assumes inv: "session_reads K ctx0 t s" and step: "fuse_step E s s'"
    and tree: "tree_stored (h_mem E) ctx0 (root_inode (disk (ctx_sb ctx0))) t"
    and fs: "files_stored (h_mem E) K ctx0 t content" and mem: "\<forall>k. h_mem E k \<noteq> 0"
  shows "session_reads K ctx0 t s'"
  using step
proof cases
  case (open_step path fh a)
  from inv have ctx: "same_ctx ctx0 (se_ctx s)" by (simp add: session_reads_def)
  have "tree_stored (h_mem E) (se_ctx s) (root_inode (disk (ctx_sb (se_ctx s)))) t"
    using tree_stored_cong [OF same_ctx_image [OF ctx] tree] same_ctx_fields [OF ctx] by simp
  from resolve_cases [OF this mem] opened_handle [OF open_step(2)] have "handle_in t fh"
    by (fastforce simp: handle_in_def)
  with inv open_step show ?thesis by (auto simp: session_reads_def)
next
  case (read_step a fh offset sz r ctx')
  then have "unat offset + unat sz < 2 ^ 64" by simp
  from session_read [OF inv fs mem read_step(2) this] read_step(5) have "coherent K ctx'" "same_ctx (se_ctx s) ctx'"
    by auto
  with inv read_step show ?thesis by (auto simp: session_reads_def intro: same_ctx_trans)
next
  case (release_step a fh)
  with inv show ?thesis by (auto simp: session_reads_def dest: ran_release)
qed

lemma session_reads_run:
  assumes "(fuse_step E)\<^sup>*\<^sup>* (mounted ctx0) s" and "coherent K ctx0"
    and "tree_stored (h_mem E) ctx0 (root_inode (disk (ctx_sb ctx0))) t"
    and "files_stored (h_mem E) K ctx0 t content" and "\<forall>k. h_mem E k \<noteq> 0"
  shows "session_reads K ctx0 t s"
  using assms(1)
proof induction
  case base
  with assms(2) show ?case by (simp add: session_reads_def mounted_def)
next
  case (step s s')
  from session_reads_step [OF step(3,2) assms(3-5)] show ?case .
qed

section \<open>Without caches\<close>

lemma zero_cache_get: "data_cache_get k ctx = Some (Inl (Fault Null_Deref), ctx)" if "ctx_data_cache ctx = zero_cache"
  by (simp add: that data_cache_get_def sqfs_cache_get_def cache_get_find_def hash_find_def get_bucket_def
      zero_cache_def lbind_def)

section \<open>The table of ids\<close>

lemma get_u32s_put:
  assumes "data = pre @ concat (map put_le32 xs) @ post"
  shows "get_u32s data (length pre) (length xs) = Inr xs"
  using assms
proof (induction xs arbitrary: pre)
  case (Cons x xs)
  from Cons.prems have "get_le32 data (length pre) = Inr x" by (simp add: layout)
  moreover have "get_u32s data (length (pre @ put_le32 x)) (length xs) = Inr xs"
    using Cons.prems by (intro Cons.IH) simp
  ultimately show ?case by simp
qed simp

lemma load_ids:
  assumes fd: "reliable (sb_fd (ctx_sb ctx))" and mem: "\<forall>k. mem k \<noteq> 0" and cmp: "ctx_comp ctx \<noteq> None"
    and n: "unat (id_count (disk (ctx_sb ctx))) = length ids" "ids \<noteq> []" "length ids \<le> 2048"
    and img: "f_image (sb_fd (ctx_sb ctx)) = pre @ block_bytes b @ post" "length (f_image (sb_fd (ctx_sb ctx))) < 2 ^ 62"
    and b: "block_wf (ctx_comp ctx) b" "block_data b = concat (map put_le32 ids)"
    and tab: "unat (id_table (disk (ctx_sb ctx))) = p" "p + 8 \<le> length (f_image (sb_fd (ctx_sb ctx)))"
      "segment (f_image (sb_fd (ctx_sb ctx))) p 8 = put_le64 (of_nat (length pre))"
  shows "load_id_table mem ctx =
    (if p + 8 * length ids \<le> length (f_image (sb_fd (ctx_sb ctx)))
     then Some (Inr (), ctx\<lparr>ctx_id_table := Some ids, ctx_id_count := length ids\<rparr>)
     else Some (Inl (Err SQFS_ERR_CORRUPT), ctx))"
proof -
  let ?img = "f_image (sb_fd (ctx_sb ctx))" and ?pos = "id_table (disk (ctx_sb ctx))"
  have small: "unat ?pos + length ids * 8 < 2 ^ 63" using tab(1,2) img(2) n(3) by simp
  have rd: "sqfs_pread_all (sb_fd (ctx_sb ctx)) (length ids * 8) ?pos
    = (if p + 8 * length ids \<le> length ?img then Inr (segment ?img p (length ids * 8)) else Inl (Err SQFS_ERR_CORRUPT))"
    using sqfs_pread_all_complete [OF _ small] fd n(2) tab(1) by (simp add: reliable_def mult.commute)
  show ?thesis
  proof (cases "p + 8 * length ids \<le> length ?img")
    case False
    then show ?thesis using rd mem n by (simp add: load_id_table_def sqfs_malloc_def)
  next
    case True
    have ge: "8 \<le> length ids * 8" using n(2) by (cases ids) simp_all
    have "segment (segment ?img p (length ids * 8)) 0 8 = segment ?img p 8"
      using segment_segment [of 0 8 "length ids * 8" ?img p] ge by simp
    moreover have "8 \<le> length (segment ?img p (length ids * 8))" using True ge by simp
    ultimately have first: "get_le64 (segment ?img p (length ids * 8)) 0 = Inr (of_nat (length pre))"
      using tab(3) by simp
    have len: "length (concat (map put_le32 ids)) = length ids * 4" using le32.length_concat_enc [of ids] by simp
    have "length pre < 2 ^ 64" using img by simp
    then have pos: "unat (of_nat (length pre) :: u64) = length pre" by (simp add: unat_of_nat)
    have blk: "sqfs_meta_read_block mem (sb_fd (ctx_sb ctx)) (of_nat (length pre)) (ctx_comp ctx)
      = Inr (concat (map put_le32 ids))"
      using stored_block_read(1) [OF fd img(1) pos b(1) cmp] b(2) by simp
    show ?thesis
      using True rd mem n first blk get_u32s_put [of "concat (map put_le32 ids)" "[]" ids "[]"]
      by (simp add: load_id_table_def sqfs_malloc_def len)
  qed
qed

section \<open>Arguments\<close>

lemma parse_word:
  assumes "w \<noteq> []" and "hd w \<noteq> CHR ''-''" and "\<forall>k. mem k \<noteq> 0"
  shows "parse_args mem (w # as) os = (if o_image os = None then parse_args mem as (os\<lparr>o_image := Some w\<rparr>)
    else if o_mount os = None then parse_args mem as (os\<lparr>o_mount := Some w\<rparr>) else parse_args mem as os)"
proof -
  obtain c cs where w: "w = c # cs" using assms(1) by (cases w) auto
  have "\<not> is_nocache w" "\<not> is_cache_size w" "\<not> is_help w" "\<not> is_version w" "\<not> is_log w" "\<not> is_log_path w"
    "is_word w" "strdup mem w = Some w"
    using assms(2,3) w by (simp_all add: arg_defs strdup_def)
  then show ?thesis by (simp only: parse_args.simps if_True if_False)
qed

text \<open>Options that the first pass does not know.\<close>

lemma parse_value_option:
  "parse_args mem (''-o'' # as) os = parse_args mem as os"
  "parse_args mem (''--options'' # as) os = parse_args mem as os"
  "parse_args mem (''-d'' # as) os = parse_args mem as os"
  "parse_args mem (''--debug'' # as) os = parse_args mem as os"
  "parse_args mem (''--cache-size'' # as) os = parse_args mem as os"
  by (simp_all add: arg_defs)

section \<open>The small file system mounted\<close>

definition env_ok :: "nat \<Rightarrow> bool \<times> bool" where "env_ok n = (True, True)"

lemma fs_init_caches: "fst (init_caches env_ok 32 ctx)"
  by (simp add: init_caches_def env_ok_def sqfs_cache_init_def Let_def CACHE_INODE_MAX_ENTRIES_def
      CACHE_DIR_MAX_ENTRIES_def CACHE_META_MAX_ENTRIES_def CACHE_DATA_MAX_ENTRIES_def)

lemma fs_mount:
  assumes mem: "\<forall>k. mem k \<noteq> 0"
  shows "\<exists>ctx. fst (init_context stored_lib mem env_ok fs_file 32 no_cache g) = Some (Inr ctx) \<and> same_image fs_ctx ctx"
proof -
  let ?ctx0 = "zero_ctx fs_sb (Some (sqfs_compressor_zstd_new stored_lib)) no_cache"
  obtain ctx1 where c1: "(if no_cache then (True, ?ctx0) else init_caches env_ok 32 ?ctx0) = (True, ctx1)"
    using fs_init_caches [of ?ctx0] by (cases no_cache; cases "init_caches env_ok 32 ?ctx0") auto
  then have k: "same_mount ?ctx0 ctx1"
    using init_caches_ok [of env_ok 32 ?ctx0 ctx1] by (auto simp: same_mount_def split: if_splits)
  then have sb: "ctx_sb ctx1 = fs_sb" by (simp add: same_mount_def zero_ctx_def)
  have "load_id_table mem ctx1 = Some (Inr (), ctx1\<lparr>ctx_id_table := None, ctx_id_count := 0\<rparr>)"
    by (simp add: load_id_table_def sb fs_sb_def fs_superblock_def)
  then have "init_tables mem env_ok 32 no_cache ?ctx0 = Some (Inr (ctx1\<lparr>ctx_id_table := None, ctx_id_count := 0\<rparr>))"
    unfolding init_tables_def c1 by (simp add: sb fs_sb_def)
  then have "fst (init_context stored_lib mem env_ok fs_file 32 no_cache g)
      = Some (Inr (ctx1\<lparr>ctx_id_table := None, ctx_id_count := 0\<rparr>))"
    using mem by (simp add: init_context_def sqfs_malloc_def fs_loads sqfs_compressor_create_def sqfs_calloc_def)
      (simp add: fs_sb_def fs_superblock_def)
  moreover have "same_image fs_ctx (ctx1\<lparr>ctx_id_table := None, ctx_id_count := 0\<rparr>)"
    using k by (simp add: same_image_def same_mount_def zero_ctx_def fs_ctx_def)
  ultimately show ?thesis by blast
qed

lemma file_stored_image:
  assumes "same_image a b" and "sqfs_fragment_is_none (fc_frag_idx fc)"
  shows "file_stored mem K a fc content = file_stored mem K b fc content"
  using assms by (simp add: file_stored_def block_stored_def same_image_def)

lemma fs_node_at: "node_at fs_tree path = Inr n \<Longrightarrow> n = fs_tree \<or> n = Node file_inode_ram []"
  by (cases path rule: list.exhaust; cases "tl path")
    (auto simp: fs_tree_def fs_file_fields sqfs_inode_is_dir_def split: if_splits)

definition fs_content :: "sqfs_inode \<Rightarrow> byte list" where "fs_content i = [1, 2, 3, 4]"

lemma fs_files_stored:
  assumes "same_image fs_ctx ctx"
  shows "files_stored mem_ok [189 \<mapsto> [1, 2, 3, 4]] ctx fs_tree fs_content"
  unfolding files_stored_def
proof (intro allI impI)
  fix path n
  assume at: "node_at fs_tree path = Inr n" and "sqfs_inode_is_file (i_type (node_inode n))"
  then have n: "node_inode n = file_inode_ram"
    using fs_node_at [OF at] by (auto simp: fs_tree_def fs_root_fields sqfs_inode_is_file_def)
  have "sqfs_file_ctx_init (ctx_sb ctx) file_inode_ram = Inr fs_fc"
    using fs_fc_init assms by (simp add: same_image_def)
  moreover have "file_stored mem_ok [189 \<mapsto> [1, 2, 3, 4]] ctx fs_fc [1, 2, 3, 4]"
    using fs_content_stored file_stored_image [OF assms] by (simp add: fs_fc_def sqfs_fragment_is_none_def)
  ultimately show "\<exists>fc. sqfs_file_ctx_init (ctx_sb ctx) (node_inode n) = Inr fc
      \<and> file_stored mem_ok [189 \<mapsto> [1, 2, 3, 4]] ctx fc (fs_content (node_inode n))"
    by (simp add: n fs_content_def)
qed

lemma fs_mounted_tree:
  assumes "same_image fs_ctx ctx"
  shows "tree_stored mem_ok ctx (root_inode (disk (ctx_sb ctx))) fs_tree"
  using tree_stored_cong [OF assms fs_tree_stored] assms by (simp add: same_image_def flip: fs_ctx_simps)

definition fs_handle :: sqfs_vfs_fh where
  "fs_handle = \<lparr>fh_inode = Some file_inode_ram, fh_file_size = 4\<rparr>"

text \<open>Opening the file is a step of a session on it.\<close>

lemma fs_open_step:
  assumes img: "same_image fs_ctx ctx"
  shows "fuse_step small_heap (mounted ctx) ((mounted ctx)\<lparr>se_open := [1 \<mapsto> fs_handle]\<rparr>)"
proof -
  have "sqfs_vfs_resolve_path mem_ok ctx [47, 97] = Inr file_inode_ram"
    using resolve_stored [OF fs_mounted_tree [OF img] mem_ok_pos, of 47 "[97]"]
    by (simp add: path_components_def fs_tree_def fs_root_fields sqfs_inode_is_dir_def)
  then have "sqfs_fuse_open (h_mem small_heap) (se_ctx (mounted ctx)) [47, 97] = Inr fs_handle"
    using mem_ok_pos by (simp add: sqfs_fuse_open_def sqfs_vfs_open_def mounted_def fs_file_fields fs_handle_def
        sqfs_inode_is_file_def sqfs_malloc_def)
  from open_step [OF this, of 1] show ?thesis by (simp add: mounted_def)
qed

text \<open>The small file system, mounted, with its file open.\<close>

lemma fs_session:
  "\<exists>ctx0. fst (init_context stored_lib mem_ok env_ok fs_file 32 False (sqfs_stats_init 0)) = Some (Inr ctx0)
     \<and> same_image fs_ctx ctx0 \<and> (fuse_step small_heap)\<^sup>*\<^sup>* (mounted ctx0) ((mounted ctx0)\<lparr>se_open := [1 \<mapsto> fs_handle]\<rparr>)"
  using fs_mount [OF mem_ok_pos, of False "sqfs_stats_init 0"] fs_open_step by blast

section \<open>Properties\<close>

text \<open>C12: the invariant of a mount. From a context that \<open>init_context\<close> has created with caches of at most
  \<open>2\<^sup>3\<^sup>0\<close> MiB on, after any sequence of opens, reads and releases, with any image, any failures of the heap
  and any results of the reads, the data cache is valid, the rest of the context is as it was created, and
  every open handle names a regular file with its size and a block list of the length its size calls for.\<close>

theorem session_invariant:
  assumes "fst (init_context lib mem env fd mb False g) = Some (Inr ctx0)" and "unat mb \<le> 2 ^ 30"
    and "(fuse_step E)\<^sup>*\<^sup>* (mounted ctx0) s"
  shows "session_ok ctx0 s"
proof (rule session_ok_run [OF assms(3)])
  show "cache_valid (ctx_data_cache ctx0)"
    using init_context_ok [OF assms(1,2)] by (auto simp: cache_valid_def)
qed

theorem session_invariant_witness:
  "\<exists>ctx0 s. fst (init_context stored_lib mem_ok env_ok fs_file 32 False (sqfs_stats_init 0)) = Some (Inr ctx0)
     \<and> se_open s 1 = Some fs_handle \<and> session_ok ctx0 s"
proof -
  from fs_session obtain ctx0 where
    m: "fst (init_context stored_lib mem_ok env_ok fs_file 32 False (sqfs_stats_init 0)) = Some (Inr ctx0)"
    and run: "(fuse_step small_heap)\<^sup>*\<^sup>* (mounted ctx0) ((mounted ctx0)\<lparr>se_open := [1 \<mapsto> fs_handle]\<rparr>)" by blast
  from session_invariant [OF m _ run] m show ?thesis by force
qed

text \<open>C1: the reads of a session that is mounted with caches, of at most \<open>2\<^sup>3\<^sup>0\<close> MiB (without caches every read of a
  stored block faults, C36). The image stores a tree whose regular files are stored with their contents: every
  block and tail can be read and decoded, and one map \<open>K\<close> gives the contents of the cache keys of all of them,
  which leaves out images where the position of a data block equals the index of a fragment with other content
  (there reads go wrong, C37). The allocations of the callbacks succeed; those of the cache entries may
  fail. Then after any sequence of opens, reads and releases, in any order and with any evictions of the
  cache in between, a read through any open handle, of a size an \<open>int\<close> holds and with an end below \<open>2\<^sup>6\<^sup>4\<close>, returns, and returns exactly the
  part of that file's content the caller asked for.\<close>

theorem session_reads_correct:
  assumes "fst (init_context lib mem env fd mb False g) = Some (Inr ctx0)" and "unat mb \<le> 2 ^ 30"
    and "tree_stored (h_mem E) ctx0 (root_inode (disk (ctx_sb ctx0))) t"
    and "files_stored (h_mem E) K ctx0 t content" and "\<forall>k. h_mem E k \<noteq> 0"
    and "(fuse_step E)\<^sup>*\<^sup>* (mounted ctx0) s" and "se_open s a = Some fh"
    and "unat offset + unat sz < 2 ^ 64" and "unat sz < 2 ^ 31"
  shows "\<exists>i ctx'. fh_inode fh = Some i \<and> sqfs_fuse_read E (Some fh) sz offset (se_ctx s)
    = Some (Inr (segment (content i) (unat offset) (unat sz)), ctx')"
proof -
  have "coherent K ctx0" using init_context_ok [OF assms(1,2)] empty_cache_coherent by blast
  from session_read [OF session_reads_run [OF assms(6) this assms(3-5)] assms(4,5,7,8)] show ?thesis by blast
qed

theorem session_reads_correct_witness:
  "\<exists>ctx0 s ctx'. fst (init_context stored_lib mem_ok env_ok fs_file 32 False (sqfs_stats_init 0)) = Some (Inr ctx0)
     \<and> (fuse_step small_heap)\<^sup>*\<^sup>* (mounted ctx0) s
     \<and> sqfs_fuse_read small_heap (Some fs_handle) 2 1 (se_ctx s) = Some (Inr [2, 3], ctx')"
proof -
  from fs_session obtain ctx0 where
    m: "fst (init_context stored_lib mem_ok env_ok fs_file 32 False (sqfs_stats_init 0)) = Some (Inr ctx0)"
    and img: "same_image fs_ctx ctx0"
    and run: "(fuse_step small_heap)\<^sup>*\<^sup>* (mounted ctx0) ((mounted ctx0)\<lparr>se_open := [1 \<mapsto> fs_handle]\<rparr>)" by blast
  have "\<exists>i ctx'. fh_inode fs_handle = Some i
      \<and> sqfs_fuse_read small_heap (Some fs_handle) 2 1 (se_ctx ((mounted ctx0)\<lparr>se_open := [1 \<mapsto> fs_handle]\<rparr>))
        = Some (Inr (segment (fs_content i) (unat (1 :: u64)) (unat (2 :: u64))), ctx')"
    using session_reads_correct [OF m _ _ _ _ run, of fs_tree "[189 \<mapsto> [1, 2, 3, 4]]" fs_content 1 fs_handle 1 2]
      fs_mounted_tree [OF img] fs_files_stored [OF img] mem_ok_pos by simp
  with m run show ?thesis by (fastforce simp: fs_content_def segment_def)
qed

text \<open>C38: extended attributes are never delivered. Nothing fills the table of attributes of a mount, so in
  every state of a session, on every image, \<open>sqfs_fuse_getxattr\<close> fails and \<open>sqfs_fuse_listxattr\<close> fails or
  delivers an empty list.\<close>

theorem xattrs_never_available:
  assumes "fst (init_context lib mem env fd mb False g) = Some (Inr ctx0)" and "unat mb \<le> 2 ^ 30"
    and "(fuse_step E)\<^sup>*\<^sup>* (mounted ctx0) s"
  shows "(\<exists>e. sqfs_fuse_getxattr mem' (se_ctx s) path name buf = Inl e)
    \<and> (\<forall>r. sqfs_fuse_listxattr mem' (se_ctx s) path buf = Inr r \<longrightarrow> r = ([], 0))"
proof -
  note init = init_context_ok [OF assms(1,2)]
  have "session_ok ctx0 s" using session_ok_run [OF assms(3)] init by (auto simp: cache_valid_def)
  then have none: "ctx_xattr_table (se_ctx s) = None" using init by (auto simp: session_ok_def same_ctx_def)
  have "sqfs_fuse_getxattr mem' (se_ctx s) path name buf \<noteq> Inr r" for r
    by (auto simp: sqfs_fuse_getxattr_def sqfs_vfs_getxattr_def sqfs_xattr_get_def none rbind_eq_Inr_iff to_vfs_Inr
        split: if_splits)
  moreover have "sqfs_fuse_listxattr mem' (se_ctx s) path buf = Inr r \<Longrightarrow> r = ([], 0)" for r
    by (auto simp: sqfs_fuse_listxattr_def sqfs_vfs_listxattr_def sqfs_xattr_list_def none rbind_eq_Inr_iff to_vfs_Inr
        split: if_splits)
  ultimately show ?thesis by (metis sum.exhaust)
qed

theorem xattrs_never_available_witness:
  "\<exists>ctx0. has_xattrs (ctx_sb ctx0) \<and> (\<exists>e. sqfs_fuse_getxattr mem_ok ctx0 [47, 97] [120] None = Inl e)"
proof -
  from fs_session obtain ctx0 where
    m: "fst (init_context stored_lib mem_ok env_ok fs_file 32 False (sqfs_stats_init 0)) = Some (Inr ctx0)"
    and img: "same_image fs_ctx ctx0" by blast
  have "has_xattrs (ctx_sb fs_ctx)" by (simp add: fs_ctx_def fs_sb_def)
  then have "has_xattrs (ctx_sb ctx0)" using img by (simp add: same_image_def)
  moreover from xattrs_never_available [OF m, of small_heap "mounted ctx0" mem_ok "[47, 97]" "[120]" None]
  have "\<exists>e. sqfs_fuse_getxattr mem_ok ctx0 [47, 97] [120] None = Inl e" by (simp add: mounted_def)
  ultimately show ?thesis by blast
qed

text \<open>C36: a mount without caches cannot read files. With \<open>--nocache\<close> the caches stay all zero, but the
  reader uses the data cache all the same: a read that starts in any block of a file that is not a hole
  dereferences the null pointer of the missing table, for every image.\<close>

theorem nocache_read_faults:
  assumes "fst (init_context lib mem env fd mb True g) = Some (Inr ctx)"
    and "sqfs_file_ctx_init (ctx_sb ctx) i = Inr fc" and "\<forall>k. h_mem E k \<noteq> 0"
    and "offset < fc_file_size fc" and "0 < sz" and "unat offset + unat sz < 2 ^ 64"
    and "fc_block_size fc \<noteq> 0" and "unat (fc_block_count fc) = length (fc_blocks fc)"
    and "unat offset div unat (fc_block_size fc) < length (fc_blocks fc)"
    and "fc_blocks fc ! (unat offset div unat (fc_block_size fc)) \<noteq> 0"
  shows "sqfs_data_read E i offset sz ctx = Some (Inl (Fault Null_Deref), ctx)"
proof -
  from data_read_reaches_loop [OF assms(2-6)] obtain n where
    run: "sqfs_data_read E i offset sz ctx = data_read_loop E fc offset [] n ctx" and n: "0 < n" by metis
  have off: "unat offset mod unat (fc_block_size fc) < unat (fc_block_size fc)"
    using assms(7) by (simp add: unat_gt_0)
  have "data_read_step E fc offset n ctx = Some (Inl (Fault Null_Deref), ctx)"
    using stored_step [OF assms(7-10) _ off] zero_cache_get init_context_nocache [OF assms(1)]
    by (simp add: read_stored_def)
  with run n show ?thesis by (simp add: data_read_loop.simps)
qed

theorem nocache_read_faults_witness:
  "\<exists>ctx. fst (init_context stored_lib mem_ok env_ok fs_file 32 True (sqfs_stats_init 0)) = Some (Inr ctx)
     \<and> sqfs_data_read small_heap file_inode_ram 0 1 ctx = Some (Inl (Fault Null_Deref), ctx)"
proof -
  from fs_mount [OF mem_ok_pos] obtain ctx where
    m: "fst (init_context stored_lib mem_ok env_ok fs_file 32 True (sqfs_stats_init 0)) = Some (Inr ctx)"
    and img: "same_image fs_ctx ctx" by blast
  have "sqfs_file_ctx_init (ctx_sb ctx) file_inode_ram = Inr fs_fc" using fs_fc_init img by (simp add: same_image_def)
  from nocache_read_faults [OF m this, of small_heap 0 1] m mem_ok_pos show ?thesis
    by (auto simp: fs_fc_def fc_blocks_def)
qed

text \<open>C21: the table of ids. For an image with at most 2048 ids, stored as the format has them (a block of
  32-bit ids, the table one 64-bit position for the block), \<open>load_id_table\<close> loads exactly those ids if the
  image goes on for 8 bytes per id from the table on, and otherwise refuses it as corrupt: it
  reads as many positions as there are ids, although the table has one for each block.\<close>

theorem id_table_loads_iff:
  assumes "reliable (sb_fd (ctx_sb ctx))" and "\<forall>k. mem k \<noteq> 0" and "ctx_comp ctx \<noteq> None"
    and "unat (id_count (disk (ctx_sb ctx))) = length ids" and "ids \<noteq> []" and "length ids \<le> 2048"
    and "f_image (sb_fd (ctx_sb ctx)) = pre @ block_bytes b @ post" and "length (f_image (sb_fd (ctx_sb ctx))) < 2 ^ 62"
    and "block_wf (ctx_comp ctx) b" and "block_data b = concat (map put_le32 ids)"
    and "unat (id_table (disk (ctx_sb ctx))) = p" and "p + 8 \<le> length (f_image (sb_fd (ctx_sb ctx)))"
    and "segment (f_image (sb_fd (ctx_sb ctx))) p 8 = put_le64 (of_nat (length pre))"
  shows "load_id_table mem ctx =
    (if p + 8 * length ids \<le> length (f_image (sb_fd (ctx_sb ctx)))
     then Some (Inr (), ctx\<lparr>ctx_id_table := Some ids, ctx_id_count := length ids\<rparr>)
     else Some (Inl (Err SQFS_ERR_CORRUPT), ctx))"
  using assms by (rule load_ids)

text \<open>Two ids in a block at the start, the table behind it, and \<open>k\<close> bytes behind the table.\<close>

definition ids_ctx :: "nat \<Rightarrow> sqfs_ctx" where
  "ids_ctx k = fs_ctx\<lparr>ctx_sb := (ctx_sb fs_ctx)\<lparr>disk := fs_superblock\<lparr>id_count := 2, id_table := 10\<rparr>,
     sb_fd := \<lparr>f_image = block_bytes (Raw (concat (map put_le32 [0, 1000]))) @ put_le64 0 @ replicate k 0,
       f_stat_size = None, f_events = (\<lambda>_ _. [])\<rparr>\<rparr>\<rparr>"

theorem id_table_loads_iff_witness:
  "load_id_table mem_ok (ids_ctx 8)
     = Some (Inr (), (ids_ctx 8)\<lparr>ctx_id_table := Some [0, 1000], ctx_id_count := 2\<rparr>)
   \<and> load_id_table mem_ok (ids_ctx 0) = Some (Inl (Err SQFS_ERR_CORRUPT), ids_ctx 0)"
proof -
  have "load_id_table mem_ok (ids_ctx k) =
    (if 26 \<le> 18 + k then Some (Inr (), (ids_ctx k)\<lparr>ctx_id_table := Some [0, 1000], ctx_id_count := 2\<rparr>)
     else Some (Inl (Err SQFS_ERR_CORRUPT), ids_ctx k))" if "k \<le> 8" for k
    using id_table_loads_iff [OF _ mem_ok_pos, of "ids_ctx k" "[0, 1000]" "[]"
        "Raw (concat (map put_le32 [0, 1000]))" "put_le64 0 @ replicate k 0" 10] that
    by (simp add: ids_ctx_def reliable_def segment_skip segment_head)
  from this [of 8] this [of 0] show ?thesis by simp
qed

text \<open>Options with a value. The usage text documents \<open>--cache-size SIZE\<close>, \<open>-o OPTS\<close>, \<open>--options OPTS\<close>,
  \<open>-d LEVEL\<close> and \<open>--debug LEVEL\<close>; the first pass knows none of these forms, so the value is taken as the
  image, the image as the mount point, and the cache keeps its size.\<close>

theorem option_value_taken_as_image:
  assumes "opt \<in> {''--cache-size'', ''-o'', ''--options'', ''-d'', ''--debug''}" and "\<forall>k. mem k \<noteq> 0"
    and "\<forall>w \<in> {v, img, mnt}. w \<noteq> [] \<and> hd w \<noteq> CHR ''-''" and "o_image opts = None" and "o_mount opts = None"
  shows "parse_args mem [opt, v, img, mnt] opts = Parsed (opts\<lparr>o_image := Some v, o_mount := Some img\<rparr>)"
proof -
  from assms(3) have w: "v \<noteq> []" "hd v \<noteq> CHR ''-''" "img \<noteq> []" "hd img \<noteq> CHR ''-''" "mnt \<noteq> []" "hd mnt \<noteq> CHR ''-''"
    by blast+
  from assms(1) have "parse_args mem [opt, v, img, mnt] opts = parse_args mem [v, img, mnt] opts"
    by (elim insertE emptyE) (simp_all only: parse_value_option)
  also have "\<dots> = Parsed (opts\<lparr>o_image := Some v, o_mount := Some img\<rparr>)"
    unfolding parse_word [OF w(1,2) assms(2)] parse_word [OF w(3,4) assms(2)] parse_word [OF w(5,6) assms(2)]
    using assms(4,5) by simp
  finally show ?thesis .
qed

theorem option_value_taken_as_image_witness:
  "parse_args mem_ok [''--cache-size'', ''64'', ''disk.img'', ''/mnt'']
     \<lparr>o_image = None, o_mount = None, o_cache_size_mb = 32, o_no_cache = False\<rparr>
   = Parsed \<lparr>o_image = Some ''64'', o_mount = Some ''disk.img'', o_cache_size_mb = 32, o_no_cache = False\<rparr>"
  using option_value_taken_as_image [OF _ mem_ok_pos, where v = "''64''" and img = "''disk.img''" and mnt = "''/mnt''"
      and opt = "''--cache-size''"] by simp

end
