(* ===== verification/CacheThreads.thy ===== *)
theory CacheThreads
  imports CacheStore
begin

text \<open>
  The cache under concurrent use. The lock of a cache is a readers-writer lock: a look-up searches
  and counts under the read lock, which other look-ups may hold at the same time, gives it up, and
  moves the entry under the write lock; storing, removing and clearing happen under the write
  lock. The threads take these pieces in any interleaving the lock admits. The increment of a counter
  under the read lock is a load and a store, as nothing orders it with the other readers.
\<close>

section \<open>The pieces of a look-up\<close>

text \<open>The search under the read lock.\<close>

definition cache_lookup :: "'v sqfs_cache \<Rightarrow> cache_key \<Rightarrow> 'v option lres" where
  "cache_lookup c key =
     lbind (hash_find c key) (\<lambda>r. case r of
         None \<Rightarrow> Some (Inr None)
       | Some r \<Rightarrow> Some (rbind (deref c r) (\<lambda>e. Inr (Some (ce_value e)))))"

text \<open>Loading and storing the counter that belongs to the outcome of the search.\<close>

definition load_count :: "'v option \<Rightarrow> 'v sqfs_cache \<Rightarrow> u64" where
  "load_count v c = (case v of None \<Rightarrow> c_misses c | Some _ \<Rightarrow> c_hits c)"

definition store_count :: "'v option \<Rightarrow> u64 \<Rightarrow> 'v sqfs_cache \<Rightarrow> 'v sqfs_cache" where
  "store_count v n c = (case v of None \<Rightarrow> c\<lparr>c_misses := n\<rparr> | Some _ \<Rightarrow> c\<lparr>c_hits := n\<rparr>)"

text \<open>Without another thread in between, the pieces make up the look-up.\<close>

lemma get_in_pieces:
  "sqfs_cache_get c k =
     lbind (cache_lookup c k) (\<lambda>v. let c = store_count v (load_count v c + 1) c in
       case v of
         None \<Rightarrow> Some (Inr (None, c))
       | Some x \<Rightarrow> lbind (cache_get_touch c k) (\<lambda>c. Some (Inr (Some x, c))))"
proof -
  have "cache_get_find c k = lbind (cache_lookup c k) (\<lambda>v. Some (Inr (v, store_count v (load_count v c + 1) c)))"
    by (auto simp: cache_get_find_def cache_lookup_def lbind_def load_count_def store_count_def rbind_def
        split: option.split sum.split)
  then show ?thesis
    by (auto simp: sqfs_cache_get_def lbind_def Let_def split: option.split sum.split)
qed

section \<open>Threads\<close>

text \<open>A thread is between two calls, or holds the read lock with the outcome of its search and the count it
  has loaded, or has a value and waits for the write lock.\<close>

datatype 'v thread = Idle | Counting cache_key "'v option" u64 | Touching cache_key 'v

text \<open>The shared cache, the threads, and a record of what has happened: the finished searches, the pairs handed
  to \<open>Put\<close>, the values accepted, the values handed out.\<close>

record 'v shared =
  sh_cache :: "'v sqfs_cache"
  sh_thread :: "nat \<Rightarrow> 'v thread"
  sh_counted :: nat
  sh_stored :: "(cache_key \<times> 'v) set"
  sh_accepted :: "'v list"
  sh_returned :: "(cache_key \<times> 'v) set"

definition shared_start :: "'v sqfs_cache \<Rightarrow> 'v shared" where
  "shared_start c = \<lparr>sh_cache = c, sh_thread = \<lambda>_. Idle, sh_counted = 0, sh_stored = {}, sh_accepted = [],
     sh_returned = {}\<rparr>"

definition no_readers :: "'v shared \<Rightarrow> bool" where
  "no_readers s \<longleftrightarrow> (\<forall>t k v n. sh_thread s t \<noteq> Counting k v n)"

fun write_op :: "'v cache_op \<Rightarrow> bool" where
  "write_op (Get _) = False"
| "write_op _ = True"

fun put_pair :: "'v cache_op \<Rightarrow> (cache_key \<times> 'v) set" where
  "put_pair (Put k v _ _) = {(k, v)}"
| "put_pair _ = {}"

inductive thread_step :: "'v entry_alloc \<Rightarrow> 'v shared \<Rightarrow> 'v shared \<Rightarrow> bool" for alloc where
  search: "sh_thread s t = Idle \<Longrightarrow> cache_lookup (sh_cache s) k = Some (Inr v) \<Longrightarrow>
    thread_step alloc s (s\<lparr>sh_thread := (sh_thread s)(t := Counting k v (load_count v (sh_cache s)))\<rparr>)"
| miss: "sh_thread s t = Counting k None n \<Longrightarrow>
    thread_step alloc s (s\<lparr>sh_cache := store_count None (n + 1) (sh_cache s), sh_thread := (sh_thread s)(t := Idle),
      sh_counted := Suc (sh_counted s)\<rparr>)"
| hit: "sh_thread s t = Counting k (Some v) n \<Longrightarrow>
    thread_step alloc s (s\<lparr>sh_cache := store_count (Some v) (n + 1) (sh_cache s),
      sh_thread := (sh_thread s)(t := Touching k v), sh_counted := Suc (sh_counted s)\<rparr>)"
| touch: "sh_thread s t = Touching k v \<Longrightarrow> no_readers s \<Longrightarrow> cache_get_touch (sh_cache s) k = Some (Inr c) \<Longrightarrow>
    thread_step alloc s (s\<lparr>sh_cache := c, sh_thread := (sh_thread s)(t := Idle),
      sh_returned := insert (k, v) (sh_returned s)\<rparr>)"
| modify: "sh_thread s t = Idle \<Longrightarrow> no_readers s \<Longrightarrow> write_op op \<Longrightarrow>
    cache_step alloc (sh_cache s) op = Some (Inr (vs, c)) \<Longrightarrow>
    thread_step alloc s (s\<lparr>sh_cache := c, sh_stored := put_pair op \<union> sh_stored s,
      sh_accepted := sh_accepted s @ vs\<rparr>)"

inductive_cases thread_stepE: "thread_step alloc s s'"

section \<open>The pieces on a valid cache\<close>

lemma store_count_same [simp]:
  "cache_inv (store_count v n c) ps = cache_inv c ps" "abs_cache (store_count v n c) ps = abs_cache c ps"
  "c_freed (store_count v n c) = c_freed c" "c_free_fn (store_count v n c) = c_free_fn c"
  "c_heap (store_count v n c) = c_heap c"
  by (rule cache_inv_cong | simp add: store_count_def split: option.split)+

lemma balanced_store_count [simp]: "balanced (store_count v n c) A = balanced c A"
  by (simp add: balanced_def)

lemma bindings_store_count [simp]: "cache_bindings (store_count v n c) = cache_bindings c"
  by (simp add: cache_bindings_def)

lemma counts_store_count [simp]:
  "c_hits (store_count v n c) = (if v = None then c_hits c else n)"
  "c_misses (store_count v n c) = (if v = None then n else c_misses c)"
  by (auto simp: store_count_def split: option.split)

lemma lookup_ok:
  assumes inv: "cache_inv c ps"
  shows "cache_lookup c k = Some (Inr (map_option fst (map_of (abs_cache c ps) k)))"
proof (cases "map_of (abs_cache c ps) k")
  case None
  with find_miss [OF inv None] show ?thesis by (simp add: cache_lookup_def)
next
  case (Some p)
  from entry_split [OF inv Some] obtain xs r ys where ps: "ps = xs @ r # ys" and k: "key_of c r = k"
    and kv: "key_view (c_heap c) r = Some (k, p)" by blast
  from kv obtain e where "c_heap c r = Some e" "ce_value e = fst p" by (auto simp: key_view_def)
  with find_hit [OF inv [unfolded ps] k] Some show ?thesis by (simp add: cache_lookup_def deref_def)
qed

lemma touch_ok:
  assumes inv: "cache_inv c ps"
  shows "\<exists>c' ps'. cache_get_touch c k = Some (Inr c') \<and> cache_inv c' ps'
    \<and> abs_cache c' ps' = lru_touch k (abs_cache c ps) \<and> c_freed c' = c_freed c \<and> same_config c c'"
proof (cases "map_of (abs_cache c ps) k")
  case None
  with find_miss [OF inv None] inv show ?thesis
    by (intro exI [of _ c] exI [of _ ps]) (simp add: cache_get_touch_def lru_touch_def)
next
  case (Some p)
  from entry_split [OF inv Some] obtain xs r ys where ps: "ps = xs @ r # ys" and k: "key_of c r = k"
    and kv: "key_view (c_heap c) r = Some (k, p)"
    and abs: "abs_cache c ps = abs_cache c xs @ (k, p) # abs_cache c ys"
    and nk: "k \<notin> fst ` set (abs_cache c xs @ abs_cache c ys)" by blast
  from move_inv [OF inv [unfolded ps]] obtain h hd tl where
    mv: "lru_move_to_head c r = Inr (c\<lparr>c_heap := h, c_head := hd, c_tail := tl\<rparr>)"
    and kvh: "key_view h = key_view (c_heap c)"
    and inv2: "cache_inv (c\<lparr>c_heap := h, c_head := hd, c_tail := tl\<rparr>) (r # xs @ ys)" by blast
  let ?d = "c\<lparr>c_heap := h, c_head := hd, c_tail := tl\<rparr>"
  have "abs_cache ?d zs = abs_cache c zs" for zs by (intro abs_cache_cong) (simp add: kvh)
  then have "abs_cache ?d (r # xs @ ys) = lru_touch k (abs_cache c ps)"
    using Some lru_delete_split [OF nk, of p] by (simp add: lru_touch_def kv kvh abs)
  with inv2 mv find_hit [OF inv [unfolded ps] k] show ?thesis
    by (intro exI [of _ ?d] exI [of _ "r # xs @ ys"]) (simp add: cache_get_touch_def same_config_def)
qed

text \<open>What a locked step keeps: the account of the values, the counters, and that nothing is bound that was
  not bound before or has just been stored.\<close>

definition step_keeps :: "'v sqfs_cache \<Rightarrow> 'v multiset \<Rightarrow> (cache_key \<times> 'v) set \<Rightarrow> 'v sqfs_cache \<Rightarrow> bool" where
  "step_keeps c A new c' \<longleftrightarrow> balanced c' A \<and> cache_bindings c' \<subseteq> new \<union> cache_bindings c
     \<and> c_hits c' = c_hits c \<and> c_misses c' = c_misses c"

lemma touch_keeps:
  assumes "balanced c A"
  shows "\<exists>c'. cache_get_touch c k = Some (Inr c') \<and> step_keeps c A {} c'"
proof -
  from assms obtain ps where ff: "c_free_fn c" and inv: "cache_inv c ps"
    and A: "A = held (abs_cache c ps) + mset (c_freed c)" by (auto simp: balanced_def)
  note dist = cache_invD(4) [OF inv]
  from touch_ok [OF inv, of k] obtain c' ps' where t: "cache_get_touch c k = Some (Inr c')" "cache_inv c' ps'"
    "abs_cache c' ps' = lru_touch k (abs_cache c ps)" "c_freed c' = c_freed c" "same_config c c'" by blast
  then have "balanced c' A" using ff A
    by (auto simp: balanced_def same_config_def held_touch [OF dist] intro!: exI [of _ ps'])
  moreover have "cache_bindings c' = cache_bindings c"
    by (simp add: cache_bindings_abs [OF inv] cache_bindings_abs [OF t(2)] t(3) lru_touch_set [OF dist])
  ultimately show ?thesis using t by (auto simp: step_keeps_def same_config_def)
qed

lemma put_keeps:
  assumes bal: "balanced c A" and fresh: "fresh_alloc alloc"
  shows "\<exists>vs c'. cache_step alloc c (Put k v s ok) = Some (Inr (vs, c')) \<and> step_keeps c (A + mset vs) {(k, v)} c'"
proof -
  from cache_step_balanced [OF bal fresh, of "Put k v s ok"] obtain vs c' where
    st: "cache_step alloc c (Put k v s ok) = Some (Inr (vs, c'))" and b: "balanced c' (A + mset vs)" by blast
  from bal obtain ps where inv: "cache_inv c ps" by (auto simp: balanced_def)
  then have "cache_valid c" by (auto simp: cache_valid_def)
  from cache_put_law [OF this fresh, of ok k v s] st obtain e where
    run: "sqfs_cache_put alloc ok c k (Some v) s = Some (Inr (e, c'))"
    and sub: "cache_bindings c' \<subseteq> insert (k, v) (cache_bindings c)" by auto
  from put_config [OF inv fresh run] st b sub show ?thesis by (auto simp: step_keeps_def same_config_def)
qed

lemma remove_keeps:
  assumes bal: "balanced c A" and fresh: "fresh_alloc alloc"
  shows "\<exists>vs c'. cache_step alloc c (Remove k) = Some (Inr (vs, c')) \<and> step_keeps c (A + mset vs) {} c'"
proof -
  from cache_step_balanced [OF bal fresh, of "Remove k"] obtain vs c' where
    st: "cache_step alloc c (Remove k) = Some (Inr (vs, c'))" and b: "balanced c' (A + mset vs)" by blast
  from bal obtain ps where inv: "cache_inv c ps" by (auto simp: balanced_def)
  from cache_remove_ok [OF inv, of k] st obtain ps' where r: "cache_inv c' ps'"
    "abs_cache c' ps' = lru_delete k (abs_cache c ps)" "same_config c c'" by auto
  then have "cache_bindings c' \<subseteq> cache_bindings c"
    by (auto simp: cache_bindings_abs [OF inv] cache_bindings_abs [OF r(1)] lru_delete_def)
  with st b r(3) show ?thesis by (auto simp: step_keeps_def same_config_def)
qed

lemma clear_keeps:
  assumes bal: "balanced c A" and fresh: "fresh_alloc alloc"
  shows "\<exists>vs c'. cache_step alloc c Clear = Some (Inr (vs, c')) \<and> step_keeps c (A + mset vs) {} c'"
proof -
  from cache_step_balanced [OF bal fresh, of Clear] obtain vs c' where
    st: "cache_step alloc c Clear = Some (Inr (vs, c'))" and b: "balanced c' (A + mset vs)" by blast
  from bal obtain ps where inv: "cache_inv c ps" by (auto simp: balanced_def)
  from cache_clear_ok [OF inv] st have r: "cache_inv c' []" "same_config c c'" by auto
  then have "cache_bindings c' = {}" by (simp add: cache_bindings_abs [OF r(1)])
  with st b r(2) show ?thesis by (auto simp: step_keeps_def same_config_def)
qed

lemma write_keeps:
  assumes "balanced c A" and "fresh_alloc alloc" and "write_op op"
  shows "\<exists>vs c'. cache_step alloc c op = Some (Inr (vs, c')) \<and> step_keeps c (A + mset vs) (put_pair op) c'"
proof (cases op)
  case (Put k v s ok)
  then show ?thesis using put_keeps [OF assms(1,2)] by (simp only: put_pair.simps)
next
  case (Remove k)
  then show ?thesis using remove_keeps [OF assms(1,2)] by (simp only: put_pair.simps)
next
  case Clear
  then show ?thesis using clear_keeps [OF assms(1,2)] by (simp only: put_pair.simps)
qed (use assms(3) in simp)

section \<open>The invariant of every interleaving\<close>

text \<open>The counters count at most the finished searches, and so do the counts the threads have loaded; every
  value in a thread's hands or handed out was stored under its key.\<close>

definition threads_ok :: "nat \<Rightarrow> nat \<Rightarrow> 'v shared \<Rightarrow> bool" where
  "threads_ok H M s \<longleftrightarrow> H + M = sh_counted s
     \<and> unat (c_hits (sh_cache s)) \<le> H \<and> unat (c_misses (sh_cache s)) \<le> M
     \<and> (\<forall>t k n. sh_thread s t = Counting k None n \<longrightarrow> unat n \<le> M)
     \<and> (\<forall>t k v n. sh_thread s t = Counting k (Some v) n \<longrightarrow> unat n \<le> H)
     \<and> (\<forall>t k v n. sh_thread s t = Counting k (Some v) n \<longrightarrow> (k, v) \<in> sh_stored s)
     \<and> (\<forall>t k v. sh_thread s t = Touching k v \<longrightarrow> (k, v) \<in> sh_stored s)
     \<and> sh_returned s \<subseteq> sh_stored s \<and> cache_bindings (sh_cache s) \<subseteq> sh_stored s"

definition shared_ok :: "'v shared \<Rightarrow> bool" where
  "shared_ok s \<longleftrightarrow> balanced (sh_cache s) (mset (sh_accepted s)) \<and> (\<exists>H M. threads_ok H M s)"

lemma unat_inc: "unat ((n :: u64) + 1) \<le> Suc (unat n)"
  by (simp add: unat_word_ariths(1))

lemma lookup_bound:
  assumes "cache_inv c ps" and "cache_lookup c k = Some (Inr (Some v))"
  shows "(k, v) \<in> cache_bindings c"
  using assms(2) by (auto simp: lookup_ok [OF assms(1)] cache_bindings_abs [OF assms(1)] dest!: map_of_SomeD)

lemma shared_ok_step:
  assumes ok: "shared_ok s" and fresh: "fresh_alloc alloc" and step: "thread_step alloc s s'"
  shows "shared_ok s'"
proof -
  from ok obtain H M where bal: "balanced (sh_cache s) (mset (sh_accepted s))" and th: "threads_ok H M s"
    by (auto simp: shared_ok_def)
  from bal obtain ps where inv: "cache_inv (sh_cache s) ps" by (auto simp: balanced_def)
  from step show ?thesis
  proof cases
    case (search t k v)
    have "threads_ok H M s'"
      using th lookup_bound [OF inv] search
      by (auto simp: threads_ok_def load_count_def split: option.splits)
    with bal search show ?thesis by (auto simp: shared_ok_def)
  next
    case (miss t k n)
    with th have "unat n \<le> M" by (fastforce simp: threads_ok_def)
    with unat_inc [of n] have "unat (n + 1) \<le> Suc M" by linarith
    with th miss have "threads_ok H (Suc M) s'" by (auto simp: threads_ok_def intro: le_SucI split: if_splits)
    with bal miss show ?thesis by (auto simp: shared_ok_def)
  next
    case (hit t k v n)
    with th have "unat n \<le> H" by (fastforce simp: threads_ok_def)
    with unat_inc [of n] have "unat (n + 1) \<le> Suc H" by linarith
    moreover from th hit(2) have "(k, v) \<in> sh_stored s" unfolding threads_ok_def by blast
    ultimately have "threads_ok (Suc H) M s'" using th hit by (auto simp: threads_ok_def intro: le_SucI split: if_splits)
    with bal hit show ?thesis by (auto simp: shared_ok_def)
  next
    case (touch t k v c)
    with touch_keeps [OF bal, of k] have keeps: "step_keeps (sh_cache s) (mset (sh_accepted s)) {} c" by auto
    with th touch have "threads_ok H M s'" by (auto simp: threads_ok_def step_keeps_def split: if_splits)
    with keeps touch show ?thesis by (auto simp: shared_ok_def step_keeps_def)
  next
    case (modify t op vs c)
    with write_keeps [OF bal fresh, of op]
    have keeps: "step_keeps (sh_cache s) (mset (sh_accepted s) + mset vs) (put_pair op) c" by auto
    with th modify have "threads_ok H M s'" by (auto simp: threads_ok_def step_keeps_def)
    with keeps modify show ?thesis by (auto simp: shared_ok_def step_keeps_def)
  qed
qed

lemma shared_ok_run:
  assumes "(thread_step alloc)\<^sup>*\<^sup>* (shared_start c) s" and "cache_inv c []" and "c_free_fn c"
    and "c_freed c = []" "c_hits c = 0" "c_misses c = 0" and "fresh_alloc alloc"
  shows "shared_ok s"
  using assms(1)
proof induction
  case base
  have "balanced c {#}" using assms(2-4) by (auto simp: balanced_def intro!: exI [of _ "[]"])
  moreover have "cache_bindings c = {}" using cache_bindings_abs [OF assms(2)] by simp
  ultimately show ?case using assms(5,6) by (auto simp: shared_ok_def shared_start_def threads_ok_def)
next
  case (step s s')
  then show ?case using shared_ok_step assms(7) by blast
qed

section \<open>Overlapping look-ups\<close>

text \<open>Two threads that look the same key up at the same time.\<close>

lemma overlapping_run:
  assumes inv: "cache_inv c ps" and k: "map_of (abs_cache c ps) k = Some (v, z)"
  shows "\<exists>s. (thread_step alloc)\<^sup>*\<^sup>* (shared_start c) s \<and> sh_counted s = 2 \<and> sh_thread s = (\<lambda>_. Idle)
    \<and> sh_returned s = {(k, v)} \<and> c_hits (sh_cache s) = c_hits c + 1 \<and> c_misses (sh_cache s) = c_misses c"
proof -
  define n where "n = c_hits c"
  define c1 where "c1 = store_count (Some v) (n + 1) c"
  define sa where "sa = (shared_start c)\<lparr>sh_thread := (\<lambda>_. Idle)(0 := Counting k (Some v) n)\<rparr>"
  define sb where "sb = sa\<lparr>sh_thread := (sh_thread sa)(1 := Counting k (Some v) n)\<rparr>"
  define sc where "sc = sb\<lparr>sh_cache := c1, sh_thread := (sh_thread sb)(0 := Touching k v), sh_counted := 1\<rparr>"
  define sd where "sd = sc\<lparr>sh_thread := (sh_thread sc)(1 := Touching k v), sh_counted := 2\<rparr>"
  have look: "cache_lookup c k = Some (Inr (Some v))" using lookup_ok [OF inv, of k] k by simp
  have "thread_step alloc (shared_start c) sa"
    using thread_step.search [of "shared_start c" 0 k "Some v" alloc] look
    by (simp add: sa_def n_def shared_start_def load_count_def)
  moreover have "thread_step alloc sa sb"
    using thread_step.search [of sa 1 k "Some v" alloc] look
    by (simp add: sb_def sa_def n_def shared_start_def load_count_def)
  moreover have "thread_step alloc sb sc"
    using thread_step.hit [of sb 0 k v n alloc] by (simp add: sc_def sb_def sa_def c1_def shared_start_def)
  moreover have "thread_step alloc sc sd"
  proof -
    have "store_count (Some v) (n + 1) c1 = c1" by (simp add: c1_def store_count_def)
    then show ?thesis using thread_step.hit [of sc 1 k v n alloc] by (simp add: sd_def sc_def sb_def sa_def numeral_2_eq_2)
  qed
  ultimately have d: "(thread_step alloc)\<^sup>*\<^sup>* (shared_start c) sd" by (meson r_into_rtranclp rtranclp_trans)
  have threads: "sh_thread sd = (\<lambda>_. Idle)(0 := Touching k v, 1 := Touching k v)"
    by (auto simp: sd_def sc_def sb_def sa_def fun_eq_iff)
  from inv have inv1: "cache_inv c1 ps" by (simp add: c1_def)
  from touch_ok [OF inv1, of k] obtain c2 ps2 where t1: "cache_get_touch c1 k = Some (Inr c2)" "cache_inv c2 ps2"
    "same_config c1 c2" by blast
  from touch_ok [OF t1(2), of k] obtain c3 where t2: "cache_get_touch c2 k = Some (Inr c3)" "same_config c2 c3" by blast
  define se where "se = sd\<lparr>sh_cache := c2, sh_thread := (\<lambda>_. Idle)(1 := Touching k v), sh_returned := {(k, v)}\<rparr>"
  define sf where "sf = sd\<lparr>sh_cache := c3, sh_thread := \<lambda>_. Idle, sh_returned := {(k, v)}\<rparr>"
  have cache: "sh_cache sd = c1" "sh_returned sd = {}" by (simp_all add: sd_def sc_def sb_def sa_def shared_start_def)
  have upd: "(sh_thread sd)(0 := Idle) = (\<lambda>_. Idle)(1 := Touching k v)" by (auto simp: threads fun_eq_iff)
  have "no_readers sd" "sh_thread sd 0 = Touching k v" by (auto simp: no_readers_def threads)
  from thread_step.touch [OF this(2,1), of c2 alloc] have "thread_step alloc sd se"
    using t1(1) by (simp add: se_def upd cache)
  moreover have "no_readers se" "sh_thread se 1 = Touching k v" by (auto simp: no_readers_def se_def)
  from thread_step.touch [OF this(2,1), of c3 alloc] have "thread_step alloc se sf"
    using t2(1) by (simp add: sf_def se_def fun_upd_idem)
  ultimately have "(thread_step alloc)\<^sup>*\<^sup>* (shared_start c) sf" using d by (meson rtranclp.rtrancl_into_rtrancl)
  moreover have "c_hits c3 = c_hits c + 1" "c_misses c3 = c_misses c"
    using t1(3) t2(2) by (simp_all add: same_config_def c1_def n_def)
  ultimately show ?thesis by (intro exI [of _ sf]) (simp add: sf_def se_def sd_def)
qed

section \<open>Properties\<close>

text \<open>C18: the cache is safe for any number of threads. From its creation on, in every state that any
  interleaving of look-ups, stores, removals and clearings of any threads reaches that the lock admits: no piece
  of a look-up and no other operation faults or hangs; the values accepted so far are those it holds and those it
  has freed, so none is freed twice or lost; a look-up hands out only values that were stored under its key;
  and the statistics never count more look-ups than were made.\<close>

theorem threads_safe:
  assumes "sqfs_cache_init True True maxe maxm True = Inr c" and "(unat maxe + 1) * unat maxm < 2 ^ 64"
    and "fresh_alloc alloc" and "(thread_step alloc)\<^sup>*\<^sup>* (shared_start c) s"
  shows "(\<exists>v. cache_lookup (sh_cache s) k = Some (Inr v)) \<and> (\<exists>c'. cache_get_touch (sh_cache s) k = Some (Inr c'))
    \<and> (\<exists>r. cache_step alloc (sh_cache s) op = Some (Inr r))
    \<and> (\<exists>ps. cache_inv (sh_cache s) ps \<and> mset (sh_accepted s) = held (abs_cache (sh_cache s) ps) + mset (c_freed (sh_cache s)))
    \<and> sh_returned s \<subseteq> sh_stored s
    \<and> unat (c_hits (sh_cache s)) + unat (c_misses (sh_cache s)) \<le> sh_counted s"
proof -
  from cache_init_ok [OF assms(1,2)] have "cache_inv c []" "c_free_fn c" "c_freed c = []" "c_hits c = 0" "c_misses c = 0"
    by auto
  from shared_ok_run [OF assms(4) this assms(3)] obtain H M where
    bal: "balanced (sh_cache s) (mset (sh_accepted s))" and th: "threads_ok H M s" by (auto simp: shared_ok_def)
  from bal obtain ps where inv: "cache_inv (sh_cache s) ps"
    and acc: "mset (sh_accepted s) = held (abs_cache (sh_cache s) ps) + mset (c_freed (sh_cache s))"
    by (auto simp: balanced_def)
  from th have "sh_returned s \<subseteq> sh_stored s" "unat (c_hits (sh_cache s)) + unat (c_misses (sh_cache s)) \<le> sh_counted s"
    by (auto simp: threads_ok_def)
  moreover have "\<exists>c'. cache_get_touch (sh_cache s) k = Some (Inr c')" using touch_ok [OF inv, of k] by blast
  moreover have "\<exists>r. cache_step alloc (sh_cache s) op = Some (Inr r)" using cache_step_balanced [OF bal assms(3)] by blast
  ultimately show ?thesis using lookup_ok [OF inv, of k] inv acc by blast
qed

theorem threads_safe_witness:
  "\<exists>s. (thread_step (first_free 2))\<^sup>*\<^sup>* (shared_start small_cache) s \<and> sh_stored s = {(7, 5)}
    \<and> (\<exists>v. cache_lookup (sh_cache s) 7 = Some (Inr v)) \<and> sh_returned s \<subseteq> {(7, 5)}"
proof -
  have bal: "balanced small_cache {#}"
    using small_cache_inv by (auto simp: balanced_def small_cache_def zero_cache_def intro!: exI [of _ "[]"])
  from write_keeps [OF bal first_free_fresh, of "Put 7 5 10 True" 2] obtain vs c where
    st: "cache_step (first_free 2) small_cache (Put 7 5 10 True) = Some (Inr (vs, c))" by auto
  let ?s = "(shared_start small_cache)\<lparr>sh_cache := c, sh_stored := {(7, 5)}, sh_accepted := vs\<rparr>"
  have "thread_step (first_free 2) (shared_start small_cache) ?s"
    using thread_step.modify [of "shared_start small_cache" 0 "Put 7 5 10 True" "first_free 2" vs c] st
    by (simp add: shared_start_def no_readers_def)
  then have run: "(thread_step (first_free 2))\<^sup>*\<^sup>* (shared_start small_cache) ?s" by blast
  from threads_safe [OF small_cache_init _ first_free_fresh run, of 7] run show ?thesis
    by (intro exI [of _ ?s]) simp
qed

text \<open>C34: a count can be lost. The counters are advanced under the read lock, which does not keep two
  look-ups apart: whenever a key is bound, two threads that look it up at the same time both get the value,
  and the counter of hits advances by one only.\<close>

theorem hit_count_lost:
  assumes "cache_inv c ps" and "map_of (abs_cache c ps) k = Some (v, z)"
  shows "\<exists>s. (thread_step alloc)\<^sup>*\<^sup>* (shared_start c) s \<and> sh_counted s = 2 \<and> sh_thread s = (\<lambda>_. Idle)
    \<and> sh_returned s = {(k, v)} \<and> c_hits (sh_cache s) = c_hits c + 1 \<and> c_misses (sh_cache s) = c_misses c"
  using assms by (rule overlapping_run)

theorem hit_count_lost_witness:
  "\<exists>c s. sqfs_cache_put (first_free 2) True small_cache 7 (Some 5) 10 = Some (Inr (None, c))
    \<and> (thread_step (first_free 2))\<^sup>*\<^sup>* (shared_start c) s \<and> sh_counted s = 2 \<and> c_hits (sh_cache s) = 1"
proof -
  have room: "lru_put (unat (2::u64)) (unat (10::u64)) 7 5 10 [] = ([(7, 5, 10)], [] :: nat list)"
    by (simp add: lru_put_def lru_evict.simps)
  have "c_hits small_cache = 0" by (simp add: small_cache_def zero_cache_def)
  with cache_put_ok [of small_cache "[]" 10 "first_free 2" True 7 5] small_cache_inv room
  obtain c ps where p: "sqfs_cache_put (first_free 2) True small_cache 7 (Some 5) 10 = Some (Inr (None, c))"
    "cache_inv c ps" "abs_cache c ps = [(7, 5, 10)]" "c_hits c = 0"
    by (fastforce simp: first_free_fresh first_free_serves same_config_def)
  have "map_of (abs_cache c ps) 7 = Some (5, 10)" by (simp add: p(3))
  from hit_count_lost [OF p(2) this, of "first_free 2"] p show ?thesis by (auto intro!: exI [of _ c])
qed

end
