(* ===== verification/ImageTree.thy ===== *)
theory ImageTree
  imports SessionClaims
begin

text \<open>
  The whole file system, from the bytes of an image to the answers of the callbacks. \<open>image_node\<close> says
  that an image holds a tree of files in the disk format: inodes in metadata blocks, listings in directory
  blocks that name them. The \<open>spec_\<close> functions say, from the tree alone, what a file system with
  that content answers. In every state of a mount the callbacks give these answers.
\<close>

section \<open>The tree an image is made of\<close>

datatype file_node = File_Node (fn_inode: disk_inode) (fn_children: "(byte list \<times> file_node) list")

definition fn_type :: "file_node \<Rightarrow> sqfs_inode_type" where
  "fn_type n = body_type (di_body (fn_inode n))"

fun file_node_at :: "file_node \<Rightarrow> byte list list \<Rightarrow> errno + file_node" where
  "file_node_at t [] = Inr t"
| "file_node_at (File_Node d cs) (c # path) =
     (if \<not> sqfs_inode_is_dir (body_type (di_body d)) then Inl ENOTDIR
      else case map_of cs c of None \<Rightarrow> Inl ENOENT | Some t \<Rightarrow> file_node_at t path)"

section \<open>What the callbacks should answer\<close>

fun spec_nlink :: "inode_body \<Rightarrow> u32" where
  "spec_nlink (B_dir bi lk sz off par) = lk"
| "spec_nlink (B_ldir lk sz bi par ic off x) = lk"
| "spec_nlink (B_file st fr off sz bs) = 1"
| "spec_nlink (B_lfile st sz sp lk fr off x bs) = lk"
| "spec_nlink (B_symlink lk path) = lk"
| "spec_nlink (B_lsymlink lk path x) = lk"
| "spec_nlink (B_dev c lk n) = lk"
| "spec_nlink (B_ldev c lk n x) = lk"
| "spec_nlink (B_ipc s lk) = lk"
| "spec_nlink (B_lipc s lk x) = lk"

text \<open>The size in bytes; for a directory the three bytes the format adds are taken off again.\<close>

fun spec_size :: "inode_body \<Rightarrow> nat" where
  "spec_size (B_dir bi lk sz off par) = unat sz - 3"
| "spec_size (B_file st fr off sz bs) = unat sz"
| "spec_size (B_lfile st sz sp lk fr off x bs) = unat sz"
| "spec_size (B_symlink lk path) = length path"
| "spec_size _ = 0"

definition spec_blocks :: "inode_body \<Rightarrow> nat" where
  "spec_blocks b = (if sqfs_inode_is_dir (body_type b) \<or> sqfs_inode_is_file (body_type b)
     then (spec_size b + 511) div 512 else 0)"

definition spec_blksize :: "u32 \<Rightarrow> inode_body \<Rightarrow> u64" where
  "spec_blksize bsize b = (if sqfs_inode_is_dir (body_type b) \<or> sqfs_inode_is_file (body_type b)
     \<or> sqfs_inode_is_symlink (body_type b) then ucast bsize else 0)"

text \<open>Device numbers are those the inode stores.\<close>

fun spec_rdev :: "inode_body \<Rightarrow> u64" where
  "spec_rdev (B_dev c lk n) = makedev (sqfs_dev_major n) (sqfs_dev_minor n)"
| "spec_rdev (B_ldev c lk n x) = makedev (sqfs_dev_major n) (sqfs_dev_minor n)"
| "spec_rdev _ = 0"

text \<open>The attributes the format gives an inode: owner and group are the ids the table \<open>ids\<close> has at their
  indices.\<close>

definition spec_stat :: "u32 list \<Rightarrow> u32 \<Rightarrow> disk_inode \<Rightarrow> fuse_stat" where
  "spec_stat ids bsize d =
     \<lparr>st_ino = ucast (di_number d), st_mode = ucast (di_permissions d) OR type_mode (body_type (di_body d)),
      st_nlink = ucast (spec_nlink (di_body d)),
      st_uid = ucast (ids ! unat (di_uid_idx d)), st_gid = ucast (ids ! unat (di_gid_idx d)),
      st_size = of_nat (spec_size (di_body d)), st_blksize = spec_blksize bsize (di_body d),
      st_blocks = of_nat (spec_blocks (di_body d)), st_mtime = ucast (di_mtime d), st_ctime = ucast (di_mtime d),
      st_atime = ucast (di_mtime d), st_rdev = spec_rdev (di_body d)\<rparr>"

text \<open>What the program delivers departs from that in three fields: owner and group are the indices
  themselves, and the place of the major number of a device is taken by the index of its attributes.\<close>

fun served_rdev :: "inode_body \<Rightarrow> u64" where
  "served_rdev (B_dev c lk n) = makedev XATTR_INVALID (sqfs_dev_minor n)"
| "served_rdev (B_ldev c lk n x) = makedev x (sqfs_dev_minor n)"
| "served_rdev _ = 0"

definition served_stat :: "u32 list \<Rightarrow> u32 \<Rightarrow> disk_inode \<Rightarrow> fuse_stat" where
  "served_stat ids bsize d = (spec_stat ids bsize d)
     \<lparr>st_uid := ucast (di_uid_idx d), st_gid := ucast (di_gid_idx d), st_rdev := served_rdev (di_body d)\<rparr>"

definition spec_readdir :: "file_node \<Rightarrow> errno + (byte list \<times> u64 \<times> u32) list" where
  "spec_readdir n =
     (if sqfs_inode_is_dir (fn_type n)
      then Inr (map (\<lambda>(name, c). (name, ucast (di_number (fn_inode c)), type_mode (fn_type c))) (fn_children n))
      else Inl ENOTDIR)"

text \<open>The target, cut to the buffer, and its terminator.\<close>

definition spec_readlink :: "nat \<Rightarrow> file_node \<Rightarrow> errno + byte list" where
  "spec_readlink n t =
     (if n = 0 then Inl EINVAL
      else case di_body (fn_inode t) of
          B_symlink lk path \<Rightarrow> Inr (take (n - 1) path @ [0])
        | _ \<Rightarrow> Inl EINVAL)"

definition spec_open :: "file_node \<Rightarrow> errno + disk_inode" where
  "spec_open n = (if sqfs_inode_is_file (fn_type n) then Inr (fn_inode n) else Inl EINVAL)"

text \<open>An answer as the result of a callback.\<close>

definition answer :: "(errno + 'a) \<Rightarrow> 'a cres" where
  "answer r = (case r of Inl e \<Rightarrow> Inl (Err e) | Inr x \<Rightarrow> Inr x)"

definition at_path :: "file_node \<Rightarrow> byte list \<Rightarrow> (file_node \<Rightarrow> errno + 'a) \<Rightarrow> errno + 'a" where
  "at_path t path f = (case file_node_at t (path_components path) of Inl e \<Rightarrow> Inl e | Inr n \<Rightarrow> f n)"

section \<open>An image that holds a tree\<close>

text \<open>The inode with the reference \<open>ref\<close>: whole inside of one metadata block, raw or compressed. The
  permissions are twelve bits, and a file is smaller than \<open>2\<^sup>6\<^sup>3\<close> bytes.\<close>

definition inode_written :: "sqfs_ctx \<Rightarrow> u64 \<Rightarrow> disk_inode \<Rightarrow> bool" where
  "inode_written ctx ref d \<longleftrightarrow>
     body_wf (block_size (disk (ctx_sb ctx))) (di_body d) \<and> length (encode_inode d) \<le> 8192
     \<and> di_permissions d < 0x1000 \<and> spec_size (di_body d) < 2 ^ 63
     \<and> (\<exists>pre b post bef aft. f_image (sb_fd (ctx_sb ctx)) = pre @ block_bytes b @ post
          \<and> unat (inode_table (disk (ctx_sb ctx)) + sqfs_meta_ref_pos ref) = length pre
          \<and> block_wf (ctx_comp ctx) b \<and> block_data b = bef @ encode_inode d @ aft
          \<and> unat (sqfs_meta_ref_offset ref) = length bef)"

text \<open>The listing that starts in the block at \<open>bi\<close> behind \<open>off\<close> bytes, cut into blocks anywhere.\<close>

definition listing_written :: "sqfs_ctx \<Rightarrow> u32 \<Rightarrow> u16 \<Rightarrow> dir_group list \<Rightarrow> bool" where
  "listing_written ctx bi off gs \<longleftrightarrow> (\<forall>g \<in> set gs. group_wf g)
     \<and> (\<exists>pre bs post bef aft. f_image (sb_fd (ctx_sb ctx)) = pre @ concat (map block_bytes bs) @ post
          \<and> bs \<noteq> [] \<and> (\<forall>b \<in> set bs. dir_block_wf (ctx_comp ctx) b)
          \<and> unat (dir_table (disk (ctx_sb ctx)) + ucast bi) = length pre
          \<and> length bef < length (block_data (hd bs))
          \<and> concat (map block_data bs) = bef @ encode_listing gs @ aft \<and> unat off = length bef)"

text \<open>An entry that names a child: its name, the number and the basic type of its inode.\<close>

definition entry_names :: "sqfs_dirent \<Rightarrow> byte list \<times> file_node \<Rightarrow> bool" where
  "entry_names e c \<longleftrightarrow> d_name e = fst c @ [0] \<and> 0 \<notin> set (fst c)
     \<and> d_inode_number e = ucast (di_number (fn_inode (snd c)))
     \<and> d_type e = sqfs_inode_basic_type (fn_type (snd c))"

text \<open>Extended directories and extended symbolic links are left out: their parsers destroy what they read.\<close>

fun leaf_body :: "inode_body \<Rightarrow> bool" where
  "leaf_body (B_dir _ _ _ _ _) = False"
| "leaf_body (B_ldir _ _ _ _ _ _ _) = False"
| "leaf_body (B_lsymlink _ _ _) = False"
| "leaf_body _ = True"

inductive image_node :: "sqfs_ctx \<Rightarrow> u64 \<Rightarrow> file_node \<Rightarrow> bool" for ctx where
  leaf_written: "inode_written ctx ref d \<Longrightarrow> leaf_body (di_body d) \<Longrightarrow> image_node ctx ref (File_Node d [])"
| dir_written: "inode_written ctx ref d \<Longrightarrow> di_body d = B_dir bi lk sz off par \<Longrightarrow> listing_written ctx bi off gs \<Longrightarrow>
    unat sz = length (encode_listing gs) + 3 \<Longrightarrow>
    list_all2 (\<lambda>e c. entry_names e c \<and> image_node ctx (d_inode_ref e) (snd c)) (listing_dirents gs) cs \<Longrightarrow>
    image_node ctx ref (File_Node d cs)"

text \<open>What every image of a mount has: no read errors, a compressor.\<close>

definition readable_image :: "sqfs_ctx \<Rightarrow> bool" where
  "readable_image ctx \<longleftrightarrow> reliable (sb_fd (ctx_sb ctx)) \<and> ctx_comp ctx \<noteq> None"

section \<open>The tree of runtime inodes\<close>

definition ram_inode :: "allocator \<Rightarrow> disk_inode \<Rightarrow> sqfs_inode" where
  "ram_inode mem d = parsed_body mem (di_body d) (inode_common d)"

fun ram_node :: "allocator \<Rightarrow> file_node \<Rightarrow> node" where
  "ram_node mem (File_Node d cs) = Node (ram_inode mem d) (map (\<lambda>(w, c). (w, ram_node mem c)) cs)"

lemma node_inode_ram [simp]: "node_inode (ram_node mem t) = ram_inode mem (fn_inode t)"
  by (cases t) simp

lemma ram_type [simp]: "i_type (ram_inode mem d) = body_type (di_body d)"
  by (cases "di_body d") (simp_all add: ram_inode_def inode_common_def new_inode_def union_defs Let_def)

lemma map_of_ram: "map_of (map (\<lambda>(w, c). (w, ram_node mem c)) cs) w = map_option (ram_node mem) (map_of cs w)"
  by (induction cs) auto

lemma node_at_ram:
  "node_at (ram_node mem t) path = (case file_node_at t path of Inl e \<Rightarrow> Inl e | Inr n \<Rightarrow> Inr (ram_node mem n))"
  by (induction t path rule: file_node_at.induct) (auto simp: map_of_ram split: option.split)

lemma inode_written_loads:
  assumes "inode_written ctx ref d" and "readable_image ctx" and "\<forall>k. mem k \<noteq> 0"
  shows "sqfs_inode_get_by_ref mem ctx ref = Inr (ram_inode mem d)"
proof -
  from assms(1) obtain pre b post bef aft where
    img: "f_image (sb_fd (ctx_sb ctx)) = pre @ block_bytes b @ post"
    and pos: "unat (inode_table (disk (ctx_sb ctx)) + sqfs_meta_ref_pos ref) = length pre"
    and b: "block_wf (ctx_comp ctx) b" "block_data b = bef @ encode_inode d @ aft"
    and off: "unat (sqfs_meta_ref_offset ref) = length bef"
    and wf: "body_wf (block_size (disk (ctx_sb ctx))) (di_body d)" "length (encode_inode d) \<le> 8192"
    unfolding inode_written_def by blast
  from assms(2) have "reliable (sb_fd (ctx_sb ctx))" "ctx_comp ctx \<noteq> None" by (simp_all add: readable_image_def)
  from stored_block_read(1) [OF this(1) img pos b(1) this(2)] b(2)
  show ?thesis unfolding ram_inode_def by (intro get_by_ref_encode [OF assms(3) wf(1) _ off wf(2)]) simp
qed

lemma listing_written_read:
  assumes "listing_written ctx bi off gs" and "readable_image ctx" and "\<forall>k. mem k \<noteq> 0"
    and "di_body d = B_dir bi lk sz off par" and "unat sz = length (encode_listing gs) + 3"
  shows "sqfs_dir_read mem ctx (ram_inode mem d) = Inr (listing_dirents gs)"
proof -
  have bound: "unat sz < 65536" using unsigned_less [of sz] by simp
  have size: "unat (dir_size (ram_inode mem d)) = length (encode_listing gs)"
    using assms(4,5) bound
    by (simp add: ram_inode_def union_defs word_le_nat_alt unat_sub_if' unsigned_ucast_eq take_bit_nat_eq_self_iff)
  from assms(1,2,4) size show ?thesis
    by (auto simp: listing_written_def readable_image_def ram_inode_def union_defs inode_common_def new_inode_def
        sqfs_inode_is_dir_def and_FFFFFFFF intro!: dir_read_stored [OF assms(3)])
qed

lemma ram_leaf_free:
  assumes "leaf_body (di_body d)"
  shows "sqfs_inode_free (Some (ram_inode mem d)) = Inr ()" and "\<not> sqfs_inode_is_dir (body_type (di_body d))"
  using assms
  by (cases "di_body d"; simp add: sqfs_inode_free_def sqfs_inode_is_dir_def sqfs_inode_is_symlink_def ram_inode_def
      union_defs Let_def)+

lemma image_node_stored:
  assumes "image_node ctx ref t" and "readable_image ctx" and "\<forall>k. mem k \<noteq> 0"
  shows "tree_stored mem ctx ref (ram_node mem t)"
  using assms(1)
proof (induction rule: image_node.induct)
  case (leaf_written ref d)
  then show ?case using inode_written_loads [OF leaf_written(1) assms(2,3)] ram_leaf_free [OF leaf_written(2)]
    by (auto intro: stored_leaf)
next
  case (dir_written ref d bi lk sz off par gs cs)
  have "list_all2 (\<lambda>e c. c_str (d_name e) = fst c \<and> tree_stored mem ctx (d_inode_ref e) (snd c))
      (listing_dirents gs) (map (\<lambda>(w, c). (w, ram_node mem c)) cs)"
    unfolding list.rel_map using dir_written(5)
    by (rule list.rel_mono_strong) (auto simp: entry_names_def c_str_terminated)
  with inode_written_loads [OF dir_written(1) assms(2,3)]
    listing_written_read [OF dir_written(3) assms(2,3) dir_written(2,4)] dir_written(2)
  show ?case by (auto simp: sqfs_inode_is_dir_def intro: stored_dir)
qed

text \<open>Every node of the tree is written, its listing too.\<close>

lemma image_node_at:
  assumes "image_node ctx ref t" and "file_node_at t path = Inr n"
  shows "\<exists>ref'. image_node ctx ref' n"
  using assms
proof (induction path arbitrary: ref t)
  case (Cons c path)
  obtain d cs where t: "t = File_Node d cs" by (cases t)
  from Cons.prems(2) t obtain t' where dir: "sqfs_inode_is_dir (body_type (di_body d))" and m: "map_of cs c = Some t'"
    and at: "file_node_at t' path = Inr n" by (auto split: if_splits option.splits)
  from Cons.prems(1) obtain ref' where "image_node ctx ref' t'"
  proof cases
    case (leaf_written d')
    with dir t ram_leaf_free(2) show ?thesis by simp
  next
    case (dir_written d' bi lk sz off par gs cs')
    with t map_of_SomeD [OF m] show ?thesis
      by (fastforce simp: list_all2_conv_all_nth in_set_conv_nth intro: that)
  qed
  from Cons.IH [OF this at] show ?case .
qed auto

section \<open>Answers\<close>

lemma resolve_image:
  assumes "image_node ctx (root_inode (disk (ctx_sb ctx))) t" and "readable_image ctx" and "\<forall>k. mem k \<noteq> 0"
  shows "sqfs_vfs_resolve_path mem ctx (47 # rest)
    = (case file_node_at t (path_components rest) of Inl e \<Rightarrow> Inl (Err e) | Inr n \<Rightarrow> Inr (ram_inode mem (fn_inode n)))"
  using resolve_stored [OF image_node_stored [OF assms] assms(3), of 47 rest]
  by (auto simp: node_at_ram split: sum.split)

lemma blocks_word: "unat (sz :: u64) < 2 ^ 63 \<Longrightarrow> (sz + 511) div 512 = of_nat ((unat sz + 511) div 512)"
  by (simp add: word_unat_eq_iff unat_div unat_word_ariths(1) unat_of_nat)

lemma blocks_word32: "unat (sz :: u32) < 2 ^ 16 \<Longrightarrow> ucast ((sz + 511) div 512) = (of_nat ((unat sz + 511) div 512) :: u64)"
  by (simp add: word_unat_eq_iff unat_div unat_word_ariths(1) unat_of_nat)

text \<open>The type bits of the mode are those of the type, as the permissions do not reach them.\<close>

lemma mode_type:
  assumes "(p :: u16) < 0x1000"
  shows "(ucast p OR type_mode t) AND 0xF000 = type_mode t"
proof -
  have "p = take_bit 12 p" using assms
    by (simp add: word_unat_eq_iff unsigned_take_bit_eq take_bit_nat_eq_self word_less_nat_alt)
  then have "(ucast p :: u32) AND 0xF000 = ucast (take_bit 12 p) AND 0xF000" by simp
  also have "\<dots> = 0"
  proof -
    have m: "(0xF000 :: u32) = push_bit 12 (mask 4)" by (simp add: mask_eq_exp_minus_1)
    show ?thesis unfolding m by (rule bit_word_eqI) (auto simp: bit_simps)
  qed
  finally have "(ucast p :: u32) AND 0xF000 = 0" .
  moreover have "type_mode t AND 0xF000 = type_mode t" by (cases t) simp_all
  ultimately show ?thesis by (simp add: bit.conj_disj_distrib2)
qed

lemma mode_dev:
  assumes "(p :: u16) < 0x1000"
  shows "S_ISBLK (ucast p OR type_mode t) \<or> S_ISCHR (ucast p OR type_mode t) \<longleftrightarrow> sqfs_inode_is_dev t"
  unfolding S_ISBLK_def S_ISCHR_def mode_type [OF assms]
  by (cases t) (simp_all add: sqfs_inode_is_dev_def)

definition dir_size_ok :: "inode_body \<Rightarrow> bool" where
  "dir_size_ok b \<longleftrightarrow> leaf_body b \<or> (\<exists>bi lk sz off par. b = B_dir bi lk sz off par \<and> 3 \<le> unat sz)"

lemma stat_attr:
  assumes "i_permissions i < 0x1000"
  shows "stat_of_attr (sqfs_vfs_fill_attr ctx i) =
     (let t = i_type i; bsize = block_size (disk (ctx_sb ctx)) in
      \<lparr>st_ino = i_number i, st_mode = ucast (i_permissions i) OR type_mode t, st_nlink = ucast (i_link_count i),
       st_uid = ucast (i_uid i), st_gid = ucast (i_gid i),
       st_size = (if sqfs_inode_is_dir t then ucast (dir_size i) else if sqfs_inode_is_file t then file_file_size i
         else if sqfs_inode_is_symlink t then ucast (symlink_target_size i) else 0),
       st_blksize = (if sqfs_inode_is_dir t \<or> sqfs_inode_is_file t \<or> sqfs_inode_is_symlink t then ucast bsize else 0),
       st_blocks = (if sqfs_inode_is_dir t then ucast ((dir_size i + 511) div 512)
         else if sqfs_inode_is_file t then (file_file_size i + 511) div 512 else 0),
       st_mtime = ucast (i_mtime i), st_ctime = ucast (i_mtime i), st_atime = ucast (i_mtime i),
       st_rdev = (if sqfs_inode_is_dev t then makedev (dev_major i) (dev_minor i) else 0)\<rparr>)"
proof -
  have "at_mode (sqfs_vfs_fill_attr ctx i) = ucast (i_permissions i) OR type_mode (i_type i)"
    by (simp add: sqfs_vfs_fill_attr_def Let_def)
  then have "S_ISBLK (at_mode (sqfs_vfs_fill_attr ctx i)) \<or> S_ISCHR (at_mode (sqfs_vfs_fill_attr ctx i))
      \<longleftrightarrow> sqfs_inode_is_dev (i_type i)"
    using mode_dev [OF assms] by simp
  then show ?thesis
    unfolding stat_of_attr_def
    by (cases "i_type i") (simp_all add: sqfs_vfs_fill_attr_def Let_def sqfs_inode_is_dir_def sqfs_inode_is_file_def
      sqfs_inode_is_symlink_def sqfs_inode_is_dev_def)
qed

lemma stat_ram:
  assumes w: "inode_written ctx ref d" and ok: "dir_size_ok (di_body d)"
  shows "stat_of_attr (sqfs_vfs_fill_attr ctx (ram_inode mem d)) = served_stat ids (block_size (disk (ctx_sb ctx))) d"
proof -
  from w have p: "di_permissions d < 0x1000" and sz: "spec_size (di_body d) < 2 ^ 63"
    and wf: "body_wf (block_size (disk (ctx_sb ctx))) (di_body d)" by (simp_all add: inode_written_def)
  have perm: "i_permissions (ram_inode mem d) = di_permissions d"
    by (cases "di_body d") (simp_all add: ram_inode_def inode_common_def new_inode_def union_defs Let_def)
  note st = stat_attr [of "ram_inode mem d", unfolded perm, OF p, of ctx]
  note defs = Let_def served_stat_def spec_stat_def spec_blocks_def spec_blksize_def
    sqfs_inode_is_dir_def sqfs_inode_is_file_def sqfs_inode_is_symlink_def sqfs_inode_is_dev_def
    ram_inode_def inode_common_def new_inode_def union_defs
  show ?thesis
  proof (cases "di_body d")
    case (B_dir bi lk sz off par)
    have b: "unat sz < 2 ^ 16" by (rule less_le_trans [OF unsigned_less]) simp
    define w where "w = (ucast sz :: u32) - 3"
    from B_dir ok have w: "unat w = unat sz - 3" by (simp add: w_def dir_size_ok_def unat_sub_if')
    from B_dir ok have "dir_size (ram_inode mem d) = w"
      by (simp add: w_def dir_size_ok_def ram_inode_def union_defs word_le_nat_alt)
    moreover have "(ucast w :: u64) = of_nat (unat sz - 3)" by (simp flip: w)
    moreover have "ucast ((w + 511) div 512) = (of_nat ((unat sz - 3 + 511) div 512) :: u64)"
    proof -
      have "unat w < 2 ^ 16" unfolding w using b by (rule le_less_trans [OF diff_le_self])
      from blocks_word32 [OF this] show ?thesis unfolding w .
    qed
    ultimately show ?thesis using B_dir unfolding st
      by (simp add: Let_def served_stat_def spec_stat_def spec_blocks_def spec_blksize_def sqfs_inode_is_dir_def sqfs_inode_is_dev_def)
        (simp add: ram_inode_def inode_common_def new_inode_def union_defs)
  next
    case (B_file st fr off sz bs)
    have "unat sz < 2 ^ 63" by (rule less_trans [OF unsigned_less]) simp
    with B_file show ?thesis unfolding st by (simp add: defs blocks_word)
  next
    case (B_lfile st fsz sp lk fr off x bs)
    with sz show ?thesis unfolding st by (simp add: defs blocks_word)
  next
    case (B_symlink lk path)
    with wf show ?thesis unfolding st by (simp add: defs word_unat_eq_iff unat_of_nat)
  qed (use ok in \<open>unfold st, simp_all add: dir_size_ok_def defs\<close>)
qed

lemma image_node_facts:
  assumes "image_node ctx ref n"
  shows "inode_written ctx ref (fn_inode n)" and "dir_size_ok (di_body (fn_inode n))"
  using assms by (auto elim!: image_node.cases simp: dir_size_ok_def)

lemma free_ram:
  assumes "image_node ctx ref n" and "readable_image ctx" and "\<forall>k. mem k \<noteq> 0"
  shows "free_inode (ram_inode mem (fn_inode n)) = Inr ()"
  using free_inode_stored [OF image_node_stored [OF assms]] by simp

lemma getattr_image:
  assumes t: "image_node ctx (root_inode (disk (ctx_sb ctx))) t" and ok: "readable_image ctx" "\<forall>k. mem k \<noteq> 0"
  shows "sqfs_fuse_getattr mem ctx (47 # rest)
    = answer (at_path t rest (\<lambda>n. Inr (served_stat ids (block_size (disk (ctx_sb ctx))) (fn_inode n))))"
proof (cases "file_node_at t (path_components rest)")
  case (Inl e)
  then show ?thesis
    by (simp add: sqfs_fuse_getattr_def sqfs_vfs_getattr_def resolve_image [OF assms] answer_def at_path_def)
next
  case (Inr n)
  then obtain ref where n: "image_node ctx ref n" using image_node_at [OF t] by blast
  from Inr show ?thesis
    by (simp add: sqfs_fuse_getattr_def sqfs_vfs_getattr_def resolve_image [OF assms] answer_def at_path_def
        free_ram [OF n ok] stat_ram [OF image_node_facts [OF n]])
qed

lemma basic_type_mode [simp]: "type_mode (sqfs_inode_basic_type t) = type_mode t"
  by (cases t) (simp_all add: sqfs_inode_basic_type_def less_eq_sqfs_inode_type_def inode_type_of_code_def)

text \<open>The entries a listing delivers are the children, in their order.\<close>

lemma entries_children:
  assumes "list_all2 (\<lambda>e c. entry_names e c \<and> P e c) es cs"
  shows "map (\<lambda>e. (c_str (ve_name e), ve_ino e, ve_type e)) (map vfs_dirent_of es)
    = map (\<lambda>(w, c). (w, ucast (di_number (fn_inode c)), type_mode (fn_type c))) cs"
  using assms
  by (induction rule: list_all2_induct) (auto simp: vfs_dirent_of_def entry_names_def c_str_terminated)

lemma readdir_image:
  assumes t: "image_node ctx (root_inode (disk (ctx_sb ctx))) t" and ok: "readable_image ctx" "\<forall>k. mem k \<noteq> 0"
  shows "sqfs_fuse_readdir mem ctx (47 # rest) = answer (at_path t rest spec_readdir)"
proof (cases "file_node_at t (path_components rest)")
  case (Inl e)
  then show ?thesis
    by (simp add: sqfs_fuse_readdir_def sqfs_vfs_readdir_def resolve_image [OF assms] answer_def at_path_def)
next
  case (Inr n)
  then obtain ref where n: "image_node ctx ref n" using image_node_at [OF t] by blast
  note run = sqfs_fuse_readdir_def sqfs_vfs_readdir_def resolve_image [OF assms] answer_def at_path_def
    spec_readdir_def fn_type_def
  from n show ?thesis
  proof cases
    case (leaf_written d)
    with Inr ram_leaf_free(2) [OF leaf_written(3)] free_ram [OF n ok] show ?thesis by (simp add: run SQFS_VFS_ERR_NOT_DIR_def)
  next
    case (dir_written d bi lk sz off par gs cs)
    from listing_written_read [OF dir_written(4) ok dir_written(3,5)]
    have "sqfs_dir_read mem ctx (ram_inode mem d) = Inr (listing_dirents gs)" .
    with Inr dir_written(1,3) ok(2) free_ram [OF n ok] entries_children [OF dir_written(6)] show ?thesis
      by (simp add: run sqfs_inode_is_dir_def sqfs_malloc_def)
  qed
qed

text \<open>The copied part of a target.\<close>

lemma read_target_ram:
  assumes "di_body d = B_symlink lk path" and "\<forall>k. mem k \<noteq> 0" and "n \<le> length path"
  shows "read_target (ram_inode mem d) n = Inr (take n path)"
  using assms by (auto simp: read_target_def ram_inode_def union_defs Let_def mem_read_def segment_def)

lemma readlink_image:
  assumes t: "image_node ctx (root_inode (disk (ctx_sb ctx))) t" and ok: "readable_image ctx" "\<forall>k. mem k \<noteq> 0"
  shows "sqfs_fuse_readlink mem ctx (47 # rest) n
    = (if n = 0 then Inl (Err EINVAL) else answer (at_path t rest (spec_readlink n)))"
proof (cases "file_node_at t (path_components rest)")
  case (Inl e)
  then show ?thesis
    by (simp add: sqfs_fuse_readlink_def sqfs_vfs_readlink_def resolve_image [OF assms] answer_def at_path_def
        SQFS_VFS_ERR_INVAL_def)
next
  case (Inr f)
  then obtain ref where f: "image_node ctx ref f" using image_node_at [OF t] by blast
  note run = sqfs_fuse_readlink_def sqfs_vfs_readlink_def resolve_image [OF assms] answer_def at_path_def
    spec_readlink_def SQFS_VFS_ERR_INVAL_def Inr
  from f show ?thesis
  proof cases
    case (leaf_written d)
    then have d: "fn_inode f = d" by simp
    from leaf_written(2) have wf: "body_wf (block_size (disk (ctx_sb ctx))) (di_body d)"
      by (simp add: inode_written_def)
    show ?thesis
    proof (cases "sqfs_inode_is_symlink (body_type (di_body d))")
      case True
      with leaf_written(3) obtain lk path where b: "di_body d = B_symlink lk path"
        by (cases "di_body d") (auto simp: sqfs_inode_is_symlink_def split: if_splits)
      with wf have len: "unat (symlink_target_size (ram_inode mem d)) = length path"
        by (simp add: ram_inode_def union_defs Let_def unat_of_nat)
      have cut: "take (if length path < n - 1 then length path else n - 1) path = take (n - 1) path" by simp
      from True b len cut free_ram [OF f ok] d show ?thesis
        by (simp add: run d read_target_ram [OF b ok(2)] Let_def)
    next
      case False
      with free_ram [OF f ok] d show ?thesis
        by (cases "di_body d") (simp_all add: run d sqfs_inode_is_symlink_def)
    qed
  next
    case (dir_written d bi lk sz off par gs cs)
    with free_ram [OF f ok] show ?thesis by (simp add: run sqfs_inode_is_symlink_def)
  qed
qed

text \<open>The handle of an opened file: its runtime inode and its size.\<close>

definition spec_handle :: "allocator \<Rightarrow> file_node \<Rightarrow> errno + sqfs_vfs_fh" where
  "spec_handle mem n = (case spec_open n of
       Inl e \<Rightarrow> Inl e
     | Inr d \<Rightarrow> Inr \<lparr>fh_inode = Some (ram_inode mem d), fh_file_size = of_nat (spec_size (di_body d))\<rparr>)"

lemma ram_file_size: "sqfs_inode_is_file (body_type (di_body d)) \<Longrightarrow>
    file_file_size (ram_inode mem d) = of_nat (spec_size (di_body d))"
  by (cases "di_body d") (simp_all add: sqfs_inode_is_file_def ram_inode_def union_defs split: if_splits)

lemma open_image:
  assumes t: "image_node ctx (root_inode (disk (ctx_sb ctx))) t" and ok: "readable_image ctx" "\<forall>k. mem k \<noteq> 0"
  shows "sqfs_fuse_open mem ctx (47 # rest) = answer (at_path t rest (spec_handle mem))"
proof (cases "file_node_at t (path_components rest)")
  case (Inl e)
  then show ?thesis
    by (simp add: sqfs_fuse_open_def sqfs_vfs_open_def resolve_image [OF assms] answer_def at_path_def)
next
  case (Inr n)
  then obtain ref where n: "image_node ctx ref n" using image_node_at [OF t] by blast
  with Inr ok(2) free_ram [OF n ok] show ?thesis
    by (simp add: sqfs_fuse_open_def sqfs_vfs_open_def resolve_image [OF assms] answer_def at_path_def
        spec_handle_def spec_open_def fn_type_def ram_file_size sqfs_malloc_def SQFS_VFS_ERR_NOT_FILE_def)
qed

text \<open>The numbers \<open>statfs\<close> reports.\<close>

definition spec_statfs :: "squashfs_superblock \<Rightarrow> fuse_statvfs" where
  "spec_statfs d = \<lparr>f_bsize = ucast (block_size d), f_frsize = ucast (block_size d),
     f_blocks = of_nat (unat (bytes_used d) div unat (block_size d)), f_bfree = 0, f_bavail = 0,
     f_files = ucast (inode_count d), f_ffree = 0, f_favail = 0, f_fsid = 0, f_flag = 1, f_namemax = 256\<rparr>"

lemma statfs_image:
  "block_size (disk (ctx_sb ctx)) \<noteq> 0 \<Longrightarrow> sqfs_fuse_statfs ctx = Inr (spec_statfs (disk (ctx_sb ctx)))"
proof -
  have d: "(b :: u64) div ucast c = of_nat (unat b div unat (c :: u32))" for b c
  proof -
    have "unat (b div ucast c) = unat b div unat c" by (simp add: unat_div)
    then show ?thesis by (metis of_nat_unat ucast_id)
  qed
  then show "block_size (disk (ctx_sb ctx)) \<noteq> 0 \<Longrightarrow> sqfs_fuse_statfs ctx = Inr (spec_statfs (disk (ctx_sb ctx)))"
    by (simp add: sqfs_fuse_statfs_def sqfs_vfs_statfs_def Let_def spec_statfs_def)
qed

section \<open>In every state of a mount\<close>

lemma image_node_cong:
  assumes "same_image a b"
  shows "image_node a ref t \<Longrightarrow> image_node b ref t"
proof (induction rule: image_node.induct)
  case (leaf_written ref d)
  with assms have "inode_written b ref d" by (simp add: same_image_def inode_written_def)
  with leaf_written(2) show ?case by (intro image_node.leaf_written)
next
  case (dir_written ref d bi lk sz off par gs cs)
  have "list_all2 (\<lambda>e c. entry_names e c \<and> image_node b (d_inode_ref e) (snd c)) (listing_dirents gs) cs"
    using dir_written(5) by (auto elim: list_all2_mono)
  moreover have "inode_written b ref d" "listing_written b bi off gs"
    using dir_written(1,3) assms by (simp_all add: same_image_def inode_written_def listing_written_def)
  ultimately show ?case using dir_written(2,4) by (intro image_node.dir_written)
qed

lemma mounted_image:
  assumes "fst (init_context lib mem env fd mb no_cache g) = Some (Inr ctx)" and "unat mb \<le> 2 ^ 30"
  shows "ctx_comp ctx \<noteq> None" and "sb_fd (ctx_sb ctx) = fd" and "block_size (disk (ctx_sb ctx)) \<noteq> 0"
proof -
  from init_context_zero [OF assms(1)] obtain sb c where
    sb: "fst (sqfs_superblock_load fd g) = Inr sb"
    and "init_tables mem env mb no_cache (zero_ctx sb (Some c) no_cache) = Some (Inr ctx)" by blast
  from init_tables_ok [OF this(2)] init_caches_ok [OF _ assms(2)] have "same_mount (zero_ctx sb (Some c) no_cache) ctx"
    by (fastforce simp: same_mount_def split: if_splits)
  then have m: "ctx_sb ctx = sb" "ctx_comp ctx = Some c" by (simp_all add: same_mount_def zero_ctx_def)
  note load = sqfs_superblock_load_sound [OF sb]
  then have "superblock_valid (disk sb) (file_size sb)" by blast
  then have "block_size_ok (block_size (disk sb)) (block_log (disk sb))" by (simp only: superblock_valid_def simp_thms)
  from block_size_ok_bounds(1) [OF this] have "block_size (disk sb) \<noteq> 0" by auto
  with m load show "ctx_comp ctx \<noteq> None" "sb_fd (ctx_sb ctx) = fd" "block_size (disk (ctx_sb ctx)) \<noteq> 0" by simp_all
qed

text \<open>The state of a session holds the tree that was mounted.\<close>

lemma session_image:
  assumes "fst (init_context lib mem env fd mb False g) = Some (Inr ctx0)" and "unat mb \<le> 2 ^ 30"
    and "reliable fd" and "image_node ctx0 (root_inode (disk (ctx_sb ctx0))) t"
    and "(fuse_step E)\<^sup>*\<^sup>* (mounted ctx0) s"
  shows "readable_image (se_ctx s)" and "image_node (se_ctx s) (root_inode (disk (ctx_sb (se_ctx s)))) t"
    and "ctx_sb (se_ctx s) = ctx_sb ctx0"
proof -
  have "session_ok ctx0 s"
    using session_ok_run [OF assms(5)] init_context_ok [OF assms(1,2)] by (auto simp: cache_valid_def)
  then have same: "same_ctx ctx0 (se_ctx s)" by (simp add: session_ok_def)
  show sb: "ctx_sb (se_ctx s) = ctx_sb ctx0" using same_ctx_fields [OF same] by simp
  show "readable_image (se_ctx s)"
    using mounted_image [OF assms(1,2)] assms(3) same_ctx_fields [OF same] by (simp add: readable_image_def)
  show "image_node (se_ctx s) (root_inode (disk (ctx_sb (se_ctx s)))) t"
    using image_node_cong [OF same_ctx_image [OF same] assms(4)] sb by simp
qed

section \<open>The small image\<close>

lemma inode_writtenI:
  assumes "f_image (sb_fd (ctx_sb ctx)) = pre @ block_bytes b @ post"
    and "unat (inode_table (disk (ctx_sb ctx)) + sqfs_meta_ref_pos ref) = length pre"
    and "block_data b = bef @ encode_inode d @ aft" and "unat (sqfs_meta_ref_offset ref) = length bef"
    and "block_wf (ctx_comp ctx) b" and "length (encode_inode d) \<le> 8192"
    and "body_wf (block_size (disk (ctx_sb ctx))) (di_body d)" and "di_permissions d < 0x1000"
    and "spec_size (di_body d) < 2 ^ 63"
  shows "inode_written ctx ref d"
  unfolding inode_written_def using assms by blast

definition fs_root :: file_node where
  "fs_root = File_Node root_di [([97], File_Node file_di [])]"

lemma listing_writtenI:
  assumes "f_image (sb_fd (ctx_sb ctx)) = pre @ concat (map block_bytes bs) @ post"
    and "unat (dir_table (disk (ctx_sb ctx)) + ucast bi) = length pre"
    and "concat (map block_data bs) = bef @ encode_listing gs @ aft" and "unat off = length bef"
    and "bs \<noteq> []" and "length bef < length (block_data (hd bs))" and "\<forall>b \<in> set bs. dir_block_wf (ctx_comp ctx) b"
    and "\<forall>g \<in> set gs. group_wf g"
  shows "listing_written ctx bi off gs"
  unfolding listing_written_def using assms by blast

lemma fs_inodes_written: "inode_written fs_ctx 0 root_di" "inode_written fs_ctx 32 file_di"
proof -
  let ?b = "Raw (encode_inode root_di @ encode_inode file_di)"
  have img: "f_image (sb_fd (ctx_sb fs_ctx)) = put_superblock fs_superblock @ block_bytes ?b
      @ block_bytes (Raw (encode_listing root_listing)) @ [1, 2, 3, 4]"
    by (simp add: fs_file_def)
  show "inode_written fs_ctx 0 root_di"
    by (rule inode_writtenI [OF img, where bef = "[]" and aft = "encode_inode file_di"])
      (simp_all add: sqfs_meta_block_pos_def sqfs_meta_block_offset_def, simp_all add: root_di_def)
  show "inode_written fs_ctx 32 file_di"
    by (rule inode_writtenI [OF img, where bef = "encode_inode root_di" and aft = "[]"])
      (simp_all add: sqfs_meta_block_pos_def sqfs_meta_block_offset_def,
        simp_all add: file_di_def sqfs_calc_block_count_def FRAGMENT_INVALID_def)
qed

lemma fs_root_listing: "listing_written fs_ctx 0 0 root_listing"
proof -
  have "f_image (sb_fd (ctx_sb fs_ctx)) = (put_superblock fs_superblock
      @ block_bytes (Raw (encode_inode root_di @ encode_inode file_di)))
      @ concat (map block_bytes [Raw (encode_listing root_listing)]) @ [1, 2, 3, 4]"
    by (simp add: fs_file_def)
  then show ?thesis
    by (rule listing_writtenI [where bef = "[]" and aft = "[]"])
      (simp_all, simp_all add: root_listing_def group_wf_def item_wf_def)
qed

lemma fs_root_written: "image_node fs_ctx 0 fs_root"
proof -
  have "image_node fs_ctx 32 (File_Node file_di [])"
    by (rule leaf_written [OF fs_inodes_written(2)]) (simp add: file_di_def)
  then have "list_all2 (\<lambda>e c. entry_names e c \<and> image_node fs_ctx (d_inode_ref e) (snd c))
      (listing_dirents root_listing) [([97], File_Node file_di [])]"
    by (simp add: listing_dirents_def root_listing_def item_dirent_def sqfs_make_meta_ref_def entry_names_def fn_type_def
        file_di_def sqfs_inode_basic_type_def less_eq_sqfs_inode_type_def)
  from dir_written [OF fs_inodes_written(1) _ fs_root_listing _ this] show ?thesis
    by (simp add: fs_root_def root_di_def)
qed

section \<open>Properties\<close>

text \<open>C2: the file system serves the image. The mount has caches, of at most \<open>2\<^sup>3\<^sup>0\<close> MiB, reads of the image file
  do not fail, and the allocations of the callbacks succeed. The image holds a tree of files in the disk format,
  in metadata blocks of any encoding, listings cut into blocks anywhere. Of the format the tree leaves out what
  the program cannot serve: extended directories and extended symbolic links (their parsers destroy the block
  index and the target, C11), inodes that cross into the next metadata block (refused as corrupt), permission bits
  above the twelve, files of \<open>2\<^sup>6\<^sup>3\<close> bytes or more. Then in every state that any sequence of opens, reads and
  releases leads to, for every path: \<open>readdir\<close>, \<open>readlink\<close> and \<open>open\<close> give what the tree at that path calls for
  (the children in order with their numbers and types, the target cut to the buffer, a handle for the file),
  or ENOENT, ENOTDIR or EINVAL as the tree has it; \<open>getattr\<close> gives the attributes the format calls for whatever
  ids the table holds, except that owner and group are the indices into that table instead of the ids, and
  the major number of a device is the index of its attributes; \<open>statfs\<close> gives the numbers of the superblock.\<close>

theorem session_serves_image:
  assumes "fst (init_context lib mem0 env fd mb False g) = Some (Inr ctx0)" and "unat mb \<le> 2 ^ 30"
    and "reliable fd" and "image_node ctx0 (root_inode (disk (ctx_sb ctx0))) t" and "\<forall>k. mem k \<noteq> 0"
    and "(fuse_step E)\<^sup>*\<^sup>* (mounted ctx0) s"
  shows "sqfs_fuse_getattr mem (se_ctx s) (47 # rest)
      = answer (at_path t rest (\<lambda>n. Inr (served_stat ids (block_size (disk (ctx_sb ctx0))) (fn_inode n))))
    \<and> sqfs_fuse_readdir mem (se_ctx s) (47 # rest) = answer (at_path t rest spec_readdir)
    \<and> sqfs_fuse_readlink mem (se_ctx s) (47 # rest) (Suc n) = answer (at_path t rest (spec_readlink (Suc n)))
    \<and> sqfs_fuse_open mem (se_ctx s) (47 # rest) = answer (at_path t rest (spec_handle mem))
    \<and> sqfs_fuse_statfs (se_ctx s) = Inr (spec_statfs (disk (ctx_sb ctx0)))"
proof -
  note st = session_image [OF assms(1-4,6)]
  note image = st(2) st(1) assms(5)
  show ?thesis
    using mounted_image(3) [OF assms(1,2)] st(3)
    by (simp add: getattr_image [OF image, where ids = ids] readdir_image [OF image] readlink_image [OF image] open_image [OF image]
        statfs_image)
qed

theorem session_serves_image_witness:
  "\<exists>ctx0 s. fst (init_context stored_lib mem_ok env_ok fs_file 32 False (sqfs_stats_init 0)) = Some (Inr ctx0)
     \<and> (fuse_step small_heap)\<^sup>*\<^sup>* (mounted ctx0) s \<and> se_open s 1 = Some fs_handle
     \<and> map_sum id st_size (sqfs_fuse_getattr mem_ok (se_ctx s) [47, 97]) = Inr 4
     \<and> sqfs_fuse_readdir mem_ok (se_ctx s) [47] = Inr [([97], 2, 0x8000)]
     \<and> sqfs_fuse_readdir mem_ok (se_ctx s) [47, 97, 47] = Inl (Err ENOTDIR)
     \<and> sqfs_fuse_readlink mem_ok (se_ctx s) [47, 98] 10 = Inl (Err ENOENT)"
proof -
  from fs_session obtain ctx0 where
    m: "fst (init_context stored_lib mem_ok env_ok fs_file 32 False (sqfs_stats_init 0)) = Some (Inr ctx0)"
    and img: "same_image fs_ctx ctx0"
    and run: "(fuse_step small_heap)\<^sup>*\<^sup>* (mounted ctx0) ((mounted ctx0)\<lparr>se_open := [1 \<mapsto> fs_handle]\<rparr>)" by blast
  have "root_inode (disk (ctx_sb ctx0)) = 0" using img by (simp add: same_image_def flip: fs_ctx_simps)
  then have t: "image_node ctx0 (root_inode (disk (ctx_sb ctx0))) fs_root"
    using image_node_cong [OF img fs_root_written] by simp
  have mb: "unat (32 :: u64) \<le> 2 ^ 30" by simp
  note serve = session_serves_image [OF m mb fs_reliable t mem_ok_pos run, where ids = "[]"]
  note eval = answer_def at_path_def fs_root_def path_components_def sqfs_inode_is_dir_def spec_readdir_def fn_type_def
    spec_readlink_def served_stat_def spec_stat_def
  have "map_sum id st_size (sqfs_fuse_getattr mem_ok (se_ctx ((mounted ctx0)\<lparr>se_open := [1 \<mapsto> fs_handle]\<rparr>)) [47, 97]) = Inr 4"
    using serve [of "[97]"] by (simp add: eval) (simp add: root_di_def file_di_def)
  moreover have "sqfs_fuse_readdir mem_ok (se_ctx ((mounted ctx0)\<lparr>se_open := [1 \<mapsto> fs_handle]\<rparr>)) [47] = Inr [([97], 2, 0x8000)]"
    using serve [of "[]"] by (simp add: eval) (simp add: root_di_def file_di_def)
  moreover have "sqfs_fuse_readdir mem_ok (se_ctx ((mounted ctx0)\<lparr>se_open := [1 \<mapsto> fs_handle]\<rparr>)) [47, 97, 47] = Inl (Err ENOTDIR)"
    using serve [of "[97, 47]"] by (simp add: eval) (simp add: root_di_def file_di_def)
  moreover have "sqfs_fuse_readlink mem_ok (se_ctx ((mounted ctx0)\<lparr>se_open := [1 \<mapsto> fs_handle]\<rparr>)) [47, 98] 10 = Inl (Err ENOENT)"
    using serve [of "[98]" 9] by (simp add: eval) (simp add: root_di_def file_di_def)
  ultimately show ?thesis using m run by fastforce
qed

end
