(* ===== verification/Kernel.thy ===== *)
theory Kernel
  imports ImageTree
begin

text \<open>
  \<open>src/kernel/vfs_kernel.c\<close>: the skeleton of a Linux kernel module. What it defines is modelled: the
  tables of operations with their empty slots, the callbacks that are only stubs, the translation of
  attributes into a Linux inode, loading and unloading of the module. The kernel's own functions are
  not part of the repository: the ones that only have an effect are recorded as calls in their order,
  the ones that return something are parameters. \<open>kmem_cache_create\<close> returns a pointer or null,
  \<open>register_filesystem\<close> an error number or 0.
\<close>

section \<open>Tables of operations\<close>

text \<open>A slot is null or the name of a kernel function or of a function of the module.\<close>

type_synonym slot = "string option"

record inode_operations =
  iop_getattr :: slot
  iop_lookup :: slot
  iop_permission :: slot
  iop_create :: slot
  iop_unlink :: slot
  iop_mkdir :: slot
  iop_rmdir :: slot
  iop_rename :: slot
  iop_get_link :: slot

record file_operations =
  fop_read_iter :: slot
  fop_mmap :: slot
  fop_splice_read :: slot
  fop_llseek :: slot
  fop_open :: slot
  fop_release :: slot
  fop_iterate_shared :: slot
  fop_read :: slot

record address_space_operations =
  aop_readpage :: slot
  aop_readpages :: slot

definition squashfs_inode_ops :: inode_operations where
  "squashfs_inode_ops = \<lparr>iop_getattr = None, iop_lookup = None, iop_permission = None, iop_create = None,
     iop_unlink = None, iop_mkdir = None, iop_rmdir = None, iop_rename = None, iop_get_link = None\<rparr>"

definition squashfs_dir_inode_ops :: inode_operations where
  "squashfs_dir_inode_ops = \<lparr>iop_getattr = None, iop_lookup = None, iop_permission = None, iop_create = None,
     iop_unlink = None, iop_mkdir = None, iop_rmdir = None, iop_rename = None, iop_get_link = None\<rparr>"

definition squashfs_symlink_inode_ops :: inode_operations where
  "squashfs_symlink_inode_ops = \<lparr>iop_getattr = None, iop_lookup = None, iop_permission = None, iop_create = None,
     iop_unlink = None, iop_mkdir = None, iop_rmdir = None, iop_rename = None, iop_get_link = None\<rparr>"

definition squashfs_file_ops :: file_operations where
  "squashfs_file_ops = \<lparr>fop_read_iter = None, fop_mmap = Some ''generic_file_readonly_mmap'',
     fop_splice_read = Some ''generic_file_splice_read'', fop_llseek = Some ''generic_file_llseek'',
     fop_open = None, fop_release = None, fop_iterate_shared = None, fop_read = None\<rparr>"

definition squashfs_dir_ops :: file_operations where
  "squashfs_dir_ops = \<lparr>fop_read_iter = None, fop_mmap = None, fop_splice_read = None,
     fop_llseek = Some ''generic_file_llseek'', fop_open = None, fop_release = None,
     fop_iterate_shared = None, fop_read = Some ''generic_read_dir''\<rparr>"

definition squashfs_aops :: address_space_operations where
  "squashfs_aops = \<lparr>aop_readpage = None, aop_readpages = None\<rparr>"

record super_operations =
  sop_alloc_inode :: slot
  sop_destroy_inode :: slot
  sop_statfs :: slot
  sop_drop_inode :: slot
  sop_show_options :: slot

definition squashfs_super_ops :: super_operations where
  "squashfs_super_ops = \<lparr>sop_alloc_inode = Some ''squashfs_alloc_inode'',
     sop_destroy_inode = Some ''squashfs_destroy_inode'', sop_statfs = Some ''squashfs_statfs'',
     sop_drop_inode = Some ''generic_delete_inode'', sop_show_options = None\<rparr>"

section \<open>Stubs\<close>

text \<open>The pointer to a new inode, always null; the result codes of the other stubs.\<close>

definition squashfs_alloc_inode :: u64 where "squashfs_alloc_inode = 0"

definition squashfs_destroy_inode :: unit where "squashfs_destroy_inode = ()"

definition squashfs_statfs :: int where "squashfs_statfs = 0"

definition ENOMEM_no :: int where "ENOMEM_no = 12"

definition squashfs_fill_super :: int where "squashfs_fill_super = - ENOMEM_no"

text \<open>\<open>mount_bdev\<close> is a parameter: what it makes of the result of the callback it is given.\<close>

definition squashfs_mount :: "(int \<Rightarrow> 'd) \<Rightarrow> 'd" where
  "squashfs_mount mount_bdev = mount_bdev squashfs_fill_super"

text \<open>Unmounting leaves everything to the kernel's \<open>kill_block_super\<close>.\<close>

definition squashfs_kill_sb :: "('sb \<Rightarrow> 'k \<Rightarrow> 'k) \<Rightarrow> 'sb \<Rightarrow> 'k \<Rightarrow> 'k" where
  "squashfs_kill_sb kill_block_super sb = kill_block_super sb"

record file_system_type =
  fst_owner :: string
  fst_name :: string
  fst_mount :: slot
  fst_kill_sb :: slot
  fst_flags :: string

definition squashfs_fs_type :: file_system_type where
  "squashfs_fs_type = \<lparr>fst_owner = ''THIS_MODULE'', fst_name = ''squashfs'', fst_mount = Some ''squashfs_mount'',
     fst_kill_sb = Some ''squashfs_kill_sb'', fst_flags = ''FS_REQUIRES_DEV''\<rparr>"

section \<open>Filling an inode\<close>

datatype inode_call =
    Set_nlink u32
  | I_uid_write u32
  | I_gid_write u32
  | Inode_nohighmem
  | Init_special_inode u16 u32

text \<open>The members of \<open>struct inode\<close> that are assigned; the calls on the inode in their order. The type
  of a time is the kernel's.\<close>

record 't kinode =
  ki_ino :: u64
  ki_mode :: u16      \<comment> \<open>an \<open>umode_t\<close>\<close>
  ki_size :: u64
  ki_blocks :: u64
  ki_blkbits :: "8 word"
  ki_atime :: 't
  ki_mtime :: 't
  ki_ctime :: 't
  ki_op :: "inode_operations option"
  ki_fop :: "file_operations option"
  ki_aops :: "address_space_operations option"
  ki_calls :: "inode_call list"

text \<open>\<open>ilog2\<close>, \<open>ns_to_timespec64\<close> and \<open>MKDEV\<close>.\<close>

record 't kernel_lib =
  kl_ilog2 :: "u32 \<Rightarrow> 8 word"
  kl_ns_to_timespec64 :: "u64 \<Rightarrow> 't"
  kl_mkdev :: "u32 \<Rightarrow> u32 \<Rightarrow> u32"

definition NSEC_PER_SEC :: u64 where "NSEC_PER_SEC = 1000000000"

text \<open>The switch over the type bits of the mode; other modes leave the inode as it is.\<close>

definition set_operations :: "'t kernel_lib \<Rightarrow> u32 \<Rightarrow> u32 \<Rightarrow> u32 \<Rightarrow> 't kinode \<Rightarrow> 't kinode" where
  "set_operations lib mode rdev_major rdev_minor k =
     (let fmt = mode AND 0xF000 in
      if fmt = 0x8000 then
        k\<lparr>ki_op := Some squashfs_inode_ops, ki_fop := Some squashfs_file_ops, ki_aops := Some squashfs_aops\<rparr>
      else if fmt = 0x4000 then k\<lparr>ki_op := Some squashfs_dir_inode_ops, ki_fop := Some squashfs_dir_ops\<rparr>
      else if fmt = 0xA000 then
        k\<lparr>ki_op := Some squashfs_symlink_inode_ops, ki_calls := ki_calls k @ [Inode_nohighmem]\<rparr>
      else if fmt = 0x6000 \<or> fmt = 0x2000 then
        k\<lparr>ki_calls := ki_calls k @ [Init_special_inode (ucast mode) (kl_mkdev lib rdev_major rdev_minor)]\<rparr>
      else if fmt = 0x1000 \<or> fmt = 0xC000 then
        k\<lparr>ki_calls := ki_calls k @ [Init_special_inode (ucast mode) 0]\<rparr>
      else k)"

definition squashfs_fill_inode ::
  "'t kernel_lib \<Rightarrow> 't kinode \<Rightarrow> u32 \<Rightarrow> u64 \<Rightarrow> u32 \<Rightarrow> u32 \<Rightarrow> u32 \<Rightarrow> u64 \<Rightarrow> u64 \<Rightarrow> u32 \<Rightarrow> u64 \<Rightarrow> u32 \<Rightarrow> u32 \<Rightarrow> 't kinode" where
  "squashfs_fill_inode lib k mode ino nlink uid gid sz blocks blksize mtime rdev_major rdev_minor =
     (let t = kl_ns_to_timespec64 lib (mtime * NSEC_PER_SEC) in
      set_operations lib mode rdev_major rdev_minor
        (k\<lparr>ki_ino := ino, ki_mode := ucast mode,
           ki_calls := ki_calls k @ [Set_nlink nlink, I_uid_write uid, I_gid_write gid],
           ki_size := sz, ki_blocks := blocks,
           ki_blkbits := (if blksize \<noteq> 0 then kl_ilog2 lib blksize else 12),
           ki_atime := t, ki_mtime := t, ki_ctime := t\<rparr>))"

section \<open>Loading and unloading\<close>

text \<open>The calls of the module into the kernel, the messages included.\<close>

datatype kernel_call =
    Cache_create u64          \<comment> \<open>\<open>kmem_cache_create\<close> with the pointer it returned\<close>
  | Cache_destroy u64
  | Register_fs int           \<comment> \<open>\<open>register_filesystem\<close> with its result\<close>
  | Unregister_fs
  | Rcu_barrier
  | Pr_err string
  | Pr_info string

text \<open>The static variable \<open>squashfs_inode_cachep\<close>, and the calls so far.\<close>

record module_state =
  squashfs_inode_cachep :: u64
  kernel_calls :: "kernel_call list"

definition call :: "kernel_call \<Rightarrow> module_state \<Rightarrow> module_state" where
  "call c m = m\<lparr>kernel_calls := kernel_calls m @ [c]\<rparr>"

text \<open>The results of the two kernel functions are arguments.\<close>

definition squashfs_init :: "u64 \<Rightarrow> int \<Rightarrow> module_state \<Rightarrow> int \<times> module_state" where
  "squashfs_init cachep err m =
     (let m = call (Cache_create cachep) (m\<lparr>squashfs_inode_cachep := cachep\<rparr>) in
      if squashfs_inode_cachep m = 0
      then (- ENOMEM_no, call (Pr_err ''squashfs: Failed to create inode cache'') m)
      else let m = call (Register_fs err) m in
        if err \<noteq> 0 then
          (err, call (Cache_destroy (squashfs_inode_cachep m))
                  (call (Pr_err ''squashfs: Failed to register filesystem'') m))
        else (0, call (Pr_info ''squashfs: module loaded (version 1.0.0)'') m))"

definition squashfs_exit :: "module_state \<Rightarrow> module_state" where
  "squashfs_exit m =
     (let m = call Rcu_barrier (call Unregister_fs m);
          m = (if squashfs_inode_cachep m \<noteq> 0 then call (Cache_destroy (squashfs_inode_cachep m)) m else m)
      in call (Pr_info ''squashfs: module unloaded'') m)"

text \<open>The program that is built outside of the kernel: its lines and its exit code.\<close>

definition vfs_kernel_main :: "string list \<times> int" where
  "vfs_kernel_main = ([''Kernel module framework - compile verification'',
     ''This file should be compiled in the kernel source tree.''], 0)"

section \<open>What the module leaves in the kernel\<close>

text \<open>The kernel's side of the calls: the live caches, whether the file system is registered, and
  \<open>None\<close> for a call that must not happen: destroying a cache that is not live, or while the file system
  is still registered, or before the barrier that waits for its inodes; unregistering what is not
  registered.\<close>

record kernel_view =
  kv_caches :: "u64 set"
  kv_registered :: bool
  kv_waited :: bool     \<comment> \<open>no inode can be waiting for its release\<close>

fun kernel_step :: "kernel_call \<Rightarrow> kernel_view \<Rightarrow> kernel_view option" where
  "kernel_step (Cache_create p) v = Some (if p = 0 then v else v\<lparr>kv_caches := insert p (kv_caches v)\<rparr>)"
| "kernel_step (Cache_destroy p) v =
     (if p \<in> kv_caches v \<and> \<not> kv_registered v \<and> kv_waited v
      then Some (v\<lparr>kv_caches := kv_caches v - {p}\<rparr>) else None)"
| "kernel_step (Register_fs e) v =
     (if e = 0 then if kv_registered v then None else Some (v\<lparr>kv_registered := True, kv_waited := False\<rparr>)
      else Some v)"
| "kernel_step Unregister_fs v = (if kv_registered v then Some (v\<lparr>kv_registered := False\<rparr>) else None)"
| "kernel_step Rcu_barrier v = Some (if kv_registered v then v else v\<lparr>kv_waited := True\<rparr>)"
| "kernel_step (Pr_err s) v = Some v"
| "kernel_step (Pr_info s) v = Some v"

fun kernel_run :: "kernel_call list \<Rightarrow> kernel_view \<Rightarrow> kernel_view option" where
  "kernel_run [] v = Some v"
| "kernel_run (c # cs) v = (case kernel_step c v of None \<Rightarrow> None | Some v \<Rightarrow> kernel_run cs v)"

lemma kernel_run_append:
  "kernel_run (xs @ ys) v = (case kernel_run xs v of None \<Rightarrow> None | Some v \<Rightarrow> kernel_run ys v)"
  by (induction xs arbitrary: v) (auto split: option.split)

text \<open>One life of the module: it is loaded, and unloaded again when loading succeeded. The kernel calls
  the exit function of a module only after its init function has returned 0.\<close>

definition module_life :: "u64 \<Rightarrow> int \<Rightarrow> module_state \<Rightarrow> module_state" where
  "module_life cachep err m = (case squashfs_init cachep err m of (r, m) \<Rightarrow> if r = 0 then squashfs_exit m else m)"

definition module_lives :: "(u64 \<times> int) list \<Rightarrow> module_state \<Rightarrow> module_state" where
  "module_lives = fold (\<lambda>(cachep, err). module_life cachep err)"

definition outside :: "u64 set \<Rightarrow> kernel_view" where
  "outside others = \<lparr>kv_caches = others, kv_registered = False, kv_waited = True\<rparr>"

lemma module_life_calls:
  assumes "cachep \<notin> others"
  shows "\<exists>cs. kernel_calls (module_life cachep err m) = kernel_calls m @ cs
     \<and> kernel_run cs (outside others) = Some (outside others)"
proof (cases "cachep = 0")
  case True
  then show ?thesis
    by (intro exI [of _ "[Cache_create 0, Pr_err ''squashfs: Failed to create inode cache'']"])
      (simp add: module_life_def squashfs_init_def call_def Let_def ENOMEM_no_def)
next
  case False
  note defs = module_life_def squashfs_init_def squashfs_exit_def call_def Let_def outside_def
  show ?thesis
  proof (cases "err = 0")
    case True
    show ?thesis
      by (rule exI [of _ "[Cache_create cachep, Register_fs 0, Pr_info ''squashfs: module loaded (version 1.0.0)'',
          Unregister_fs, Rcu_barrier, Cache_destroy cachep, Pr_info ''squashfs: module unloaded'']"])
        (use False True assms in \<open>simp add: defs\<close>)
  next
    case err: False
    show ?thesis
      by (rule exI [of _ "[Cache_create cachep, Register_fs err, Pr_err ''squashfs: Failed to register filesystem'',
          Cache_destroy cachep]"])
        (use False err assms in \<open>simp add: defs\<close>)
  qed
qed

lemma module_lives_calls:
  assumes "\<forall>(p, e) \<in> set runs. p \<notin> others"
  shows "\<exists>cs. kernel_calls (module_lives runs m) = kernel_calls m @ cs
     \<and> kernel_run cs (outside others) = Some (outside others)"
  using assms
proof (induction runs arbitrary: m)
  case Nil
  then show ?case by (simp add: module_lives_def)
next
  case (Cons r runs)
  obtain p e where r: "r = (p, e)" by (cases r)
  from Cons.prems r have "p \<notin> others" by simp
  then obtain cs where cs: "kernel_calls (module_life p e m) = kernel_calls m @ cs"
    "kernel_run cs (outside others) = Some (outside others)" using module_life_calls by blast
  from Cons.prems Cons.IH [of "module_life p e m"]
  obtain ds where ds: "kernel_calls (module_lives runs (module_life p e m)) = kernel_calls (module_life p e m) @ ds"
    "kernel_run ds (outside others) = Some (outside others)" by auto
  show ?case
    using ds cs by (intro exI [of _ "cs @ ds"]) (simp add: kernel_run_append module_lives_def r)
qed

section \<open>The type of a filled inode\<close>

text \<open>The calls that depend on the type.\<close>

definition type_calls :: "'t kernel_lib \<Rightarrow> sqfs_inode \<Rightarrow> u16 \<Rightarrow> inode_call list" where
  "type_calls lib i mode =
     (if sqfs_inode_is_file (i_type i) \<or> sqfs_inode_is_dir (i_type i) then []
      else if sqfs_inode_is_symlink (i_type i) then [Inode_nohighmem]
      else if sqfs_inode_is_dev (i_type i) then [Init_special_inode mode (kl_mkdev lib (dev_major i) (dev_minor i))]
      else [Init_special_inode mode 0])"

lemma attr_mode [simp]: "at_mode (sqfs_vfs_fill_attr ctx i) = ucast (i_permissions i) OR type_mode (i_type i)"
  and attr_mtime [simp]: "at_mtime (sqfs_vfs_fill_attr ctx i) = ucast (i_mtime i)"
  and attr_owner [simp]: "at_nlink (sqfs_vfs_fill_attr ctx i) = i_link_count i"
    "at_uid (sqfs_vfs_fill_attr ctx i) = ucast (i_uid i)" "at_gid (sqfs_vfs_fill_attr ctx i) = ucast (i_gid i)"
  and attr_dev: "sqfs_inode_is_dev (i_type i) \<Longrightarrow>
      at_rdev_major (sqfs_vfs_fill_attr ctx i) = dev_major i \<and> at_rdev_minor (sqfs_vfs_fill_attr ctx i) = dev_minor i"
  by (cases "i_type i"; simp add: sqfs_vfs_fill_attr_def Let_def sqfs_inode_is_dir_def sqfs_inode_is_file_def
      sqfs_inode_is_symlink_def sqfs_inode_is_dev_def)+

lemma set_operations_keeps [simp]:
  "ki_mode (set_operations lib mode ma mi k) = ki_mode k"
  "ki_mtime (set_operations lib mode ma mi k) = ki_mtime k"
  by (simp_all add: set_operations_def Let_def)

lemma fill_mode:
  assumes "i_permissions i < 0x1000" and "sqfs_vfs_fill_attr ctx i = a"
    and "squashfs_fill_inode lib k (at_mode a) (at_ino a) (at_nlink a) (at_uid a) (at_gid a) (at_size a)
      (at_blocks a) (at_blksize a) (at_mtime a) (at_rdev_major a) (at_rdev_minor a) = k'"
  shows "ki_mode k' = i_permissions i OR ucast (type_mode (i_type i)) \<and> ki_mode k' AND 0xF000 = ucast (type_mode (i_type i))"
proof -
  have "ki_mode k' = ucast (ucast (i_permissions i) OR type_mode (i_type i) :: u32)"
    unfolding assms(3) [symmetric] assms(2) [symmetric] squashfs_fill_inode_def Let_def by simp
  moreover have same: "ucast (ucast p :: u32) = p" for p :: u16
    by (rule bit_word_eqI) (simp add: bit_simps)
  moreover have "ucast x AND (0xF000 :: u16) = ucast (x AND 0xF000)" for x :: u32
    by (simp add: unsigned_and_eq)
  ultimately show ?thesis using mode_type [OF assms(1), of "i_type i"]
    by (metis unsigned_or_eq)
qed

lemma fill_tables:
  assumes "i_permissions i < 0x1000" and "sqfs_vfs_fill_attr ctx i = a"
    and "squashfs_fill_inode lib k (at_mode a) (at_ino a) (at_nlink a) (at_uid a) (at_gid a) (at_size a)
      (at_blocks a) (at_blksize a) (at_mtime a) (at_rdev_major a) (at_rdev_minor a) = k'"
  shows "ki_fop k' = (if sqfs_inode_is_file (i_type i) then Some squashfs_file_ops
        else if sqfs_inode_is_dir (i_type i) then Some squashfs_dir_ops else ki_fop k)
    \<and> ki_op k' = (if sqfs_inode_is_file (i_type i) then Some squashfs_inode_ops
        else if sqfs_inode_is_dir (i_type i) then Some squashfs_dir_inode_ops
        else if sqfs_inode_is_symlink (i_type i) then Some squashfs_symlink_inode_ops else ki_op k)"
  unfolding assms(3) [symmetric] assms(2) [symmetric] squashfs_fill_inode_def set_operations_def attr_mode
    mode_type [OF assms(1)] Let_def
  by (cases "i_type i") (simp_all add: sqfs_inode_is_dir_def sqfs_inode_is_file_def
      sqfs_inode_is_symlink_def)

lemma fill_calls:
  assumes "i_permissions i < 0x1000" and "sqfs_vfs_fill_attr ctx i = a"
    and "squashfs_fill_inode lib k (at_mode a) (at_ino a) (at_nlink a) (at_uid a) (at_gid a) (at_size a)
      (at_blocks a) (at_blksize a) (at_mtime a) (at_rdev_major a) (at_rdev_minor a) = k'"
  shows "ki_calls k' = ki_calls k @ [Set_nlink (i_link_count i), I_uid_write (ucast (i_uid i)), I_gid_write (ucast (i_gid i))]
        @ type_calls lib i (ki_mode k')"
  using attr_dev [of i ctx]
  unfolding assms(3) [symmetric] assms(2) [symmetric] squashfs_fill_inode_def set_operations_def attr_mode
    mode_type [OF assms(1)] Let_def
  by (cases "i_type i") (simp_all add: type_calls_def sqfs_inode_is_dir_def sqfs_inode_is_file_def
      sqfs_inode_is_symlink_def sqfs_inode_is_dev_def)

lemma fill_time:
  assumes "sqfs_vfs_fill_attr ctx i = a"
    and "squashfs_fill_inode lib k (at_mode a) (at_ino a) (at_nlink a) (at_uid a) (at_gid a) (at_size a)
      (at_blocks a) (at_blksize a) (at_mtime a) (at_rdev_major a) (at_rdev_minor a) = k'"
  shows "\<exists>ns. ki_mtime k' = kl_ns_to_timespec64 lib ns \<and> unat ns = unat (i_mtime i) * 10 ^ 9 \<and> unat ns < 2 ^ 63"
proof -
  have lt: "unat (i_mtime i) * 1000000000 < 4294967296 * 1000000000"
    using less_le_trans [OF unsigned_less, of "2 ^ 32" "i_mtime i"] by simp
  have "ki_mtime k' = kl_ns_to_timespec64 lib (ucast (i_mtime i) * NSEC_PER_SEC)"
    unfolding assms(2) [symmetric] assms(1) [symmetric] squashfs_fill_inode_def Let_def by simp
  moreover have "unat (ucast (i_mtime i) * NSEC_PER_SEC) = unat (i_mtime i) * 10 ^ 9"
  proof -
    from lt have "unat (i_mtime i) * 1000000000 < 18446744073709551616" by linarith
    from mod_less [OF this] show ?thesis by (simp add: NSEC_PER_SEC_def unat_word_ariths(2) unat_ucast_up)
  qed
  moreover have "unat (i_mtime i) * 10 ^ 9 < 2 ^ 63"
  proof -
    from lt have "unat (i_mtime i) * 1000000000 < 9223372036854775808" by linarith
    then show ?thesis by simp
  qed
  ultimately show ?thesis by metis
qed

section \<open>Main results\<close>

text \<open>C33: loading and unloading the kernel module any number of times, with any outcome of the creation of the
  inode cache and of the registration, makes no call the kernel forbids and leaves nothing behind: the caches
  are those of before, the file system is not registered. The cache is destroyed only after the
  file system is unregistered and the barrier has passed. A module that is loaded cannot mount: the
  callback reports \<open>-ENOMEM\<close> whatever it is given.\<close>

theorem module_leaves_nothing:
  assumes "\<forall>(p, e) \<in> set runs. p \<notin> others"
  shows "kernel_run (kernel_calls (module_lives runs \<lparr>squashfs_inode_cachep = 0, kernel_calls = []\<rparr>)) (outside others)
      = Some (outside others)
    \<and> squashfs_mount mount_bdev = mount_bdev (-12)"
  using module_lives_calls [OF assms, of "\<lparr>squashfs_inode_cachep = 0, kernel_calls = []\<rparr>"]
  by (auto simp: squashfs_mount_def squashfs_fill_super_def ENOMEM_no_def)

theorem module_leaves_nothing_witness:
  "kernel_run (kernel_calls (module_lives [(0, 0), (5, -16), (5, 0)] \<lparr>squashfs_inode_cachep = 0, kernel_calls = []\<rparr>))
     (outside {7}) = Some (outside {7})
   \<and> (squashfs_mount (\<lambda>r. r) :: int) = -12"
  using module_leaves_nothing [of "[(0, 0), (5, -16), (5, 0)]" "{7}" "\<lambda>r. r :: int"] by simp

text \<open>A kernel with the usual device numbers, and a fresh inode.\<close>

definition some_lib :: "u64 kernel_lib" where
  "some_lib = \<lparr>kl_ilog2 = (\<lambda>_. 12), kl_ns_to_timespec64 = (\<lambda>n. n), kl_mkdev = (\<lambda>a b. push_bit 20 a OR b)\<rparr>"

definition some_kinode :: "u64 kinode" where
  "some_kinode = \<lparr>ki_ino = 0, ki_mode = 0, ki_size = 0, ki_blocks = 0, ki_blkbits = 0, ki_atime = 0, ki_mtime = 0,
     ki_ctime = 0, ki_op = None, ki_fop = None, ki_aops = None, ki_calls = []\<rparr>"

text \<open>C32: the Linux inode has the type of the runtime inode. \<open>squashfs_fill_inode\<close> takes attributes as
  \<open>sqfs_vfs_fill_attr\<close> computes them; the skeleton of the module calls neither, so this states that the two fit. For an
  inode whose permission field has no bits above the twelve (\<open>inode.c\<close> stores the sixteen bits of the image unmasked, and
  higher ones would change the type), the mode is the permissions with the format bits of the type; regular files and
  directories get their own tables, symbolic links theirs and lowmem pages; devices are made special with the numbers the
  runtime inode holds (of a loaded one the major is the index of its attributes, C11), pipes and sockets with none; and
  the time in nanoseconds does not wrap around.\<close>

theorem filled_inode_typed:
  assumes "i_permissions i < 0x1000" and "sqfs_vfs_fill_attr ctx i = a"
    and "squashfs_fill_inode lib k (at_mode a) (at_ino a) (at_nlink a) (at_uid a) (at_gid a) (at_size a)
      (at_blocks a) (at_blksize a) (at_mtime a) (at_rdev_major a) (at_rdev_minor a) = k'"
  shows "ki_mode k' = i_permissions i OR ucast (type_mode (i_type i))
    \<and> ki_mode k' AND 0xF000 = ucast (type_mode (i_type i))
    \<and> ki_fop k' = (if sqfs_inode_is_file (i_type i) then Some squashfs_file_ops
        else if sqfs_inode_is_dir (i_type i) then Some squashfs_dir_ops else ki_fop k)
    \<and> ki_op k' = (if sqfs_inode_is_file (i_type i) then Some squashfs_inode_ops
        else if sqfs_inode_is_dir (i_type i) then Some squashfs_dir_inode_ops
        else if sqfs_inode_is_symlink (i_type i) then Some squashfs_symlink_inode_ops else ki_op k)
    \<and> ki_calls k' = ki_calls k @ [Set_nlink (i_link_count i), I_uid_write (ucast (i_uid i)), I_gid_write (ucast (i_gid i))]
        @ type_calls lib i (ki_mode k')
    \<and> (\<exists>ns. ki_mtime k' = kl_ns_to_timespec64 lib ns \<and> unat ns = unat (i_mtime i) * 10 ^ 9 \<and> unat ns < 2 ^ 63)"
  using fill_mode [OF assms] fill_tables [OF assms] fill_calls [OF assms] fill_time [OF assms(2,3)] by blast

text \<open>A block device with the numbers 8 and 1.\<close>

theorem filled_inode_typed_witness:
  "\<exists>(i :: sqfs_inode) k'. i_type i = SQFS_INODE_BLKDEV \<and> squashfs_fill_inode some_lib some_kinode 0x6180 0 0 0 0 0 0 0 0 8 1 = k'
    \<and> ki_mode k' = 0x6180 \<and> ki_calls k' = [Set_nlink 0, I_uid_write 0, I_gid_write 0, Init_special_inode 0x6180 0x800001]"
proof -
  let ?i = "put_dev 8 1 ((new_inode SQFS_INODE_BLKDEV)\<lparr>i_permissions := 0x180\<rparr>)"
  let ?a = "sqfs_vfs_fill_attr fs_ctx ?i"
  have a: "?a = \<lparr>at_ino = 0, at_mode = 0x6180, at_nlink = 0, at_uid = 0, at_gid = 0, at_size = 0, at_blocks = 0,
      at_blksize = 0, at_atime = 0, at_mtime = 0, at_ctime = 0, at_rdev_major = 8, at_rdev_minor = 1\<rparr>"
    by (simp add: sqfs_vfs_fill_attr_def put_dev_def new_inode_def dev_major_def dev_minor_def
        sqfs_inode_is_dir_def sqfs_inode_is_file_def sqfs_inode_is_symlink_def sqfs_inode_is_dev_def)
  have "i_permissions ?i < 0x1000" by (simp add: put_dev_def new_inode_def)
  note t = filled_inode_typed [OF this a refl, of some_lib some_kinode]
  have m: "i_permissions ?i = 0x180" "i_type ?i = SQFS_INODE_BLKDEV" "i_link_count ?i = 0" "i_uid ?i = 0" "i_gid ?i = 0"
    "dev_major ?i = 8" "dev_minor ?i = 1"
    by (simp_all add: put_dev_def new_inode_def dev_major_def dev_minor_def)
  have "i_type ?i = SQFS_INODE_BLKDEV \<and>
      squashfs_fill_inode some_lib some_kinode 0x6180 0 0 0 0 0 0 0 0 8 1 = squashfs_fill_inode some_lib some_kinode 0x6180 0 0 0 0 0 0 0 0 8 1
      \<and> ki_mode (squashfs_fill_inode some_lib some_kinode 0x6180 0 0 0 0 0 0 0 0 8 1) = 0x6180
      \<and> ki_calls (squashfs_fill_inode some_lib some_kinode 0x6180 0 0 0 0 0 0 0 0 8 1)
        = [Set_nlink 0, I_uid_write 0, I_gid_write 0, Init_special_inode 0x6180 0x800001]"
    using t by (simp add: m type_calls_def some_lib_def some_kinode_def
        sqfs_inode_is_dir_def sqfs_inode_is_file_def sqfs_inode_is_symlink_def sqfs_inode_is_dev_def)
  then show ?thesis by blast
qed

end
