(* ===== verification/InodeTypes.thy ===== *)
theory InodeTypes
  imports ImageTree
begin

text \<open>
  The shape of runtime inodes: which allocations an inode has, by its type, and that every inode the
  program works with has exactly these. \<open>Ownership\<close> builds on it.
\<close>

text \<open>The block size array exists for the files that have full blocks, with one size for each.\<close>

definition block_list_typed :: "sqfs_inode \<Rightarrow> bool" where
  "block_list_typed i =
     (case i_block_sizes i of
        None \<Rightarrow> sqfs_inode_is_file (i_type i) \<longrightarrow> file_block_count i = 0
      | Some bs \<Rightarrow> sqfs_inode_is_file (i_type i) \<and> bs \<noteq> [] \<and> length bs = unat (file_block_count i))"

text \<open>The target exists for symbolic links: the address \<open>malloc\<close> gave for its size, the bytes with their
  terminator. The pointer to it is intact in a basic link; in an extended one the index of the attributes has
  replaced its low half.\<close>

definition target_typed :: "allocator \<Rightarrow> sqfs_inode \<Rightarrow> bool" where
  "target_typed mem i =
     (case i_target_alloc i of
        None \<Rightarrow> \<not> sqfs_inode_is_symlink (i_type i)
      | Some (a, bs) \<Rightarrow> sqfs_inode_is_symlink (i_type i) \<and> a \<noteq> 0 \<and> a = sqfs_malloc mem (length bs)
          \<and> length bs = unat (symlink_target_size i) + 1 \<and> last bs = 0
          \<and> hi32 (symlink_target i) = hi32 a
          \<and> (i_type i = SQFS_INODE_SYMLINK \<longrightarrow> symlink_target i = a))"

definition inode_typed :: "allocator \<Rightarrow> sqfs_inode \<Rightarrow> bool" where
  "inode_typed mem i \<longleftrightarrow> block_list_typed i \<and> target_typed mem i"

lemmas typed_defs = inode_typed_def block_list_typed_def target_typed_def

lemmas kind_defs = sqfs_inode_is_file_def sqfs_inode_is_dir_def sqfs_inode_is_symlink_def
  sqfs_inode_is_dev_def sqfs_inode_is_ipc_def

section \<open>The parsers\<close>

text \<open>A structure that has just been allocated, with its common fields filled in.\<close>

definition blank :: "sqfs_inode_type \<Rightarrow> sqfs_inode \<Rightarrow> bool" where
  "blank t i \<longleftrightarrow> i_type i = t \<and> i_block_sizes i = None \<and> i_target_alloc i = None"

lemma blank_new [simp]:
  "blank t ((new_inode t)\<lparr>i_number := a, i_permissions := b, i_uid := c, i_gid := d, i_mtime := e, i_block_sizes := None\<rparr>)"
  by (simp add: blank_def new_inode_def)

lemma parse_block_list_typed:
  "parse_block_list mem data fixed n = Inr (bs, consumed) \<Longrightarrow>
     (case bs of None \<Rightarrow> n = 0 | Some xs \<Rightarrow> xs \<noteq> [] \<and> length xs = unat n)"
  by (auto simp: parse_block_list_def rbind_eq_Inr_iff word_less_nat_alt unat_eq_zero dest!: read_block_sizes_length
      split: if_splits)

lemma parse_dir_typed:
  "parse_inode_dir data i = Inr i' \<Longrightarrow> blank SQFS_INODE_DIR i \<Longrightarrow> inode_typed mem i' \<and> i_type i' = SQFS_INODE_DIR"
  by (auto simp: parse_inode_dir_def rbind_eq_Inr_iff Let_def blank_def typed_defs kind_defs union_defs)

lemma parse_ldir_typed:
  "parse_inode_ldir data i = Inr i' \<Longrightarrow> blank SQFS_INODE_LDIR i \<Longrightarrow> inode_typed mem i' \<and> i_type i' = SQFS_INODE_LDIR"
  by (auto simp: parse_inode_ldir_def rbind_eq_Inr_iff blank_def typed_defs kind_defs union_defs)

lemma parse_file_typed:
  "parse_inode_file mem data bsize i = Inr (i', n) \<Longrightarrow> blank SQFS_INODE_FILE i \<Longrightarrow>
     inode_typed mem i' \<and> i_type i' = SQFS_INODE_FILE"
  by (auto simp: parse_inode_file_def rbind_eq_Inr_iff blank_def typed_defs kind_defs union_defs
      dest!: parse_block_list_typed split: option.splits)

lemma parse_lfile_typed:
  "parse_inode_lfile mem data bsize i = Inr (i', n) \<Longrightarrow> blank SQFS_INODE_LFILE i \<Longrightarrow>
     inode_typed mem i' \<and> i_type i' = SQFS_INODE_LFILE"
  by (auto simp: parse_inode_lfile_def rbind_eq_Inr_iff blank_def typed_defs kind_defs union_defs
      dest!: parse_block_list_typed split: option.splits)

lemma target_len_no_wrap:
  assumes "mem_read data off (unat (n :: u32)) = Inr path" and "length data < 2 ^ 32 - 1"
  shows "unat (n + 1) = unat n + 1" and "length path = unat n"
proof -
  from assms(1) have l: "off + unat n \<le> length data \<and> path = segment data off (unat n)"
    by (simp add: mem_read_def segment_def split: if_splits)
  then have "unat n + 1 < 2 ^ 32" using assms(2) by linarith
  then show "unat (n + 1) = unat n + 1" by (simp add: unat_word_ariths(1))
  from l show "length path = unat n" by (auto simp: min_def)
qed

lemma parse_symlink_typed:
  assumes "parse_inode_symlink mem data i = Inr (i', n)" and "blank SQFS_INODE_SYMLINK i" and "length data < 2 ^ 32 - 1"
  shows "inode_typed mem i' \<and> i_type i' = SQFS_INODE_SYMLINK"
proof -
  note parse = assms(1) [unfolded parse_inode_symlink_def]
  obtain links where l: "get_le32 data 16 = Inr links" using parse by (cases "get_le32 data 16") simp_all
  obtain len where n: "get_le32 data 20 = Inr len" using parse l by (cases "get_le32 data 20") simp_all
  have m: "sqfs_malloc mem (unat (len + 1)) \<noteq> 0" using parse l n by (simp add: Let_def split: if_splits)
  obtain path where rd: "(mem_read data 24 (unat len) :: byte list res) = Inr path"
    using parse l n m by (cases "mem_read data 24 (unat len) :: byte list res") (simp_all add: Let_def)
  from parse l n m rd target_len_no_wrap [OF rd assms(3)] assms(2) show ?thesis
    by (auto simp: Let_def blank_def typed_defs kind_defs union_defs)
qed

lemma parse_lsymlink_typed:
  assumes "parse_inode_lsymlink mem data i = Inr (i', n)" and "blank SQFS_INODE_LSYMLINK i" and "length data < 2 ^ 32 - 1"
  shows "inode_typed mem i' \<and> i_type i' = SQFS_INODE_LSYMLINK"
proof -
  note parse = assms(1) [unfolded parse_inode_lsymlink_def]
  obtain links where l: "get_le32 data 16 = Inr links" using parse by (cases "get_le32 data 16") simp_all
  obtain len where n: "get_le32 data 20 = Inr len" using parse l by (cases "get_le32 data 20") simp_all
  have m: "sqfs_malloc mem (unat (len + 1)) \<noteq> 0" using parse l n by (simp add: Let_def split: if_splits)
  obtain path where rd: "(mem_read data 24 (unat len) :: byte list res) = Inr path"
    using parse l n m by (cases "mem_read data 24 (unat len) :: byte list res") (simp_all add: Let_def)
  obtain x where x: "get_le32 data (24 + unat len) = Inr x"
    using parse l n m rd by (cases "get_le32 data (24 + unat len)") (simp_all add: Let_def)
  from parse l n m rd x target_len_no_wrap [OF rd assms(3)] assms(2) show ?thesis
    by (auto simp: Let_def blank_def typed_defs kind_defs union_defs)
qed

lemma parse_dev_typed:
  "parse_inode_dev data i e = Inr (i', n) \<Longrightarrow> blank t i \<Longrightarrow> sqfs_inode_is_dev t \<Longrightarrow> inode_typed mem i' \<and> i_type i' = t"
  by (auto simp: parse_inode_dev_def rbind_eq_Inr_iff Let_def blank_def typed_defs kind_defs union_defs split: if_splits)

lemma parse_ipc_typed:
  "parse_inode_ipc data i e = Inr (i', n) \<Longrightarrow> blank t i \<Longrightarrow> sqfs_inode_is_ipc t \<Longrightarrow> inode_typed mem i' \<and> i_type i' = t"
  by (auto simp: parse_inode_ipc_def rbind_eq_Inr_iff Let_def blank_def typed_defs kind_defs union_defs split: if_splits)

lemma parse_switch_typed:
  assumes "parse_inode_switch mem data bsize t i = Inr (i', n)" and "blank t i" and "length data < 2 ^ 32 - 1"
  shows "inode_typed mem i' \<and> i_type i' = t"
  using assms(1,2) parse_symlink_typed [OF _ _ assms(3)] parse_lsymlink_typed [OF _ _ assms(3)]
  by (cases t)
    (auto simp: parse_inode_switch_def rbind_eq_Inr_iff sqfs_inode_is_dev_def sqfs_inode_is_ipc_def split: if_splits
      dest: parse_dir_typed [where mem = mem] parse_ldir_typed [where mem = mem] parse_file_typed parse_lfile_typed
        parse_dev_typed [where mem = mem] parse_ipc_typed [where mem = mem])

lemma parse_inode_typed:
  assumes "parse_inode mem data bsize = Inr i" and "length data < 2 ^ 32 - 1"
  shows "inode_typed mem i"
proof -
  from assms(1) obtain t i0 n where "parse_inode_switch mem data bsize t i0 = Inr (i, n)" "blank t i0"
    by (auto simp: parse_inode_def rbind_eq_Inr_iff intro: that [OF _ blank_new] split: if_splits option.splits)
  from parse_switch_typed [OF this assms(2)] show ?thesis ..
qed

section \<open>Look-up and paths\<close>

lemma get_by_ref_typed:
  assumes "sqfs_inode_get_by_ref mem ctx ref = Inr i"
  shows "inode_typed mem i"
proof -
  from assms obtain n raw where "read_inode_metadata mem ctx ref n = Inr raw" "n \<le> 8192"
    and p: "parse_inode mem raw (block_size (disk (ctx_sb ctx))) = Inr i"
    by (auto simp: sqfs_inode_get_by_ref_def rbind_eq_Inr_iff Let_def split: option.splits if_splits)
  from read_inode_metadata_length [OF this(1)] this(2) have "length raw < 2 ^ 32 - 1" by simp
  with p show ?thesis by (rule parse_inode_typed)
qed

lemma to_vfs_eq_Inr_iff [simp]: "to_vfs r = Inr x \<longleftrightarrow> r = Inr x"
  by (auto simp: to_vfs_def split: sum.splits failure.splits)

lemma walk_typed:
  "walk_components mem ctx rest i = Inr j \<Longrightarrow> inode_typed mem i \<Longrightarrow> inode_typed mem j"
proof (induction mem ctx rest i rule: walk_components.induct)
  case (1 mem ctx rest i)
  show ?case
  proof (cases "strtok_r rest")
    case None
    with 1(3,4) show ?thesis by (simp add: walk_components.simps)
  next
    case (Some p)
    obtain component rest' where p: "p = (component, rest')" by (cases p)
    from 1(3) Some p obtain es d i' where e: "sqfs_dir_read mem ctx i = Inr es" and dir: "sqfs_inode_is_dir (i_type i)"
      and fr: "free_inode i = Inr ()" and l: "sqfs_dirent_lookup es component = Some d"
      and g: "sqfs_inode_get_by_ref mem ctx (d_inode_ref d) = Inr i'" and w: "walk_components mem ctx rest' i' = Inr j"
      by (auto simp: walk_components.simps [of mem ctx rest i] rbind_eq_Inr_iff
          split: if_splits sum.splits failure.splits option.splits)
    from dir have "\<not> \<not> sqfs_inode_is_dir (i_type i)" by simp
    from 1(2) [OF Some p [symmetric] this e fr _ l g w get_by_ref_typed [OF g]] show ?thesis by simp
  qed
qed

lemma resolve_typed: "sqfs_vfs_resolve_path mem ctx path = Inr i \<Longrightarrow> inode_typed mem i"
  by (auto simp: sqfs_vfs_resolve_path_def rbind_eq_Inr_iff to_vfs_def split: if_splits sum.splits failure.splits list.splits
      intro: get_by_ref_typed walk_typed)

section \<open>Main results\<close>

text \<open>C19: the inodes the program works with are well-typed. Every inode found by its reference, by a path or
  held by an open file has a block size array exactly when it is a file with full blocks, with as many sizes as its
  block count says; it has a target exactly when it is a symbolic link, terminated, of the size it states and at the
  address \<open>malloc\<close> gave for that size. So the target of a basic symbolic link can be read as far as its size.\<close>

theorem inodes_typed:
  "(\<forall>i. sqfs_inode_get_by_ref mem ctx ref = Inr i \<longrightarrow> inode_typed mem i)
   \<and> (\<forall>i. sqfs_vfs_resolve_path mem ctx path = Inr i \<longrightarrow> inode_typed mem i)
   \<and> (\<forall>h. sqfs_vfs_open mem ctx path = Inr h \<longrightarrow>
        (\<exists>i. fh_inode h = Some i \<and> inode_typed mem i \<and> sqfs_inode_is_file (i_type i) \<and> fh_file_size h = file_file_size i))
   \<and> (\<forall>i n. sqfs_vfs_resolve_path mem ctx path = Inr i \<and> i_type i = SQFS_INODE_SYMLINK \<and> n \<le> unat (symlink_target_size i)
        \<longrightarrow> (\<exists>b. read_target i n = Inr b \<and> length b = n))"
proof (intro conjI allI impI)
  fix h assume "sqfs_vfs_open mem ctx path = Inr h"
  then show "\<exists>i. fh_inode h = Some i \<and> inode_typed mem i \<and> sqfs_inode_is_file (i_type i) \<and> fh_file_size h = file_file_size i"
    by (auto simp: sqfs_vfs_open_def rbind_eq_Inr_iff dest: resolve_typed split: if_splits)
next
  fix i n
  assume a: "sqfs_vfs_resolve_path mem ctx path = Inr i \<and> i_type i = SQFS_INODE_SYMLINK \<and> n \<le> unat (symlink_target_size i)"
  then have "inode_typed mem i" by (blast dest: resolve_typed)
  with a obtain bs where "i_target_alloc i = Some (symlink_target i, bs)" "length bs = unat (symlink_target_size i) + 1"
    by (auto simp: typed_defs kind_defs split: option.splits)
  with a show "\<exists>b. read_target i n = Inr b \<and> length b = n"
    by (auto simp: read_target_def mem_read_def)
qed (auto intro: get_by_ref_typed resolve_typed)

theorem inodes_typed_witness:
  "\<exists>h i. sqfs_vfs_open mem_ok fs_ctx [47, 97] = Inr h \<and> fh_inode h = Some i \<and> inode_typed mem_ok i
     \<and> sqfs_inode_is_file (i_type i)"
proof -
  have "readable_image fs_ctx" by (simp add: readable_image_def fs_reliable)
  from open_image [OF _ this mem_ok_pos, of fs_root "[97]"] fs_root_written
  have "\<exists>h. sqfs_vfs_open mem_ok fs_ctx [47, 97] = Inr h"
    by (simp add: answer_def at_path_def fs_root_def path_components_def sqfs_inode_is_dir_def fn_type_def sqfs_fuse_open_def
        spec_handle_def spec_open_def root_di_def file_di_def sqfs_inode_is_file_def)
  then obtain h where h: "sqfs_vfs_open mem_ok fs_ctx [47, 97] = Inr h" ..
  from inodes_typed [of mem_ok fs_ctx 0 "[47, 97]"] h show ?thesis by metis
qed

end
