(* ===== verification/Arena.thy ===== *)
theory Arena
  imports InodeTypes "HOL-Library.Multiset"
begin

text \<open>
  Allocations one by one. The other theories know of an allocation only whether it succeeds. Here
  every block that \<open>malloc\<close>, \<open>calloc\<close> or \<open>realloc\<close> hands out has an identity, the arena knows which
  blocks are live, and freeing a block that is not is a fault. \<open>Ownership\<close> models the routines with
  their calls of \<open>free\<close> on this level and relates them to the definitions without.
\<close>

section \<open>The arena\<close>

record arena =
  ar_next :: nat
  ar_live :: "nat multiset"

definition empty_arena :: arena where "empty_arena = \<lparr>ar_next = 0, ar_live = {#}\<rparr>"

text \<open>New blocks are new, and no block is live twice.\<close>

definition arena_ok :: "arena \<Rightarrow> bool" where
  "arena_ok h \<longleftrightarrow> (\<forall>b \<in># ar_live h. b < ar_next h) \<and> (\<forall>b. count (ar_live h) b \<le> 1)"

lemma empty_arena_ok [simp]: "arena_ok empty_arena" "ar_live empty_arena = {#}"
  by (simp_all add: arena_ok_def empty_arena_def)

text \<open>A routine that works on the arena, with the results of the rest of the development.\<close>

type_synonym ('e, 'a) own = "arena \<Rightarrow> ('e failure + 'a) \<times> arena"

definition own_lift :: "('e failure + 'a) \<Rightarrow> ('e, 'a) own" where
  "own_lift r h = (r, h)"

definition own_bind :: "('e, 'a) own \<Rightarrow> ('a \<Rightarrow> ('e, 'b) own) \<Rightarrow> ('e, 'b) own" where
  "own_bind m f h = (case m h of (Inl e, h) \<Rightarrow> (Inl e, h) | (Inr x, h) \<Rightarrow> f x h)"

lemma own_bind_cong [fundef_cong]:
  "m = m' \<Longrightarrow> (\<And>h x h'. m' h = (Inr x, h') \<Longrightarrow> f x = g x) \<Longrightarrow> own_bind m f = own_bind m' g"
  by (auto simp: own_bind_def fun_eq_iff split: prod.split sum.split)

text \<open>A caller that keeps the error code and goes on, as \<open>ret = f(...); free(...); if (ret ...)\<close> does.\<close>

definition own_try :: "('e, 'a) own \<Rightarrow> ('e + 'a \<Rightarrow> ('d, 'b) own) \<Rightarrow> ('d, 'b) own" where
  "own_try m f h = (case m h of
       (Inl (Fault x), h) \<Rightarrow> (Inl (Fault x), h)
     | (Inl (Err e), h) \<Rightarrow> f (Inl e) h
     | (Inr x, h) \<Rightarrow> f (Inr x) h)"

text \<open>An allocation whose outcome is the given address; the branch for the null pointer comes first.\<close>

definition own_alloc :: "u64 \<Rightarrow> ('e, 'a) own \<Rightarrow> (nat \<Rightarrow> ('e, 'a) own) \<Rightarrow> ('e, 'a) own" where
  "own_alloc p fail ok h =
     (if p = 0 then fail h
      else ok (ar_next h) (h\<lparr>ar_next := ar_next h + 1, ar_live := ar_live h + {#ar_next h#}\<rparr>))"

text \<open>\<open>sqfs_free\<close> and \<open>free\<close>; the null pointer is \<open>None\<close>.\<close>

definition sqfs_free :: "nat option \<Rightarrow> ('e, unit) own" where
  "sqfs_free p h = (case p of
       None \<Rightarrow> (Inr (), h)
     | Some b \<Rightarrow> if b \<in># ar_live h then (Inr (), h\<lparr>ar_live := ar_live h - {#b#}\<rparr>)
                 else (Inl (Fault Wild_Pointer), h))"

definition own_realloc :: "u64 \<Rightarrow> nat option \<Rightarrow> ('e, 'a) own \<Rightarrow> (nat \<Rightarrow> ('e, 'a) own) \<Rightarrow> ('e, 'a) own" where
  "own_realloc p old fail ok =
     (if p = 0 then fail else own_bind (sqfs_free old) (\<lambda>_. own_alloc p fail ok))"

fun free_each :: "nat list \<Rightarrow> ('e, unit) own" where
  "free_each [] = own_lift (Inr ())"
| "free_each (b # bs) = own_bind (sqfs_free (Some b)) (\<lambda>_. free_each bs)"

section \<open>Triples\<close>

text \<open>
  A routine that starts with the blocks \<open>M\<close> in its hands, among any others, ends with blocks it hands on.
  \<open>Q\<close> relates its result to them. Nothing is said of the arena after a fault.
\<close>

definition owned :: "('e, 'a) own \<Rightarrow> nat multiset \<Rightarrow> (('e failure + 'a) \<Rightarrow> nat multiset \<Rightarrow> bool) \<Rightarrow> bool" where
  "owned m M Q \<longleftrightarrow> (\<forall>h F. arena_ok h \<and> ar_live h = M + F \<longrightarrow>
     (\<exists>P. Q (fst (m h)) P \<and> (safe (fst (m h)) \<longrightarrow> arena_ok (snd (m h)) \<and> ar_live (snd (m h)) = P + F)))"

text \<open>The result is the one of the definition without an arena: the same error with no block left in hand,
  the same fault, or a value that \<open>R\<close> relates to its value and the blocks that belong to it.\<close>

definition outcome :: "('e failure + 'b) \<Rightarrow> ('a \<Rightarrow> 'b \<Rightarrow> nat multiset \<Rightarrow> bool) \<Rightarrow> ('e failure + 'a) \<Rightarrow> nat multiset \<Rightarrow> bool" where
  "outcome r R res P = (case res of
       Inl (Fault f) \<Rightarrow> r = Inl (Fault f)
     | Inl (Err e) \<Rightarrow> r = Inl (Err e) \<and> P = {#}
     | Inr x \<Rightarrow> (\<exists>v. r = Inr v \<and> R x v P))"

definition runs :: "('e, 'a) own \<Rightarrow> nat multiset \<Rightarrow> ('e failure + 'b) \<Rightarrow> ('a \<Rightarrow> 'b \<Rightarrow> nat multiset \<Rightarrow> bool) \<Rightarrow> bool" where
  "runs m M r R \<longleftrightarrow> owned m M (outcome r R)"

text \<open>A value that has no blocks of its own.\<close>

definition plain :: "'a \<Rightarrow> 'a \<Rightarrow> nat multiset \<Rightarrow> bool" where
  "plain x v P \<longleftrightarrow> x = v \<and> P = {#}"

lemma plainI [simp, intro]: "plain x x {#}"
  by (simp add: plain_def)

lemma plainD [dest!]: "plain x v P \<Longrightarrow> x = v \<and> P = {#}"
  by (simp add: plain_def)

lemma runsI:
  assumes "\<And>h F. arena_ok h \<Longrightarrow> ar_live h = M + F \<Longrightarrow>
    (\<exists>P. outcome r R (fst (m h)) P \<and> (safe (fst (m h)) \<longrightarrow> arena_ok (snd (m h)) \<and> ar_live (snd (m h)) = P + F))"
  shows "runs m M r R"
  using assms by (simp add: runs_def owned_def)

lemma runsD:
  assumes "runs m M r R" and "arena_ok h" and "ar_live h = M + F"
  obtains (fault) f h' where "m h = (Inl (Fault f), h')" "r = Inl (Fault f)"
  | (error) e h' where "m h = (Inl (Err e), h')" "r = Inl (Err e)" "arena_ok h'" "ar_live h' = F"
  | (ok) x v P h' where "m h = (Inr x, h')" "r = Inr v" "R x v P" "arena_ok h'" "ar_live h' = P + F"
proof -
  obtain res h' where mh: "m h = (res, h')" by fastforce
  from assms have "\<exists>P. outcome r R (fst (m h)) P \<and> (safe (fst (m h)) \<longrightarrow> arena_ok (snd (m h)) \<and> ar_live (snd (m h)) = P + F)"
    unfolding runs_def owned_def by blast
  then obtain P where "outcome r R res P" "safe res \<Longrightarrow> arena_ok h' \<and> ar_live h' = P + F" by (auto simp: mh)
  with mh that show thesis by (cases res rule: sum.exhaust [case_product failure.exhaust])
    (auto simp: outcome_def split: failure.splits sum.splits)
qed

section \<open>Rules\<close>

lemma runs_lift [intro]:
  assumes "\<And>v. r = Inr v \<Longrightarrow> R v v {#}"
  shows "runs (own_lift r) {#} r R"
  by (rule runsI) (use assms in \<open>auto simp: own_lift_def outcome_def split: sum.split failure.split\<close>)

lemma runs_return:
  "R x v M \<Longrightarrow> runs (own_lift (Inr x)) M (Inr v) R"
  by (rule runsI) (auto simp: own_lift_def outcome_def)

lemma runs_fail [simp]: "runs (own_lift (Inl e)) {#} (Inl e) R"
  by (rule runsI) (cases e; auto simp: own_lift_def outcome_def)

lemma runs_fault [simp]: "runs (own_lift (Inl (Fault f))) M (Inl (Fault f)) R"
  by (rule runsI) (auto simp: own_lift_def outcome_def)

lemma runs_bind:
  assumes m: "runs m M r R" and f: "\<And>x v P. r = Inr v \<Longrightarrow> R x v P \<Longrightarrow> runs (f x) P (g v) R'"
  shows "runs (own_bind m f) M (rbind r g) R'"
proof (rule runsI)
  fix h F assume h: "arena_ok h" "ar_live h = M + F"
  from m h show "\<exists>P. outcome (rbind r g) R' (fst (own_bind m f h)) P \<and> (safe (fst (own_bind m f h)) \<longrightarrow>
      arena_ok (snd (own_bind m f h)) \<and> ar_live (snd (own_bind m f h)) = P + F)"
  proof (cases rule: runsD)
    case (ok x v P h')
    from runsD [OF f [OF ok(2,3)] ok(4,5)] show ?thesis
      by cases (auto simp: own_bind_def ok outcome_def)
  qed (auto simp: own_bind_def outcome_def)
qed

text \<open>Blocks that a call does not touch stay in hand.\<close>

lemma runs_try:
  assumes m: "runs m M r R"
    and ok: "\<And>x v P. r = Inr v \<Longrightarrow> R x v P \<Longrightarrow> runs (f (Inr x)) (P + X) r' R'"
    and err: "\<And>e. r = Inl (Err e) \<Longrightarrow> runs (f (Inl e)) X r' R'"
    and fault: "\<And>k. r = Inl (Fault k) \<Longrightarrow> r' = Inl (Fault k)"
  shows "runs (own_try m f) (M + X) r' R'"
proof (rule runsI)
  fix h F assume h: "arena_ok h" "ar_live h = M + X + F"
  then have "ar_live h = M + (X + F)" by (simp add: add.assoc)
  from m h(1) this show "\<exists>P. outcome r' R' (fst (own_try m f h)) P \<and> (safe (fst (own_try m f h)) \<longrightarrow>
      arena_ok (snd (own_try m f h)) \<and> ar_live (snd (own_try m f h)) = P + F)"
  proof (cases rule: runsD)
    case (ok x v P h')
    then have "ar_live h' = P + X + F" by (simp add: add.assoc)
    from runsD [OF assms(2) [OF ok(2,3)] ok(4) this] show ?thesis
      by cases (auto simp: own_try_def ok outcome_def)
  next
    case (error e h')
    from runsD [OF err [OF error(2)] error(3,4)] show ?thesis
      by cases (auto simp: own_try_def error outcome_def)
  qed (auto simp: own_try_def outcome_def fault)
qed

lemma runs_alloc:
  assumes "p = 0 \<Longrightarrow> runs fail M r R" and "\<And>b. p \<noteq> 0 \<Longrightarrow> runs (ok b) (M + {#b#}) r R"
  shows "runs (own_alloc p fail ok) M r R"
proof (cases "p = 0")
  case True
  with assms(1) show ?thesis by (simp add: runs_def owned_def own_alloc_def)
next
  case False
  show ?thesis
  proof (rule runsI)
    fix h F assume h: "arena_ok h" "ar_live h = M + F"
    let ?h = "h\<lparr>ar_next := ar_next h + 1, ar_live := ar_live h + {#ar_next h#}\<rparr>"
    have "count (ar_live h) (ar_next h) = 0" using h(1) by (auto simp: arena_ok_def not_in_iff)
    then have ok': "arena_ok ?h" using h(1) by (auto simp: arena_ok_def less_Suc_eq)
    have live: "ar_live ?h = M + {#ar_next h#} + F" using h(2) by (simp add: ac_simps)
    from assms(2) [OF False, of "ar_next h"] ok' live
    show "\<exists>P. outcome r R (fst (own_alloc p fail ok h)) P \<and> (safe (fst (own_alloc p fail ok h)) \<longrightarrow>
        arena_ok (snd (own_alloc p fail ok h)) \<and> ar_live (snd (own_alloc p fail ok h)) = P + F)"
      unfolding runs_def owned_def own_alloc_def using False by auto
  qed
qed

definition opt_block :: "nat option \<Rightarrow> nat multiset" where
  "opt_block p = (case p of None \<Rightarrow> {#} | Some b \<Rightarrow> {#b#})"

lemma opt_block_simps [simp]: "opt_block None = {#}" "opt_block (Some b) = {#b#}"
  by (simp_all add: opt_block_def)

lemma runs_free:
  assumes "runs (f ()) M r R"
  shows "runs (own_bind (sqfs_free p) f) (opt_block p + M) r R"
proof (rule runsI)
  fix h F assume h: "arena_ok h" "ar_live h = opt_block p + M + F"
  define h' where "h' = h\<lparr>ar_live := ar_live h - opt_block p\<rparr>"
  have ok: "arena_ok h'"
    using h(1) unfolding arena_ok_def h'_def by (auto dest!: in_diffD) (meson diff_le_self le_trans)
  have live: "ar_live h' = M + F" using h(2) by (simp add: h'_def ac_simps)
  have free: "sqfs_free p h = (Inr (), h')"
    using h(2) by (cases p) (simp_all add: sqfs_free_def h'_def)
  from assms ok live show "\<exists>P. outcome r R (fst (own_bind (sqfs_free p) f h)) P \<and> (safe (fst (own_bind (sqfs_free p) f h)) \<longrightarrow>
      arena_ok (snd (own_bind (sqfs_free p) f h)) \<and> ar_live (snd (own_bind (sqfs_free p) f h)) = P + F)"
    unfolding runs_def owned_def own_bind_def free by auto
qed

lemma runs_realloc:
  assumes "p = 0 \<Longrightarrow> runs fail (opt_block old + M) r R" and "\<And>b. p \<noteq> 0 \<Longrightarrow> runs (ok b) (M + {#b#}) r R"
  shows "runs (own_realloc p old fail ok) (opt_block old + M) r R"
  using assms by (auto simp: own_realloc_def intro!: runs_free runs_alloc)

lemma runs_free_each:
  assumes "runs (f ()) M r R"
  shows "runs (own_bind (free_each bs) f) (mset bs + M) r R"
proof (induction bs)
  case Nil
  with assms show ?case by (simp add: runs_def owned_def own_bind_def own_lift_def)
next
  case (Cons b bs)
  have "own_bind (free_each (b # bs)) f = own_bind (sqfs_free (Some b)) (\<lambda>_. own_bind (free_each bs) f)"
    by (auto simp: own_bind_def fun_eq_iff split: prod.split sum.split)
  with runs_free [OF Cons, of "Some b"] show ?case by (simp add: ac_simps)
qed

lemma runs_weaken:
  assumes m: "runs m M r R" and le: "\<And>x v P. r = Inr v \<Longrightarrow> R x v P \<Longrightarrow> R' x v P"
  shows "runs m M r R'"
proof -
  have "outcome r R res P \<Longrightarrow> outcome r R' res P" for res P
    using le by (auto simp: outcome_def split: sum.splits failure.splits)
  with m show ?thesis unfolding runs_def owned_def by blast
qed

text \<open>A routine ends with its last call of \<open>free\<close>.\<close>

lemma own_bind_unit: "own_bind m (\<lambda>x. own_lift (Inr x)) = m"
  by (auto simp: own_bind_def own_lift_def fun_eq_iff split: prod.split sum.split)

lemma own_bind_assoc: "own_bind (own_bind m f) g = own_bind m (\<lambda>x. own_bind (f x) g)"
  by (auto simp: own_bind_def fun_eq_iff split: prod.split sum.split)

lemma own_bind_lift [simp]: "own_bind (own_lift (Inr x)) f = f x"
  by (simp add: own_bind_def own_lift_def fun_eq_iff)

lemma own_try_lift [simp]:
  "own_try (own_lift (Inr x)) f = f (Inr x)" "own_try (own_lift (Inl (Err e))) f = f (Inl e)"
  by (simp_all add: own_try_def own_lift_def fun_eq_iff)

lemma own_bind_lift_fail [simp]: "own_bind (own_lift (Inl e)) f = own_lift (Inl e)"
  by (simp add: own_bind_def own_lift_def fun_eq_iff)

text \<open>A step that has no error code: it succeeds or faults.\<close>

lemma runs_sure:
  assumes "\<forall>e. r \<noteq> Inl (Err e)" and "\<And>x. r = Inr x \<Longrightarrow> runs (f x) M (g x) R"
  shows "runs (own_bind (own_lift r) f) M (rbind r g) R"
proof (cases r)
  case (Inl a)
  with assms(1) show ?thesis by (cases a) simp_all
qed (use assms(2) in simp)

text \<open>Both sides take the same branch.\<close>

lemma runs_if:
  "(b \<Longrightarrow> runs m M r R) \<Longrightarrow> (\<not> b \<Longrightarrow> runs m' M r' R) \<Longrightarrow> runs (if b then m else m') M (if b then r else r') R"
  by simp

lemma rbind_if: "rbind (if b then x else y) f = (if b then rbind x f else rbind y f)"
  by simp

lemma runs_alloc_first:
  assumes "p = 0 \<Longrightarrow> runs fail {#} r R" and "\<And>b. p \<noteq> 0 \<Longrightarrow> runs (ok b) {#b#} r R"
  shows "runs (own_alloc p fail ok) {#} r R"
  by (rule runs_alloc) (simp_all add: assms)

text \<open>A call that needs none of the blocks in hand.\<close>

lemma runs_call:
  assumes "runs m {#} r R"
    and "\<And>x v P. r = Inr v \<Longrightarrow> R x v P \<Longrightarrow> runs (f (Inr x)) (P + X) (g v) R'"
    and "\<And>e. r = Inl (Err e) \<Longrightarrow> runs (f (Inl e)) X (Inl (Err e)) R'"
  shows "runs (own_try m f) X (rbind r g) R'"
proof -
  from assms(1) have "runs (own_try m f) ({#} + X) (rbind r g) R'"
    by (rule runs_try) (use assms(2,3) in auto)
  then show ?thesis by simp
qed

lemma runs_around:
  assumes "runs m {#} r R"
    and "\<And>x v P. r = Inr v \<Longrightarrow> R x v P \<Longrightarrow> runs (f (Inr x)) (P + X) r' R'"
    and "\<And>e. r = Inl (Err e) \<Longrightarrow> runs (f (Inl e)) X r' R'"
    and "\<And>k. r = Inl (Fault k) \<Longrightarrow> r' = Inl (Fault k)"
  shows "runs (own_try m f) X r' R'"
proof -
  from assms(1) have "runs (own_try m f) ({#} + X) r' R'"
    by (rule runs_try) (use assms(2-4) in auto)
  then show ?thesis by simp
qed

end
