(* ===== verification/Ownership.thy ===== *)
theory Ownership
  imports Arena
begin

text \<open>
  The routines of \<open>core/data.c\<close>, \<open>core/inode.c\<close>, \<open>core/directory.c\<close> and \<open>core/xattr.c\<close> that allocate,
  with every block they allocate and free. Each is related to the definition of the same name without
  the ending \<open>_mem\<close>: the same result, and the blocks in hand at its end are those of the value it returns.
\<close>

lemmas alloc_defs = sqfs_malloc_def sqfs_calloc_def sqfs_realloc_def

section \<open>Metadata blocks\<close>

text \<open>The second half of the reader, for a compressed block.\<close>

definition meta_compressed_mem ::
  "allocator \<Rightarrow> os_file \<Rightarrow> u64 \<Rightarrow> sqfs_compressor option \<Rightarrow> u16 \<Rightarrow> (sqfs_error, byte list) own" where
  "meta_compressed_mem mem fd data_pos cmp compressed_size =
     (if compressed_size < 8192 then
        own_bind (own_lift (read_block_from_disk fd data_pos (unat compressed_size))) (\<lambda>src.
          own_lift (recode (Err SQFS_ERR_CORRUPT)
            (sqfs_compressor_decompress cmp (Inside (8192 - unat compressed_size)) src SQFS_META_BLOCK_SIZE)))
      else own_alloc (sqfs_malloc mem (unat compressed_size)) (own_lift (Inl (Err SQFS_ERR_NO_MEMORY))) (\<lambda>read_buf.
        own_try (own_lift (read_block_from_disk fd data_pos (unat compressed_size))) (\<lambda>ret.
          case ret of
            Inl e \<Rightarrow> own_bind (sqfs_free (Some read_buf)) (\<lambda>_. own_lift (Inl (Err e)))
          | Inr src \<Rightarrow> own_bind (sqfs_free (Some read_buf)) (\<lambda>_.
              own_lift (recode (Err SQFS_ERR_CORRUPT)
                (sqfs_compressor_decompress cmp Disjoint src SQFS_META_BLOCK_SIZE))))))"

definition sqfs_meta_read_block_mem ::
  "allocator \<Rightarrow> os_file \<Rightarrow> u64 \<Rightarrow> sqfs_compressor option \<Rightarrow> (sqfs_error, byte list) own" where
  "sqfs_meta_read_block_mem mem fd pos cmp =
     (if cmp = None then own_lift (Inl (Err SQFS_ERR_CORRUPT))
      else own_bind (own_lift (read_block_from_disk fd pos 2)) (\<lambda>h.
        let header = sqfs_le16_to_cpu h AND 0xFFFF;
            is_uncompressed = header AND 0x8000 \<noteq> 0;
            compressed_size = header AND 0x7FFF
        in if compressed_size = 0 \<or> 8192 < compressed_size then own_lift (Inl (Err SQFS_ERR_CORRUPT))
           else if is_uncompressed then
             own_lift (read_block_from_disk fd (pos + 2) (unat compressed_size))
           else meta_compressed_mem mem fd (pos + 2) cmp compressed_size))"

text \<open>A temporary block around routines without blocks of their own.\<close>

lemma runs_temporary:
  assumes "\<And>x. r = Inr x \<Longrightarrow> runs (f (Inr x)) {#b#} (g x) R" and "\<And>e. r = Inl (Err e) \<Longrightarrow> runs (f (Inl e)) {#b#} (Inl (Err e)) R"
  shows "runs (own_try (own_lift r) f) {#b#} (rbind r g) R"
proof -
  have "runs (own_lift r) {#} r plain" by (rule runs_lift) simp
  then have "runs (own_try (own_lift r) f) ({#} + {#b#}) (rbind r g) R"
  proof (rule runs_try)
    fix x v P assume "r = Inr v" "plain x v P"
    with assms(1) show "runs (f (Inr x)) (P + {#b#}) (rbind r g) R" by auto
  next
    fix e assume "r = Inl (Err e)"
    with assms(2) show "runs (f (Inl e)) {#b#} (rbind r g) R" by simp
  qed simp
  then show ?thesis by simp
qed

lemma runs_free_one:
  "runs (f ()) M r R \<Longrightarrow> runs (own_bind (sqfs_free (Some b)) f) ({#b#} + M) r R"
  using runs_free [of f M r R "Some b"] by simp

lemma runs_free_end: "runs m {#} r R \<Longrightarrow> runs (own_bind (sqfs_free (Some b)) (\<lambda>_. m)) {#b#} r R"
  using runs_free_one [of "\<lambda>_. m" "{#}"] by simp

definition nothing :: "unit \<Rightarrow> unit \<Rightarrow> nat multiset \<Rightarrow> bool" where
  "nothing x v P \<longleftrightarrow> P = {#}"

lemma runs_free_last: "runs (sqfs_free (Some b)) {#b#} (Inr ()) nothing"
proof -
  have "runs (own_bind (sqfs_free (Some b)) (\<lambda>x. own_lift (Inr x))) ({#b#} + {#}) (Inr ()) nothing"
    by (rule runs_free_one, rule runs_return) (simp add: nothing_def)
  then show ?thesis unfolding own_bind_unit by simp
qed

lemma runs_plain_bind:
  assumes "\<And>x. r = Inr x \<Longrightarrow> runs (f x) {#} (g x) R"
  shows "runs (own_bind (own_lift r) f) {#} (rbind r g) R"
  by (rule runs_bind [where R = plain]) (use assms in auto)

lemma runs_plain_lift [simp]: "runs (own_lift r) {#} r plain"
  by (rule runs_lift) simp

lemma meta_compressed_owned:
  "runs (meta_compressed_mem mem fd pos cmp n) {#}
     (rbind (if n < 8192 then Inr (Inside (8192 - unat n))
        else if sqfs_malloc mem (unat n) = 0 then Inl (Err SQFS_ERR_NO_MEMORY) else Inr Disjoint) (\<lambda>place.
      rbind (read_block_from_disk fd pos (unat n)) (\<lambda>src.
        recode (Err SQFS_ERR_CORRUPT) (sqfs_compressor_decompress cmp place src SQFS_META_BLOCK_SIZE)))) plain"
  unfolding meta_compressed_mem_def
  by (cases "n < 8192") (simp_all add: runs_plain_bind runs_alloc runs_temporary runs_free_end)

lemma meta_read_block_owned: "runs (sqfs_meta_read_block_mem mem fd pos cmp) {#} (sqfs_meta_read_block mem fd pos cmp) plain"
proof (cases "cmp = None")
  case True
  then show ?thesis by (simp add: sqfs_meta_read_block_mem_def sqfs_meta_read_block_def)
next
  case False
  have branch: "runs (if b then own_lift x else if c then own_lift y else m) {#} (if b then x else if c then y else r) plain"
    if "runs m {#} r plain" for b c x y and m :: "(sqfs_error, byte list) own" and r
    using that by simp
  show ?thesis
    unfolding sqfs_meta_read_block_mem_def sqfs_meta_read_block_def if_not_P [OF False] Let_def
    by (intro runs_plain_bind branch meta_compressed_owned)
qed

text \<open>The reader of directories: the buffer of a compressed block.\<close>

definition decompress_meta_block_mem ::
  "allocator \<Rightarrow> os_file \<Rightarrow> u64 \<Rightarrow> u16 \<Rightarrow> bool \<Rightarrow> sqfs_compressor option \<Rightarrow> (sqfs_error, byte list) own" where
  "decompress_meta_block_mem mem fd pos comp_size is_uncomp cmp =
     (if is_uncomp then
        own_lift (sqfs_pread_buf fd SQFS_META_BLOCK_SIZE (unat comp_size) pos)
      else own_alloc (sqfs_malloc mem (unat comp_size)) (own_lift (Inl (Err SQFS_ERR_NO_MEMORY))) (\<lambda>comp_buf.
        own_try (own_lift (sqfs_pread_all fd (unat comp_size) pos)) (\<lambda>ret.
          case ret of
            Inl e \<Rightarrow> own_bind (sqfs_free (Some comp_buf)) (\<lambda>_. own_lift (Inl (Err e)))
          | Inr src \<Rightarrow> own_bind (sqfs_free (Some comp_buf)) (\<lambda>_.
              own_lift (recode (Err SQFS_ERR_CORRUPT)
                (sqfs_compressor_decompress cmp Disjoint src SQFS_META_BLOCK_SIZE))))))"

lemma decompress_meta_block_owned:
  "runs (decompress_meta_block_mem mem fd pos n u cmp) {#} (decompress_meta_block mem fd pos n u cmp) plain"
  unfolding decompress_meta_block_mem_def decompress_meta_block_def
  by (auto intro!: runs_alloc runs_temporary runs_free_end)

definition read_meta_block_mem ::
  "allocator \<Rightarrow> os_file \<Rightarrow> u64 \<Rightarrow> sqfs_compressor option \<Rightarrow> (sqfs_error, byte list \<times> u64) own" where
  "read_meta_block_mem mem fd pos cmp =
     own_bind (own_lift (read_meta_header fd pos)) (\<lambda>header.
       let is_uncomp = header AND 0x8000 \<noteq> 0;
           comp_size = header AND 0x7FFF
       in own_bind (decompress_meta_block_mem mem fd (pos + 2) comp_size is_uncomp cmp) (\<lambda>b.
            own_lift (Inr (b, pos + 2 + ucast comp_size))))"

lemma read_meta_block_owned: "runs (read_meta_block_mem mem fd pos cmp) {#} (read_meta_block mem fd pos cmp) plain"
  unfolding read_meta_block_mem_def read_meta_block_def Let_def
  by (intro runs_plain_bind runs_bind [OF decompress_meta_block_owned]) auto

text \<open>A block that was read is the block the definition without an arena reads, so the loop over the blocks
  ends for the same reason.\<close>

lemma read_meta_block_mem_value:
  "read_meta_block_mem mem fd pos cmp h = (Inr x, h') \<Longrightarrow> read_meta_block mem fd pos cmp = Inr x"
  by (cases "sqfs_pread_all fd 2 pos")
    (auto simp: read_meta_block_mem_def read_meta_block_def decompress_meta_block_mem_def decompress_meta_block_def
      own_bind_def own_lift_def own_alloc_def own_try_def sqfs_free_def Let_def rbind_eq_Inr_iff
      split: prod.splits sum.splits failure.splits if_splits)

function read_remaining_blocks_mem ::
  "allocator \<Rightarrow> os_file \<Rightarrow> sqfs_compressor option \<Rightarrow> u64 \<Rightarrow> nat \<Rightarrow> nat \<Rightarrow> byte list \<Rightarrow> (sqfs_error, byte list) own" where
  "read_remaining_blocks_mem mem fd cmp block_pos cap sz out =
     (if sz \<le> length out then own_lift (Inr out)
      else own_bind (read_meta_block_mem mem fd block_pos cmp) (\<lambda>(b, next).
        let to_copy = sz - length out;
            to_copy = (if length b < to_copy then length b else to_copy)
        in own_bind (own_lift (buf_copy cap out b 0 to_copy)) (\<lambda>out.
             read_remaining_blocks_mem mem fd cmp next cap sz out)))"
  by pat_completeness auto
termination
  by (relation "measure (\<lambda>(mem, fd, cmp, pos, cap, sz, out). 2 ^ 64 - unat pos)")
    (auto dest!: read_meta_block_mem_value read_meta_block_advance intro!: diff_less_mono2)

declare read_remaining_blocks_mem.simps [simp del]

lemma read_remaining_owned:
  "runs (read_remaining_blocks_mem mem fd cmp pos cap sz out) {#} (read_remaining_blocks mem fd cmp pos cap sz out) plain"
proof (induction mem fd cmp pos cap sz out rule: read_remaining_blocks.induct)
  case (1 mem fd cmp pos cap sz out)
  show ?case
  proof (cases "sz \<le> length out")
    case True
    then show ?thesis by (simp add: read_remaining_blocks_mem.simps read_remaining_blocks.simps)
  next
    case False
    note IH = 1 [OF False _ _ refl refl]
    show ?thesis
      unfolding read_remaining_blocks_mem.simps [of mem fd cmp pos] read_remaining_blocks.simps [of mem fd cmp pos]
        if_not_P [OF False]
    proof (rule runs_bind [OF read_meta_block_owned])
      fix x v P assume v: "read_meta_block mem fd pos cmp = Inr v" "plain x v P"
      obtain b nx where x: "v = (b, nx)" by (cases v)
      show "runs (case x of (b, next) \<Rightarrow> let to_copy = sz - length out;
              to_copy = (if length b < to_copy then length b else to_copy)
            in own_bind (own_lift (buf_copy cap out b 0 to_copy)) (\<lambda>out.
                 read_remaining_blocks_mem mem fd cmp next cap sz out)) P
          (case v of (b, next) \<Rightarrow> let to_copy = sz - length out;
              to_copy = (if length b < to_copy then length b else to_copy)
            in rbind (buf_copy cap out b 0 to_copy) (\<lambda>out.
                 read_remaining_blocks mem fd cmp next cap sz out)) plain"
        using v(2) IH [OF v(1) x [symmetric]] unfolding Let_def by (auto simp: x intro!: runs_plain_bind)
    qed
  qed
qed

definition read_directory_data_mem ::
  "allocator \<Rightarrow> os_file \<Rightarrow> u64 \<Rightarrow> sqfs_compressor option \<Rightarrow> u64 \<Rightarrow> u16 \<Rightarrow> u32 \<Rightarrow> nat \<Rightarrow> (sqfs_error, byte list) own" where
  "read_directory_data_mem mem fd dtab cmp block_idx block_offset sz cap =
     own_bind (read_meta_block_mem mem fd (dtab + block_idx) cmp) (\<lambda>(b, block_pos).
       if length b \<le> unat block_offset then own_lift (Inl (Err SQFS_ERR_BAD_DIR))
       else if unat block_offset + unat sz \<le> length b
       then own_lift (buf_copy cap [] b (unat block_offset) (unat sz))
       else own_bind (own_lift (buf_copy cap [] b (unat block_offset) (length b - unat block_offset)))
         (read_remaining_blocks_mem mem fd cmp block_pos cap (unat sz)))"

lemma read_directory_data_owned:
  "runs (read_directory_data_mem mem fd dtab cmp bi off sz cap) {#} (read_directory_data mem fd dtab cmp bi off sz cap) plain"
  unfolding read_directory_data_mem_def read_directory_data_def
  by (rule runs_bind [OF read_meta_block_owned]) (auto intro!: runs_plain_bind read_remaining_owned)

section \<open>Directory entries\<close>

text \<open>The array \<open>result\<close> with the names of its entries.\<close>

record dirents_obj =
  do_entries :: "(sqfs_dirent \<times> nat) list"
  do_array :: "nat option"

definition no_dirents :: dirents_obj where "no_dirents = \<lparr>do_entries = [], do_array = None\<rparr>"

definition dirents_blocks :: "dirents_obj \<Rightarrow> nat multiset" where
  "dirents_blocks d = mset (map snd (do_entries d)) + opt_block (do_array d)"

definition dirents_rel :: "dirents_obj \<Rightarrow> sqfs_dirent list \<Rightarrow> nat multiset \<Rightarrow> bool" where
  "dirents_rel d es P \<longleftrightarrow> map fst (do_entries d) = es \<and> P = dirents_blocks d \<and> (do_array d = None \<longrightarrow> do_entries d = [])"

definition sqfs_dirent_free :: "dirents_obj \<Rightarrow> ('e, unit) own" where
  "sqfs_dirent_free d = (case do_array d of
       None \<Rightarrow> own_lift (Inr ())
     | Some a \<Rightarrow> own_bind (free_each (map snd (do_entries d))) (\<lambda>_. sqfs_free (Some a)))"

lemma runs_dirent_free:
  assumes d: "dirents_rel d es P" and f: "runs (f ()) M r R"
  shows "runs (own_bind (sqfs_dirent_free d) f) (P + M) r R"
proof (cases "do_array d")
  case None
  with d f show ?thesis by (simp add: sqfs_dirent_free_def dirents_rel_def dirents_blocks_def)
next
  case (Some a)
  have "runs (own_bind (free_each (map snd (do_entries d))) (\<lambda>_. own_bind (sqfs_free (Some a)) f))
      (mset (map snd (do_entries d)) + ({#a#} + M)) r R"
    by (intro runs_free_each runs_free_one f)
  with Some d show ?thesis
    by (simp add: sqfs_dirent_free_def own_bind_assoc dirents_rel_def dirents_blocks_def ac_simps)
qed

text \<open>The label \<open>error\<close> of the parser.\<close>

definition parse_error :: "dirents_obj \<Rightarrow> sqfs_error \<Rightarrow> (sqfs_error, 'a) own" where
  "parse_error d e = (case do_array d of
       None \<Rightarrow> own_lift (Inl (Err e))
     | Some a \<Rightarrow> own_bind (free_each (map snd (do_entries d))) (\<lambda>_.
         own_bind (sqfs_free (Some a)) (\<lambda>_. own_lift (Inl (Err e)))))"

lemma runs_parse_error:
  assumes "dirents_rel d es P"
  shows "runs (parse_error d e) P (Inl (Err e)) R"
proof -
  have eq: "parse_error d e = own_bind (sqfs_dirent_free d) (\<lambda>_. own_lift (Inl (Err e)))"
    by (auto simp: parse_error_def sqfs_dirent_free_def own_bind_assoc split: option.split)
  have "runs (parse_error d e) (P + {#}) (Inl (Err e)) R"
    unfolding eq by (rule runs_dirent_free [OF assms runs_fail])
  then show ?thesis by simp
qed

text \<open>The store of one entry: its name, then its slot.\<close>

definition store_entry_mem ::
  "allocator \<Rightarrow> byte list \<Rightarrow> sqfs_dir_header \<Rightarrow> sqfs_dir_entry \<Rightarrow> nat \<Rightarrow> dirents_obj \<Rightarrow> nat
   \<Rightarrow> (sqfs_error, nat \<times> dirents_obj \<times> nat) own" where
  "store_entry_mem mem data header entry ptr d capacity =
     (let name_len = de_name_size entry + 1 in
      own_alloc (sqfs_malloc mem (unat name_len + 1)) (parse_error d SQFS_ERR_NO_MEMORY) (\<lambda>name_block.
        own_bind (own_lift (mem_read data (ptr + SIZEOF_dir_entry) (unat name_len))) (\<lambda>name.
          let e = dirent_of header entry (the (inode_type_of_code (unat (de_type entry)))) name
          in if length (do_entries d) < capacity
             then own_lift (Inr (ptr + (SIZEOF_dir_entry + unat name_len),
                    d\<lparr>do_entries := do_entries d @ [(e, name_block)]\<rparr>, capacity))
             else own_lift (Inl (Fault OOB_Write)))))"

definition parse_entry_mem ::
  "allocator \<Rightarrow> byte list \<Rightarrow> sqfs_dir_header \<Rightarrow> nat \<times> dirents_obj \<times> nat \<Rightarrow> (sqfs_error, nat \<times> dirents_obj \<times> nat) own" where
  "parse_entry_mem mem data header st =
     (case st of (ptr, d, capacity) \<Rightarrow>
        if length data - ptr < SIZEOF_dir_entry then parse_error d SQFS_ERR_BAD_DIR
        else own_bind (own_lift (get_dir_entry data ptr)) (\<lambda>entry.
          let name_len = de_name_size entry + 1
          in if length data - ptr < SIZEOF_dir_entry + unat name_len then parse_error d SQFS_ERR_BAD_DIR
             else if de_type entry < 1 \<or> 7 < de_type entry then parse_error d SQFS_ERR_BAD_DIR
             else if capacity \<le> length (do_entries d) then
               let new_capacity = (if capacity = 0 then 16 else capacity * 2)
               in own_realloc (sqfs_realloc mem (new_capacity * SIZEOF_dirent)) (do_array d)
                    (parse_error d SQFS_ERR_NO_MEMORY)
                    (\<lambda>a. store_entry_mem mem data header entry ptr (d\<lparr>do_array := Some a\<rparr>) new_capacity)
             else store_entry_mem mem data header entry ptr d capacity))"

fun parse_entries_mem ::
  "allocator \<Rightarrow> byte list \<Rightarrow> sqfs_dir_header \<Rightarrow> nat \<Rightarrow> nat \<times> dirents_obj \<times> nat \<Rightarrow> (sqfs_error, nat \<times> dirents_obj \<times> nat) own" where
  "parse_entries_mem mem data header 0 st = own_lift (Inr st)"
| "parse_entries_mem mem data header (Suc n) st =
     own_bind (parse_entry_mem mem data header st) (\<lambda>st. parse_entries_mem mem data header n st)"

definition entry_rel :: "nat \<times> dirents_obj \<times> nat \<Rightarrow> nat \<times> dirent_array \<Rightarrow> nat multiset \<Rightarrow> bool" where
  "entry_rel x v P \<longleftrightarrow> (case x of (ptr, d, capacity) \<Rightarrow> case v of (ptr', es, capacity') \<Rightarrow>
     ptr = ptr' \<and> capacity = capacity' \<and> dirents_rel d es P \<and> (capacity = 0 \<or> do_array d \<noteq> None))"

lemma get_le_no_error: "\<forall>e. get_le16 b off \<noteq> Inl (Err e)" "\<forall>e. get_le32 b off \<noteq> Inl (Err e)"
  "\<forall>e. get_le64 b off \<noteq> Inl (Err e)"
  by (simp_all add: get_le16_def get_le32_def get_le64_def mem_read_def rbind_eq_Inl_iff)

lemma mem_read_no_error: "\<forall>e. mem_read b off n \<noteq> Inl (Err e)"
  by (simp add: mem_read_def)

lemma get_dir_no_error: "\<forall>e. get_dir_entry data ptr \<noteq> Inl (Err e)" "\<forall>e. get_dir_header data ptr \<noteq> Inl (Err e)"
  using get_le_no_error by (auto simp: get_dir_entry_def get_dir_header_def rbind_eq_Inl_iff)

text \<open>What follows the growth of the array.\<close>

definition store_entry ::
  "allocator \<Rightarrow> byte list \<Rightarrow> sqfs_dir_header \<Rightarrow> sqfs_dir_entry \<Rightarrow> nat \<Rightarrow> dirent_array \<Rightarrow> (nat \<times> dirent_array) res" where
  "store_entry mem data header entry ptr arr =
     (let name_len = de_name_size entry + 1 in
      if sqfs_malloc mem (unat name_len + 1) = 0 then Inl (Err SQFS_ERR_NO_MEMORY)
      else rbind (mem_read data (ptr + SIZEOF_dir_entry) (unat name_len)) (\<lambda>name.
        rbind (store_dirent arr
            (dirent_of header entry (the (inode_type_of_code (unat (de_type entry)))) name)) (\<lambda>arr.
          Inr (ptr + (SIZEOF_dir_entry + unat name_len), arr))))"

lemma parse_entry_unfold:
  "parse_entry mem data header (ptr, arr) =
     (if length data - ptr < SIZEOF_dir_entry then Inl (Err SQFS_ERR_BAD_DIR)
      else rbind (get_dir_entry data ptr) (\<lambda>entry.
        let name_len = de_name_size entry + 1
        in if length data - ptr < SIZEOF_dir_entry + unat name_len then Inl (Err SQFS_ERR_BAD_DIR)
           else if de_type entry < 1 \<or> 7 < de_type entry then Inl (Err SQFS_ERR_BAD_DIR)
           else rbind (grow_array mem arr) (store_entry mem data header entry ptr)))"
  unfolding parse_entry_def store_entry_def [abs_def] Let_def prod.case by (rule refl)

lemma store_entry_owned:
  assumes d: "dirents_rel d es P" and a: "capacity = 0 \<or> do_array d \<noteq> None"
  shows "runs (store_entry_mem mem data header entry ptr d capacity) P
    (store_entry mem data header entry ptr (es, capacity)) entry_rel"
proof -
  have len: "length es = length (do_entries d)" using d by (auto simp: dirents_rel_def)
  show ?thesis
    unfolding store_entry_mem_def store_entry_def Let_def
  proof (rule runs_alloc, goal_cases)
    case 1
    with runs_parse_error [OF d] show ?case by simp
  next
    case (2 b)
    show ?case unfolding if_not_P [OF 2]
      by (rule runs_sure [OF mem_read_no_error])
        (use d a len in \<open>auto simp: store_dirent_def entry_rel_def dirents_rel_def dirents_blocks_def intro!: runs_return\<close>)
  qed
qed

lemma grow_owned:
  assumes d: "dirents_rel d es P"
  shows "runs (own_realloc (sqfs_realloc mem n) (do_array d) (parse_error d SQFS_ERR_NO_MEMORY)
      (\<lambda>a. store_entry_mem mem data header entry ptr (d\<lparr>do_array := Some a\<rparr>) cap)) P
    (if sqfs_realloc mem n = 0 then Inl (Err SQFS_ERR_NO_MEMORY)
     else store_entry mem data header entry ptr (es, cap)) entry_rel"
proof -
  have P: "P = opt_block (do_array d) + mset (map snd (do_entries d))"
    using d by (simp add: dirents_rel_def dirents_blocks_def)
  show ?thesis unfolding P
  proof (rule runs_realloc, goal_cases)
    case 1
    with runs_parse_error [OF d [unfolded P]] show ?case by simp
  next
    case (2 b)
    have "dirents_rel (d\<lparr>do_array := Some b\<rparr>) es (mset (map snd (do_entries d)) + {#b#})"
      using d by (simp add: dirents_rel_def dirents_blocks_def)
    from store_entry_owned [OF this] 2 show ?case by simp
  qed
qed

lemma parse_entry_owned:
  assumes "entry_rel st v P"
  shows "runs (parse_entry_mem mem data header st) P (parse_entry mem data header v) entry_rel"
proof -
  obtain ptr d cap es where st: "st = (ptr, d, cap)" and v: "v = (ptr, es, cap)"
    using assms by (cases st, cases v) (auto simp: entry_rel_def)
  have d: "dirents_rel d es P" and a: "cap = 0 \<or> do_array d \<noteq> None" using assms by (auto simp: st v entry_rel_def)
  have len: "length es = length (do_entries d)" using d by (auto simp: dirents_rel_def)
  have grow: "rbind (grow_array mem (es, cap)) K = (if cap \<le> length (do_entries d)
      then if sqfs_realloc mem ((if cap = 0 then 16 else cap * 2) * SIZEOF_dirent) = 0 then Inl (Err SQFS_ERR_NO_MEMORY)
        else K (es, if cap = 0 then 16 else cap * 2)
      else K (es, cap))" for K
    by (simp add: grow_array_def len Let_def)
  show ?thesis
    unfolding st v parse_entry_mem_def parse_entry_unfold prod.case Let_def grow
    by (intro runs_if runs_sure [OF get_dir_no_error(1)] runs_parse_error [OF d] grow_owned [OF d] store_entry_owned [OF d a])
qed

lemma parse_entries_owned:
  "entry_rel st v P \<Longrightarrow> runs (parse_entries_mem mem data header n st) P (parse_entries mem data header n v) entry_rel"
proof (induction n arbitrary: st v P)
  case 0
  then show ?case by (simp add: runs_return)
next
  case (Suc n)
  show ?case unfolding parse_entries_mem.simps parse_entries.simps
    by (rule runs_bind [OF parse_entry_owned [OF Suc.prems]]) (rule Suc.IH)
qed

lemma parse_entry_mem_progress:
  "parse_entry_mem mem data header (ptr, d, c) h = (Inr (ptr', d', c'), h') \<Longrightarrow> ptr < ptr' \<and> ptr' \<le> length data"
  by (auto simp: parse_entry_mem_def store_entry_mem_def parse_error_def own_bind_def own_lift_def own_alloc_def
      own_realloc_def Let_def split: prod.splits sum.splits if_splits option.splits)

lemma parse_entries_mem_progress:
  "parse_entries_mem mem data header n (ptr, d, c) h = (Inr (ptr', d', c'), h') \<Longrightarrow> ptr \<le> ptr'"
proof (induction n arbitrary: ptr d c h)
  case (Suc n)
  then obtain q where "parse_entry_mem mem data header (ptr, d, c) h = q" by blast
  with Suc.prems obtain p1 d1 c1 h1 where "parse_entry_mem mem data header (ptr, d, c) h = (Inr (p1, d1, c1), h1)"
    and "parse_entries_mem mem data header n (p1, d1, c1) h1 = (Inr (ptr', d', c'), h')"
    by (auto simp: own_bind_def split: prod.splits sum.splits)
  with Suc.IH parse_entry_mem_progress show ?case by fastforce
qed (simp add: own_lift_def)

function parse_groups_mem ::
  "allocator \<Rightarrow> byte list \<Rightarrow> nat \<Rightarrow> dirents_obj \<Rightarrow> nat \<Rightarrow> (sqfs_error, dirents_obj) own" where
  "parse_groups_mem mem data ptr d capacity =
     (if length data \<le> ptr then own_lift (Inr d)
      else if length data - ptr < SIZEOF_dir_header then parse_error d SQFS_ERR_BAD_DIR
      else own_bind (own_lift (get_dir_header data ptr)) (\<lambda>header.
        let entry_count = dh_count header + 1
        in own_bind (parse_entries_mem mem data header (unat entry_count) (ptr + SIZEOF_dir_header, d, capacity))
             (\<lambda>(ptr', d', capacity'). parse_groups_mem mem data ptr' d' capacity')))"
  by pat_completeness auto
termination
  by (relation "measure (\<lambda>(mem, data, ptr, d, c). length data - ptr)")
    (auto dest!: parse_entries_mem_progress)

declare parse_groups_mem.simps [simp del]

definition parse_directory_entries_mem :: "allocator \<Rightarrow> byte list \<Rightarrow> (sqfs_error, dirents_obj) own" where
  "parse_directory_entries_mem mem data = parse_groups_mem mem data 0 no_dirents 0"

lemma parse_groups_owned:
  assumes "dirents_rel d es P" and "cap = 0 \<or> do_array d \<noteq> None"
  shows "runs (parse_groups_mem mem data ptr d cap) P
     (rbind (parse_groups mem data ptr (es, cap)) (\<lambda>(es, capacity). Inr es)) dirents_rel"
proof -
  have "\<lbrakk>arr = (es, cap); dirents_rel d es P; cap = 0 \<or> do_array d \<noteq> None\<rbrakk> \<Longrightarrow>
      runs (parse_groups_mem mem data ptr d cap) P (rbind (parse_groups mem data ptr arr) (\<lambda>(es, capacity). Inr es)) dirents_rel" for arr
  proof (induction mem data ptr arr arbitrary: d es cap P rule: parse_groups.induct)
    case (1 mem data ptr arr)
    note d = 1(3) and a = 1(4)
    show ?case
      unfolding parse_groups_mem.simps [of mem data ptr] parse_groups.simps [of mem data ptr] Let_def
        rbind_if rbind_simps rbind_assoc
    proof (intro runs_if runs_parse_error [OF d] runs_sure [OF get_dir_no_error(2)], goal_cases)
      case 1
      with d 1 \<open>arr = (es, cap)\<close> show ?case by (simp add: runs_return)
    next
      case (2 header)
      have st: "entry_rel (ptr + SIZEOF_dir_header, d, cap) (ptr + SIZEOF_dir_header, arr) P"
        using d a \<open>arr = (es, cap)\<close> by (simp add: entry_rel_def)
      show ?case
      proof (rule runs_bind [OF parse_entries_owned [OF st]], goal_cases)
        case (1 x v P')
        obtain ptr' d' c' where x: "x = (ptr', d', c')" by (cases x)
        from 1(2) x obtain es' where v: "v = (ptr', es', c')" and r: "dirents_rel d' es' P'" "c' = 0 \<or> do_array d' \<noteq> None"
          by (cases v) (auto simp: entry_rel_def)
        from "1.IH" [OF 2(1,2,3) refl 1(1) v [symmetric] refl r] show ?case by (simp add: x v)
      qed
    qed
  qed
  with assms show ?thesis by blast
qed

definition sqfs_dir_read_mem ::
  "allocator \<Rightarrow> 'a sqfs_image_scheme \<Rightarrow> sqfs_inode \<Rightarrow> (sqfs_error, dirents_obj) own" where
  "sqfs_dir_read_mem mem ctx i =
     (if \<not> sqfs_inode_is_dir (i_type i) then own_lift (Inl (Err SQFS_ERR_BAD_INODE))
      else if dir_size i = 0 then own_lift (Inr no_dirents)
      else own_alloc (sqfs_malloc mem (unat (dir_size i))) (own_lift (Inl (Err SQFS_ERR_NO_MEMORY))) (\<lambda>dir_data.
        own_try (read_directory_data_mem mem (sb_fd (ctx_sb ctx)) (dir_table (disk (ctx_sb ctx)))
            (ctx_comp ctx) (dir_block_idx i) (dir_block_offset i) (dir_size i) (unat (dir_size i))) (\<lambda>ret.
          case ret of
            Inl e \<Rightarrow> own_bind (sqfs_free (Some dir_data)) (\<lambda>_. own_lift (Inl (Err e)))
          | Inr bytes \<Rightarrow>
              own_try (parse_directory_entries_mem mem bytes) (\<lambda>ret.
                own_bind (sqfs_free (Some dir_data)) (\<lambda>_. own_lift (map_sum Err (\<lambda>d. d) ret))))))"

lemma parse_directory_owned:
  "runs (parse_directory_entries_mem mem data) {#} (parse_directory_entries mem data) dirents_rel"
proof -
  have "dirents_rel no_dirents [] {#}" by (simp add: dirents_rel_def no_dirents_def dirents_blocks_def)
  from parse_groups_owned [OF this, of 0] show ?thesis
    by (simp add: parse_directory_entries_mem_def parse_directory_entries_def)
qed

text \<open>A directory's listing leaves the array and the names, and nothing else, on every path.\<close>

lemma dir_read_owned: "runs (sqfs_dir_read_mem mem ctx i) {#} (sqfs_dir_read mem ctx i) dirents_rel"
  unfolding sqfs_dir_read_mem_def sqfs_dir_read_def
proof (intro runs_if runs_fail, goal_cases)
  case 1
  show ?case by (rule runs_return) (simp add: dirents_rel_def no_dirents_def dirents_blocks_def)
next
  case 2
  show ?case
  proof (rule runs_alloc_first, goal_cases)
    case 1
    then show ?case by simp
  next
    case (2 b)
    show ?case unfolding if_not_P [OF 2]
    proof (rule runs_call [OF read_directory_data_owned], goal_cases)
      case (1 x v P)
      then have "runs (own_try (parse_directory_entries_mem mem v) (\<lambda>ret.
          own_bind (sqfs_free (Some b)) (\<lambda>_. own_lift (map_sum Err (\<lambda>d. d) ret)))) {#b#}
          (rbind (parse_directory_entries mem v) Inr) dirents_rel"
      proof (intro runs_call [OF parse_directory_owned], goal_cases)
        case (1 d es Q)
        have "runs (own_bind (sqfs_free (Some b)) (\<lambda>_. own_lift (Inr d))) ({#b#} + Q) (Inr es) dirents_rel"
          by (intro runs_free_one runs_return 1)
        then show ?case by (simp add: ac_simps)
      qed (simp add: runs_free_end)
      moreover have "rbind r Inr = r" for r :: "sqfs_dirent list res" by (cases r) simp_all
      ultimately show ?case using 1 by auto
    qed (simp add: runs_free_end)
  qed
qed

end
