(* ===== verification/OwnershipInode.thy ===== *)
theory OwnershipInode
  imports Ownership
begin

text \<open>
  The inode of \<open>core/inode.c\<close> with its allocations: the structure itself, the block sizes of a file, the
  target of a symbolic link. The look-up by reference and the release, related to the definitions of
  \<open>Inode\<close>.
\<close>

record inode_obj =
  io_inode :: sqfs_inode
  io_self :: nat
  io_sizes :: "nat option"
  io_target :: "nat option"

definition inode_blocks :: "inode_obj \<Rightarrow> nat multiset" where
  "inode_blocks x = {#io_self x#} + opt_block (io_sizes x) + opt_block (io_target x)"

definition inode_rel :: "inode_obj \<Rightarrow> sqfs_inode \<Rightarrow> nat multiset \<Rightarrow> bool" where
  "inode_rel x i P \<longleftrightarrow> io_inode x = i \<and> P = inode_blocks x
     \<and> (io_sizes x = None \<longleftrightarrow> i_block_sizes i = None) \<and> (io_target x = None \<longleftrightarrow> i_target_alloc i = None)"

section \<open>The parsers that allocate\<close>

text \<open>An inode that is being filled in, with the blocks hung on it so far, and the bytes consumed.\<close>

type_synonym parsed_inode = "(sqfs_inode \<times> nat option \<times> nat option) \<times> nat"

definition parse_block_list_mem ::
  "allocator \<Rightarrow> byte list \<Rightarrow> nat \<Rightarrow> u32 \<Rightarrow> (sqfs_error, (u32 list option \<times> nat option) \<times> nat) own" where
  "parse_block_list_mem mem data fixed block_count =
     (if 0 < block_count then
        own_alloc (sqfs_calloc mem (unat block_count) 4) (own_lift (Inl (Err SQFS_ERR_NO_MEMORY))) (\<lambda>b.
          own_bind (own_lift (read_block_sizes data fixed (unat block_count))) (\<lambda>bs.
            own_lift (Inr ((Some bs, Some b), fixed + unat block_count * 4))))
      else own_lift (Inr ((None, None), fixed)))"

definition parse_inode_file_mem ::
  "allocator \<Rightarrow> byte list \<Rightarrow> u32 \<Rightarrow> sqfs_inode \<Rightarrow> (sqfs_error, parsed_inode) own" where
  "parse_inode_file_mem mem data bsize i =
     own_bind (own_lift (get_le32 data 16)) (\<lambda>blocks_start. own_bind (own_lift (get_le32 data 20)) (\<lambda>frag_idx.
     own_bind (own_lift (get_le32 data 24)) (\<lambda>offset. own_bind (own_lift (get_le32 data 28)) (\<lambda>fsize.
     own_bind (own_lift (sqfs_calc_block_count (ucast fsize) bsize (frag_idx \<noteq> FRAGMENT_INVALID))) (\<lambda>block_count.
     own_bind (parse_block_list_mem mem data 32 block_count) (\<lambda>((bs, b), consumed).
       own_lift (Inr (((put_file (ucast blocks_start) (ucast fsize) 0 frag_idx offset block_count
              XATTR_INVALID i)\<lparr>i_link_count := 1, i_block_sizes := bs\<rparr>, b, None), consumed))))))))"

definition parse_inode_lfile_mem ::
  "allocator \<Rightarrow> byte list \<Rightarrow> u32 \<Rightarrow> sqfs_inode \<Rightarrow> (sqfs_error, parsed_inode) own" where
  "parse_inode_lfile_mem mem data bsize i =
     own_bind (own_lift (get_le64 data 16)) (\<lambda>blocks_start. own_bind (own_lift (get_le64 data 24)) (\<lambda>fsize.
     own_bind (own_lift (get_le64 data 32)) (\<lambda>sparse. own_bind (own_lift (get_le32 data 40)) (\<lambda>links.
     own_bind (own_lift (get_le32 data 44)) (\<lambda>frag_idx. own_bind (own_lift (get_le32 data 48)) (\<lambda>offset.
     own_bind (own_lift (get_le32 data 52)) (\<lambda>xattr.
     own_bind (own_lift (sqfs_calc_block_count fsize bsize (frag_idx \<noteq> FRAGMENT_INVALID))) (\<lambda>block_count.
     own_bind (parse_block_list_mem mem data 56 block_count) (\<lambda>((bs, b), consumed).
       own_lift (Inr (((put_file blocks_start fsize sparse frag_idx offset block_count xattr i)
              \<lparr>i_link_count := links, i_block_sizes := bs\<rparr>, b, None), consumed)))))))))))"

definition parse_inode_symlink_mem ::
  "allocator \<Rightarrow> byte list \<Rightarrow> sqfs_inode \<Rightarrow> (sqfs_error, parsed_inode) own" where
  "parse_inode_symlink_mem mem data i =
     own_bind (own_lift (get_le32 data 16)) (\<lambda>links. own_bind (own_lift (get_le32 data 20)) (\<lambda>target_len.
       let target = sqfs_malloc mem (unat (target_len + 1))
       in own_alloc target (own_lift (Inl (Err SQFS_ERR_NO_MEMORY))) (\<lambda>b.
            own_bind (own_lift (mem_read data 24 (unat target_len))) (\<lambda>path.
              own_lift (Inr (((put_symlink target target_len i)
                   \<lparr>i_link_count := links, i_target_alloc := Some (target, path @ [0])\<rparr>, None, Some b),
                 24 + unat target_len))))))"

definition parse_inode_lsymlink_mem ::
  "allocator \<Rightarrow> byte list \<Rightarrow> sqfs_inode \<Rightarrow> (sqfs_error, parsed_inode) own" where
  "parse_inode_lsymlink_mem mem data i =
     own_bind (own_lift (get_le32 data 16)) (\<lambda>links. own_bind (own_lift (get_le32 data 20)) (\<lambda>target_len.
       let target = sqfs_malloc mem (unat (target_len + 1))
       in own_alloc target (own_lift (Inl (Err SQFS_ERR_NO_MEMORY))) (\<lambda>b.
            own_bind (own_lift (mem_read data 24 (unat target_len))) (\<lambda>path.
              own_bind (own_lift (get_le32 data (24 + unat target_len))) (\<lambda>xattr.
                own_lift (Inr ((put_xattr_idx xattr ((put_symlink target target_len i)
                   \<lparr>i_link_count := links, i_target_alloc := Some (target, path @ [0])\<rparr>), None, Some b),
                 24 + unat target_len + 4)))))))"

text \<open>The other types have no allocations of their own.\<close>

definition no_blocks :: "(sqfs_inode \<times> nat) res \<Rightarrow> parsed_inode res" where
  "no_blocks r = rbind r (\<lambda>(i, n). Inr ((i, None, None), n))"

definition parse_inode_switch_mem ::
  "allocator \<Rightarrow> byte list \<Rightarrow> u32 \<Rightarrow> sqfs_inode_type \<Rightarrow> sqfs_inode \<Rightarrow> (sqfs_error, parsed_inode) own" where
  "parse_inode_switch_mem mem data bsize t i =
     (case t of
        SQFS_INODE_FILE \<Rightarrow> parse_inode_file_mem mem data bsize i
      | SQFS_INODE_LFILE \<Rightarrow> parse_inode_lfile_mem mem data bsize i
      | SQFS_INODE_SYMLINK \<Rightarrow> parse_inode_symlink_mem mem data i
      | SQFS_INODE_LSYMLINK \<Rightarrow> parse_inode_lsymlink_mem mem data i
      | _ \<Rightarrow> own_lift (no_blocks (parse_inode_switch mem data bsize t i)))"

text \<open>When the parser has consumed more than there is, nothing it allocated is freed.\<close>

definition parse_inode_mem ::
  "allocator \<Rightarrow> byte list \<Rightarrow> u32 \<Rightarrow> (sqfs_error, sqfs_inode \<times> nat option \<times> nat option) own" where
  "parse_inode_mem mem data bsize =
     (if length data < SIZEOF_inode_header then own_lift (Inl (Err SQFS_ERR_BAD_INODE))
      else own_bind (own_lift (parse_inode_header data)) (\<lambda>h.
        case inode_type_of_code (unat (h_type h)) of
          None \<Rightarrow> own_lift (Inl (Err SQFS_ERR_BAD_INODE))
        | Some t \<Rightarrow>
            own_bind (parse_inode_switch_mem mem data bsize t
                ((new_inode t)\<lparr>i_number := ucast (h_inode_number h),
                  i_permissions := h_permissions h, i_uid := h_uid_idx h, i_gid := h_gid_idx h,
                  i_mtime := h_mtime h, i_block_sizes := None\<rparr>))
              (\<lambda>(x, bytes_consumed).
                 if 0 < bytes_consumed \<and> length data < bytes_consumed
                 then own_lift (Inl (Err SQFS_ERR_BAD_INODE)) else own_lift (Inr x))))"

section \<open>Look-up by reference\<close>

definition read_inode_metadata_mem ::
  "allocator \<Rightarrow> 'a sqfs_image_scheme \<Rightarrow> u64 \<Rightarrow> nat \<Rightarrow> (sqfs_error, byte list) own" where
  "read_inode_metadata_mem mem ctx ref n =
     (let block_pos = sqfs_meta_ref_pos ref;
          block_offset = sqfs_meta_ref_offset ref;
          abs_pos = inode_table (disk (ctx_sb ctx)) + block_pos
      in own_bind (sqfs_meta_read_block_mem mem (sb_fd (ctx_sb ctx)) abs_pos (ctx_comp ctx)) (\<lambda>meta_block.
           if length meta_block < unat block_offset + n then own_lift (Inl (Err SQFS_ERR_BAD_INODE))
           else own_lift (mem_read meta_block (unat block_offset) n)))"

text \<open>The size of the inode: the types with a variable part read their fixed part first.\<close>

definition inode_disk_size_mem ::
  "allocator \<Rightarrow> 'a sqfs_image_scheme \<Rightarrow> u64 \<Rightarrow> sqfs_inode_type \<Rightarrow> (sqfs_error, nat) own" where
  "inode_disk_size_mem mem ctx ref t =
     (let bsize = block_size (disk (ctx_sb ctx)) in
      case t of
        SQFS_INODE_FILE \<Rightarrow>
          own_bind (read_inode_metadata_mem mem ctx ref (SIZEOF_inode_header + 16)) (\<lambda>raw. own_lift (
          rbind (get_le32 raw 28) (\<lambda>fsize. rbind (get_le32 raw 20) (\<lambda>frag_idx.
          rbind (sqfs_calc_block_count (ucast fsize) bsize (frag_idx \<noteq> FRAGMENT_INVALID)) (\<lambda>n.
            Inr (SIZEOF_inode_header + 16 + unat n * 4))))))
      | SQFS_INODE_LFILE \<Rightarrow>
          own_bind (read_inode_metadata_mem mem ctx ref (SIZEOF_inode_header + 40)) (\<lambda>raw. own_lift (
          rbind (get_le64 raw 24) (\<lambda>fsize. rbind (get_le32 raw 44) (\<lambda>frag_idx.
          rbind (sqfs_calc_block_count fsize bsize (frag_idx \<noteq> FRAGMENT_INVALID)) (\<lambda>n.
            Inr (SIZEOF_inode_header + 40 + unat n * 4))))))
      | SQFS_INODE_SYMLINK \<Rightarrow>
          own_bind (read_inode_metadata_mem mem ctx ref (SIZEOF_inode_header + 8)) (\<lambda>raw. own_lift (
          rbind (get_le32 raw 20) (\<lambda>n. Inr (SIZEOF_inode_header + 8 + unat n))))
      | SQFS_INODE_LSYMLINK \<Rightarrow>
          own_bind (read_inode_metadata_mem mem ctx ref (SIZEOF_inode_header + 8)) (\<lambda>raw. own_lift (
          rbind (get_le32 raw 20) (\<lambda>n. Inr (SIZEOF_inode_header + 8 + unat n + 4))))
      | _ \<Rightarrow> own_lift (inode_disk_size mem ctx ref t))"

definition sqfs_inode_get_by_ref_mem ::
  "allocator \<Rightarrow> 'a sqfs_image_scheme \<Rightarrow> u64 \<Rightarrow> (sqfs_error, inode_obj) own" where
  "sqfs_inode_get_by_ref_mem mem ctx ref =
     own_bind (read_inode_metadata_mem mem ctx ref SIZEOF_inode_header) (\<lambda>raw.
     own_bind (own_lift (parse_inode_header raw)) (\<lambda>h.
       case inode_type_of_code (unat (h_type h)) of
         None \<Rightarrow> own_lift (Inl (Err SQFS_ERR_BAD_INODE))
       | Some t \<Rightarrow>
           own_bind (inode_disk_size_mem mem ctx ref t) (\<lambda>inode_size.
           let inode_size = (if MAX_INODE_SIZE < inode_size then MAX_INODE_SIZE else inode_size)
           in own_bind (read_inode_metadata_mem mem ctx ref inode_size) (\<lambda>raw.
              own_alloc (sqfs_calloc mem 1 80) (own_lift (Inl (Err SQFS_ERR_NO_MEMORY))) (\<lambda>self.
                own_try (parse_inode_mem mem raw (block_size (disk (ctx_sb ctx)))) (\<lambda>ret.
                  case ret of
                    Inl e \<Rightarrow> own_bind (sqfs_free (Some self)) (\<lambda>_. own_lift (Inl (Err e)))
                  | Inr (i, sizes, target) \<Rightarrow>
                      own_lift (Inr \<lparr>io_inode = i, io_self = self, io_sizes = sizes, io_target = target\<rparr>)))))))"

section \<open>Release\<close>

text \<open>The target is freed through the pointer in the union, which must be its address.\<close>

definition sqfs_inode_free_mem :: "inode_obj \<Rightarrow> ('e, unit) own" where
  "sqfs_inode_free_mem x =
     own_bind (sqfs_free (io_sizes x)) (\<lambda>_.
     own_bind
       (if sqfs_inode_is_symlink (i_type (io_inode x)) \<and> symlink_target (io_inode x) \<noteq> 0 then
          (if map_option fst (i_target_alloc (io_inode x)) = Some (symlink_target (io_inode x))
           then sqfs_free (io_target x) else own_lift (Inl (Fault Wild_Pointer)))
        else own_lift (Inr ())) (\<lambda>_.
     sqfs_free (Some (io_self x))))"

section \<open>The parsers and their blocks\<close>

definition list_rel :: "byte list \<Rightarrow> (u32 list option \<times> nat option) \<times> nat \<Rightarrow> u32 list option \<times> nat \<Rightarrow> nat multiset \<Rightarrow> bool" where
  "list_rel data x v P \<longleftrightarrow> (case x of ((bs, b), n) \<Rightarrow>
     v = (bs, n) \<and> P = opt_block b \<and> (b = None \<longleftrightarrow> bs = None) \<and> (b \<noteq> None \<longrightarrow> n \<le> length data))"

definition parsed_rel :: "byte list \<Rightarrow> parsed_inode \<Rightarrow> sqfs_inode \<times> nat \<Rightarrow> nat multiset \<Rightarrow> bool" where
  "parsed_rel data x v P \<longleftrightarrow> (case x of ((i, b, tg), n) \<Rightarrow>
     v = (i, n) \<and> P = opt_block b + opt_block tg \<and> (b = None \<longleftrightarrow> i_block_sizes i = None)
     \<and> (tg = None \<longleftrightarrow> i_target_alloc i = None) \<and> (P \<noteq> {#} \<longrightarrow> n \<le> length data))"

definition bare :: "sqfs_inode \<Rightarrow> bool" where
  "bare i \<longleftrightarrow> i_block_sizes i = None \<and> i_target_alloc i = None"

lemma read_block_sizes_no_error: "\<forall>e. read_block_sizes data off n \<noteq> Inl (Err e)"
  by (induction n arbitrary: off) (auto simp: rbind_eq_Inl_iff get_le_no_error)

lemma block_list_owned:
  "runs (parse_block_list_mem mem data fixed n) {#} (parse_block_list mem data fixed n) (list_rel data)"
  unfolding parse_block_list_mem_def parse_block_list_def
proof (intro runs_if runs_return, goal_cases)
  case n: 1
  show ?case
  proof (rule runs_alloc_first, goal_cases)
    case (2 b)
    show ?case unfolding if_not_P [OF 2]
    proof (rule runs_sure [OF read_block_sizes_no_error], goal_cases)
      case (1 bs)
      have "fixed + unat n * 4 \<le> length data"
        using 1 n read_block_sizes_oob [of data fixed "unat n"] by (force simp: word_less_nat_alt)
      then show ?case by (intro runs_return) (simp add: list_rel_def)
    qed
  qed simp
qed (simp add: list_rel_def)

lemmas sure_steps = runs_sure [OF get_le_no_error(1)] runs_sure [OF get_le_no_error(2)] runs_sure [OF get_le_no_error(3)]
  runs_sure [OF mem_read_no_error]

lemma runs_calc_count:
  assumes "\<And>n. runs (f n) M (g n) R"
  shows "runs (own_bind (own_lift (sqfs_calc_block_count a b c)) f) M (rbind (sqfs_calc_block_count a b c) g) R"
  by (rule runs_sure) (use calc_block_count_error assms in auto)

lemma parse_file_owned:
  assumes "bare i"
  shows "runs (parse_inode_file_mem mem data bsize i) {#} (parse_inode_file mem data bsize i) (parsed_rel data)"
  unfolding parse_inode_file_mem_def parse_inode_file_def
  by (intro sure_steps runs_calc_count runs_bind [OF block_list_owned])
    (use assms in \<open>auto simp: list_rel_def parsed_rel_def bare_def put_file_def intro!: runs_return\<close>)

lemma parse_lfile_owned:
  assumes "bare i"
  shows "runs (parse_inode_lfile_mem mem data bsize i) {#} (parse_inode_lfile mem data bsize i) (parsed_rel data)"
  unfolding parse_inode_lfile_mem_def parse_inode_lfile_def
  by (intro sure_steps runs_calc_count runs_bind [OF block_list_owned])
    (use assms in \<open>auto simp: list_rel_def parsed_rel_def bare_def put_file_def intro!: runs_return\<close>)

lemma mem_read_within: "mem_read data off n = Inr b \<Longrightarrow> off + n \<le> length data"
  by (simp add: mem_read_def split: if_splits)

lemma get_le32_within: "get_le32 data off = Inr x \<Longrightarrow> off + 4 \<le> length data"
  by (auto simp: get_le32_def rbind_eq_Inr_iff dest: mem_read_within)

lemma parse_symlink_owned:
  assumes "bare i"
  shows "runs (parse_inode_symlink_mem mem data i) {#} (parse_inode_symlink mem data i) (parsed_rel data)"
  unfolding parse_inode_symlink_mem_def parse_inode_symlink_def Let_def
proof (intro sure_steps runs_alloc_first, goal_cases)
  case (2 links len b)
  show ?case unfolding if_not_P [OF 2(3)]
    by (intro sure_steps runs_return)
      (use assms in \<open>auto simp: parsed_rel_def bare_def put_symlink_def dest: mem_read_within\<close>)
qed simp

lemma parse_lsymlink_owned:
  assumes "bare i"
  shows "runs (parse_inode_lsymlink_mem mem data i) {#} (parse_inode_lsymlink mem data i) (parsed_rel data)"
  unfolding parse_inode_lsymlink_mem_def parse_inode_lsymlink_def Let_def
proof (intro sure_steps runs_alloc_first, goal_cases)
  case (2 links len b)
  show ?case unfolding if_not_P [OF 2(3)]
    by (intro sure_steps runs_return)
      (use assms in \<open>auto simp: parsed_rel_def bare_def put_symlink_def put_xattr_idx_def dest: get_le32_within\<close>)
qed simp

lemma no_blocks_owned:
  assumes "\<And>i n. r = Inr (i, n) \<Longrightarrow> bare i"
  shows "runs (own_lift (no_blocks r)) {#} r (parsed_rel data)"
proof (cases r)
  case (Inr v)
  obtain i n where v: "v = (i, n)" by (cases v)
  with Inr assms have "bare i" by blast
  then show ?thesis unfolding Inr v no_blocks_def rbind_simps prod.case
    by (intro runs_return) (simp add: parsed_rel_def bare_def)
qed (simp add: no_blocks_def)

lemma bare_simps [simp]:
  "bare (put_dir a b c d e i) = bare i" "bare (put_dev m n i) = bare i" "bare (put_xattr_idx x i) = bare i"
  "bare (i\<lparr>i_link_count := l\<rparr>) = bare i"
  by (simp_all add: bare_def put_dir_def put_dev_def put_xattr_idx_def)

lemma parse_dir_bare: "parse_inode_dir data i = Inr j \<Longrightarrow> bare i \<Longrightarrow> bare j"
  by (auto simp: parse_inode_dir_def rbind_eq_Inr_iff Let_def simp del: SIZEOF_inode_header_def split: if_splits)

lemma parse_ldir_bare: "parse_inode_ldir data i = Inr j \<Longrightarrow> bare i \<Longrightarrow> bare j"
  by (auto simp: parse_inode_ldir_def rbind_eq_Inr_iff Let_def simp del: SIZEOF_inode_header_def split: if_splits)

lemma parse_dev_bare: "parse_inode_dev data i ext = Inr (j, n) \<Longrightarrow> bare i \<Longrightarrow> bare j"
  by (auto simp: parse_inode_dev_def rbind_eq_Inr_iff Let_def simp del: SIZEOF_inode_header_def split: if_splits)

lemma parse_ipc_bare: "parse_inode_ipc data i ext = Inr (j, n) \<Longrightarrow> bare i \<Longrightarrow> bare j"
  by (auto simp: parse_inode_ipc_def rbind_eq_Inr_iff Let_def simp del: SIZEOF_inode_header_def split: if_splits)

lemma switch_bare:
  assumes "parse_inode_switch mem data bsize t i = Inr (j, n)" and "bare i"
    and "t \<notin> {SQFS_INODE_FILE, SQFS_INODE_LFILE, SQFS_INODE_SYMLINK, SQFS_INODE_LSYMLINK}"
  shows "bare j"
proof -
  note bares = parse_dir_bare [OF _ assms(2)] parse_ldir_bare [OF _ assms(2)] parse_dev_bare [OF _ assms(2)]
    parse_ipc_bare [OF _ assms(2)]
  from assms(1,3) show ?thesis
    unfolding parse_inode_switch_def
    by (cases t; simp add: rbind_eq_Inr_iff split: if_splits; (elim exE conjE)?; blast dest: bares)
qed

lemma parse_switch_owned:
  assumes "bare i"
  shows "runs (parse_inode_switch_mem mem data bsize t i) {#} (parse_inode_switch mem data bsize t i) (parsed_rel data)"
proof (cases "t \<in> {SQFS_INODE_FILE, SQFS_INODE_LFILE, SQFS_INODE_SYMLINK, SQFS_INODE_LSYMLINK}")
  case True
  then show ?thesis
    by (auto simp: parse_inode_switch_mem_def parse_inode_switch_def assms
        parse_file_owned parse_lfile_owned parse_symlink_owned parse_lsymlink_owned)
next
  case False
  then have "parse_inode_switch_mem mem data bsize t i = own_lift (no_blocks (parse_inode_switch mem data bsize t i))"
    by (cases t) (simp_all add: parse_inode_switch_mem_def)
  with False assms show ?thesis by (auto intro!: no_blocks_owned dest: switch_bare)
qed

text \<open>The parsed inode with its blocks.\<close>

definition hung_rel :: "sqfs_inode \<times> nat option \<times> nat option \<Rightarrow> sqfs_inode \<Rightarrow> nat multiset \<Rightarrow> bool" where
  "hung_rel x i P \<longleftrightarrow> (case x of (j, b, tg) \<Rightarrow> i = j \<and> P = opt_block b + opt_block tg
     \<and> (b = None \<longleftrightarrow> i_block_sizes i = None) \<and> (tg = None \<longleftrightarrow> i_target_alloc i = None))"

lemma parse_header_no_error: "\<forall>e. parse_inode_header p \<noteq> Inl (Err e)"
  using get_le_no_error by (auto simp: parse_inode_header_def rbind_eq_Inl_iff)

lemma parse_inode_owned: "runs (parse_inode_mem mem data bsize) {#} (parse_inode mem data bsize) hung_rel"
  unfolding parse_inode_mem_def parse_inode_def
proof (intro runs_if runs_fail runs_sure [OF parse_header_no_error], goal_cases)
  case (1 h)
  show ?case
  proof (cases "inode_type_of_code (unat (h_type h))")
    case (Some t)
    let ?i = "(new_inode t)\<lparr>i_number := ucast (h_inode_number h), i_permissions := h_permissions h,
      i_uid := h_uid_idx h, i_gid := h_gid_idx h, i_mtime := h_mtime h, i_block_sizes := None\<rparr>"
    have i: "bare ?i" by (simp add: bare_def new_inode_def)
    show ?thesis
      unfolding Some option.case
    proof (rule runs_bind [OF parse_switch_owned [OF i]], goal_cases)
      case (1 x v P)
      obtain i b tg n where x: "x = ((i, b, tg), n)" by (cases x) auto
      with 1 have v: "v = (i, n)" and P: "P = opt_block b + opt_block tg"
        and *: "b = None \<longleftrightarrow> i_block_sizes i = None" "tg = None \<longleftrightarrow> i_target_alloc i = None" "P \<noteq> {#} \<Longrightarrow> n \<le> length data"
        by (auto simp: parsed_rel_def)
      show ?case
      proof (cases "length data < n")
        case True
        with *(3) have "P = {#}" by fastforce
        with True x v P * show ?thesis by (auto simp: hung_rel_def intro!: runs_return split: option.splits)
      next
        case False
        with x v P * show ?thesis by (auto simp: hung_rel_def intro!: runs_return)
      qed
    qed
  qed simp
qed

section \<open>Main lemmas\<close>

lemma read_inode_metadata_owned:
  "runs (read_inode_metadata_mem mem ctx ref n) {#} (read_inode_metadata mem ctx ref n) plain"
  unfolding read_inode_metadata_mem_def read_inode_metadata_def Let_def
  by (rule runs_bind [OF meta_read_block_owned]) auto

lemma metadata_then:
  "runs (own_bind (read_inode_metadata_mem mem ctx ref n) (\<lambda>raw. own_lift (f raw))) {#}
     (rbind (read_inode_metadata mem ctx ref n) f) plain"
  by (rule runs_bind [OF read_inode_metadata_owned]) auto

lemma inode_disk_size_owned: "runs (inode_disk_size_mem mem ctx ref t) {#} (inode_disk_size mem ctx ref t) plain"
  by (cases t)
    (simp_all only: inode_disk_size_mem_def inode_disk_size_def sqfs_inode_type.case Let_def metadata_then runs_plain_lift)

text \<open>On every path to an inode exactly its own blocks are left, on every error none.\<close>

lemma get_by_ref_owned: "runs (sqfs_inode_get_by_ref_mem mem ctx ref) {#} (sqfs_inode_get_by_ref mem ctx ref) inode_rel"
  unfolding sqfs_inode_get_by_ref_mem_def sqfs_inode_get_by_ref_def
proof (rule runs_bind [OF read_inode_metadata_owned], goal_cases)
  case (1 raw v P)
  then have [simp]: "v = raw" "P = {#}" by auto
  show ?case unfolding \<open>v = raw\<close> \<open>P = {#}\<close>
  proof (rule runs_sure [OF parse_header_no_error], goal_cases)
    case (1 h)
    show ?case
    proof (cases "inode_type_of_code (unat (h_type h))")
      case (Some t)
      show ?thesis unfolding Some option.case
      proof (rule runs_bind [OF inode_disk_size_owned], goal_cases)
        case (1 n v P)
        then have vP: "v = n" "P = {#}" by auto
        show ?case unfolding vP Let_def
        proof (rule runs_bind [OF read_inode_metadata_owned], goal_cases)
          case (1 data v P)
          then have vP: "v = data" "P = {#}" by auto
          show ?case unfolding vP
          proof (rule runs_alloc_first, goal_cases)
            case (2 b)
            have id: "rbind r Inr = r" for r :: "sqfs_inode res" by (cases r) simp_all
            have "runs (own_try (parse_inode_mem mem data (block_size (disk (ctx_sb ctx)))) (\<lambda>ret.
                  case ret of
                    Inl e \<Rightarrow> own_bind (sqfs_free (Some b)) (\<lambda>_. own_lift (Inl (Err e)))
                  | Inr (i, sizes, target) \<Rightarrow>
                      own_lift (Inr \<lparr>io_inode = i, io_self = b, io_sizes = sizes, io_target = target\<rparr>))) {#b#}
                (rbind (parse_inode mem data (block_size (disk (ctx_sb ctx)))) Inr) inode_rel"
            proof (rule runs_call [OF parse_inode_owned], goal_cases)
              case (1 y j Q)
              obtain i sizes target where y: "y = (i, sizes, target)" by (cases y)
              from 1(2) show ?case unfolding y sum.case prod.case
                by (intro runs_return) (simp add: y hung_rel_def inode_rel_def inode_blocks_def ac_simps)
            next
              case (2 e)
              show ?case by (simp add: runs_free_end)
            qed
            then show ?case unfolding id if_not_P [OF 2] .
          qed simp
        qed
      qed
    qed simp
  qed
qed

text \<open>Pointers to allocations do not lie in the first 4 GiB, so that overwriting the low half of one never
  makes it null.\<close>

definition high_addresses :: "allocator \<Rightarrow> bool" where
  "high_addresses mem \<longleftrightarrow> (\<forall>n. mem n = 0 \<or> hi32 (mem n) \<noteq> 0)"

text \<open>The release takes all of its blocks. (The pointer of a link whose low half was overwritten is either
  its address or a fault.)\<close>

lemma inode_free_runs:
  assumes rel: "inode_rel x i P" and ty: "inode_typed mem i" and high: "high_addresses mem"
  shows "runs (sqfs_inode_free_mem x) P
    (if sqfs_inode_is_symlink (i_type i) \<and> map_option fst (i_target_alloc i) \<noteq> Some (symlink_target i)
     then Inl (Fault Wild_Pointer) else Inr ()) nothing"
proof -
  have P: "P = opt_block (io_sizes x) + (opt_block (io_target x) + {#io_self x#})"
    using rel by (simp add: inode_rel_def inode_blocks_def)
  have i: "io_inode x = i" "io_target x = None \<longleftrightarrow> i_target_alloc i = None" using rel by (auto simp: inode_rel_def)
  note last = runs_free_last [of "io_self x"]
  show ?thesis
    unfolding P sqfs_inode_free_mem_def i
  proof (rule runs_free, cases "sqfs_inode_is_symlink (i_type i)", goal_cases)
    case 2
    then have "i_target_alloc i = None" using ty by (auto simp: typed_defs split: option.splits)
    with 2 i last show ?case by simp
  next
    case 1
    then obtain a bs where a: "i_target_alloc i = Some (a, bs)" and "a \<noteq> 0" "a = mem (length bs)"
      and hi: "hi32 (symlink_target i) = hi32 a"
      using ty by (auto simp: typed_defs sqfs_malloc_def split: option.splits)
    then have "hi32 (symlink_target i) \<noteq> 0" using high by (auto simp: high_addresses_def)
    then have nz: "symlink_target i \<noteq> 0" by (auto simp: hi32_def)
    with 1 a runs_free [OF last, of "io_target x"] show ?case by auto
  qed
qed

lemma free_inode_outcome:
  assumes ty: "inode_typed mem i" and high: "high_addresses mem"
  shows "free_inode i = (if sqfs_inode_is_symlink (i_type i) \<and> map_option fst (i_target_alloc i) \<noteq> Some (symlink_target i)
     then Inl (Fault Wild_Pointer) else Inr ())"
proof (cases "sqfs_inode_is_symlink (i_type i)")
  case True
  then obtain a bs where a: "i_target_alloc i = Some (a, bs)" and "a \<noteq> 0" "a = mem (length bs)"
    and hi: "hi32 (symlink_target i) = hi32 a"
    using ty by (auto simp: typed_defs sqfs_malloc_def split: option.splits)
  then have "hi32 (symlink_target i) \<noteq> 0" using high by (auto simp: high_addresses_def)
  then have nz: "symlink_target i \<noteq> 0" by (auto simp: hi32_def)
  with True show ?thesis by (simp add: free_inode_def sqfs_inode_free_def)
qed (simp add: free_inode_def sqfs_inode_free_def)

text \<open>As a call in front of others.\<close>

lemma runs_free_inode:
  assumes "inode_rel x i P" and "inode_typed mem i" and "high_addresses mem" and f: "runs (f ()) M r R"
  shows "runs (own_bind (sqfs_inode_free_mem x) f) (P + M) (rbind (free_inode i) (\<lambda>_. r)) R"
proof -
  have bind: "own_bind m f = own_try m (\<lambda>ret. case ret of Inl e \<Rightarrow> own_lift (Inl (Err e)) | Inr u \<Rightarrow> f u)"
    for m :: "(errno, unit) own"
    by (auto simp: own_bind_def own_try_def own_lift_def fun_eq_iff split: prod.split sum.split failure.split)
  have "runs (sqfs_inode_free_mem x) P (free_inode i) nothing"
    using inode_free_runs [OF assms(1-3)] by (simp add: free_inode_outcome [OF assms(2,3)])
  then show ?thesis unfolding bind
    by (rule runs_try) (use f free_inode_outcome [OF assms(2,3)] in \<open>auto simp: nothing_def split: if_splits\<close>)
qed

end
