(* ===== verification/OwnershipVfs.thy ===== *)
theory OwnershipVfs
  imports OwnershipInode
begin

text \<open>
  The operations of \<open>vfs/vfs_ops.c\<close> and the callbacks of \<open>fuse/vfs_fuse.c\<close> with their allocations, and the
  result of \<open>Ownership\<close>: whatever fails on the way, an operation leaves exactly the blocks of what it returns.
\<close>

section \<open>Paths\<close>

definition vfs_code :: "sqfs_error \<Rightarrow> errno" where
  "vfs_code e = (case sqfs_err_to_errno (Some e) of None \<Rightarrow> EIO | Some n \<Rightarrow> n)"

lemma to_vfs_Err [simp]: "to_vfs (Inl (Err e)) = Inl (Err (vfs_code e))"
  by (simp add: to_vfs_def vfs_code_def)

text \<open>The walk with the copy of the path, which is freed on every way out.\<close>

definition path_error :: "nat \<Rightarrow> errno \<Rightarrow> (errno, 'a) own" where
  "path_error path_copy e = own_bind (sqfs_free (Some path_copy)) (\<lambda>_. own_lift (Inl (Err e)))"

function walk_components_mem ::
  "allocator \<Rightarrow> sqfs_ctx \<Rightarrow> nat \<Rightarrow> byte list \<Rightarrow> inode_obj \<Rightarrow> (errno, inode_obj) own" where
  "walk_components_mem mem ctx path_copy rest x =
     (case strtok_r rest of
        None \<Rightarrow> own_bind (sqfs_free (Some path_copy)) (\<lambda>_. own_lift (Inr x))
      | Some (component, rest') \<Rightarrow>
          if \<not> sqfs_inode_is_dir (i_type (io_inode x)) then
            own_bind (sqfs_inode_free_mem x) (\<lambda>_. path_error path_copy SQFS_VFS_ERR_NOT_DIR)
          else own_try (sqfs_dir_read_mem mem ctx (io_inode x)) (\<lambda>ret.
            own_bind (sqfs_inode_free_mem x) (\<lambda>_.
              case ret of
                Inl e \<Rightarrow> path_error path_copy (vfs_code e)
              | Inr d \<Rightarrow>
                  (case sqfs_dirent_lookup (map fst (do_entries d)) component of
                     None \<Rightarrow> own_bind (sqfs_dirent_free d) (\<lambda>_. path_error path_copy SQFS_VFS_ERR_NOT_FOUND)
                   | Some entry \<Rightarrow>
                       own_try (sqfs_inode_get_by_ref_mem mem ctx (d_inode_ref entry)) (\<lambda>ret.
                         own_bind (sqfs_dirent_free d) (\<lambda>_.
                           case ret of
                             Inl e \<Rightarrow> path_error path_copy SQFS_VFS_ERR_NOT_FOUND
                           | Inr x' \<Rightarrow> walk_components_mem mem ctx path_copy rest' x'))))))"
  by pat_completeness auto
termination walk_components_mem
  by (relation "measure (\<lambda>(mem, ctx, p, rest, x). length rest)") (auto dest: strtok_shorter)

declare walk_components_mem.simps [simp del]

definition sqfs_vfs_resolve_path_mem :: "allocator \<Rightarrow> sqfs_ctx \<Rightarrow> byte list \<Rightarrow> (errno, inode_obj) own" where
  "sqfs_vfs_resolve_path_mem mem ctx path =
     own_try (sqfs_inode_get_by_ref_mem mem ctx (root_inode (disk (ctx_sb ctx)))) (\<lambda>ret.
       case ret of
         Inl e \<Rightarrow> own_lift (Inl (Err (vfs_code e)))
       | Inr x \<Rightarrow>
           if path = [47] then own_lift (Inr x)
           else own_alloc (sqfs_malloc mem (length path + 1))
             (own_bind (sqfs_inode_free_mem x) (\<lambda>_. own_lift (Inl (Err SQFS_VFS_ERR_NOMEM)))) (\<lambda>path_copy.
             case path of
               [] \<Rightarrow> own_lift (Inl (Fault OOB_Read))
             | _ # rest \<Rightarrow> walk_components_mem mem ctx path_copy rest x))"

lemma path_error_owned: "runs (path_error path_copy e) {#path_copy#} (Inl (Err e)) R"
  unfolding path_error_def by (rule runs_free_end) simp

lemma walk_unfold:
  "walk_components mem ctx rest i =
     (case strtok_r rest of
        None \<Rightarrow> Inr i
      | Some (component, rest') \<Rightarrow>
          if \<not> sqfs_inode_is_dir (i_type i) then rbind (free_inode i) (\<lambda>_. Inl (Err SQFS_VFS_ERR_NOT_DIR))
          else case sqfs_dir_read mem ctx i of
              Inl (Fault f) \<Rightarrow> Inl (Fault f)
            | Inl (Err e) \<Rightarrow> rbind (free_inode i) (\<lambda>_. Inl (Err (vfs_code e)))
            | Inr entries \<Rightarrow> rbind (free_inode i) (\<lambda>_.
                case sqfs_dirent_lookup entries component of
                  None \<Rightarrow> Inl (Err SQFS_VFS_ERR_NOT_FOUND)
                | Some d \<Rightarrow>
                    (case sqfs_inode_get_by_ref mem ctx (d_inode_ref d) of
                       Inl (Fault f) \<Rightarrow> Inl (Fault f)
                     | Inl (Err e) \<Rightarrow> Inl (Err SQFS_VFS_ERR_NOT_FOUND)
                     | Inr i' \<Rightarrow> walk_components mem ctx rest' i')))"
  by (simp add: walk_components.simps [of mem ctx rest i] split: option.split sum.split failure.split)

lemma walk_owned:
  assumes high: "high_addresses mem"
  shows "inode_rel x i P \<Longrightarrow> inode_typed mem i \<Longrightarrow>
    runs (walk_components_mem mem ctx path_copy rest x) (P + {#path_copy#}) (walk_components mem ctx rest i) inode_rel"
proof (induction "length rest" arbitrary: rest x i P rule: less_induct)
  case less
  note rel = less.prems(1) and ty = less.prems(2)
  have x: "io_inode x = i" using rel by (simp add: inode_rel_def)
  note free = runs_free_inode [OF rel ty high]
  show ?case
  proof (cases "strtok_r rest")
    case None
    have "runs (own_bind (sqfs_free (Some path_copy)) (\<lambda>_. own_lift (Inr x))) ({#path_copy#} + P) (Inr i) inode_rel"
      by (intro runs_free_one runs_return rel)
    with None show ?thesis by (simp add: walk_components_mem.simps walk_unfold ac_simps)
  next
    case (Some cr)
    obtain component rest' where cr: "cr = (component, rest')" by (cases cr)
    have shorter: "length rest' < length rest" using Some cr strtok_shorter by blast
    show ?thesis
      unfolding walk_components_mem.simps [of mem ctx path_copy rest x] walk_unfold [of mem ctx rest i] Some cr option.case
        prod.case x
    proof (intro runs_if free path_error_owned, rule runs_around [OF dir_read_owned], goal_cases)
      case (1 d es Q)
      note d = 1(3)
      then have es: "map fst (do_entries d) = es" by (simp add: dirents_rel_def)
      have "runs (case sqfs_dirent_lookup es component of
                 None \<Rightarrow> own_bind (sqfs_dirent_free d) (\<lambda>_. path_error path_copy SQFS_VFS_ERR_NOT_FOUND)
               | Some entry \<Rightarrow>
                   own_try (sqfs_inode_get_by_ref_mem mem ctx (d_inode_ref entry)) (\<lambda>ret.
                     own_bind (sqfs_dirent_free d) (\<lambda>_.
                       case ret of
                         Inl e \<Rightarrow> path_error path_copy SQFS_VFS_ERR_NOT_FOUND
                       | Inr x' \<Rightarrow> walk_components_mem mem ctx path_copy rest' x')))
          (Q + {#path_copy#})
          (case sqfs_dirent_lookup es component of
             None \<Rightarrow> Inl (Err SQFS_VFS_ERR_NOT_FOUND)
           | Some d \<Rightarrow>
               (case sqfs_inode_get_by_ref mem ctx (d_inode_ref d) of
                  Inl (Fault f) \<Rightarrow> Inl (Fault f)
                | Inl (Err e) \<Rightarrow> Inl (Err SQFS_VFS_ERR_NOT_FOUND)
                | Inr i' \<Rightarrow> walk_components mem ctx rest' i')) inode_rel"
      proof (cases "sqfs_dirent_lookup es component")
        case None
        show ?thesis unfolding None option.case by (intro runs_dirent_free [OF d] path_error_owned)
      next
        case (Some entry)
        show ?thesis unfolding Some option.case
        proof (rule runs_around [OF get_by_ref_owned], goal_cases)
          case (1 x' i' P')
          have "runs (walk_components_mem mem ctx path_copy rest' x') (P' + {#path_copy#}) (walk_components mem ctx rest' i') inode_rel"
            using less.hyps [OF shorter 1(2) get_by_ref_typed [OF 1(1)]] .
          from runs_dirent_free [OF d this] 1(1) show ?case by (simp add: ac_simps)
        next
          case (2 e)
          from runs_dirent_free [OF d path_error_owned] 2 show ?case by simp
        qed simp
      qed
      then have "runs (own_bind (sqfs_inode_free_mem x) (\<lambda>_. case sqfs_dirent_lookup es component of
                 None \<Rightarrow> own_bind (sqfs_dirent_free d) (\<lambda>_. path_error path_copy SQFS_VFS_ERR_NOT_FOUND)
               | Some entry \<Rightarrow>
                   own_try (sqfs_inode_get_by_ref_mem mem ctx (d_inode_ref entry)) (\<lambda>ret.
                     own_bind (sqfs_dirent_free d) (\<lambda>_.
                       case ret of
                         Inl e \<Rightarrow> path_error path_copy SQFS_VFS_ERR_NOT_FOUND
                       | Inr x' \<Rightarrow> walk_components_mem mem ctx path_copy rest' x'))))
          (P + (Q + {#path_copy#}))
          (rbind (free_inode i) (\<lambda>_. case sqfs_dirent_lookup es component of
             None \<Rightarrow> Inl (Err SQFS_VFS_ERR_NOT_FOUND)
           | Some d \<Rightarrow>
               (case sqfs_inode_get_by_ref mem ctx (d_inode_ref d) of
                  Inl (Fault f) \<Rightarrow> Inl (Fault f)
                | Inl (Err e) \<Rightarrow> Inl (Err SQFS_VFS_ERR_NOT_FOUND)
                | Inr i' \<Rightarrow> walk_components mem ctx rest' i'))) inode_rel"
        by (rule free)
      with 1(2) show ?case by (simp add: es ac_simps)
    next
      case (2 e)
      from free [OF path_error_owned] 2 show ?case by simp
    qed simp
  qed
qed

lemma resolve_path_owned:
  assumes high: "high_addresses mem"
  shows "runs (sqfs_vfs_resolve_path_mem mem ctx path) {#} (sqfs_vfs_resolve_path mem ctx path) inode_rel"
  unfolding sqfs_vfs_resolve_path_mem_def sqfs_vfs_resolve_path_def
proof (rule runs_around [OF get_by_ref_owned], goal_cases)
  case (1 x i P)
  note typed = get_by_ref_typed [OF 1(1)]
  have "runs (if path = [47] then own_lift (Inr x)
           else own_alloc (sqfs_malloc mem (length path + 1))
             (own_bind (sqfs_inode_free_mem x) (\<lambda>_. own_lift (Inl (Err SQFS_VFS_ERR_NOMEM)))) (\<lambda>path_copy.
             case path of [] \<Rightarrow> own_lift (Inl (Fault OOB_Read))
             | _ # rest \<Rightarrow> walk_components_mem mem ctx path_copy rest x)) P
        (if path = [47] then Inr i
         else if sqfs_malloc mem (length path + 1) = 0
         then rbind (free_inode i) (\<lambda>_. Inl (Err SQFS_VFS_ERR_NOMEM))
         else case path of [] \<Rightarrow> Inl (Fault OOB_Read) | _ # rest \<Rightarrow> walk_components mem ctx rest i) inode_rel"
  proof (intro runs_if runs_return 1 runs_alloc, goal_cases)
    case 1
    with runs_free_inode [OF \<open>inode_rel x i P\<close> typed high runs_fail] show ?case by simp
  next
    case (2 b)
    with walk_owned [OF high \<open>inode_rel x i P\<close> typed] show ?case by (cases path) simp_all
  qed
  with 1 show ?case by simp
qed simp_all

section \<open>Operations\<close>

text \<open>The inode is released, and a result without blocks or an error is returned.\<close>

lemma runs_release_lift:
  assumes "inode_rel x i P" and "inode_typed mem i" and "high_addresses mem"
  shows "runs (own_bind (sqfs_inode_free_mem x) (\<lambda>_. own_lift r)) P (rbind (free_inode i) (\<lambda>_. r)) plain"
  using runs_free_inode [OF assms runs_plain_lift] by simp

lemma runs_release_fail:
  assumes "inode_rel x i P" and "inode_typed mem i" and "high_addresses mem"
  shows "runs (own_bind (sqfs_inode_free_mem x) (\<lambda>_. own_lift (Inl e))) P (rbind (free_inode i) (\<lambda>_. Inl e)) R"
  using runs_free_inode [OF assms runs_fail] by simp

definition sqfs_vfs_getattr_mem :: "allocator \<Rightarrow> sqfs_ctx \<Rightarrow> byte list \<Rightarrow> (errno, sqfs_vfs_attr) own" where
  "sqfs_vfs_getattr_mem mem ctx path =
     own_bind (sqfs_vfs_resolve_path_mem mem ctx path) (\<lambda>x.
       let attr = sqfs_vfs_fill_attr ctx (io_inode x)
       in own_bind (sqfs_inode_free_mem x) (\<lambda>_. own_lift (Inr attr)))"

lemma getattr_owned:
  assumes high: "high_addresses mem"
  shows "runs (sqfs_vfs_getattr_mem mem ctx path) {#} (sqfs_vfs_getattr mem ctx path) plain"
  unfolding sqfs_vfs_getattr_mem_def sqfs_vfs_getattr_def
proof (rule runs_bind [OF resolve_path_owned [OF high]], goal_cases)
  case (1 x i P)
  from runs_release_lift [OF 1(2) resolve_typed [OF 1(1)] high] 1(2) show ?case by (simp add: Let_def inode_rel_def)
qed

text \<open>An open file: the handle and its inode.\<close>

record handle_obj =
  ho_inode :: inode_obj
  ho_file_size :: u64
  ho_self :: nat

definition handle_blocks :: "handle_obj \<Rightarrow> nat multiset" where
  "handle_blocks h = inode_blocks (ho_inode h) + {#ho_self h#}"

definition handle_rel :: "allocator \<Rightarrow> handle_obj \<Rightarrow> sqfs_vfs_fh \<Rightarrow> nat multiset \<Rightarrow> bool" where
  "handle_rel mem h v P \<longleftrightarrow> (\<exists>i. inode_rel (ho_inode h) i (inode_blocks (ho_inode h)) \<and> inode_typed mem i
     \<and> v = \<lparr>fh_inode = Some i, fh_file_size = ho_file_size h\<rparr> \<and> P = handle_blocks h)"

definition sqfs_vfs_open_mem :: "allocator \<Rightarrow> sqfs_ctx \<Rightarrow> byte list \<Rightarrow> (errno, handle_obj) own" where
  "sqfs_vfs_open_mem mem ctx path =
     own_bind (sqfs_vfs_resolve_path_mem mem ctx path) (\<lambda>x.
       if \<not> sqfs_inode_is_file (i_type (io_inode x)) then
         own_bind (sqfs_inode_free_mem x) (\<lambda>_. own_lift (Inl (Err SQFS_VFS_ERR_NOT_FILE)))
       else own_alloc (sqfs_malloc mem SIZEOF_vfs_fh)
         (own_bind (sqfs_inode_free_mem x) (\<lambda>_. own_lift (Inl (Err SQFS_VFS_ERR_NOMEM)))) (\<lambda>handle.
         own_lift (Inr \<lparr>ho_inode = x, ho_file_size = file_file_size (io_inode x), ho_self = handle\<rparr>)))"

lemma open_owned:
  assumes high: "high_addresses mem"
  shows "runs (sqfs_vfs_open_mem mem ctx path) {#} (sqfs_vfs_open mem ctx path) (handle_rel mem)"
  unfolding sqfs_vfs_open_mem_def sqfs_vfs_open_def
proof (rule runs_bind [OF resolve_path_owned [OF high]], goal_cases)
  case (1 x i P)
  note typed = resolve_typed [OF 1(1)]
  have x: "io_inode x = i" "P = inode_blocks x" using 1(2) by (simp_all add: inode_rel_def)
  note fail = runs_release_fail [OF 1(2) typed high]
  show ?case unfolding x(1)
  proof (intro runs_if fail runs_alloc, goal_cases)
    case 1
    with fail show ?case by simp
  next
    case (2 b)
    with \<open>inode_rel x i P\<close> typed show ?case
      by (auto simp: handle_rel_def handle_blocks_def x intro!: runs_return)
  qed
qed

definition sqfs_vfs_release_mem :: "handle_obj \<Rightarrow> (errno, unit) own" where
  "sqfs_vfs_release_mem h =
     own_bind (sqfs_inode_free_mem (ho_inode h)) (\<lambda>_. sqfs_free (Some (ho_self h)))"

lemma release_owned:
  assumes "handle_rel mem h v P" and high: "high_addresses mem"
  shows "runs (sqfs_vfs_release_mem h) P (sqfs_vfs_release (Some v)) nothing"
proof -
  from assms(1) obtain i where i: "inode_rel (ho_inode h) i (inode_blocks (ho_inode h))" "inode_typed mem i"
    and v: "v = \<lparr>fh_inode = Some i, fh_file_size = ho_file_size h\<rparr>" and P: "P = handle_blocks h"
    by (auto simp: handle_rel_def)
  have "sqfs_vfs_release (Some v) = rbind (free_inode i) (\<lambda>_. Inr ())"
    by (cases "free_inode i") (auto simp: v sqfs_vfs_release_def)
  with runs_free_inode [OF i high runs_free_last] show ?thesis
    by (simp add: sqfs_vfs_release_mem_def P handle_blocks_def)
qed

text \<open>A listing handed to the caller: its array, and the names taken over from the entries.\<close>

record vfs_dirents_obj =
  vo_entries :: "(sqfs_vfs_dirent \<times> nat) list"
  vo_array :: nat

definition vfs_dirents_rel :: "vfs_dirents_obj \<Rightarrow> sqfs_vfs_dirent list \<Rightarrow> nat multiset \<Rightarrow> bool" where
  "vfs_dirents_rel d es P \<longleftrightarrow> map fst (vo_entries d) = es \<and> P = mset (map snd (vo_entries d)) + {#vo_array d#}"

definition convert_dirents_mem :: "allocator \<Rightarrow> dirents_obj \<Rightarrow> (errno, vfs_dirents_obj) own" where
  "convert_dirents_mem mem d =
     own_alloc (sqfs_malloc mem (length (do_entries d) * SIZEOF_vfs_dirent))
       (own_bind (sqfs_dirent_free d) (\<lambda>_. own_lift (Inl (Err SQFS_VFS_ERR_NOMEM)))) (\<lambda>vfs_entries.
       own_bind (sqfs_free (do_array d)) (\<lambda>_.
         own_lift (Inr \<lparr>vo_entries = map (\<lambda>(e, name). (vfs_dirent_of e, name)) (do_entries d),
           vo_array = vfs_entries\<rparr>)))"

definition sqfs_vfs_readdir_mem :: "allocator \<Rightarrow> sqfs_ctx \<Rightarrow> byte list \<Rightarrow> (errno, vfs_dirents_obj) own" where
  "sqfs_vfs_readdir_mem mem ctx path =
     own_bind (sqfs_vfs_resolve_path_mem mem ctx path) (\<lambda>x.
       if \<not> sqfs_inode_is_dir (i_type (io_inode x)) then
         own_bind (sqfs_inode_free_mem x) (\<lambda>_. own_lift (Inl (Err SQFS_VFS_ERR_NOT_DIR)))
       else own_try (sqfs_dir_read_mem mem ctx (io_inode x)) (\<lambda>ret.
         own_bind (sqfs_inode_free_mem x) (\<lambda>_.
           case ret of
             Inl e \<Rightarrow> own_lift (Inl (Err (vfs_code e)))
           | Inr d \<Rightarrow>
               convert_dirents_mem mem d)))"

definition sqfs_vfs_dirent_free :: "vfs_dirents_obj \<Rightarrow> (errno, unit) own" where
  "sqfs_vfs_dirent_free d =
     own_bind (free_each (map snd (vo_entries d))) (\<lambda>_. sqfs_free (Some (vo_array d)))"

text \<open>The conversion keeps the names and swaps the arrays.\<close>

lemma convert_owned:
  assumes d: "dirents_rel d es P"
  shows "runs (convert_dirents_mem mem d) P
    (if sqfs_malloc mem (length es * SIZEOF_vfs_dirent) = 0 then Inl (Err SQFS_VFS_ERR_NOMEM)
     else Inr (map vfs_dirent_of es)) vfs_dirents_rel"
proof -
  have es: "es = map fst (do_entries d)" using d by (simp add: dirents_rel_def)
  have fail: "runs (own_bind (sqfs_dirent_free d) (\<lambda>_. own_lift (Inl (Err e)))) P (Inl (Err e)) vfs_dirents_rel" for e
    using runs_dirent_free [OF d runs_fail] by simp
  show ?thesis unfolding convert_dirents_mem_def
  proof (rule runs_alloc, goal_cases)
    case 1
    with fail show ?case by (simp add: es)
  next
    case (2 b)
    have "runs (own_bind (sqfs_free (do_array d)) (\<lambda>_.
          own_lift (Inr \<lparr>vo_entries = map (\<lambda>(e, name). (vfs_dirent_of e, name)) (do_entries d), vo_array = b\<rparr>)))
        (opt_block (do_array d) + (mset (map snd (do_entries d)) + {#b#})) (Inr (map vfs_dirent_of es)) vfs_dirents_rel"
      by (intro runs_free runs_return) (auto simp: vfs_dirents_rel_def es case_prod_unfold comp_def)
    moreover have "P + {#b#} = opt_block (do_array d) + (mset (map snd (do_entries d)) + {#b#})"
      using d by (simp add: dirents_rel_def dirents_blocks_def)
    ultimately show ?case using 2 by (simp add: es)
  qed
qed

lemma readdir_owned:
  assumes high: "high_addresses mem"
  shows "runs (sqfs_vfs_readdir_mem mem ctx path) {#} (sqfs_vfs_readdir mem ctx path) vfs_dirents_rel"
  unfolding sqfs_vfs_readdir_mem_def sqfs_vfs_readdir_def
proof (rule runs_bind [OF resolve_path_owned [OF high]], goal_cases)
  case (1 x i P)
  have x: "io_inode x = i" using 1(2) by (simp add: inode_rel_def)
  note free = runs_free_inode [OF 1(2) resolve_typed [OF 1(1)] high]
  note fail = runs_release_fail [OF 1(2) resolve_typed [OF 1(1)] high]
  show ?case unfolding x
  proof (intro runs_if fail, rule runs_around [OF dir_read_owned], goal_cases)
    case (1 d es Q)
    from free [of "\<lambda>_. convert_dirents_mem mem d", OF convert_owned [OF 1(3)]] 1 show ?case by (simp add: ac_simps)
  next
    case (2 e)
    with fail show ?case by simp
  qed simp
qed

lemma vfs_dirent_free_owned:
  assumes "vfs_dirents_rel d es P" and "runs (f ()) {#} r R"
  shows "runs (own_bind (sqfs_vfs_dirent_free d) f) P r R"
proof -
  have "runs (own_bind (free_each (map snd (vo_entries d))) (\<lambda>_. own_bind (sqfs_free (Some (vo_array d))) f))
      (mset (map snd (vo_entries d)) + {#vo_array d#}) r R"
    by (intro runs_free_each) (use runs_free_one [of f, OF assms(2)] in simp)
  with assms(1) show ?thesis by (simp add: sqfs_vfs_dirent_free_def own_bind_assoc vfs_dirents_rel_def)
qed

definition sqfs_vfs_readlink_mem :: "allocator \<Rightarrow> sqfs_ctx \<Rightarrow> byte list \<Rightarrow> nat \<Rightarrow> (errno, byte list) own" where
  "sqfs_vfs_readlink_mem mem ctx path sz =
     (if sz = 0 then own_lift (Inl (Err SQFS_VFS_ERR_INVAL))
      else own_bind (sqfs_vfs_resolve_path_mem mem ctx path) (\<lambda>x.
        if \<not> sqfs_inode_is_symlink (i_type (io_inode x)) then
          own_bind (sqfs_inode_free_mem x) (\<lambda>_. own_lift (Inl (Err SQFS_VFS_ERR_INVAL)))
        else let target_len = unat (symlink_target_size (io_inode x));
                 copy_size = (if target_len < sz - 1 then target_len else sz - 1)
             in own_bind (own_lift (read_target (io_inode x) copy_size)) (\<lambda>b.
                own_bind (sqfs_inode_free_mem x) (\<lambda>_. own_lift (Inr (b @ [0]))))))"

lemma read_target_no_error: "\<forall>e. read_target i n \<noteq> Inl (Err e)"
  by (auto simp: read_target_def mem_read_def split: option.split)

lemma readlink_owned:
  assumes high: "high_addresses mem"
  shows "runs (sqfs_vfs_readlink_mem mem ctx path sz) {#} (sqfs_vfs_readlink mem ctx path sz) plain"
  unfolding sqfs_vfs_readlink_mem_def sqfs_vfs_readlink_def
proof (intro runs_if runs_fail, rule runs_bind [OF resolve_path_owned [OF high]], goal_cases)
  case (1 x i P)
  have x: "io_inode x = i" using 1(3) by (simp add: inode_rel_def)
  note free = runs_release_lift [OF 1(3) resolve_typed [OF 1(2)] high]
  show ?case unfolding x Let_def
    by (intro runs_if free runs_sure [OF read_target_no_error])
qed

section \<open>Callbacks\<close>

definition sqfs_fuse_getattr_mem :: "allocator \<Rightarrow> sqfs_ctx \<Rightarrow> byte list \<Rightarrow> (errno, fuse_stat) own" where
  "sqfs_fuse_getattr_mem mem ctx path =
     own_bind (sqfs_vfs_getattr_mem mem ctx path) (\<lambda>attr. own_lift (Inr (stat_of_attr attr)))"

definition sqfs_fuse_readdir_mem :: "allocator \<Rightarrow> sqfs_ctx \<Rightarrow> byte list \<Rightarrow> (errno, (byte list \<times> u64 \<times> u32) list) own" where
  "sqfs_fuse_readdir_mem mem ctx path =
     own_bind (sqfs_vfs_readdir_mem mem ctx path) (\<lambda>d.
       let filled = map (\<lambda>e. (c_str (ve_name e), ve_ino e, ve_type e)) (map fst (vo_entries d))
       in own_bind (sqfs_vfs_dirent_free d) (\<lambda>_. own_lift (Inr filled)))"

lemma fuse_getattr_owned:
  "high_addresses mem \<Longrightarrow> runs (sqfs_fuse_getattr_mem mem ctx path) {#} (sqfs_fuse_getattr mem ctx path) plain"
  unfolding sqfs_fuse_getattr_mem_def sqfs_fuse_getattr_def
  by (rule runs_bind [OF getattr_owned]) auto

lemma fuse_readdir_owned:
  assumes "high_addresses mem"
  shows "runs (sqfs_fuse_readdir_mem mem ctx path) {#} (sqfs_fuse_readdir mem ctx path) plain"
  unfolding sqfs_fuse_readdir_mem_def sqfs_fuse_readdir_def
proof (rule runs_bind [OF readdir_owned [OF assms]], goal_cases)
  case (1 d es P)
  then have "map fst (vo_entries d) = es" by (simp add: vfs_dirents_rel_def)
  then show ?case unfolding Let_def by (intro vfs_dirent_free_owned [OF 1(2)]) auto
qed

end
