(* ===== verification/OwnershipXattr.thy ===== *)
theory OwnershipXattr
  imports OwnershipVfs
begin

text \<open>
  The extended attributes of \<open>core/xattr.c\<close> with their allocations: the block buffer, the array of pairs,
  the key and the value of every pair, and the release of all of them on every way out.
\<close>

section \<open>The metadata block\<close>

text \<open>The buffer is released whatever the outcome.\<close>

definition then_free :: "nat \<Rightarrow> ('e + 'a) \<Rightarrow> ('e, 'a) own" where
  "then_free b ret = own_bind (sqfs_free (Some b)) (\<lambda>_. own_lift (map_sum Err (\<lambda>x. x) ret))"

lemma then_free_owned: "runs (own_try (own_lift r) (then_free b)) {#b#} r plain"
proof -
  have "runs (own_try (own_lift r) (then_free b)) {#b#} (rbind r Inr) plain"
    by (rule runs_temporary) (simp_all add: then_free_def runs_free_end)
  moreover have "rbind r Inr = r" by (cases r) simp_all
  ultimately show ?thesis by simp
qed

definition read_metadata_block_internal_mem :: "allocator \<Rightarrow> sqfs_ctx \<Rightarrow> u64 \<Rightarrow> (sqfs_error, byte list) own" where
  "read_metadata_block_internal_mem mem ctx pos =
     own_bind (own_lift (sqfs_pread_all (sb_fd (ctx_sb ctx)) 2 pos)) (\<lambda>h.
       let block_header = sqfs_le16_to_cpu h;
           uncompressed = block_header AND 0x8000 \<noteq> 0;
           compressed_size = unat (block_header AND 0x7FFF)
       in if uncompressed then
            own_lift (sqfs_pread_buf (sb_fd (ctx_sb ctx)) SQFS_META_BLOCK_SIZE compressed_size (pos + 2))
          else own_alloc (sqfs_malloc mem compressed_size) (own_lift (Inl (Err SQFS_ERR_NO_MEMORY))) (\<lambda>buf.
            own_try (own_lift (sqfs_pread_all (sb_fd (ctx_sb ctx)) compressed_size (pos + 2))) (\<lambda>ret.
              case ret of
                Inl e \<Rightarrow> own_bind (sqfs_free (Some buf)) (\<lambda>_. own_lift (Inl (Err e)))
              | Inr src \<Rightarrow> own_try (own_lift (case ctx_comp ctx of
                    None \<Rightarrow> Inl (Fault Null_Deref)
                  | Some c \<Rightarrow>
                      (case comp_decompress c of
                         None \<Rightarrow> Inl (Fault Null_Deref)
                       | Some f \<Rightarrow> recode (Err SQFS_ERR_CORRUPT) (f Disjoint src SQFS_META_BLOCK_SIZE))))
                  (then_free buf))))"

lemma metadata_block_owned:
  "runs (read_metadata_block_internal_mem mem ctx pos) {#} (read_metadata_block_internal mem ctx pos) plain"
  unfolding read_metadata_block_internal_mem_def read_metadata_block_internal_def Let_def
proof (intro runs_plain_bind runs_if runs_plain_lift runs_fault runs_alloc_first, goal_cases)
  case (2 h b)
  show ?case unfolding if_not_P [OF 2(3)]
    by (rule runs_temporary) (simp_all add: runs_free_end then_free_owned)
qed simp

section \<open>Pairs\<close>

record pairs_obj =
  po_pairs :: "(sqfs_xattr \<times> nat \<times> nat) list"   \<comment> \<open>with the blocks of key and value\<close>
  po_array :: "nat option"

definition pair_list :: "(sqfs_xattr \<times> nat \<times> nat) list \<Rightarrow> nat list" where
  "pair_list ps = concat (map (\<lambda>(x, k, v). [k, v]) ps)"

definition pairs_rel :: "pairs_obj \<Rightarrow> sqfs_xattr list \<Rightarrow> nat multiset \<Rightarrow> bool" where
  "pairs_rel p v P \<longleftrightarrow> map fst (po_pairs p) = v \<and> P = mset (pair_list (po_pairs p)) + opt_block (po_array p)
     \<and> (po_array p = None \<longrightarrow> po_pairs p = [])"

lemma pair_list_append [simp]: "pair_list (ps @ [(x, k, v)]) = pair_list ps @ [k, v]" "pair_list [] = []"
  by (simp_all add: pair_list_def)

text \<open>The cleanup of the second pass.\<close>

definition pairs_error :: "(sqfs_xattr \<times> nat \<times> nat) list \<Rightarrow> nat \<Rightarrow> nat \<Rightarrow> (sqfs_error, 'a) own" where
  "pairs_error acc result block_buf =
     own_bind (free_each (pair_list acc)) (\<lambda>_. own_bind (sqfs_free (Some result)) (\<lambda>_.
     own_bind (sqfs_free (Some block_buf)) (\<lambda>_. own_lift (Inl (Err SQFS_ERR_NO_MEMORY)))))"

fun fill_pairs_mem ::
  "allocator \<Rightarrow> byte list \<Rightarrow> nat \<Rightarrow> nat \<Rightarrow> nat \<Rightarrow> nat \<Rightarrow> nat \<Rightarrow> nat \<Rightarrow> (sqfs_xattr \<times> nat \<times> nat) list
   \<Rightarrow> (sqfs_error, (sqfs_xattr \<times> nat \<times> nat) list) own" where
  "fill_pairs_mem mem b off remaining result block_buf pos 0 acc = own_lift (Inr acc)"
| "fill_pairs_mem mem b off remaining result block_buf pos (Suc n) acc =
     (if \<not> pos + 4 \<le> remaining then own_lift (Inr acc)
      else own_bind (own_lift (read_key b (off + pos))) (\<lambda>(t, name_size).
        let prefix = fst (sqfs_xattr_parse_type t); prefix_len = sqfs_xattr_prefix_len prefix in
        own_alloc (sqfs_malloc mem (prefix_len + unat name_size + 1)) (pairs_error acc result block_buf) (\<lambda>key_block.
          own_bind (own_lift (buf_read b (off + pos + 4) (unat name_size))) (\<lambda>name.
            let key = (case sqfs_xattr_prefix_str prefix of None \<Rightarrow> [] | Some s \<Rightarrow> take prefix_len s) @ name @ [0];
                pos = pos + 4 + unat name_size
            in own_bind (own_lift (read_value_size b (off + pos))) (\<lambda>value_size.
              own_alloc (sqfs_malloc mem (unat value_size))
                (own_bind (sqfs_free (Some key_block)) (\<lambda>_. pairs_error acc result block_buf)) (\<lambda>value_block.
                own_bind (own_lift (buf_read b (off + pos + 4) (unat value_size))) (\<lambda>value.
                  fill_pairs_mem mem b off remaining result block_buf (pos + 4 + unat value_size) n
                    (acc @ [(\<lparr>x_key = key, x_value = value, x_value_size = unat value_size\<rparr>, key_block, value_block)]))))))))"

definition filled_rel :: "nat multiset \<Rightarrow> (sqfs_xattr \<times> nat \<times> nat) list \<Rightarrow> sqfs_xattr list \<Rightarrow> nat multiset \<Rightarrow> bool" where
  "filled_rel X ps v P \<longleftrightarrow> map fst ps = v \<and> P = mset (pair_list ps) + X"

lemma pairs_error_owned:
  "runs (pairs_error acc result block_buf) (mset (pair_list acc) + ({#result#} + {#block_buf#})) (Inl (Err SQFS_ERR_NO_MEMORY)) R"
  unfolding pairs_error_def by (intro runs_free_each runs_free_one runs_free_end runs_fail)

lemma buf_read_no_error: "\<forall>e. buf_read b off n \<noteq> Inl (Err e)"
  by (simp add: buf_read_def)

lemma read_pair_no_error: "\<forall>e. read_key b off \<noteq> Inl (Err e)" "\<forall>e. read_value_size b off \<noteq> Inl (Err e)"
  using buf_read_no_error get_le_no_error
  by (auto simp: read_key_def read_value_size_def rbind_eq_Inl_iff)

lemma fill_pairs_owned:
  "runs (fill_pairs_mem mem b off remaining result block_buf pos n acc) (mset (pair_list acc) + ({#result#} + {#block_buf#}))
     (rbind (fill_pairs mem b off remaining pos n) (\<lambda>rest. Inr (map fst acc @ rest))) (filled_rel ({#result#} + {#block_buf#}))"
proof (induction n arbitrary: pos acc)
  case 0
  show ?case by (simp add: filled_rel_def runs_return)
next
  case (Suc n)
  show ?case
    unfolding fill_pairs_mem.simps fill_pairs.simps rbind_if rbind_simps rbind_assoc
  proof (intro runs_if runs_sure [OF read_pair_no_error(1)], goal_cases)
    case 1
    then show ?case by (simp add: filled_rel_def runs_return)
  next
    case (2 key)
    obtain t name_size where key: "key = (t, name_size)" by (cases key)
    show ?case
      unfolding key prod.case Let_def rbind_if rbind_simps rbind_assoc
    proof (intro runs_alloc, goal_cases)
      case 1
      with pairs_error_owned show ?case by simp
    next
      case (2 kb)
      show ?case unfolding if_not_P [OF 2]
      proof (intro runs_sure [OF buf_read_no_error] runs_sure [OF read_pair_no_error(2)] runs_alloc, goal_cases)
        case (1 name vs)
        have "runs (own_bind (sqfs_free (Some kb)) (\<lambda>_. pairs_error acc result block_buf))
            ({#kb#} + (mset (pair_list acc) + ({#result#} + {#block_buf#}))) (Inl (Err SQFS_ERR_NO_MEMORY))
            (filled_rel ({#result#} + {#block_buf#}))"
          by (rule runs_free_one [OF pairs_error_owned])
        with 1 show ?case by (simp add: ac_simps)
      next
        case (2 name vs vb)
        show ?case unfolding if_not_P [OF 2(3)] rbind_assoc
        proof (rule runs_sure [OF buf_read_no_error], goal_cases)
          case (1 val)
          let ?x = "\<lparr>x_key = (case sqfs_xattr_prefix_str (fst (sqfs_xattr_parse_type t)) of None \<Rightarrow> []
              | Some s \<Rightarrow> take (sqfs_xattr_prefix_len (fst (sqfs_xattr_parse_type t))) s) @ name @ [0],
            x_value = val, x_value_size = unat vs\<rparr>"
          from Suc.IH [of "pos + 4 + unat name_size + 4 + unat vs" "acc @ [(?x, kb, vb)]"]
          moreover have "mset (pair_list acc) + ({#result#} + {#block_buf#}) + {#kb#} + {#vb#}
              = mset (pair_list (acc @ [(?x, kb, vb)])) + ({#result#} + {#block_buf#})"
            by (simp add: add_mset_commute)
          ultimately show ?case by (simp only: rbind_simps rbind_assoc map_append append_assoc list.map append_Cons append_Nil fst_conv)
        qed
      qed
    qed
  qed
qed

definition read_xattr_pairs_mem :: "allocator \<Rightarrow> sqfs_ctx \<Rightarrow> u64 \<Rightarrow> (sqfs_error, pairs_obj) own" where
  "read_xattr_pairs_mem mem ctx ref =
     (case ctx_xattr_table ctx of
        None \<Rightarrow> own_lift (Inl (Fault Null_Deref))
      | Some table \<Rightarrow>
          own_alloc (sqfs_malloc mem SQFS_META_BLOCK_SIZE) (own_lift (Inl (Err SQFS_ERR_NO_MEMORY))) (\<lambda>block_buf.
            own_try (read_metadata_block_internal_mem mem ctx (xt_table_start table + sqfs_meta_block_pos ref)) (\<lambda>ret.
              case ret of
                Inl e \<Rightarrow> own_bind (sqfs_free (Some block_buf)) (\<lambda>_. own_lift (Inl (Err e)))
              | Inr b \<Rightarrow>
                  let off = unat (sqfs_meta_block_offset ref);
                      remaining = unat (of_nat (length b) - of_nat off :: u64)
                  in own_try (own_lift (count_pairs b off remaining 0 0)) (\<lambda>ret.
                    case ret of
                      Inl e \<Rightarrow> own_bind (sqfs_free (Some block_buf)) (\<lambda>_. own_lift (Inl (Err e)))
                    | Inr pair_count \<Rightarrow>
                        if pair_count = 0 then
                          own_bind (sqfs_free (Some block_buf)) (\<lambda>_. own_lift (Inr \<lparr>po_pairs = [], po_array = None\<rparr>))
                        else own_alloc (sqfs_calloc mem pair_count SIZEOF_xattr)
                          (own_bind (sqfs_free (Some block_buf)) (\<lambda>_. own_lift (Inl (Err SQFS_ERR_NO_MEMORY)))) (\<lambda>result.
                          own_bind (fill_pairs_mem mem b off remaining result block_buf 0 pair_count []) (\<lambda>ps.
                            own_bind (sqfs_free (Some block_buf)) (\<lambda>_.
                              own_lift (Inr \<lparr>po_pairs = ps, po_array = Some result\<rparr>))))))))"

lemma read_xattr_pairs_owned: "runs (read_xattr_pairs_mem mem ctx ref) {#} (read_xattr_pairs mem ctx ref) pairs_rel"
proof (cases "ctx_xattr_table ctx")
  case None
  then show ?thesis by (simp add: read_xattr_pairs_mem_def read_xattr_pairs_def)
next
  case (Some table)
  show ?thesis
    unfolding read_xattr_pairs_mem_def read_xattr_pairs_def Some option.case
  proof (rule runs_alloc_first, goal_cases)
    case (2 buf)
    show ?case unfolding if_not_P [OF 2]
    proof (rule runs_call [OF metadata_block_owned], goal_cases)
      case (1 b v P)
      then have vP: "v = b" "P = {#}" by auto
      let ?off = "unat (sqfs_meta_block_offset ref)"
      let ?rem = "unat (of_nat (length b) - of_nat ?off :: u64)"
      show ?case unfolding vP sum.case Let_def
      proof (simp only: empty_neutral, rule runs_temporary, goal_cases)
        case (1 n)
        show ?case unfolding sum.case
        proof (intro runs_if runs_free_end runs_return, goal_cases)
          case 1
          show ?case by (simp add: pairs_rel_def)
        next
          case 2
          show ?case
          proof (rule runs_alloc, goal_cases)
            case 1
            then show ?case by (simp add: runs_free_end)
          next
            case (2 arr)
            have "runs (own_bind (fill_pairs_mem mem b ?off ?rem arr buf 0 n []) (\<lambda>ps.
                own_bind (sqfs_free (Some buf)) (\<lambda>_. own_lift (Inr \<lparr>po_pairs = ps, po_array = Some arr\<rparr>))))
              (mset (pair_list []) + ({#arr#} + {#buf#})) (rbind (rbind (fill_pairs mem b ?off ?rem 0 n) (\<lambda>rest. Inr (map fst ([] :: (sqfs_xattr \<times> nat \<times> nat) list) @ rest))) Inr) pairs_rel"
            proof (rule runs_bind [OF fill_pairs_owned], goal_cases)
              case (1 ps v P)
              have "runs (own_bind (sqfs_free (Some buf)) (\<lambda>_. own_lift (Inr \<lparr>po_pairs = ps, po_array = Some arr\<rparr>)))
                  ({#buf#} + (mset (pair_list ps) + {#arr#})) (Inr v) pairs_rel"
                by (intro runs_free_one runs_return) (use 1 in \<open>simp add: pairs_rel_def filled_rel_def\<close>)
              with 1(2) show ?case by (simp add: filled_rel_def add_mset_commute)
            qed
            moreover have "rbind (rbind r (\<lambda>rest. Inr (map fst ([] :: (sqfs_xattr \<times> nat \<times> nat) list) @ rest))) Inr = r" for r :: "sqfs_xattr list res"
              by (cases r) simp_all
            ultimately show ?case using 2 by (simp add: add_mset_commute)
          qed
        qed
      next
        case (2 e)
        show ?case by (simp add: runs_free_end)
      qed
    next
      case (2 e)
      show ?case by (simp add: runs_free_end)
    qed
  qed simp
qed

definition free_xattr_pairs :: "pairs_obj \<Rightarrow> ('e, unit) own" where
  "free_xattr_pairs p = (case po_array p of
       None \<Rightarrow> own_lift (Inr ())
     | Some a \<Rightarrow> own_bind (free_each (pair_list (po_pairs p))) (\<lambda>_. sqfs_free (Some a)))"

lemma free_pairs_owned:
  assumes "pairs_rel p v P" and "runs (f ()) {#} r R"
  shows "runs (own_bind (free_xattr_pairs p) f) P r R"
proof (cases "po_array p")
  case None
  with assms show ?thesis by (simp add: free_xattr_pairs_def pairs_rel_def)
next
  case (Some a)
  have "runs (own_bind (free_each (pair_list (po_pairs p))) (\<lambda>_. own_bind (sqfs_free (Some a)) f))
      (mset (pair_list (po_pairs p)) + {#a#}) r R"
    by (intro runs_free_each) (use runs_free_one [of f, OF assms(2)] in simp)
  with Some assms(1) show ?thesis by (simp add: free_xattr_pairs_def own_bind_assoc pairs_rel_def)
qed

section \<open>Attributes\<close>

text \<open>The value or the size of one attribute; the pairs are released after the search.\<close>

definition sqfs_xattr_get_mem ::
  "allocator \<Rightarrow> sqfs_ctx \<Rightarrow> u32 \<Rightarrow> byte list \<Rightarrow> nat option \<Rightarrow> (sqfs_error, byte list \<times> nat) own" where
  "sqfs_xattr_get_mem mem ctx xattr_idx name buf =
     (case ctx_xattr_table ctx of
        None \<Rightarrow> own_lift (Inl (Err SQFS_ERR_NOT_FOUND))
      | Some table \<Rightarrow>
          if \<not> xt_loaded table then own_lift (Inl (Err SQFS_ERR_NOT_FOUND))
          else if xattr_idx = SQFS_XATTR_INVALID_IDX then own_lift (Inl (Err SQFS_ERR_NOT_FOUND))
          else if xt_count table \<le> ucast xattr_idx then own_lift (Inl (Err SQFS_ERR_BAD_XATTR))
          else case xt_entries table of
              None \<Rightarrow> own_lift (Inl (Fault Null_Deref))
            | Some es \<Rightarrow>
                if length es \<le> unat xattr_idx then own_lift (Inl (Fault OOB_Read))
                else own_bind (read_xattr_pairs_mem mem ctx (xe_xattr_ref (es ! unat xattr_idx))) (\<lambda>pairs.
                  let found = (case find_xattr (map fst (po_pairs pairs)) name of
                      None \<Rightarrow> Inl (Err SQFS_ERR_NOT_FOUND)
                    | Some x \<Rightarrow>
                        (case buf of
                           None \<Rightarrow> Inr ([], x_value_size x)
                         | Some sz \<Rightarrow>
                             if sz < x_value_size x then Inl (Err SQFS_ERR_OVERFLOW)
                             else Inr (x_value x, x_value_size x)))
                  in own_bind (free_xattr_pairs pairs) (\<lambda>_. own_lift found)))"

definition sqfs_xattr_list_mem ::
  "allocator \<Rightarrow> sqfs_ctx \<Rightarrow> u32 \<Rightarrow> nat option \<Rightarrow> (sqfs_error, byte list \<times> nat) own" where
  "sqfs_xattr_list_mem mem ctx xattr_idx buf =
     (case ctx_xattr_table ctx of
        None \<Rightarrow> own_lift (Inl (Err SQFS_ERR_NOT_FOUND))
      | Some table \<Rightarrow>
          if \<not> xt_loaded table then own_lift (Inl (Err SQFS_ERR_NOT_FOUND))
          else if xattr_idx = SQFS_XATTR_INVALID_IDX then own_lift (Inr ([], 0))
          else if xt_count table \<le> ucast xattr_idx then own_lift (Inl (Err SQFS_ERR_BAD_XATTR))
          else case xt_entries table of
              None \<Rightarrow> own_lift (Inl (Fault Null_Deref))
            | Some es \<Rightarrow>
                if length es \<le> unat xattr_idx then own_lift (Inl (Fault OOB_Read))
                else own_bind (read_xattr_pairs_mem mem ctx (xe_xattr_ref (es ! unat xattr_idx))) (\<lambda>pairs.
                  let names = names_of (map fst (po_pairs pairs)); total_size = length names in
                  case buf of
                    None \<Rightarrow> own_bind (free_xattr_pairs pairs) (\<lambda>_. own_lift (Inr ([], total_size)))
                  | Some sz \<Rightarrow>
                      if sz < total_size
                      then own_bind (free_xattr_pairs pairs) (\<lambda>_. own_lift (Inl (Err SQFS_ERR_OVERFLOW)))
                      else own_bind (free_xattr_pairs pairs) (\<lambda>_. own_lift (Inr (names, total_size)))))"

text \<open>The result with the size it comes with.\<close>

definition sized :: "'a res \<times> nat \<Rightarrow> ('a \<times> nat) res" where
  "sized p = rbind (fst p) (\<lambda>b. Inr (b, snd p))"

lemma sized_simps [simp]: "sized (Inl e, n) = Inl e" "sized (Inr b, n) = Inr (b, n)"
  by (simp_all add: sized_def)

lemma runs_pairs_then:
  assumes "\<And>pairs. runs (own_lift (f pairs)) {#} (g pairs) plain"
  shows "runs (own_bind (read_xattr_pairs_mem mem ctx ref) (\<lambda>p.
      own_bind (free_xattr_pairs p) (\<lambda>_. own_lift (f (map fst (po_pairs p)))))) {#}
    (rbind (read_xattr_pairs mem ctx ref) g) plain"
proof (rule runs_bind [OF read_xattr_pairs_owned], goal_cases)
  case (1 p v P)
  then have "map fst (po_pairs p) = v" by (simp add: pairs_rel_def)
  with assms [of v] show ?case by (intro free_pairs_owned [OF 1(2)]) simp
qed

lemma xattr_get_owned:
  "runs (sqfs_xattr_get_mem mem ctx idx name buf) {#} (sized (sqfs_xattr_get mem ctx idx name buf)) plain"
proof -
  let ?f = "\<lambda>pairs. case find_xattr pairs name of
      None \<Rightarrow> Inl (Err SQFS_ERR_NOT_FOUND)
    | Some x \<Rightarrow> (case buf of
        None \<Rightarrow> Inr ([], x_value_size x)
      | Some sz \<Rightarrow> if sz < x_value_size x then Inl (Err SQFS_ERR_OVERFLOW) else Inr (x_value x, x_value_size x))"
  have "runs (own_bind (read_xattr_pairs_mem mem ctx ref) (\<lambda>p.
      own_bind (free_xattr_pairs p) (\<lambda>_. own_lift (?f (map fst (po_pairs p)))))) {#}
    (rbind (read_xattr_pairs mem ctx ref) ?f) plain" for ref
    by (rule runs_pairs_then) simp
  moreover have "sized (case read_xattr_pairs mem ctx ref of
        Inl e \<Rightarrow> (Inl e, 0)
      | Inr pairs \<Rightarrow>
          (case find_xattr pairs name of
             None \<Rightarrow> (Inl (Err SQFS_ERR_NOT_FOUND), 0)
           | Some x \<Rightarrow>
               (case buf of
                  None \<Rightarrow> (Inr [], x_value_size x)
                | Some sz \<Rightarrow>
                    if sz < x_value_size x then (Inl (Err SQFS_ERR_OVERFLOW), x_value_size x)
                    else (Inr (x_value x), x_value_size x)))) = rbind (read_xattr_pairs mem ctx ref) ?f" for ref
    by (simp split: sum.split option.split)
  ultimately show ?thesis
    unfolding sqfs_xattr_get_mem_def sqfs_xattr_get_def Let_def
    by (cases "ctx_xattr_table ctx"; cases "xt_entries (the (ctx_xattr_table ctx))") simp_all
qed

lemma xattr_list_owned:
  "runs (sqfs_xattr_list_mem mem ctx idx buf) {#} (sized (sqfs_xattr_list mem ctx idx buf)) plain"
proof -
  let ?f = "\<lambda>pairs. case buf of
      None \<Rightarrow> Inr ([], length (names_of pairs))
    | Some sz \<Rightarrow> if sz < length (names_of pairs) then Inl (Err SQFS_ERR_OVERFLOW)
        else Inr (names_of pairs, length (names_of pairs))"
  have "runs (own_bind (read_xattr_pairs_mem mem ctx ref) (\<lambda>p.
      own_bind (free_xattr_pairs p) (\<lambda>_. own_lift (?f (map fst (po_pairs p)))))) {#}
    (rbind (read_xattr_pairs mem ctx ref) ?f) plain" for ref
    by (rule runs_pairs_then) simp
  moreover have "(let names = names_of v; total_size = length names in
      case buf of
        None \<Rightarrow> own_bind (free_xattr_pairs p) (\<lambda>_. own_lift (Inr ([], total_size)))
      | Some sz \<Rightarrow>
          if sz < total_size
          then own_bind (free_xattr_pairs p) (\<lambda>_. own_lift (Inl (Err SQFS_ERR_OVERFLOW)))
          else own_bind (free_xattr_pairs p) (\<lambda>_. own_lift (Inr (names, total_size))))
      = own_bind (free_xattr_pairs p) (\<lambda>_. own_lift (?f v))" for p v
    by (simp add: Let_def split: option.split)
  moreover have "sized (case read_xattr_pairs mem ctx ref of
        Inl e \<Rightarrow> (Inl e, 0)
      | Inr pairs \<Rightarrow>
          let total_size = length (names_of pairs) in
          (case buf of
             None \<Rightarrow> (Inr [], total_size)
           | Some sz \<Rightarrow>
               if sz < total_size then (Inl (Err SQFS_ERR_OVERFLOW), total_size)
               else (Inr (names_of pairs), total_size))) = rbind (read_xattr_pairs mem ctx ref) ?f" for ref
    by (simp add: Let_def split: sum.split option.split)
  ultimately show ?thesis
    unfolding sqfs_xattr_list_mem_def sqfs_xattr_list_def
    by (cases "ctx_xattr_table ctx"; cases "xt_entries (the (ctx_xattr_table ctx))") simp_all
qed

definition sqfs_vfs_getxattr_mem ::
  "allocator \<Rightarrow> sqfs_ctx \<Rightarrow> byte list \<Rightarrow> byte list \<Rightarrow> nat option \<Rightarrow> (errno, byte list \<times> nat) own" where
  "sqfs_vfs_getxattr_mem mem ctx path name buf =
     (if \<not> has_xattrs (ctx_sb ctx) then own_lift (Inl (Err SQFS_VFS_ERR_NOSUP))
      else own_bind (sqfs_vfs_resolve_path_mem mem ctx path) (\<lambda>x.
        let xattr_idx = get_xattr_idx_from_inode (io_inode x)
        in own_bind (sqfs_inode_free_mem x) (\<lambda>_.
          if xattr_idx = 0xFFFFFFFF then own_lift (Inl (Err SQFS_VFS_ERR_NODATA))
          else own_try (sqfs_xattr_get_mem mem ctx xattr_idx name buf) (\<lambda>ret.
            own_lift (map_sum (\<lambda>e. Err (vfs_code e)) (\<lambda>p. p) ret)))))"

definition sqfs_vfs_listxattr_mem ::
  "allocator \<Rightarrow> sqfs_ctx \<Rightarrow> byte list \<Rightarrow> nat option \<Rightarrow> (errno, byte list \<times> nat) own" where
  "sqfs_vfs_listxattr_mem mem ctx path buf =
     (if \<not> has_xattrs (ctx_sb ctx) then own_lift (Inl (Err SQFS_VFS_ERR_NOSUP))
      else own_bind (sqfs_vfs_resolve_path_mem mem ctx path) (\<lambda>x.
        let xattr_idx = get_xattr_idx_from_inode (io_inode x)
        in own_bind (sqfs_inode_free_mem x) (\<lambda>_.
          if xattr_idx = 0xFFFFFFFF then own_lift (Inr ([], 0))
          else own_try (sqfs_xattr_list_mem mem ctx xattr_idx buf) (\<lambda>ret.
            own_lift (map_sum (\<lambda>e. Err (vfs_code e)) (\<lambda>p. p) ret)))))"

lemma vfs_result_owned:
  assumes "runs m {#} (sized q) plain"
  shows "runs (own_try m (\<lambda>ret. own_lift (map_sum (\<lambda>e. Err (vfs_code e)) (\<lambda>p. p) ret))) {#}
    (case q of (r, n) \<Rightarrow> rbind (to_vfs r) (\<lambda>b. Inr (b, n))) plain"
  by (cases q, rule runs_around [OF assms]) (auto simp: sized_def rbind_eq_Inr_iff rbind_eq_Inl_iff)

lemma getxattr_owned:
  assumes high: "high_addresses mem"
  shows "runs (sqfs_vfs_getxattr_mem mem ctx path name buf) {#} (sqfs_vfs_getxattr mem ctx path name buf) plain"
  unfolding sqfs_vfs_getxattr_mem_def sqfs_vfs_getxattr_def
proof (intro runs_if runs_fail, rule runs_bind [OF resolve_path_owned [OF high]], goal_cases)
  case (1 x i P)
  have x: "io_inode x = i" using 1(3) by (simp add: inode_rel_def)
  let ?m = "if get_xattr_idx_from_inode i = 0xFFFFFFFF then own_lift (Inl (Err SQFS_VFS_ERR_NODATA))
    else own_try (sqfs_xattr_get_mem mem ctx (get_xattr_idx_from_inode i) name buf) (\<lambda>ret.
      own_lift (map_sum (\<lambda>e. Err (vfs_code e)) (\<lambda>p. p) ret))"
  have "runs ?m {#} (if get_xattr_idx_from_inode i = 0xFFFFFFFF then Inl (Err SQFS_VFS_ERR_NODATA)
    else case sqfs_xattr_get mem ctx (get_xattr_idx_from_inode i) name buf of
      (r, out_size) \<Rightarrow> rbind (to_vfs r) (\<lambda>b. Inr (b, out_size))) plain"
    by (intro runs_if runs_fail vfs_result_owned xattr_get_owned)
  from runs_free_inode [of x i P mem "\<lambda>_. ?m", OF 1(3) resolve_typed [OF 1(2)] high this] show ?case
    by (simp add: x Let_def)
qed

lemma listxattr_owned:
  assumes high: "high_addresses mem"
  shows "runs (sqfs_vfs_listxattr_mem mem ctx path buf) {#} (sqfs_vfs_listxattr mem ctx path buf) plain"
  unfolding sqfs_vfs_listxattr_mem_def sqfs_vfs_listxattr_def
proof (intro runs_if runs_fail, rule runs_bind [OF resolve_path_owned [OF high]], goal_cases)
  case (1 x i P)
  have x: "io_inode x = i" using 1(3) by (simp add: inode_rel_def)
  let ?m = "if get_xattr_idx_from_inode i = 0xFFFFFFFF then own_lift (Inr ([], 0))
    else own_try (sqfs_xattr_list_mem mem ctx (get_xattr_idx_from_inode i) buf) (\<lambda>ret.
      own_lift (map_sum (\<lambda>e. Err (vfs_code e)) (\<lambda>p. p) ret))"
  have "runs ?m {#} (if get_xattr_idx_from_inode i = 0xFFFFFFFF then Inr ([], 0)
    else case sqfs_xattr_list mem ctx (get_xattr_idx_from_inode i) buf of
      (r, out_size) \<Rightarrow> rbind (to_vfs r) (\<lambda>b. Inr (b, out_size))) plain"
    by (intro runs_if runs_plain_lift vfs_result_owned xattr_list_owned)
  from runs_free_inode [of x i P mem "\<lambda>_. ?m", OF 1(3) resolve_typed [OF 1(2)] high this] show ?case
    by (simp add: x Let_def)
qed

end
