(* ===== verification/Ledger.thy ===== *)
theory Ledger
  imports OwnershipXattr
begin

text \<open>
  The account of a mount: any number of callbacks one after the other, on one arena. Reading from an open
  file is not among them: it allocates for the data cache, whose account is kept in \<open>CacheStore\<close>.
\<close>

record ledger =
  ld_arena :: arena
  ld_open :: "handle_obj list"

definition ledger_start :: ledger where
  "ledger_start = \<lparr>ld_arena = empty_arena, ld_open = []\<rparr>"

text \<open>One callback. The context is any, as reads in between change its caches.\<close>

inductive ledger_step :: "allocator \<Rightarrow> ledger \<Rightarrow> ledger \<Rightarrow> bool" for mem where
  getattr: "sqfs_fuse_getattr_mem mem ctx path (ld_arena l) = (r, h) \<Longrightarrow> safe r \<Longrightarrow> ledger_step mem l (l\<lparr>ld_arena := h\<rparr>)"
| readdir: "sqfs_fuse_readdir_mem mem ctx path (ld_arena l) = (r, h) \<Longrightarrow> safe r \<Longrightarrow> ledger_step mem l (l\<lparr>ld_arena := h\<rparr>)"
| readlink: "sqfs_vfs_readlink_mem mem ctx path sz (ld_arena l) = (r, h) \<Longrightarrow> safe r \<Longrightarrow> ledger_step mem l (l\<lparr>ld_arena := h\<rparr>)"
| getxattr: "sqfs_vfs_getxattr_mem mem ctx path name buf (ld_arena l) = (r, h) \<Longrightarrow> safe r \<Longrightarrow> ledger_step mem l (l\<lparr>ld_arena := h\<rparr>)"
| listxattr: "sqfs_vfs_listxattr_mem mem ctx path buf (ld_arena l) = (r, h) \<Longrightarrow> safe r \<Longrightarrow> ledger_step mem l (l\<lparr>ld_arena := h\<rparr>)"
| open_file: "sqfs_vfs_open_mem mem ctx path (ld_arena l) = (Inr x, h) \<Longrightarrow>
    ledger_step mem l \<lparr>ld_arena = h, ld_open = x # ld_open l\<rparr>"
| open_error: "sqfs_vfs_open_mem mem ctx path (ld_arena l) = (Inl (Err e), h) \<Longrightarrow> ledger_step mem l (l\<lparr>ld_arena := h\<rparr>)"
| release: "ld_open l = xs @ x # ys \<Longrightarrow> sqfs_vfs_release_mem x (ld_arena l) = (Inr (), h) \<Longrightarrow>
    ledger_step mem l \<lparr>ld_arena = h, ld_open = xs @ ys\<rparr>"

inductive_cases ledger_stepE: "ledger_step mem l l'"

text \<open>Live is what the open files need: their handles, their inodes with all that hangs on them.\<close>

definition open_blocks :: "handle_obj list \<Rightarrow> nat multiset" where
  "open_blocks xs = sum_list (map handle_blocks xs)"

lemma open_blocks_simps [simp]:
  "open_blocks [] = {#}"
  "open_blocks (x # xs) = handle_blocks x + open_blocks xs"
  "open_blocks (xs @ ys) = open_blocks xs + open_blocks ys"
  by (simp_all add: open_blocks_def)

definition handle_value :: "handle_obj \<Rightarrow> sqfs_vfs_fh" where
  "handle_value x = \<lparr>fh_inode = Some (io_inode (ho_inode x)), fh_file_size = ho_file_size x\<rparr>"

definition handle_owned :: "allocator \<Rightarrow> handle_obj \<Rightarrow> bool" where
  "handle_owned mem x \<longleftrightarrow> handle_rel mem x (handle_value x) (handle_blocks x)"

text \<open>\<open>B\<close> are blocks of others.\<close>

definition ledger_ok :: "allocator \<Rightarrow> nat multiset \<Rightarrow> ledger \<Rightarrow> bool" where
  "ledger_ok mem B l \<longleftrightarrow> arena_ok (ld_arena l) \<and> ar_live (ld_arena l) = open_blocks (ld_open l) + B
     \<and> (\<forall>x \<in> set (ld_open l). handle_owned mem x)"

lemma handle_relD: "handle_rel mem x v P \<Longrightarrow> v = handle_value x \<and> P = handle_blocks x \<and> handle_owned mem x"
  by (auto simp: handle_rel_def handle_value_def handle_owned_def inode_rel_def)

text \<open>A callback that keeps nothing.\<close>

lemma plain_step:
  assumes "runs m {#} r plain" and "arena_ok h"
  shows "fst (m h) = r" and "safe (fst (m h)) \<Longrightarrow> arena_ok (snd (m h)) \<and> ar_live (snd (m h)) = ar_live h"
proof -
  have l: "ar_live h = {#} + ar_live h" by simp
  show "fst (m h) = r" by (rule runsD [OF assms l]) auto
  show "safe (fst (m h)) \<Longrightarrow> arena_ok (snd (m h)) \<and> ar_live (snd (m h)) = ar_live h"
    by (rule runsD [OF assms l]) auto
qed

lemma plain_ledger:
  assumes "runs m {#} r plain" and "ledger_ok mem B l" and "m (ld_arena l) = (r', h)" and "safe r'"
  shows "ledger_ok mem B (l\<lparr>ld_arena := h\<rparr>)"
  using plain_step(2) [OF assms(1), of "ld_arena l"] assms(2-4) by (simp add: ledger_ok_def)

lemma open_step:
  assumes ok: "ledger_ok mem B l" and high: "high_addresses mem"
  shows "fst (sqfs_vfs_open_mem mem ctx path (ld_arena l)) = Inl e \<Longrightarrow> sqfs_vfs_open mem ctx path = Inl e"
    and "sqfs_vfs_open_mem mem ctx path (ld_arena l) = (Inr x, h) \<Longrightarrow>
      sqfs_vfs_open mem ctx path = Inr (handle_value x) \<and> ledger_ok mem B \<lparr>ld_arena = h, ld_open = x # ld_open l\<rparr>"
    and "sqfs_vfs_open_mem mem ctx path (ld_arena l) = (Inl (Err k), h) \<Longrightarrow> ledger_ok mem B (l\<lparr>ld_arena := h\<rparr>)"
proof -
  from ok have a: "arena_ok (ld_arena l)" and l: "ar_live (ld_arena l) = {#} + (open_blocks (ld_open l) + B)"
    by (simp_all add: ledger_ok_def)
  note d = runsD [OF open_owned [OF high, of ctx path] a l]
  show "fst (sqfs_vfs_open_mem mem ctx path (ld_arena l)) = Inl e \<Longrightarrow> sqfs_vfs_open mem ctx path = Inl e"
    by (rule d) auto
  show "sqfs_vfs_open_mem mem ctx path (ld_arena l) = (Inr x, h) \<Longrightarrow>
      sqfs_vfs_open mem ctx path = Inr (handle_value x) \<and> ledger_ok mem B \<lparr>ld_arena = h, ld_open = x # ld_open l\<rparr>"
    by (rule d) (use ok in \<open>auto simp: ledger_ok_def ac_simps dest: handle_relD\<close>)
  show "sqfs_vfs_open_mem mem ctx path (ld_arena l) = (Inl (Err k), h) \<Longrightarrow> ledger_ok mem B (l\<lparr>ld_arena := h\<rparr>)"
    by (rule d) (use ok in \<open>auto simp: ledger_ok_def\<close>)
qed

lemma release_step:
  assumes ok: "ledger_ok mem B l" and high: "high_addresses mem" and x: "ld_open l = xs @ x # ys"
  shows "fst (sqfs_vfs_release_mem x (ld_arena l)) = sqfs_vfs_release (Some (handle_value x))"
    and "sqfs_vfs_release_mem x (ld_arena l) = (Inr (), h) \<Longrightarrow> ledger_ok mem B \<lparr>ld_arena = h, ld_open = xs @ ys\<rparr>"
proof -
  from ok have a: "arena_ok (ld_arena l)" and l: "ar_live (ld_arena l) = handle_blocks x + (open_blocks (xs @ ys) + B)"
    and r: "handle_rel mem x (handle_value x) (handle_blocks x)"
    by (simp_all add: ledger_ok_def x ac_simps handle_owned_def)
  note d = runsD [OF release_owned [OF r high] a l]
  show "fst (sqfs_vfs_release_mem x (ld_arena l)) = sqfs_vfs_release (Some (handle_value x))"
    by (rule d) auto
  show "sqfs_vfs_release_mem x (ld_arena l) = (Inr (), h) \<Longrightarrow> ledger_ok mem B \<lparr>ld_arena = h, ld_open = xs @ ys\<rparr>"
    by (rule d) (use ok in \<open>auto simp: ledger_ok_def x nothing_def\<close>)
qed

lemma ledger_step_ok:
  assumes "ledger_step mem l l'" and "ledger_ok mem B l" and high: "high_addresses mem"
  shows "ledger_ok mem B l'"
  using assms(1,2)
proof (cases rule: ledger_step.cases)
  case getattr
  then show ?thesis by (simp add: plain_ledger [OF fuse_getattr_owned [OF high] assms(2)])
next
  case readdir
  then show ?thesis by (simp add: plain_ledger [OF fuse_readdir_owned [OF high] assms(2)])
next
  case readlink
  then show ?thesis by (simp add: plain_ledger [OF readlink_owned [OF high] assms(2)])
next
  case getxattr
  then show ?thesis by (simp add: plain_ledger [OF getxattr_owned [OF high] assms(2)])
next
  case listxattr
  then show ?thesis by (simp add: plain_ledger [OF listxattr_owned [OF high] assms(2)])
next
  case open_file
  with open_step(2) [OF assms(2) high] show ?thesis by simp
next
  case open_error
  with open_step(3) [OF assms(2) high] show ?thesis by simp
next
  case release
  with release_step(2) [OF assms(2) high] show ?thesis by simp
qed

lemma ledger_run_ok:
  assumes "(ledger_step mem)\<^sup>*\<^sup>* l0 l" and "ledger_ok mem B l0" and "high_addresses mem"
  shows "ledger_ok mem B l"
  using assms(1)
proof induction
  case base
  show ?case by (rule assms(2))
next
  case (step l l')
  with ledger_step_ok assms(3) show ?case by blast
qed

section \<open>Properties\<close>

text \<open>C5: no callback leaks. However many times files are looked at, listed, opened and released, and
  whichever allocation, read or check fails on the way, the live blocks are at every moment exactly those of the
  open files (handle, inode, block sizes), each live once: nothing is lost, freed twice or freed while in use, and
  when no file is open nothing is live. And the callbacks with their releases give the same results as the
  definitions the other properties are about. (Pointers are taken to lie above 4 GiB, see \<open>high_addresses\<close>; a
  callback that faults ends the account.)\<close>

theorem operations_leak_nothing:
  assumes "(ledger_step mem)\<^sup>*\<^sup>* ledger_start l" and "high_addresses mem"
  shows "ar_live (ld_arena l) = open_blocks (ld_open l) \<and> (\<forall>b. count (ar_live (ld_arena l)) b \<le> 1)
    \<and> fst (sqfs_fuse_getattr_mem mem ctx path (ld_arena l)) = sqfs_fuse_getattr mem ctx path
    \<and> fst (sqfs_fuse_readdir_mem mem ctx path (ld_arena l)) = sqfs_fuse_readdir mem ctx path
    \<and> fst (sqfs_vfs_readlink_mem mem ctx path sz (ld_arena l)) = sqfs_vfs_readlink mem ctx path sz
    \<and> fst (sqfs_vfs_getxattr_mem mem ctx path name buf (ld_arena l)) = sqfs_vfs_getxattr mem ctx path name buf
    \<and> fst (sqfs_vfs_listxattr_mem mem ctx path buf (ld_arena l)) = sqfs_vfs_listxattr mem ctx path buf
    \<and> map_sum (\<lambda>e. e) handle_value (fst (sqfs_vfs_open_mem mem ctx path (ld_arena l))) = sqfs_vfs_open mem ctx path"
proof -
  have "ledger_ok mem {#} ledger_start" by (simp add: ledger_ok_def ledger_start_def)
  from ledger_run_ok [OF assms(1) this assms(2)] have ok: "ledger_ok mem {#} l" .
  then have a: "arena_ok (ld_arena l)" by (simp add: ledger_ok_def)
  note plain = plain_step(1) [OF _ a]
  obtain r h where o: "sqfs_vfs_open_mem mem ctx path (ld_arena l) = (r, h)" by fastforce
  have "map_sum (\<lambda>e. e) handle_value r = sqfs_vfs_open mem ctx path"
    using open_step(1,2) [OF ok assms(2), of ctx path] o by (cases r) auto
  with ok a o show ?thesis
    by (simp add: ledger_ok_def arena_ok_def plain [OF fuse_getattr_owned [OF assms(2)]]
        plain [OF fuse_readdir_owned [OF assms(2)]] plain [OF readlink_owned [OF assms(2)]]
        plain [OF getxattr_owned [OF assms(2)]] plain [OF listxattr_owned [OF assms(2)]])
qed

text \<open>An allocator above 4 GiB, and a file that is opened and released.\<close>

definition mem_high :: allocator where "mem_high n = 0x10000000000"

lemma mem_high_ok: "high_addresses mem_high" "\<forall>k. mem_high k \<noteq> 0"
proof -
  have "hi32 0x10000000000 = 0x100" by (simp add: hi32_def)
  then show "high_addresses mem_high" by (simp add: high_addresses_def mem_high_def)
qed (simp add: mem_high_def)

lemma fs_open_run:
  "\<exists>x h. ledger_step mem_high ledger_start \<lparr>ld_arena = h, ld_open = [x]\<rparr>"
proof -
  have "readable_image fs_ctx" by (simp add: readable_image_def fs_reliable)
  from open_image [OF _ this mem_high_ok(2), of fs_root "[97]"] fs_root_written
  have "\<exists>v. sqfs_vfs_open mem_high fs_ctx [47, 97] = Inr v"
    by (simp add: answer_def at_path_def fs_root_def path_components_def sqfs_inode_is_dir_def fn_type_def sqfs_fuse_open_def
        spec_handle_def spec_open_def root_di_def file_di_def sqfs_inode_is_file_def)
  then obtain v where v: "sqfs_vfs_open mem_high fs_ctx [47, 97] = Inr v" ..
  have l: "ar_live (ld_arena ledger_start) = {#} + {#}" "arena_ok (ld_arena ledger_start)"
    by (simp_all add: ledger_start_def)
  obtain x h where "sqfs_vfs_open_mem mem_high fs_ctx [47, 97] (ld_arena ledger_start) = (Inr x, h)"
    by (rule runsD [OF open_owned [OF mem_high_ok(1), of fs_ctx "[47, 97]"] l(2,1)]) (use v in auto)
  from ledger_step.open_file [OF this] show ?thesis by (auto simp: ledger_start_def)
qed

theorem operations_leak_nothing_witness:
  "\<exists>l x. (ledger_step mem_high)\<^sup>*\<^sup>* ledger_start l \<and> ld_open l = [x] \<and> ar_live (ld_arena l) = handle_blocks x
     \<and> fst (sqfs_fuse_readdir_mem mem_high fs_ctx [47] (ld_arena l)) = sqfs_fuse_readdir mem_high fs_ctx [47]"
proof -
  from fs_open_run obtain x h where s: "ledger_step mem_high ledger_start \<lparr>ld_arena = h, ld_open = [x]\<rparr>" by blast
  then have run: "(ledger_step mem_high)\<^sup>*\<^sup>* ledger_start \<lparr>ld_arena = h, ld_open = [x]\<rparr>" by simp
  from operations_leak_nothing [OF this mem_high_ok(1), of fs_ctx "[47]" 0 "[]" None] run show ?thesis
    by (intro exI [of _ "\<lparr>ld_arena = h, ld_open = [x]\<rparr>"] exI [of _ x]) simp
qed

end
