(* ===== verification/OwnershipTables.thy ===== *)
theory OwnershipTables
  imports Ledger
begin

text \<open>
  The tables of a mount and its compressor on the arena: \<open>load_id_table\<close> of \<open>fuse/fuse_main.c\<close>, the loading and
  the release of the fragment table (\<open>core/fragment.c\<close>) and of the attribute table (\<open>core/xattr.c\<close>), the
  life of a compressor object (\<open>core/compressor.c\<close>).
\<close>

section \<open>Routines that change the context and return a code\<close>

text \<open>Their result on the arena is the code (a value, as the context is kept with it), the context and the
  block of the table.\<close>

type_synonym 'a table_own = "(sqfs_error, (sqfs_error + unit) \<times> 'a \<times> nat option) own"

definition op_value :: "unit res \<Rightarrow> 'a \<Rightarrow> sqfs_error failure + (sqfs_error + unit) \<times> 'a" where
  "op_value r c = (case r of
       Inl (Fault f) \<Rightarrow> Inl (Fault f)
     | Inl (Err e) \<Rightarrow> Inr (Inl e, c)
     | Inr x \<Rightarrow> Inr (Inr x, c))"

lemma op_value_simps [simp]:
  "op_value (Inl (Fault f)) c = Inl (Fault f)"
  "op_value (Inl (Err e)) c = Inr (Inl e, c)"
  "op_value (Inr x) c = Inr (Inr x, c)"
  by (simp_all add: op_value_def)

text \<open>A block that is freed whatever becomes of the work on it.\<close>

definition until_free :: "nat \<Rightarrow> ('e, 'a) own \<Rightarrow> ('e, 'a) own" where
  "until_free b m = own_try m (\<lambda>ret. own_bind (sqfs_free (Some b)) (\<lambda>_.
     own_lift (case ret of Inl e \<Rightarrow> Inl (Err e) | Inr x \<Rightarrow> Inr x)))"

lemma runs_until_free:
  assumes "runs m {#} r R"
  shows "runs (until_free b m) {#b#} r R"
  unfolding until_free_def
proof (rule runs_around [OF assms])
  fix x v P assume "r = Inr v" "R x v P"
  then show "runs (own_bind (sqfs_free (Some b)) (\<lambda>_. own_lift (case Inr x of Inl e \<Rightarrow> Inl (Err e) | Inr x \<Rightarrow> Inr x))) (P + {#b#}) r R"
    using runs_free_one [OF runs_return [of R x v P], of b] by (simp add: add.commute)
qed (simp_all add: runs_free_end)

text \<open>The ends of a routine: blocks are freed, the rest is handed on.\<close>

lemma runs_free_each_return:
  assumes "R x v N" and "M = mset bs + N"
  shows "runs (own_bind (free_each bs) (\<lambda>_. own_lift (Inr x))) M (Inr v) R"
  unfolding assms(2) using assms(1) by (intro runs_free_each runs_return)

lemma runs_free_first:
  assumes "runs (f ()) N r R" and "M = add_mset b N"
  shows "runs (own_bind (sqfs_free (Some b)) f) M r R"
  using runs_free_one [of f N r R b] assms by simp

lemma runs_free_return:
  assumes "R x v N" and "M = add_mset b N"
  shows "runs (own_bind (sqfs_free (Some b)) (\<lambda>_. own_lift (Inr x))) M (Inr v) R"
  using runs_free_one [OF runs_return [of R, OF assms(1)], of b] assms(2) by simp

section \<open>The table of ids\<close>

definition load_id_table_mem :: "allocator \<Rightarrow> sqfs_ctx \<Rightarrow> sqfs_ctx table_own" where
  "load_id_table_mem mem ctx =
     (let id_table_pos = id_table (disk (ctx_sb ctx)); n = unat (id_count (disk (ctx_sb ctx))) in
      if n = 0 then own_lift (Inr (Inr (), ctx\<lparr>ctx_id_table := None, ctx_id_count := 0\<rparr>, None))
      else own_alloc (sqfs_malloc mem (n * 8)) (own_lift (Inr (Inl SQFS_ERR_NO_MEMORY, ctx, None))) (\<lambda>id_pos_table.
        own_try (own_lift (sqfs_pread_all (sb_fd (ctx_sb ctx)) (n * 8) id_table_pos)) (\<lambda>ret.
          case ret of
            Inl e \<Rightarrow> own_bind (sqfs_free (Some id_pos_table)) (\<lambda>_. own_lift (Inr (Inl e, ctx, None)))
          | Inr pos_table \<Rightarrow>
              own_alloc (sqfs_malloc mem (n * 4))
                (own_bind (sqfs_free (Some id_pos_table)) (\<lambda>_.
                  own_lift (Inr (Inl SQFS_ERR_NO_MEMORY, ctx\<lparr>ctx_id_table := None\<rparr>, None)))) (\<lambda>ids.
              let ctx = ctx\<lparr>ctx_id_count := n\<rparr> in
              own_alloc (sqfs_malloc mem SQFS_META_BLOCK_SIZE)
                (own_bind (free_each [id_pos_table, ids]) (\<lambda>_.
                  own_lift (Inr (Inl SQFS_ERR_NO_MEMORY, ctx\<lparr>ctx_id_table := None\<rparr>, None)))) (\<lambda>meta_block.
              own_try (own_bind (own_lift (get_le64 pos_table 0)) (\<lambda>first_block_pos.
                  own_bind (sqfs_meta_read_block_mem mem (sb_fd (ctx_sb ctx)) first_block_pos (ctx_comp ctx)) (\<lambda>b.
                    own_lift (get_u32s b 0 (if n * 4 < length b then n else length b div 4))))) (\<lambda>ret.
                case ret of
                  Inl e \<Rightarrow> own_bind (free_each [meta_block, id_pos_table, ids]) (\<lambda>_.
                    own_lift (Inr (Inl e, ctx\<lparr>ctx_id_table := None\<rparr>, None)))
                | Inr xs \<Rightarrow> own_bind (free_each [meta_block, id_pos_table]) (\<lambda>_.
                    own_lift (Inr (Inr (), ctx\<lparr>ctx_id_table := Some xs\<rparr>, Some ids)))))))))"

text \<open>A table has a block when it is there.\<close>

definition table_rel ::
  "('c \<Rightarrow> bool) \<Rightarrow> (sqfs_error + unit) \<times> 'c \<times> nat option \<Rightarrow> (sqfs_error + unit) \<times> 'c \<Rightarrow> nat multiset \<Rightarrow> bool" where
  "table_rel there x v P \<longleftrightarrow> (case x of (r, c, b) \<Rightarrow> v = (r, c) \<and> P = opt_block b \<and> (b \<noteq> None \<longleftrightarrow> there c))"

definition has_ids :: "sqfs_ctx \<Rightarrow> bool" where "has_ids ctx \<longleftrightarrow> ctx_id_table ctx \<noteq> None"

lemma load_id_table_owned:
  assumes E: "load_id_table mem ctx = Some (r, ctx')" and none: "ctx_id_table ctx = None"
  shows "runs (load_id_table_mem mem ctx) {#} (op_value r ctx') (table_rel has_ids)"
proof (cases "id_count (disk (ctx_sb ctx)) = 0")
  case True
  with E show ?thesis
    by (auto simp: load_id_table_def load_id_table_mem_def table_rel_def has_ids_def intro!: runs_return)
next
  case False
  let ?n = "unat (id_count (disk (ctx_sb ctx)))" and ?fd = "sb_fd (ctx_sb ctx)"
  let ?rest = "\<lambda>pos_table. rbind (get_le64 pos_table 0) (\<lambda>first_block_pos.
     rbind (sqfs_meta_read_block mem ?fd first_block_pos (ctx_comp ctx)) (\<lambda>b.
       get_u32s b 0 (if ?n * 4 < length b then ?n else length b div 4)))"
  from False have n: "?n \<noteq> 0" by (simp add: unat_eq_zero)
  have rest: "runs (own_bind (own_lift (get_le64 pos_table 0)) (\<lambda>first_block_pos.
     own_bind (sqfs_meta_read_block_mem mem ?fd first_block_pos (ctx_comp ctx)) (\<lambda>b.
       own_lift (get_u32s b 0 (if ?n * 4 < length b then ?n else length b div 4))))) {#} (?rest pos_table) plain" for pos_table
    by (intro runs_plain_bind runs_bind [OF meta_read_block_owned]) auto
  note E = E [unfolded load_id_table_def Let_def if_not_P [OF n]]
  note leaf = table_rel_def has_ids_def none
  show ?thesis
    unfolding load_id_table_mem_def Let_def if_not_P [OF n]
  proof (rule runs_alloc_first, goal_cases)
    case 1
    with E have v: "op_value r ctx' = Inr (Inl SQFS_ERR_NO_MEMORY, ctx)" by auto
    show ?case unfolding v by (rule runs_return) (simp add: leaf)
  next
    case (2 id_pos)
    note E1 = E [unfolded if_not_P [OF 2]]
    show ?case
    proof (rule runs_around [OF runs_plain_lift], goal_cases)
      case (1 x v P)
      then have [simp]: "x = v" "P = {#}" by auto
      note E2 = E1 [unfolded 1(1) sum.case]
      show ?case unfolding sum.case \<open>x = v\<close> \<open>P = {#}\<close> add_0
      proof (rule runs_alloc, goal_cases)
        case 1
        with E2 have v: "op_value r ctx' = Inr (Inl SQFS_ERR_NO_MEMORY, ctx\<lparr>ctx_id_table := None\<rparr>)" by auto
        show ?case unfolding v by (rule runs_free_return) (simp_all add: leaf)
      next
        case (2 ids)
        note E3 = E2 [unfolded if_not_P [OF 2]]
        show ?case
        proof (rule runs_alloc, goal_cases)
          case 1
          with E3 have v: "op_value r ctx' = Inr (Inl SQFS_ERR_NO_MEMORY, ctx\<lparr>ctx_id_count := ?n, ctx_id_table := None\<rparr>)"
            by auto
          show ?case unfolding v by (rule runs_free_each_return) (simp_all add: leaf)
        next
          case (2 meta_block)
          note E4 = E3 [unfolded if_not_P [OF 2]]
          show ?case
          proof (rule runs_around [where r = "?rest v" and R = plain], goal_cases)
            case 1
            show ?case using rest [of v] by simp
          next
            case (2 xs ys P)
            then have "xs = ys" "P = {#}" by auto
            from E4 2(1) have v: "op_value r ctx' = Inr (Inr (), ctx\<lparr>ctx_id_count := ?n, ctx_id_table := Some ys\<rparr>)"
              by auto
            show ?case unfolding v sum.case \<open>xs = ys\<close> \<open>P = {#}\<close>
              by (rule runs_free_each_return) (simp_all add: leaf)
          next
            case (3 e)
            from E4 3 have v: "op_value r ctx' = Inr (Inl e, ctx\<lparr>ctx_id_count := ?n, ctx_id_table := None\<rparr>)"
              by auto
            show ?case unfolding v sum.case by (rule runs_free_each_return) (simp_all add: leaf)
          next
            case (4 k)
            with E4 show ?case by auto
          qed
        qed
      qed
    next
      case (2 e)
      with E1 have v: "op_value r ctx' = Inr (Inl e, ctx)" by auto
      show ?case unfolding v sum.case by (rule runs_free_return) (simp_all add: leaf)
    next
      case (3 k)
      with E1 show ?case by auto
    qed
  qed
qed

section \<open>The fragment table\<close>

definition read_fragment_table_index_mem ::
  "allocator \<Rightarrow> os_file \<Rightarrow> u64 \<Rightarrow> u32 \<Rightarrow> (sqfs_error, (u64 list option \<times> u32) \<times> nat option) own" where
  "read_fragment_table_index_mem mem fd table_pos fcount =
     (if fcount = 0 then own_lift (Inr ((None, 0), None))
      else let num_blocks = (fcount + of_nat FRAGMENT_ENTRIES_PER_BLOCK - 1) div of_nat FRAGMENT_ENTRIES_PER_BLOCK;
               index_size = unat num_blocks * 8
           in own_alloc (sqfs_malloc mem index_size) (own_lift (Inl (Err SQFS_ERR_NO_MEMORY))) (\<lambda>index.
                own_try (own_lift (sqfs_pread_all fd index_size table_pos)) (\<lambda>ret.
                  case ret of
                    Inl e \<Rightarrow> own_bind (sqfs_free (Some index)) (\<lambda>_. own_lift (Inl (Err e)))
                  | Inr b \<Rightarrow> own_bind (own_lift (get_u64s b 0 (unat num_blocks))) (\<lambda>xs.
                      own_lift (Inr ((Some xs, num_blocks), Some index))))))"

definition index_rel ::
  "(u64 list option \<times> u32) \<times> nat option \<Rightarrow> u64 list option \<times> u32 \<Rightarrow> nat multiset \<Rightarrow> bool" where
  "index_rel x v P \<longleftrightarrow> fst x = v \<and> P = opt_block (snd x) \<and> (snd x = None \<longleftrightarrow> fst v = None)"

lemma get_u64s_no_error: "\<forall>e. get_u64s b off n \<noteq> Inl (Err e)"
  by (induction n arbitrary: off) (auto simp: rbind_eq_Inl_iff get_le_no_error)

lemma fragment_index_owned:
  "runs (read_fragment_table_index_mem mem fd pos fcount) {#} (read_fragment_table_index mem fd pos fcount) index_rel"
proof (cases "fcount = 0")
  case True
  then show ?thesis by (auto simp: read_fragment_table_index_mem_def read_fragment_table_index_def index_rel_def intro!: runs_return)
next
  case False
  show ?thesis
    unfolding read_fragment_table_index_mem_def read_fragment_table_index_def if_not_P [OF False] Let_def
    by (rule runs_alloc_first)
      (auto simp: index_rel_def intro!: runs_temporary runs_free_end runs_sure [OF get_u64s_no_error] runs_return)
qed

text \<open>The loop leaves its block buffer to the caller, which frees it on every way out.\<close>

fun load_entries_loop_mem ::
  "allocator \<Rightarrow> os_file \<Rightarrow> u64 list \<Rightarrow> nat \<Rightarrow> sqfs_compressor option \<Rightarrow> (sqfs_error, sqfs_frag_entry list) own" where
  "load_entries_loop_mem mem fd [] left cmp = own_lift (Inr (replicate left zero_frag_entry))"
| "load_entries_loop_mem mem fd (block_pos # index) left cmp =
     own_bind (sqfs_meta_read_block_mem mem fd block_pos cmp) (\<lambda>block_buf.
       let entries_in_block = (if FRAGMENT_ENTRIES_PER_BLOCK < left then FRAGMENT_ENTRIES_PER_BLOCK else left);
           copy_size = entries_in_block * SIZEOF_frag_entry
       in if length block_buf < copy_size then own_lift (Inl (Err SQFS_ERR_CORRUPT))
          else own_bind (own_lift (get_frag_entries block_buf 0 entries_in_block)) (\<lambda>es.
            own_bind (load_entries_loop_mem mem fd index (left - entries_in_block) cmp) (\<lambda>rest.
              own_lift (Inr (es @ rest)))))"

lemma load_entries_owned:
  "runs (load_entries_loop_mem mem fd index left cmp) {#} (load_entries_loop mem fd index left cmp) plain"
proof (induction index arbitrary: left)
  case (Cons block_pos index)
  show ?case
    unfolding load_entries_loop_mem.simps load_entries_loop.simps Let_def
  proof (rule runs_bind [OF meta_read_block_owned])
    fix x v :: "byte list" and P assume "plain x v P"
    then have "x = v" "P = {#}" by auto
    then show "runs (if length x < (if FRAGMENT_ENTRIES_PER_BLOCK < left then FRAGMENT_ENTRIES_PER_BLOCK else left) * SIZEOF_frag_entry
          then own_lift (Inl (Err SQFS_ERR_CORRUPT))
          else own_bind (own_lift (get_frag_entries x 0 (if FRAGMENT_ENTRIES_PER_BLOCK < left then FRAGMENT_ENTRIES_PER_BLOCK else left))) (\<lambda>es.
            own_bind (load_entries_loop_mem mem fd index
              (left - (if FRAGMENT_ENTRIES_PER_BLOCK < left then FRAGMENT_ENTRIES_PER_BLOCK else left)) cmp) (\<lambda>rest.
              own_lift (Inr (es @ rest))))) P
        (if length v < (if FRAGMENT_ENTRIES_PER_BLOCK < left then FRAGMENT_ENTRIES_PER_BLOCK else left) * SIZEOF_frag_entry
          then Inl (Err SQFS_ERR_CORRUPT)
          else rbind (get_frag_entries v 0 (if FRAGMENT_ENTRIES_PER_BLOCK < left then FRAGMENT_ENTRIES_PER_BLOCK else left)) (\<lambda>es.
            rbind (load_entries_loop mem fd index
              (left - (if FRAGMENT_ENTRIES_PER_BLOCK < left then FRAGMENT_ENTRIES_PER_BLOCK else left)) cmp) (\<lambda>rest.
              Inr (es @ rest)))) plain"
      by (auto intro!: runs_if runs_plain_bind runs_bind [OF Cons.IH])
  qed
qed (simp add: runs_return)

definition load_fragment_entries_mem ::
  "allocator \<Rightarrow> os_file \<Rightarrow> u64 list \<Rightarrow> u32 \<Rightarrow> sqfs_compressor option \<Rightarrow> (sqfs_error, sqfs_frag_entry list) own" where
  "load_fragment_entries_mem mem fd index fcount cmp =
     own_alloc (sqfs_malloc mem SQFS_META_BLOCK_SIZE) (own_lift (Inl (Err SQFS_ERR_NO_MEMORY))) (\<lambda>block_buf.
       until_free block_buf (load_entries_loop_mem mem fd index (unat fcount) cmp))"

lemma load_fragment_entries_owned:
  "runs (load_fragment_entries_mem mem fd index fcount cmp) {#} (load_fragment_entries mem fd index fcount cmp) plain"
  unfolding load_fragment_entries_mem_def load_fragment_entries_def
  by (rule runs_alloc_first) (auto intro: runs_until_free load_entries_owned)

text \<open>The index is freed only where it is used: a count of entries close to \<open>2\<^sup>3\<^sup>2\<close> makes the number of blocks
  wrap to 0, and the index is lost.\<close>

definition fragment_entries_read_mem ::
  "allocator \<Rightarrow> sqfs_ctx \<Rightarrow> u32 \<Rightarrow> (sqfs_error, sqfs_frag_entry list \<times> nat) own" where
  "fragment_entries_read_mem mem ctx fcount =
     own_alloc (sqfs_calloc mem (unat fcount) SIZEOF_frag_entry) (own_lift (Inl (Err SQFS_ERR_NO_MEMORY))) (\<lambda>entries.
       own_try (read_fragment_table_index_mem mem (sb_fd (ctx_sb ctx)) (frag_table (disk (ctx_sb ctx))) fcount) (\<lambda>ret.
         case ret of
           Inl e \<Rightarrow> own_bind (sqfs_free (Some entries)) (\<lambda>_. own_lift (Inl (Err e)))
         | Inr ((index, num_blocks), block_index) \<Rightarrow>
             (case index of
                Some xs \<Rightarrow>
                  if 0 < num_blocks then
                    own_try (load_fragment_entries_mem mem (sb_fd (ctx_sb ctx)) xs fcount (ctx_comp ctx)) (\<lambda>ret.
                      own_bind (sqfs_free block_index) (\<lambda>_.
                        case ret of
                          Inl e \<Rightarrow> own_bind (sqfs_free (Some entries)) (\<lambda>_. own_lift (Inl (Err e)))
                        | Inr es \<Rightarrow> own_lift (Inr (es, entries))))
                  else own_lift (Inr (replicate (unat fcount) zero_frag_entry, entries))
              | None \<Rightarrow> own_lift (Inr (replicate (unat fcount) zero_frag_entry, entries)))))"

text \<open>Counts for which the number of blocks does not wrap.\<close>

definition few_fragments :: "u32 \<Rightarrow> bool" where "few_fragments fcount \<longleftrightarrow> unat fcount + 511 < 2 ^ 32"

definition entries_rel :: "u32 \<Rightarrow> sqfs_frag_entry list \<times> nat \<Rightarrow> sqfs_frag_entry list \<Rightarrow> nat multiset \<Rightarrow> bool" where
  "entries_rel fcount x v P \<longleftrightarrow> fst x = v \<and> (few_fragments fcount \<longrightarrow> P = {#snd x#})"

lemma num_blocks_pos:
  assumes "few_fragments fcount" and "fcount \<noteq> 0"
  shows "0 < (fcount + of_nat FRAGMENT_ENTRIES_PER_BLOCK - 1) div (of_nat FRAGMENT_ENTRIES_PER_BLOCK :: u32)"
proof -
  have n: "fcount + of_nat FRAGMENT_ENTRIES_PER_BLOCK - 1 = fcount + 511" by (simp add: FRAGMENT_ENTRIES_PER_BLOCK_def)
  have "unat (fcount + 511) = unat fcount + 511"
    using assms(1) by (simp add: few_fragments_def unat_word_ariths(1))
  moreover have "0 < unat fcount" using assms(2) by (simp add: unat_gt_0)
  ultimately have "512 \<le> unat (fcount + of_nat FRAGMENT_ENTRIES_PER_BLOCK - 1)" unfolding n by linarith
  then show ?thesis
    by (simp add: word_less_nat_alt unat_div FRAGMENT_ENTRIES_PER_BLOCK_def div_greater_zero_iff)
qed

lemma fragment_entries_owned:
  assumes n: "fcount \<noteq> 0"
  shows "runs (fragment_entries_read_mem mem ctx fcount) {#} (fragment_entries_read mem ctx fcount) (entries_rel fcount)"
  unfolding fragment_entries_read_mem_def fragment_entries_read_def
proof (rule runs_alloc_first, goal_cases)
  case (2 entries)
  show ?case unfolding if_not_P [OF 2]
  proof (rule runs_call [OF fragment_index_owned], goal_cases)
    case (1 x v P)
    obtain index num bi where x: "x = ((index, num), bi)" by (metis surj_pair)
    with 1(2) have v: "v = (index, num)" and P: "P = opt_block bi" and bi: "bi = None \<longleftrightarrow> index = None"
      by (auto simp: index_rel_def)
    show ?case
    proof (cases index)
      case None
      with bi show ?thesis by (auto simp: x v P entries_rel_def intro!: runs_return)
    next
      case (Some xs)
      with bi obtain b where b: "bi = Some b" by auto
      show ?thesis
      proof (cases "0 < num")
        case True
        have "runs (own_try (load_fragment_entries_mem mem (sb_fd (ctx_sb ctx)) xs fcount (ctx_comp ctx)) (\<lambda>ret.
                own_bind (sqfs_free (Some b)) (\<lambda>_. case ret of
                    Inl e \<Rightarrow> own_bind (sqfs_free (Some entries)) (\<lambda>_. own_lift (Inl (Err e)))
                  | Inr es \<Rightarrow> own_lift (Inr (es, entries))))) ({#b#} + {#entries#})
              (load_fragment_entries mem (sb_fd (ctx_sb ctx)) xs fcount (ctx_comp ctx)) (entries_rel fcount)"
          by (rule runs_around [OF load_fragment_entries_owned])
            (auto simp: entries_rel_def intro!: runs_free_first [OF runs_free_end] runs_free_return)
        with True show ?thesis by (simp add: x v P Some b)
      next
        case False
        from 1(1) n v Some have "num = (fcount + of_nat FRAGMENT_ENTRIES_PER_BLOCK - 1) div of_nat FRAGMENT_ENTRIES_PER_BLOCK"
          by (auto simp: read_fragment_table_index_def rbind_eq_Inr_iff Let_def split: if_splits)
        with False num_blocks_pos [of fcount] n have "\<not> few_fragments fcount" by auto
        with False show ?thesis by (auto simp: x v P Some b entries_rel_def intro!: runs_return)
      qed
    qed
  next
    case (2 e)
    show ?case by (simp add: runs_free_end)
  qed
qed simp

definition sqfs_fragment_table_load_mem :: "allocator \<Rightarrow> sqfs_ctx \<Rightarrow> sqfs_ctx table_own" where
  "sqfs_fragment_table_load_mem mem ctx =
     (case ctx_fragment_table ctx of
        None \<Rightarrow> own_lift (Inl (Fault Null_Deref))
      | Some t \<Rightarrow>
          if ft_loaded t then own_lift (Inr (Inr (), ctx, None))
          else if \<not> has_fragments (ctx_sb ctx) \<or> frag_count (disk (ctx_sb ctx)) = 0 then
            own_lift (Inr (Inr (), ctx\<lparr>ctx_fragment_table :=
              Some (t\<lparr>ft_entries := None, ft_count := 0, ft_loaded := True\<rparr>)\<rparr>, None))
          else own_try (fragment_entries_read_mem mem ctx (frag_count (disk (ctx_sb ctx)))) (\<lambda>ret.
            case ret of
              Inl e \<Rightarrow> own_lift (Inr (Inl e, ctx\<lparr>ctx_fragment_table := Some (t\<lparr>ft_entries := None\<rparr>)\<rparr>, None))
            | Inr (es, entries) \<Rightarrow> own_lift (Inr (Inr (), ctx\<lparr>ctx_fragment_table := Some (t\<lparr>ft_entries := Some es,
                ft_count := frag_count (disk (ctx_sb ctx)), ft_loaded := True\<rparr>)\<rparr>, Some entries))))"

definition has_entries :: "sqfs_ctx \<Rightarrow> bool" where
  "has_entries ctx \<longleftrightarrow> (case ctx_fragment_table ctx of None \<Rightarrow> False | Some t \<Rightarrow> ft_entries t \<noteq> None)"

definition frags_rel ::
  "(sqfs_error + unit) \<times> sqfs_ctx \<times> nat option \<Rightarrow> (sqfs_error + unit) \<times> sqfs_ctx \<Rightarrow> nat multiset \<Rightarrow> bool" where
  "frags_rel x v P \<longleftrightarrow> (case x of (r, c, b) \<Rightarrow> v = (r, c) \<and> (b \<noteq> None \<longleftrightarrow> has_entries c)
     \<and> (few_fragments (frag_count (disk (ctx_sb c))) \<longrightarrow> P = opt_block b))"

lemma fragment_table_load_owned:
  assumes E: "sqfs_fragment_table_load mem ctx = Some (r, ctx')"
    and t: "ctx_fragment_table ctx = Some sqfs_fragment_table_init"
  shows "runs (sqfs_fragment_table_load_mem mem ctx) {#} (op_value r ctx') frags_rel"
proof -
  let ?n = "frag_count (disk (ctx_sb ctx))" and ?t = "sqfs_fragment_table_init"
  have fresh: "\<not> ft_loaded ?t" "ft_entries ?t = None" by (simp_all add: sqfs_fragment_table_init_def)
  note leaf = frags_rel_def has_entries_def
  show ?thesis
  proof (cases "\<not> has_fragments (ctx_sb ctx) \<or> ?n = 0")
    case True
    with E fresh have v: "op_value r ctx' = Inr (Inr (), ctx\<lparr>ctx_fragment_table :=
        Some (?t\<lparr>ft_entries := None, ft_count := 0, ft_loaded := True\<rparr>)\<rparr>)"
      by (auto simp: sqfs_fragment_table_load_def t)
    show ?thesis
      unfolding v sqfs_fragment_table_load_mem_def t option.case if_not_P [OF fresh(1)] if_P [OF True]
      by (rule runs_return) (simp add: leaf)
  next
    case False
    then have n: "?n \<noteq> 0" by simp
    note E = E [unfolded sqfs_fragment_table_load_def t option.case if_not_P [OF fresh(1)] if_not_P [OF False]]
    show ?thesis
      unfolding sqfs_fragment_table_load_mem_def t option.case if_not_P [OF fresh(1)] if_not_P [OF False]
    proof (rule runs_around [OF fragment_entries_owned [OF n]], goal_cases)
      case (1 x v P)
      with E have v: "op_value r ctx' = Inr (Inr (), ctx\<lparr>ctx_fragment_table := Some (?t\<lparr>ft_entries := Some v,
          ft_count := ?n, ft_loaded := True\<rparr>)\<rparr>)" by auto
      obtain es b where "x = (es, b)" by fastforce
      with 1(2) show ?case unfolding v by (auto simp: leaf entries_rel_def intro!: runs_return)
    next
      case (2 e)
      with E have v: "op_value r ctx' = Inr (Inl e, ctx\<lparr>ctx_fragment_table := Some (?t\<lparr>ft_entries := None\<rparr>)\<rparr>)" by auto
      show ?case unfolding v by (auto simp: leaf intro!: runs_return)
    next
      case (3 k)
      with E show ?case by auto
    qed
  qed
qed

text \<open>The release of the table, which no code calls.\<close>

definition sqfs_fragment_table_destroy_mem :: "nat option \<Rightarrow> sqfs_fragment_table \<Rightarrow> ('e, sqfs_fragment_table) own" where
  "sqfs_fragment_table_destroy_mem entries t =
     own_bind (sqfs_free entries) (\<lambda>_. own_lift (Inr (sqfs_fragment_table_destroy t)))"

lemma fragment_table_destroy_owned:
  "runs (sqfs_fragment_table_destroy_mem b t) (opt_block b) (Inr (sqfs_fragment_table_destroy t)) plain"
proof -
  have "runs (sqfs_fragment_table_destroy_mem b t) (opt_block b + {#}) (Inr (sqfs_fragment_table_destroy t)) plain"
    unfolding sqfs_fragment_table_destroy_mem_def by (intro runs_free runs_return) simp
  then show ?thesis by simp
qed

section \<open>The compressor\<close>

text \<open>A compressor object with its block and the private context its \<open>init\<close> would give it.\<close>

record comp_obj =
  co_comp :: sqfs_compressor
  co_self :: nat
  co_priv :: "nat option"

definition compressor_new_mem :: "allocator \<Rightarrow> sqfs_compressor \<Rightarrow> ('e, comp_obj option) own" where
  "compressor_new_mem mem c =
     own_alloc (sqfs_calloc mem 1 48) (own_lift (Inr None)) (\<lambda>b.
       own_lift (Inr (Some \<lparr>co_comp = c, co_self = b, co_priv = None\<rparr>)))"

definition sqfs_compressor_create_mem :: "codec_lib \<Rightarrow> allocator \<Rightarrow> u16 \<Rightarrow> ('e, comp_obj option) own" where
  "sqfs_compressor_create_mem lib mem cid =
     (if cid = 1 then compressor_new_mem mem (sqfs_compressor_zlib_new lib)
      else if cid = 6 then compressor_new_mem mem (sqfs_compressor_zstd_new lib)
      else own_lift (Inr None))"

definition zlib_init :: "allocator \<Rightarrow> (comp_error, nat option) own" where
  "zlib_init mem = own_alloc (sqfs_calloc mem 1 8) (own_lift (Inl (Err SQFS_COMP_NO_MEMORY))) (\<lambda>c. own_lift (Inr (Some c)))"

definition zlib_destroy :: "nat option \<Rightarrow> ('e, unit) own" where
  "zlib_destroy ctx = sqfs_free ctx"

definition zstd_init :: "(comp_error, nat option) own" where
  "zstd_init = own_lift (Inr None)"

definition zstd_destroy :: "nat option \<Rightarrow> ('e, unit) own" where
  "zstd_destroy ctx = own_lift (Inr ())"

text \<open>The function pointers of an object are those of the constructor that belongs to its identifier.\<close>

definition sqfs_compressor_destroy_mem :: "comp_obj option \<Rightarrow> ('e, unit) own" where
  "sqfs_compressor_destroy_mem cmp = (case cmp of
       None \<Rightarrow> own_lift (Inr ())
     | Some x \<Rightarrow> own_bind
         (if co_priv x \<noteq> None then
            (if comp_id (co_comp x) = 1 then zlib_destroy (co_priv x) else zstd_destroy (co_priv x))
          else own_lift (Inr ())) (\<lambda>_. sqfs_free (Some (co_self x))))"

definition comp_rel :: "comp_obj option \<Rightarrow> sqfs_compressor option \<Rightarrow> nat multiset \<Rightarrow> bool" where
  "comp_rel x v P \<longleftrightarrow> map_option co_comp x = v
     \<and> (case x of None \<Rightarrow> P = {#} | Some y \<Rightarrow> co_priv y = None \<and> P = {#co_self y#})"

lemma compressor_create_owned:
  "runs (sqfs_compressor_create_mem lib mem cid) {#} (Inr (sqfs_compressor_create lib mem cid)) comp_rel"
  by (auto simp: sqfs_compressor_create_mem_def sqfs_compressor_create_def compressor_new_mem_def comp_rel_def
      intro!: runs_alloc_first runs_return)

lemma runs_compressor_destroy:
  assumes "co_priv x = None" and "runs (f ()) M r R"
  shows "runs (own_bind (sqfs_compressor_destroy_mem (Some x)) f) (add_mset (co_self x) M) r R"
  using runs_free_one [of f M r R "co_self x"] assms by (simp add: sqfs_compressor_destroy_mem_def)

text \<open>An object of zlib with a private context would be released with it.\<close>

lemma compressor_destroy_priv:
  assumes "comp_id (co_comp x) = 1" and "co_priv x = Some p"
  shows "runs (sqfs_compressor_destroy_mem (Some x)) {#p, co_self x#} (Inr ()) nothing"
  using assms by (auto simp: sqfs_compressor_destroy_mem_def zlib_destroy_def intro!: runs_free_first [OF runs_free_last])

end
