(* ===== verification/OwnershipMount.thy ===== *)
theory OwnershipMount
  imports OwnershipTables
begin

text \<open>
  The life of a mount on the arena: \<open>init_context\<close> with its error path and \<open>destroy_context\<close> of
  \<open>fuse/fuse_main.c\<close>, with the callbacks of \<open>Ledger\<close> in between. The caches are left to their own account
  (\<open>CacheStore\<close>): here they only decide whether a routine returns.
\<close>

section \<open>Creating a context\<close>

text \<open>The context with the blocks its pointers stand for: superblock, compressor, table of ids, fragment table
  and its entries.\<close>

record mount_obj =
  mo_ctx :: sqfs_ctx
  mo_sb :: nat
  mo_comp :: comp_obj
  mo_ids :: "nat option"
  mo_table :: "nat option"
  mo_entries :: "nat option"

text \<open>The result of a routine that may not return because of a cache: \<open>None\<close> for that, else its code or the
  mounted context.\<close>

type_synonym mount_own = "(sqfs_error, (init_error + mount_obj) option) own"

definition init_failed_mem :: "bool \<Rightarrow> mount_obj \<Rightarrow> init_error \<Rightarrow> mount_own" where
  "init_failed_mem no_cache m e =
     (case (if no_cache then Some (Inr (mo_ctx m)) else destroy_caches (mo_ctx m)) of
        None \<Rightarrow> own_lift (Inr None)
      | Some (Inl (Fault f)) \<Rightarrow> own_lift (Inl (Fault f))
      | Some _ \<Rightarrow> own_bind (sqfs_compressor_destroy_mem (Some (mo_comp m))) (\<lambda>_.
          own_bind (sqfs_free (Some (mo_sb m))) (\<lambda>_. own_lift (Inr (Some (Inl e))))))"

definition init_fragments_mem :: "allocator \<Rightarrow> mount_obj \<Rightarrow> nat \<Rightarrow> mount_own" where
  "init_fragments_mem mem m table =
     own_bind (sqfs_fragment_table_load_mem mem ((mo_ctx m)\<lparr>ctx_fragment_table := Some sqfs_fragment_table_init\<rparr>))
       (\<lambda>(ret, ctx, entries).
          let ctx = ctx\<lparr>ctx_fragment_table_loaded := (case ret of Inl e \<Rightarrow> False | Inr _ \<Rightarrow> True)\<rparr>
          in own_lift (Inr (Some (Inr (m\<lparr>mo_ctx := ctx, mo_table := Some table, mo_entries := entries\<rparr>)))))"

definition init_tables_mem :: "allocator \<Rightarrow> (nat \<Rightarrow> bool \<times> bool) \<Rightarrow> u64 \<Rightarrow> bool \<Rightarrow> mount_obj \<Rightarrow> mount_own" where
  "init_tables_mem mem env cache_size_mb no_cache m =
     (case (if no_cache then (True, mo_ctx m) else init_caches env cache_size_mb (mo_ctx m)) of
        (False, ctx) \<Rightarrow> init_failed_mem no_cache (m\<lparr>mo_ctx := ctx\<rparr>) Init_minus_one
      | (True, ctx) \<Rightarrow> own_bind (load_id_table_mem mem ctx) (\<lambda>(ret, ctx, ids).
          let m = m\<lparr>mo_ctx := ctx, mo_ids := ids\<rparr>
          in case ret of
              Inl e \<Rightarrow> init_failed_mem no_cache m (Init_sqfs e)
            | Inr _ \<Rightarrow>
                if \<not> has_fragments (ctx_sb ctx) then own_lift (Inr (Some (Inr m)))
                else own_alloc (sqfs_malloc mem SIZEOF_fragment_table)
                  (init_failed_mem no_cache m (Init_sqfs SQFS_ERR_NO_MEMORY)) (init_fragments_mem mem m)))"

definition init_context_mem ::
  "codec_lib \<Rightarrow> allocator \<Rightarrow> (nat \<Rightarrow> bool \<times> bool) \<Rightarrow> os_file \<Rightarrow> u64 \<Rightarrow> bool \<Rightarrow> sqfs_stats \<Rightarrow> mount_own" where
  "init_context_mem lib mem env fd cache_size_mb no_cache g =
     own_alloc (sqfs_malloc mem SIZEOF_superblock) (own_lift (Inr (Some (Inl (Init_sqfs SQFS_ERR_NO_MEMORY))))) (\<lambda>sb_block.
       case fst (sqfs_superblock_load fd g) of
         Inl (Err e) \<Rightarrow> own_bind (sqfs_free (Some sb_block)) (\<lambda>_. own_lift (Inr (Some (Inl (Init_sqfs e)))))
       | Inl (Fault f) \<Rightarrow> own_lift (Inl (Fault f))
       | Inr sb \<Rightarrow> own_bind (sqfs_compressor_create_mem lib mem (compressor (disk sb))) (\<lambda>c.
           case c of
             None \<Rightarrow> own_bind (sqfs_free (Some sb_block)) (\<lambda>_. own_lift (Inr (Some (Inl (Init_sqfs SQFS_ERR_BAD_COMP)))))
           | Some c \<Rightarrow> init_tables_mem mem env cache_size_mb no_cache
               \<lparr>mo_ctx = zero_ctx sb (Some (co_comp c)) no_cache, mo_sb = sb_block, mo_comp = c,
                mo_ids = None, mo_table = None, mo_entries = None\<rparr>))"

section \<open>Destroying it\<close>

text \<open>The context as the callbacks have left it; its blocks are those of the mount. The table of ids is freed first;
  the fragment table and its entries are not freed.\<close>

definition destroy_context_mem :: "mount_obj \<Rightarrow> sqfs_ctx \<Rightarrow> (errno, sqfs_ctx option) own" where
  "destroy_context_mem m ctx =
     own_bind (sqfs_free (mo_ids m)) (\<lambda>_.
       let ctx = ctx\<lparr>ctx_id_table := None\<rparr>
       in case (if ctx_no_cache ctx then Some (Inr ctx) else destroy_caches ctx) of
            None \<Rightarrow> own_lift (Inr None)
          | Some (Inl e) \<Rightarrow> own_lift (Inl e)
          | Some (Inr ctx) \<Rightarrow> own_bind (sqfs_compressor_destroy_mem (Some (mo_comp m))) (\<lambda>_.
              own_bind (sqfs_free (Some (mo_sb m))) (\<lambda>_. own_lift (Inr (Some (ctx\<lparr>ctx_comp := None\<rparr>))))))"

section \<open>What the creation hands on\<close>

definition mount_blocks :: "mount_obj \<Rightarrow> nat multiset" where
  "mount_blocks m = {#mo_sb m#} + {#co_self (mo_comp m)#} + opt_block (mo_ids m)
     + opt_block (mo_table m) + opt_block (mo_entries m)"

text \<open>The tables have blocks where they are there.\<close>

definition mount_ok :: "mount_obj \<Rightarrow> bool" where
  "mount_ok m \<longleftrightarrow> co_priv (mo_comp m) = None \<and> ctx_comp (mo_ctx m) = Some (co_comp (mo_comp m))
     \<and> (mo_ids m \<noteq> None \<longleftrightarrow> has_ids (mo_ctx m))
     \<and> (mo_table m \<noteq> None \<longleftrightarrow> ctx_fragment_table (mo_ctx m) \<noteq> None)
     \<and> (mo_entries m \<noteq> None \<longleftrightarrow> has_entries (mo_ctx m))"

definition mount_value :: "(init_error failure + sqfs_ctx) option \<Rightarrow> sqfs_error failure + (init_error + sqfs_ctx) option" where
  "mount_value r = (case r of
       None \<Rightarrow> Inr None
     | Some (Inl (Fault f)) \<Rightarrow> Inl (Fault f)
     | Some (Inl (Err e)) \<Rightarrow> Inr (Some (Inl e))
     | Some (Inr ctx) \<Rightarrow> Inr (Some (Inr ctx)))"

lemma mount_value_simps [simp]:
  "mount_value None = Inr None"
  "mount_value (Some (Inl (Fault f))) = Inl (Fault f)"
  "mount_value (Some (Inl (Err e))) = Inr (Some (Inl e))"
  "mount_value (Some (Inr ctx)) = Inr (Some (Inr ctx))"
  by (simp_all add: mount_value_def)

text \<open>An error leaves nothing, except that one for lack of memory may leave one block: the table of ids.\<close>

definition mount_rel ::
  "(init_error + mount_obj) option \<Rightarrow> (init_error + sqfs_ctx) option \<Rightarrow> nat multiset \<Rightarrow> bool" where
  "mount_rel x v P \<longleftrightarrow> (case x of
       None \<Rightarrow> v = None
     | Some (Inl e) \<Rightarrow> v = Some (Inl e) \<and> (P = {#} \<or> e = Init_sqfs SQFS_ERR_NO_MEMORY \<and> size P = 1)
     | Some (Inr m) \<Rightarrow> v = Some (Inr (mo_ctx m)) \<and> mount_ok m
         \<and> (few_fragments (frag_count (disk (ctx_sb (mo_ctx m)))) \<longrightarrow> P = mount_blocks m))"

lemma init_failed_owned:
  assumes m: "co_priv (mo_comp m) = None" and "mo_table m = None" "mo_entries m = None"
    and lost: "mo_ids m = None \<or> e = Init_sqfs SQFS_ERR_NO_MEMORY"
  shows "runs (init_failed_mem no_cache m e) (mount_blocks m) (mount_value (init_failed no_cache (mo_ctx m) e)) mount_rel"
proof -
  have M: "mount_blocks m = add_mset (co_self (mo_comp m)) ({#mo_sb m#} + opt_block (mo_ids m))"
    using assms(2,3) by (simp add: mount_blocks_def)
  have left: "mount_rel (Some (Inl e)) (Some (Inl e)) (opt_block (mo_ids m))"
    using lost by (cases "mo_ids m") (auto simp: mount_rel_def)
  have free: "runs (own_bind (sqfs_compressor_destroy_mem (Some (mo_comp m))) (\<lambda>_.
      own_bind (sqfs_free (Some (mo_sb m))) (\<lambda>_. own_lift (Inr (Some (Inl e)))))) (mount_blocks m)
      (Inr (Some (Inl e))) mount_rel"
    unfolding M by (intro runs_compressor_destroy m runs_free_one runs_return left)
  show ?thesis
  proof (cases no_cache)
    case True
    with free show ?thesis by (simp add: init_failed_mem_def init_failed_def)
  next
    case False
    consider "destroy_caches (mo_ctx m) = None" | f where "destroy_caches (mo_ctx m) = Some (Inl (Fault f))"
      | k where "destroy_caches (mo_ctx m) = Some (Inl (Err k))" | c where "destroy_caches (mo_ctx m) = Some (Inr c)"
      by (cases "destroy_caches (mo_ctx m)" rule: option.exhaust [case_product sum.exhaust]) (metis failure.exhaust sum.exhaust)+
    then show ?thesis
      by cases (use False free in \<open>auto simp: init_failed_mem_def init_failed_def mount_rel_def intro!: runs_return\<close>)
  qed
qed

text \<open>A call whose result the code goes on with as it likes.\<close>

lemma runs_bind_any:
  assumes m: "runs m {#} r R"
    and ok: "\<And>x v P. r = Inr v \<Longrightarrow> R x v P \<Longrightarrow> runs (f x) (P + X) r' R'"
    and no_error: "\<And>e. r \<noteq> Inl (Err e)"
    and fault: "\<And>k. r = Inl (Fault k) \<Longrightarrow> r' = Inl (Fault k)"
  shows "runs (own_bind m f) X r' R'"
proof -
  have "own_bind m f = own_try m (\<lambda>ret. case ret of Inl e \<Rightarrow> own_lift (Inl (Err e)) | Inr x \<Rightarrow> f x)"
    by (auto simp: own_bind_def own_try_def own_lift_def fun_eq_iff split: prod.split sum.split failure.split)
  moreover have "runs (own_try m (\<lambda>ret. case ret of Inl e \<Rightarrow> own_lift (Inl (Err e)) | Inr x \<Rightarrow> f x)) X r' R'"
    by (rule runs_around [OF m]) (use ok no_error fault in auto)
  ultimately show ?thesis by simp
qed

lemma op_value_no_error [simp]: "op_value r c \<noteq> Inl (Err e)"
  by (auto simp: op_value_def split: sum.split failure.split)

lemma op_value_cases:
  "op_value r c = Inr v \<Longrightarrow> (\<exists>e. r = Inl (Err e) \<and> v = (Inl e, c)) \<or> r = Inr () \<and> v = (Inr (), c)"
  "op_value r c = Inl (Fault k) \<Longrightarrow> r = Inl (Fault k)"
  by (auto simp: op_value_def split: sum.splits failure.splits)

lemma fragment_table_load_same:
  assumes "ctx_fragment_table ctx = Some t"
  obtains r t' where "sqfs_fragment_table_load mem ctx = Some (r, ctx\<lparr>ctx_fragment_table := Some t'\<rparr>)"
proof -
  have same: "ctx = ctx\<lparr>ctx_fragment_table := Some t\<rparr>" using assms by simp
  have "\<exists>r t'. sqfs_fragment_table_load mem ctx = Some (r, ctx\<lparr>ctx_fragment_table := Some t'\<rparr>)"
  proof (cases "ft_loaded t")
    case True
    with same show ?thesis by (intro exI [of _ "Inr ()"] exI [of _ t]) (simp add: sqfs_fragment_table_load_def assms)
  next
    case False
    then show ?thesis by (auto simp: sqfs_fragment_table_load_def assms split: sum.split)
  qed
  with that show thesis by blast
qed

lemma load_id_table_same:
  obtains r ctx' where "load_id_table mem ctx = Some (r, ctx')" and "ctx_sb ctx' = ctx_sb ctx"
    "ctx_comp ctx' = ctx_comp ctx" "ctx_fragment_table ctx' = ctx_fragment_table ctx"
proof -
  have "\<exists>r ctx'. load_id_table mem ctx = Some (r, ctx') \<and> ctx_sb ctx' = ctx_sb ctx
      \<and> ctx_comp ctx' = ctx_comp ctx \<and> ctx_fragment_table ctx' = ctx_fragment_table ctx"
    by (auto simp: load_id_table_def Let_def split: sum.split)
  with that show thesis by blast
qed

lemma load_id_table_error:
  "load_id_table mem ctx = Some (Inl (Err e), ctx') \<Longrightarrow> ctx_id_table ctx = None \<Longrightarrow> ctx_id_table ctx' = None"
  by (auto simp: load_id_table_def Let_def split: sum.splits if_splits)

text \<open>A mount before its fragment table.\<close>

definition mount_early :: "mount_obj \<Rightarrow> bool" where
  "mount_early m \<longleftrightarrow> mount_ok m \<and> ctx_fragment_table (mo_ctx m) = None"

lemma mount_earlyD:
  assumes "mount_early m"
  shows "co_priv (mo_comp m) = None" "mo_table m = None" "mo_entries m = None"
  using assms by (auto simp: mount_early_def mount_ok_def has_entries_def split: option.splits)

lemma init_fragments_owned:
  assumes m: "mount_early m"
  shows "runs (init_fragments_mem mem m table) (add_mset table (mount_blocks m))
    (mount_value (init_fragments mem (mo_ctx m))) mount_rel"
proof -
  let ?ctx = "(mo_ctx m)\<lparr>ctx_fragment_table := Some sqfs_fragment_table_init\<rparr>"
  have t: "ctx_fragment_table ?ctx = Some sqfs_fragment_table_init" by simp
  obtain r t' where E: "sqfs_fragment_table_load mem ?ctx = Some (r, ?ctx\<lparr>ctx_fragment_table := Some t'\<rparr>)"
    by (rule fragment_table_load_same [OF t])
  let ?ctx' = "?ctx\<lparr>ctx_fragment_table := Some t'\<rparr>"
  show ?thesis
    unfolding init_fragments_mem_def
  proof (rule runs_bind_any [OF fragment_table_load_owned [OF E t]], goal_cases)
    case (1 x v P)
    obtain ret c b where x: "x = (ret, c, b)" by (metis surj_pair)
    let ?loaded = "case ret of Inl e \<Rightarrow> False | Inr _ \<Rightarrow> True"
    from op_value_cases(1) [OF 1(1)] 1(2) x have c: "c = ?ctx'"
      and v: "mount_value (init_fragments mem (mo_ctx m)) = Inr (Some (Inr (c\<lparr>ctx_fragment_table_loaded := ?loaded\<rparr>)))"
      by (auto simp: frags_rel_def init_fragments_def E)
    from 1(2) x have b: "b \<noteq> None \<longleftrightarrow> has_entries c" "few_fragments (frag_count (disk (ctx_sb c))) \<longrightarrow> P = opt_block b"
      by (auto simp: frags_rel_def)
    from b(1) m have "mount_ok (m\<lparr>mo_ctx := c\<lparr>ctx_fragment_table_loaded := ?loaded\<rparr>, mo_table := Some table, mo_entries := b\<rparr>)"
      by (auto simp: mount_ok_def mount_early_def c has_ids_def has_entries_def)
    moreover have "mount_blocks (m\<lparr>mo_ctx := c', mo_table := Some table, mo_entries := b\<rparr>)
        = opt_block b + add_mset table (mount_blocks m)" for c'
      using mount_earlyD [OF m] by (simp add: mount_blocks_def ac_simps)
    ultimately show ?case
      unfolding x v by (auto simp: mount_rel_def intro!: runs_return dest: b(2) [rule_format])
  next
    case (3 k)
    from op_value_cases(2) [OF 3] show ?case by (simp add: init_fragments_def E)
  qed simp
qed

lemma init_caches_same:
  assumes "init_caches env mb ctx = (ok, ctx')"
  shows "ctx_sb ctx' = ctx_sb ctx" "ctx_comp ctx' = ctx_comp ctx" "ctx_id_table ctx' = ctx_id_table ctx"
    "ctx_fragment_table ctx' = ctx_fragment_table ctx" "ctx_no_cache ctx' = ctx_no_cache ctx"
  using assms by (auto simp: init_caches_def Let_def split: sum.splits)

lemma mount_early_caches:
  assumes "mount_early m" and "init_caches env mb (mo_ctx m) = (ok, ctx)"
  shows "mount_early (m\<lparr>mo_ctx := ctx\<rparr>)" and "mount_blocks (m\<lparr>mo_ctx := c\<rparr>) = mount_blocks m"
  using assms(1) init_caches_same [OF assms(2)]
  by (simp_all add: mount_early_def mount_ok_def has_ids_def has_entries_def mount_blocks_def)

lemma init_tables_owned:
  assumes m: "mount_early m" and none: "mo_ids m = None"
  shows "runs (init_tables_mem mem env mb no_cache m) (mount_blocks m)
    (mount_value (init_tables mem env mb no_cache (mo_ctx m))) mount_rel"
proof -
  obtain ok ctx where c: "(if no_cache then (True, mo_ctx m) else init_caches env mb (mo_ctx m)) = (ok, ctx)" by fastforce
  have m1: "mount_early (m\<lparr>mo_ctx := ctx\<rparr>)" and blocks: "mount_blocks (m\<lparr>mo_ctx := ctx\<rparr>) = mount_blocks m"
    using c m mount_early_caches [OF m] by (auto simp: mount_blocks_def split: if_splits)
  show ?thesis
  proof (cases ok)
    case False
    from init_failed_owned [of "m\<lparr>mo_ctx := ctx\<rparr>" Init_minus_one no_cache] mount_earlyD [OF m] none blocks
    show ?thesis by (simp add: init_tables_mem_def init_tables_def c False)
  next
    case True
    obtain r ctx' where E: "load_id_table mem ctx = Some (r, ctx')"
      and same: "ctx_sb ctx' = ctx_sb ctx" "ctx_comp ctx' = ctx_comp ctx" "ctx_fragment_table ctx' = ctx_fragment_table ctx"
      by (rule load_id_table_same)
    from m1 none have no_ids: "ctx_id_table ctx = None" by (auto simp: mount_early_def mount_ok_def has_ids_def)
    have c: "(if no_cache then (True, mo_ctx m) else init_caches env mb (mo_ctx m)) = (True, ctx)" using c True by simp
    show ?thesis
      unfolding init_tables_mem_def init_tables_def c prod.case bool.case
    proof (rule runs_bind_any [OF load_id_table_owned [OF E no_ids]], goal_cases)
      case (1 x v P)
      obtain ret c' ids where x: "x = (ret, c', ids)" by (metis surj_pair)
      from op_value_cases(1) [OF 1(1)] 1(2) x have c': "c' = ctx'" and v: "v = (ret, ctx')"
        and ids: "ids \<noteq> None \<longleftrightarrow> has_ids ctx'" and P: "P = opt_block ids" by (auto simp: table_rel_def)
      let ?m = "m\<lparr>mo_ctx := ctx', mo_ids := ids\<rparr>"
      have early: "mount_early ?m"
        using m1 ids by (simp add: mount_early_def mount_ok_def has_ids_def has_entries_def same)
      have M: "P + mount_blocks m = mount_blocks ?m" using none by (simp add: P mount_blocks_def ac_simps)
      have failed: "runs (init_failed_mem no_cache ?m e) (mount_blocks ?m) (mount_value (init_failed no_cache ctx' e)) mount_rel"
        if "ids = None \<or> e = Init_sqfs SQFS_ERR_NO_MEMORY" for e
        using init_failed_owned [of ?m e no_cache] mount_earlyD [OF early] that by simp
      show ?case
      proof (cases ret)
        case (Inl e)
        with op_value_cases(1) [OF 1(1)] v have r: "r = Inl (Err e)" by auto
        with ids load_id_table_error [OF E [unfolded r] no_ids] have "ids = None" by (simp add: has_ids_def)
        with failed show ?thesis by (simp add: x c' Inl E r M)
      next
        case (Inr u)
        with op_value_cases(1) [OF 1(1)] v have r: "r = Inr ()" by auto
        show ?thesis
        proof (cases "has_fragments (ctx_sb ctx')")
          case False
          with early show ?thesis
            by (auto simp: x c' Inr E r M mount_rel_def mount_early_def intro!: runs_return)
        next
          case True
          have "runs (own_alloc (sqfs_malloc mem SIZEOF_fragment_table)
              (init_failed_mem no_cache ?m (Init_sqfs SQFS_ERR_NO_MEMORY)) (init_fragments_mem mem ?m)) (mount_blocks ?m)
              (mount_value (if sqfs_malloc mem SIZEOF_fragment_table = 0
                 then init_failed no_cache ctx' (Init_sqfs SQFS_ERR_NO_MEMORY) else init_fragments mem ctx')) mount_rel"
          proof (rule runs_alloc, goal_cases)
            case (2 table)
            from 2 init_fragments_owned [OF early, of mem table] show ?case by simp
          qed (simp add: failed)
          with True show ?thesis by (simp add: x c' Inr E r M Let_def split del: if_split)
        qed
      qed
    next
      case (3 k)
      from op_value_cases(2) [OF 3] show ?case by (simp add: E)
    qed simp
  qed
qed

lemma init_context_owned:
  "runs (init_context_mem lib mem env fd mb no_cache g) {#}
     (mount_value (fst (init_context lib mem env fd mb no_cache g))) mount_rel"
  unfolding init_context_mem_def
proof (rule runs_alloc_first, goal_cases)
  case 1
  then show ?case by (simp add: init_context_def mount_rel_def runs_return)
next
  case (2 sb_block)
  have gone: "runs (own_bind (sqfs_free (Some sb_block)) (\<lambda>_. own_lift (Inr (Some (Inl e))))) {#sb_block#}
      (Inr (Some (Inl e))) mount_rel" for e
    by (rule runs_free_return) (simp_all add: mount_rel_def)
  obtain r g' where load: "sqfs_superblock_load fd g = (r, g')" by fastforce
  consider f where "r = Inl (Fault f)" | e where "r = Inl (Err e)" | sb where "r = Inr sb"
    by (metis failure.exhaust sum.exhaust)
  then show ?case
  proof cases
    case (3 sb)
    let ?c = "sqfs_compressor_create lib mem (compressor (disk sb))"
    have "runs (own_bind (sqfs_compressor_create_mem lib mem (compressor (disk sb))) (\<lambda>c. case c of
           None \<Rightarrow> own_bind (sqfs_free (Some sb_block)) (\<lambda>_. own_lift (Inr (Some (Inl (Init_sqfs SQFS_ERR_BAD_COMP)))))
         | Some c \<Rightarrow> init_tables_mem mem env mb no_cache \<lparr>mo_ctx = zero_ctx sb (Some (co_comp c)) no_cache,
             mo_sb = sb_block, mo_comp = c, mo_ids = None, mo_table = None, mo_entries = None\<rparr>)) {#sb_block#}
        (mount_value (case ?c of None \<Rightarrow> Some (Inl (Err (Init_sqfs SQFS_ERR_BAD_COMP)))
           | Some c \<Rightarrow> init_tables mem env mb no_cache (zero_ctx sb (Some c) no_cache))) mount_rel"
    proof (rule runs_bind_any [OF compressor_create_owned], goal_cases)
      case (1 x v P)
      then have x: "comp_rel x ?c P" by simp
      show ?case
      proof (cases x)
        case None
        with x gone show ?thesis by (simp add: comp_rel_def)
      next
        case (Some c)
        let ?m = "\<lparr>mo_ctx = zero_ctx sb (Some (co_comp c)) no_cache, mo_sb = sb_block, mo_comp = c,
            mo_ids = None, mo_table = None, mo_entries = None\<rparr>"
        from x Some have c: "?c = Some (co_comp c)" "co_priv c = None" "P = {#co_self c#}" by (auto simp: comp_rel_def)
        then have "mount_early ?m"
          by (simp add: mount_early_def mount_ok_def has_ids_def has_entries_def zero_ctx_def)
        from init_tables_owned [OF this, of mem env mb no_cache] c show ?thesis
          by (simp add: Some mount_blocks_def add_mset_commute)
      qed
    qed simp_all
    with 2 3 load show ?thesis by (auto simp: init_context_def split: option.splits)
  qed (use 2 load gone in \<open>simp_all add: init_context_def\<close>)
qed

section \<open>The account of a mount\<close>

text \<open>At unmounting all blocks of the mount but those of the fragment table are freed.\<close>

definition tables_left :: "mount_obj \<Rightarrow> nat multiset" where
  "tables_left m = opt_block (mo_table m) + opt_block (mo_entries m)"

lemma destroy_context_owned:
  assumes d: "destroy_context ctx = Some (Inr ctx')" and m: "co_priv (mo_comp m) = None"
  shows "runs (destroy_context_mem m ctx) (mount_blocks m) (Inr (Some ctx')) (\<lambda>x v P. x = v \<and> P = tables_left m)"
proof -
  let ?ctx = "ctx\<lparr>ctx_id_table := None\<rparr>"
  from d obtain c where c: "(if ctx_no_cache ?ctx then Some (Inr ?ctx) else destroy_caches ?ctx) = Some (Inr c)"
    and ctx': "ctx' = c\<lparr>ctx_comp := None\<rparr>"
    by (auto simp: destroy_context_def Let_def lbind_def split: option.splits sum.splits)
  have "mount_blocks m = opt_block (mo_ids m) + add_mset (co_self (mo_comp m)) ({#mo_sb m#} + tables_left m)"
    by (simp add: mount_blocks_def tables_left_def ac_simps)
  moreover have "runs (destroy_context_mem m ctx) (opt_block (mo_ids m) + add_mset (co_self (mo_comp m)) ({#mo_sb m#} + tables_left m))
      (Inr (Some ctx')) (\<lambda>x v P. x = v \<and> P = tables_left m)"
    unfolding destroy_context_mem_def Let_def c option.case sum.case ctx'
    by (intro runs_free runs_compressor_destroy m runs_free_one runs_return) simp
  ultimately show ?thesis by simp
qed

text \<open>A whole mount: it is created on an empty arena, callbacks run, the last file is released, it is destroyed.\<close>

lemma mounted_ledger:
  assumes init: "init_context_mem lib mem env fd mb no_cache g empty_arena = (Inr (Some (Inr m)), h)"
    and few: "few_fragments (frag_count (disk (ctx_sb (mo_ctx m))))"
  shows "fst (init_context lib mem env fd mb no_cache g) = Some (Inr (mo_ctx m))" and "mount_ok m"
    and "ledger_ok mem (mount_blocks m) \<lparr>ld_arena = h, ld_open = []\<rparr>"
proof -
  let ?r = "mount_value (fst (init_context lib mem env fd mb no_cache g))"
  have "ar_live empty_arena = {#} + {#}" by simp
  from init_context_owned empty_arena_ok(1) this
  have "?r = Inr (Some (Inr (mo_ctx m))) \<and> mount_ok m \<and> arena_ok h \<and> ar_live h = mount_blocks m"
    by (rule runsD [where m = "init_context_mem lib mem env fd mb no_cache g"]) (use init few in \<open>auto simp: mount_rel_def\<close>)
  then show "mount_ok m" "ledger_ok mem (mount_blocks m) \<lparr>ld_arena = h, ld_open = []\<rparr>"
    "fst (init_context lib mem env fd mb no_cache g) = Some (Inr (mo_ctx m))"
    by (auto simp: ledger_ok_def mount_value_def split: option.splits sum.splits failure.splits)
qed

text \<open>Unmounting always gets to its end: the caches of a session can be destroyed.\<close>

definition caches_valid :: "sqfs_ctx \<Rightarrow> bool" where
  "caches_valid ctx \<longleftrightarrow> cache_valid (ctx_inode_cache ctx) \<and> cache_valid (ctx_dir_cache ctx)
     \<and> cache_valid (ctx_meta_cache ctx) \<and> cache_valid (ctx_data_cache ctx)"

text \<open>The blocks a cache has of its own, which are not on the arena: its bucket table and the nodes of its
  entries. While it is in use that is one table and one node for each entry; nothing of it is left when it is
  destroyed.\<close>

definition cache_holds :: "'v sqfs_cache \<Rightarrow> bool" where
  "cache_holds c \<longleftrightarrow> c_tables c = 1 \<and> card (dom (c_heap c)) = unat (c_current_entries c)"

definition cache_gone :: "'v sqfs_cache \<Rightarrow> bool" where
  "cache_gone c \<longleftrightarrow> c_tables c = 0 \<and> dom (c_heap c) = {}"

definition caches_hold :: "sqfs_ctx \<Rightarrow> bool" where
  "caches_hold ctx \<longleftrightarrow> cache_holds (ctx_inode_cache ctx) \<and> cache_holds (ctx_dir_cache ctx)
     \<and> cache_holds (ctx_meta_cache ctx) \<and> cache_holds (ctx_data_cache ctx)"

definition caches_gone :: "sqfs_ctx \<Rightarrow> bool" where
  "caches_gone ctx \<longleftrightarrow> cache_gone (ctx_inode_cache ctx) \<and> cache_gone (ctx_dir_cache ctx)
     \<and> cache_gone (ctx_meta_cache ctx) \<and> cache_gone (ctx_data_cache ctx)"

lemma cache_valid_holds: "cache_valid c \<Longrightarrow> cache_holds c"
  unfolding cache_valid_def cache_holds_def using cache_invD(3,5,8,11) distinct_card by metis

lemma caches_valid_hold: "caches_valid ctx \<Longrightarrow> caches_hold ctx"
  by (simp add: caches_valid_def caches_hold_def cache_valid_holds)

lemma cache_share_memory:
  fixes mb :: u64
  assumes "unat mb \<le> 2 ^ 30" and "unat maxe \<le> 1024"
  shows "(unat maxe + 1) * unat (mb * 1024 * 1024 div k) < 2 ^ 64"
proof -
  have "unat (mb * 1024 * 1024) \<le> 2 ^ 50" using assms(1) by (simp add: unat_word_ariths)
  moreover have "unat (mb * 1024 * 1024 div k) \<le> unat (mb * 1024 * 1024)" by (simp add: unat_div)
  ultimately have "unat (mb * 1024 * 1024 div k) \<le> 2 ^ 50" by (rule order_trans [rotated])
  with assms(2) have "(unat maxe + 1) * unat (mb * 1024 * 1024 div k) \<le> 1025 * 2 ^ 50" by (intro mult_le_mono) simp_all
  then show ?thesis by simp
qed

lemma cache_init_valid:
  assumes "sqfs_cache_init l t maxe (mb * 1024 * 1024 div k) ff = Inr c" and "unat mb \<le> 2 ^ 30" and "unat maxe \<le> 1024"
  shows "cache_valid c"
  using cache_init_empty [OF assms(1) cache_share_memory [OF assms(2,3)]] unfolding cache_valid_def by blast

lemma cache_valid_destroyed: "cache_valid c \<Longrightarrow> \<exists>c'. sqfs_cache_destroy c = Some (Inr c') \<and> cache_gone c'"
  using cache_destroy_ok unfolding cache_valid_def by (fastforce simp: cache_gone_def zero_cache_def)

lemma init_caches_valid:
  assumes "init_caches env mb ctx = (True, ctx')" and "unat mb \<le> 2 ^ 30"
  shows "caches_valid ctx'"
proof -
  note max = CACHE_INODE_MAX_ENTRIES_def CACHE_DIR_MAX_ENTRIES_def CACHE_META_MAX_ENTRIES_def CACHE_DATA_MAX_ENTRIES_def
  from assms(1) obtain ci cd cm cb where
    c: "sqfs_cache_init (fst (env 0)) (snd (env 0)) CACHE_INODE_MAX_ENTRIES (mb * 1024 * 1024 div 8) True = Inr ci"
      "sqfs_cache_init (fst (env 1)) (snd (env 1)) CACHE_DIR_MAX_ENTRIES (mb * 1024 * 1024 div 16) False = Inr cd"
      "sqfs_cache_init (fst (env 2)) (snd (env 2)) CACHE_META_MAX_ENTRIES (mb * 1024 * 1024 div 4) False = Inr cm"
      "sqfs_cache_init (fst (env 3)) (snd (env 3)) CACHE_DATA_MAX_ENTRIES (mb * 1024 * 1024 div 2) True = Inr cb"
    and ctx': "ctx' = ctx\<lparr>ctx_inode_cache := ci, ctx_dir_cache := cd, ctx_meta_cache := cm, ctx_data_cache := cb\<rparr>"
    unfolding init_caches_def Let_def by (auto split: sum.splits)
  show ?thesis
    unfolding caches_valid_def ctx'
    using cache_init_valid [OF c(1) assms(2)] cache_init_valid [OF c(2) assms(2)] cache_init_valid [OF c(3) assms(2)]
      cache_init_valid [OF c(4) assms(2)] by (simp add: max)
qed

lemma tables_keep_caches:
  "load_id_table mem ctx = Some (r, ctx') \<Longrightarrow> caches_valid ctx' = caches_valid ctx"
  "init_fragments mem ctx = Some (Inr ctx') \<Longrightarrow> caches_valid ctx' = caches_valid ctx"
  by (auto simp: load_id_table_def init_fragments_def sqfs_fragment_table_load_def caches_valid_def Let_def
      split: if_splits sum.splits option.splits failure.splits)

lemma init_context_caches:
  assumes "fst (init_context lib mem env fd mb False g) = Some (Inr ctx)" and "unat mb \<le> 2 ^ 30"
  shows "caches_valid ctx \<and> \<not> ctx_no_cache ctx"
proof -
  have failed: "init_failed False c e \<noteq> Some (Inr x)" for c e x
    by (simp add: init_failed_def split: option.split sum.split failure.split)
  from init_context_zero [OF assms(1)] obtain sb c where
    t: "init_tables mem env mb False (zero_ctx sb (Some c) False) = Some (Inr ctx)" by blast
  obtain ok ctx1 where c1: "init_caches env mb (zero_ctx sb (Some c) False) = (ok, ctx1)" by fastforce
  with t failed have ok: ok by (cases ok) (simp_all add: init_tables_def)
  obtain r ctx2 where ids: "load_id_table mem ctx1 = Some (Inr r, ctx2)"
    using t c1 ok failed by (auto simp: init_tables_def split: option.splits sum.splits failure.splits)
  from t c1 ok ids failed have "ctx = ctx2 \<or> init_fragments mem ctx2 = Some (Inr ctx)"
    by (auto simp: init_tables_def split: if_splits)
  with tables_keep_caches(1) [OF ids] tables_keep_caches(2) [of mem ctx2 ctx] have "caches_valid ctx = caches_valid ctx1" by auto
  moreover have "\<not> ctx_no_cache ctx"
    using init_tables_ok [OF t] init_caches_ok [OF _ assms(2)] by (auto simp: same_mount_def zero_ctx_def)
  ultimately show ?thesis using init_caches_valid [OF _ assms(2)] c1 ok by simp
qed

lemma destroy_caches_valid:
  assumes "caches_valid ctx"
  obtains ctx' where "destroy_caches ctx = Some (Inr ctx')" and "caches_gone ctx'"
proof -
  from assms obtain ci cd cm cb where "sqfs_cache_destroy (ctx_inode_cache ctx) = Some (Inr ci)"
    "sqfs_cache_destroy (ctx_dir_cache ctx) = Some (Inr cd)" "sqfs_cache_destroy (ctx_meta_cache ctx) = Some (Inr cm)"
    "sqfs_cache_destroy (ctx_data_cache ctx) = Some (Inr cb)"
    "cache_gone ci" "cache_gone cd" "cache_gone cm" "cache_gone cb"
    unfolding caches_valid_def using cache_valid_destroyed by metis
  with that show thesis by (simp add: destroy_caches_def caches_gone_def)
qed

lemma session_caches:
  assumes "fst (init_context lib mem env fd mb False g) = Some (Inr ctx0)" and "unat mb \<le> 2 ^ 30"
    and "session_ok ctx0 s"
  shows "caches_valid (se_ctx s) \<and> \<not> ctx_no_cache (se_ctx s)"
proof -
  obtain c where c: "se_ctx s = ctx0\<lparr>ctx_data_cache := c\<rparr>" "cache_valid c"
    using assms(3) unfolding session_ok_def same_ctx_def by force
  with init_context_caches [OF assms(1,2)]
  show ?thesis by (simp add: caches_valid_def)
qed

lemma session_destroyed:
  assumes "fst (init_context lib mem env fd mb False g) = Some (Inr ctx0)" and "unat mb \<le> 2 ^ 30"
    and "session_ok ctx0 s"
  obtains ctx' where "destroy_context (se_ctx s) = Some (Inr ctx')" and "caches_gone ctx'"
proof -
  from session_caches [OF assms] have v: "caches_valid ((se_ctx s)\<lparr>ctx_id_table := None\<rparr>)" "\<not> ctx_no_cache (se_ctx s)"
    by (simp_all add: caches_valid_def)
  obtain ctx' where "destroy_caches ((se_ctx s)\<lparr>ctx_id_table := None\<rparr>) = Some (Inr ctx')" "caches_gone ctx'"
    by (rule destroy_caches_valid [OF v(1)])
  with v(2) show thesis
    by (intro that [of "ctx'\<lparr>ctx_comp := None\<rparr>"]) (simp_all add: destroy_context_def Let_def caches_gone_def)
qed

section \<open>Properties\<close>

text \<open>What unmounting leaves. A mount is created, any callbacks run, every file that was opened is released;
  then \<open>destroy_context\<close> returns, whatever the reads of the session have done to the caches, and of all the blocks
  allocated since the creation began it leaves exactly the fragment table and its entries: nothing if the image has no
  fragment table, a leak if it has one. (The values of the data cache have their own account.)\<close>

theorem unmount_account:
  assumes "init_context_mem lib mem env fd mb False g empty_arena = (Inr (Some (Inr m)), h)" and "unat mb \<le> 2 ^ 30"
    and "few_fragments (frag_count (disk (ctx_sb (mo_ctx m))))"
    and "(fuse_step E)\<^sup>*\<^sup>* (mounted (mo_ctx m)) s"
    and "(ledger_step mem)\<^sup>*\<^sup>* \<lparr>ld_arena = h, ld_open = []\<rparr> l" and "ld_open l = []" and "high_addresses mem"
  shows "\<exists>ctx' h'. destroy_context (se_ctx s) = Some (Inr ctx')
     \<and> destroy_context_mem m (se_ctx s) (ld_arena l) = (Inr (Some ctx'), h')
     \<and> ar_live h' = tables_left m \<and> (tables_left m = {#} \<longleftrightarrow> ctx_fragment_table (mo_ctx m) = None)"
proof -
  note m = mounted_ledger [OF assms(1,3)]
  have "cache_valid (ctx_data_cache (mo_ctx m))" using init_context_ok [OF m(1) assms(2)] by (auto simp: cache_valid_def)
  from session_ok_run [OF assms(4) this] have "session_ok (mo_ctx m) s" .
  from session_destroyed [OF m(1) assms(2) this] obtain ctx' where d: "destroy_context (se_ctx s) = Some (Inr ctx')"
    by blast
  from ledger_run_ok [OF assms(5) m(3) assms(7)] assms(6)
  have l: "arena_ok (ld_arena l)" "ar_live (ld_arena l) = mount_blocks m + {#}" by (simp_all add: ledger_ok_def)
  from m(2) have priv: "co_priv (mo_comp m) = None" by (simp add: mount_ok_def)
  have left: "tables_left m = {#} \<longleftrightarrow> ctx_fragment_table (mo_ctx m) = None"
    using m(2) by (cases "mo_table m"; cases "mo_entries m") (auto simp: tables_left_def mount_ok_def has_entries_def)
  show ?thesis
    by (rule runsD [OF destroy_context_owned [OF d priv] l]) (use d left in auto)
qed

text \<open>A mount that fails leaves nothing, but for one block when memory runs out: the table of ids, which the error path
  does not free.\<close>

theorem init_failure_account:
  assumes "init_context_mem lib mem env fd mb no_cache g empty_arena = (Inr (Some (Inl e)), h)"
  shows "fst (init_context lib mem env fd mb no_cache g) = Some (Inl (Err e))
    \<and> (ar_live h = {#} \<or> e = Init_sqfs SQFS_ERR_NO_MEMORY \<and> size (ar_live h) = 1)"
proof -
  have l: "ar_live empty_arena = {#} + {#}" by simp
  let ?r = "mount_value (fst (init_context lib mem env fd mb no_cache g))"
  from init_context_owned empty_arena_ok(1) l
  have "?r = Inr (Some (Inl e)) \<and> (ar_live h = {#} \<or> e = Init_sqfs SQFS_ERR_NO_MEMORY \<and> size (ar_live h) = 1)"
    by (rule runsD [where m = "init_context_mem lib mem env fd mb no_cache g"]) (use assms in \<open>auto simp: mount_rel_def\<close>)
  then show ?thesis by (auto simp: mount_value_def split: option.splits sum.splits failure.splits)
qed

text \<open>An image with a fragment table that is empty.\<close>

definition frag_superblock :: squashfs_superblock where
  "frag_superblock = fs_superblock\<lparr>flags := 0, frag_table := 193\<rparr>"

definition frag_file :: os_file where
  "frag_file = \<lparr>f_image = put_superblock frag_superblock, f_stat_size = Some 193, f_events = (\<lambda>_ _. [])\<rparr>"

definition frag_sb :: sqfs_superblock where
  "frag_sb = \<lparr>disk = frag_superblock, sb_fd = frag_file, file_size = 193, has_xattrs = True, has_fragments = True,
     has_export = False\<rparr>"

lemma frag_loads: "sqfs_superblock_load frag_file g = (Inr frag_sb, g)"
proof -
  have "block_size_ok 4096 12" unfolding block_size_ok_def by (intro exI [of _ 12]) simp
  then have "superblock_valid frag_superblock 193"
    by (simp add: superblock_valid_def frag_superblock_def fs_superblock_def)
  with superblock_load_encoded [of frag_file 193 frag_superblock "[]" g] show ?thesis
    by (simp add: frag_file_def frag_sb_def) (simp add: frag_superblock_def fs_superblock_def)
qed

lemma frag_mount:
  "\<exists>ctx. fst (init_context stored_lib mem_high env_ok frag_file 32 False g) = Some (Inr ctx)
     \<and> ctx_fragment_table ctx \<noteq> None \<and> frag_count (disk (ctx_sb ctx)) = 0"
proof -
  let ?ctx0 = "zero_ctx frag_sb (Some (sqfs_compressor_zstd_new stored_lib)) False"
  obtain ctx1 where c1: "init_caches env_ok 32 ?ctx0 = (True, ctx1)"
    using fs_init_caches [of ?ctx0] by (cases "init_caches env_ok 32 ?ctx0") auto
  then have sb: "ctx_sb ctx1 = frag_sb" using init_caches_same(1) [OF c1] by (simp add: zero_ctx_def)
  have frag: "has_fragments frag_sb" "id_count (disk frag_sb) = 0" "frag_count (disk frag_sb) = 0" "compressor (disk frag_sb) = 6"
    by (simp_all add: frag_sb_def frag_superblock_def fs_superblock_def)
  let ?ctx2 = "ctx1\<lparr>ctx_id_table := None, ctx_id_count := 0\<rparr>"
  let ?t = "sqfs_fragment_table_init\<lparr>ft_entries := None, ft_count := 0, ft_loaded := True\<rparr>"
  have ids: "load_id_table mem_high ctx1 = Some (Inr (), ?ctx2)" by (simp add: load_id_table_def sb frag)
  have load: "init_fragments mem_high ?ctx2 = Some (Inr (?ctx2\<lparr>ctx_fragment_table := Some ?t, ctx_fragment_table_loaded := True\<rparr>))"
    by (simp add: init_fragments_def sqfs_fragment_table_load_def sqfs_fragment_table_init_def sb frag)
  have mem: "sqfs_malloc mem_high k \<noteq> 0" "sqfs_calloc mem_high 1 48 \<noteq> 0" for k
    by (simp_all add: sqfs_malloc_def sqfs_calloc_def mem_high_def)
  have "init_tables mem_high env_ok 32 False ?ctx0
      = Some (Inr (?ctx2\<lparr>ctx_fragment_table := Some ?t, ctx_fragment_table_loaded := True\<rparr>))"
    using mem load by (simp add: init_tables_def c1 ids sb frag)
  then have "fst (init_context stored_lib mem_high env_ok frag_file 32 False g)
      = Some (Inr (?ctx2\<lparr>ctx_fragment_table := Some ?t, ctx_fragment_table_loaded := True\<rparr>))"
    using mem by (simp add: init_context_def frag_loads sqfs_compressor_create_def frag)
  moreover have "ctx_fragment_table (?ctx2\<lparr>ctx_fragment_table := Some ?t, ctx_fragment_table_loaded := True\<rparr>) \<noteq> None"
    by simp
  moreover have "frag_count (disk (ctx_sb (?ctx2\<lparr>ctx_fragment_table := Some ?t, ctx_fragment_table_loaded := True\<rparr>))) = 0"
    by (simp add: sb frag)
  ultimately show ?thesis by blast
qed

theorem unmount_account_witness:
  "\<exists>m h ctx' h'. init_context_mem stored_lib mem_high env_ok frag_file 32 False (sqfs_stats_init 0) empty_arena
       = (Inr (Some (Inr m)), h)
     \<and> destroy_context_mem m (mo_ctx m) h = (Inr (Some ctx'), h') \<and> ar_live h' = tables_left m \<and> tables_left m \<noteq> {#}"
proof -
  let ?g = "sqfs_stats_init 0"
  obtain ctx where ctx: "fst (init_context stored_lib mem_high env_ok frag_file 32 False ?g) = Some (Inr ctx)"
    "ctx_fragment_table ctx \<noteq> None" "frag_count (disk (ctx_sb ctx)) = 0" using frag_mount by blast
  have l: "ar_live empty_arena = {#} + {#}" by simp
  have "\<exists>m h. init_context_mem stored_lib mem_high env_ok frag_file 32 False ?g empty_arena = (Inr (Some (Inr m)), h) \<and> mo_ctx m = ctx"
    by (rule runsD [OF init_context_owned [of stored_lib mem_high env_ok frag_file 32 False ?g] empty_arena_ok(1) l])
      (use ctx in \<open>auto simp: mount_rel_def split: option.splits sum.splits\<close>)
  then obtain m h where m: "init_context_mem stored_lib mem_high env_ok frag_file 32 False ?g empty_arena = (Inr (Some (Inr m)), h)"
    and c: "mo_ctx m = ctx" by blast
  have few: "few_fragments (frag_count (disk (ctx_sb (mo_ctx m))))" by (simp add: few_fragments_def c ctx)
  from unmount_account [OF m _ few, where E = small_heap and s = "mounted (mo_ctx m)" and l = "\<lparr>ld_arena = h, ld_open = []\<rparr>"]
    mem_high_ok(1) ctx(2) m show ?thesis
    by (auto simp: c mounted_def)
qed

end
