(* ===== verification/OwnershipRead.thy ===== *)
theory OwnershipRead
  imports OwnershipMount
begin

text \<open>
  Reading a file on the arena: the block readers with their temporary buffers, the entry that is made for a decoded
  block (\<open>core/data.c\<close>) or fragment (\<open>core/fragment.c\<close>) and offered to the data cache, and what becomes of it. An
  entry the cache takes over leaves this account: it is the cache's, which frees it exactly once (\<open>CacheStore\<close>).
\<close>

section \<open>Entries\<close>

text \<open>The release of an entry, by its block and the one of its data: the free function of the data cache, and the
  same once more for fragments.\<close>

definition sqfs_data_block_cache_free :: "(nat \<times> nat option) option \<Rightarrow> ('e, unit) own" where
  "sqfs_data_block_cache_free p = (case p of
       None \<Rightarrow> own_lift (Inr ())
     | Some (entry, data) \<Rightarrow> own_bind (sqfs_free data) (\<lambda>_. sqfs_free (Some entry)))"

definition sqfs_fragment_cache_entry_free :: "(nat \<times> nat option) option \<Rightarrow> ('e, unit) own" where
  "sqfs_fragment_cache_entry_free p = (case p of
       None \<Rightarrow> own_lift (Inr ())
     | Some (entry, data) \<Rightarrow> own_bind (sqfs_free data) (\<lambda>_. sqfs_free (Some entry)))"

lemma fragment_entry_free_same: "sqfs_fragment_cache_entry_free = sqfs_data_block_cache_free"
  by (simp add: fun_eq_iff sqfs_fragment_cache_entry_free_def sqfs_data_block_cache_free_def)

lemma runs_entry_free:
  assumes "runs (f ()) N r R" and "M = add_mset entry (opt_block data) + N"
  shows "runs (own_bind (sqfs_data_block_cache_free (Some (entry, data))) f) M r R"
proof -
  have "runs (own_bind (sqfs_free data) (\<lambda>_. own_bind (sqfs_free (Some entry)) f)) (opt_block data + ({#entry#} + N)) r R"
    using assms(1) by (intro runs_free runs_free_one)
  then show ?thesis by (simp add: sqfs_data_block_cache_free_def own_bind_assoc assms(2) ac_simps)
qed

section \<open>Operations that use the cache\<close>

text \<open>Their result on the arena: \<open>None\<close> if the cache does not return, else the code or value and the context.\<close>

type_synonym 'a cache_own = "(sqfs_error, ((sqfs_error + 'a) \<times> sqfs_ctx) option) own"

definition op_result :: "(('e failure + 'a) \<times> sqfs_ctx) option \<Rightarrow> 'e failure + (('e + 'a) \<times> sqfs_ctx) option" where
  "op_result x = (case x of
       None \<Rightarrow> Inr None
     | Some (Inl (Fault f), ctx) \<Rightarrow> Inl (Fault f)
     | Some (Inl (Err e), ctx) \<Rightarrow> Inr (Some (Inl e, ctx))
     | Some (Inr v, ctx) \<Rightarrow> Inr (Some (Inr v, ctx)))"

lemma op_result_simps [simp]:
  "op_result None = Inr None"
  "op_result (Some (Inl (Fault f), ctx)) = Inl (Fault f)"
  "op_result (Some (Inl (Err e), ctx)) = Inr (Some (Inl e, ctx))"
  "op_result (Some (Inr v, ctx)) = Inr (Some (Inr v, ctx))"
  by (simp_all add: op_result_def)

text \<open>Blocks that the cache takes over.\<close>

definition hand_over :: "nat list \<Rightarrow> ('e, unit) own" where "hand_over = free_each"

definition data_cache_put_mem ::
  "heap_env \<Rightarrow> cache_key \<Rightarrow> block_entry \<Rightarrow> nat list \<Rightarrow> u64 \<Rightarrow> sqfs_ctx \<Rightarrow> errno option cache_own" where
  "data_cache_put_mem E key v blocks memory_size ctx =
     (case data_cache_put E key v memory_size ctx of
        None \<Rightarrow> own_lift (Inr None)
      | Some (Inl (Fault f), ctx) \<Rightarrow> own_lift (Inl (Fault f))
      | Some (Inl (Err e), ctx) \<Rightarrow> own_lift (Inr (Some (Inl e, ctx)))
      | Some (Inr (Some e), ctx) \<Rightarrow> own_lift (Inr (Some (Inr (Some e), ctx)))
      | Some (Inr None, ctx) \<Rightarrow> own_bind (hand_over blocks) (\<lambda>_. own_lift (Inr (Some (Inr None, ctx)))))"

lemma data_cache_put_cases:
  obtains "data_cache_put E key v s ctx = None" | f c where "data_cache_put E key v s ctx = Some (Inl (Fault f), c)"
  | e c where "data_cache_put E key v s ctx = Some (Inr (Some e), c)" | c where "data_cache_put E key v s ctx = Some (Inr None, c)"
proof -
  have "\<forall>e c. data_cache_put E key v s ctx \<noteq> Some (Inl (Err e), c)"
    by (auto simp: data_cache_put_def split: option.split sum.split failure.split)
  then show thesis using that
    by (metis (no_types) failure.exhaust not_None_eq prod.exhaust sum.exhaust)
qed

section \<open>A decoded block\<close>

text \<open>An entry with a copy of the block is offered to the cache. The result of \<open>sqfs_cache_put\<close> is not looked at.\<close>

definition cache_block_entry :: "u64 \<Rightarrow> byte list \<Rightarrow> block_entry" where
  "cache_block_entry block_pos d =
     \<lparr>be_block_pos = block_pos, be_data = Some d, be_data_size = length d, be_is_cached = True\<rparr>"

definition cache_block_mem :: "heap_env \<Rightarrow> u64 \<Rightarrow> byte list \<Rightarrow> sqfs_ctx \<Rightarrow> unit cache_own" where
  "cache_block_mem E block_pos d ctx =
     (if d = [] then own_lift (Inr (Some (Inr (), ctx)))
      else own_alloc (sqfs_calloc (h_mem E) 1 SIZEOF_block_entry) (own_lift (Inr (Some (Inr (), ctx)))) (\<lambda>entry.
        own_alloc (sqfs_malloc (h_mem E) (length d))
          (own_bind (sqfs_data_block_cache_free (Some (entry, None))) (\<lambda>_. own_lift (Inr (Some (Inr (), ctx))))) (\<lambda>data.
        own_bind (data_cache_put_mem E (sqfs_data_block_cache_key block_pos) (cache_block_entry block_pos d)
            [data, entry] (of_nat SIZEOF_block_entry + of_nat (length d)) ctx) (\<lambda>r.
          own_lift (Inr (map_option (\<lambda>(_, ctx). (Inr (), ctx)) r))))))"

text \<open>An entry that is made and that the cache does not take.\<close>

definition refused :: "heap_env \<Rightarrow> u64 \<Rightarrow> byte list \<Rightarrow> sqfs_ctx \<Rightarrow> bool" where
  "refused E block_pos d ctx \<longleftrightarrow> d \<noteq> [] \<and> sqfs_calloc (h_mem E) 1 SIZEOF_block_entry \<noteq> 0 \<and> sqfs_malloc (h_mem E) (length d) \<noteq> 0
     \<and> (\<exists>e c. data_cache_put E (sqfs_data_block_cache_key block_pos) (cache_block_entry block_pos d)
          (of_nat SIZEOF_block_entry + of_nat (length d)) ctx = Some (Inr (Some e), c))"

definition block_rel :: "bool \<Rightarrow> 'a option \<Rightarrow> 'a option \<Rightarrow> nat multiset \<Rightarrow> bool" where
  "block_rel lost x v P \<longleftrightarrow> x = v \<and> (x \<noteq> None \<longrightarrow> size P = (if lost then 2 else 0))"

lemma cache_block_owned:
  "runs (cache_block_mem E pos d ctx) {#} (op_result (cache_block E pos d ctx)) (block_rel (refused E pos d ctx))"
proof (cases "d = [] \<or> sqfs_calloc (h_mem E) 1 SIZEOF_block_entry = 0")
  case True
  then show ?thesis
    by (auto simp: cache_block_mem_def cache_block_def sqfs_data_block_cache_new_def own_alloc_def refused_def block_rel_def
        intro!: runs_alloc runs_return)
next
  case False
  then have d: "d \<noteq> []" and c: "sqfs_calloc (h_mem E) 1 SIZEOF_block_entry \<noteq> 0" by auto
  let ?put = "data_cache_put E (sqfs_data_block_cache_key pos) (cache_block_entry pos d)
      (of_nat SIZEOF_block_entry + of_nat (length d)) ctx"
  let ?ref = "op_result (if sqfs_malloc (h_mem E) (length d) = 0 then Some (Inr (), ctx)
      else obind (\<lambda>ctx. data_cache_put E (sqfs_data_block_cache_key pos) (cache_block_entry pos d)
        (of_nat SIZEOF_block_entry + of_nat (length d)) ctx) (\<lambda>_. olift (Inr ())) ctx)"
  have ref: "op_result (cache_block E pos d ctx) = ?ref"
    using d c by (simp add: cache_block_def sqfs_data_block_cache_new_def cache_block_entry_def zero_block_entry_def)
  show ?thesis
    unfolding cache_block_mem_def ref if_not_P [OF d]
  proof (rule runs_alloc_first, goal_cases)
    case (2 entry)
    show ?case
    proof (rule runs_alloc, goal_cases)
      case 1
      then show ?case by (auto simp: refused_def block_rel_def intro!: runs_entry_free [OF runs_return])
    next
      case (2 data)
      show ?case
        by (rule data_cache_put_cases [of E "sqfs_data_block_cache_key pos" "cache_block_entry pos d"
              "of_nat SIZEOF_block_entry + of_nat (length d)" ctx])
          (use 2 d c in \<open>auto simp: data_cache_put_mem_def own_bind_assoc hand_over_def refused_def block_rel_def
            intro!: runs_return runs_free_first runs_free_return\<close>)
    qed
  qed (use c in simp)
qed

section \<open>The block readers\<close>

text \<open>Compressed bytes are read to the end of the output buffer when they fit there, else to a temporary block.\<close>

definition decode_mem ::
  "allocator \<Rightarrow> bool \<Rightarrow> nat \<Rightarrow> byte list res \<Rightarrow> (src_place \<Rightarrow> byte list \<Rightarrow> byte list res) \<Rightarrow> src_place
   \<Rightarrow> (sqfs_error, byte list) own" where
  "decode_mem mem fits n rd decode inside =
     (if fits then own_bind (own_lift rd) (\<lambda>src. own_lift (decode inside src))
      else own_alloc (sqfs_malloc mem n) (own_lift (Inl (Err SQFS_ERR_NO_MEMORY))) (\<lambda>read_buf.
        own_try (own_lift rd) (\<lambda>ret. own_bind (sqfs_free (Some read_buf)) (\<lambda>_.
          case ret of Inl e \<Rightarrow> own_lift (Inl (Err e)) | Inr src \<Rightarrow> own_lift (decode Disjoint src)))))"

lemma decode_owned:
  "runs (decode_mem mem fits n rd decode inside) {#}
     (rbind (if fits then Inr inside else if sqfs_malloc mem n = 0 then Inl (Err SQFS_ERR_NO_MEMORY) else Inr Disjoint)
       (\<lambda>place. rbind rd (\<lambda>src. decode place src))) plain"
  unfolding decode_mem_def
  by (cases fits) (simp_all add: runs_plain_bind runs_alloc runs_temporary runs_free_end)

definition sqfs_data_read_block_mem ::
  "allocator \<Rightarrow> os_file \<Rightarrow> u64 \<Rightarrow> u32 \<Rightarrow> nat \<Rightarrow> sqfs_compressor option \<Rightarrow> (sqfs_error, byte list) own" where
  "sqfs_data_read_block_mem mem fd block_pos disk_size uncomp_size cmp =
     (if cmp = None then own_lift (Inl (Err SQFS_ERR_CORRUPT))
      else if disk_size = 0 then own_lift (Inr (replicate uncomp_size 0))
      else let actual_size = unat (sqfs_block_size_get disk_size) in
        if sqfs_block_is_uncompressed disk_size then
          own_lift (read_block_buf fd block_pos uncomp_size actual_size)
        else decode_mem mem (actual_size \<le> uncomp_size) actual_size (read_block_from_disk fd block_pos actual_size)
          (\<lambda>place src. recode (Err SQFS_ERR_CORRUPT) (sqfs_compressor_decompress cmp place src uncomp_size))
          (Inside (uncomp_size - actual_size)))"

lemma data_read_block_owned:
  "runs (sqfs_data_read_block_mem mem fd pos disk_size n cmp) {#} (sqfs_data_read_block mem fd pos disk_size n cmp) plain"
  unfolding sqfs_data_read_block_mem_def sqfs_data_read_block_def Let_def
  by (intro runs_if runs_fail runs_plain_lift decode_owned)

definition sqfs_fragment_read_block_mem :: "allocator \<Rightarrow> sqfs_ctx \<Rightarrow> u32 \<Rightarrow> (sqfs_error, byte list) own" where
  "sqfs_fragment_read_block_mem mem ctx frag_idx =
     own_bind (own_lift (sqfs_fragment_location ctx frag_idx)) (\<lambda>(block_pos, disk_size).
       let actual_size = unat (sqfs_fragment_size disk_size);
           block_buf_size = unat (block_size (disk (ctx_sb ctx)))
       in if sqfs_fragment_is_uncompressed disk_size then
            own_lift (sqfs_pread_buf (sb_fd (ctx_sb ctx)) block_buf_size actual_size block_pos)
          else decode_mem mem (actual_size < block_buf_size) actual_size
            (sqfs_pread_all (sb_fd (ctx_sb ctx)) actual_size block_pos)
            (\<lambda>place src. recode (Err SQFS_ERR_CORRUPT)
              (sqfs_compressor_decompress (ctx_comp ctx) place src block_buf_size))
            (Inside (block_buf_size - actual_size)))"

lemma fragment_read_block_owned:
  "runs (sqfs_fragment_read_block_mem mem ctx frag_idx) {#} (sqfs_fragment_read_block mem ctx frag_idx) plain"
  unfolding sqfs_fragment_read_block_mem_def sqfs_fragment_read_block_def
proof (rule runs_plain_bind)
  fix x :: "u64 \<times> u32"
  obtain p n where x: "x = (p, n)" by fastforce
  show "runs (case x of (block_pos, disk_size) \<Rightarrow> let actual_size = unat (sqfs_fragment_size disk_size);
           block_buf_size = unat (block_size (disk (ctx_sb ctx)))
       in if sqfs_fragment_is_uncompressed disk_size then
            own_lift (sqfs_pread_buf (sb_fd (ctx_sb ctx)) block_buf_size actual_size block_pos)
          else decode_mem mem (actual_size < block_buf_size) actual_size
            (sqfs_pread_all (sb_fd (ctx_sb ctx)) actual_size block_pos)
            (\<lambda>place src. recode (Err SQFS_ERR_CORRUPT)
              (sqfs_compressor_decompress (ctx_comp ctx) place src block_buf_size))
            (Inside (block_buf_size - actual_size))) {#}
      (case x of (block_pos, disk_size) \<Rightarrow> let actual_size = unat (sqfs_fragment_size disk_size);
           block_buf_size = unat (block_size (disk (ctx_sb ctx)))
       in if sqfs_fragment_is_uncompressed disk_size then
            sqfs_pread_buf (sb_fd (ctx_sb ctx)) block_buf_size actual_size block_pos
          else rbind
            (if actual_size < block_buf_size then Inr (Inside (block_buf_size - actual_size))
             else if sqfs_malloc mem actual_size = 0 then Inl (Err SQFS_ERR_NO_MEMORY)
             else Inr Disjoint) (\<lambda>place.
            rbind (sqfs_pread_all (sb_fd (ctx_sb ctx)) actual_size block_pos) (\<lambda>src.
              recode (Err SQFS_ERR_CORRUPT)
                (sqfs_compressor_decompress (ctx_comp ctx) place src block_buf_size)))) plain"
    unfolding x prod.case Let_def
    by (intro runs_if runs_fail runs_plain_lift decode_owned)
qed

section \<open>One block of a file\<close>

definition read_miss_mem ::
  "heap_env \<Rightarrow> sqfs_file_ctx \<Rightarrow> u64 \<Rightarrow> u32 \<Rightarrow> nat \<Rightarrow> nat \<Rightarrow> sqfs_ctx \<Rightarrow> read_step cache_own" where
  "read_miss_mem E fc block_pos disk_size block_offset remaining ctx =
     own_try (sqfs_data_read_block_mem (h_mem E) (sb_fd (ctx_sb ctx)) block_pos disk_size
         (unat (fc_block_size fc)) (ctx_comp ctx)) (\<lambda>ret.
       case ret of
         Inl e \<Rightarrow> own_lift (Inr (Some (Inl e, ctx)))
       | Inr d \<Rightarrow> own_bind (cache_block_mem E block_pos d ctx) (\<lambda>r.
           case r of
             None \<Rightarrow> own_lift (Inr None)
           | Some (_, ctx) \<Rightarrow>
               own_bind (own_lift (copy_decoded (unat (fc_block_size fc)) d block_offset remaining)) (\<lambda>b.
                 own_lift (Inr (Some (Inr (Read_more b), ctx))))))"

text \<open>The block is decoded, and the cache does not take it.\<close>

definition block_lost :: "heap_env \<Rightarrow> sqfs_file_ctx \<Rightarrow> u64 \<Rightarrow> u32 \<Rightarrow> sqfs_ctx \<Rightarrow> bool" where
  "block_lost E fc block_pos disk_size ctx \<longleftrightarrow>
     (case sqfs_data_read_block (h_mem E) (sb_fd (ctx_sb ctx)) block_pos disk_size (unat (fc_block_size fc)) (ctx_comp ctx) of
        Inl e \<Rightarrow> False
      | Inr d \<Rightarrow> refused E block_pos d ctx)"

lemma cache_block_no_error: "cache_block E pos d ctx \<noteq> Some (Inl (Err e), c)"
proof (rule data_cache_put_cases [of E "sqfs_data_block_cache_key pos" "cache_block_entry pos d"
      "of_nat SIZEOF_block_entry + of_nat (length d)" ctx])
qed (auto simp: cache_block_def cache_block_entry_def sqfs_data_block_cache_new_def zero_block_entry_def obind_def
    split: option.splits sum.splits)

lemma copy_decoded_no_error: "copy_decoded n d off r \<noteq> Inl (Err e)"
  by (simp add: copy_decoded_def Let_def)

lemma read_miss_owned:
  "runs (read_miss_mem E fc pos disk_size off remaining ctx) {#}
     (op_result (read_miss E fc pos disk_size off remaining ctx)) (block_rel (block_lost E fc pos disk_size ctx))"
proof -
  let ?rd = "sqfs_data_read_block (h_mem E) (sb_fd (ctx_sb ctx)) pos disk_size (unat (fc_block_size fc)) (ctx_comp ctx)"
  show ?thesis
    unfolding read_miss_mem_def
  proof (rule runs_around [OF data_read_block_owned], goal_cases)
    case (1 x d P)
    then have x: "x = d" "P = {#}" by auto
    have lost: "block_lost E fc pos disk_size ctx = refused E pos d ctx" using 1(1) by (simp add: block_lost_def)
    show ?case unfolding sum.case x add_0
    proof (rule runs_bind_any [OF cache_block_owned], goal_cases)
      case (1 y v Q)
      then have y: "y = v" and Q: "y \<noteq> None \<longrightarrow> size Q = (if refused E pos d ctx then 2 else 0)"
        by (simp_all add: block_rel_def)
      show ?case
      proof (cases v)
        case None
        with 1(1) have "cache_block E pos d ctx = None"
          by (auto simp: op_result_def split: option.splits sum.splits failure.splits)
        with \<open>?rd = Inr d\<close> show ?thesis
          by (auto simp: y None read_miss_def obind_def block_rel_def intro!: runs_return)
      next
        case (Some z)
        obtain u c where z: "z = (u, c)" by fastforce
        with 1(1) Some cache_block_no_error have cb: "cache_block E pos d ctx = Some (Inr (), c)"
          by (auto simp: op_result_def split: option.splits sum.splits failure.splits)
        have "runs (own_bind (own_lift (copy_decoded (unat (fc_block_size fc)) d off remaining)) (\<lambda>b.
            own_lift (Inr (Some (Inr (Read_more b), c))))) Q
          (rbind (copy_decoded (unat (fc_block_size fc)) d off remaining) (\<lambda>b. Inr (Some (Inr (Read_more b), c))))
          (block_rel (block_lost E fc pos disk_size ctx))"
          using Q Some y by (intro runs_sure runs_return) (auto simp: copy_decoded_no_error block_rel_def lost)
        moreover have "op_result (read_miss E fc pos disk_size off remaining ctx)
            = rbind (copy_decoded (unat (fc_block_size fc)) d off remaining) (\<lambda>b. Inr (Some (Inr (Read_more b), c)))"
          using \<open>?rd = Inr d\<close> cb copy_decoded_no_error [of "unat (fc_block_size fc)" d off remaining]
          by (cases "copy_decoded (unat (fc_block_size fc)) d off remaining")
            (auto simp: read_miss_def obind_def op_result_def split: failure.splits)
        ultimately show ?thesis by (simp add: y Some z)
      qed
    next
      case (2 e)
      then show ?case using cache_block_no_error
        by (auto simp: op_result_def split: option.splits sum.splits failure.splits)
    next
      case (3 k)
      then obtain c where "cache_block E pos d ctx = Some (Inl (Fault k), c)"
        by (auto simp: op_result_def split: option.splits sum.splits failure.splits)
      with \<open>?rd = Inr d\<close> show ?case by (simp add: read_miss_def obind_def)
    qed
  next
    case (2 e)
    then show ?case by (auto simp: read_miss_def obind_def block_lost_def block_rel_def intro!: runs_return)
  next
    case (3 k)
    then show ?case by (simp add: read_miss_def obind_def)
  qed
qed

section \<open>The tail of a file\<close>

text \<open>The result of \<open>sqfs_cache_put\<close> decides here who frees the entry, after the copy.\<close>

definition fragment_miss_mem :: "heap_env \<Rightarrow> u32 \<Rightarrow> nat \<Rightarrow> nat \<Rightarrow> sqfs_ctx \<Rightarrow> byte list cache_own" where
  "fragment_miss_mem E frag_idx offset sz ctx =
     (let bsize = unat (block_size (disk (ctx_sb ctx))) in
      own_alloc (sqfs_calloc (h_mem E) 1 SIZEOF_block_entry) (own_lift (Inr (Some (Inl SQFS_ERR_NO_MEMORY, ctx)))) (\<lambda>entry.
      own_alloc (sqfs_malloc (h_mem E) bsize)
        (own_bind (sqfs_fragment_cache_entry_free (Some (entry, None))) (\<lambda>_.
          own_lift (Inr (Some (Inl SQFS_ERR_NO_MEMORY, ctx))))) (\<lambda>data.
      own_try (sqfs_fragment_read_block_mem (h_mem E) ctx frag_idx) (\<lambda>ret.
        case ret of
          Inl e \<Rightarrow> own_bind (sqfs_fragment_cache_entry_free (Some (entry, Some data))) (\<lambda>_.
            own_lift (Inr (Some (Inl e, ctx))))
        | Inr d \<Rightarrow>
            let frag = zero_block_entry\<lparr>be_data := Some d, be_data_size := length d, be_is_cached := True\<rparr>
            in own_bind (data_cache_put_mem E (sqfs_fragment_cache_key frag_idx) frag [data, entry]
                (of_nat SIZEOF_block_entry + ucast (block_size (disk (ctx_sb ctx)))) ctx) (\<lambda>r.
              case r of
                None \<Rightarrow> own_lift (Inr None)
              | Some (ret, ctx) \<Rightarrow>
                  own_bind (own_lift (fragment_copy bsize frag offset sz)) (\<lambda>b.
                    own_bind (if ret = Inr None then own_lift (Inr ())
                              else sqfs_fragment_cache_entry_free (Some (entry, Some data))) (\<lambda>_.
                      own_lift (Inr (Some (Inr b, ctx))))))))))"

definition sqfs_fragment_read_mem :: "heap_env \<Rightarrow> u32 \<Rightarrow> u32 \<Rightarrow> nat \<Rightarrow> sqfs_ctx \<Rightarrow> byte list cache_own" where
  "sqfs_fragment_read_mem E frag_idx offset sz ctx =
     (let bsize = unat (block_size (disk (ctx_sb ctx))) in
      if sqfs_fragment_is_none frag_idx then own_lift (Inr (Some (Inl SQFS_ERR_NOT_FOUND, ctx)))
      else if bsize \<le> unat offset then own_lift (Inr (Some (Inl SQFS_ERR_CORRUPT, ctx)))
      else case data_cache_get (sqfs_fragment_cache_key frag_idx) ctx of
          None \<Rightarrow> own_lift (Inr None)
        | Some (Inl (Fault f), ctx) \<Rightarrow> own_lift (Inl (Fault f))
        | Some (Inl (Err e), ctx) \<Rightarrow> own_lift (Inr (Some (Inl e, ctx)))
        | Some (Inr cached, ctx) \<Rightarrow>
            (case cached of
               Some frag \<Rightarrow>
                 if be_is_cached frag then
                   own_bind (own_lift (fragment_copy bsize frag (unat offset) sz)) (\<lambda>b. own_lift (Inr (Some (Inr b, ctx))))
                 else fragment_miss_mem E frag_idx (unat offset) sz ctx
             | None \<Rightarrow> fragment_miss_mem E frag_idx (unat offset) sz ctx))"

lemma fragment_copy_no_error: "\<forall>e. fragment_copy n frag off sz \<noteq> Inl (Err e)"
  by (simp add: fragment_copy_def Let_def mem_read_no_error split: option.split)

lemma same_sb_put:
  "data_cache_put E k v s ctx = Some (r, c) \<Longrightarrow> ctx_sb c = ctx_sb ctx"
  by (auto simp: data_cache_put_def split: option.splits sum.splits failure.splits)

text \<open>A copy at the end, with what is left to free.\<close>

lemma runs_copy_out:
  assumes "\<And>b. runs (f b) M (Inr (Some (Inr b, c))) (block_rel False)"
  shows "runs (own_bind (own_lift (fragment_copy n frag off sz)) f) M (op_result (Some (fragment_copy n frag off sz, c))) (block_rel False)"
proof -
  have eq: "op_result (Some (fragment_copy n frag off sz, c)) = rbind (fragment_copy n frag off sz) (\<lambda>b. Inr (Some (Inr b, c)))"
    using fragment_copy_no_error [of n frag off sz]
    by (cases "fragment_copy n frag off sz") (auto simp: op_result_def split: failure.splits)
  show ?thesis unfolding eq by (rule runs_sure [OF fragment_copy_no_error assms])
qed

definition fragment_miss :: "heap_env \<Rightarrow> u32 \<Rightarrow> nat \<Rightarrow> nat \<Rightarrow> byte list op" where
  "fragment_miss E frag_idx offset sz ctx =
     obind (fragment_fetch E frag_idx) (\<lambda>frag. olift (fragment_copy (unat (block_size (disk (ctx_sb ctx)))) frag offset sz)) ctx"

lemma fragment_miss_owned:
  "runs (fragment_miss_mem E frag_idx offset sz ctx) {#} (op_result (fragment_miss E frag_idx offset sz ctx)) (block_rel False)"
proof (cases "sqfs_calloc (h_mem E) 1 SIZEOF_block_entry = 0")
  case True
  then show ?thesis
    by (auto simp: fragment_miss_mem_def fragment_miss_def fragment_fetch_def sqfs_fragment_cache_entry_new_def own_alloc_def
        obind_def block_rel_def Let_def intro!: runs_alloc_first runs_return)
next
  case c: False
  let ?b = "unat (block_size (disk (ctx_sb ctx)))" and ?key = "sqfs_fragment_cache_key frag_idx"
  let ?s = "of_nat SIZEOF_block_entry + ucast (block_size (disk (ctx_sb ctx))) :: u64"
  let ?frag = "\<lambda>d. zero_block_entry\<lparr>be_data := Some d, be_data_size := length d, be_is_cached := True\<rparr>"
  show ?thesis
    unfolding fragment_miss_mem_def Let_def
  proof (rule runs_alloc_first, goal_cases)
    case (2 entry)
    show ?case
    proof (rule runs_alloc, goal_cases)
      case 1
      with c show ?case
        by (auto simp: fragment_miss_def fragment_fetch_def sqfs_fragment_cache_entry_new_def obind_def block_rel_def
            fragment_entry_free_same intro!: runs_entry_free [OF runs_return])
    next
      case (2 data)
      note mem = 2 c
      have miss: "fragment_miss E frag_idx offset sz ctx
          = obind (olift (sqfs_fragment_read_block (h_mem E) ctx frag_idx)) (\<lambda>d.
              obind (data_cache_put E ?key (?frag d) ?s) (\<lambda>_. olift (fragment_copy ?b (?frag d) offset sz))) ctx"
        using mem by (auto simp: fragment_miss_def fragment_fetch_def sqfs_fragment_cache_entry_new_def obind_def Let_def
            split: sum.split option.split)
      show ?case
      proof (rule runs_around [OF fragment_read_block_owned], goal_cases)
        case (1 x d P)
        then have x: "x = d" "P = {#}" by auto
        show ?case unfolding sum.case x add_0
          by (rule data_cache_put_cases [of E ?key "?frag d" ?s ctx])
            (use 1(1) in \<open>auto simp: miss data_cache_put_mem_def own_bind_assoc hand_over_def fragment_entry_free_same
               obind_def block_rel_def intro!: runs_return runs_copy_out runs_entry_free [OF runs_return] runs_free_first\<close>)
      next
        case (2 e)
        then show ?case
          by (auto simp: miss obind_def block_rel_def fragment_entry_free_same intro!: runs_entry_free [OF runs_return])
      next
        case (3 k)
        then show ?case by (simp add: miss obind_def)
      qed
    qed
  qed (use c in simp)
qed

lemma fragment_read_owned:
  "runs (sqfs_fragment_read_mem E frag_idx offset sz ctx) {#} (op_result (sqfs_fragment_read E frag_idx offset sz ctx)) (block_rel False)"
proof (cases "sqfs_fragment_is_none frag_idx \<or> unat (block_size (disk (ctx_sb ctx))) \<le> unat offset")
  case True
  then show ?thesis
    by (auto simp: sqfs_fragment_read_mem_def sqfs_fragment_read_def block_rel_def Let_def intro!: runs_return)
next
  case False
  let ?get = "data_cache_get (sqfs_fragment_cache_key frag_idx) ctx"
  have no_error: "?get \<noteq> Some (Inl (Err e), c)" for e c
    by (auto simp: data_cache_get_def split: option.split sum.split failure.split)
  have sb: "ctx_sb c = ctx_sb ctx" if "?get = Some (r, c)" for r c
    using that by (auto simp: data_cache_get_def split: option.splits sum.splits failure.splits)
  consider "?get = None" | f c where "?get = Some (Inl (Fault f), c)" | v c where "?get = Some (Inr v, c)"
    using no_error by (metis (no_types) failure.exhaust not_None_eq prod.exhaust sum.exhaust)
  then show ?thesis
  proof cases
    case (3 v c)
    show ?thesis
    proof (cases "v = None \<or> \<not> be_is_cached (the v)")
      case True
      with 3 False fragment_miss_owned [of E frag_idx "unat offset" sz c] sb [OF 3] show ?thesis
        by (auto simp: sqfs_fragment_read_mem_def sqfs_fragment_read_def fragment_miss_def obind_def Let_def split: option.splits)
    next
      case cached: False
      with 3 False show ?thesis
        by (auto simp: sqfs_fragment_read_mem_def sqfs_fragment_read_def obind_def Let_def block_rel_def
            intro!: runs_copy_out runs_return)
    qed
  qed (use False in \<open>auto simp: sqfs_fragment_read_mem_def sqfs_fragment_read_def obind_def Let_def block_rel_def
      intro!: runs_return\<close>)
qed

section \<open>Blocks that do not fit the cache\<close>

definition read_stored_mem ::
  "heap_env \<Rightarrow> sqfs_file_ctx \<Rightarrow> u64 \<Rightarrow> u32 \<Rightarrow> nat \<Rightarrow> nat \<Rightarrow> sqfs_ctx \<Rightarrow> read_step cache_own" where
  "read_stored_mem E fc block_pos disk_size block_offset remaining ctx =
     (case data_cache_get (sqfs_data_block_cache_key block_pos) ctx of
        None \<Rightarrow> own_lift (Inr None)
      | Some (Inl (Fault f), ctx) \<Rightarrow> own_lift (Inl (Fault f))
      | Some (Inl (Err e), ctx) \<Rightarrow> own_lift (Inr (Some (Inl e, ctx)))
      | Some (Inr cached, ctx) \<Rightarrow>
          (case copy_cached cached block_offset remaining of
             Some r \<Rightarrow> own_bind (own_lift r) (\<lambda>b. own_lift (Inr (Some (Inr (Read_more b), ctx))))
           | None \<Rightarrow> read_miss_mem E fc block_pos disk_size block_offset remaining ctx))"

text \<open>The same read, again and again.\<close>

fun read_again ::
  "heap_env \<Rightarrow> sqfs_file_ctx \<Rightarrow> u64 \<Rightarrow> u32 \<Rightarrow> nat \<Rightarrow> nat \<Rightarrow> nat \<Rightarrow> sqfs_ctx \<times> arena \<Rightarrow> (sqfs_ctx \<times> arena) option" where
  "read_again E fc pos disk_size off remaining 0 st = Some st"
| "read_again E fc pos disk_size off remaining (Suc n) st =
     (case read_stored_mem E fc pos disk_size off remaining (fst st) (snd st) of
        (Inr (Some (Inr _, ctx)), h) \<Rightarrow> read_again E fc pos disk_size off remaining n (ctx, h)
      | _ \<Rightarrow> None)"

definition too_large :: "u64 \<Rightarrow> byte list \<Rightarrow> sqfs_ctx \<Rightarrow> bool" where
  "too_large pos d ctx \<longleftrightarrow> cache_valid (ctx_data_cache ctx)
     \<and> (\<forall>v. (sqfs_data_block_cache_key pos, v) \<notin> cache_bindings (ctx_data_cache ctx))
     \<and> c_max_memory (ctx_data_cache ctx) < of_nat SIZEOF_block_entry + of_nat (length d)"

lemma too_large_get:
  assumes "too_large pos d ctx"
  obtains c where "data_cache_get (sqfs_data_block_cache_key pos) ctx = Some (Inr None, ctx\<lparr>ctx_data_cache := c\<rparr>)"
    and "too_large pos d (ctx\<lparr>ctx_data_cache := c\<rparr>)"
proof -
  let ?c = "ctx_data_cache ctx" and ?k = "sqfs_data_block_cache_key pos"
  from assms have valid: "cache_valid ?c" and none: "\<forall>v. (?k, v) \<notin> cache_bindings ?c" by (simp_all add: too_large_def)
  from valid obtain ps where inv: "cache_inv ?c ps" by (auto simp: cache_valid_def)
  from cache_get_law [OF valid, of ?k] none obtain c where get: "sqfs_cache_get ?c ?k = Some (Inr (None, c))"
    "cache_valid c" "cache_bindings c = cache_bindings ?c" by (metis not_None_eq)
  have "c_max_memory c = c_max_memory ?c" using cache_get_ok [OF inv, of ?k] get(1) by auto
  with get assms that show thesis by (auto simp: data_cache_get_def too_large_def)
qed

lemma too_large_refused:
  assumes "too_large pos d ctx"
  shows "data_cache_put E (sqfs_data_block_cache_key pos) v (of_nat SIZEOF_block_entry + of_nat (length d)) ctx
    = Some (Inr (Some E2BIG), ctx)"
  using assms by (simp add: data_cache_put_def too_large_def put_too_large)

lemma too_large_step:
  assumes large: "too_large pos d ctx"
    and rd: "sqfs_data_read_block (h_mem E) (sb_fd (ctx_sb ctx)) pos disk_size (unat (fc_block_size fc)) (ctx_comp ctx) = Inr d"
    and d: "d \<noteq> []" and copy: "copy_decoded (unat (fc_block_size fc)) d off remaining = Inr b"
    and mem: "\<forall>k. h_mem E k \<noteq> 0" and ok: "arena_ok h"
  obtains c h' where "read_stored_mem E fc pos disk_size off remaining ctx h
      = (Inr (Some (Inr (Read_more b), ctx\<lparr>ctx_data_cache := c\<rparr>)), h')"
    and "arena_ok h'" and "size (ar_live h') = size (ar_live h) + 2" and "too_large pos d (ctx\<lparr>ctx_data_cache := c\<rparr>)"
proof -
  from large obtain c where get: "data_cache_get (sqfs_data_block_cache_key pos) ctx = Some (Inr None, ctx\<lparr>ctx_data_cache := c\<rparr>)"
    and large': "too_large pos d (ctx\<lparr>ctx_data_cache := c\<rparr>)" by (rule too_large_get)
  let ?ctx = "ctx\<lparr>ctx_data_cache := c\<rparr>"
  have rd': "sqfs_data_read_block (h_mem E) (sb_fd (ctx_sb ?ctx)) pos disk_size (unat (fc_block_size fc)) (ctx_comp ?ctx) = Inr d"
    using rd by simp
  have alloc: "sqfs_calloc (h_mem E) 1 SIZEOF_block_entry \<noteq> 0" "sqfs_malloc (h_mem E) (length d) \<noteq> 0"
    using mem by (simp_all add: sqfs_calloc_def sqfs_malloc_def SIZEOF_block_entry_def)
  note put = too_large_refused [OF large', of E]
  have lost: "block_lost E fc pos disk_size ?ctx"
    unfolding block_lost_def rd' sum.case refused_def using d alloc put by blast
  have "cache_block E pos d ?ctx = Some (Inr (), ?ctx)"
    using d alloc put by (auto simp: cache_block_def sqfs_data_block_cache_new_def obind_def)
  then have v: "read_miss E fc pos disk_size off remaining ?ctx = Some (Inr (Read_more b), ?ctx)"
    unfolding read_miss_def rd' by (simp add: copy)
  have m: "read_stored_mem E fc pos disk_size off remaining ctx = read_miss_mem E fc pos disk_size off remaining ?ctx"
    by (simp add: read_stored_mem_def get copy_cached_def)
  have l: "ar_live h = {#} + ar_live h" by simp
  have "\<exists>h'. read_miss_mem E fc pos disk_size off remaining ?ctx h = (Inr (Some (Inr (Read_more b), ?ctx)), h')
      \<and> arena_ok h' \<and> size (ar_live h') = size (ar_live h) + 2"
    by (rule runsD [OF read_miss_owned [of E fc pos disk_size off remaining ?ctx] ok l])
      (use v lost in \<open>auto simp: block_rel_def\<close>)
  with m large' that show thesis by metis
qed

text \<open>A mount with \<open>--cache-size=1\<close>: half a MiB for data, too little for blocks of half a MiB and more.\<close>

lemma one_mib_too_large:
  assumes "fst (init_context lib mem env fd 1 False g) = Some (Inr ctx)" and "2 ^ 19 \<le> length d" and "length d \<le> 2 ^ 20"
  shows "too_large pos d ctx"
proof -
  from init_context_zero [OF assms(1)] obtain sb c where
    "init_tables mem env 1 False (zero_ctx sb (Some c) False) = Some (Inr ctx)" by blast
  from init_tables_ok [OF this] obtain ctx1 where c1: "init_caches env 1 (zero_ctx sb (Some c) False) = (True, ctx1)"
    and same: "ctx_data_cache ctx = ctx_data_cache ctx1" by auto
  have "c_max_memory (ctx_data_cache ctx) = 2 ^ 19"
    using c1 by (auto simp: same init_caches_def Let_def sqfs_cache_init_def split: sum.splits if_splits)
  moreover have inv: "cache_inv (ctx_data_cache ctx) []" using init_context_ok [OF assms(1)] by simp
  moreover have "unat (of_nat SIZEOF_block_entry + of_nat (length d) :: u64) = 32 + length d"
    using assms(3) by (simp add: SIZEOF_block_entry_def unat_word_ariths unat_of_nat)
  ultimately show ?thesis
    using assms(2) cache_bindings_abs [OF inv] by (auto simp: too_large_def cache_valid_def word_less_nat_alt)
qed

section \<open>Properties\<close>

text \<open>C35: a cache that is too small leaks. When a data block with its entry is larger than the data cache may ever be
  (as blocks of 1 MiB are with \<open>--cache-size=1\<close>, whose half the data cache gets), every read of the block delivers its
  bytes and loses two blocks, the entry made for the cache and its copy of the data, because the result of
  \<open>sqfs_cache_put\<close> is ignored: after \<open>n\<close> reads there are \<open>2 n\<close> live blocks more, for every \<open>n\<close>.\<close>

theorem small_cache_leaks:
  assumes "too_large pos d (fst st)" and "d \<noteq> []"
    and "sqfs_data_read_block (h_mem E) (sb_fd (ctx_sb (fst st))) pos disk_size (unat (fc_block_size fc)) (ctx_comp (fst st)) = Inr d"
    and "copy_decoded (unat (fc_block_size fc)) d off remaining = Inr b" and "\<forall>k. h_mem E k \<noteq> 0" and "arena_ok (snd st)"
  shows "\<exists>st'. read_again E fc pos disk_size off remaining n st = Some st'
    \<and> size (ar_live (snd st')) = size (ar_live (snd st)) + 2 * n"
  using assms(1,3,6)
proof (induction n arbitrary: st)
  case (Suc n)
  from Suc.prems(1,2) assms(2,4,5) Suc.prems(3) obtain c h' where
    step: "read_stored_mem E fc pos disk_size off remaining (fst st) (snd st)
      = (Inr (Some (Inr (Read_more b), (fst st)\<lparr>ctx_data_cache := c\<rparr>)), h')"
      "arena_ok h'" "size (ar_live h') = size (ar_live (snd st)) + 2" "too_large pos d ((fst st)\<lparr>ctx_data_cache := c\<rparr>)"
    by (rule too_large_step)
  from Suc.IH [of "((fst st)\<lparr>ctx_data_cache := c\<rparr>, h')"] step Suc.prems(2) show ?case by auto
qed simp

text \<open>The small image of \<open>DataClaims\<close> with a data cache of 30 bytes, less than an entry.\<close>

definition tight_ctx :: sqfs_ctx where
  "tight_ctx = small_ctx\<lparr>ctx_data_cache := block_cache\<lparr>c_max_memory := 30\<rparr>\<rparr>"

lemma tight_too_large: "too_large 3 [1, 2, 3, 4] tight_ctx"
proof -
  have "sqfs_cache_init True True 4 30 True = Inr (block_cache\<lparr>c_max_memory := 30\<rparr>)"
    by (simp add: sqfs_cache_init_def block_cache_def initial_buckets.simps [of 64 4])
  from cache_init_ok [OF this] have inv: "cache_inv (block_cache\<lparr>c_max_memory := 30\<rparr>) []" by simp
  then show ?thesis
    using cache_bindings_abs [OF inv] by (auto simp: too_large_def tight_ctx_def cache_valid_def SIZEOF_block_entry_def)
qed

theorem small_cache_leaks_witness:
  "\<exists>st'. read_again small_heap small_fc 3 0x1000004 0 4 1000 (tight_ctx, empty_arena) = Some st'
     \<and> size (ar_live (snd st')) = 2000"
proof -
  have rd: "sqfs_data_read_block (h_mem small_heap) (sb_fd (ctx_sb tight_ctx)) 3 0x1000004 (unat (fc_block_size small_fc))
      (ctx_comp tight_ctx) = Inr [1, 2, 3, 4]"
    using small_block [of 3 "0x1000004"]
    by (simp add: tight_ctx_def small_fc_def sqfs_block_size_get_def sqfs_block_is_uncompressed_def segment_def)
  have copy: "copy_decoded (unat (fc_block_size small_fc)) [1, 2, 3, 4] 0 4 = Inr [1, 2, 3, 4]"
    by (simp add: copy_decoded_def small_fc_def segment_def)
  from small_cache_leaks [of 3 "[1, 2, 3, 4]" "(tight_ctx, empty_arena)", OF _ _ _ copy, of small_heap "0x1000004" 1000]
    rd tight_too_large mem_ok_pos show ?thesis by simp
qed

end
