(* ===== verification/OwnershipFile.thy ===== *)
theory OwnershipFile
  imports OwnershipRead
begin

text \<open>
  A whole read of a file on the arena: the loop of \<open>sqfs_data_read_internal\<close> (\<open>core/data.c\<close>) with its work buffer, the tail
  out of a fragment, the callback above it (\<open>vfs/vfs_ops.c\<close>, \<open>fuse/vfs_fuse.c\<close>), and the account of a mount whose
  callbacks are in any order, reads among them.
\<close>

section \<open>A cache that takes every block\<close>

text \<open>The data cache can hold a block with its entry, and there is memory for the entries of the cache.\<close>

definition room :: "heap_env \<Rightarrow> sqfs_ctx \<Rightarrow> bool" where
  "room E ctx \<longleftrightarrow> cache_valid (ctx_data_cache ctx) \<and> comp_bounded (ctx_comp ctx)
     \<and> serves (guard_alloc (h_entry E)) (unat (c_max_entries (ctx_data_cache ctx)))
     \<and> SIZEOF_block_entry + unat (block_size (disk (ctx_sb ctx))) \<le> unat (c_max_memory (ctx_data_cache ctx))"

lemma room_kept:
  assumes "room E ctx" and "keeps m" and "m ctx = Some (r, ctx')"
  shows "room E ctx'"
proof -
  from assms(1) have "cache_valid (ctx_data_cache ctx)" by (simp add: room_def)
  from keepsD [OF assms(2) this assms(3)] assms(1) show ?thesis
    by (auto simp: room_def same_limits_def same_ctx_fields)
qed

lemma room_not_refused:
  assumes "room E ctx" and "length d \<le> unat (block_size (disk (ctx_sb ctx)))"
  shows "\<not> refused E pos d ctx"
proof -
  let ?s = "of_nat SIZEOF_block_entry + of_nat (length d) :: u64"
  have "SIZEOF_block_entry + length d \<le> unat (c_max_memory (ctx_data_cache ctx))" using assms by (simp add: room_def)
  moreover have "unat ?s \<le> SIZEOF_block_entry + length d"
    by (metis of_nat_add unat_of_nat mod_less_eq_dividend)
  ultimately have "?s \<le> c_max_memory (ctx_data_cache ctx)" by (simp add: word_le_nat_alt)
  from put_accepts [OF _ this guard_alloc_fresh, of "h_entry E" "h_table E" "sqfs_data_block_cache_key pos" "cache_block_entry pos d"]
    assms(1) obtain c where "sqfs_cache_put (guard_alloc (h_entry E)) (h_table E) (ctx_data_cache ctx)
      (sqfs_data_block_cache_key pos) (Some (cache_block_entry pos d)) ?s = Some (Inr (None, c))" by (auto simp: room_def)
  then show ?thesis by (simp add: refused_def data_cache_put_def)
qed

lemma room_not_lost:
  assumes "room E ctx" and "fc_block_size fc = block_size (disk (ctx_sb ctx))"
  shows "\<not> block_lost E fc pos disk_size ctx"
proof -
  from assms(1) have "comp_bounded (ctx_comp ctx)" by (simp add: room_def)
  from data_read_block_result(2) [OF this] assms room_not_refused [OF assms(1)] show ?thesis
    by (auto simp: block_lost_def split: sum.split)
qed

text \<open>With room there is nothing left.\<close>

definition kept_rel :: "heap_env \<Rightarrow> sqfs_ctx \<Rightarrow> 'a option \<Rightarrow> 'a option \<Rightarrow> nat multiset \<Rightarrow> bool" where
  "kept_rel E ctx x v P \<longleftrightarrow> x = v \<and> (room E ctx \<longrightarrow> x \<noteq> None \<longrightarrow> P = {#})"

lemma kept_of_block: "block_rel lost x v P \<Longrightarrow> (room E ctx \<Longrightarrow> \<not> lost) \<Longrightarrow> kept_rel E ctx x v P"
  by (auto simp: kept_rel_def block_rel_def)

lemma kept_refl [simp]: "kept_rel E ctx v v {#}"
  by (simp add: kept_rel_def)

section \<open>The tail\<close>

definition read_from_fragment_mem :: "heap_env \<Rightarrow> u32 \<Rightarrow> u32 \<Rightarrow> nat \<Rightarrow> sqfs_ctx \<Rightarrow> byte list cache_own" where
  "read_from_fragment_mem E frag_idx frag_offset sz ctx =
     own_bind (sqfs_fragment_read_mem E frag_idx frag_offset sz ctx) (\<lambda>r.
       own_lift (Inr (map_option (\<lambda>(ret, ctx). (Inr (case ret of Inl e \<Rightarrow> replicate sz 0 | Inr b \<Rightarrow> b), ctx)) r)))"

lemma op_result_no_error [simp]: "op_result x \<noteq> Inl (Err e)"
  by (auto simp: op_result_def split: option.split sum.split failure.split)

lemma read_from_fragment_owned:
  "runs (read_from_fragment_mem E f off sz ctx) {#} (op_result (read_from_fragment E f off sz ctx)) (block_rel False)"
proof -
  have eq: "op_result (read_from_fragment E f off sz ctx) = rbind (op_result (sqfs_fragment_read E f off sz ctx))
      (\<lambda>r. Inr (map_option (\<lambda>(ret, ctx). (Inr (case ret of Inl e \<Rightarrow> replicate sz 0 | Inr b \<Rightarrow> b), ctx)) r))"
    by (auto simp: read_from_fragment_def op_result_def split: option.split sum.split failure.split)
  show ?thesis unfolding eq read_from_fragment_mem_def
    by (rule runs_bind [OF fragment_read_owned]) (auto simp: block_rel_def intro!: runs_return)
qed

section \<open>One round of the loop\<close>

lemma read_stored_owned:
  assumes fc: "fc_block_size fc = block_size (disk (ctx_sb ctx))" and valid: "cache_valid (ctx_data_cache ctx)"
  shows "runs (read_stored_mem E fc pos disk_size off remaining ctx) {#}
    (op_result (read_stored E fc pos disk_size off remaining ctx)) (kept_rel E ctx)"
proof -
  let ?k = "sqfs_data_block_cache_key pos"
  from cache_get_law [OF valid, of ?k] obtain v c where
    get: "data_cache_get ?k ctx = Some (Inr v, ctx\<lparr>ctx_data_cache := c\<rparr>)" by (auto simp: data_cache_get_def)
  let ?ctx = "ctx\<lparr>ctx_data_cache := c\<rparr>"
  have room: "room E ctx \<Longrightarrow> room E ?ctx" by (rule room_kept [OF _ keeps_get get])
  show ?thesis
  proof (cases "copy_cached v off remaining")
    case None
    have "runs (read_miss_mem E fc pos disk_size off remaining ?ctx) {#}
        (op_result (read_miss E fc pos disk_size off remaining ?ctx)) (kept_rel E ctx)"
      using read_miss_owned by (rule runs_weaken) (use room room_not_lost [of E ?ctx fc pos disk_size] fc in \<open>auto intro: kept_of_block\<close>)
    with None show ?thesis by (simp add: read_stored_mem_def read_stored_def obind_def get)
  next
    case (Some r)
    then have r: "r \<noteq> Inl (Err e)" for e
      by (auto simp: copy_cached_def Let_def mem_read_no_error split: option.splits if_splits)
    have "runs (own_bind (own_lift r) (\<lambda>b. own_lift (Inr (Some (Inr (Read_more b), ?ctx))))) {#}
        (rbind r (\<lambda>b. Inr (Some (Inr (Read_more b), ?ctx)))) (kept_rel E ctx)"
      by (rule runs_sure) (auto simp: r intro!: runs_return)
    moreover have "op_result (Some (rbind r (\<lambda>b. Inr (Read_more b)), ?ctx)) = rbind r (\<lambda>b. Inr (Some (Inr (Read_more b), ?ctx)))"
      using r by (cases r) (auto simp: op_result_def split: failure.split)
    ultimately show ?thesis using Some by (simp add: read_stored_mem_def read_stored_def obind_def get)
  qed
qed

definition data_read_step_mem :: "heap_env \<Rightarrow> sqfs_file_ctx \<Rightarrow> u64 \<Rightarrow> nat \<Rightarrow> sqfs_ctx \<Rightarrow> read_step cache_own" where
  "data_read_step_mem E fc pos remaining ctx =
     (if fc_block_size fc = 0 then own_lift (Inl (Fault Div_By_Zero))
      else let block_idx = ucast (pos div ucast (fc_block_size fc)) :: u32;
               block_offset = unat (pos mod ucast (fc_block_size fc))
      in if block_idx = fc_block_count fc \<and> \<not> sqfs_fragment_is_none (fc_frag_idx fc) then
           own_bind (read_from_fragment_mem E (fc_frag_idx fc) (fc_frag_offset fc + of_nat block_offset) remaining ctx) (\<lambda>r.
             own_lift (Inr (map_option (\<lambda>(ret, ctx). (case ret of Inl e \<Rightarrow> Inl e | Inr b \<Rightarrow> Inr (Read_done b), ctx)) r)))
         else case sqfs_file_block_location fc block_idx of
             Inl (Fault f) \<Rightarrow> own_lift (Inl (Fault f))
           | Inl (Err e) \<Rightarrow>
               if e = SQFS_ERR_NOT_FOUND \<and> block_idx = fc_block_count fc
               then own_lift (Inr (Some (Inr (Read_done (replicate remaining 0)), ctx)))
               else own_lift (Inr (Some (Inl e, ctx)))
           | Inr (block_pos, disk_size, is_uncompressed) \<Rightarrow>
               if disk_size = 0 then
                 (let to_copy = unat (fc_block_size fc) - block_offset;
                      to_copy = (if remaining < to_copy then remaining else to_copy)
                  in own_lift (Inr (Some (Inr (Read_more (replicate to_copy 0)), ctx))))
               else read_stored_mem E fc block_pos disk_size block_offset remaining ctx)"

lemma read_step_owned:
  assumes fc: "fc_block_size fc = block_size (disk (ctx_sb ctx))" and valid: "cache_valid (ctx_data_cache ctx)"
  shows "runs (data_read_step_mem E fc pos remaining ctx) {#} (op_result (data_read_step E fc pos remaining ctx)) (kept_rel E ctx)"
proof (cases "fc_block_size fc = 0")
  case False
  define i where "i = (ucast (pos div ucast (fc_block_size fc)) :: u32)"
  define off where "off = unat (pos mod ucast (fc_block_size fc))"
  note step = data_read_step_mem_def data_read_step_def Let_def i_def [symmetric] off_def [symmetric]
  show ?thesis
  proof (cases "i = fc_block_count fc \<and> \<not> sqfs_fragment_is_none (fc_frag_idx fc)")
    case True
    let ?rd = "read_from_fragment E (fc_frag_idx fc) (fc_frag_offset fc + of_nat off) remaining"
    have eq: "op_result (obind ?rd (\<lambda>b. olift (Inr (Read_done b))) ctx) = rbind (op_result (?rd ctx))
        (\<lambda>r. Inr (map_option (\<lambda>(ret, ctx). (case ret of Inl e \<Rightarrow> Inl e | Inr b \<Rightarrow> Inr (Read_done b), ctx)) r))"
      by (auto simp: obind_def op_result_def split: option.split sum.split failure.split)
    show ?thesis
      unfolding step if_not_P [OF False] if_P [OF True] eq
      by (rule runs_bind [OF read_from_fragment_owned]) (auto simp: block_rel_def kept_rel_def intro!: runs_return)
  next
    case tail: False
    show ?thesis
      unfolding step if_not_P [OF False] if_not_P [OF tail]
      by (auto simp: op_result_def split: sum.split failure.split intro!: runs_return read_stored_owned [OF fc valid, unfolded op_result_def])
  qed
qed (simp add: data_read_step_mem_def data_read_step_def)

section \<open>The loop\<close>

text \<open>As without the arena, \<open>None\<close> is a loop that never ends.\<close>

partial_function (option) data_read_loop_mem ::
  "heap_env \<Rightarrow> sqfs_file_ctx \<Rightarrow> u64 \<Rightarrow> byte list \<Rightarrow> nat \<Rightarrow> sqfs_ctx \<Rightarrow> arena
   \<Rightarrow> ((sqfs_error failure + (sqfs_error + byte list) \<times> sqfs_ctx) \<times> arena) option" where
  "data_read_loop_mem E fc pos out remaining ctx h =
     (if remaining = 0 then Some (Inr (Inr out, ctx), h)
      else case fst (data_read_step_mem E fc pos remaining ctx h) of
          Inl e \<Rightarrow> Some (Inl e, snd (data_read_step_mem E fc pos remaining ctx h))
        | Inr z \<Rightarrow>
            (case z of
               None \<Rightarrow> None
             | Some p \<Rightarrow>
                 (case fst p of
                    Inl e \<Rightarrow> Some (Inr (Inl e, snd p), snd (data_read_step_mem E fc pos remaining ctx h))
                  | Inr s \<Rightarrow>
                      (case s of
                         Read_done b \<Rightarrow> Some (Inr (Inr (out @ b), snd p), snd (data_read_step_mem E fc pos remaining ctx h))
                       | Read_more b \<Rightarrow> data_read_loop_mem E fc (pos + of_nat (length b)) (out @ b) (remaining - length b)
                           (snd p) (snd (data_read_step_mem E fc pos remaining ctx h))))))"

text \<open>What the loop relies on of its context, and what the context keeps of it.\<close>

definition block_ready :: "sqfs_file_ctx \<Rightarrow> sqfs_ctx \<Rightarrow> bool" where
  "block_ready fc ctx \<longleftrightarrow> fc_block_size fc = block_size (disk (ctx_sb ctx)) \<and> cache_valid (ctx_data_cache ctx)"

lemma step_ready:
  assumes "block_ready fc ctx" and "data_read_step E fc pos remaining ctx = Some (r, ctx')"
  shows "block_ready fc ctx'" and "room E ctx \<Longrightarrow> room E ctx'"
  using keepsD [OF keeps_read_step _ assms(2)] room_kept [OF _ keeps_read_step assms(2)] assms(1)
  by (auto simp: block_ready_def same_ctx_fields)

text \<open>A round on the arena, by the outcome of the round without it.\<close>

lemma step_cases:
  assumes "block_ready fc ctx" and "arena_ok h" and "ar_live h = F"
  obtains (fault) f c h' where "data_read_step E fc pos remaining ctx = Some (Inl (Fault f), c)"
      "data_read_step_mem E fc pos remaining ctx h = (Inl (Fault f), h')"
  | (none) h' where "data_read_step E fc pos remaining ctx = None" "data_read_step_mem E fc pos remaining ctx h = (Inr None, h')"
  | (error) e c h' P where "data_read_step E fc pos remaining ctx = Some (Inl (Err e), c)"
      "data_read_step_mem E fc pos remaining ctx h = (Inr (Some (Inl e, c)), h')"
      "arena_ok h'" "ar_live h' = P + F" "room E ctx \<longrightarrow> P = {#}"
  | (ok) s c h' P where "data_read_step E fc pos remaining ctx = Some (Inr s, c)"
      "data_read_step_mem E fc pos remaining ctx h = (Inr (Some (Inr s, c)), h')"
      "arena_ok h'" "ar_live h' = P + F" "room E ctx \<longrightarrow> P = {#}"
proof -
  have l: "ar_live h = {#} + F" by (simp add: assms(3))
  from assms(1) have own: "runs (data_read_step_mem E fc pos remaining ctx) {#}
      (op_result (data_read_step E fc pos remaining ctx)) (kept_rel E ctx)"
    by (intro read_step_owned) (simp_all add: block_ready_def)
  show thesis
    by (rule runsD [OF own assms(2) l])
      (use that in \<open>auto simp: op_result_def kept_rel_def split: option.splits sum.splits failure.splits\<close>)
qed

text \<open>The account of a loop that ends.\<close>

definition loop_account ::
  "heap_env \<Rightarrow> sqfs_ctx \<Rightarrow> (byte list res \<times> sqfs_ctx) option \<Rightarrow> nat multiset
   \<Rightarrow> (sqfs_error failure + (sqfs_error + byte list) \<times> sqfs_ctx) \<times> arena \<Rightarrow> bool" where
  "loop_account E ctx r F y \<longleftrightarrow> op_result r = (case fst y of Inl e \<Rightarrow> Inl e | Inr x \<Rightarrow> Inr (Some x))
     \<and> (safe (fst y) \<longrightarrow> arena_ok (snd y) \<and> (\<exists>P. ar_live (snd y) = P + F \<and> (room E ctx \<longrightarrow> P = {#})))"

lemma loop_mem_account:
  assumes "data_read_loop_mem E fc pos out remaining ctx h = Some y" and "block_ready fc ctx" and "arena_ok h"
  shows "loop_account E ctx (data_read_loop E fc pos out remaining ctx) (ar_live h) y"
proof -
  have "block_ready fc ctx \<longrightarrow> arena_ok h \<longrightarrow> loop_account E ctx (data_read_loop E fc pos out remaining ctx) (ar_live h) y"
  proof (rule data_read_loop_mem.raw_induct [where P = "\<lambda>E fc pos out remaining ctx h y.
      block_ready fc ctx \<longrightarrow> arena_ok h \<longrightarrow> loop_account E ctx (data_read_loop E fc pos out remaining ctx) (ar_live h) y",
      OF _ assms(1)], intro impI, goal_cases)
    case (1 rec E fc pos out remaining ctx h y)
    show ?case
    proof (cases "remaining = 0")
      case True
      then have "data_read_loop E fc pos out remaining ctx = Some (Inr out, ctx)" by (subst data_read_loop.simps) simp
      with 1(2,4) True show ?thesis by (auto simp: loop_account_def)
    next
      case False
      note loop = data_read_loop.simps [of E fc pos out remaining ctx]
      from 1(3,4) refl show ?thesis
      proof (cases rule: step_cases [of fc ctx h "ar_live h" E pos remaining])
        case (ok s c h' P)
        show ?thesis
        proof (cases s)
          case (Read_more b)
          let ?r = "data_read_loop E fc (pos + of_nat (length b)) (out @ b) (remaining - length b) c"
          have "rec E fc (pos + of_nat (length b)) (out @ b) (remaining - length b) c h' = Some y"
            using 1(2) False ok Read_more by simp
          from 1(1) [OF this] step_ready(1) [OF 1(3) ok(1)] ok(3) have "loop_account E c ?r (ar_live h') y" by blast
          moreover have "data_read_loop E fc pos out remaining ctx = ?r" using False ok(1) Read_more by (simp add: loop)
          ultimately show ?thesis
            using ok(4,5) step_ready(2) [OF 1(3) ok(1)] by (auto simp: loop_account_def add.assoc [symmetric])
        qed (use 1(2) False ok in \<open>auto simp: loop_account_def loop\<close>)
      qed (use 1(2) False in \<open>auto simp: loop_account_def loop\<close>)
    qed
  qed
  with assms(2,3) show ?thesis by blast
qed

text \<open>It ends when the loop without the arena does.\<close>

lemma loop_mem_ends:
  assumes "data_read_loop E fc pos out remaining ctx = Some y" and "block_ready fc ctx" and "arena_ok h"
  shows "data_read_loop_mem E fc pos out remaining ctx h \<noteq> None"
proof -
  have "\<forall>h. block_ready fc ctx \<longrightarrow> arena_ok h \<longrightarrow> data_read_loop_mem E fc pos out remaining ctx h \<noteq> None"
  proof (rule data_read_loop.raw_induct [where P = "\<lambda>E fc pos out remaining ctx y.
      \<forall>h. block_ready fc ctx \<longrightarrow> arena_ok h \<longrightarrow> data_read_loop_mem E fc pos out remaining ctx h \<noteq> None",
      OF _ assms(1)], intro allI impI, goal_cases)
    case (1 rec E fc pos out remaining ctx y h)
    note loop = data_read_loop_mem.simps [of E fc pos out remaining ctx h]
    show ?case
    proof (cases "remaining = 0")
      case False
      from 1(3,4) refl show ?thesis
      proof (cases rule: step_cases [of fc ctx h "ar_live h" E pos remaining])
        case (ok s c h' P)
        show ?thesis
        proof (cases s)
          case (Read_more b)
          have "rec E fc (pos + of_nat (length b)) (out @ b) (remaining - length b) c = Some y"
            using 1(2) False ok Read_more by simp
          from 1(1) [OF this] step_ready(1) [OF 1(3) ok(1)] ok(3)
          have "data_read_loop_mem E fc (pos + of_nat (length b)) (out @ b) (remaining - length b) c h' \<noteq> None" by blast
          with False ok(2) Read_more show ?thesis by (simp add: loop)
        qed (use False ok in \<open>simp add: loop\<close>)
      qed (use 1(2) False in \<open>simp_all add: loop\<close>)
    qed (simp add: data_read_loop_mem.simps [of E fc pos out 0 ctx h])
  qed
  with assms(2,3) show ?thesis by blast
qed

definition data_read_loop_own :: "heap_env \<Rightarrow> sqfs_file_ctx \<Rightarrow> u64 \<Rightarrow> byte list \<Rightarrow> nat \<Rightarrow> sqfs_ctx \<Rightarrow> byte list cache_own" where
  "data_read_loop_own E fc pos out remaining ctx h =
     (case data_read_loop_mem E fc pos out remaining ctx h of
        None \<Rightarrow> (Inr None, h)
      | Some (r, h) \<Rightarrow> (case r of Inl e \<Rightarrow> Inl e | Inr x \<Rightarrow> Inr (Some x), h))"

lemma read_loop_owned:
  assumes "block_ready fc ctx"
  shows "runs (data_read_loop_own E fc pos out remaining ctx) {#} (op_result (data_read_loop E fc pos out remaining ctx)) (kept_rel E ctx)"
proof (rule runsI)
  let ?r = "data_read_loop E fc pos out remaining ctx" and ?own = "data_read_loop_own E fc pos out remaining ctx"
  fix h F assume h: "arena_ok h" "ar_live h = {#} + F"
  show "\<exists>P. outcome (op_result ?r) (kept_rel E ctx) (fst (?own h)) P
    \<and> (safe (fst (?own h)) \<longrightarrow> arena_ok (snd (?own h)) \<and> ar_live (snd (?own h)) = P + F)"
  proof (cases "data_read_loop_mem E fc pos out remaining ctx h")
    case None
    then have "?r = None" using loop_mem_ends [OF _ assms h(1)] by (cases ?r) auto
    with None h show ?thesis by (auto simp: data_read_loop_own_def outcome_def)
  next
    case (Some y)
    obtain r h' where y: "y = (r, h')" by fastforce
    have acc: "loop_account E ctx ?r F (r, h')" using loop_mem_account [OF Some assms h(1)] h(2) y by simp
    show ?thesis
    proof (cases r)
      case (Inl e)
      with acc Some y show ?thesis
        by (cases e) (auto simp: loop_account_def data_read_loop_own_def outcome_def)
    next
      case (Inr x)
      with acc obtain P where "arena_ok h'" "ar_live h' = P + F" "room E ctx \<longrightarrow> P = {#}" "op_result ?r = Inr (Some x)"
        by (auto simp: loop_account_def)
      with Some y Inr show ?thesis
        by (intro exI [of _ P]) (auto simp: data_read_loop_own_def outcome_def kept_rel_def)
    qed
  qed
qed

section \<open>A whole read\<close>

text \<open>The work buffer is freed whether the loop succeeds or fails. The block sizes belong to the inode.\<close>

definition sqfs_data_read_mem :: "heap_env \<Rightarrow> sqfs_inode \<Rightarrow> u64 \<Rightarrow> u64 \<Rightarrow> sqfs_ctx \<Rightarrow> byte list cache_own" where
  "sqfs_data_read_mem E i offset sz ctx =
     (if \<not> sqfs_inode_is_file (i_type i) then own_lift (Inr (Some (Inl SQFS_ERR_BAD_INODE, ctx)))
      else case sqfs_file_ctx_init (ctx_sb ctx) i of
          Inl (Fault f) \<Rightarrow> own_lift (Inl (Fault f))
        | Inl (Err e) \<Rightarrow> own_lift (Inr (Some (Inl e, ctx)))
        | Inr fc \<Rightarrow>
            if fc_file_size fc \<le> offset then own_lift (Inr (Some (Inr [], ctx)))
            else let sz = (if fc_file_size fc < offset + sz then fc_file_size fc - offset else sz)
                 in if sz = 0 then own_lift (Inr (Some (Inr [], ctx)))
                    else own_alloc (sqfs_malloc (h_mem E) (unat (fc_block_size fc)))
                      (own_lift (Inr (Some (Inl SQFS_ERR_NO_MEMORY, ctx)))) (\<lambda>block_buf.
                        own_bind (data_read_loop_own E fc offset [] (unat sz) ctx) (\<lambda>r.
                          case r of
                            None \<Rightarrow> own_lift (Inr None)
                          | Some x \<Rightarrow> own_bind (sqfs_free (Some block_buf)) (\<lambda>_. own_lift (Inr (Some x))))))"

lemma data_read_owned:
  assumes valid: "cache_valid (ctx_data_cache ctx)"
  shows "runs (sqfs_data_read_mem E i offset sz ctx) {#} (op_result (sqfs_data_read E i offset sz ctx)) (kept_rel E ctx)"
proof (cases "sqfs_inode_is_file (i_type i)")
  case False
  then show ?thesis by (auto simp: sqfs_data_read_mem_def sqfs_data_read_def sqfs_data_read_internal_def intro!: runs_return)
next
  case reg: True
  show ?thesis
  proof (cases "sqfs_file_ctx_init (ctx_sb ctx) i")
    case (Inl e)
    with reg show ?thesis
      by (cases e) (auto simp: sqfs_data_read_mem_def sqfs_data_read_def sqfs_data_read_internal_def intro!: runs_return)
  next
    case (Inr fc)
    define n where "n = (if fc_file_size fc < offset + sz then fc_file_size fc - offset else sz)"
    have ready: "block_ready fc ctx"
      using Inr valid by (auto simp: block_ready_def sqfs_file_ctx_init_def calculate_block_layout_def rbind_eq_Inr_iff Let_def
          split: if_splits)
    show ?thesis
    proof (cases "fc_file_size fc \<le> offset \<or> n = 0")
      case True
      with reg Inr show ?thesis
        by (auto simp: sqfs_data_read_mem_def sqfs_data_read_def sqfs_data_read_internal_def n_def [symmetric] intro!: runs_return)
    next
      case False
      let ?loop = "data_read_loop_own E fc offset [] (unat n) ctx" and ?r = "data_read_loop E fc offset [] (unat n) ctx"
      have "runs (own_bind ?loop (\<lambda>r. case r of None \<Rightarrow> own_lift (Inr None)
            | Some x \<Rightarrow> own_bind (sqfs_free (Some b)) (\<lambda>_. own_lift (Inr (Some x))))) {#b#} (op_result ?r) (kept_rel E ctx)" for b
        by (rule runs_bind_any [OF read_loop_owned [OF ready]])
          (auto simp: kept_rel_def split: option.split intro!: runs_return runs_free_return)
      with reg Inr False show ?thesis
        by (auto simp: sqfs_data_read_mem_def sqfs_data_read_def sqfs_data_read_internal_def n_def [symmetric]
            intro!: runs_alloc_first runs_return)
    qed
  qed
qed

section \<open>The callback\<close>

text \<open>The program's codes become those of \<open>errno\<close>.\<close>

definition code_result :: "((sqfs_error + 'a) \<times> sqfs_ctx) option \<Rightarrow> ((errno + 'a) \<times> sqfs_ctx) option" where
  "code_result = map_option (\<lambda>(r, ctx). (map_sum vfs_code id r, ctx))"

definition sqfs_vfs_read_mem ::
  "heap_env \<Rightarrow> sqfs_vfs_fh \<Rightarrow> u64 \<Rightarrow> u64 \<Rightarrow> sqfs_ctx \<Rightarrow> (errno, ((errno + byte list) \<times> sqfs_ctx) option) own" where
  "sqfs_vfs_read_mem E fh sz offset ctx =
     (case fh_inode fh of
        None \<Rightarrow> own_lift (Inr (Some (Inl SQFS_VFS_ERR_INVAL, ctx)))
      | Some i \<Rightarrow>
          if fh_file_size fh \<le> offset then own_lift (Inr (Some (Inr [], ctx)))
          else let sz = (if fh_file_size fh < offset + sz then fh_file_size fh - offset else sz)
               in own_try (sqfs_data_read_mem E i offset sz ctx) (\<lambda>ret.
                    case ret of
                      Inl e \<Rightarrow> own_lift (Inl (Err (vfs_code e)))
                    | Inr r \<Rightarrow> own_lift (Inr (code_result r))))"

definition sqfs_fuse_read_mem ::
  "heap_env \<Rightarrow> sqfs_vfs_fh option \<Rightarrow> u64 \<Rightarrow> u64 \<Rightarrow> sqfs_ctx \<Rightarrow> (errno, ((errno + byte list) \<times> sqfs_ctx) option) own" where
  "sqfs_fuse_read_mem E fh sz offset ctx =
     (case fh of
        None \<Rightarrow> own_lift (Inr (Some (Inl EINVAL, ctx)))
      | Some h \<Rightarrow> sqfs_vfs_read_mem E h sz offset ctx)"

lemma vfs_read_owned:
  assumes valid: "cache_valid (ctx_data_cache ctx)"
  shows "runs (sqfs_vfs_read_mem E fh sz offset ctx) {#} (op_result (sqfs_vfs_read E fh sz offset ctx)) (kept_rel E ctx)"
proof (cases "fh_inode fh = None \<or> fh_file_size fh \<le> offset")
  case True
  then show ?thesis by (auto simp: sqfs_vfs_read_mem_def sqfs_vfs_read_def split: option.split intro!: runs_return)
next
  case False
  then obtain i where i: "fh_inode fh = Some i" by auto
  define n where "n = (if fh_file_size fh < offset + sz then fh_file_size fh - offset else sz)"
  let ?r = "sqfs_data_read E i offset n ctx"
  have v: "op_result (sqfs_vfs_read E fh sz offset ctx)
      = op_result (case ?r of None \<Rightarrow> None | Some (r, c) \<Rightarrow> Some (to_vfs r, c))"
    using False i by (simp add: sqfs_vfs_read_def n_def [symmetric])
  have m: "sqfs_vfs_read_mem E fh sz offset ctx = own_try (sqfs_data_read_mem E i offset n ctx) (\<lambda>ret.
      case ret of Inl e \<Rightarrow> own_lift (Inl (Err (vfs_code e))) | Inr r \<Rightarrow> own_lift (Inr (code_result r)))"
    using False i by (simp add: sqfs_vfs_read_mem_def n_def [symmetric])
  have ok: "op_result ?r = Inr z \<Longrightarrow> op_result (case ?r of None \<Rightarrow> None | Some (r, c) \<Rightarrow> Some (to_vfs r, c)) = Inr (code_result z)" for z
    by (auto simp: op_result_def code_result_def to_vfs_def vfs_code_def split: option.splits sum.splits failure.splits)
  have fault: "op_result ?r = Inl (Fault k) \<Longrightarrow> op_result (case ?r of None \<Rightarrow> None | Some (r, c) \<Rightarrow> Some (to_vfs r, c)) = Inl (Fault k)" for k
    by (auto simp: op_result_def to_vfs_def split: option.splits sum.splits failure.splits)
  show ?thesis
    unfolding v m
    by (rule runs_around [OF data_read_owned [OF valid]])
      (auto simp: ok fault kept_rel_def code_result_def intro!: runs_return)
qed

lemma fuse_read_owned:
  assumes "cache_valid (ctx_data_cache ctx)"
  shows "runs (sqfs_fuse_read_mem E fh sz offset ctx) {#} (op_result (sqfs_fuse_read E fh sz offset ctx)) (kept_rel E ctx)"
  using vfs_read_owned [OF assms] by (auto simp: sqfs_fuse_read_mem_def sqfs_fuse_read_def split: option.split intro!: runs_return)

text \<open>A read keeps the room of the cache.\<close>

lemma fuse_read_room:
  assumes "room E ctx" and "sqfs_fuse_read E fh sz offset ctx = Some (r, ctx')"
  shows "room E ctx' \<and> same_ctx ctx ctx'"
proof -
  from assms(1) have valid: "cache_valid (ctx_data_cache ctx)" by (simp add: room_def)
  have "cache_valid (ctx_data_cache ctx') \<and> same_ctx ctx ctx' \<and> same_limits ctx ctx'"
  proof (cases fh)
    case None
    with assms(2) valid show ?thesis by (simp add: sqfs_fuse_read_def)
  next
    case (Some h)
    with assms(2) vfs_read_keeps [OF valid] show ?thesis by (simp add: sqfs_fuse_read_def)
  qed
  with assms(1) show ?thesis by (auto simp: room_def same_limits_def same_ctx_fields)
qed

end
