(* ===== verification/Account.thy ===== *)
theory Account
  imports OwnershipFile
begin

text \<open>
  The account of a whole mount on one arena: \<open>init_context\<close>, then callbacks in any order, reads among them, each of which
  works on the context the ones before have left, then \<open>destroy_context\<close>.
\<close>

section \<open>A created context has room\<close>

lemma created_room:
  assumes init: "fst (init_context lib mem env fd mb False g) = Some (Inr ctx)" and mb: "3 \<le> unat mb" "unat mb \<le> 2 ^ 30"
    and lib: "codec_bounded lib" and serves: "serves (guard_alloc (h_entry E)) (unat CACHE_DATA_MAX_ENTRIES)"
  shows "room E ctx"
proof -
  from init_context_zero [OF init] obtain sb c where sb: "fst (sqfs_superblock_load fd g) = Inr sb"
    and comp: "sqfs_compressor_create lib mem (compressor (disk sb)) = Some c"
    and tables: "init_tables mem env mb False (zero_ctx sb (Some c) False) = Some (Inr ctx)" .
  from init_tables_ok [OF tables] obtain ctx1 where c1: "init_caches env mb (zero_ctx sb (Some c) False) = (True, ctx1)"
    and k: "same_mount ctx1 ctx" "ctx_data_cache ctx = ctx_data_cache ctx1" by auto
  have k1: "same_mount (zero_ctx sb (Some c) False) ctx1" using init_caches_ok [OF c1 mb(2)] by simp
  have limits: "c_max_entries (ctx_data_cache ctx) = CACHE_DATA_MAX_ENTRIES"
    "c_max_memory (ctx_data_cache ctx) = mb * 1024 * 1024 div 2"
    using c1 by (auto simp: k init_caches_def Let_def sqfs_cache_init_def split: sum.splits if_splits)
  have "unat (mb * 1024 * 1024) = unat mb * 2 ^ 20" using mb(2) by (simp add: unat_word_ariths)
  then have mem: "unat (c_max_memory (ctx_data_cache ctx)) = unat mb * 2 ^ 19" by (simp add: limits(2) unat_div)
  have "superblock_valid (disk sb) (file_size sb)" by (rule conjunct1 [OF sqfs_superblock_load_sound [OF sb]])
  then have "unat (block_size (disk sb)) \<le> 1048576" using block_size_ok_bounds(2) by (auto simp: superblock_valid_def)
  moreover have "ctx_sb ctx = sb" "ctx_comp ctx = Some c" using k(1) k1 by (simp_all add: same_mount_def zero_ctx_def)
  moreover have "cache_valid (ctx_data_cache ctx)" using init_context_ok [OF init mb(2)] by (auto simp: cache_valid_def)
  ultimately show ?thesis
    using created_comp_bounded [OF lib comp] serves mem limits(1) mb(1) by (simp add: room_def SIZEOF_block_entry_def)
qed

section \<open>Steps\<close>

text \<open>A callback other than \<open>read\<close> does not change the context; \<open>ledger_step\<close> allows it on any context.\<close>

inductive account_step :: "heap_env \<Rightarrow> sqfs_ctx \<times> ledger \<Rightarrow> sqfs_ctx \<times> ledger \<Rightarrow> bool" for E where
  callback: "ledger_step (h_mem E) l l' \<Longrightarrow> account_step E (ctx, l) (ctx, l')"
| read: "x \<in> set (ld_open l) \<Longrightarrow>
    sqfs_fuse_read_mem E (Some (handle_value x)) sz offset ctx (ld_arena l) = (Inr (Some (r, ctx')), h) \<Longrightarrow>
    account_step E (ctx, l) (ctx', l\<lparr>ld_arena := h\<rparr>)"

inductive_cases account_stepE: "account_step E (ctx, l) (ctx', l')"

definition account_ok :: "heap_env \<Rightarrow> nat multiset \<Rightarrow> sqfs_ctx \<Rightarrow> sqfs_ctx \<times> ledger \<Rightarrow> bool" where
  "account_ok E B ctx0 s \<longleftrightarrow> room E (fst s) \<and> same_ctx ctx0 (fst s) \<and> ledger_ok (h_mem E) B (snd s)"

lemma read_account:
  assumes ok: "account_ok E B ctx0 (ctx, l)"
    and run: "sqfs_fuse_read_mem E (Some (handle_value x)) sz offset ctx (ld_arena l) = (Inr (Some (r, ctx')), h)"
  shows "account_ok E B ctx0 (ctx', l\<lparr>ld_arena := h\<rparr>)"
    and "\<exists>r'. sqfs_fuse_read E (Some (handle_value x)) sz offset ctx = Some (r', ctx')"
proof -
  from ok have room: "room E ctx" and same: "same_ctx ctx0 ctx" and l: "ledger_ok (h_mem E) B l" by (simp_all add: account_ok_def)
  then have valid: "cache_valid (ctx_data_cache ctx)" and a: "arena_ok (ld_arena l)" "ar_live (ld_arena l) = {#} + ar_live (ld_arena l)"
    by (simp_all add: room_def ledger_ok_def)
  have "op_result (sqfs_fuse_read E (Some (handle_value x)) sz offset ctx) = Inr (Some (r, ctx'))
      \<and> arena_ok h \<and> ar_live h = ar_live (ld_arena l)"
    by (rule runsD [OF fuse_read_owned [OF valid, of E "Some (handle_value x)" sz offset] a])
      (use run room in \<open>auto simp: kept_rel_def\<close>)
  then obtain r' where r': "sqfs_fuse_read E (Some (handle_value x)) sz offset ctx = Some (r', ctx')"
    and h: "arena_ok h" "ar_live h = ar_live (ld_arena l)"
    by (auto simp: op_result_def split: option.splits sum.splits failure.splits)
  from r' show "\<exists>r'. sqfs_fuse_read E (Some (handle_value x)) sz offset ctx = Some (r', ctx')" by blast
  from fuse_read_room [OF room r'] h l same same_ctx_trans show "account_ok E B ctx0 (ctx', l\<lparr>ld_arena := h\<rparr>)"
    by (auto simp: account_ok_def ledger_ok_def)
qed

lemma account_step_ok:
  assumes "account_step E s s'" and "account_ok E B ctx0 s" and "high_addresses (h_mem E)"
  shows "account_ok E B ctx0 s'"
  using assms(1)
proof cases
  case (callback l l' ctx)
  with ledger_step_ok [OF callback(3) _ assms(3)] assms(2) show ?thesis by (simp add: account_ok_def)
next
  case (read x l sz offset ctx r ctx' h)
  with read_account(1) assms(2) show ?thesis by blast
qed

lemma account_run_ok:
  assumes "(account_step E)\<^sup>*\<^sup>* s s'" and "account_ok E B ctx0 s" and "high_addresses (h_mem E)"
  shows "account_ok E B ctx0 s'"
  using assms(1) by induction (use assms(2,3) account_step_ok in blast)+

section \<open>Properties\<close>

text \<open>C6: the account of a mount. The mount is created with caches of 3 MiB to \<open>2\<^sup>3\<^sup>0\<close> MiB, so that the data cache can hold
  any block, and there is memory for its entries; the decoder keeps to the size of its buffer; the image has fewer
  than \<open>2\<^sup>3\<^sup>2 - 511\<close> fragments (beyond that the index of the table leaks) and the allocator gives no block in the
  low 4 GiB (such a target of a symbolic link would be lost under \<open>xattr_idx\<close>). Then there are callbacks in any order,
  on any such image, with any other failures of the allocator: opens, releases, listings, attributes, and reads
  through open files with the work buffers, the decoding and the cache entries they need. At every moment exactly those
  blocks of the arena are live, beside what the data cache has taken over (C4), that the context and the open files own; and
  each of the four caches has one bucket table and a node for each of its entries, which the model keeps in the
  heap of the cache. When every file is released, \<open>destroy_context\<close> returns and leaves of the arena the fragment table
  with its entries and nothing else, and no table and no node of any cache.\<close>

theorem mount_accounts:
  assumes "init_context_mem lib (h_mem E) env fd mb False g empty_arena = (Inr (Some (Inr m)), h)"
    and "3 \<le> unat mb" and "unat mb \<le> 2 ^ 30" and "codec_bounded lib"
    and "serves (guard_alloc (h_entry E)) (unat CACHE_DATA_MAX_ENTRIES)" and "high_addresses (h_mem E)"
    and "few_fragments (frag_count (disk (ctx_sb (mo_ctx m))))"
    and "(account_step E)\<^sup>*\<^sup>* (mo_ctx m, \<lparr>ld_arena = h, ld_open = []\<rparr>) (ctx, l)"
  shows "ar_live (ld_arena l) = open_blocks (ld_open l) + mount_blocks m \<and> caches_hold ctx
    \<and> (ld_open l = [] \<longrightarrow> (\<exists>ctx' h'. destroy_context ctx = Some (Inr ctx')
         \<and> destroy_context_mem m ctx (ld_arena l) = (Inr (Some ctx'), h')
         \<and> ar_live h' = tables_left m \<and> caches_gone ctx'))"
proof -
  note m = mounted_ledger [OF assms(1,7)]
  have "same_ctx (mo_ctx m) (mo_ctx m)" unfolding same_ctx_def by (rule exI [of _ "ctx_data_cache (mo_ctx m)"]) simp
  with created_room [OF m(1) assms(2-5)] m(3) have "account_ok E (mount_blocks m) (mo_ctx m) (mo_ctx m, \<lparr>ld_arena = h, ld_open = []\<rparr>)"
    by (simp add: account_ok_def)
  from account_run_ok [OF assms(8) this assms(6)]
  have ok: "arena_ok (ld_arena l)" "ar_live (ld_arena l) = open_blocks (ld_open l) + mount_blocks m"
    and ctx: "same_ctx (mo_ctx m) ctx" "cache_valid (ctx_data_cache ctx)" by (simp_all add: account_ok_def ledger_ok_def room_def)
  have "session_ok (mo_ctx m) (mounted ctx)" using ctx by (simp add: session_ok_def mounted_def)
  from session_destroyed [OF m(1) assms(3) this] session_caches [OF m(1) assms(3) this] obtain ctx'
    where d: "destroy_context ctx = Some (Inr ctx')" and gone: "caches_gone ctx'" and hold: "caches_hold ctx"
    by (auto simp: mounted_def caches_valid_hold)
  from m(2) have priv: "co_priv (mo_comp m) = None" by (simp add: mount_ok_def)
  have "\<exists>h'. destroy_context_mem m ctx (ld_arena l) = (Inr (Some ctx'), h') \<and> ar_live h' = tables_left m" if "ld_open l = []"
  proof -
    from ok that have l: "arena_ok (ld_arena l)" "ar_live (ld_arena l) = mount_blocks m + {#}" by simp_all
    show ?thesis by (rule runsD [OF destroy_context_owned [OF d priv] l]) (use d in auto)
  qed
  with ok(2) d gone hold show ?thesis by blast
qed

text \<open>The small file system, mounted: its file is opened and read.\<close>

definition high_heap :: heap_env where
  "high_heap = \<lparr>h_mem = mem_high, h_entry = first_free 128, h_table = True\<rparr>"

lemma high_heap_ok: "h_mem high_heap = mem_high" "serves (guard_alloc (h_entry high_heap)) (unat CACHE_DATA_MAX_ENTRIES)"
proof -
  have "guard_alloc alloc = alloc" if "fresh_alloc alloc" for alloc :: "block_entry entry_alloc"
    using that by (auto simp: fun_eq_iff guard_alloc_def fresh_alloc_def split: option.split)
  from this [OF first_free_fresh] have "guard_alloc (first_free n :: block_entry entry_alloc) = first_free n" for n .
  then show "serves (guard_alloc (h_entry high_heap)) (unat CACHE_DATA_MAX_ENTRIES)"
    by (simp add: high_heap_def CACHE_DATA_MAX_ENTRIES_def first_free_serves)
qed (simp add: high_heap_def)

lemma high_open:
  assumes img: "same_image fs_ctx ctx" and ok: "arena_ok h"
  obtains x h' where "sqfs_vfs_open_mem mem_high ctx [47, 97] h = (Inr x, h')"
    and "handle_value x = \<lparr>fh_inode = Some file_inode_ram, fh_file_size = 4\<rparr>"
    and "arena_ok h'" and "ar_live h' = handle_blocks x + ar_live h"
proof -
  have root: "root_inode (disk (ctx_sb ctx)) = 0" using img by (simp add: same_image_def flip: fs_ctx_simps)
  have "readable_image fs_ctx" by (simp add: readable_image_def fs_reliable)
  then have read: "readable_image ctx"
    using img unfolding readable_image_def same_image_def by (elim conjE) (simp only: not_False_eq_True simp_thms)
  have ram: "ram_inode mem_high file_di = file_inode_ram" by (simp add: ram_inode_def file_inode_ram_def file_di_def)
  have "sqfs_vfs_open mem_high ctx [47, 97] = Inr \<lparr>fh_inode = Some file_inode_ram, fh_file_size = 4\<rparr>"
    using open_image [OF _ read mem_high_ok(2), of fs_root "[97]"] image_node_cong [OF img fs_root_written] root ram
    by (simp add: answer_def at_path_def fs_root_def path_components_def sqfs_inode_is_dir_def fn_type_def sqfs_fuse_open_def
        spec_handle_def spec_open_def root_di_def file_di_def sqfs_inode_is_file_def)
  note v = this
  have l: "ar_live h = {#} + ar_live h" by simp
  show thesis
    by (rule runsD [OF open_owned [OF mem_high_ok(1), of ctx "[47, 97]"] ok l])
      (use v that in \<open>auto dest!: handle_relD\<close>)
qed

lemma high_read:
  assumes img: "same_image fs_ctx ctx" and coh: "coherent [189 \<mapsto> [1, 2, 3, 4]] ctx"
  obtains ctx' where "sqfs_fuse_read high_heap (Some \<lparr>fh_inode = Some file_inode_ram, fh_file_size = 4\<rparr>) 4 0 ctx = Some (Inr [1, 2, 3, 4], ctx')"
proof -
  have "sqfs_file_ctx_init (ctx_sb ctx) file_inode_ram = Inr fs_fc" using fs_fc_init img by (simp add: same_image_def)
  moreover have "file_stored (h_mem high_heap) [189 \<mapsto> [1, 2, 3, 4]] ctx fs_fc [1, 2, 3, 4]"
    using fs_content_stored file_stored_image [OF img] by (simp add: fs_fc_def sqfs_fragment_is_none_def)
  ultimately show thesis
    using vfs_read_ok [of ctx file_inode_ram fs_fc high_heap "[189 \<mapsto> [1, 2, 3, 4]]" "[1, 2, 3, 4]" 0 4] coh mem_high_ok(2) that
    by (auto simp: sqfs_fuse_read_def high_heap_ok(1) fs_file_fields segment_def)
qed

theorem mount_accounts_witness:
  "\<exists>m h l x ctx'. init_context_mem stored_lib mem_high env_ok fs_file 32 False (sqfs_stats_init 0) empty_arena = (Inr (Some (Inr m)), h)
     \<and> (account_step high_heap)\<^sup>*\<^sup>* (mo_ctx m, \<lparr>ld_arena = h, ld_open = []\<rparr>) (ctx', l)
     \<and> sqfs_fuse_read high_heap (Some (handle_value x)) 4 0 (mo_ctx m) = Some (Inr [1, 2, 3, 4], ctx')
     \<and> ld_open l = [x] \<and> ar_live (ld_arena l) = handle_blocks x + mount_blocks m"
proof -
  let ?g = "sqfs_stats_init 0"
  obtain ctx where ctx: "fst (init_context stored_lib mem_high env_ok fs_file 32 False ?g) = Some (Inr ctx)" "same_image fs_ctx ctx"
    using fs_mount [OF mem_high_ok(2)] by blast
  have e: "ar_live empty_arena = {#} + {#}" by simp
  have "\<exists>m h. init_context_mem stored_lib mem_high env_ok fs_file 32 False ?g empty_arena = (Inr (Some (Inr m)), h) \<and> mo_ctx m = ctx"
    by (rule runsD [OF init_context_owned [of stored_lib mem_high env_ok fs_file 32 False ?g] empty_arena_ok(1) e])
      (use ctx in \<open>auto simp: mount_rel_def split: option.splits sum.splits\<close>)
  then obtain m h where m: "init_context_mem stored_lib mem_high env_ok fs_file 32 False ?g empty_arena = (Inr (Some (Inr m)), h)"
    "mo_ctx m = ctx" by blast
  have few: "few_fragments (frag_count (disk (ctx_sb (mo_ctx m))))"
  proof -
    have "frag_count (disk (ctx_sb fs_ctx)) = 0" by (simp add: fs_ctx_def fs_sb_def fs_superblock_def)
    with ctx(2) show ?thesis by (simp add: m(2) same_image_def few_fragments_def)
  qed
  note mounted = mounted_ledger [OF m(1) few]
  then have h: "arena_ok h" by (simp add: ledger_ok_def)
  obtain x h1 where x: "sqfs_vfs_open_mem mem_high ctx [47, 97] h = (Inr x, h1)"
    "handle_value x = \<lparr>fh_inode = Some file_inode_ram, fh_file_size = 4\<rparr>" "arena_ok h1"
    by (rule high_open [OF ctx(2) h])
  let ?s0 = "(ctx, \<lparr>ld_arena = h, ld_open = []\<rparr>)" and ?s1 = "(ctx, \<lparr>ld_arena = h1, ld_open = [x]\<rparr>)"
  have "ledger_step mem_high (snd ?s0) (snd ?s1)" using ledger_step.open_file [of mem_high ctx "[47, 97]" "snd ?s0" x h1] x(1) by simp
  then have s1: "account_step high_heap ?s0 ?s1" by (simp add: account_step.callback high_heap_ok(1))
  have inv: "cache_inv (ctx_data_cache ctx) []" using init_context_ok [OF ctx(1)] by simp
  obtain ctx' where read: "sqfs_fuse_read high_heap (Some (handle_value x)) 4 0 ctx = Some (Inr [1, 2, 3, 4], ctx')"
    unfolding x(2) by (rule high_read [OF ctx(2) empty_cache_coherent [OF inv]])
  have l: "ar_live h1 = {#} + ar_live h1" by simp
  have valid: "cache_valid (ctx_data_cache ctx)" using inv by (auto simp: cache_valid_def)
  obtain r h2 where "sqfs_fuse_read_mem high_heap (Some (handle_value x)) 4 0 ctx h1 = (Inr (Some (r, ctx')), h2)"
    by (rule runsD [OF fuse_read_owned [OF valid, of high_heap "Some (handle_value x)" 4 0] x(3) l]) (use read in \<open>auto simp: kept_rel_def\<close>)
  from account_step.read [of x "snd ?s1" high_heap 4 0 ctx r ctx' h2] this
  have s2: "account_step high_heap ?s1 (ctx', \<lparr>ld_arena = h2, ld_open = [x]\<rparr>)" by simp
  have run: "(account_step high_heap)\<^sup>*\<^sup>* (mo_ctx m, \<lparr>ld_arena = h, ld_open = []\<rparr>) (ctx', \<lparr>ld_arena = h2, ld_open = [x]\<rparr>)"
    unfolding m(2) using s1 s2 by (blast intro: rtranclp_trans r_into_rtranclp)
  have "init_context_mem stored_lib (h_mem high_heap) env_ok fs_file 32 False ?g empty_arena = (Inr (Some (Inr m)), h)"
    "high_addresses (h_mem high_heap)" using m(1) mem_high_ok(1) by (simp_all add: high_heap_ok(1))
  from mount_accounts [OF this(1) _ _ stored_lib_bounded high_heap_ok(2) this(2) few run] m read run show ?thesis
    by (intro exI [of _ m] exI [of _ h] exI [of _ "\<lparr>ld_arena = h2, ld_open = [x]\<rparr>"] exI [of _ x] exI [of _ ctx']) simp
qed

end
