(* ===== verification/Log.thy ===== *)
theory Log
  imports Utils
begin

text \<open>
  \<open>src/core/log.h\<close> and \<open>src/core/log.c\<close>: the log with its levels, its lazy opening, its rotation by
  truncation, and the lines it writes. The mutex has no state in the model: every function holds it
  from its first to its last step. What the system answers is the record \<open>log_env\<close>; the
  files are a map from paths to contents.
\<close>

section \<open>Levels and modules\<close>

datatype sqfs_log_level = SQFS_LOG_ERROR | SQFS_LOG_WARN | SQFS_LOG_INFO | SQFS_LOG_DEBUG

fun level_no :: "sqfs_log_level \<Rightarrow> nat" where
  "level_no SQFS_LOG_ERROR = 1" | "level_no SQFS_LOG_WARN = 2"
| "level_no SQFS_LOG_INFO = 3" | "level_no SQFS_LOG_DEBUG = 4"

datatype sqfs_module = SQFS_MOD_SUPERBLOCK | SQFS_MOD_INODE | SQFS_MOD_DIRECTORY | SQFS_MOD_DATA
  | SQFS_MOD_FRAGMENT | SQFS_MOD_COMPRESSOR | SQFS_MOD_CACHE | SQFS_MOD_XATTR | SQFS_MOD_FUSE

definition ascii :: "string \<Rightarrow> byte list" where "ascii s = map of_char s"

fun module_names :: "sqfs_module \<Rightarrow> byte list" where
  "module_names SQFS_MOD_SUPERBLOCK = ascii ''superblock''"
| "module_names SQFS_MOD_INODE = ascii ''inode''"
| "module_names SQFS_MOD_DIRECTORY = ascii ''directory''"
| "module_names SQFS_MOD_DATA = ascii ''data''"
| "module_names SQFS_MOD_FRAGMENT = ascii ''fragment''"
| "module_names SQFS_MOD_COMPRESSOR = ascii ''compressor''"
| "module_names SQFS_MOD_CACHE = ascii ''cache''"
| "module_names SQFS_MOD_XATTR = ascii ''xattr''"
| "module_names SQFS_MOD_FUSE = ascii ''fuse''"

fun level_names :: "sqfs_log_level \<Rightarrow> byte list" where
  "level_names SQFS_LOG_ERROR = ascii ''ERROR''" | "level_names SQFS_LOG_WARN = ascii ''WARN''"
| "level_names SQFS_LOG_INFO = ascii ''INFO''" | "level_names SQFS_LOG_DEBUG = ascii ''DEBUG''"

section \<open>State\<close>

text \<open>The answers of the system: allocation, opening a path, \<open>fstat\<close>, truncation, the bytes
  \<open>fwrite\<close> takes of a number of bytes, the formatted time; and the level the program is compiled with.\<close>

record log_env =
  le_level :: nat
  le_mem :: allocator
  le_fopen :: "byte list \<Rightarrow> bool"
  le_fstat :: bool
  le_ftruncate :: bool
  le_fwrite :: "nat \<Rightarrow> nat"
  le_time :: "byte list"

text \<open>The open file is known by its path.\<close>

record sqfs_log_state =
  lg_file :: "byte list option"
  lg_path :: "byte list option"
  lg_max_size :: u64
  lg_current_size :: u64
  lg_level :: nat
  lg_initialized :: bool
  lg_disk :: "byte list \<Rightarrow> byte list"

record sqfs_log_config =
  cfg_path :: "byte list option"
  cfg_max_size :: u64
  cfg_level :: nat

definition SQFS_LOG_DEFAULT_PATH :: "byte list" where "SQFS_LOG_DEFAULT_PATH = ascii ''/tmp/squashfs-fuse.log''"
definition SQFS_LOG_DEFAULT_MAX_SIZE :: u64 where "SQFS_LOG_DEFAULT_MAX_SIZE = 10 * 1024 * 1024"

definition g_log :: "nat \<Rightarrow> (byte list \<Rightarrow> byte list) \<Rightarrow> sqfs_log_state" where
  "g_log level files = \<lparr>lg_file = None, lg_path = None, lg_max_size = SQFS_LOG_DEFAULT_MAX_SIZE,
     lg_current_size = 0, lg_level = level, lg_initialized = False, lg_disk = files\<rparr>"

section \<open>Escaping\<close>

text \<open>The first loop counts.\<close>

definition escape_cost :: "byte \<Rightarrow> nat" where
  "escape_cost c =
     (if c = 34 \<or> c = 92 \<or> c = 8 \<or> c = 12 \<or> c = 10 \<or> c = 13 \<or> c = 9 then 2
      else if c < 0x20 then 6 else 1)"

text \<open>The digits of \<open>%x\<close>.\<close>

definition hex_digit :: "byte \<Rightarrow> byte" where
  "hex_digit d = (if d < 10 then 48 + d else 87 + d)"

definition escape_byte :: "byte \<Rightarrow> byte list" where
  "escape_byte c =
     (if c = 34 then [92, 34] else if c = 92 then [92, 92]
      else if c = 8 then [92, 98] else if c = 12 then [92, 102]
      else if c = 10 then [92, 110] else if c = 13 then [92, 114] else if c = 9 then [92, 116]
      else if c < 0x20 then [92, 117, 48, 48, hex_digit (c div 16), hex_digit (c mod 16)]
      else [c])"

text \<open>The second loop writes into the allocation of \<open>cap\<close> bytes; \<open>sprintf\<close> adds a zero of its own, which
  the next write replaces. The last step is the terminating zero.\<close>

fun escape_fill :: "nat \<Rightarrow> byte list \<Rightarrow> byte list \<Rightarrow> byte list res" where
  "escape_fill cap out [] = (if length out < cap then Inr out else Inl (Fault OOB_Write))"
| "escape_fill cap out (c # s) =
     (if length out + length (escape_byte c) + (if length (escape_byte c) = 6 then 1 else 0) \<le> cap
      then escape_fill cap (out @ escape_byte c) s
      else Inl (Fault OOB_Write))"

definition json_escape_string :: "allocator \<Rightarrow> byte list option \<Rightarrow> byte list option res" where
  "json_escape_string mem str =
     (case str of
        None \<Rightarrow> Inr None
      | Some s \<Rightarrow>
          let escaped_len = sum_list (map escape_cost s)
          in if mem (escaped_len + 1) = 0 then Inr None
             else rbind (escape_fill (escaped_len + 1) [] s) (\<lambda>e. Inr (Some e)))"

section \<open>Rotation\<close>

definition check_and_rotate :: "log_env \<Rightarrow> sqfs_log_state \<Rightarrow> sqfs_log_state" where
  "check_and_rotate E st =
     (case lg_file st of
        None \<Rightarrow> st
      | Some p \<Rightarrow>
          if lg_max_size st = 0 then st
          else if lg_max_size st \<le> lg_current_size st \<and> le_ftruncate E
          then st\<lparr>lg_disk := (lg_disk st)(p := []), lg_current_size := 0\<rparr>
          else st)"

section \<open>Start and end\<close>

definition log_set_path :: "log_env \<Rightarrow> byte list \<Rightarrow> sqfs_log_state \<Rightarrow> bool \<times> sqfs_log_state" where
  "log_set_path E p st =
     (if le_mem E (length p + 1) = 0 then (False, st\<lparr>lg_path := None\<rparr>) else (True, st\<lparr>lg_path := Some p\<rparr>))"

definition log_configure ::
  "log_env \<Rightarrow> sqfs_log_config option \<Rightarrow> sqfs_log_state \<Rightarrow> bool \<times> sqfs_log_state" where
  "log_configure E config st =
     (case config of
        None \<Rightarrow> (True, st)
      | Some cfg \<Rightarrow>
          (case (case cfg_path cfg of None \<Rightarrow> (True, st) | Some p \<Rightarrow> log_set_path E p st) of
             (False, st) \<Rightarrow> (False, st)
           | (True, st) \<Rightarrow>
               let st = (if 0 < cfg_max_size cfg then st\<lparr>lg_max_size := cfg_max_size cfg\<rparr> else st)
               in (True, st\<lparr>lg_level := (if cfg_level cfg \<le> le_level E then cfg_level cfg else le_level E)\<rparr>)))"

text \<open>\<open>fopen\<close> for appending creates the file if there is none. The first component is whether the code
  returns 0.\<close>

definition log_open :: "log_env \<Rightarrow> sqfs_log_state \<Rightarrow> bool \<times> sqfs_log_state" where
  "log_open E st =
     (case lg_path st of
        None \<Rightarrow> (False, st)
      | Some p \<Rightarrow>
          if \<not> le_fopen E p then (False, st\<lparr>lg_file := None, lg_path := None\<rparr>)
          else (True, st\<lparr>lg_file := Some p,
                  lg_current_size := (if le_fstat E then of_nat (length (lg_disk st p)) else 0),
                  lg_initialized := True\<rparr>))"

definition sqfs_log_init ::
  "log_env \<Rightarrow> sqfs_log_config option \<Rightarrow> sqfs_log_state \<Rightarrow> bool \<times> sqfs_log_state" where
  "sqfs_log_init E config st =
     (if lg_initialized st then (True, st)
      else case log_configure E config st of
          (False, st) \<Rightarrow> (False, st)
        | (True, st) \<Rightarrow>
            (case (if lg_path st = None then log_set_path E SQFS_LOG_DEFAULT_PATH st else (True, st)) of
               (False, st) \<Rightarrow> (False, st)
             | (True, st) \<Rightarrow> log_open E st))"

definition sqfs_log_destroy :: "sqfs_log_state \<Rightarrow> sqfs_log_state" where
  "sqfs_log_destroy st =
     (if \<not> lg_initialized st then st
      else st\<lparr>lg_file := None, lg_path := None, lg_current_size := 0, lg_initialized := False\<rparr>)"

text \<open>The stream is line buffered and every entry is a line, so the content is in the file already.\<close>

definition sqfs_log_flush :: "sqfs_log_state \<Rightarrow> sqfs_log_state" where
  "sqfs_log_flush st = st"

section \<open>Entries\<close>

text \<open>The checks and the opening on first use. The size of the file is not looked up here.\<close>

definition log_enter :: "log_env \<Rightarrow> sqfs_log_level \<Rightarrow> sqfs_log_state \<Rightarrow> bool \<times> sqfs_log_state" where
  "log_enter E level st =
     (if le_level E < level_no level then (False, st)
      else if lg_level st < level_no level then (False, st)
      else let st = (if \<not> lg_initialized st then
                       (if le_fopen E SQFS_LOG_DEFAULT_PATH
                        then st\<lparr>lg_file := Some SQFS_LOG_DEFAULT_PATH,
                                lg_path := (if le_mem E (length SQFS_LOG_DEFAULT_PATH + 1) = 0 then None
                                            else Some SQFS_LOG_DEFAULT_PATH),
                                lg_initialized := True\<rparr>
                        else st\<lparr>lg_file := None\<rparr>)
                     else st)
           in (lg_file st \<noteq> None, st))"

definition log_write :: "log_env \<Rightarrow> nat \<Rightarrow> byte list \<Rightarrow> sqfs_log_state \<Rightarrow> sqfs_log_state" where
  "log_write E limit entry st =
     (case lg_file st of
        None \<Rightarrow> st
      | Some p \<Rightarrow>
          if 0 < length entry \<and> length entry < limit then
            (let written = min (le_fwrite E (length entry)) (length entry)
             in st\<lparr>lg_disk := (lg_disk st)(p := lg_disk st p @ take written entry),
                   lg_current_size := lg_current_size st + of_nat written\<rparr>)
          else st)"

text \<open>The pieces of the formats.\<close>

definition json_member :: "byte list \<Rightarrow> byte list \<Rightarrow> byte list" where
  "json_member name v = [34] @ name @ [34, 58] @ v"

definition json_string :: "byte list \<Rightarrow> byte list" where
  "json_string v = [34] @ v @ [34]"

fun decimal :: "nat \<Rightarrow> byte list" where
  "decimal n = (if n < 10 then [48 + of_nat n] else decimal (n div 10) @ [48 + of_nat (n mod 10)])"

declare decimal.simps [simp del]

definition log_entry ::
  "byte list \<Rightarrow> sqfs_log_level \<Rightarrow> sqfs_module \<Rightarrow> byte list option \<Rightarrow> byte list list \<Rightarrow> byte list" where
  "log_entry ts level module msg extra =
     [123] @ json_member (ascii ''ts'') (json_string ts)
     @ [44] @ json_member (ascii ''level'') (json_string (level_names level))
     @ [44] @ json_member (ascii ''module'') (json_string (module_names module))
     @ [44] @ json_member (ascii ''msg'') (json_string (case msg of None \<Rightarrow> [] | Some m \<Rightarrow> m))
     @ concat (map (\<lambda>m. 44 # m) extra) @ [125, 10]"

definition location :: "byte list \<Rightarrow> nat \<Rightarrow> byte list list" where
  "location file line = [json_member (ascii ''file'') (json_string file), json_member (ascii ''line'') (decimal line)]"

text \<open>\<open>out\<close> is the text the format and its arguments stand for, of which the buffer takes 4095 bytes.\<close>

definition sqfs_log ::
  "log_env \<Rightarrow> sqfs_log_level \<Rightarrow> sqfs_module \<Rightarrow> byte list \<Rightarrow> nat \<Rightarrow> byte list \<Rightarrow> sqfs_log_state \<Rightarrow> sqfs_log_state res" where
  "sqfs_log E level module file line out st =
     (case log_enter E level st of
        (False, st) \<Rightarrow> Inr st
      | (True, st) \<Rightarrow>
          let st = check_and_rotate E st; timestamp = take 31 (le_time E); message = take 4095 (c_str out)
          in rbind (json_escape_string (le_mem E) (Some message)) (\<lambda>escaped_msg.
             rbind (json_escape_string (le_mem E) (Some file)) (\<lambda>escaped_file.
               Inr (log_write E 8192
                 (log_entry timestamp level module escaped_msg
                   (case escaped_file of
                      Some f \<Rightarrow> if level = SQFS_LOG_DEBUG then location f line else []
                    | None \<Rightarrow> [])) st))))"

definition sqfs_log_data ::
  "log_env \<Rightarrow> sqfs_log_level \<Rightarrow> sqfs_module \<Rightarrow> byte list \<Rightarrow> nat \<Rightarrow> byte list \<Rightarrow> byte list option
   \<Rightarrow> sqfs_log_state \<Rightarrow> sqfs_log_state res" where
  "sqfs_log_data E level module file line msg json_data st =
     (case log_enter E level st of
        (False, st) \<Rightarrow> Inr st
      | (True, st) \<Rightarrow>
          let st = check_and_rotate E st; timestamp = take 31 (le_time E)
          in rbind (json_escape_string (le_mem E) (Some msg)) (\<lambda>escaped_msg.
             rbind (case json_data of
                 None \<Rightarrow> Inr []
               | Some j \<Rightarrow>
                   if j = [] then Inr []
                   else if level = SQFS_LOG_DEBUG then
                     rbind (json_escape_string (le_mem E) (Some file)) (\<lambda>escaped_file.
                       Inr (json_member (ascii ''data'') j
                         # location (case escaped_file of None \<Rightarrow> [] | Some f \<Rightarrow> f) line))
                   else Inr [json_member (ascii ''data'') j]) (\<lambda>extra.
               Inr (log_write E 16384 (log_entry timestamp level module escaped_msg extra) st))))"

end
