(* ===== verification/LogFormat.thy ===== *)
theory LogFormat
  imports Log
begin

text \<open>
  What the log promises: the escaped strings are JSON strings that stand for the original bytes,
  and the file stays within its bound.
\<close>

section \<open>Escaping\<close>

text \<open>The reader of JSON strings, for the escapes of bytes: it refuses control characters and quotes.\<close>

definition hex_value :: "byte \<Rightarrow> byte option" where
  "hex_value c =
     (if 48 \<le> c \<and> c \<le> 57 then Some (c - 48)
      else if 97 \<le> c \<and> c \<le> 102 then Some (c - 87)
      else if 65 \<le> c \<and> c \<le> 70 then Some (c - 55) else None)"

definition short_escape :: "byte \<Rightarrow> byte option" where
  "short_escape e =
     (if e = 34 \<or> e = 92 \<or> e = 47 then Some e
      else if e = 98 then Some 8 else if e = 102 then Some 12 else if e = 110 then Some 10
      else if e = 114 then Some 13 else if e = 116 then Some 9 else None)"

definition four_digits :: "byte list \<Rightarrow> byte option" where
  "four_digits ds =
     (case ds of
        [a, b, c, d] \<Rightarrow>
          if a = 48 \<and> b = 48 then
            (case (hex_value c, hex_value d) of (Some x, Some y) \<Rightarrow> Some (16 * x + y) | _ \<Rightarrow> None)
          else None
      | _ \<Rightarrow> None)"

function json_unescape :: "byte list \<Rightarrow> byte list option" where
  "json_unescape s =
     (if s = [] then Some []
      else if hd s \<noteq> 92 then
        (if hd s = 34 \<or> hd s < 0x20 then None else map_option ((#) (hd s)) (json_unescape (tl s)))
      else if length s < 2 then None
      else if s ! 1 = 117 then
        (case four_digits (take 4 (drop 2 s)) of
           None \<Rightarrow> None
         | Some c \<Rightarrow> map_option ((#) c) (json_unescape (drop 6 s)))
      else (case short_escape (s ! 1) of
          None \<Rightarrow> None
        | Some c \<Rightarrow> map_option ((#) c) (json_unescape (drop 2 s))))"
  by pat_completeness auto
termination json_unescape
  by (relation "measure length") (auto simp: neq_Nil_conv)

declare json_unescape.simps [simp del]

lemma byte_cases_control:
  fixes c :: byte
  assumes "c < 0x20"
  shows "hex_value (hex_digit (c div 16)) = Some (c div 16)" and "hex_value (hex_digit (c mod 16)) = Some (c mod 16)"
    and "16 * (c div 16) + c mod 16 = c" and "0x20 \<le> hex_digit (c div 16)" and "0x20 \<le> hex_digit (c mod 16)"
proof -
  have digit: "hex_value (hex_digit d) = Some d \<and> 0x20 \<le> hex_digit d" if "d < 16" for d :: byte
  proof -
    define n where "n = unat d"
    have d: "d = of_nat n" by (simp add: n_def)
    have "n < 16" using that by (simp add: n_def word_less_nat_alt)
    then have "n = 0 \<or> n = 1 \<or> n = 2 \<or> n = 3 \<or> n = 4 \<or> n = 5 \<or> n = 6 \<or> n = 7 \<or> n = 8 \<or> n = 9 \<or> n = 10
        \<or> n = 11 \<or> n = 12 \<or> n = 13 \<or> n = 14 \<or> n = 15" by arith
    then show ?thesis by (elim disjE) (simp_all add: d hex_value_def hex_digit_def)
  qed
  have "c div 16 < 16" "c mod 16 < 16"
    using assms by (simp_all add: word_less_nat_alt unat_div unat_mod)
  with digit show "hex_value (hex_digit (c div 16)) = Some (c div 16)"
    "hex_value (hex_digit (c mod 16)) = Some (c mod 16)"
    "0x20 \<le> hex_digit (c div 16)" "0x20 \<le> hex_digit (c mod 16)" by blast+
  show "16 * (c div 16) + c mod 16 = c" by (rule mult_div_mod_eq)
qed

lemma unescape_escape_byte: "json_unescape (escape_byte c @ s) = map_option ((#) c) (json_unescape s)"
proof (cases "c < 0x20 \<and> c \<notin> {8, 9, 10, 12, 13}")
  case True
  then show ?thesis
    using byte_cases_control [of c]
    by (subst json_unescape.simps) (auto simp: escape_byte_def four_digits_def)
next
  case False
  then show ?thesis
    by (subst json_unescape.simps) (auto simp: escape_byte_def short_escape_def)
qed

lemma unescape_escape: "json_unescape (concat (map escape_byte s)) = Some s"
  by (induction s) (simp_all add: unescape_escape_byte json_unescape.simps [of "[]"])

lemma escape_cost: "length (escape_byte c) = escape_cost c"
  by (auto simp: escape_byte_def escape_cost_def)

lemma escape_fill_ok:
  assumes "length out + sum_list (map escape_cost s) < cap"
  shows "escape_fill cap out s = Inr (out @ concat (map escape_byte s))"
  using assms by (induction s arbitrary: out) (simp_all add: escape_cost)

lemma json_escape_value:
  "json_escape_string mem (Some s)
    = Inr (if mem (sum_list (map escape_cost s) + 1) = 0 then None else Some (concat (map escape_byte s)))"
  by (simp add: json_escape_string_def escape_fill_ok)

lemma escape_byte_printable: "b \<in> set (escape_byte c) \<Longrightarrow> 0x20 \<le> b"
  using byte_cases_control [of c] by (auto simp: escape_byte_def not_less split: if_splits)

section \<open>The size of the file\<close>

text \<open>The recorded size is the size of the open file.\<close>

definition tracked :: "byte list \<Rightarrow> sqfs_log_state \<Rightarrow> bool" where
  "tracked p st \<longleftrightarrow> lg_initialized st \<and> lg_file st = Some p
     \<and> unat (lg_current_size st) = length (lg_disk st p)"

datatype log_op =
    Log_message sqfs_log_level sqfs_module "byte list" nat "byte list"
  | Log_with_data sqfs_log_level sqfs_module "byte list" nat "byte list" "byte list option"
  | Log_flush

fun log_step :: "log_env \<Rightarrow> log_op \<Rightarrow> sqfs_log_state \<Rightarrow> sqfs_log_state res" where
  "log_step E (Log_message l m f n out) st = sqfs_log E l m f n out st"
| "log_step E (Log_with_data l m f n msg j) st = sqfs_log_data E l m f n msg j st"
| "log_step E Log_flush st = Inr (sqfs_log_flush st)"

fun log_run :: "(log_env \<times> log_op) list \<Rightarrow> sqfs_log_state \<Rightarrow> sqfs_log_state res" where
  "log_run [] st = Inr st"
| "log_run ((E, x) # xs) st = rbind (log_step E x st) (log_run xs)"

lemma log_enter_open: "lg_initialized st \<Longrightarrow> lg_file st = Some p \<Longrightarrow> snd (log_enter E l st) = st"
  by (simp add: log_enter_def)

lemma log_write_tracked:
  assumes "tracked p st" and "length (lg_disk st p) + limit < 2 ^ 64"
  shows "tracked p (log_write E limit entry st)
    \<and> length (lg_disk (log_write E limit entry st) p) \<le> length (lg_disk st p) + (limit - 1)
    \<and> lg_max_size (log_write E limit entry st) = lg_max_size st"
proof -
  have "unat (lg_current_size st + of_nat n) = length (lg_disk st p) + n" if "n < limit" for n
    using that assms unat_add_of_nat [of "lg_current_size st" n] by (simp add: tracked_def)
  with assms(1) show ?thesis by (auto simp: log_write_def tracked_def Let_def min_def split: option.split)
qed

lemma rotate_tracked:
  assumes "tracked p st" and "0 < lg_max_size st" and "le_ftruncate E"
  shows "tracked p (check_and_rotate E st) \<and> lg_max_size (check_and_rotate E st) = lg_max_size st
    \<and> length (lg_disk (check_and_rotate E st) p) < unat (lg_max_size st)"
  using assms by (auto simp: check_and_rotate_def tracked_def word_le_nat_alt word_less_nat_alt)

text \<open>One step: either nothing is written, or the file is first cut back below its maximum.\<close>

lemma log_step_tracked:
  assumes t: "tracked p st" and size: "0 < lg_max_size st" "unat (lg_max_size st) < 2 ^ 63" and tr: "le_ftruncate E"
  shows "\<exists>st'. log_step E x st = Inr st' \<and> tracked p st' \<and> lg_max_size st' = lg_max_size st
    \<and> length (lg_disk st' p) \<le> max (length (lg_disk st p)) (unat (lg_max_size st) + 16382)"
proof -
  have open_: "log_enter E l st = (fst (log_enter E l st), st)" for l
    using t log_enter_open [of st p E l] by (metis prod.collapse tracked_def)
  let ?r = "check_and_rotate E st"
  note r = rotate_tracked [OF t size(1) tr]
  have w: "\<exists>st'. log_write E limit entry ?r = st' \<and> tracked p st' \<and> lg_max_size st' = lg_max_size st
      \<and> length (lg_disk st' p) \<le> max (length (lg_disk st p)) (unat (lg_max_size st) + 16382)"
    if "limit \<le> 16384" for limit entry
    using that size(2) r log_write_tracked [of p ?r limit E entry] by auto
  have msg: "\<exists>e. json_escape_string (le_mem E) (Some s) = Inr e" for s by (simp add: json_escape_value)
  show ?thesis
  proof (cases x)
    case (Log_message l m f n out)
    from msg [of "take 4095 (c_str out)"] msg [of f] obtain e g where
      "json_escape_string (le_mem E) (Some (take 4095 (c_str out))) = Inr e"
      "json_escape_string (le_mem E) (Some f) = Inr g" by blast
    with Log_message t w open_ [of l] show ?thesis
      by (cases "fst (log_enter E l st)") (auto simp: sqfs_log_def Let_def)
  next
    case (Log_with_data l m f n out j)
    from msg [of out] msg [of f] obtain e g where
      "json_escape_string (le_mem E) (Some out) = Inr e" "json_escape_string (le_mem E) (Some f) = Inr g" by blast
    with Log_with_data t w open_ [of l] show ?thesis
      by (cases "fst (log_enter E l st)") (auto simp: sqfs_log_data_def Let_def split: option.split)
  next
    case Log_flush
    with t show ?thesis by (simp add: sqfs_log_flush_def)
  qed
qed

lemma log_run_tracked:
  assumes "tracked p st" and "0 < lg_max_size st" and "unat (lg_max_size st) < 2 ^ 63"
    and "\<forall>(E, x) \<in> set xs. le_ftruncate E"
  shows "\<exists>st'. log_run xs st = Inr st' \<and> tracked p st'
    \<and> length (lg_disk st' p) \<le> max (length (lg_disk st p)) (unat (lg_max_size st) + 16382)"
  using assms
proof (induction xs arbitrary: st)
  case (Cons a xs)
  obtain E x where a: "a = (E, x)" by fastforce
  from Cons.prems a log_step_tracked [of p st E x] obtain st1 where
    1: "log_step E x st = Inr st1" "tracked p st1" "lg_max_size st1 = lg_max_size st"
    "length (lg_disk st1 p) \<le> max (length (lg_disk st p)) (unat (lg_max_size st) + 16382)" by auto
  from Cons.IH [OF 1(2)] Cons.prems 1 a show ?case by fastforce
qed auto

lemma log_init_tracked:
  assumes "sqfs_log_init E config st = (True, st')" and "\<not> lg_initialized st" and "le_fstat E"
    and "\<forall>p. length (lg_disk st p) < 2 ^ 63"
  shows "\<exists>p. lg_file st' = Some p \<and> tracked p st' \<and> lg_disk st' = lg_disk st"
proof -
  have "lg_disk (snd (log_set_path E p s)) = lg_disk s" for p s by (simp add: log_set_path_def)
  then have cfg: "log_configure E config s = (b, s') \<Longrightarrow> lg_disk s' = lg_disk s" for s b s'
    by (auto simp: log_configure_def log_set_path_def Let_def split: option.splits prod.splits if_splits)
  from assms(1,2) obtain s1 where c: "log_configure E config st = (True, s1)"
    and s1: "(case (if lg_path s1 = None then log_set_path E SQFS_LOG_DEFAULT_PATH s1 else (True, s1)) of
               (False, st) \<Rightarrow> (False, st) | (True, st) \<Rightarrow> log_open E st) = (True, st')"
    by (auto simp: sqfs_log_init_def split: prod.splits bool.splits)
  from s1 obtain s2 where "log_open E s2 = (True, st')" and "lg_disk s2 = lg_disk s1"
    by (auto simp: log_set_path_def split: if_splits)
  moreover have "length (lg_disk st p) mod 2 ^ 64 = length (lg_disk st p)" for p
    using assms(4) [rule_format, of p] by simp
  ultimately show ?thesis using cfg [OF c] assms(3)
    by (auto simp: log_open_def tracked_def unat_of_nat split: option.splits if_splits)
qed

section \<open>A small log\<close>

definition log_env_ok :: log_env where
  "log_env_ok = \<lparr>le_level = 2, le_mem = mem_ok, le_fopen = (\<lambda>p. True), le_fstat = True, le_ftruncate = True,
     le_fwrite = (\<lambda>n. n), le_time = []\<rparr>"

section \<open>Properties\<close>

text \<open>C30: escaped strings are JSON strings for the original. For every string of bytes and every allocator
  the escaping stays inside of the buffer it has allocated, whose size a first pass has counted; it gives up
  only when the allocation fails, and otherwise a JSON reader turns the result back into the string. The
  result has no control character, so an entry is one line.\<close>

theorem json_escape_roundtrip:
  "(case json_escape_string mem (Some s) of
      Inl e \<Rightarrow> False
    | Inr None \<Rightarrow> mem (sum_list (map escape_cost s) + 1) = 0
    | Inr (Some e) \<Rightarrow> json_unescape e = Some s \<and> length e = sum_list (map escape_cost s) \<and> {b \<in> set e. b < 0x20} = {})"
proof -
  have "length (concat (map escape_byte s)) = sum_list (map escape_cost s)"
    by (simp add: length_concat escape_cost comp_def)
  moreover have "0x20 \<le> b" if "b \<in> set (concat (map escape_byte s))" for b
    using that escape_byte_printable by auto
  ultimately show ?thesis by (auto simp: json_escape_value unescape_escape not_less)
qed

text \<open>C31: the log file is bounded. When \<open>sqfs_log_init\<close> has opened the log and could look up its size, then
  after any sequence of messages, of any length and level, with any partial writes and failing allocations, as
  long as truncation works, the recorded size is the size of the file, and the file is
  no longer than it was at the start or than the maximum and one entry, whichever is more.\<close>

theorem log_size_bounded:
  assumes "sqfs_log_init E config st = (True, st0)" and "\<not> lg_initialized st" and "le_fstat E"
    and "\<forall>p. length (lg_disk st p) < 2 ^ 63" and "0 < lg_max_size st0" and "unat (lg_max_size st0) < 2 ^ 63"
    and "\<forall>(E, x) \<in> set xs. le_ftruncate E"
  shows "\<exists>p st1. lg_file st0 = Some p \<and> log_run xs st0 = Inr st1 \<and> tracked p st1
    \<and> length (lg_disk st1 p) \<le> max (length (lg_disk st p)) (unat (lg_max_size st0) + 16382)"
proof -
  from log_init_tracked [OF assms(1-4)] obtain p where
    p: "lg_file st0 = Some p" "tracked p st0" "lg_disk st0 = lg_disk st" by blast
  from log_run_tracked [OF p(2) assms(5-7)] p show ?thesis by auto
qed

theorem log_size_bounded_witness:
  "\<exists>p st0 st1. sqfs_log_init log_env_ok None (g_log 2 (\<lambda>p. [])) = (True, st0)
     \<and> log_run [(log_env_ok, Log_message SQFS_LOG_ERROR SQFS_MOD_DATA [] 1 [97])] st0 = Inr st1 \<and> tracked p st1"
proof -
  let ?st0 = "(g_log 2 (\<lambda>p. []))\<lparr>lg_path := Some SQFS_LOG_DEFAULT_PATH, lg_file := Some SQFS_LOG_DEFAULT_PATH,
     lg_initialized := True\<rparr>"
  have i: "sqfs_log_init log_env_ok None (g_log 2 (\<lambda>p. [])) = (True, ?st0)"
    by (simp add: sqfs_log_init_def g_log_def log_configure_def log_set_path_def log_open_def log_env_ok_def mem_ok_def)
  from log_size_bounded [OF i, of "[(log_env_ok, Log_message SQFS_LOG_ERROR SQFS_MOD_DATA [] 1 [97])]"] i show ?thesis
    by (auto simp: g_log_def log_env_ok_def SQFS_LOG_DEFAULT_MAX_SIZE_def)
qed

text \<open>A log that is opened by the first message takes the size of an existing file for 0.\<close>

lemma auto_open_untracked:
  assumes "\<not> lg_initialized st" and "le_fopen E SQFS_LOG_DEFAULT_PATH" and "level_no l \<le> le_level E"
    and "level_no l \<le> lg_level st" and "lg_current_size st = 0" and "0 < lg_max_size st"
  shows "fst (log_enter E l st) \<and> check_and_rotate E (snd (log_enter E l st)) = snd (log_enter E l st)"
  using assms by (simp add: log_enter_def check_and_rotate_def)

end
