(* ===== verification/Report.thy ===== *)
theory Report
  imports Log Stats
begin

text \<open>
  \<open>sqfs_stats_report\<close> of \<open>src/core/stats.c\<close>: the counters as a JSON object and as a line of text,
  both written to the log. The source file and the lines of the calls are parameters.
\<close>

section \<open>The texts\<close>

definition json_object :: "(string \<times> byte list) list \<Rightarrow> byte list" where
  "json_object ms = [123]
     @ (case map (\<lambda>(name, v). json_member (ascii name) v) ms of
          [] \<Rightarrow> []
        | m # rest \<Rightarrow> m @ concat (map (\<lambda>m. 44 # m) rest)) @ [125]"

text \<open>\<open>%lu\<close> and \<open>%ld\<close>.\<close>

definition fmt_lu :: "u64 \<Rightarrow> byte list" where "fmt_lu w = decimal (unat w)"
definition fmt_ld :: "int \<Rightarrow> byte list" where
  "fmt_ld i = (if i < 0 then 45 # decimal (nat (- i)) else decimal (nat i))"

definition cache_report :: "sqfs_cache_stats \<Rightarrow> byte list" where
  "cache_report c = json_object [(''hits'', fmt_lu (cs_hits c)), (''misses'', fmt_lu (cs_misses c)),
     (''evictions'', fmt_lu (cs_evictions c)), (''entries'', fmt_lu (cs_current_entries c)),
     (''memory'', fmt_lu (cs_current_memory c))]"

definition avg_decomp_time :: "sqfs_compressor_stats \<Rightarrow> u64" where
  "avg_decomp_time c = (if 0 < decompress_count c then total_time_us c div decompress_count c else 0)"

definition operations_report :: "sqfs_stats \<Rightarrow> byte list" where
  "operations_report g = json_object [(''open'', fmt_lu (open_count g)), (''read'', fmt_lu (read_count g)),
     (''read_bytes'', fmt_lu (read_bytes g)), (''readdir'', fmt_lu (readdir_count g)),
     (''getattr'', fmt_lu (getattr_count g)), (''lookup'', fmt_lu (lookup_count g))]"

definition caches_report :: "sqfs_stats \<Rightarrow> byte list" where
  "caches_report g = json_object [(''inode'', cache_report (cache_inode g)), (''dir'', cache_report (cache_dir g)),
     (''meta'', cache_report (cache_meta g)), (''data'', cache_report (cache_data g))]"

definition compressor_report :: "sqfs_compressor_stats \<Rightarrow> byte list" where
  "compressor_report c = json_object [(''calls'', fmt_lu (decompress_count c)),
     (''bytes_in'', fmt_lu (decompress_bytes_in c)), (''bytes_out'', fmt_lu (decompress_bytes_out c)),
     (''errors'', fmt_lu (decompress_errors c)), (''avg_time_us'', fmt_lu (avg_decomp_time c))]"

definition errors_report :: "sqfs_error_stats \<Rightarrow> byte list" where
  "errors_report e = json_object [(''total'', fmt_lu (e_total e)), (''io'', fmt_lu (e_io e)),
     (''corrupt'', fmt_lu (e_corrupt e)), (''no_memory'', fmt_lu (e_no_memory e))]"

definition stats_json :: "int \<Rightarrow> sqfs_stats \<Rightarrow> byte list" where
  "stats_json now g = json_object [(''uptime_sec'', fmt_ld (now - start_time g)),
     (''operations'', operations_report g), (''cache'', caches_report g),
     (''compressor'', compressor_report (compressor_stats g)), (''errors'', errors_report (error_stats g))]"

text \<open>Hits and look-ups, at least one.\<close>

definition hit_rate :: "sqfs_cache_stats \<Rightarrow> byte list" where
  "hit_rate c = (let total = cs_hits c + cs_misses c
     in fmt_lu (cs_hits c) @ ascii ''/'' @ fmt_lu (if 0 < total then total else 1))"

definition stats_summary :: "int \<Rightarrow> sqfs_stats \<Rightarrow> byte list" where
  "stats_summary now g = ascii ''Stats: uptime='' @ fmt_ld (now - start_time g)
     @ ascii ''s, opens='' @ fmt_lu (open_count g) @ ascii '', reads='' @ fmt_lu (read_count g)
     @ ascii '' ('' @ fmt_lu (read_bytes g) @ ascii '' bytes), cache hits: inode='' @ hit_rate (cache_inode g)
     @ ascii '' dir='' @ hit_rate (cache_dir g) @ ascii '' meta='' @ hit_rate (cache_meta g)
     @ ascii '' data='' @ hit_rate (cache_data g)"

definition sqfs_stats_report ::
  "log_env \<Rightarrow> byte list \<Rightarrow> nat \<Rightarrow> nat \<Rightarrow> int \<Rightarrow> sqfs_stats \<Rightarrow> sqfs_log_state \<Rightarrow> sqfs_log_state res" where
  "sqfs_stats_report E file line1 line2 now g st =
     (let report = stats_json now g in
      rbind (if 0 < length report \<and> length report < 4096
             then sqfs_log_data E SQFS_LOG_INFO SQFS_MOD_FUSE file line1 (ascii ''statistics report'') (Some report) st
             else Inr st) (\<lambda>st.
        sqfs_log E SQFS_LOG_DEBUG SQFS_MOD_FUSE file line2 (stats_summary now g) st))"

section \<open>The report fits\<close>

lemma decimal_length: "n < 10 ^ Suc k \<Longrightarrow> length (decimal n) \<le> Suc k"
proof (induction k arbitrary: n)
  case 0
  then show ?case by (simp add: decimal.simps)
next
  case (Suc k)
  show ?case
  proof (cases "n < 10")
    case False
    have "n div 10 < 10 ^ Suc k" using Suc.prems by (simp add: less_mult_imp_div_less)
    from Suc.IH [OF this] False show ?thesis by (subst decimal.simps) simp
  qed (simp add: decimal.simps)
qed

lemma fmt_lu_length: "length (fmt_lu w) \<le> 20"
proof -
  have "unat w < 18446744073709551616" using unat_u64_lt [of w] by simp
  also have "(18446744073709551616 :: nat) < 10 ^ Suc 19" by simp
  finally have "unat w < 10 ^ Suc 19" .
  from decimal_length [OF this] show ?thesis by (simp add: fmt_lu_def)
qed

lemma fmt_ld_length:
  assumes "\<bar>i\<bar> < 10 ^ 19"
  shows "length (fmt_ld i) \<le> 20"
proof -
  have "nat \<bar>i\<bar> < 10 ^ Suc 18" using assms by simp
  from decimal_length [OF this] show ?thesis by (auto simp: fmt_ld_def)
qed

lemma ascii_length [simp]: "length (ascii s) = length s"
  by (simp add: ascii_def)




lemma cache_report_length: "length (cache_report c) \<le> 160"
  using fmt_lu_length [of "cs_hits c"] fmt_lu_length [of "cs_misses c"] fmt_lu_length [of "cs_evictions c"]
    fmt_lu_length [of "cs_current_entries c"] fmt_lu_length [of "cs_current_memory c"]
  by (simp add: cache_report_def json_object_def json_member_def)

lemma operations_report_length: "length (operations_report g) \<le> 190"
  using fmt_lu_length [of "open_count g"] fmt_lu_length [of "read_count g"] fmt_lu_length [of "read_bytes g"]
    fmt_lu_length [of "readdir_count g"] fmt_lu_length [of "getattr_count g"] fmt_lu_length [of "lookup_count g"]
  by (simp add: operations_report_def json_object_def json_member_def)

lemma caches_report_length: "length (caches_report g) \<le> 680"
  using cache_report_length [of "cache_inode g"] cache_report_length [of "cache_dir g"]
    cache_report_length [of "cache_meta g"] cache_report_length [of "cache_data g"]
  by (simp add: caches_report_def json_object_def json_member_def)

lemma compressor_report_length: "length (compressor_report c) \<le> 170"
  using fmt_lu_length [of "decompress_count c"] fmt_lu_length [of "decompress_bytes_in c"]
    fmt_lu_length [of "decompress_bytes_out c"] fmt_lu_length [of "decompress_errors c"]
    fmt_lu_length [of "avg_decomp_time c"]
  by (simp add: compressor_report_def json_object_def json_member_def)

lemma errors_report_length: "length (errors_report e) \<le> 130"
  using fmt_lu_length [of "e_total e"] fmt_lu_length [of "e_io e"] fmt_lu_length [of "e_corrupt e"]
    fmt_lu_length [of "e_no_memory e"]
  by (simp add: errors_report_def json_object_def json_member_def)

text \<open>Whatever the counters are, the report is complete.\<close>

lemma stats_report_complete:
  assumes "\<bar>now - start_time g\<bar> < 10 ^ 19"
  shows "0 < length (stats_json now g) \<and> length (stats_json now g) < 4096"
  using fmt_ld_length [OF assms] operations_report_length [of g] caches_report_length [of g]
    compressor_report_length [of "compressor_stats g"] errors_report_length [of "error_stats g"]
  by (simp add: stats_json_def json_object_def json_member_def)

end
