(* ===== verification/Process.thy ===== *)
theory Process
  imports Account LogFormat Report
begin

text \<open>
  The life of the process in \<open>fuse/fuse_main.c\<close>: \<open>main\<close> with the log, the statistics and the descriptor of the image
  around what \<open>FuseMain\<close> has of it, the callbacks \<open>sqfs_fuse_init\<close> and \<open>sqfs_fuse_destroy\<close>. The text of \<open>strerror\<close> and
  the answers of the system to each call of the log are parameters.
\<close>

section \<open>Logging never fails\<close>

text \<open>A log that is not initialised has neither a stream nor a path.\<close>

definition log_sound :: "sqfs_log_state \<Rightarrow> bool" where
  "log_sound st \<longleftrightarrow> lg_initialized st \<or> lg_file st = None \<and> lg_path st = None"

definition log_closed :: "sqfs_log_state \<Rightarrow> bool" where
  "log_closed st \<longleftrightarrow> \<not> lg_initialized st \<and> lg_file st = None \<and> lg_path st = None"

lemma log_destroy_closed: "log_sound st \<Longrightarrow> log_closed (sqfs_log_destroy st)"
  by (auto simp: log_sound_def log_closed_def sqfs_log_destroy_def)

lemma log_enter_sound: "log_sound st \<Longrightarrow> log_sound (snd (log_enter E l st))"
  by (auto simp: log_sound_def log_enter_def Let_def)

lemma log_parts_sound [simp]:
  "log_sound (check_and_rotate E st) = log_sound st"
  "log_sound (log_write E limit entry st) = log_sound st"
  by (simp_all add: log_sound_def check_and_rotate_def log_write_def Let_def split: option.split)

lemma sqfs_log_returns:
  assumes "log_sound st"
  obtains st' where "sqfs_log E l m file line out st = Inr st'" and "log_sound st'"
proof -
  obtain ready st1 where e: "log_enter E l st = (ready, st1)" by fastforce
  with log_enter_sound [OF assms, of E l] that show thesis
    by (cases ready) (auto simp: sqfs_log_def Let_def json_escape_value)
qed

lemma sqfs_log_data_returns:
  assumes "log_sound st"
  obtains st' where "sqfs_log_data E l m file line msg data st = Inr st'" and "log_sound st'"
proof -
  obtain ready st1 where e: "log_enter E l st = (ready, st1)" by fastforce
  obtain ef where ef: "json_escape_string (le_mem E) (Some file) = Inr ef" by (simp add: json_escape_value)
  obtain extra where "(case data of None \<Rightarrow> Inr [] | Some j \<Rightarrow> if j = [] then Inr []
      else if l = SQFS_LOG_DEBUG then rbind (json_escape_string (le_mem E) (Some file)) (\<lambda>escaped_file. Inr (json_member (ascii ''data'') j
        # location (case escaped_file of None \<Rightarrow> [] | Some f \<Rightarrow> f) line))
      else Inr [json_member (ascii ''data'') j]) = (Inr extra :: byte list list res)"
    by (cases data; cases "data = Some []"; cases "l = SQFS_LOG_DEBUG") (auto simp: ef)
  with e log_enter_sound [OF assms, of E l] that show thesis
    by (cases ready) (simp_all add: sqfs_log_data_def json_escape_value [of _ msg])
qed

lemma stats_report_returns:
  assumes "log_sound st"
  obtains st' where "sqfs_stats_report E file l1 l2 now g st = Inr st'" and "log_sound st'"
proof -
  let ?j = "stats_json now g"
  obtain st1 where st1: "(if 0 < length ?j \<and> length ?j < 4096
      then sqfs_log_data E SQFS_LOG_INFO SQFS_MOD_FUSE file l1 (ascii ''statistics report'') (Some ?j) st else Inr st) = Inr st1"
    "log_sound st1"
    using assms sqfs_log_data_returns [OF assms, of E SQFS_LOG_INFO SQFS_MOD_FUSE "file" l1 "ascii ''statistics report''" "Some ?j"]
    by (metis (full_types))
  obtain st2 where "sqfs_log E SQFS_LOG_DEBUG SQFS_MOD_FUSE file l2 (stats_summary now g) st1 = Inr st2" "log_sound st2"
    by (rule sqfs_log_returns [OF st1(2)])
  with st1 that show thesis by (simp add: sqfs_stats_report_def Let_def)
qed

lemma log_init_sound:
  assumes "log_sound st"
  shows "log_sound (snd (sqfs_log_init E config st))"
  using assms
  by (auto simp: sqfs_log_init_def log_configure_def log_set_path_def log_open_def log_sound_def Let_def
      split: option.split bool.split)

section \<open>The process\<close>

text \<open>The global state beside the context: the log, the statistics, whether \<open>g_fd\<close> is a descriptor (it is -1 at first),
  and the account of the descriptors of the image.\<close>

record process =
  pr_log :: sqfs_log_state
  pr_stats :: sqfs_stats
  pr_fd :: bool
  pr_opened :: nat
  pr_closed :: nat

definition all_closed :: "process \<Rightarrow> bool" where
  "all_closed p \<longleftrightarrow> log_closed (pr_log p) \<and> pr_opened p = pr_closed p"

text \<open>What the calls of the log are given: the answers to each of them, the name of the source file, the text of an
  error, the time.\<close>

record main_env =
  me_log :: "nat \<Rightarrow> log_env"
  me_file :: "byte list"
  me_error :: "byte list"
  me_now :: int

type_synonym main_result = "(main_outcome \<times> process) option"

definition main_log ::
  "log_env \<Rightarrow> sqfs_log_level \<Rightarrow> byte list \<Rightarrow> nat \<Rightarrow> byte list \<Rightarrow> (process \<Rightarrow> main_result) \<Rightarrow> process \<Rightarrow> main_result" where
  "main_log E level file line out k p =
     (case sqfs_log E level SQFS_MOD_FUSE file line out (pr_log p) of
        Inl (Fault f) \<Rightarrow> Some (Crash f, p)
      | Inl (Err e) \<Rightarrow> None
      | Inr st \<Rightarrow> k (p\<lparr>pr_log := st\<rparr>))"

definition main_exit :: "int \<Rightarrow> process \<Rightarrow> main_result" where
  "main_exit n p = Some (Exit n, p\<lparr>pr_log := sqfs_log_destroy (pr_log p)\<rparr>)"

text \<open>From the opening of the image on. A mount that fails closes the descriptor and leaves its number in \<open>g_fd\<close>.\<close>

definition main_mount ::
  "codec_lib \<Rightarrow> allocator \<Rightarrow> (nat \<Rightarrow> bool \<times> bool) \<Rightarrow> (string \<Rightarrow> os_file option) \<Rightarrow> main_env \<Rightarrow> string \<Rightarrow> string list
   \<Rightarrow> main_options \<Rightarrow> string \<Rightarrow> process \<Rightarrow> main_result" where
  "main_mount lib mem env open_image M argv0 argv opts img =
     main_log (me_log M 1) SQFS_LOG_INFO (me_file M) 423 (ascii ''opening image: '' @ ascii img) (\<lambda>p.
       case open_image img of
         None \<Rightarrow> main_log (me_log M 2) SQFS_LOG_ERROR (me_file M) 429 (ascii ''cannot open image: '' @ me_error M) (main_exit 1) p
       | Some fd \<Rightarrow>
           let p = p\<lparr>pr_fd := True, pr_opened := pr_opened p + 1\<rparr>
           in case init_context lib mem env fd (o_cache_size_mb opts) (o_no_cache opts) (pr_stats p) of
                (None, _) \<Rightarrow> None
              | (Some (Inl (Fault f)), g) \<Rightarrow> Some (Crash f, p)
              | (Some (Inl (Err e)), g) \<Rightarrow> main_exit 1 (p\<lparr>pr_stats := g, pr_closed := pr_closed p + 1\<rparr>)
              | (Some (Inr ctx), g) \<Rightarrow>
                  main_log (me_log M 2) SQFS_LOG_INFO (me_file M) 446 (ascii ''filesystem initialized'') (\<lambda>p.
                    Some (Run_fuse (argv0 # fuse_args img argv @ [''-oro'', ''-onosuid'', ''-onodev'']) ctx, p))
                  (p\<lparr>pr_stats := g\<rparr>))"

definition main_process ::
  "codec_lib \<Rightarrow> allocator \<Rightarrow> (nat \<Rightarrow> bool \<times> bool) \<Rightarrow> (string \<Rightarrow> os_file option) \<Rightarrow> main_env \<Rightarrow> string \<Rightarrow> string list
   \<Rightarrow> process \<Rightarrow> main_result" where
  "main_process lib mem env open_image M argv0 argv p =
     (let log_config = \<lparr>cfg_path = None, cfg_max_size = 0, cfg_level = le_level (me_log M 0)\<rparr>;
          p = p\<lparr>pr_log := snd (sqfs_log_init (me_log M 0) (Some log_config) (pr_log p)), pr_stats := sqfs_stats_init (me_now M)\<rparr>
      in case parse_args mem argv \<lparr>o_image = None, o_mount = None, o_cache_size_mb = DEFAULT_CACHE_SIZE_MB,
             o_no_cache = False\<rparr> of
           Show_usage \<Rightarrow> main_exit 0 p
         | Show_version \<Rightarrow> main_exit 0 p
         | Parsed opts \<Rightarrow>
             (case o_image opts of
                None \<Rightarrow> main_exit 1 p
              | Some img \<Rightarrow>
                  if o_mount opts = None then main_exit 1 p
                  else main_mount lib mem env open_image M argv0 argv opts img p))"

section \<open>The callbacks at both ends\<close>

record fuse_config =
  kernel_cache :: int
  use_ino :: int

definition sqfs_fuse_init :: "sqfs_ctx \<Rightarrow> fuse_config \<Rightarrow> sqfs_ctx \<times> fuse_config" where
  "sqfs_fuse_init g_ctx cfg = (g_ctx, cfg\<lparr>kernel_cache := 1, use_ino := 1\<rparr>)"

definition sqfs_fuse_destroy ::
  "(nat \<Rightarrow> log_env) \<Rightarrow> byte list \<Rightarrow> byte list \<Rightarrow> nat \<Rightarrow> nat \<Rightarrow> int \<Rightarrow> sqfs_ctx \<Rightarrow> process \<Rightarrow> (sqfs_ctx \<times> process) lres" where
  "sqfs_fuse_destroy E file stats_file line1 line2 now g_ctx p =
     (case sqfs_log (E 0) SQFS_LOG_INFO SQFS_MOD_FUSE file 337 (ascii ''unmounting filesystem'') (pr_log p) of
        Inl (Fault f) \<Rightarrow> Some (Inl (Fault f))
      | Inl (Err e) \<Rightarrow> None
      | Inr st \<Rightarrow>
          (case sqfs_stats_report (E 1) stats_file line1 line2 now (pr_stats p) st of
             Inl (Fault f) \<Rightarrow> Some (Inl (Fault f))
           | Inl (Err e) \<Rightarrow> None
           | Inr st \<Rightarrow> lbind (destroy_context g_ctx) (\<lambda>ctx.
               let p = p\<lparr>pr_log := st\<rparr>;
                   p = (if pr_fd p then p\<lparr>pr_closed := pr_closed p + 1, pr_fd := False\<rparr> else p)
               in Some (Inr (ctx, p\<lparr>pr_log := sqfs_log_destroy (pr_log p)\<rparr>)))))"

section \<open>What it refines\<close>

lemma main_log_runs:
  assumes "log_sound (pr_log p)"
  obtains st where "\<And>k. main_log E l file line out k p = k (p\<lparr>pr_log := st\<rparr>)" and "log_sound st"
proof -
  obtain st where "sqfs_log E l SQFS_MOD_FUSE file line out (pr_log p) = Inr st" "log_sound st"
    by (rule sqfs_log_returns [OF assms])
  then show thesis by (intro that) (simp_all add: main_log_def)
qed

text \<open>The result of a run: that of \<open>main\<close>, the log and the descriptor as every way out leaves them.\<close>

definition ends_as :: "main_outcome option \<Rightarrow> main_result \<Rightarrow> bool" where
  "ends_as r x \<longleftrightarrow> (case x of
       None \<Rightarrow> r = None
     | Some (out, p) \<Rightarrow> r = Some out \<and>
         (case out of
            Exit n \<Rightarrow> all_closed p
          | Run_fuse args ctx \<Rightarrow> log_sound (pr_log p) \<and> pr_fd p \<and> pr_opened p = pr_closed p + 1
          | Crash f \<Rightarrow> True))"

lemma main_exit_ends: "log_sound (pr_log p) \<Longrightarrow> pr_opened p = pr_closed p \<Longrightarrow> ends_as (Some (Exit n)) (main_exit n p)"
  by (simp add: ends_as_def main_exit_def all_closed_def log_destroy_closed)

lemma main_mount_ends:
  assumes "log_sound (pr_log p)" and "pr_opened p = pr_closed p"
  shows "ends_as (case open_image img of None \<Rightarrow> Some (Exit 1) | Some fd \<Rightarrow>
      (case fst (init_context lib mem env fd (o_cache_size_mb opts) (o_no_cache opts) (pr_stats p)) of
         None \<Rightarrow> None | Some (Inl (Fault f)) \<Rightarrow> Some (Crash f) | Some (Inl (Err e)) \<Rightarrow> Some (Exit 1)
       | Some (Inr ctx) \<Rightarrow> Some (Run_fuse (argv0 # fuse_args img argv @ [''-oro'', ''-onosuid'', ''-onodev'']) ctx)))
    (main_mount lib mem env open_image M argv0 argv opts img p)"
proof -
  obtain st where 1: "\<And>k. main_log (me_log M 1) SQFS_LOG_INFO (me_file M) 423 (ascii ''opening image: '' @ ascii img) k p
      = k (p\<lparr>pr_log := st\<rparr>)" "log_sound st" by (rule main_log_runs [OF assms(1)]) blast
  let ?p = "p\<lparr>pr_log := st\<rparr>"
  show ?thesis
  proof (cases "open_image img")
    case None
    obtain st2 where 2: "\<And>k. main_log (me_log M 2) SQFS_LOG_ERROR (me_file M) 429 (ascii ''cannot open image: '' @ me_error M) k ?p
        = k (?p\<lparr>pr_log := st2\<rparr>)" "log_sound st2"
      by (rule main_log_runs [of ?p]) (use 1(2) in auto)
    show ?thesis
      unfolding main_mount_def 1(1) using None assms(2) 2 main_exit_ends [of "p\<lparr>pr_log := st2\<rparr>" 1] by simp
  next
    case (Some fd)
    let ?q = "?p\<lparr>pr_fd := True, pr_opened := pr_opened p + 1\<rparr>"
    obtain r g where i: "init_context lib mem env fd (o_cache_size_mb opts) (o_no_cache opts) (pr_stats p) = (r, g)" by fastforce
    obtain st2 where 2: "\<And>k. main_log (me_log M 2) SQFS_LOG_INFO (me_file M) 446 (ascii ''filesystem initialized'') k (?q\<lparr>pr_stats := g\<rparr>)
        = k (?q\<lparr>pr_stats := g, pr_log := st2\<rparr>)" "log_sound st2"
      by (rule main_log_runs [of "?q\<lparr>pr_stats := g\<rparr>"]) (use 1(2) in auto)
    have failed: "ends_as (Some (Exit 1)) (main_exit 1 (?q\<lparr>pr_stats := g, pr_closed := pr_closed p + 1\<rparr>))"
      by (rule main_exit_ends) (use 1(2) assms(2) in simp_all)
    consider "r = None" | f where "r = Some (Inl (Fault f))" | e where "r = Some (Inl (Err e))" | ctx where "r = Some (Inr ctx)"
      by (metis failure.exhaust not_None_eq sum.exhaust)
    then show ?thesis
      unfolding main_mount_def 1(1) by cases (use Some i 2 failed assms(2) in \<open>simp_all add: ends_as_def Let_def\<close>)
  qed
qed

text \<open>\<open>main\<close> of \<open>FuseMain\<close> is the process without log and descriptor.\<close>

lemma main_process_ends:
  assumes "log_sound (pr_log p)" and "pr_opened p = pr_closed p"
  shows "ends_as (main lib mem env open_image argv0 argv (sqfs_stats_init (me_now M)))
    (main_process lib mem env open_image M argv0 argv p)"
proof -
  let ?cfg = "\<lparr>cfg_path = None, cfg_max_size = 0, cfg_level = le_level (me_log M 0)\<rparr>"
  let ?p = "p\<lparr>pr_log := snd (sqfs_log_init (me_log M 0) (Some ?cfg) (pr_log p)), pr_stats := sqfs_stats_init (me_now M)\<rparr>"
  have p: "log_sound (pr_log ?p)" "pr_opened ?p = pr_closed ?p" using log_init_sound [OF assms(1)] assms(2) by simp_all
  define q where "q = ?p"
  have q: "pr_stats q = sqfs_stats_init (me_now M)" "log_sound (pr_log q)" "pr_opened q = pr_closed q"
    using p by (simp_all add: q_def)
  note exits = main_exit_ends [OF q(2,3)] and unfold = main_process_def Let_def q_def [symmetric] main_def
  show ?thesis
  proof (cases "parse_args mem argv \<lparr>o_image = None, o_mount = None, o_cache_size_mb = DEFAULT_CACHE_SIZE_MB, o_no_cache = False\<rparr>")
    case (Parsed opts)
    show ?thesis
    proof (cases "o_image opts = None \<or> o_mount opts = None")
      case True
      with exits Parsed show ?thesis by (auto simp: unfold split: option.split)
    next
      case False
      then obtain img mp where "o_image opts = Some img" "o_mount opts = Some mp" by auto
      with Parsed main_mount_ends [OF q(2,3), unfolded q(1)] show ?thesis
        by (simp add: unfold)
    qed
  qed (use exits in \<open>simp_all add: unfold\<close>)
qed

lemma fuse_destroy_ends:
  assumes "log_sound (pr_log p)" and "pr_fd p" and "pr_opened p = pr_closed p + 1" and "destroy_context ctx = Some (Inr ctx')"
  obtains p' where "sqfs_fuse_destroy E file stats_file l1 l2 now ctx p = Some (Inr (ctx', p'))" and "all_closed p'" and "\<not> pr_fd p'"
proof -
  obtain st where st: "sqfs_log (E 0) SQFS_LOG_INFO SQFS_MOD_FUSE file 337 (ascii ''unmounting filesystem'') (pr_log p) = Inr st"
    "log_sound st" by (rule sqfs_log_returns [OF assms(1)])
  obtain st2 where "sqfs_stats_report (E 1) stats_file l1 l2 now (pr_stats p) st = Inr st2" "log_sound st2"
    by (rule stats_report_returns [OF st(2)])
  with st assms show thesis
    by (intro that) (auto simp: sqfs_fuse_destroy_def all_closed_def log_destroy_closed)
qed

lemma main_runs_mounted:
  assumes "main lib mem env open_image argv0 argv g = Some (Run_fuse args ctx)"
  obtains opts fd where "parse_args mem argv \<lparr>o_image = None, o_mount = None, o_cache_size_mb = DEFAULT_CACHE_SIZE_MB,
      o_no_cache = False\<rparr> = Parsed opts"
    and "fst (init_context lib mem env fd (o_cache_size_mb opts) (o_no_cache opts) g) = Some (Inr ctx)"
  using assms unfolding main_def
  by (auto split: parsed.splits option.splits sum.splits failure.splits if_splits)

lemma mounted_session_destroyed:
  assumes "fst (init_context lib mem env fd mb False g) = Some (Inr ctx0)" and "unat mb \<le> 2 ^ 30"
    and "(fuse_step E)\<^sup>*\<^sup>* (mounted ctx0) s"
  obtains ctx' where "destroy_context (se_ctx s) = Some (Inr ctx')"
proof -
  have "cache_valid (ctx_data_cache ctx0)" using init_context_ok [OF assms(1,2)] by (auto simp: cache_valid_def)
  from session_ok_run [OF assms(3) this] show thesis using session_destroyed [OF assms(1,2)] that by blast
qed

section \<open>Properties\<close>

text \<open>C7: a run of the program. Whatever the arguments and the image are, \<open>main\<close> with its log and its descriptor has the
  outcome of \<open>main\<close> alone; when it exits, on any of its paths, the log is closed and every descriptor that was opened
  has been closed exactly once; and when it goes on to FUSE, then from every state the session gets to \<open>sqfs_fuse_destroy\<close>
  returns, with the same account. (Without \<open>--nocache\<close>, whose reads fault.)\<close>

theorem program_closes_everything:
  assumes "log_sound (pr_log p)" and "pr_opened p = pr_closed p"
    and "\<forall>opts. parse_args mem argv \<lparr>o_image = None, o_mount = None, o_cache_size_mb = DEFAULT_CACHE_SIZE_MB, o_no_cache = False\<rparr>
        = Parsed opts \<longrightarrow> \<not> o_no_cache opts \<and> unat (o_cache_size_mb opts) \<le> 2 ^ 30"
  shows "case main_process lib mem env open_image M argv0 argv p of
      None \<Rightarrow> main lib mem env open_image argv0 argv (sqfs_stats_init (me_now M)) = None
    | Some (out, q) \<Rightarrow> main lib mem env open_image argv0 argv (sqfs_stats_init (me_now M)) = Some out \<and>
        (case out of
           Exit n \<Rightarrow> all_closed q
         | Run_fuse args ctx \<Rightarrow> \<forall>s. (fuse_step H)\<^sup>*\<^sup>* (mounted ctx) s \<longrightarrow>
             (\<exists>ctx' q'. destroy_context (se_ctx s) = Some (Inr ctx')
               \<and> sqfs_fuse_destroy E main_file stats_file l1 l2 now (se_ctx s) q = Some (Inr (ctx', q')) \<and> all_closed q')
         | Crash f \<Rightarrow> True)"
proof -
  let ?m = "main lib mem env open_image argv0 argv (sqfs_stats_init (me_now M))"
  have e: "ends_as ?m (main_process lib mem env open_image M argv0 argv p)" by (rule main_process_ends [OF assms(1,2)])
  have run: "\<exists>ctx' q'. destroy_context (se_ctx s) = Some (Inr ctx')
      \<and> sqfs_fuse_destroy E main_file stats_file l1 l2 now (se_ctx s) q = Some (Inr (ctx', q')) \<and> all_closed q'"
    if m: "?m = Some (Run_fuse args ctx)" and q: "log_sound (pr_log q)" "pr_fd q" "pr_opened q = pr_closed q + 1"
      and s: "(fuse_step H)\<^sup>*\<^sup>* (mounted ctx) s" for args ctx q s
  proof -
    obtain opts fd where "parse_args mem argv \<lparr>o_image = None, o_mount = None, o_cache_size_mb = DEFAULT_CACHE_SIZE_MB,
        o_no_cache = False\<rparr> = Parsed opts"
      and i: "fst (init_context lib mem env fd (o_cache_size_mb opts) (o_no_cache opts) (sqfs_stats_init (me_now M))) = Some (Inr ctx)"
      by (rule main_runs_mounted [OF m])
    with assms(3) have "\<not> o_no_cache opts" "unat (o_cache_size_mb opts) \<le> 2 ^ 30" by simp_all
    with i obtain ctx' where d: "destroy_context (se_ctx s) = Some (Inr ctx')"
      using mounted_session_destroyed [OF _ _ s] by (metis (full_types))
    show ?thesis by (rule fuse_destroy_ends [OF q d]) (use d in blast)
  qed
  show ?thesis
    using e run by (auto simp: ends_as_def split: option.splits main_outcome.splits)
qed

definition start_process :: process where
  "start_process = \<lparr>pr_log = g_log 2 (\<lambda>p. []), pr_stats = sqfs_stats_init 0, pr_fd = False, pr_opened = 0, pr_closed = 0\<rparr>"

definition start_env :: main_env where
  "start_env = \<lparr>me_log = (\<lambda>k. log_env_ok), me_file = ascii ''fuse_main.c'', me_error = [], me_now = 0\<rparr>"

theorem program_closes_everything_witness:
  "\<exists>args ctx q ctx' q'. main_process stored_lib mem_ok env_ok (\<lambda>img. Some fs_file) start_env ''squashfs-fuse'' [''i'', ''m''] start_process
       = Some (Run_fuse args ctx, q)
     \<and> sqfs_fuse_destroy (\<lambda>k. log_env_ok) [] [] 189 193 0 ctx q = Some (Inr (ctx', q')) \<and> all_closed q'"
proof -
  let ?argv = "[''i'', ''m'']" and ?open = "\<lambda>img :: string. Some fs_file"
  let ?opts = "\<lparr>o_image = Some ''i'', o_mount = Some ''m'', o_cache_size_mb = DEFAULT_CACHE_SIZE_MB, o_no_cache = False\<rparr>"
  have parsed: "parse_args mem_ok ?argv \<lparr>o_image = None, o_mount = None, o_cache_size_mb = DEFAULT_CACHE_SIZE_MB,
      o_no_cache = False\<rparr> = Parsed ?opts"
    by (simp add: arg_defs strdup_def mem_ok_def)
  obtain ctx where ctx: "fst (init_context stored_lib mem_ok env_ok fs_file 32 False (sqfs_stats_init 0)) = Some (Inr ctx)"
    using fs_mount [OF mem_ok_pos] by blast
  have m: "main stored_lib mem_ok env_ok ?open ''squashfs-fuse'' ?argv (sqfs_stats_init (me_now start_env))
      = Some (Run_fuse (''squashfs-fuse'' # fuse_args ''i'' ?argv @ [''-oro'', ''-onosuid'', ''-onodev'']) ctx)"
    using ctx unfolding main_def parsed by (simp add: start_env_def DEFAULT_CACHE_SIZE_MB_def)
  have start: "log_sound (pr_log start_process)" "pr_opened start_process = pr_closed start_process"
    by (simp_all add: start_process_def log_sound_def g_log_def)
  have opts: "\<forall>opts. parse_args mem_ok ?argv \<lparr>o_image = None, o_mount = None, o_cache_size_mb = DEFAULT_CACHE_SIZE_MB,
      o_no_cache = False\<rparr> = Parsed opts \<longrightarrow> \<not> o_no_cache opts \<and> unat (o_cache_size_mb opts) \<le> 2 ^ 30"
    unfolding parsed by (auto simp: DEFAULT_CACHE_SIZE_MB_def)
  note run = program_closes_everything [OF start opts, where lib = stored_lib and env = env_ok and open_image = ?open and M = start_env
      and ?argv0.0 = "''squashfs-fuse''" and H = small_heap and E = "\<lambda>k. log_env_ok" and main_file = "[]" and stats_file = "[]"
      and ?l1.0 = 189 and ?l2.0 = 193 and now = 0]
  obtain out q where x: "main_process stored_lib mem_ok env_ok ?open start_env ''squashfs-fuse'' ?argv start_process = Some (out, q)"
    using run m by (auto split: option.splits)
  with run m have out: "out = Run_fuse (''squashfs-fuse'' # fuse_args ''i'' ?argv @ [''-oro'', ''-onosuid'', ''-onodev'']) ctx"
    by simp
  from run [unfolded x out] have "\<exists>ctx' q'. sqfs_fuse_destroy (\<lambda>k. log_env_ok) [] [] 189 193 0 ctx q = Some (Inr (ctx', q')) \<and> all_closed q'"
    by (auto simp: mounted_def dest!: spec [of _ "\<lparr>se_ctx = ctx, se_open = Map.empty\<rparr>"])
  with x out show ?thesis by blast
qed

end
