(* ===== verification/Printing.thy ===== *)
theory Printing
  imports InodeTypes Fragment Directory Report
begin

text \<open>
  The printing routines of \<open>src/core\<close>: \<open>sqfs_superblock_print\<close>, \<open>sqfs_inode_print\<close>,
  \<open>sqfs_directory_print\<close>, \<open>sqfs_fragment_table_print\<close>, and the time and the module names of the log.
  A routine yields the bytes it writes to the standard output, or the fault of a pointer it follows.
\<close>

section \<open>Conversions\<close>

text \<open>\<open>%u\<close>, \<open>%0nx\<close> of a number of at most \<open>n\<close> digits, \<open>%04o\<close>, and \<open>%0nd\<close>.\<close>

definition fmt_u :: "u32 \<Rightarrow> byte list" where "fmt_u w = decimal (unat w)"

primrec fmt_hex :: "nat \<Rightarrow> nat \<Rightarrow> byte list" where
  "fmt_hex 0 v = []"
| "fmt_hex (Suc n) v = fmt_hex n (v div 16) @ [hex_digit (of_nat (v mod 16))]"

fun octal :: "nat \<Rightarrow> byte list" where
  "octal n = (if n < 8 then [48 + of_nat n] else octal (n div 8) @ [48 + of_nat (n mod 8)])"

declare octal.simps [simp del]

definition zero_pad :: "nat \<Rightarrow> byte list \<Rightarrow> byte list" where
  "zero_pad n s = replicate (n - length s) 48 @ s"

definition fmt_0d :: "nat \<Rightarrow> int \<Rightarrow> byte list" where
  "fmt_0d n i = (if i < 0 then 45 # zero_pad (n - 1) (decimal (nat (- i))) else zero_pad n (decimal (nat i)))"

text \<open>\<open>%s\<close> of a pointer to an allocation of these bytes.\<close>

definition c_string :: "byte list \<Rightarrow> byte list res" where
  "c_string bs = (if 0 \<in> set bs then Inr (takeWhile (\<lambda>b. b \<noteq> 0) bs) else Inl (Fault OOB_Read))"

text \<open>Lines of text.\<close>

definition print_lines :: "byte list list \<Rightarrow> byte list" where
  "print_lines ls = concat (map (\<lambda>l. l @ [10]) ls)"

definition yes_no :: "bool \<Rightarrow> byte list" where
  "yes_no b = (if b then ascii ''yes'' else ascii ''no'')"

section \<open>The superblock\<close>

definition SQUASHFS_FLAG_UNCOMP_INODES :: u16 where "SQUASHFS_FLAG_UNCOMP_INODES = 0x0001"
definition SQUASHFS_FLAG_UNCOMP_DATA :: u16 where "SQUASHFS_FLAG_UNCOMP_DATA = 0x0002"

definition superblock_lines :: "sqfs_superblock \<Rightarrow> byte list list" where
  "superblock_lines sb =
     (let d = disk sb in
      [ascii ''=== SquashFS Superblock ==='',
      ascii ''Magic:           0x'' @ fmt_hex 8 (unat (magic d)),
      ascii ''Version:         '' @ decimal (unat (version_major d)) @ [46] @ decimal (unat (version_minor d)),
      ascii ''Inode Count:     '' @ fmt_u (inode_count d),
      ascii ''Block Size:      '' @ fmt_u (block_size d) @ ascii '' (log2='' @ decimal (unat (block_log d)) @ ascii '')'',
      ascii ''Frag Count:      '' @ fmt_u (frag_count d),
      ascii ''Compressor:      '' @ decimal (unat (compressor d)) @ ascii '' ('' @ ascii (compressor_name (compressor d)) @ ascii '')'',
      ascii ''Flags:           0x'' @ fmt_hex 4 (unat (flags d)),
      ascii ''  - Uncompressed inodes:  '' @ yes_no (flags d AND SQUASHFS_FLAG_UNCOMP_INODES \<noteq> 0),
      ascii ''  - Uncompressed data:    '' @ yes_no (flags d AND SQUASHFS_FLAG_UNCOMP_DATA \<noteq> 0),
      ascii ''  - No fragments:         '' @ yes_no (flags d AND SQUASHFS_FLAG_NO_FRAGS \<noteq> 0),
      ascii ''  - Has xattrs:           '' @ yes_no (has_xattrs sb),
      ascii ''  - Has export table:     '' @ yes_no (has_export sb),
      ascii ''ID Count:        '' @ decimal (unat (id_count d)),
      ascii ''Bytes Used:      '' @ fmt_lu (bytes_used d),
      ascii ''Root Inode:      0x'' @ fmt_hex 16 (unat (root_inode d)),
      [],
      ascii ''Table Locations:'',
      ascii ''  Inode Table:   0x'' @ fmt_hex 16 (unat (inode_table d)),
      ascii ''  Dir Table:     0x'' @ fmt_hex 16 (unat (dir_table d)),
      ascii ''  Frag Table:    0x'' @ fmt_hex 16 (unat (frag_table d)),
      ascii ''  ID Table:      0x'' @ fmt_hex 16 (unat (id_table d)),
      ascii ''  Xattr Table:   0x'' @ fmt_hex 16 (unat (xattr_table d)),
      ascii ''  Export Table:  0x'' @ fmt_hex 16 (unat (export_table d))])"

definition sqfs_superblock_print :: "sqfs_superblock option \<Rightarrow> byte list" where
  "sqfs_superblock_print p =
     (case p of None \<Rightarrow> print_lines [ascii ''Superblock: NULL''] | Some sb \<Rightarrow> print_lines (superblock_lines sb))"

section \<open>Inodes\<close>

text \<open>The lines of a directory: the attribute index is the member of the union that lies over
  \<open>block_idx\<close>.\<close>

definition print_dir :: "sqfs_inode \<Rightarrow> byte list" where
  "print_dir i = print_lines
     ([ascii ''  [directory]'',
       ascii ''    block_idx: '' @ fmt_lu (dir_block_idx i),
       ascii ''    size: '' @ fmt_u (dir_size i),
       ascii ''    block_offset: '' @ decimal (unat (dir_block_offset i)),
       ascii ''    parent_inode: '' @ fmt_lu (dir_parent_inode i)]
      @ (if i_type i = SQFS_INODE_LDIR
         then [ascii ''    index_count: '' @ decimal (unat (dir_index_count i)),
               ascii ''    xattr_idx: '' @ fmt_u (i_xattr_idx i)] else []))"

text \<open>The first five sizes, out of the array.\<close>

definition print_block_sizes :: "u32 list \<Rightarrow> u32 \<Rightarrow> byte list res" where
  "print_block_sizes bs n =
     (let k = min 5 (unat n) in
      if length bs < k then Inl (Fault OOB_Read)
      else Inr (print_lines [ascii ''    block_sizes: '' @ concat (map (\<lambda>s. fmt_u s @ [32]) (take k bs))
                  @ (if 5 < n then ascii ''...'' else [])]))"

definition print_file :: "sqfs_inode \<Rightarrow> byte list res" where
  "print_file i =
     (let head = print_lines
        ([ascii ''  [file]'',
          ascii ''    blocks_start: '' @ fmt_lu (file_blocks_start i),
          ascii ''    file_size: '' @ fmt_lu (file_file_size i),
          ascii ''    sparse: '' @ fmt_lu (file_sparse i),
          ascii ''    frag_idx: '' @ fmt_u (file_frag_idx i),
          ascii ''    block_offset: '' @ fmt_u (file_block_offset i),
          ascii ''    block_count: '' @ fmt_u (file_block_count i)]
         @ (if i_type i = SQFS_INODE_LFILE then [ascii ''    xattr_idx: '' @ fmt_u (file_xattr_idx i)] else [])) in
      case i_block_sizes i of
        None \<Rightarrow> Inr head
      | Some bs \<Rightarrow> if 0 < file_block_count i
                   then rbind (print_block_sizes bs (file_block_count i)) (\<lambda>s. Inr (head @ s)) else Inr head)"

definition print_symlink :: "sqfs_inode \<Rightarrow> byte list res" where
  "print_symlink i =
     rbind (case i_target_alloc i of
              Some (a, bs) \<Rightarrow> if symlink_target i = a then c_string bs
                else Inl (Fault (if symlink_target i = 0 then Null_Deref else Wild_Pointer))
            | None \<Rightarrow> Inl (Fault (if symlink_target i = 0 then Null_Deref else Wild_Pointer)))
       (\<lambda>s. Inr (print_lines
         ([ascii ''  [symlink]'', ascii ''    target: '' @ s]
          @ (if i_type i = SQFS_INODE_LSYMLINK then [ascii ''    xattr_idx: '' @ fmt_u (i_xattr_idx i)] else []))))"

definition print_dev :: "string \<Rightarrow> sqfs_inode_type \<Rightarrow> sqfs_inode \<Rightarrow> byte list" where
  "print_dev kind ext i = print_lines
     ([ascii kind, ascii ''    major: '' @ fmt_u (dev_major i) @ ascii '', minor: '' @ fmt_u (dev_minor i)]
      @ (if i_type i = ext then [ascii ''    xattr_idx: '' @ fmt_u (i_xattr_idx i)] else []))"

definition print_ipc :: "string \<Rightarrow> sqfs_inode_type \<Rightarrow> sqfs_inode \<Rightarrow> byte list" where
  "print_ipc kind ext i = print_lines
     ([ascii kind] @ (if i_type i = ext then [ascii ''    xattr_idx: '' @ fmt_u (i_xattr_idx i)] else []))"

text \<open>The switch over the type. The default branch is for values that are no enumerator.\<close>

definition print_body :: "sqfs_inode \<Rightarrow> byte list res" where
  "print_body i =
     (let t = i_type i in
      if t = SQFS_INODE_DIR \<or> t = SQFS_INODE_LDIR then Inr (print_dir i)
      else if t = SQFS_INODE_FILE \<or> t = SQFS_INODE_LFILE then print_file i
      else if t = SQFS_INODE_SYMLINK \<or> t = SQFS_INODE_LSYMLINK then print_symlink i
      else if t = SQFS_INODE_BLKDEV \<or> t = SQFS_INODE_LBLKDEV
        then Inr (print_dev ''  [block device]'' SQFS_INODE_LBLKDEV i)
      else if t = SQFS_INODE_CHRDEV \<or> t = SQFS_INODE_LCHRDEV
        then Inr (print_dev ''  [char device]'' SQFS_INODE_LCHRDEV i)
      else if t = SQFS_INODE_FIFO \<or> t = SQFS_INODE_LFIFO then Inr (print_ipc ''  [fifo]'' SQFS_INODE_LFIFO i)
      else Inr (print_ipc ''  [socket]'' SQFS_INODE_LSOCKET i))"

definition sqfs_inode_print :: "sqfs_inode option \<Rightarrow> byte list res" where
  "sqfs_inode_print p =
     (case p of
        None \<Rightarrow> Inr (print_lines [ascii ''inode: NULL''])
      | Some i \<Rightarrow> rbind (print_body i) (\<lambda>body. Inr (print_lines
          [ascii ''Inode #'' @ fmt_lu (i_number i) @ [58],
           ascii ''  type: '' @ decimal (inode_type_code (i_type i)) @ ascii '' (''
             @ ascii (sqfs_inode_type_name (i_type i)) @ ascii '')'',
           ascii ''  permissions: '' @ zero_pad 4 (octal (unat (i_permissions i))),
           ascii ''  uid: '' @ decimal (unat (i_uid i)) @ ascii '', gid: '' @ decimal (unat (i_gid i)),
           ascii ''  mtime: '' @ fmt_u (i_mtime i),
           ascii ''  link_count: '' @ fmt_u (i_link_count i)] @ body)))"

section \<open>Listings\<close>

definition dirent_type_str :: "sqfs_inode_type \<Rightarrow> string" where
  "dirent_type_str t =
     (if t = SQFS_INODE_DIR then ''dir'' else if t = SQFS_INODE_FILE then ''file''
      else if t = SQFS_INODE_SYMLINK then ''symlink'' else if t = SQFS_INODE_BLKDEV then ''blkdev''
      else if t = SQFS_INODE_CHRDEV then ''chrdev'' else if t = SQFS_INODE_FIFO then ''fifo''
      else if t = SQFS_INODE_SOCKET then ''socket'' else ''unknown'')"

text \<open>The loop: the entries from the \<open>i\<close>th on, of which \<open>n\<close> are printed.\<close>

fun print_entries :: "nat \<Rightarrow> nat \<Rightarrow> sqfs_dirent list \<Rightarrow> byte list res" where
  "print_entries i 0 es = Inr []"
| "print_entries i (Suc n) [] = Inl (Fault OOB_Read)"
| "print_entries i (Suc n) (e # es) =
     rbind (c_string (d_name e)) (\<lambda>s. rbind (print_entries (Suc i) n es) (\<lambda>rest.
       Inr (print_lines [ascii ''  ['' @ decimal i @ ascii ''] '' @ s @ ascii '' (inode='' @ fmt_lu (d_inode_number e)
              @ ascii '', type='' @ ascii (dirent_type_str (d_type e)) @ ascii '')''] @ rest)))"

definition sqfs_directory_print :: "sqfs_dirent list option \<Rightarrow> nat \<Rightarrow> byte list res" where
  "sqfs_directory_print p cnt =
     (case p of
        None \<Rightarrow> Inr (print_lines [ascii ''Directory: (null)''])
      | Some es \<Rightarrow> rbind (print_entries 0 cnt es) (\<lambda>body.
          Inr (print_lines [ascii ''Directory entries ('' @ decimal cnt @ ascii ''):''] @ body)))"

section \<open>The fragment table\<close>

text \<open>Compiled for debugging only. The entries are read below the smaller of the count and 10.\<close>

definition print_fragment :: "nat \<Rightarrow> sqfs_frag_entry \<Rightarrow> byte list" where
  "print_fragment i e =
     ascii ''  ['' @ decimal i @ ascii ''] pos=0x'' @ fmt_hex 16 (unat (fe_start e)) @ ascii '' size=''
     @ fmt_u (sqfs_fragment_size (fe_size e)) @ ascii '' (''
     @ (if sqfs_fragment_is_uncompressed (fe_size e) then ascii ''uncompressed'' else ascii ''compressed'') @ ascii '')''"

definition sqfs_fragment_table_print :: "sqfs_fragment_table option \<Rightarrow> byte list res" where
  "sqfs_fragment_table_print p =
     (case p of
        None \<Rightarrow> Inr (print_lines [ascii ''Fragment table: NULL''])
      | Some t \<Rightarrow>
          (let head = print_lines [ascii ''=== Fragment Table ==='', ascii ''Loaded: '' @ yes_no (ft_loaded t),
                        ascii ''Count:  '' @ fmt_u (ft_count t)];
               k = min 10 (unat (ft_count t)) in
           case ft_entries t of
             None \<Rightarrow> Inr head
           | Some es \<Rightarrow>
               if ft_count t = 0 then Inr head
               else if length es < k then Inl (Fault OOB_Read)
               else Inr (head @ print_lines ([[], ascii ''Entries:'']
                      @ map (\<lambda>i. print_fragment i (es ! i)) [0..<k]
                      @ (if 10 < ft_count t
                         then [ascii ''  ... ('' @ fmt_u (ft_count t - 10) @ ascii '' more entries)''] else [])))))"

section \<open>The log\<close>

definition sqfs_module_name :: "int \<Rightarrow> byte list" where
  "sqfs_module_name module =
     (if 0 \<le> module \<and> module < 9
      then module_names ([SQFS_MOD_SUPERBLOCK, SQFS_MOD_INODE, SQFS_MOD_DIRECTORY, SQFS_MOD_DATA, SQFS_MOD_FRAGMENT,
             SQFS_MOD_COMPRESSOR, SQFS_MOD_CACHE, SQFS_MOD_XATTR, SQFS_MOD_FUSE] ! nat module)
      else ascii ''unknown'')"

text \<open>The time broken down by \<open>gmtime_r\<close>, the answer of the clock in nanoseconds, and \<open>snprintf\<close>, which
  writes what fits before its terminator and returns the length of the whole text.\<close>

record tm =
  tm_year :: int
  tm_mon :: int
  tm_mday :: int
  tm_hour :: int
  tm_min :: int
  tm_sec :: int

definition c_snprintf :: "nat \<Rightarrow> byte list \<Rightarrow> byte list \<times> nat" where
  "c_snprintf sz s = (take (sz - 1) s, length s)"

definition format_timestamp :: "nat \<Rightarrow> (int \<times> int) option \<Rightarrow> (int \<Rightarrow> tm option) \<Rightarrow> byte list \<times> nat" where
  "format_timestamp sz clock gmtime_r =
     (case clock of
        None \<Rightarrow> c_snprintf sz (ascii ''1970-01-01T00:00:00.000Z'')
      | Some (tv_sec, tv_nsec) \<Rightarrow>
          (case gmtime_r tv_sec of
             None \<Rightarrow> c_snprintf sz (ascii ''1970-01-01T00:00:00.000Z'')
           | Some t \<Rightarrow> c_snprintf sz
               (fmt_0d 4 (tm_year t + 1900) @ [45] @ fmt_0d 2 (tm_mon t + 1) @ [45] @ fmt_0d 2 (tm_mday t) @ [84]
                @ fmt_0d 2 (tm_hour t) @ [58] @ fmt_0d 2 (tm_min t) @ [58] @ fmt_0d 2 (tm_sec t) @ [46]
                @ fmt_0d 3 (tv_nsec div 1000000) @ [90])))"


section \<open>The texts can be read back\<close>

text \<open>Two texts with a mark after the part that has no such mark agree in that part.\<close>

lemma mark_unique:
  "l @ a # r = l' @ b # r' \<Longrightarrow> \<forall>x\<in>set l. P x \<Longrightarrow> \<forall>x\<in>set l'. P x \<Longrightarrow> \<not> P a \<Longrightarrow> \<not> P b \<Longrightarrow> l = l' \<and> r = r'"
proof (induction l arbitrary: l')
  case Nil
  then show ?case by (cases l') auto
next
  case (Cons x l)
  then show ?case by (cases l') auto
qed

lemma print_lines_inject:
  "print_lines ls = print_lines ls' \<Longrightarrow> \<forall>l\<in>set ls. 10 \<notin> set l \<Longrightarrow> \<forall>l\<in>set ls'. 10 \<notin> set l \<Longrightarrow> ls = ls'"
proof (induction ls arbitrary: ls')
  case Nil
  then show ?case by (cases ls') (auto simp: print_lines_def)
next
  case (Cons l ls)
  then obtain l' ls2 where ls': "ls' = l' # ls2" by (cases ls') (auto simp: print_lines_def)
  with Cons.prems have "l @ 10 # print_lines ls = l' @ 10 # print_lines ls2" by (simp add: print_lines_def)
  then have "l = l' \<and> print_lines ls = print_lines ls2"
    by (rule mark_unique [where P = "\<lambda>x. x \<noteq> 10"]) (use Cons.prems ls' in auto)
  with Cons.IH [of ls2] Cons.prems ls' show ?case by simp
qed

lemma byte_of_nat: "n < 256 \<Longrightarrow> unat (of_nat n :: byte) = n"
  by (simp add: unsigned_of_nat take_bit_nat_eq_self)

lemma digit_byte:
  assumes "d < 10"
  shows "48 \<le> (48 + of_nat d :: byte) \<and> (48 + of_nat d :: byte) \<le> 57 \<and> unat (48 + of_nat d :: byte) = 48 + d"
proof -
  have "(48 + of_nat d :: byte) = of_nat (48 + d)" by simp
  then have "unat (48 + of_nat d :: byte) = 48 + d" using assms byte_of_nat [of "48 + d"] by simp
  then show ?thesis using assms by (simp add: word_le_nat_alt)
qed

lemma decimal_digits: "b \<in> set (decimal n) \<Longrightarrow> 48 \<le> b \<and> b \<le> 57"
proof (induction n rule: decimal.induct)
  case (1 n)
  show ?case
  proof (cases "n < 10")
    case True
    with 1 show ?thesis by (simp add: decimal.simps [of n] digit_byte)
  next
    case False
    with 1 show ?thesis using digit_byte [of "n mod 10"] by (auto simp: decimal.simps [of n])
  qed
qed

definition read_decimal :: "byte list \<Rightarrow> nat" where
  "read_decimal s = foldl (\<lambda>v b. 10 * v + (unat b - 48)) 0 s"

lemma read_decimal_decimal: "read_decimal (decimal n) = n"
proof (induction n rule: decimal.induct)
  case (1 n)
  show ?case
  proof (cases "n < 10")
    case True
    then show ?thesis using digit_byte [of n] by (simp add: decimal.simps [of n] read_decimal_def)
  next
    case False
    with 1 show ?thesis using digit_byte [of "n mod 10"]
      by (simp add: decimal.simps [of n] read_decimal_def)
  qed
qed

lemma decimal_inject [simp]: "decimal m = decimal n \<longleftrightarrow> m = n"
  by (metis read_decimal_decimal)

lemma decimal_mark:
  assumes "decimal m @ a # r = decimal n @ b # r'" "\<not> (48 \<le> a \<and> a \<le> 57)" "\<not> (48 \<le> b \<and> b \<le> 57)"
  shows "m = n \<and> r = r'"
  using mark_unique [OF assms(1), where P = "\<lambda>b. 48 \<le> b \<and> b \<le> 57"] assms(2,3) by (auto dest: decimal_digits)

lemma unat_inject: "unat (a :: 'a :: len word) = unat b \<longleftrightarrow> a = b"
  by (metis word_unat_eq_iff)

lemma fmt_inject [simp]: "fmt_u a = fmt_u b \<longleftrightarrow> a = b" "fmt_lu c = fmt_lu d \<longleftrightarrow> c = d"
  by (simp_all add: fmt_u_def fmt_lu_def unat_inject)

lemma hex_digit_of_nat:
  assumes "d < 16"
  shows "unat (hex_digit (of_nat d)) = (if d < 10 then 48 + d else 87 + d)"
proof -
  have small: "(of_nat d :: byte) < 10 \<longleftrightarrow> d < 10" using assms byte_of_nat [of d] by (simp add: word_less_nat_alt)
  have "(48 + of_nat d :: byte) = of_nat (48 + d)" "(87 + of_nat d :: byte) = of_nat (87 + d)" by simp_all
  then show ?thesis
    using assms byte_of_nat [of "48 + d"] byte_of_nat [of "87 + d"] by (simp add: hex_digit_def small)
qed

lemma hex_digit_inject:
  assumes "d < 16" "e < 16" "hex_digit (of_nat d) = hex_digit (of_nat e)"
  shows "d = e"
proof -
  have "(if d < 10 then 48 + d else 87 + d) = (if e < 10 then 48 + e else 87 + e)"
    using hex_digit_of_nat [OF assms(1)] hex_digit_of_nat [OF assms(2)] by (simp only: assms(3))
  then show ?thesis by presburger
qed

lemma fmt_hex_inject: "fmt_hex n v = fmt_hex n w \<Longrightarrow> v < 16 ^ n \<Longrightarrow> w < 16 ^ n \<Longrightarrow> v = w"
proof (induction n arbitrary: v w)
  case (Suc n)
  from Suc.prems have "v div 16 = w div 16"
    by (intro Suc.IH) (auto simp: less_mult_imp_div_less)
  moreover from Suc.prems have "v mod 16 = w mod 16" by (auto dest: hex_digit_inject [rotated 2])
  ultimately show ?case by (metis mult_div_mod_eq)
qed simp

lemma fmt_hex_word [simp]:
  "fmt_hex 4 (unat (a :: u16)) = fmt_hex 4 (unat b) \<longleftrightarrow> a = b"
  "fmt_hex 8 (unat (c :: u32)) = fmt_hex 8 (unat d) \<longleftrightarrow> c = d"
  "fmt_hex 16 (unat (x :: u64)) = fmt_hex 16 (unat y) \<longleftrightarrow> x = y"
proof -
  have "unat w < 16 ^ 4" for w :: u16 by simp
  then show "fmt_hex 4 (unat a) = fmt_hex 4 (unat b) \<longleftrightarrow> a = b" by (metis fmt_hex_inject unat_inject)
  have "unat w < 16 ^ 8" for w :: u32 by simp
  then show "fmt_hex 8 (unat c) = fmt_hex 8 (unat d) \<longleftrightarrow> c = d" by (metis fmt_hex_inject unat_inject)
  have "unat w < 16 ^ 16" for w :: u64 by simp
  then show "fmt_hex 16 (unat x) = fmt_hex 16 (unat y) \<longleftrightarrow> x = y" by (metis fmt_hex_inject unat_inject)
qed

lemma fmt_hex_no_newline: "10 \<notin> set (fmt_hex n v)"
proof (induction n arbitrary: v)
  case (Suc n)
  have "unat (hex_digit (of_nat (v mod 16))) \<noteq> 10" by (simp add: hex_digit_of_nat)
  then have "10 \<noteq> hex_digit (of_nat (v mod 16))" by auto
  with Suc show ?case by simp
qed simp

lemma decimal_no_newline: "10 \<notin> set (decimal n)" "10 \<notin> set (fmt_u w)" "10 \<notin> set (fmt_lu x)"
  by (auto simp: fmt_u_def fmt_lu_def dest: decimal_digits)

lemma ascii_no_newline: "list_all (\<lambda>c. of_char c \<noteq> (10 :: byte)) s \<Longrightarrow> 10 \<notin> set (ascii s)"
  by (auto simp: ascii_def list_all_iff)

lemma yes_no_inject [simp]: "yes_no a = yes_no b \<longleftrightarrow> a = b"
  by (auto simp: yes_no_def ascii_def)

text \<open>The dump of a superblock determines the superblock, but for the time of its last change, the
  descriptor and the size of the file.\<close>

lemma superblock_lines_plain: "\<forall>l\<in>set (superblock_lines sb). 10 \<notin> set l"
  by (simp add: superblock_lines_def Let_def fmt_hex_no_newline decimal_no_newline yes_no_def compressor_name_def ascii_def)

lemma ascii_Cons: "ascii (c # s) = of_char c # ascii s" by (simp add: ascii_def)

lemma superblock_lines_inject:
  assumes "superblock_lines a = superblock_lines b"
  shows "(disk a)\<lparr>mod_time := 0\<rparr> = (disk b)\<lparr>mod_time := 0\<rparr>" and "has_xattrs a = has_xattrs b"
    and "has_export a = has_export b"
proof -
  note eqs = assms [unfolded superblock_lines_def Let_def list.inject append_same_eq same_append_eq
      fmt_inject fmt_hex_word yes_no_inject decimal_inject]
  from eqs show "has_xattrs a = has_xattrs b" "has_export a = has_export b" by simp_all
  have "decimal (unat (version_major (disk a))) @ 46 # decimal (unat (version_minor (disk a)))
      = decimal (unat (version_major (disk b))) @ 46 # decimal (unat (version_minor (disk b)))" using eqs by simp
  from decimal_mark [OF this]
  have version: "version_major (disk a) = version_major (disk b)" "version_minor (disk a) = version_minor (disk b)"
    by (simp_all add: unat_inject)
  have "fmt_u (block_size (disk a)) @ ascii '' (log2='' @ decimal (unat (block_log (disk a))) @ ascii '')''
      = fmt_u (block_size (disk b)) @ ascii '' (log2='' @ decimal (unat (block_log (disk b))) @ ascii '')''"
    using eqs by simp
  then have "decimal (unat (block_size (disk a))) @ 32 # ascii ''(log2='' @ decimal (unat (block_log (disk a))) @ ascii '')''
      = decimal (unat (block_size (disk b))) @ 32 # ascii ''(log2='' @ decimal (unat (block_log (disk b))) @ ascii '')''"
    by (simp add: ascii_Cons fmt_u_def)
  from decimal_mark [OF this]
  have block: "block_size (disk a) = block_size (disk b)" "block_log (disk a) = block_log (disk b)"
    by (simp_all add: unat_inject)
  have "decimal (unat (compressor (disk a))) @ ascii '' ('' @ ascii (compressor_name (compressor (disk a))) @ ascii '')''
      = decimal (unat (compressor (disk b))) @ ascii '' ('' @ ascii (compressor_name (compressor (disk b))) @ ascii '')''"
    using eqs by simp
  then have "decimal (unat (compressor (disk a))) @ 32 # ascii ''('' @ ascii (compressor_name (compressor (disk a))) @ ascii '')''
      = decimal (unat (compressor (disk b))) @ 32 # ascii ''('' @ ascii (compressor_name (compressor (disk b))) @ ascii '')''"
    by (simp add: ascii_Cons)
  from decimal_mark [OF this] have "compressor (disk a) = compressor (disk b)" by (simp add: unat_inject)
  with eqs version block show "(disk a)\<lparr>mod_time := 0\<rparr> = (disk b)\<lparr>mod_time := 0\<rparr>"
    by (cases "disk a"; cases "disk b") (simp add: unat_inject)
qed

theorem superblock_print_determines:
  assumes "sqfs_superblock_print (Some a) = sqfs_superblock_print (Some b)"
  shows "(disk a)\<lparr>mod_time := 0\<rparr> = (disk b)\<lparr>mod_time := 0\<rparr> \<and> has_xattrs a = has_xattrs b \<and> has_export a = has_export b"
proof -
  have "print_lines (superblock_lines a) = print_lines (superblock_lines b)"
    using assms by (simp only: sqfs_superblock_print_def option.case)
  from print_lines_inject [OF this superblock_lines_plain superblock_lines_plain]
  show ?thesis by (intro conjI superblock_lines_inject)
qed

section \<open>What can be printed\<close>

text \<open>Every inode the program makes can be printed, but for an extended symbolic link whose pointer the
  index of the attributes has changed: that pointer is followed. The attribute index printed for an extended directory
  is the low half of the position of its listing.\<close>

definition pointer_intact :: "sqfs_inode \<Rightarrow> bool" where
  "pointer_intact i \<longleftrightarrow> (sqfs_inode_is_symlink (i_type i) \<longrightarrow> map_option fst (i_target_alloc i) = Some (symlink_target i))"

lemma print_block_sizes_ok: "length bs = unat n \<Longrightarrow> \<exists>s. print_block_sizes bs n = Inr s"
  by (auto simp: print_block_sizes_def Let_def)

lemma c_string_ok: "bs \<noteq> [] \<Longrightarrow> last bs = 0 \<Longrightarrow> \<exists>s. c_string bs = Inr s"
  by (metis c_string_def last_in_set)

lemma print_file_ok: "block_list_typed i \<Longrightarrow> \<exists>s. print_file i = Inr s"
  using print_block_sizes_ok [of _ "file_block_count i"]
  by (fastforce simp: print_file_def block_list_typed_def Let_def rbind_def split: option.splits)

lemma print_symlink_cases:
  assumes "target_typed mem i" "sqfs_inode_is_symlink (i_type i)"
  shows "if pointer_intact i then \<exists>s. print_symlink i = Inr s
         else \<exists>e. print_symlink i = Inl (Fault e) \<and> (e = Wild_Pointer \<or> e = Null_Deref)"
proof -
  from assms obtain a bs where al: "i_target_alloc i = Some (a, bs)" "bs \<noteq> []" "last bs = 0"
    by (fastforce simp: target_typed_def split: option.splits)
  with c_string_ok obtain s where "c_string bs = Inr s" by blast
  with al assms(2) show ?thesis by (auto simp: print_symlink_def pointer_intact_def rbind_def)
qed

theorem inode_print_defined:
  assumes "inode_typed mem i"
  shows "(\<exists>s. sqfs_inode_print (Some i) = Inr s) \<longleftrightarrow> pointer_intact i"
proof -
  have "(\<exists>s. print_body i = Inr s) \<longleftrightarrow> pointer_intact i"
    using assms print_file_ok [of i] print_symlink_cases [of mem i]
    by (cases "i_type i") (auto simp: print_body_def inode_typed_def sqfs_inode_is_symlink_def pointer_intact_def split: if_splits)
  then show ?thesis by (auto simp: sqfs_inode_print_def rbind_def split: sum.splits)
qed

lemma print_entries_ok:
  "n \<le> length es \<Longrightarrow> \<forall>e\<in>set es. 0 \<in> set (d_name e) \<Longrightarrow> \<exists>s. print_entries i n es = Inr s"
proof (induction i n es rule: print_entries.induct)
  case (3 i n e es)
  then show ?case by (auto simp: c_string_def rbind_def)
qed auto

theorem directory_print_defined:
  "\<forall>e\<in>set es. 0 \<in> set (d_name e) \<Longrightarrow> \<exists>s. sqfs_directory_print (Some es) (length es) = Inr s"
  using print_entries_ok [of "length es" es 0] by (auto simp: sqfs_directory_print_def rbind_def)

text \<open>The time fits the buffer of 32 bytes the log gives it for the years with four digits.\<close>

definition tm_ok :: "tm \<Rightarrow> bool" where
  "tm_ok t \<longleftrightarrow> - 1900 \<le> tm_year t \<and> tm_year t \<le> 8099 \<and> 0 \<le> tm_mon t \<and> tm_mon t \<le> 11 \<and> 1 \<le> tm_mday t \<and> tm_mday t \<le> 31
     \<and> 0 \<le> tm_hour t \<and> tm_hour t \<le> 23 \<and> 0 \<le> tm_min t \<and> tm_min t \<le> 59 \<and> 0 \<le> tm_sec t \<and> tm_sec t \<le> 60"

lemma fmt_0d_length:
  assumes "0 \<le> i" "n = Suc k" "i < 10 ^ n"
  shows "length (fmt_0d n i) = n"
proof -
  have "nat i < 10 ^ Suc k" using assms by (simp add: nat_less_iff)
  from decimal_length [OF this] show ?thesis using assms by (simp add: fmt_0d_def zero_pad_def)
qed

lemma fmt_0d_widths:
  "0 \<le> i \<Longrightarrow> i < 100 \<Longrightarrow> length (fmt_0d 2 i) = 2" "0 \<le> i \<Longrightarrow> i < 1000 \<Longrightarrow> length (fmt_0d 3 i) = 3"
  "0 \<le> i \<Longrightarrow> i < 10000 \<Longrightarrow> length (fmt_0d 4 i) = 4"
  using fmt_0d_length [of i 2 1] fmt_0d_length [of i 3 2] fmt_0d_length [of i 4 3] by simp_all

theorem timestamp_fits:
  assumes "\<And>s ns. clock = Some (s, ns) \<Longrightarrow> 0 \<le> ns \<and> ns < 1000000000" and "\<And>s t. gmtime_r s = Some t \<Longrightarrow> tm_ok t"
  shows "length (fst (format_timestamp 32 clock gmtime_r)) = 24 \<and> snd (format_timestamp 32 clock gmtime_r) = 24"
proof (cases clock)
  case None
  then show ?thesis by (simp add: format_timestamp_def c_snprintf_def)
next
  case (Some p)
  obtain s ns where c: "clock = Some (s, ns)" using Some by (cases p) auto
  show ?thesis
  proof (cases "gmtime_r s")
    case None
    with c show ?thesis by (simp add: format_timestamp_def c_snprintf_def)
  next
    case t: (Some t)
    with assms(2) have ok: "tm_ok t" by blast
    have "length (fmt_0d 4 (tm_year t + 1900)) = 4" "length (fmt_0d 2 (tm_mon t + 1)) = 2" "length (fmt_0d 2 (tm_mday t)) = 2"
      "length (fmt_0d 2 (tm_hour t)) = 2" "length (fmt_0d 2 (tm_min t)) = 2" "length (fmt_0d 2 (tm_sec t)) = 2"
      using ok by (simp_all add: tm_ok_def fmt_0d_widths)
    moreover have "0 \<le> ns div 1000000 \<and> ns div 1000000 < 1000"
      using assms(1) [OF c] zdiv_mono1 [of ns 999999999 1000000] by (simp add: pos_imp_zdiv_nonneg_iff)
    then have "length (fmt_0d 3 (ns div 1000000)) = 3" by (simp add: fmt_0d_widths)
    ultimately show ?thesis using c t by (simp add: format_timestamp_def c_snprintf_def)
  qed
qed

end
