(* ===== verification/Spec2Isabelle.thy ===== *)
theory Spec2Isabelle
  imports SessionClaims CacheThreads Kernel Process Printing
begin

text \<open>
  Verification of squashfs-fuse, a read-only SquashFS file system in C that runs in user space
  behind FUSE (sources under \<open>src/\<close>).

  The program. \<open>fuse/fuse_main.c\<close> reads the arguments, opens the image and creates a context
  (\<open>core/context.h\<close>): the superblock, a compressor object, four caches, the tables of ids and of
  fragments. \<open>fuse/vfs_fuse.c\<close> passes the callbacks of FUSE on to \<open>vfs/vfs_ops.c\<close>, which resolves
  paths by loading inodes (\<open>core/inode.c\<close>) and directories (\<open>core/directory.c\<close>), both out of metadata
  blocks (\<open>core/data.c\<close>), and reads files block by block through the data cache (\<open>core/cache.c\<close>),
  with the tail out of a fragment (\<open>core/fragment.c\<close>). Attributes are read by \<open>core/xattr.c\<close>.

  How it is modelled. Machine integers are words of their width; byte buffers are lists with
  explicit bounds; a result is a value, an error code of the program, or a fault (an access outside
  of a buffer, of an uninitialised byte, of a null or dangling pointer, a division by zero). A claim
  that a routine is safe says that it never yields a fault. The image is \<open>os_file\<close>: its bytes, its
  size according to \<open>fstat\<close>, and for every read the interruptions and short counts of the kernel.
  Allocation is a function from sizes to addresses, 0 for failure. zlib and zstd are the record
  \<open>codec_lib\<close>; what is assumed of them is that they write no more than the space they are
  given. Loops that may not end are partial functions whose \<open>None\<close> is not returning; all other
  recursion has a termination proof, and no fuel is used anywhere.

  Theories, in the order of the code:
  \<^item> \<open>Prelude\<close>: words, results, buffers, the shared lemmas.
  \<^item> \<open>Utils\<close> (\<open>core/utils.h\<close>, \<open>utils.c\<close>): error codes, references, byte order (locale \<open>le_codec\<close>,
    interpreted for 16, 32 and 64 bits), the read loops (locale \<open>image_reader\<close>, interpreted for
    \<open>sqfs_pread_all\<close> and in \<open>MetaBlock\<close> for \<open>read_block_from_disk\<close>).
  \<^item> \<open>Stats\<close>, \<open>Superblock\<close>, \<open>Compressor\<close>: the files of these names. A superblock loads exactly when it
    passes the format's rules.
  \<^item> \<open>MetaBlock\<close> (metadata half of \<open>core/data.c\<close>): one block with its in-place decompression, reads
    across blocks; streams written as raw and compressed blocks read back.
  \<^item> \<open>ReadBuffer\<close>: the same read loops into a buffer whose size the caller does not compare with the size it asks for, as
    for directory blocks, data blocks, fragments and attributes: a fault exactly when the kernel delivers more than the buffer
    holds (not when the image ends before); and copies into a buffer of known size.
  \<^item> \<open>Inode\<close>, \<open>InodeFormat\<close> (\<open>core/inode.c\<close>): the fourteen formats, the runtime inode with its union
    kept byte by byte, the parsers, look-up by reference and by number; round trip, safety, and what the
    union, the static buffer and the release get wrong.
  \<^item> \<open>Directory\<close>, \<open>DirectoryFormat\<close> (\<open>core/directory.c\<close>): reading and parsing a listing; round
    trip over any cut into blocks, totality of the parser, the one overflow.
  \<^item> \<open>Cache\<close>, \<open>CacheLinks\<close>, \<open>CacheLru\<close>, \<open>CacheStore\<close> (\<open>core/cache.c\<close>): the cache at pointer level (a
    heap of entries, the list, the hash chains), its invariant, its refinement of a list ordered
    by recency, exact freeing over any run. The locale \<open>value_cache\<close> is what readers rely on; it is
    interpreted on the pointer model as \<open>lru\<close>. \<open>CacheThreads\<close> is the cache shared by threads: any interleaving
    of look-ups, split where they change or drop the lock, with the writing operations.
  \<^item> \<open>Context\<close>, \<open>DataBlock\<close>, \<open>Fragment\<close>, \<open>DataRead\<close> (\<open>core/context.h\<close>, file half of \<open>core/data.c\<close>,
    \<open>core/fragment.c\<close>): file contexts, block positions, the block readers, the read loop.
    \<open>DataFormat\<close> shows that a read of a stored file ends and returns exactly its bytes for every
    coherent cache; \<open>DataClaims\<close> what happens on short, oversized, colliding and unreadable blocks;
    \<open>FragmentFormat\<close> the round trip of the fragment table.
  \<^item> \<open>Xattr\<close>, \<open>XattrFormat\<close> (\<open>core/xattr.c\<close>): the attribute table, the two-pass parser, get and list.
  \<^item> \<open>Vfs\<close>, \<open>VfsTree\<close> (\<open>vfs/vfs_ops.c\<close>): the operations on paths. \<open>VfsTree\<close> has the abstract file system,
    a tree of inodes, when an image stores it, and that path resolution is look-up in it.
  \<^item> \<open>FuseMain\<close> (\<open>fuse/fuse_main.c\<close>), \<open>Fuse\<close> (\<open>fuse/vfs_fuse.c\<close>): start and end of a mount, the arguments;
    the callbacks, and the sessions as a transition system of opens, reads and releases.
  \<^item> \<open>Session\<close>, \<open>SessionClaims\<close>: what every operation keeps of the context; the invariant of every
    reachable state, the answer to every read in it, and what the mount leaves out. \<open>ImageTree\<close> states when an
    image holds a tree of files in the disk format and that every callback answers as that tree demands.
  \<^item> \<open>InodeTypes\<close>: every inode the program makes is well typed, with the allocations its type calls for.
  \<^item> \<open>Arena\<close>, \<open>Ownership\<close>, \<open>OwnershipInode\<close>, \<open>OwnershipVfs\<close>, \<open>OwnershipXattr\<close>, \<open>Ledger\<close>: the operations that
    allocate once more, over a ledger of the blocks allocated and freed (\<open>_mem\<close>); each yields what its
    definition without the ledger yields, frees no block twice, and holds afterwards exactly the blocks of its result.
  \<^item> \<open>OwnershipTables\<close>, \<open>OwnershipMount\<close>, \<open>OwnershipRead\<close>, \<open>OwnershipFile\<close>: the same for the tables and the compressor, for
    creating and destroying a context, and for reading: the entry a block or a fragment offers to the data cache, then the
    whole read. The bucket tables and the nodes of the caches are not on that ledger: each cache has a heap for its nodes and counts
    its tables. \<open>Account\<close> puts them together: whatever the callbacks of a mount, exactly the blocks of the context and of the
    open files are live, and unmounting leaves the fragment table and nothing of the caches; a cache too small for a block loses
    an entry at each read.
  \<^item> \<open>Process\<close>: \<open>main\<close> and the last callback with the log, the statistics and the descriptor of the image; it refines the
    \<open>main\<close> of \<open>FuseMain\<close> and closes what it opened on every path.
  \<^item> \<open>Log\<close>, \<open>LogFormat\<close> (\<open>core/log.c\<close>), \<open>Report\<close> (\<open>core/stats.c\<close>): the log as a component of its own, its
    rotation and its JSON strings, and the report of the statistics, which always fits. Apart from \<open>Process\<close>, the other theories leave their log messages out.
  \<^item> \<open>Kernel\<close> (\<open>kernel/vfs_kernel.c\<close>): the skeleton of the kernel module, its tables, the filling of an inode,
    loading and unloading.
  \<^item> \<open>Printing\<close>: the texts the printing routines of \<open>src/core\<close> write, when they can be printed, and that the text of a
    superblock determines it; the time stamp of the log, which fits its buffer.

  Bounds. The host is little-endian: it matters for the union of the runtime inode and for the ids, which are copied as
  memory. The size of the caches is at most \<open>2\<^sup>3\<^sup>0\<close> MiB where their counters must not wrap; images are
  shorter than \<open>2\<^sup>6\<^sup>3\<close> bytes, as \<open>off_t\<close> demands; offset and size of a read do not wrap and sizes fit an \<open>int\<close>, which the kernel
  checks. Hypotheses like \<open>file_stored\<close>, \<open>tree_stored\<close> and \<open>entries_stored\<close> describe an image by what the
  block readers deliver for it, with one content for each key of the data cache; each is shown to hold for a concrete image by a witness, and \<open>fs_file\<close>
  is a complete image that \<open>init_context\<close> mounts.

  Not modelled. The messages the other components write to the log (but for those of \<open>main\<close> and of the unmount) and what \<open>main\<close> prints on the terminal;
  the FUSE library, among it whether \<open>fuse_main\<close> gets as far as its callbacks, and the dispatch of its threads (the cache is the one component modelled under threads: it is the
  only one with a lock); the kernel's own functions, which the module calls. The directory and metadata caches
  of the context are never filled by the program.
\<close>

end
